(* ===== verification/Prelude.thy ===== *)
theory Prelude
  imports Main "HOL-Library.Char_ord" "HOL-Library.List_Lexorder" "HOL-Library.Product_Lexorder"
    "HOL-Library.Sublist" "HOL-Library.Word"
begin

text \<open>
  The shared vocabulary of the development: Go byte strings and the functions of
  \<^verbatim>\<open>strings\<close> that the control plane calls, instants and durations, fixed-shape regular
  expressions, updates of a list of records by key, and the collections of facts that the
  component theories extend. Nothing here models a file of the repository; every definition
  is a piece of the language or of its standard library.
\<close>

named_theorems model_defs \<open>definitions of operations, unfolded in one-step proofs\<close>
named_theorems inv_simps \<open>definitions of invariants\<close>
named_theorems frame \<open>what an operation leaves unchanged\<close>

unbundle bit_operations_syntax

section \<open>Instants and durations\<close>

text \<open>
  A \<^verbatim>\<open>time.Time\<close> is the number of nanoseconds since Go's zero time, so \<^verbatim>\<open>IsZero\<close> is
  equality with 0, \<^verbatim>\<open>Before\<close> is \<open><\<close>, \<^verbatim>\<open>After\<close> is \<open>>\<close> and \<^verbatim>\<open>Add\<close>/\<^verbatim>\<open>Sub\<close> are \<open>+\<close>/\<open>-\<close>.
\<close>

type_synonym time = int
type_synonym duration = int

abbreviation millisecond :: duration where "millisecond \<equiv> 1000000"
abbreviation second :: duration where "second \<equiv> 1000000000"
abbreviation minute :: duration where "minute \<equiv> 60000000000"

section \<open>Byte strings\<close>

text \<open>
  A Go string is its UTF-8 byte sequence, here a list of \<^typ>\<open>char\<close>. \<^verbatim>\<open>strings.TrimSpace\<close>
  removes the Unicode white-space runes at both ends; on bytes these are the encodings below.
  Matching an encoding at the end of the byte string is what decoding the last rune does,
  since the decoder stops at the nearest rune-start byte.
\<close>

definition space_runes :: "string list" where
  "space_runes =
    [[CHR 0x20], [CHR 0x09], [CHR 0x0A], [CHR 0x0B], [CHR 0x0C], [CHR 0x0D],
     [CHR 0xC2, CHR 0x85], [CHR 0xC2, CHR 0xA0], [CHR 0xE1, CHR 0x9A, CHR 0x80],
     [CHR 0xE2, CHR 0x80, CHR 0x80], [CHR 0xE2, CHR 0x80, CHR 0x81],
     [CHR 0xE2, CHR 0x80, CHR 0x82], [CHR 0xE2, CHR 0x80, CHR 0x83],
     [CHR 0xE2, CHR 0x80, CHR 0x84], [CHR 0xE2, CHR 0x80, CHR 0x85],
     [CHR 0xE2, CHR 0x80, CHR 0x86], [CHR 0xE2, CHR 0x80, CHR 0x87],
     [CHR 0xE2, CHR 0x80, CHR 0x88], [CHR 0xE2, CHR 0x80, CHR 0x89],
     [CHR 0xE2, CHR 0x80, CHR 0x8A], [CHR 0xE2, CHR 0x80, CHR 0xA8],
     [CHR 0xE2, CHR 0x80, CHR 0xA9], [CHR 0xE2, CHR 0x80, CHR 0xAF],
     [CHR 0xE2, CHR 0x81, CHR 0x9F], [CHR 0xE3, CHR 0x80, CHR 0x80]]"

fun strip_one :: "string list \<Rightarrow> string \<Rightarrow> string option" where
  "strip_one [] s = None"
| "strip_one (p # ps) s =
     (if p \<noteq> [] \<and> take (length p) s = p then Some (drop (length p) s) else strip_one ps s)"

lemma strip_one_shorter: "strip_one ps s = Some t \<Longrightarrow> length t < length s"
proof (induction ps)
  case (Cons p ps)
  show ?case
  proof (cases "p \<noteq> [] \<and> take (length p) s = p")
    case True
    then have "length p \<le> length s"
      by (metis length_take min.cobounded1)
    moreover have "0 < length p" using True by simp
    moreover have "length t = length s - length p" using True Cons.prems by auto
    ultimately show ?thesis by linarith
  next
    case False
    with Cons show ?thesis by (simp split: if_splits)
  qed
qed simp

function trim_with :: "string list \<Rightarrow> string \<Rightarrow> string" where
  "trim_with ps s = (case strip_one ps s of None \<Rightarrow> s | Some t \<Rightarrow> trim_with ps t)"
  by pat_completeness auto
termination
  by (relation "measure (\<lambda>(ps, s). length s)") (auto dest: strip_one_shorter)

declare trim_with.simps [simp del]

definition TrimSpace :: "string \<Rightarrow> string" where
  "TrimSpace s = rev (trim_with (map rev space_runes) (rev (trim_with space_runes s)))"

lemma trim_with_fixed: "strip_one ps (trim_with ps s) = None"
proof (induction ps s rule: trim_with.induct)
  case (1 ps s)
  then show ?case by (cases "strip_one ps s") (simp_all add: trim_with.simps [of ps s])
qed

lemma length_trim_with: "length (trim_with ps s) \<le> length s"
proof (induction ps s rule: trim_with.induct)
  case (1 ps s)
  then show ?case
    by (cases "strip_one ps s") (fastforce simp: trim_with.simps [of ps s] dest: strip_one_shorter)+
qed

lemma length_TrimSpace: "length (TrimSpace s) \<le> length s"
  using length_trim_with [of "map rev space_runes" "rev (trim_with space_runes s)"]
    length_trim_with [of space_runes s]
  by (simp add: TrimSpace_def)

lemma TrimSpace_Nil [simp]: "TrimSpace [] = []"
  using length_TrimSpace [of "[]"] by simp

lemma TrimSpace_nonempty: "TrimSpace s \<noteq> [] \<Longrightarrow> s \<noteq> []"
  by auto

text \<open>
  \<^verbatim>\<open>strings.ToLower\<close>, exact wherever the result is compared with an ASCII constant: besides the
  ASCII letters only the dotted capital I (\<^verbatim>\<open>C4 B0\<close>) and the Kelvin sign (\<^verbatim>\<open>E2 84 AA\<close>) lower to
  an ASCII byte.
\<close>

definition lower_byte :: "char \<Rightarrow> char" where
  "lower_byte c =
     (if CHR ''A'' \<le> c \<and> c \<le> CHR ''Z'' then char_of (of_char c + 32 :: nat) else c)"

fun ToLower :: "string \<Rightarrow> string" where
  "ToLower [] = []"
| "ToLower (a # s) =
     (if a = CHR 0xC4 \<and> take 1 s = [CHR 0xB0] then CHR ''i'' # ToLower (drop 1 s)
      else if a = CHR 0xE2 \<and> take 2 s = [CHR 0x84, CHR 0xAA] then CHR ''k'' # ToLower (drop 2 s)
      else lower_byte a # ToLower s)"

definition Contains :: "string \<Rightarrow> string \<Rightarrow> bool" where
  "Contains s sub \<longleftrightarrow> sublist sub s"

text \<open>\<^verbatim>\<open>%q\<close> of a string in which no byte needs an escape; only diagnostic texts use it.\<close>

definition quoted :: "string \<Rightarrow> string" where
  "quoted s = CHR 0x22 # s @ [CHR 0x22]"

text \<open>Decimal numerals: \<^verbatim>\<open>strconv.Itoa\<close> and \<^verbatim>\<open>%d\<close>.\<close>

fun dec_nat :: "nat \<Rightarrow> string" where
  "dec_nat n = (if n < 10 then [char_of (48 + n)] else dec_nat (n div 10) @ [char_of (48 + n mod 10)])"

declare dec_nat.simps [simp del]

definition Itoa :: "int \<Rightarrow> string" where
  "Itoa i = (if i < 0 then CHR ''-'' # dec_nat (nat (- i)) else dec_nat (nat i))"

section \<open>Regular expressions of fixed shape\<close>

text \<open>
  Every anchored pattern of the modelled code is a sequence of character classes, or one class
  followed by a bounded repetition. \<open>match_classes\<close> is the former, \<open>match_bounded\<close> the latter.
\<close>

type_synonym char_class = "char \<Rightarrow> bool"

definition match_classes :: "char_class list \<Rightarrow> string \<Rightarrow> bool" where
  "match_classes ps s = list_all2 (\<lambda>p c. p c) ps s"

definition match_bounded :: "char_class \<Rightarrow> nat \<Rightarrow> nat \<Rightarrow> string \<Rightarrow> bool" where
  "match_bounded p lo hi s \<longleftrightarrow> lo \<le> length s \<and> length s \<le> hi \<and> list_all p s"

definition is_digit :: char_class where
  "is_digit c \<longleftrightarrow> CHR ''0'' \<le> c \<and> c \<le> CHR ''9''"

definition is_lower :: char_class where
  "is_lower c \<longleftrightarrow> CHR ''a'' \<le> c \<and> c \<le> CHR ''z''"

definition is_upper :: char_class where
  "is_upper c \<longleftrightarrow> CHR ''A'' \<le> c \<and> c \<le> CHR ''Z''"

definition is_hex :: char_class where
  "is_hex c \<longleftrightarrow> is_digit c \<or> (CHR ''a'' \<le> c \<and> c \<le> CHR ''f'')"

lemma match_classes_length: "match_classes ps s \<Longrightarrow> length s = length ps"
  by (simp add: match_classes_def list_all2_lengthD)

lemma match_classes_append:
  "length ps = length s \<Longrightarrow>
    match_classes (ps @ qs) (s @ t) \<longleftrightarrow> match_classes ps s \<and> match_classes qs t"
  by (simp add: match_classes_def list_all2_append)

lemma match_classes_replicate:
  "match_classes (replicate n p) s \<longleftrightarrow> length s = n \<and> list_all p s"
  by (auto simp: match_classes_def list_all2_conv_all_nth list_all_length)

section \<open>Lists of records updated by key\<close>

text \<open>
  The Go code updates a slice element in a loop over indices, guarded by a test of the element's
  key. On values this is a \<^const>\<open>map\<close>; the lemmas say what a key-preserving update keeps.
\<close>

definition update_where :: "('a \<Rightarrow> bool) \<Rightarrow> ('a \<Rightarrow> 'a) \<Rightarrow> 'a list \<Rightarrow> 'a list" where
  "update_where P f xs = map (\<lambda>x. if P x then f x else x) xs"

lemma update_where_simps [simp]:
  "update_where P f [] = []"
  "update_where P f (x # xs) = (if P x then f x else x) # update_where P f xs"
  "length (update_where P f xs) = length xs"
  by (simp_all add: update_where_def)

lemma map_update_where_same:
  "(\<And>x. P x \<Longrightarrow> g (f x) = g x) \<Longrightarrow> map g (update_where P f xs) = map g xs"
  by (induction xs) auto

lemma set_update_where: "set (update_where P f xs) = (\<lambda>x. if P x then f x else x) ` set xs"
  by (auto simp: update_where_def)

lemma find_update_where:
  assumes "\<And>x. Q (if P x then f x else x) = Q x"
  shows "List.find Q (update_where P f xs)
    = map_option (\<lambda>x. if P x then f x else x) (List.find Q xs)"
  using assms by (induction xs) auto

lemma find_SomeD: "List.find P xs = Some x \<Longrightarrow> x \<in> set xs \<and> P x"
  by (induction xs) (auto split: if_splits)

lemma find_None_iff_all: "List.find P xs = None \<longleftrightarrow> (\<forall>x \<in> set xs. \<not> P x)"
  by (induction xs) auto

lemma snoc_split:
  "es @ [x] = a @ y # b \<longleftrightarrow> (b = [] \<and> a = es \<and> y = x) \<or> (\<exists>b'. b = b' @ [x] \<and> es = a @ y # b')"
  by (cases b rule: rev_cases) auto

lemma two_snoc_split:
  assumes "es @ [x] = a @ y # b @ z # c"
  shows "(c = [] \<and> z = x \<and> es = a @ y # b) \<or> (\<exists>c'. es = a @ y # b @ z # c')"
  using assms by (cases c rule: rev_cases) auto

lemma distinct_map_inj: "distinct (map f xs) \<Longrightarrow> x \<in> set xs \<Longrightarrow> y \<in> set xs \<Longrightarrow> f x = f y \<Longrightarrow> x = y"
  by (meson distinct_map inj_onD)

lemma distinct_map_find:
  assumes "distinct (map f xs)" and "x \<in> set xs"
  shows "List.find (\<lambda>y. f y = f x) xs = Some x"
  using assms by (induction xs) auto

section \<open>Sorting by a comparison\<close>

text \<open>The stable sort by an ordering of the elements that no key of a linear order expresses.\<close>

fun insert_by :: "('a \<Rightarrow> 'a \<Rightarrow> bool) \<Rightarrow> 'a \<Rightarrow> 'a list \<Rightarrow> 'a list" where
  "insert_by le x [] = [x]"
| "insert_by le x (y # ys) = (if le x y then x # y # ys else y # insert_by le x ys)"

definition sort_by :: "('a \<Rightarrow> 'a \<Rightarrow> bool) \<Rightarrow> 'a list \<Rightarrow> 'a list" where
  "sort_by le xs = foldr (insert_by le) xs []"

lemma set_insert_by [simp]: "set (insert_by le x ys) = insert x (set ys)"
  by (induction ys) auto

lemma length_insert_by [simp]: "length (insert_by le x ys) = Suc (length ys)"
  by (induction ys) auto

lemma set_sort_by [simp]: "set (sort_by le xs) = set xs"
  by (induction xs) (auto simp: sort_by_def)

lemma length_sort_by [simp]: "length (sort_by le xs) = length xs"
  by (induction xs) (auto simp: sort_by_def)

lemma sorted_insert_by:
  assumes "\<And>a b. le a b \<or> le b a" and "\<And>a b c. le a b \<Longrightarrow> le b c \<Longrightarrow> le a c"
  shows "sorted_wrt le ys \<Longrightarrow> sorted_wrt le (insert_by le x ys)"
  using assms by (induction ys) auto

lemma sorted_sort_by:
  assumes "\<And>a b. le a b \<or> le b a" and "\<And>a b c. le a b \<Longrightarrow> le b c \<Longrightarrow> le a c"
  shows "sorted_wrt le (sort_by le xs)"
  using sorted_insert_by [of le, OF assms] by (induction xs) (simp_all add: sort_by_def)

section \<open>Transition systems with an invariant\<close>

text \<open>
  The interface of every state machine of the development: start states, a step relation and an
  invariant that holds at the start and survives each step. \<open>progress\<close> adds a two-state relation
  that every step satisfies, so that it also relates the ends of every run.
\<close>

locale invariant_system =
  fixes start :: "'s \<Rightarrow> bool" and step :: "'s \<Rightarrow> 's \<Rightarrow> bool" and inv :: "'s \<Rightarrow> bool"
  assumes inv_start: "start s \<Longrightarrow> inv s"
    and inv_step: "inv s \<Longrightarrow> step s s' \<Longrightarrow> inv s'"
begin

lemma run_inv: "step\<^sup>*\<^sup>* s s' \<Longrightarrow> inv s \<Longrightarrow> inv s'"
  by (induction rule: rtranclp_induct) (auto intro: inv_step)

lemma reachable_inv: "start s \<Longrightarrow> step\<^sup>*\<^sup>* s s' \<Longrightarrow> inv s'"
  by (blast intro: run_inv inv_start)

end

locale progress_system = invariant_system +
  fixes rel :: "'a \<Rightarrow> 'a \<Rightarrow> bool"
  assumes rel_refl: "rel s s"
    and rel_trans: "rel s t \<Longrightarrow> rel t u \<Longrightarrow> rel s u"
    and rel_step: "inv s \<Longrightarrow> step s s' \<Longrightarrow> rel s s'"
begin

lemma run_rel: "step\<^sup>*\<^sup>* s s' \<Longrightarrow> inv s \<Longrightarrow> rel s s'"
proof (induction rule: rtranclp_induct)
  case base
  then show ?case by (simp add: rel_refl)
next
  case (step t u)
  then show ?case by (blast intro: rel_trans rel_step run_inv)
qed

end

end
