(* ===== verification/Driver_Types.thy ===== *)
theory Driver_Types
  imports Prelude Complex_Main "HOL-Library.AList"
begin

text \<open>
  The platform-neutral data of \<^verbatim>\<open>internal/driver/driver.go\<close> and the capability registry of
  \<^verbatim>\<open>internal/driver/capabilities.go\<close>. String-typed Go enumerations become datatypes with the
  source's constants and one constructor for any other string; a nil map or pointer is an option.
  Record fields carry a short prefix, since several Go structs share field names.
\<close>

section \<open>Enumerations\<close>

datatype platform = PlatformWeChat | PlatformWeCom | PlatformOther string

fun platform_string :: "platform \<Rightarrow> string" where
  "platform_string PlatformWeChat = ''wechat''"
| "platform_string PlatformWeCom = ''wecom''"
| "platform_string (PlatformOther s) = s"

datatype runtime_state =
    StateStopped | StateStarting | StateAuthRequired | StateOnline | StateDegraded | StateOffline
  | StateOther string

datatype support =
    SupportStable | SupportBeta | SupportExperimental | SupportUnsupported | SupportOther string

datatype failure_kind =
    FailureInvalidArgument | FailureAuthRequired | FailureClientIncompatible
  | FailureTargetAmbiguous | FailureUnsupported | FailureConfirmationRequired
  | FailureUserActionRequired | FailureNotFound | FailureStale | FailureDriverUnavailable
  | FailureSendUncertain | FailureOther string

datatype auth_kind = AuthQR | AuthSMS | AuthPhoneConfirm | AuthOther string

section \<open>Structs\<close>

record AccountRuntime =
  ar_AccountID :: string
  ar_Alias :: string
  ar_StateDir :: string
  ar_RuntimeDir :: string

record Identity =
  idn_PlatformID :: string
  idn_DisplayName :: string
  idn_AvatarURL :: string

record Status =
  st_State :: runtime_state
  st_Identity :: "Identity option"
  st_Reason :: string
  st_ClientVersion :: string
  st_Capabilities :: "(string \<times> support) list option"
  st_ObservedAt :: time

record AuthAction =
  aa_ID :: string
  aa_Label :: string
  aa_Risk :: string
  aa_Confirmation :: string
  aa_RequiresConfirmation :: bool
  aa_ImageBound :: bool
  aa_ReplayKey :: string

record AuthSnapshot =
  as_Kind :: auth_kind
  as_State :: runtime_state
  as_Prompt :: string
  as_QRCodePNG :: string
  as_ScreenshotPNG :: string
  as_CanSubmitCode :: bool
  as_Actions :: "AuthAction list"
  as_ObservedAt :: time

definition zero_AuthSnapshot :: AuthSnapshot where
  "zero_AuthSnapshot =
     \<lparr>as_Kind = AuthOther [], as_State = StateOther [], as_Prompt = [], as_QRCodePNG = [],
      as_ScreenshotPNG = [], as_CanSubmitCode = False, as_Actions = [], as_ObservedAt = 0\<rparr>"

record Conversation =
  cv_ID :: string
  cv_ExternalID :: string
  cv_Title :: string
  cv_Kind :: string
  cv_UnreadCount :: int
  cv_LastMessageAt :: time
  cv_Complete :: bool
  cv_Source :: string

record Attachment =
  at_ID :: string
  at_Kind :: string
  at_Name :: string
  at_MediaType :: string
  at_Size :: int
  at_LocalPath :: string

record Message =
  ms_ID :: string
  ms_ExternalID :: string
  ms_ConversationID :: string
  ms_GapBefore :: bool
  ms_SenderID :: string
  ms_SenderName :: string
  ms_SentAt :: time
  ms_Kind :: string
  ms_Text :: string
  ms_Attachments :: "Attachment list"
  ms_ReplyTo :: string
  ms_SurfaceRef :: string
  ms_Source :: string
  ms_Complete :: bool
  ms_Confidence :: rat
  ms_Raw :: string
  ms_Sequence :: int

record ConversationQuery =
  cq_Search :: string
  cq_Unread :: bool
  cq_Limit :: int

record MessageQuery =
  mq_ConversationID :: string
  mq_AfterSequence :: int
  mq_Before :: time
  mq_Limit :: int
  mq_Latest :: bool

record SendRequest =
  rq_ConversationID :: string
  rq_Text :: string
  rq_Attachments :: "Attachment list"
  rq_ShareSurfaceID :: string
  rq_IdempotencyKey :: string

record SendResult =
  sr_MessageID :: string
  sr_Verified :: bool
  sr_Uncertain :: bool
  sr_Detail :: string

definition zero_SendResult :: SendResult where
  "zero_SendResult = \<lparr>sr_MessageID = [], sr_Verified = False, sr_Uncertain = False, sr_Detail = []\<rparr>"

record Bounds =
  bd_X :: int
  bd_Y :: int
  bd_Width :: int
  bd_Height :: int

record SurfaceElement =
  el_ID :: string
  el_TargetID :: string
  el_Label :: string
  el_Description :: string
  el_Role :: string
  el_Bounds :: Bounds
  el_Source :: string
  el_Confidence :: rat
  el_ActionID :: string
  el_ActionIDs :: "string list"

record SurfaceAsset =
  sa_ID :: string
  sa_Token :: string
  sa_Kind :: string
  sa_Label :: string
  sa_Bounds :: Bounds
  sa_Source :: string
  sa_Confidence :: rat
  sa_ExpiresAt :: time

record Action =
  ac_ID :: string
  ac_TargetID :: string
  ac_Label :: string
  ac_Kind :: string
  ac_Risk :: string
  ac_Effect :: string
  ac_Disabled :: bool

record Surface =
  sf_ID :: string
  sf_Kind :: string
  sf_Title :: string
  sf_URL :: string
  sf_AppID :: string
  sf_Generation :: string
  sf_Screenshot :: string
  sf_ScreenshotSHA256 :: string
  sf_OCRText :: string
  sf_Elements :: "SurfaceElement list"
  sf_Assets :: "SurfaceAsset list"
  sf_Viewport :: "Bounds option"
  sf_Actions :: "Action list"
  sf_ObservedAt :: time

record NamedSurface =
  ns_Kind :: string
  ns_Name :: string

record SurfaceAssetExport =
  se_SurfaceID :: string
  se_AssetID :: string
  se_Fidelity :: string
  se_MediaType :: string
  se_SHA256 :: string
  se_Bytes :: int
  se_Data :: string

record SurfaceAction =
  sact_ActionID :: string
  sact_Text :: string
  sact_TextProvided :: bool
  sact_Confirmed :: bool

section \<open>The capability registry\<close>

text \<open>
  \<^verbatim>\<open>knownCapabilities\<close> is a Go map used as a set. The functions range over it in an unspecified
  order; the model fixes one, and the results below do not depend on it except for which of
  several possible errors is reported.
\<close>

definition knownCapabilities :: "string list" where
  "knownCapabilities =
    [''auth.qr'', ''auth.sms'', ''messages.visible'', ''messages.history'', ''messages.watch'',
     ''messages.send'', ''attachments.send'', ''official_accounts.read'', ''web.open'',
     ''miniprogram.open'', ''miniprogram.open_by_name'', ''surface.act'',
     ''surface.assets.export'']"

fun validSupport :: "support \<Rightarrow> bool" where
  "validSupport (SupportOther s) = False"
| "validSupport v = True"

text \<open>\<^verbatim>\<open>CapabilityMap\<close> panics on an unknown key or an invalid level: \<open>None\<close>.\<close>

fun apply_overrides ::
  "(string \<times> support) list \<Rightarrow> (string \<times> support) list \<Rightarrow> (string \<times> support) list option"
where
  "apply_overrides [] result = Some result"
| "apply_overrides ((name, v) # overrides) result =
     (if name \<notin> set knownCapabilities then None
      else if \<not> validSupport v then None
      else apply_overrides overrides (AList.update name v result))"

definition CapabilityMap :: "(string \<times> support) list \<Rightarrow> (string \<times> support) list option" where
  "CapabilityMap overrides =
     apply_overrides overrides (map (\<lambda>name. (name, SupportUnsupported)) knownCapabilities)"

datatype capability_error =
    CapabilityMissing string | CapabilityInvalid string support | CapabilityUnknown string

fun check_known :: "(string \<times> support) list \<Rightarrow> string list \<Rightarrow> capability_error option" where
  "check_known values [] = None"
| "check_known values (name # names) =
     (case map_of values name of
        None \<Rightarrow> Some (CapabilityMissing name)
      | Some v \<Rightarrow> if \<not> validSupport v then Some (CapabilityInvalid name v)
          else check_known values names)"

definition ValidateCapabilities :: "(string \<times> support) list \<Rightarrow> capability_error option" where
  "ValidateCapabilities values =
     (case check_known values knownCapabilities of
        Some e \<Rightarrow> Some e
      | None \<Rightarrow>
          (case List.find (\<lambda>(name, _). name \<notin> set knownCapabilities) values of
             Some (name, _) \<Rightarrow> Some (CapabilityUnknown name)
           | None \<Rightarrow> None))"

definition CapabilityNames :: "string list" where
  "CapabilityNames = sort knownCapabilities"

lemma apply_overrides_lookup:
  "apply_overrides overrides result = Some m \<Longrightarrow>
    map_of m name = (case map_of (rev overrides) name of Some v \<Rightarrow> Some v | None \<Rightarrow> map_of result name)"
proof (induction overrides result rule: apply_overrides.induct)
  case (2 n v overrides result)
  then have "map_of m name
      = (case map_of (rev overrides) name of Some v' \<Rightarrow> Some v'
         | None \<Rightarrow> map_of (AList.update n v result) name)"
    by (simp split: if_splits)
  then show ?case
    by (auto simp: AList.update_conv map_add_def split: option.splits)
qed simp

lemma set_alist_update: "set (AList.update k v al) \<subseteq> insert (k, v) (set al)"
  by (induction al) auto

lemma apply_overrides_valid:
  assumes "apply_overrides overrides result = Some m"
    and "\<forall>(n, v) \<in> set result. n \<in> set knownCapabilities \<and> validSupport v"
  shows "\<forall>(n, v) \<in> set m. n \<in> set knownCapabilities \<and> validSupport v"
  using assms
proof (induction overrides result rule: apply_overrides.induct)
  case (2 n v overrides result)
  from "2.prems"(1) have nv: "n \<in> set knownCapabilities" "validSupport v"
    and rest: "apply_overrides overrides (AList.update n v result) = Some m"
    by (simp_all split: if_splits)
  have "\<forall>(a, b) \<in> set (AList.update n v result). a \<in> set knownCapabilities \<and> validSupport b"
    using nv "2.prems"(2) set_alist_update [of n v result] by blast
  with nv rest "2.IH" show ?case by simp
qed simp

lemma check_known_None:
  "check_known values names = None \<longleftrightarrow>
     (\<forall>name \<in> set names. \<exists>v. map_of values name = Some v \<and> validSupport v)"
  by (induction names) (auto split: option.splits)

lemma apply_overrides_dom:
  "apply_overrides overrides result = Some m \<Longrightarrow> name \<in> fst ` set result \<Longrightarrow> name \<in> fst ` set m"
proof (induction overrides result rule: apply_overrides.induct)
  case (2 n v overrides result)
  then show ?case by (simp add: dom_update split: if_splits)
qed simp

lemma CapabilityMap_dom: "CapabilityMap overrides = Some m \<Longrightarrow> set knownCapabilities \<subseteq> fst ` set m"
proof
  fix name
  assume "CapabilityMap overrides = Some m" and "name \<in> set knownCapabilities"
  moreover from this(2) have
    "name \<in> fst ` set (map (\<lambda>name. (name, SupportUnsupported)) knownCapabilities)"
    by (simp add: image_image)
  ultimately show "name \<in> fst ` set m"
    unfolding CapabilityMap_def by (blast dest: apply_overrides_dom)
qed

end
