(* ===== verification/Errors.thy ===== *)
theory Errors
  imports Driver_Types
begin

text \<open>
  Go error values: the package-level sentinels that the modelled code tests with \<^verbatim>\<open>errors.Is\<close>,
  the classified \<^verbatim>\<open>driver.Failure\<close>, the API error, wrapping and joining; the classification
  functions of \<^verbatim>\<open>driver.go\<close>, the API boundary of \<^verbatim>\<open>internal/api/api.go\<close> and the mapping of
  driver failures to API errors of \<^verbatim>\<open>internal/service/driver_errors.go\<close>.
\<close>

section \<open>Error values\<close>

datatype sentinel =
    OsErrNotExist | ContextCanceled | ContextDeadlineExceeded
  | AccountErrDeleting | AccountErrNotDeleting
  | IndexErrLegacyUnbound
  | AuthErrInvalidLANAddress | AuthErrTooManyAttempts | AuthErrCodeInFlight
  | AuthErrCodeAlreadySubmitted | AuthErrTooManyActionAttempts | AuthErrActionInFlight
  | AuthErrConfirmationRequired | AuthErrActionUnavailable
  | WeChatErrNotStarted | WeChatErrAlreadyStarted | WeChatErrIndexUnavailable
  | WeComErrActionOutcomeUncertain

datatype api_code =
    CodeInvalidArgument | CodeNotFound | CodeConflict | CodeDaemonUnavailable | CodeAuthRequired
  | CodeAuthExpired | CodeAccountInactive | CodeDriverUnavailable | CodeClientIncompatible
  | CodeTargetAmbiguous | CodeUnsupportedCapability | CodeConfirmationRequired
  | CodeSendUncertain | CodePartialFailure | CodeUserActionRequired | CodeInternal

datatype detail_value = DetailString string | DetailBool bool | DetailResult SendResult

text \<open>
  \<open>ErrNew\<close> is a fresh \<^verbatim>\<open>errors.New\<close> value (or \<^verbatim>\<open>fmt.Errorf\<close> without \<^verbatim>\<open>%w\<close>), \<open>ErrFailure\<close> a
  \<^verbatim>\<open>*driver.Failure\<close>, \<open>ErrWrapf\<close> the text around a \<^verbatim>\<open>%w\<close>, \<open>ErrWrapf2\<close> the text between two of
  them, \<open>ErrConsumed\<close> the
  \<^verbatim>\<open>consumedAuthActionError\<close> and \<open>ErrApp\<close> an \<^verbatim>\<open>*api.AppError\<close> with status, code, message,
  details and cause.
\<close>

datatype go_error =
    ErrNew string
  | ErrSentinel sentinel
  | ErrFailure failure_kind string
  | ErrWrapf string go_error string
  | ErrJoin "go_error list"
  | ErrConsumed go_error
  | ErrApp nat api_code string "(string \<times> detail_value) list" "go_error option"
  | ErrWrapf2 go_error string go_error

type_synonym 'a result = "go_error + 'a"

fun sentinel_text :: "sentinel \<Rightarrow> string" where
  "sentinel_text OsErrNotExist = ''file does not exist''"
| "sentinel_text ContextCanceled = ''context canceled''"
| "sentinel_text ContextDeadlineExceeded = ''context deadline exceeded''"
| "sentinel_text AccountErrDeleting = ''account deletion is in progress''"
| "sentinel_text AccountErrNotDeleting = ''account is not marked for deletion''"
| "sentinel_text IndexErrLegacyUnbound =
     ''non-empty legacy message index has no account ownership metadata''"
| "sentinel_text AuthErrInvalidLANAddress = ''invalid LAN login address''"
| "sentinel_text AuthErrTooManyAttempts = ''too many verification attempts''"
| "sentinel_text AuthErrCodeInFlight = ''verification submission is already in progress''"
| "sentinel_text AuthErrCodeAlreadySubmitted =
     ''verification code was already submitted for this challenge''"
| "sentinel_text AuthErrTooManyActionAttempts = ''too many authentication action attempts''"
| "sentinel_text AuthErrActionInFlight = ''authentication action is already in progress''"
| "sentinel_text AuthErrConfirmationRequired = ''explicit user confirmation is required''"
| "sentinel_text AuthErrActionUnavailable = ''authentication action is unavailable''"
| "sentinel_text WeChatErrNotStarted = ''wechat driver is not started''"
| "sentinel_text WeChatErrAlreadyStarted = ''wechat driver is already started''"
| "sentinel_text WeChatErrIndexUnavailable = ''wechat local message index is unavailable''"
| "sentinel_text WeComErrActionOutcomeUncertain = ''companion action outcome is uncertain''"

fun intercalate :: "string \<Rightarrow> string list \<Rightarrow> string" where
  "intercalate sep [] = []"
| "intercalate sep [x] = x"
| "intercalate sep (x # y # ys) = x @ sep @ intercalate sep (y # ys)"

fun Error :: "go_error \<Rightarrow> string" where
  "Error (ErrNew m) = m"
| "Error (ErrSentinel t) = sentinel_text t"
| "Error (ErrFailure k m) = m"
| "Error (ErrWrapf pre e post) = pre @ Error e @ post"
| "Error (ErrJoin es) = intercalate [CHR 0x0A] (map Error es)"
| "Error (ErrConsumed e) = Error e"
| "Error (ErrApp status code m details None) = m"
| "Error (ErrApp status code m details (Some c)) = m @ '': '' @ Error c"
| "Error (ErrWrapf2 e mid e') = Error e @ mid @ Error e'"

text \<open>
  \<^verbatim>\<open>errors.Is\<close> and \<^verbatim>\<open>errors.As\<close> visit an error and then what it unwraps to, depth first and in
  order: \<open>chain\<close> is that visiting order.
\<close>

fun chain :: "go_error \<Rightarrow> go_error list" where
  "chain (ErrNew m) = [ErrNew m]"
| "chain (ErrSentinel t) = [ErrSentinel t]"
| "chain (ErrFailure k m) = [ErrFailure k m]"
| "chain (ErrWrapf pre e post) = ErrWrapf pre e post # chain e"
| "chain (ErrJoin es) = ErrJoin es # concat (map chain es)"
| "chain (ErrConsumed e) = ErrConsumed e # chain e"
| "chain (ErrApp status code m details None) = [ErrApp status code m details None]"
| "chain (ErrApp status code m details (Some c)) = ErrApp status code m details (Some c) # chain c"
| "chain (ErrWrapf2 e mid e') = ErrWrapf2 e mid e' # chain e @ chain e'"

definition errors_Is :: "go_error \<Rightarrow> go_error \<Rightarrow> bool" where
  "errors_Is e target \<longleftrightarrow> target \<in> set (chain e)"

definition errors_As :: "(go_error \<Rightarrow> bool) \<Rightarrow> go_error \<Rightarrow> go_error option" where
  "errors_As P e = List.find P (chain e)"

text \<open>\<^verbatim>\<open>errors.Join\<close> drops nil errors and is nil when nothing is left.\<close>

definition errors_Join :: "go_error option list \<Rightarrow> go_error option" where
  "errors_Join es =
     (let present = map the (filter (\<lambda>e. e \<noteq> None) es)
      in if present = [] then None else Some (ErrJoin present))"

section \<open>Classification of driver failures\<close>

fun is_Failure :: "go_error \<Rightarrow> bool" where
  "is_Failure (ErrFailure k m) = True"
| "is_Failure _ = False"

fun failure_kind_of :: "go_error \<Rightarrow> failure_kind option" where
  "failure_kind_of (ErrFailure k m) = Some k"
| "failure_kind_of _ = None"

definition ClassifyFailure :: "go_error option \<Rightarrow> failure_kind option" where
  "ClassifyFailure err =
     (case err of None \<Rightarrow> None
      | Some e \<Rightarrow> Option.bind (errors_As is_Failure e) failure_kind_of)"

fun is_Consumed :: "go_error \<Rightarrow> bool" where
  "is_Consumed (ErrConsumed e) = True"
| "is_Consumed _ = False"

definition AuthActionWasConsumed :: "go_error option \<Rightarrow> bool" where
  "AuthActionWasConsumed err =
     (case err of None \<Rightarrow> False | Some e \<Rightarrow> errors_As is_Consumed e \<noteq> None)"

definition MarkAuthActionConsumed :: "go_error option \<Rightarrow> go_error option" where
  "MarkAuthActionConsumed err =
     (if err = None \<or> AuthActionWasConsumed err then err else map_option ErrConsumed err)"

section \<open>The API boundary\<close>

definition NewError :: "nat \<Rightarrow> api_code \<Rightarrow> string \<Rightarrow> go_error" where
  "NewError status code message = ErrApp status code message [] None"

definition WrapError :: "nat \<Rightarrow> api_code \<Rightarrow> string \<Rightarrow> go_error \<Rightarrow> go_error" where
  "WrapError status code message cause = ErrApp status code message [] (Some cause)"

abbreviation "StatusOK \<equiv> (200 :: nat)"
abbreviation "StatusBadRequest \<equiv> (400 :: nat)"
abbreviation "StatusForbidden \<equiv> (403 :: nat)"
abbreviation "StatusNotFound \<equiv> (404 :: nat)"
abbreviation "StatusMethodNotAllowed \<equiv> (405 :: nat)"
abbreviation "StatusConflict \<equiv> (409 :: nat)"
abbreviation "StatusGone \<equiv> (410 :: nat)"
abbreviation "StatusRequestEntityTooLarge \<equiv> (413 :: nat)"
abbreviation "StatusTooManyRequests \<equiv> (429 :: nat)"
abbreviation "StatusInternalServerError \<equiv> (500 :: nat)"
abbreviation "StatusBadGateway \<equiv> (502 :: nat)"
abbreviation "StatusServiceUnavailable \<equiv> (503 :: nat)"

record APIError =
  ae_Code :: api_code
  ae_Message :: string
  ae_Details :: "(string \<times> detail_value) list"

record 'a Response =
  rp_SchemaVersion :: string
  rp_OK :: bool
  rp_Data :: "'a option"
  rp_Error :: "APIError option"

definition SchemaVersion :: string where "SchemaVersion = ''1''"

definition Success :: "'a \<Rightarrow> 'a Response" where
  "Success data =
     \<lparr>rp_SchemaVersion = SchemaVersion, rp_OK = True, rp_Data = Some data, rp_Error = None\<rparr>"

fun is_App :: "go_error \<Rightarrow> bool" where
  "is_App (ErrApp status code m details cause) = True"
| "is_App _ = False"

definition error_response :: "APIError \<Rightarrow> 'a Response" where
  "error_response e =
     \<lparr>rp_SchemaVersion = SchemaVersion, rp_OK = False, rp_Data = None, rp_Error = Some e\<rparr>"

definition Failure :: "go_error \<Rightarrow> 'a Response \<times> nat" where
  "Failure err =
     (case errors_As is_App err of
        Some (ErrApp status code message details cause) \<Rightarrow>
          (error_response \<lparr>ae_Code = code, ae_Message = message, ae_Details = details\<rparr>,
           if status = 0 then StatusInternalServerError else status)
      | _ \<Rightarrow>
          (error_response \<lparr>ae_Code = CodeInternal, ae_Message = ''internal error'', ae_Details = []\<rparr>,
           StatusInternalServerError))"

text \<open>
  \<^verbatim>\<open>DecodeJSON\<close> reads at most one byte more than the limit. Its outcome is determined by what the
  JSON decoder reports for the first value, what it reports for a second one, and whether the
  limited reader was exhausted; these three are its arguments.
\<close>

datatype 'a json_value = JsonValue 'a | JsonError go_error
datatype json_trailing = TrailingEOF | TrailingValue | TrailingError go_error

definition maximumBodyBytes :: nat where "maximumBodyBytes = 2 * 2 ^ 20"

definition DecodeJSON :: "'a json_value \<Rightarrow> json_trailing \<Rightarrow> nat \<Rightarrow> 'a result" where
  "DecodeJSON body trailing remaining =
     (case body of
        JsonError e \<Rightarrow> Inl (WrapError StatusBadRequest CodeInvalidArgument ''invalid JSON body'' e)
      | JsonValue v \<Rightarrow>
          (case trailing of
             TrailingValue \<Rightarrow>
               Inl (NewError StatusBadRequest CodeInvalidArgument
                     ''JSON body must contain exactly one value'')
           | TrailingError e \<Rightarrow>
               Inl (WrapError StatusBadRequest CodeInvalidArgument
                     ''JSON body must contain exactly one value'' e)
           | TrailingEOF \<Rightarrow>
               if remaining = 0
               then Inl (NewError StatusRequestEntityTooLarge CodeInvalidArgument
                          ''JSON body exceeds 2 MiB'')
               else Inr v))"

text \<open>\<^verbatim>\<open>Server.respond\<close> of \<^verbatim>\<open>internal/daemon/server.go\<close>: the status line and body of every reply.\<close>

definition respond :: "'a \<Rightarrow> go_error option \<Rightarrow> 'a Response \<times> nat" where
  "respond data err = (case err of Some e \<Rightarrow> Failure e | None \<Rightarrow> (Success data, StatusOK))"

section \<open>Driver failures as API errors\<close>

fun failure_mapping :: "failure_kind \<Rightarrow> nat \<times> api_code \<times> string" where
  "failure_mapping FailureInvalidArgument =
     (StatusBadRequest, CodeInvalidArgument, ''official client operation arguments are invalid'')"
| "failure_mapping FailureAuthRequired =
     (StatusConflict, CodeAuthRequired, ''official client authentication is required'')"
| "failure_mapping FailureClientIncompatible =
     (StatusConflict, CodeClientIncompatible, ''official client version or UI is incompatible'')"
| "failure_mapping FailureTargetAmbiguous =
     (StatusConflict, CodeTargetAmbiguous, ''official client target is ambiguous'')"
| "failure_mapping FailureUnsupported =
     (StatusConflict, CodeUnsupportedCapability,
      ''the active driver does not support this capability'')"
| "failure_mapping FailureConfirmationRequired =
     (StatusConflict, CodeConfirmationRequired,
      ''this surface action requires explicit confirmation'')"
| "failure_mapping FailureUserActionRequired =
     (StatusConflict, CodeUserActionRequired, ''this step requires direct user interaction'')"
| "failure_mapping FailureNotFound =
     (StatusNotFound, CodeNotFound, ''official client target was not found'')"
| "failure_mapping FailureStale =
     (StatusConflict, CodeConflict,
      ''official client state or action is stale; take a new snapshot'')"
| "failure_mapping FailureDriverUnavailable =
     (StatusServiceUnavailable, CodeDriverUnavailable, ''official client driver is unavailable'')"
| "failure_mapping FailureSendUncertain =
     (StatusConflict, CodeSendUncertain, ''official client could not verify the sent message'')"
| "failure_mapping (FailureOther s) =
     (StatusConflict, CodeConflict, ''official client operation could not continue'')"

definition classifiedDriverError :: "go_error option \<Rightarrow> go_error option" where
  "classifiedDriverError err =
     (case ClassifyFailure err of
        None \<Rightarrow> None
      | Some kind \<Rightarrow>
          (case failure_mapping kind of
             (status, code, message) \<Rightarrow> Some (WrapError status code message (the err))))"

section \<open>Facts about the error chain\<close>

lemma chain_self [simp]: "e \<in> set (chain e)"
  by (cases e rule: chain.cases) simp_all

lemma find_append: "List.find P (xs @ ys) = (case List.find P xs of Some x \<Rightarrow> Some x | None \<Rightarrow> List.find P ys)"
  by (induction xs) auto

lemma errors_As_simps [simp]:
  "errors_As P (ErrNew m) = (if P (ErrNew m) then Some (ErrNew m) else None)"
  "errors_As P (ErrSentinel t) = (if P (ErrSentinel t) then Some (ErrSentinel t) else None)"
  "errors_As P (ErrFailure k m) = (if P (ErrFailure k m) then Some (ErrFailure k m) else None)"
  "errors_As P (ErrWrapf pre e post) =
     (if P (ErrWrapf pre e post) then Some (ErrWrapf pre e post) else errors_As P e)"
  "errors_As P (ErrConsumed e) = (if P (ErrConsumed e) then Some (ErrConsumed e) else errors_As P e)"
  "errors_As P (ErrApp s c m d None) =
     (if P (ErrApp s c m d None) then Some (ErrApp s c m d None) else None)"
  "errors_As P (ErrApp s c m d (Some e)) =
     (if P (ErrApp s c m d (Some e)) then Some (ErrApp s c m d (Some e)) else errors_As P e)"
  by (simp_all add: errors_As_def)

lemma errors_As_is_AppD: "errors_As is_App e = Some x \<Longrightarrow> \<exists>s c m d k. x = ErrApp s c m d k"
  unfolding errors_As_def by (drule find_SomeD) (cases x; simp)

lemma errors_As_FailureD: "errors_As is_Failure e = Some x \<Longrightarrow> \<exists>k m. x = ErrFailure k m"
  unfolding errors_As_def by (drule find_SomeD) (cases x; simp)

lemma classifiedDriverError_App:
  "classifiedDriverError err = Some e \<Longrightarrow> \<exists>s c m k. e = ErrApp s c m [] (Some k) \<and> s \<noteq> 0"
  by (auto simp: classifiedDriverError_def WrapError_def split: option.splits prod.splits
      elim!: failure_mapping.elims)

lemma Failure_App [simp]:
  "Failure (ErrApp s c m d k) =
     (error_response \<lparr>ae_Code = c, ae_Message = m, ae_Details = d\<rparr>,
      if s = 0 then StatusInternalServerError else s)"
  by (cases k) (simp_all add: Failure_def)

lemma ClassifyFailure_simps [simp]:
  "ClassifyFailure None = None"
  "ClassifyFailure (Some (ErrFailure k m)) = Some k"
  "ClassifyFailure (Some (ErrNew m)) = None"
  "ClassifyFailure (Some (ErrSentinel t)) = None"
  "ClassifyFailure (Some (ErrWrapf pre e post)) = ClassifyFailure (Some e)"
  "ClassifyFailure (Some (ErrConsumed e)) = ClassifyFailure (Some e)"
  by (simp_all add: ClassifyFailure_def)

end
