(* ===== verification/Go_Paths.thy ===== *)
theory Go_Paths
  imports Prelude
begin

text \<open>
  The functions of Go's \<^verbatim>\<open>path/filepath\<close> (on Unix) that the repository uses to build and check
  the paths it creates and deletes: \<^verbatim>\<open>Clean\<close>, \<^verbatim>\<open>Join\<close>, \<^verbatim>\<open>IsAbs\<close>, \<^verbatim>\<open>Base\<close> and \<^verbatim>\<open>Rel\<close>, on lists of
  components, with the facts that make a deletion target a direct child of its root.
\<close>

abbreviation slash :: char where "slash \<equiv> CHR ''/''"

fun split_slash :: "string \<Rightarrow> string list" where
  "split_slash [] = [[]]"
| "split_slash (c # s) =
     (if c = slash then [] # split_slash s
      else (case split_slash s of [] \<Rightarrow> [[c]] | w # ws \<Rightarrow> (c # w) # ws))"

fun join_slash :: "string list \<Rightarrow> string" where
  "join_slash [] = []"
| "join_slash [w] = w"
| "join_slash (w # v # ws) = w @ slash # join_slash (v # ws)"

text \<open>The components of a path, with the empty and the \<^verbatim>\<open>.\<close> components dropped.\<close>

definition components :: "string \<Rightarrow> string list" where
  "components s = filter (\<lambda>w. w \<noteq> [] \<and> w \<noteq> ''.'') (split_slash s)"

text \<open>
  Resolution of \<^verbatim>\<open>..\<close>: \<open>out\<close> is the stack of components kept so far, the last one first. At the
  root of an absolute path a \<^verbatim>\<open>..\<close> disappears, in a relative path it is kept.
\<close>

fun resolve_dots :: "bool \<Rightarrow> string list \<Rightarrow> string list \<Rightarrow> string list" where
  "resolve_dots rooted out [] = rev out"
| "resolve_dots rooted out (w # ws) =
     (if w \<noteq> ''..'' then resolve_dots rooted (w # out) ws
      else case out of
          [] \<Rightarrow> if rooted then resolve_dots rooted [] ws else resolve_dots rooted [w] ws
        | v # vs \<Rightarrow> if v \<noteq> ''..'' then resolve_dots rooted vs ws
            else resolve_dots rooted (w # out) ws)"

definition IsAbs :: "string \<Rightarrow> bool" where
  "IsAbs s \<longleftrightarrow> (case s of [] \<Rightarrow> False | c # _ \<Rightarrow> c = slash)"

definition clean_parts :: "string \<Rightarrow> string list" where
  "clean_parts s = resolve_dots (IsAbs s) [] (components s)"

definition Clean :: "string \<Rightarrow> string" where
  "Clean s =
     (if IsAbs s then slash # join_slash (clean_parts s)
      else if clean_parts s = [] then ''.'' else join_slash (clean_parts s))"

definition Join :: "string list \<Rightarrow> string" where
  "Join elems =
     (let present = filter (\<lambda>e. e \<noteq> []) elems
      in if present = [] then [] else Clean (join_slash present))"

definition Base :: "string \<Rightarrow> string" where
  "Base s =
     (if s = [] then ''.''
      else case filter (\<lambda>w. w \<noteq> []) (split_slash s) of [] \<Rightarrow> ''/'' | ws \<Rightarrow> last ws)"

text \<open>
  \<^verbatim>\<open>Rel\<close> on cleaned arguments: an error when only one of them is absolute or when the base still
  has a \<^verbatim>\<open>..\<close> where they diverge; otherwise one \<^verbatim>\<open>..\<close> for each base component left, then the
  rest of the target.
\<close>

fun drop_common :: "string list \<Rightarrow> string list \<Rightarrow> string list \<times> string list" where
  "drop_common (b # bs) (t # ts) = (if b = t then drop_common bs ts else (b # bs, t # ts))"
| "drop_common bs ts = (bs, ts)"

definition Rel :: "string \<Rightarrow> string \<Rightarrow> string option" where
  "Rel base targ =
     (if Clean base = Clean targ then Some ''.''
      else if IsAbs base \<noteq> IsAbs targ then None
      else case drop_common (clean_parts base) (clean_parts targ) of
          (bs, ts) \<Rightarrow>
            if bs \<noteq> [] \<and> hd bs = ''..'' then None
            else Some (join_slash (map (\<lambda>_. ''..'') bs @ ts)))"

section \<open>Plain components\<close>

text \<open>A plain component is a file name: no slash, not empty, not \<^verbatim>\<open>.\<close> and not \<^verbatim>\<open>..\<close>.\<close>

definition plain :: "string \<Rightarrow> bool" where
  "plain w \<longleftrightarrow> w \<noteq> [] \<and> w \<noteq> ''.'' \<and> w \<noteq> ''..'' \<and> slash \<notin> set w"

lemma split_slash_nonempty [simp]: "split_slash s \<noteq> []"
  by (induction s) (auto split: list.splits)

lemma split_slash_plain: "slash \<notin> set w \<Longrightarrow> split_slash w = [w]"
  by (induction w) auto

lemma split_slash_append: "split_slash (s @ slash # t) = split_slash s @ split_slash t"
proof (induction s)
  case (Cons c s)
  then show ?case by (auto split: list.splits)
qed simp

lemma split_join_slash:
  "ws \<noteq> [] \<Longrightarrow> list_all (\<lambda>w. slash \<notin> set w) ws \<Longrightarrow> split_slash (join_slash ws) = ws"
  by (induction ws rule: join_slash.induct) (auto simp: split_slash_plain split_slash_append)

lemma components_slash: "components (slash # s) = components s"
  by (simp add: components_def)

lemma components_append: "components (s @ slash # t) = components s @ components t"
  by (simp add: components_def split_slash_append)

lemma components_plain: "plain w \<Longrightarrow> components w = [w]"
  by (simp add: components_def split_slash_plain plain_def)

lemma resolve_dots_append_plain:
  "plain w \<Longrightarrow> resolve_dots r out (ws @ [w]) = resolve_dots r out ws @ [w]"
  by (induction r out ws rule: resolve_dots.induct) (auto simp: plain_def split: list.splits)

lemma IsAbs_append: "s \<noteq> [] \<Longrightarrow> IsAbs (s @ t) = IsAbs s"
  by (cases s) (simp_all add: IsAbs_def)

lemma clean_parts_child:
  assumes "plain w" and "s \<noteq> []"
  shows "clean_parts (s @ slash # w) = clean_parts s @ [w]"
  using assms
  by (simp add: clean_parts_def IsAbs_append components_append components_plain
      resolve_dots_append_plain)

lemma components_join:
  "list_all (\<lambda>w. slash \<notin> set w \<and> w \<noteq> [] \<and> w \<noteq> ''.'') ws \<Longrightarrow> components (join_slash ws) = ws"
proof (cases "ws = []")
  case True
  then show ?thesis by (simp add: components_def)
next
  case False
  assume "list_all (\<lambda>w. slash \<notin> set w \<and> w \<noteq> [] \<and> w \<noteq> ''.'') ws"
  with False show ?thesis
    by (simp add: components_def split_join_slash list_all_iff)
qed

lemma split_slash_no_slash: "w \<in> set (split_slash s) \<Longrightarrow> slash \<notin> set w"
proof (induction s arbitrary: w)
  case (Cons c s)
  then show ?case by (cases "split_slash s") (auto split: if_splits)
qed simp

lemma components_ok:
  "list_all (\<lambda>w. slash \<notin> set w \<and> w \<noteq> [] \<and> w \<noteq> ''.'') (components s)"
  by (auto simp: components_def list_all_iff dest: split_slash_no_slash)

lemma resolve_dots_ok:
  "list_all P ws \<Longrightarrow> list_all P out \<Longrightarrow> list_all P (resolve_dots r out ws)"
proof (induction r out ws rule: resolve_dots.induct)
  case (2 r out w ws)
  then show ?case by (cases out) auto
qed (simp add: list_all_iff)

lemma clean_parts_ok: "list_all (\<lambda>w. slash \<notin> set w \<and> w \<noteq> [] \<and> w \<noteq> ''.'') (clean_parts s)"
  unfolding clean_parts_def by (intro resolve_dots_ok components_ok) simp

text \<open>
  The output of \<open>resolve_dots\<close> is already resolved: no \<^verbatim>\<open>..\<close> follows a name, and an absolute
  path has none at all. \<open>resolved\<close> says so of a component list read from the left.
\<close>

definition resolved :: "bool \<Rightarrow> string list \<Rightarrow> bool" where
  "resolved rooted ws \<longleftrightarrow>
     (\<exists>n ns. ws = replicate n ''..'' @ ns \<and> ''..'' \<notin> set ns \<and> (rooted \<longrightarrow> n = 0))"

lemma resolve_dots_names:
  "''..'' \<notin> set ns \<Longrightarrow> resolve_dots r out ns = rev out @ ns"
  by (induction r out ns rule: resolve_dots.induct) auto

lemma resolve_dots_ups:
  "resolve_dots False (replicate m ''..'') (replicate n ''..'' @ ns)
     = resolve_dots False (replicate (n + m) ''..'') ns"
proof (induction n arbitrary: m)
  case (Suc n)
  have "resolve_dots False (replicate m ''..'') (''..'' # replicate n ''..'' @ ns)
      = resolve_dots False (replicate (Suc m) ''..'') (replicate n ''..'' @ ns)"
    by (cases m) simp_all
  also have "\<dots> = resolve_dots False (replicate (n + Suc m) ''..'') ns" by (rule Suc)
  finally show ?case by simp
qed simp

lemma resolve_dots_resolved: "resolved r ws \<Longrightarrow> resolve_dots r [] ws = ws"
proof -
  assume "resolved r ws"
  then obtain n ns where ws: "ws = replicate n ''..'' @ ns" "''..'' \<notin> set ns" "r \<longrightarrow> n = 0"
    by (auto simp: resolved_def)
  show ?thesis
  proof (cases r)
    case True
    with ws show ?thesis by (simp add: resolve_dots_names)
  next
    case False
    with ws resolve_dots_ups [of 0 n ns] show ?thesis by (simp add: resolve_dots_names)
  qed
qed

lemma resolved_snoc:
  "resolved r ws \<Longrightarrow> w \<noteq> ''..'' \<Longrightarrow> resolved r (ws @ [w])"
proof -
  assume "resolved r ws" and w: "w \<noteq> ''..''"
  then obtain n ns where "ws = replicate n ''..'' @ ns" "''..'' \<notin> set ns" "r \<longrightarrow> n = 0"
    by (auto simp: resolved_def)
  with w show ?thesis
    unfolding resolved_def by (intro exI [of _ n] exI [of _ "ns @ [w]"]) simp
qed

lemma resolved_snoc_dots:
  "resolved False (rev out) \<Longrightarrow> (out = [] \<or> hd out = ''..'') \<Longrightarrow> resolved False (rev out @ [''..''])"
proof -
  assume r: "resolved False (rev out)" and h: "out = [] \<or> hd out = ''..''"
  then obtain n ns where o: "rev out = replicate n ''..'' @ ns" "''..'' \<notin> set ns"
    by (auto simp: resolved_def)
  have "ns = []"
  proof (rule ccontr)
    assume "ns \<noteq> []"
    then have "last (rev out) = last ns" using o by simp
    moreover from \<open>ns \<noteq> []\<close> have "last ns \<in> set ns" by simp
    moreover from \<open>ns \<noteq> []\<close> o have "out \<noteq> []" by auto
    ultimately show False using h o(2) by (auto simp: last_rev)
  qed
  with o have "rev out @ [''..''] = replicate (Suc n) ''..''"
    by (simp add: replicate_append_same)
  then show ?thesis by (auto simp: resolved_def intro!: exI [of _ "Suc n"])
qed

lemma resolved_butlast: "resolved r (ws @ [w]) \<Longrightarrow> resolved r ws"
proof -
  assume "resolved r (ws @ [w])"
  then obtain n ns where ws: "ws @ [w] = replicate n ''..'' @ ns" "''..'' \<notin> set ns" "r \<longrightarrow> n = 0"
    by (auto simp: resolved_def)
  show ?thesis
  proof (cases ns rule: rev_cases)
    case Nil
    with ws have "ws @ [w] = replicate n ''..''" by simp
    then have "ws = replicate (n - 1) ''..''"
      by (metis append_butlast_last_id butlast_snoc length_replicate length_butlast
          map_replicate_const butlast_conv_take take_replicate min.absorb1 diff_le_self)
    with ws(3) show ?thesis by (auto simp: resolved_def intro!: exI [of _ "n - 1"])
  next
    case (snoc ms m)
    with ws have "ws = replicate n ''..'' @ ms" by simp
    with ws snoc show ?thesis by (auto simp: resolved_def)
  qed
qed

lemma resolve_dots_is_resolved: "resolved r (rev out) \<Longrightarrow> resolved r (resolve_dots r out ws)"
proof (induction r out ws rule: resolve_dots.induct)
  case (2 r out w ws)
  show ?case
  proof (cases "w = ''..''")
    case False
    with 2 show ?thesis by (auto intro: resolved_snoc)
  next
    case True
    show ?thesis
    proof (cases out)
      case Nil
      with True 2 show ?thesis
        by (cases r) (auto intro: resolved_snoc_dots [of "[]", simplified])
    next
      case (Cons v vs)
      show ?thesis
      proof (cases "v = ''..''")
        case False
        from Cons 2 have "resolved r (rev vs)" by (auto intro: resolved_butlast)
        with Cons True False 2 show ?thesis by simp
      next
        case v: True
        have "\<not> r" using Cons v "2.prems" by (auto simp: resolved_def)
        moreover from this Cons v "2.prems" have "resolved False (rev out @ [''..''])"
          by (intro resolved_snoc_dots) simp_all
        ultimately show ?thesis using Cons v True 2 by simp
      qed
    qed
  qed
qed simp

lemma clean_parts_resolved: "resolved (IsAbs s) (clean_parts s)"
  unfolding clean_parts_def
  by (intro resolve_dots_is_resolved) (simp add: resolved_def)

section \<open>Cleaning is idempotent; a plain child stays below its parent\<close>

lemma IsAbs_join: "list_all (\<lambda>w. slash \<notin> set w \<and> w \<noteq> [] \<and> w \<noteq> ''.'') ws \<Longrightarrow> \<not> IsAbs (join_slash ws)"
proof (induction ws rule: join_slash.induct)
  case (2 w)
  then show ?case by (cases w) (auto simp: IsAbs_def)
next
  case (3 w v ws)
  then show ?case by (cases w) (auto simp: IsAbs_def)
qed (simp add: IsAbs_def)

lemma Clean_nonempty [simp]: "Clean s \<noteq> []"
proof (cases "clean_parts s")
  case Nil
  then show ?thesis by (simp add: Clean_def)
next
  case (Cons w ws)
  with clean_parts_ok [of s] have "w \<noteq> []" by simp
  with Cons show ?thesis by (cases ws) (simp_all add: Clean_def)
qed

lemma IsAbs_Clean [simp]: "IsAbs (Clean s) = IsAbs s"
  using IsAbs_join [OF clean_parts_ok [of s]] by (simp add: Clean_def IsAbs_def)

lemma clean_parts_Clean [simp]: "clean_parts (Clean s) = clean_parts s"
proof -
  have parts: "components (join_slash (clean_parts s)) = clean_parts s"
    by (rule components_join [OF clean_parts_ok])
  have res: "resolve_dots (IsAbs s) [] (clean_parts s) = clean_parts s"
    by (rule resolve_dots_resolved [OF clean_parts_resolved])
  show ?thesis
  proof (cases "IsAbs s")
    case True
    then have "components (Clean s) = clean_parts s"
      by (simp add: Clean_def components_slash parts)
    with res True show ?thesis by (simp add: clean_parts_def [of "Clean s"])
  next
    case False
    show ?thesis
    proof (cases "clean_parts s = []")
      case True
      have "clean_parts ''.'' = []" by (simp add: clean_parts_def components_def)
      with True False show ?thesis by (simp add: Clean_def)
    next
      case nonempty: False
      with False have "components (Clean s) = clean_parts s" by (simp add: Clean_def parts)
      with res False show ?thesis by (simp add: clean_parts_def [of "Clean s"])
    qed
  qed
qed

lemma Clean_idem [simp]: "Clean (Clean s) = Clean s"
  by (simp add: Clean_def [of "Clean s"]) (simp add: Clean_def)

lemma drop_common_prefix: "drop_common bs (bs @ ts) = ([], ts)"
  by (induction bs) (cases ts; simp)+

lemma Join_child:
  assumes "plain w" and "s \<noteq> []"
  shows "Join [s, w] = Clean (s @ slash # w)" and "clean_parts (Join [s, w]) = clean_parts s @ [w]"
    and "IsAbs (Join [s, w]) = IsAbs s"
proof -
  show j: "Join [s, w] = Clean (s @ slash # w)" using assms by (simp add: Join_def plain_def)
  show "clean_parts (Join [s, w]) = clean_parts s @ [w]"
    unfolding j by (simp add: clean_parts_child [OF assms])
  show "IsAbs (Join [s, w]) = IsAbs s" unfolding j using assms by (simp add: IsAbs_append)
qed

lemma Rel_child:
  assumes "plain w" and "s \<noteq> []"
  shows "Rel s (Join [s, w]) = Some w"
proof -
  note parts = Join_child [OF assms]
  have "Clean s \<noteq> Clean (Join [s, w])"
  proof
    assume "Clean s = Clean (Join [s, w])"
    then have "clean_parts s = clean_parts (Join [s, w])" by (metis clean_parts_Clean)
    with parts(2) show False by simp
  qed
  with parts assms(1) show ?thesis
    unfolding Rel_def by (simp add: drop_common_prefix)
qed

lemma Join_child_inj:
  assumes "plain v" "plain w" "s \<noteq> []" and "Join [s, v] = Join [s, w]"
  shows "v = w"
  by (metis assms Join_child(2) append1_eq_conv)

end
