(* ===== verification/Config.thy ===== *)
theory Config
  imports Errors Go_Paths
begin

text \<open>
  The parts of \<^verbatim>\<open>internal/config/config.go\<close> that the daemon's state depends on: the path layout
  (\<^verbatim>\<open>Paths\<close>, \<^verbatim>\<open>ResolvePaths\<close>, \<^verbatim>\<open>WithHome\<close>), the atomic file replacement \<^verbatim>\<open>AtomicWrite\<close> and the
  operator's swap policy.
\<close>

section \<open>The path layout\<close>

record Paths =
  p_Home :: string
  p_Accounts :: string
  p_Downloads :: string
  p_Runtime :: string
  p_Socket :: string
  p_Registry :: string

text \<open>
  The process environment that \<^verbatim>\<open>ResolvePaths\<close> reads: variables (an unset one is empty), the
  user's home directory or the error of looking it up, the temporary directory and the UID.
\<close>

record process_env =
  pe_Getenv :: "string \<Rightarrow> string"
  pe_UserHomeDir :: "string result"
  pe_TempDir :: string
  pe_Getuid :: nat

definition resolve_home :: "process_env \<Rightarrow> string result" where
  "resolve_home pe =
     (let home = pe_Getenv pe ''WECHATCOPILOT_HOME''; state = pe_Getenv pe ''XDG_STATE_HOME''
      in if home \<noteq> [] then Inr home
         else if state \<noteq> [] then Inr (Join [state, ''wechatcopilot''])
         else case pe_UserHomeDir pe of
             Inl e \<Rightarrow> Inl e
           | Inr userHome \<Rightarrow> Inr (Join [Join [userHome, ''.local'', ''state''], ''wechatcopilot'']))"

definition resolve_runtime :: "process_env \<Rightarrow> string" where
  "resolve_runtime pe =
     (let runtimeDir = pe_Getenv pe ''WECHATCOPILOT_RUNTIME_DIR''; xdg = pe_Getenv pe ''XDG_RUNTIME_DIR''
      in if runtimeDir \<noteq> [] then runtimeDir
         else if xdg = [] then Join [pe_TempDir pe, ''wechatcopilot-'' @ dec_nat (pe_Getuid pe)]
         else Join [xdg, ''wechatcopilot''])"

definition ResolvePaths :: "process_env \<Rightarrow> Paths result" where
  "ResolvePaths pe =
     (case resolve_home pe of
        Inl e \<Rightarrow> Inl e
      | Inr home \<Rightarrow>
          if \<not> IsAbs home then Inl (ErrNew ''WECHATCOPILOT_HOME must be an absolute path'')
          else if \<not> IsAbs (resolve_runtime pe)
          then Inl (ErrNew ''resolved runtime directory must be absolute'')
          else let runtimeDir = Clean (resolve_runtime pe)
            in Inr \<lparr>p_Home = Clean home, p_Accounts = Join [home, ''accounts''],
                    p_Downloads = Join [home, ''downloads''], p_Runtime = runtimeDir,
                    p_Socket = Join [runtimeDir, ''wechatcopilot.sock''],
                    p_Registry = Join [home, ''accounts.json'']\<rparr>)"

definition WithHome :: "Paths \<Rightarrow> string \<Rightarrow> Paths result" where
  "WithHome p home =
     (if home = [] then Inr p
      else if \<not> IsAbs home then Inl (ErrNew ''state home must be an absolute path'')
      else Inr (p\<lparr>p_Home := Clean home, p_Accounts := Join [Clean home, ''accounts''],
                  p_Downloads := Join [Clean home, ''downloads''],
                  p_Registry := Join [Clean home, ''accounts.json'']\<rparr>))"

section \<open>Atomic file replacement\<close>

text \<open>
  Files are kept by name. \<^verbatim>\<open>os.CreateTemp\<close> never returns the name of an existing file, so its
  files have names of their own. The outcome of each system call is a parameter; a file whose
  write did not finish has no content.
\<close>

datatype node_kind = RegularFile | SymlinkNode | DirectoryNode | SocketNode

record 'a file_node =
  fn_kind :: node_kind
  fn_perm :: "32 word"
  fn_content :: "'a option"

datatype file_name = Named string | TempFile string

type_synonym 'a files = "file_name \<Rightarrow> 'a file_node option"

record write_env =
  we_MkdirAll :: "go_error option"
  we_CreateTemp :: "string result"
  we_Chmod :: "go_error option"
  we_Write :: "go_error option"
  we_Sync :: "go_error option"
  we_Close :: "go_error option"
  we_Rename :: "go_error option"
  we_RemoveFails :: bool

definition write_temp ::
  "write_env \<Rightarrow> file_name \<Rightarrow> string \<Rightarrow> 'a \<Rightarrow> 32 word \<Rightarrow> 'a files \<Rightarrow> go_error option \<times> 'a files"
where
  "write_temp we tmp path data mode files =
     (let node = \<lambda>perm content. \<lparr>fn_kind = RegularFile, fn_perm = perm, fn_content = content\<rparr>;
          created = files(tmp \<mapsto> node 0x180 None);
          moded = files(tmp \<mapsto> node mode None);
          written = files(tmp \<mapsto> node mode (Some data))
      in if we_Chmod we \<noteq> None then (we_Chmod we, created)
         else if we_Write we \<noteq> None then (we_Write we, moded)
         else if we_Sync we \<noteq> None then (we_Sync we, written)
         else if we_Close we \<noteq> None then (we_Close we, written)
         else if we_Rename we \<noteq> None then (we_Rename we, written)
         else (None, (written(tmp := None))(Named path \<mapsto> node mode (Some data))))"

definition AtomicWrite ::
  "write_env \<Rightarrow> string \<Rightarrow> 'a \<Rightarrow> 32 word \<Rightarrow> 'a files \<Rightarrow> go_error option \<times> 'a files"
where
  "AtomicWrite we path data mode files =
     (case we_MkdirAll we of
        Some e \<Rightarrow> (Some e, files)
      | None \<Rightarrow>
          (case we_CreateTemp we of
             Inl e \<Rightarrow> (Some e, files)
           | Inr tmp \<Rightarrow>
               (case write_temp we (TempFile tmp) path data mode files of
                  (err, files') \<Rightarrow>
                    (err, if we_RemoveFails we then files' else files'(TempFile tmp := None)))))"

definition write_ok :: write_env where
  "write_ok =
     \<lparr>we_MkdirAll = None, we_CreateTemp = Inr ''.write-1'', we_Chmod = None, we_Write = None,
      we_Sync = None, we_Close = None, we_Rename = None, we_RemoveFails = False\<rparr>"

lemma AtomicWrite_error:
  "AtomicWrite we path data mode files = (Some e, files') \<Longrightarrow> files' (Named q) = files (Named q)"
  by (auto simp: AtomicWrite_def write_temp_def Let_def split: option.splits sum.splits if_splits)

lemma AtomicWrite_success:
  "AtomicWrite we path data mode files = (None, files') \<Longrightarrow>
     files' (Named path) = Some \<lparr>fn_kind = RegularFile, fn_perm = mode, fn_content = Some data\<rparr>"
  by (auto simp: AtomicWrite_def write_temp_def Let_def split: option.splits sum.splits if_splits)

lemma AtomicWrite_other:
  "AtomicWrite we path data mode files = (err, files') \<Longrightarrow> q \<noteq> path \<Longrightarrow>
     files' (Named q) = files (Named q)"
  by (auto simp: AtomicWrite_def write_temp_def Let_def split: option.splits sum.splits if_splits)

lemma AtomicWrite_no_temp:
  "AtomicWrite we path data mode files = (err, files') \<Longrightarrow> \<not> we_RemoveFails we \<Longrightarrow>
     files (TempFile t) = None \<Longrightarrow> files' (TempFile t) = None"
  by (auto simp: AtomicWrite_def write_temp_def Let_def split: option.splits sum.splits if_splits)

lemma AtomicWrite_write_ok:
  "fst (AtomicWrite write_ok path data mode files) = None"
  by (simp add: AtomicWrite_def write_temp_def write_ok_def Let_def)

section \<open>The swap policy\<close>

record Check =
  ck_Name :: string
  ck_OK :: bool
  ck_Warning :: bool
  ck_Detail :: string
  ck_Fix :: string

definition applySwapPolicy :: "Check \<Rightarrow> bool \<Rightarrow> Check" where
  "applySwapPolicy check strict =
     (if ck_OK check \<or> strict then check
      else check\<lparr>ck_OK := True, ck_Warning := True,
             ck_Detail := ''warning: '' @ ck_Detail check,
             ck_Fix := ''Optional: use encrypted swap, zram without disk writeback, or set '' @
               ''WECHATCOPILOT_STRICT_SWAP=true to enforce strict blocking.''\<rparr>)"

definition enforceSwapPolicy :: "Check \<Rightarrow> bool \<Rightarrow> go_error option" where
  "enforceSwapPolicy check strict =
     (if \<not> strict \<or> ck_OK check then None else Some (ErrNew (ck_Detail check)))"

end
