(* ===== verification/Boundary_Props.thy ===== *)
theory Boundary_Props
  imports Config
begin

text \<open>
  Properties of the shared data model and of the process boundary: capability maps, the API error
  envelope, the path layout and the atomic replacement of a file.
\<close>

section \<open>Capability maps\<close>

lemma keys_known:
  assumes "\<forall>(n, v) \<in> set m. n \<in> set knownCapabilities \<and> validSupport v"
  shows "List.find (\<lambda>(name, _). name \<notin> set knownCapabilities) m = None"
  using assms by (induction m) auto

lemma lookup_valid:
  assumes "\<forall>(n, v) \<in> set m. n \<in> set knownCapabilities \<and> validSupport v" and "name \<in> fst ` set m"
  shows "\<exists>v. map_of m name = Some v \<and> validSupport v"
  using assms by (metis (mono_tags, lifting) case_prodD map_of_SomeD map_of_eq_None_iff not_None_eq)

text \<open>A capability map that a driver builds passes the contract check: every known capability has a
  valid level and there is no unknown key; capabilities not overridden are unsupported.\<close>

theorem CapabilityMap_validates:
  assumes "CapabilityMap overrides = Some m"
  shows "ValidateCapabilities m = None \<and>
    (\<forall>name \<in> set knownCapabilities. map_of m name =
       (case map_of (rev overrides) name of Some v \<Rightarrow> Some v | None \<Rightarrow> Some SupportUnsupported))"
proof -
  note run = assms [unfolded CapabilityMap_def]
  let ?base = "map (\<lambda>name. (name, SupportUnsupported)) knownCapabilities"
  have base: "\<forall>(n, v) \<in> set ?base. n \<in> set knownCapabilities \<and> validSupport v" by auto
  have valid: "\<forall>(n, v) \<in> set m. n \<in> set knownCapabilities \<and> validSupport v"
    by (rule apply_overrides_valid [OF run base])
  have "\<forall>name \<in> set knownCapabilities. \<exists>v. map_of m name = Some v \<and> validSupport v"
    using lookup_valid [OF valid] CapabilityMap_dom [OF assms] by blast
  then have "check_known m knownCapabilities = None" unfolding check_known_None .
  with keys_known [OF valid] have "ValidateCapabilities m = None" by (simp add: ValidateCapabilities_def)
  moreover have "map_of ?base name = Some SupportUnsupported" if "name \<in> set knownCapabilities" for name
    using that by (simp add: map_of_map_restrict)
  ultimately show ?thesis using apply_overrides_lookup [OF run] by (auto split: option.splits)
qed

theorem CapabilityMap_validates_witness:
  "\<exists>m. CapabilityMap [(''web.open'', SupportBeta)] = Some m \<and> ValidateCapabilities m = None"
proof -
  have "CapabilityMap [(''web.open'', SupportBeta)] \<noteq> None" by code_simp
  then obtain m where m: "CapabilityMap [(''web.open'', SupportBeta)] = Some m" by blast
  then show ?thesis using CapabilityMap_validates [OF m] by blast
qed

section \<open>The error envelope\<close>

definition error_status :: "go_error \<Rightarrow> nat" where
  "error_status e = snd (Failure e)"

text \<open>An error that is no API error is answered as an internal error without its text; a classified driver
  failure becomes an API error with the status and the text of its kind.\<close>

theorem Failure_discloses_nothing:
  "(errors_As is_App e = None \<longrightarrow>
      Failure e = (error_response \<lparr>ae_Code = CodeInternal, ae_Message = ''internal error'', ae_Details = []\<rparr>,
        StatusInternalServerError)) \<and>
   (ClassifyFailure (Some e) = Some kind \<longrightarrow>
      classifiedDriverError (Some e) =
        Some (ErrApp (fst (failure_mapping kind)) (fst (snd (failure_mapping kind)))
          (snd (snd (failure_mapping kind))) [] (Some e)) \<and>
      400 \<le> fst (failure_mapping kind) \<and> fst (failure_mapping kind) < 600)"
proof -
  have "400 \<le> fst (failure_mapping kind) \<and> fst (failure_mapping kind) < 600"
    by (cases kind) simp_all
  then show ?thesis
    by (simp add: Failure_def classifiedDriverError_def WrapError_def split: prod.split)
qed

theorem Failure_discloses_nothing_witness:
  "Failure (ErrNew ''secret path'') =
     (error_response \<lparr>ae_Code = CodeInternal, ae_Message = ''internal error'', ae_Details = []\<rparr>,
      StatusInternalServerError)"
proof -
  have "errors_As is_App (ErrNew ''secret path'') = None" by simp
  then show ?thesis using Failure_discloses_nothing [of "ErrNew ''secret path''"] by blast
qed

section \<open>Paths and files\<close>

text \<open>The resolved layout is absolute and clean: the home and runtime directories are their own
  cleaned form, and the accounts directory, the registry and the socket are direct children of them.\<close>

theorem ResolvePaths_layout:
  assumes "ResolvePaths pe = Inr p"
  shows "IsAbs (p_Home p) \<and> Clean (p_Home p) = p_Home p \<and> IsAbs (p_Runtime p) \<and>
    Clean (p_Runtime p) = p_Runtime p \<and>
    clean_parts (p_Accounts p) = clean_parts (p_Home p) @ [''accounts''] \<and>
    clean_parts (p_Registry p) = clean_parts (p_Home p) @ [''accounts.json''] \<and>
    clean_parts (p_Socket p) = clean_parts (p_Runtime p) @ [''wechatcopilot.sock'']"
proof -
  obtain home where h: "resolve_home pe = Inr home" "IsAbs home" "IsAbs (resolve_runtime pe)"
    and p: "p = \<lparr>p_Home = Clean home, p_Accounts = Join [home, ''accounts''],
      p_Downloads = Join [home, ''downloads''], p_Runtime = Clean (resolve_runtime pe),
      p_Socket = Join [Clean (resolve_runtime pe), ''wechatcopilot.sock''],
      p_Registry = Join [home, ''accounts.json'']\<rparr>"
    using assms by (auto simp: ResolvePaths_def Let_def split: sum.splits if_splits)
  have plain: "plain ''accounts''" "plain ''accounts.json''" "plain ''wechatcopilot.sock''" by code_simp+
  have "home \<noteq> []" using h(2) by (auto simp: IsAbs_def)
  then show ?thesis using h plain
    by (simp add: p Join_child(2))
qed

definition demo_process :: process_env where
  "demo_process = \<lparr>pe_Getenv = (\<lambda>n. if n = ''WECHATCOPILOT_HOME'' then ''/var//lib/x/'' else []),
     pe_UserHomeDir = Inr ''/root'', pe_TempDir = ''/tmp'', pe_Getuid = 7\<rparr>"

theorem ResolvePaths_layout_witness:
  "\<exists>p. ResolvePaths demo_process = Inr p \<and> Clean (p_Home p) = p_Home p"
proof -
  have "\<not> isl (ResolvePaths demo_process)" by code_simp
  then obtain p where p: "ResolvePaths demo_process = Inr p" by (cases "ResolvePaths demo_process") auto
  then show ?thesis using ResolvePaths_layout [OF p] by blast
qed

text \<open>Replacing a file is atomic: when it fails every file keeps its previous content, when it
  succeeds the file has the new content and mode and no other file has changed; and unless the
  removal of the temporary file itself fails, none is left behind.\<close>

theorem AtomicWrite_atomic:
  assumes "AtomicWrite we path data mode files = (err, files')"
  shows "(err \<noteq> None \<longrightarrow> (\<forall>q. files' (Named q) = files (Named q))) \<and>
    (err = None \<longrightarrow> files' (Named path) = Some \<lparr>fn_kind = RegularFile, fn_perm = mode, fn_content = Some data\<rparr> \<and>
       (\<forall>q. q \<noteq> path \<longrightarrow> files' (Named q) = files (Named q))) \<and>
    (\<forall>t. \<not> we_RemoveFails we \<longrightarrow> files (TempFile t) = None \<longrightarrow> files' (TempFile t) = None)"
  using assms AtomicWrite_error AtomicWrite_success AtomicWrite_other AtomicWrite_no_temp
  by (metis not_None_eq)

theorem AtomicWrite_atomic_witness:
  "snd (AtomicWrite write_ok ''/a'' (1 :: nat) 0x180 (\<lambda>_. None)) (Named ''/a'') =
     Some \<lparr>fn_kind = RegularFile, fn_perm = 0x180, fn_content = Some 1\<rparr>"
proof -
  let ?w = "AtomicWrite write_ok ''/a'' (1 :: nat) 0x180 (\<lambda>_. None)"
  have "?w = (fst ?w, snd ?w)" by simp
  from AtomicWrite_atomic [OF this] show ?thesis by (simp add: AtomicWrite_write_ok)
qed

end
