(* ===== verification/Go_Text.thy ===== *)
theory Go_Text
  imports Prelude
begin

text \<open>
  Texts as Go sees them: validity of UTF-8, the runes of a byte string, and the case folding and
  trimming that the drivers use.
\<close>

section \<open>UTF-8\<close>

definition in_range :: "nat \<Rightarrow> nat \<Rightarrow> char \<Rightarrow> bool" where
  "in_range lo hi c \<longleftrightarrow> lo \<le> of_char c \<and> of_char c \<le> hi"

text \<open>The classes of the bytes that may follow a leading byte; \<open>None\<close> for an invalid leading byte.\<close>

definition utf8_tail :: "char \<Rightarrow> (char \<Rightarrow> bool) list option" where
  "utf8_tail c =
     (let cont = in_range 0x80 0xBF
      in if in_range 0x00 0x7F c then Some []
         else if in_range 0xC2 0xDF c then Some [cont]
         else if in_range 0xE0 0xE0 c then Some [in_range 0xA0 0xBF, cont]
         else if in_range 0xED 0xED c then Some [in_range 0x80 0x9F, cont]
         else if in_range 0xE1 0xEF c then Some [cont, cont]
         else if in_range 0xF0 0xF0 c then Some [in_range 0x90 0xBF, cont, cont]
         else if in_range 0xF1 0xF3 c then Some [cont, cont, cont]
         else if in_range 0xF4 0xF4 c then Some [in_range 0x80 0x8F, cont, cont]
         else None)"

fun utf8_scan :: "(char \<Rightarrow> bool) list \<Rightarrow> string \<Rightarrow> bool" where
  "utf8_scan [] [] \<longleftrightarrow> True"
| "utf8_scan (p # ps) [] \<longleftrightarrow> False"
| "utf8_scan (p # ps) (c # s) \<longleftrightarrow> p c \<and> utf8_scan ps s"
| "utf8_scan [] (c # s) \<longleftrightarrow> (case utf8_tail c of None \<Rightarrow> False | Some ps \<Rightarrow> utf8_scan ps s)"

definition ValidString :: "string \<Rightarrow> bool" where
  "ValidString s = utf8_scan [] s"

text \<open>
  The width of the rune at the head of a string: a byte that does not begin a valid encoding is a
  rune of its own.
\<close>

definition rune_width :: "string \<Rightarrow> nat" where
  "rune_width s =
     (case s of
        [] \<Rightarrow> 0
      | c # cs \<Rightarrow>
          (case utf8_tail c of
             None \<Rightarrow> 1
           | Some ps \<Rightarrow> if length ps \<le> length cs \<and> list_all2 (\<lambda>p d. p d) ps (take (length ps) cs) then 1 + length ps else 1))"

lemma rune_width_positive: "s \<noteq> [] \<Longrightarrow> 0 < rune_width s"
  by (cases s) (auto simp: rune_width_def split: option.splits)

function runes :: "string \<Rightarrow> string list" where
  "runes s = (if s = [] then [] else take (rune_width s) s # runes (drop (rune_width s) s))"
  by pat_completeness auto
termination
  by (relation "measure length") (auto simp: rune_width_positive)

declare runes.simps [simp del]

definition RuneCount :: "string \<Rightarrow> nat" where
  "RuneCount s = length (runes s)"

lemma concat_runes: "concat (runes s) = s"
  by (induction s rule: runes.induct) (simp add: runes.simps [of "_ :: string"])

section \<open>Folding\<close>

text \<open>
  \<^verbatim>\<open>strings.EqualFold\<close> against a lower-case ASCII text: letters fold to lower case, and the long s
  and the Kelvin sign fold to the letters s and k.
\<close>

fun fold_case :: "string \<Rightarrow> string" where
  "fold_case [] = []"
| "fold_case (c # cs) =
     (if c = CHR 0xC5 \<and> take 1 cs = [CHR 0xBF] then CHR ''s'' # fold_case (drop 1 cs)
      else if c = CHR 0xE2 \<and> take 2 cs = [CHR 0x84, CHR 0xAA] then CHR ''k'' # fold_case (drop 2 cs)
      else lower_byte c # fold_case cs)"

text \<open>\<^verbatim>\<open>strings.Trim\<close> with a cutset of single bytes.\<close>

definition Trim :: "string \<Rightarrow> string \<Rightarrow> string" where
  "Trim s cutset = rev (dropWhile (\<lambda>c. c \<in> set cutset) (rev (dropWhile (\<lambda>c. c \<in> set cutset) s)))"

definition ContainsNUL :: "string \<Rightarrow> bool" where
  "ContainsNUL s \<longleftrightarrow> CHR 0x00 \<in> set s"

definition HasPrefix :: "string \<Rightarrow> string \<Rightarrow> bool" where
  "HasPrefix s pre \<longleftrightarrow> take (length pre) s = pre"

end
