(* ===== verification/Go_Time.thy ===== *)
theory Go_Time
  imports Prelude
begin

text \<open>
  The text form of an instant, \<^verbatim>\<open>t.UTC().Format(time.RFC3339Nano)\<close>, in which the message index
  stores times: the proleptic Gregorian date, the time of day, and the fraction of the second
  with its trailing zeros dropped. The index compares these texts byte by byte.
\<close>

definition leap_year :: "int \<Rightarrow> bool" where
  "leap_year y \<longleftrightarrow> y mod 4 = 0 \<and> (y mod 100 \<noteq> 0 \<or> y mod 400 = 0)"

definition month_lengths :: "int \<Rightarrow> int list" where
  "month_lengths y = [31, if leap_year y then 29 else 28, 31, 30, 31, 30, 31, 31, 30, 31, 30, 31]"

fun month_day :: "int list \<Rightarrow> int \<Rightarrow> int \<Rightarrow> int \<times> int" where
  "month_day [] m d = (m, d + 1)"
| "month_day (l # ls) m d = (if d < l then (m, d + 1) else month_day ls (m + 1) (d - l))"

text \<open>Year, month and day of a day number counted from 1 January of year 1.\<close>

definition civil :: "int \<Rightarrow> int \<times> int \<times> int" where
  "civil days =
     (let n400 = days div 146097; d1 = days mod 146097;
          n100 = min 3 (d1 div 36524); d2 = d1 - n100 * 36524;
          n4 = d2 div 1461; d3 = d2 mod 1461;
          n1 = min 3 (d3 div 365); d4 = d3 - n1 * 365;
          y = 400 * n400 + 100 * n100 + 4 * n4 + n1 + 1;
          (m, d) = month_day (month_lengths y) 1 d4
      in (y, m, d))"

definition pad :: "nat \<Rightarrow> int \<Rightarrow> string" where
  "pad n i = (let s = Itoa i in replicate (n - length s) (CHR ''0'') @ s)"

definition trim_zeros :: "string \<Rightarrow> string" where
  "trim_zeros s = rev (dropWhile (\<lambda>c. c = CHR ''0'') (rev s))"

definition FormatRFC3339Nano :: "time \<Rightarrow> string" where
  "FormatRFC3339Nano t =
     (let secs = t div second; ns = t mod second;
          sod = secs mod 86400;
          (y, m, d) = civil (secs div 86400)
      in pad 4 y @ ''-'' @ pad 2 m @ ''-'' @ pad 2 d @ ''T'' @
         pad 2 (sod div 3600) @ '':'' @ pad 2 (sod div 60 mod 60) @ '':'' @ pad 2 (sod mod 60) @
         (if ns = 0 then [] else ''.'' @ trim_zeros (pad 9 ns)) @ ''Z'')"

text \<open>Equations with which the simplifier evaluates a format.\<close>

lemma digit_chars:
  "char_of (48 :: nat) = CHR ''0''" "char_of (49 :: nat) = CHR ''1''" "char_of (50 :: nat) = CHR ''2''"
  "char_of (51 :: nat) = CHR ''3''" "char_of (52 :: nat) = CHR ''4''" "char_of (53 :: nat) = CHR ''5''"
  "char_of (54 :: nat) = CHR ''6''" "char_of (55 :: nat) = CHR ''7''" "char_of (56 :: nat) = CHR ''8''"
  "char_of (57 :: nat) = CHR ''9''"
  by code_simp+

lemma replicate_3: "replicate 3 c = [c, c, c]"
  by (simp add: numeral_3_eq_3)

lemmas format_simps = replicate_3 FormatRFC3339Nano_def pad_def Itoa_def
  dec_nat.simps [of 0] dec_nat.simps [of "Suc 0"] dec_nat.simps [of "numeral n" for n] trim_zeros_def Let_def digit_chars

end
