(* ===== verification/Go_JSON.thy ===== *)
theory Go_JSON
  imports Go_Text Go_Time
begin

text \<open>
  JSON as \<^verbatim>\<open>encoding/json\<close> writes and reads it: values, the texts that survive an encoding, and the
  decoding of an object into the fields of a struct.

  \<open>JTime t\<close> is a string that is the RFC 3339 text of the time \<open>t\<close>, and \<open>JStr\<close> any other string; the
  digits of numbers and the layout of the text are not represented.
\<close>

datatype json = JNull | JBool bool | JInt int | JStr string | JTime time | JList "json list" | JObj "(string \<times> json) list"

section \<open>Texts\<close>

text \<open>Both directions replace every byte that is not part of a valid encoding by U+FFFD.\<close>

definition stray :: "string \<Rightarrow> bool" where
  "stray piece \<longleftrightarrow> (case piece of [c] \<Rightarrow> 128 \<le> (of_char c :: nat) | _ \<Rightarrow> False)"

definition json_piece :: "string \<Rightarrow> string" where
  "json_piece piece = (if stray piece then [CHR 0xEF, CHR 0xBF, CHR 0xBD] else piece)"

definition json_text :: "string \<Rightarrow> string" where
  "json_text s = concat (map json_piece (runes s))"

definition whole_rune :: "string \<Rightarrow> bool" where
  "whole_rune p \<longleftrightarrow> p \<noteq> [] \<and> rune_width p = length p \<and> \<not> stray p"

lemma utf8_tail_ascii: "utf8_tail c = Some [] \<longleftrightarrow> of_char c < (128 :: nat)"
  by (auto simp: utf8_tail_def in_range_def Let_def split: if_splits)

lemma rune_width_Cons:
  "rune_width (c # cs) =
     (case utf8_tail c of None \<Rightarrow> 1
      | Some ps \<Rightarrow> if length ps \<le> length cs \<and> list_all2 (\<lambda>p d. p d) ps (take (length ps) cs) then 1 + length ps else 1)"
  by (simp add: rune_width_def)

lemma whole_rune_width: "whole_rune p \<Longrightarrow> rune_width (p @ t) = length p"
proof -
  assume p: "whole_rune p"
  then obtain c cs where eq: "p = c # cs" by (cases p) (auto simp: whole_rune_def)
  have w: "rune_width (c # cs) = Suc (length cs)" using p eq by (simp add: whole_rune_def)
  have ascii: "cs = [] \<Longrightarrow> of_char c < (128 :: nat)" using p eq by (auto simp: whole_rune_def stray_def)
  show ?thesis
  proof (cases "utf8_tail c")
    case None
    then have "cs = []" using w by (simp add: rune_width_Cons)
    with ascii utf8_tail_ascii [of c] None show ?thesis by simp
  next
    case (Some ps)
    show ?thesis
    proof (cases "length ps \<le> length cs \<and> list_all2 (\<lambda>p d. p d) ps (take (length ps) cs)")
      case True
      then have "length cs = length ps" using w Some by (simp add: rune_width_Cons)
      then show ?thesis using True Some eq by (simp add: rune_width_Cons)
    next
      case False
      then have "length (c # cs) = 1" using w Some by (auto simp: rune_width_Cons)
      then have "cs = []" by simp
      then have "ps = []" using ascii utf8_tail_ascii [of c] Some by simp
      then show ?thesis using False by simp
    qed
  qed
qed

lemma runes_concat: "list_all whole_rune ps \<Longrightarrow> runes (concat ps) = ps"
proof (induction ps)
  case Nil
  then show ?case by (simp add: runes.simps [of "[]"])
next
  case (Cons p ps)
  then have "whole_rune p" "p \<noteq> []" by (auto simp: whole_rune_def)
  with Cons show ?case by (simp add: runes.simps [of "p @ concat ps"] whole_rune_width)
qed

lemma rune_width_le: "rune_width s \<le> length s"
  by (cases s) (auto simp: rune_width_def split: option.splits)

lemma rune_width_take: "rune_width (take (rune_width s) s) = rune_width s"
  by (cases s) (auto simp: rune_width_def min_def split: option.splits)

lemma runes_pieces: "p \<in> set (runes s) \<Longrightarrow> whole_rune p \<or> stray p"
proof (induction s rule: runes.induct)
  case (1 s)
  show ?case
  proof (cases "s = []")
    case True
    with "1.prems" show ?thesis by (simp add: runes.simps [of "[]"])
  next
    case False
    have "whole_rune (take (rune_width s) s) \<or> stray (take (rune_width s) s)"
      using False rune_width_positive [OF False] rune_width_take [of s] rune_width_le [of s]
      by (auto simp: whole_rune_def)
    with False "1.prems" "1.IH" show ?thesis by (auto simp: runes.simps [of s])
  qed
qed

lemma json_piece_whole: "whole_rune p \<or> stray p \<Longrightarrow> whole_rune (json_piece p)"
proof -
  have "whole_rune [CHR 0xEF, CHR 0xBF, CHR 0xBD]" by code_simp
  then show "whole_rune p \<or> stray p \<Longrightarrow> whole_rune (json_piece p)" by (auto simp: json_piece_def whole_rune_def)
qed

lemma json_piece_same: "whole_rune p \<Longrightarrow> json_piece p = p"
  by (simp add: json_piece_def whole_rune_def)

lemma runes_json_text: "runes (json_text s) = map json_piece (runes s)"
  unfolding json_text_def by (rule runes_concat) (auto simp: list_all_iff intro: json_piece_whole dest: runes_pieces)

lemma json_text_idem [simp]: "json_text (json_text s) = json_text s"
proof -
  have "json_piece (json_piece p) = json_piece p" if "p \<in> set (runes s)" for p
    using that by (intro json_piece_same json_piece_whole) (rule runes_pieces)
  then have "map json_piece (map json_piece (runes s)) = map json_piece (runes s)" by simp
  then show ?thesis unfolding json_text_def [of "json_text s"] runes_json_text by (simp only: json_text_def)
qed

lemma json_text_Nil [simp]: "json_text [] = []"
  by (simp add: json_text_def runes.simps [of "[]"])

lemma json_text_empty [simp]: "json_text s = [] \<longleftrightarrow> s = []"
proof
  assume "json_text s = []"
  then have "\<forall>p \<in> set (runes s). json_piece p = []" by (simp add: json_text_def)
  moreover have "json_piece p \<noteq> []" if "p \<in> set (runes s)" for p
    using json_piece_whole [OF runes_pieces [OF that]] by (simp add: whole_rune_def)
  ultimately have "runes s = []" by (cases "runes s") auto
  then show "s = []" by (cases "s = []") (simp_all add: runes.simps [of s])
qed simp

text \<open>A valid text is written as it is.\<close>

lemma utf8_scan_tail:
  "utf8_scan ps s \<Longrightarrow> length ps \<le> length s \<and> list_all2 (\<lambda>p d. p d) ps (take (length ps) s) \<and> utf8_scan [] (drop (length ps) s)"
  by (induction ps s rule: utf8_scan.induct) auto

lemma json_text_valid: "ValidString s \<Longrightarrow> json_text s = s"
proof -
  have "p \<in> set (runes s) \<Longrightarrow> utf8_scan [] s \<Longrightarrow> \<not> stray p" for p
  proof (induction s rule: runes.induct)
    case (1 s)
    show ?case
    proof (cases s)
      case Nil
      with "1.prems" show ?thesis by (simp add: runes.simps [of "[]"])
    next
      case (Cons c cs)
      then obtain ps where ps: "utf8_tail c = Some ps" "utf8_scan ps cs" using "1.prems"(2) by (auto split: option.splits)
      note tail = utf8_scan_tail [OF ps(2)]
      have w: "rune_width (c # cs) = Suc (length ps)" using ps tail by (simp add: rune_width_Cons)
      have "\<not> stray (take (rune_width s) s)"
        using utf8_tail_ascii [of c] ps(1) tail unfolding Cons w
        by (cases ps) (auto simp: stray_def split: list.splits)
      moreover have "utf8_scan [] (drop (rune_width s) s)" using tail unfolding Cons w by simp
      ultimately show ?thesis using "1.prems"(1) "1.IH" Cons by (auto simp: runes.simps [of "c # cs"])
    qed
  qed
  then have "ValidString s \<Longrightarrow> map json_piece (runes s) = runes s"
    by (intro map_idI) (auto simp: ValidString_def json_piece_def)
  then show "ValidString s \<Longrightarrow> json_text s = s" by (simp add: json_text_def concat_runes)
qed

section \<open>Decoding into a struct\<close>

text \<open>The field for a key: the exact name, or the name that equals it up to case.\<close>

definition find_field :: "string list \<Rightarrow> string \<Rightarrow> string option" where
  "find_field names key = (if key \<in> set names then Some key else List.find (\<lambda>n. n = fold_case key) names)"

fun set_fields :: "(string \<Rightarrow> json \<Rightarrow> 'a \<Rightarrow> 'a option) \<Rightarrow> string list \<Rightarrow> (string \<times> json) list \<Rightarrow> 'a \<Rightarrow> 'a option" where
  "set_fields set_field names [] x = Some x"
| "set_fields set_field names ((key, v) # rest) x =
     (case find_field names key of
        None \<Rightarrow> set_fields set_field names rest x
      | Some name \<Rightarrow>
          (case set_field name v x of None \<Rightarrow> None | Some y \<Rightarrow> set_fields set_field names rest y))"

definition decode_struct :: "(string \<Rightarrow> json \<Rightarrow> 'a \<Rightarrow> 'a option) \<Rightarrow> string list \<Rightarrow> json \<Rightarrow> 'a \<Rightarrow> 'a option" where
  "decode_struct set_field names v x =
     (case v of JObj members \<Rightarrow> set_fields set_field names members x | JNull \<Rightarrow> Some x | _ \<Rightarrow> None)"

text \<open>The value of a field of a basic type; \<^verbatim>\<open>null\<close> leaves the field as it is.\<close>

definition decode_string :: "json \<Rightarrow> string \<Rightarrow> string option" where
  "decode_string v old =
     (case v of JStr s \<Rightarrow> Some (json_text s) | JTime t \<Rightarrow> Some (FormatRFC3339Nano t) | JNull \<Rightarrow> Some old | _ \<Rightarrow> None)"

definition decode_bool :: "json \<Rightarrow> bool \<Rightarrow> bool option" where
  "decode_bool v old = (case v of JBool b \<Rightarrow> Some b | JNull \<Rightarrow> Some old | _ \<Rightarrow> None)"

definition decode_int :: "json \<Rightarrow> int \<Rightarrow> int option" where
  "decode_int v old =
     (case v of JInt i \<Rightarrow> if - (2 ^ 63) \<le> i \<and> i < 2 ^ 63 then Some i else None | JNull \<Rightarrow> Some old | _ \<Rightarrow> None)"

definition decode_time :: "json \<Rightarrow> time \<Rightarrow> time option" where
  "decode_time v old = (case v of JTime t \<Rightarrow> Some t | JNull \<Rightarrow> Some old | _ \<Rightarrow> None)"

lemma set_fields_append:
  "set_fields f names (xs @ ys) x = Option.bind (set_fields f names xs x) (set_fields f names ys)"
  by (induction f names xs x rule: set_fields.induct) (auto split: option.splits)

end
