(* ===== verification/Account_JSON.thy ===== *)
theory Account_JSON
  imports Driver_Types Go_JSON
begin

text \<open>
  The records of the account registry (\<^verbatim>\<open>internal/account/store.go\<close>) and their JSON form: what
  \<^verbatim>\<open>saveDataLocked\<close> marshals with the tags of the structs, and what \<^verbatim>\<open>Open\<close> makes of a file. The
  members of a repeated \<^verbatim>\<open>accounts\<close> key, which Go decodes into the elements of the earlier one, are decoded
  afresh.
\<close>

section \<open>Records\<close>

record Account =
  acc_ID :: string
  acc_Alias :: string
  acc_Platform :: platform
  acc_Active :: bool
  acc_State :: runtime_state
  acc_Identity :: "Identity option"
  acc_CreatedAt :: time
  acc_UpdatedAt :: time
  acc_LastError :: string
  acc_ClientVersion :: string
  acc_Deleting :: bool

record registry =
  reg_Version :: int
  reg_Accounts :: "Account list"

text \<open>The constants of the types \<^verbatim>\<open>Platform\<close> and \<^verbatim>\<open>RuntimeState\<close>, which are strings.\<close>

definition platform_of :: "string \<Rightarrow> platform" where
  "platform_of s = (if s = ''wechat'' then PlatformWeChat else if s = ''wecom'' then PlatformWeCom else PlatformOther s)"

definition state_string :: "runtime_state \<Rightarrow> string" where
  "state_string st =
     (case st of StateStopped \<Rightarrow> ''STOPPED'' | StateStarting \<Rightarrow> ''STARTING'' | StateAuthRequired \<Rightarrow> ''AUTH_REQUIRED''
      | StateOnline \<Rightarrow> ''ONLINE'' | StateDegraded \<Rightarrow> ''DEGRADED'' | StateOffline \<Rightarrow> ''OFFLINE'' | StateOther s \<Rightarrow> s)"

definition state_of :: "string \<Rightarrow> runtime_state" where
  "state_of s =
     (if s = ''STOPPED'' then StateStopped else if s = ''STARTING'' then StateStarting
      else if s = ''AUTH_REQUIRED'' then StateAuthRequired else if s = ''ONLINE'' then StateOnline
      else if s = ''DEGRADED'' then StateDegraded else if s = ''OFFLINE'' then StateOffline else StateOther s)"

section \<open>Encoding\<close>

definition text_json :: "string \<Rightarrow> json" where
  "text_json s = JStr (json_text s)"

text \<open>A member with \<^verbatim>\<open>omitempty\<close>.\<close>

definition text_member :: "string \<Rightarrow> string \<Rightarrow> (string \<times> json) list" where
  "text_member key s = (if s = [] then [] else [(key, text_json s)])"

definition encode_identity :: "Identity \<Rightarrow> json" where
  "encode_identity i = JObj (text_member ''platform_id'' (idn_PlatformID i) @ text_member ''display_name'' (idn_DisplayName i) @
     text_member ''avatar_url'' (idn_AvatarURL i))"

definition encode_account :: "Account \<Rightarrow> json" where
  "encode_account a = JObj
     ([(''id'', text_json (acc_ID a)), (''alias'', text_json (acc_Alias a)),
       (''platform'', text_json (platform_string (acc_Platform a))), (''active'', JBool (acc_Active a)),
       (''state'', text_json (state_string (acc_State a)))] @
      (case acc_Identity a of None \<Rightarrow> [] | Some i \<Rightarrow> [(''identity'', encode_identity i)]) @
      [(''created_at'', JTime (acc_CreatedAt a)), (''updated_at'', JTime (acc_UpdatedAt a))] @
      text_member ''last_error'' (acc_LastError a) @ text_member ''client_version'' (acc_ClientVersion a) @
      (if acc_Deleting a then [(''deleting'', JBool True)] else []))"

definition encode_registry :: "registry \<Rightarrow> json" where
  "encode_registry r = JObj [(''version'', JInt (reg_Version r)), (''accounts'', JList (map encode_account (reg_Accounts r)))]"

section \<open>Decoding\<close>

definition identity_names :: "string list" where
  "identity_names = [''platform_id'', ''display_name'', ''avatar_url'']"

definition identity_field :: "string \<Rightarrow> json \<Rightarrow> Identity \<Rightarrow> Identity option" where
  "identity_field name v i =
     (if name = ''platform_id'' then map_option (\<lambda>s. i\<lparr>idn_PlatformID := s\<rparr>) (decode_string v (idn_PlatformID i))
      else if name = ''display_name'' then map_option (\<lambda>s. i\<lparr>idn_DisplayName := s\<rparr>) (decode_string v (idn_DisplayName i))
      else map_option (\<lambda>s. i\<lparr>idn_AvatarURL := s\<rparr>) (decode_string v (idn_AvatarURL i)))"

definition zero_Identity :: Identity where
  "zero_Identity = \<lparr>idn_PlatformID = [], idn_DisplayName = [], idn_AvatarURL = []\<rparr>"

definition account_names :: "string list" where
  "account_names = [''id'', ''alias'', ''platform'', ''active'', ''state'', ''identity'', ''created_at'', ''updated_at'',
     ''last_error'', ''client_version'', ''deleting'']"

definition account_field :: "string \<Rightarrow> json \<Rightarrow> Account \<Rightarrow> Account option" where
  "account_field name v a =
     (if name = ''id'' then map_option (\<lambda>s. a\<lparr>acc_ID := s\<rparr>) (decode_string v (acc_ID a))
      else if name = ''alias'' then map_option (\<lambda>s. a\<lparr>acc_Alias := s\<rparr>) (decode_string v (acc_Alias a))
      else if name = ''platform''
      then map_option (\<lambda>s. a\<lparr>acc_Platform := platform_of s\<rparr>) (decode_string v (platform_string (acc_Platform a)))
      else if name = ''active'' then map_option (\<lambda>b. a\<lparr>acc_Active := b\<rparr>) (decode_bool v (acc_Active a))
      else if name = ''state''
      then map_option (\<lambda>s. a\<lparr>acc_State := state_of s\<rparr>) (decode_string v (state_string (acc_State a)))
      else if name = ''identity''
      then (if v = JNull then Some (a\<lparr>acc_Identity := None\<rparr>)
            else map_option (\<lambda>i. a\<lparr>acc_Identity := Some i\<rparr>)
              (decode_struct identity_field identity_names v
                 (case acc_Identity a of None \<Rightarrow> zero_Identity | Some i \<Rightarrow> i)))
      else if name = ''created_at'' then map_option (\<lambda>t. a\<lparr>acc_CreatedAt := t\<rparr>) (decode_time v (acc_CreatedAt a))
      else if name = ''updated_at'' then map_option (\<lambda>t. a\<lparr>acc_UpdatedAt := t\<rparr>) (decode_time v (acc_UpdatedAt a))
      else if name = ''last_error'' then map_option (\<lambda>s. a\<lparr>acc_LastError := s\<rparr>) (decode_string v (acc_LastError a))
      else if name = ''client_version''
      then map_option (\<lambda>s. a\<lparr>acc_ClientVersion := s\<rparr>) (decode_string v (acc_ClientVersion a))
      else map_option (\<lambda>b. a\<lparr>acc_Deleting := b\<rparr>) (decode_bool v (acc_Deleting a)))"

definition zero_Account :: Account where
  "zero_Account = \<lparr>acc_ID = [], acc_Alias = [], acc_Platform = PlatformOther [], acc_Active = False,
     acc_State = StateOther [], acc_Identity = None, acc_CreatedAt = 0, acc_UpdatedAt = 0, acc_LastError = [],
     acc_ClientVersion = [], acc_Deleting = False\<rparr>"

definition decode_account :: "json \<Rightarrow> Account option" where
  "decode_account v = decode_struct account_field account_names v zero_Account"

definition registry_names :: "string list" where "registry_names = [''version'', ''accounts'']"

definition registry_field :: "string \<Rightarrow> json \<Rightarrow> registry \<Rightarrow> registry option" where
  "registry_field name v r =
     (if name = ''version'' then map_option (\<lambda>i. r\<lparr>reg_Version := i\<rparr>) (decode_int v (reg_Version r))
      else case v of
          JNull \<Rightarrow> Some (r\<lparr>reg_Accounts := []\<rparr>)
        | JList vs \<Rightarrow> map_option (\<lambda>accounts. r\<lparr>reg_Accounts := accounts\<rparr>) (those (map decode_account vs))
        | _ \<Rightarrow> None)"

text \<open>\<^verbatim>\<open>Open\<close> decodes into a registry whose version is already 1.\<close>

definition decode_registry :: "json \<Rightarrow> registry option" where
  "decode_registry v = decode_struct registry_field registry_names v \<lparr>reg_Version = 1, reg_Accounts = []\<rparr>"

section \<open>What survives\<close>

definition kept_identity :: "Identity \<Rightarrow> Identity" where
  "kept_identity i = \<lparr>idn_PlatformID = json_text (idn_PlatformID i), idn_DisplayName = json_text (idn_DisplayName i),
     idn_AvatarURL = json_text (idn_AvatarURL i)\<rparr>"

definition kept_account :: "Account \<Rightarrow> Account" where
  "kept_account a = a\<lparr>acc_ID := json_text (acc_ID a), acc_Alias := json_text (acc_Alias a),
     acc_Platform := platform_of (json_text (platform_string (acc_Platform a))),
     acc_State := state_of (json_text (state_string (acc_State a))),
     acc_Identity := map_option kept_identity (acc_Identity a), acc_LastError := json_text (acc_LastError a),
     acc_ClientVersion := json_text (acc_ClientVersion a)\<rparr>"

definition kept_registry :: "registry \<Rightarrow> registry" where
  "kept_registry r = r\<lparr>reg_Accounts := map kept_account (reg_Accounts r)\<rparr>"

lemma platform_of_string [simp]: "platform_string (platform_of s) = s"
  by (simp add: platform_of_def)

lemma state_of_string [simp]: "state_string (state_of s) = s"
  by (simp add: state_of_def state_string_def)

lemma find_field_exact: "key \<in> set names \<Longrightarrow> find_field names key = Some key"
  by (simp add: find_field_def)

lemma decode_text [simp]: "decode_string (text_json s) old = Some (json_text s)"
  by (simp add: decode_string_def text_json_def)

lemma decode_identity:
  "decode_struct identity_field identity_names (encode_identity i) zero_Identity = Some (kept_identity i)"
  by (simp add: decode_struct_def encode_identity_def text_member_def find_field_exact identity_names_def
      identity_field_def zero_Identity_def kept_identity_def)

lemma decode_encode_account: "decode_account (encode_account a) = Some (kept_account a)"
proof -
  have i: "encode_identity i \<noteq> JNull" for i by (simp add: encode_identity_def)
  let ?head = "[(''id'', text_json (acc_ID a)), (''alias'', text_json (acc_Alias a)),
       (''platform'', text_json (platform_string (acc_Platform a))), (''active'', JBool (acc_Active a)),
       (''state'', text_json (state_string (acc_State a)))]"
  let ?a1 = "zero_Account\<lparr>acc_ID := json_text (acc_ID a), acc_Alias := json_text (acc_Alias a),
     acc_Platform := platform_of (json_text (platform_string (acc_Platform a))), acc_Active := acc_Active a,
     acc_State := state_of (json_text (state_string (acc_State a)))\<rparr>"
  have 1: "set_fields account_field account_names ?head zero_Account = Some ?a1"
    by (simp add: find_field_exact account_names_def account_field_def decode_bool_def zero_Account_def)
  let ?a2 = "?a1\<lparr>acc_Identity := map_option kept_identity (acc_Identity a)\<rparr>"
  have 2: "set_fields account_field account_names
      (case acc_Identity a of None \<Rightarrow> [] | Some i \<Rightarrow> [(''identity'', encode_identity i)]) ?a1 = Some ?a2"
    by (cases "acc_Identity a")
      (simp_all add: find_field_exact account_names_def account_field_def i decode_identity zero_Account_def)
  let ?a3 = "?a2\<lparr>acc_CreatedAt := acc_CreatedAt a, acc_UpdatedAt := acc_UpdatedAt a\<rparr>"
  have 3: "set_fields account_field account_names
      [(''created_at'', JTime (acc_CreatedAt a)), (''updated_at'', JTime (acc_UpdatedAt a))] ?a2 = Some ?a3"
    by (simp add: find_field_exact account_names_def account_field_def decode_time_def)
  let ?a4' = "?a3\<lparr>acc_LastError := json_text (acc_LastError a)\<rparr>"
  let ?a4 = "?a4'\<lparr>acc_ClientVersion := json_text (acc_ClientVersion a)\<rparr>"
  have 4: "set_fields account_field account_names (text_member ''last_error'' (acc_LastError a)) ?a3 = Some ?a4'"
    by (simp add: text_member_def find_field_exact account_names_def account_field_def zero_Account_def)
  have cv: "set_fields account_field account_names (text_member ''client_version'' (acc_ClientVersion a)) ?a4' = Some ?a4"
    by (simp add: text_member_def find_field_exact account_names_def account_field_def zero_Account_def)
  have 5: "set_fields account_field account_names (if acc_Deleting a then [(''deleting'', JBool True)] else []) ?a4 =
      Some (?a4\<lparr>acc_Deleting := acc_Deleting a\<rparr>)"
    by (simp add: find_field_exact account_names_def account_field_def decode_bool_def zero_Account_def)
  have all: "set_fields account_field account_names
      (?head @ (case acc_Identity a of None \<Rightarrow> [] | Some i \<Rightarrow> [(''identity'', encode_identity i)]) @
       [(''created_at'', JTime (acc_CreatedAt a)), (''updated_at'', JTime (acc_UpdatedAt a))] @
       text_member ''last_error'' (acc_LastError a) @ text_member ''client_version'' (acc_ClientVersion a) @
       (if acc_Deleting a then [(''deleting'', JBool True)] else [])) zero_Account = Some (?a4\<lparr>acc_Deleting := acc_Deleting a\<rparr>)"
    by (simp only: set_fields_append 1 2 3 4 cv 5 Option.bind.simps)
  have "kept_account a = ?a4\<lparr>acc_Deleting := acc_Deleting a\<rparr>" by (simp add: kept_account_def zero_Account_def)
  with all show ?thesis by (simp only: decode_account_def decode_struct_def encode_account_def json.case append_assoc)
qed

lemma those_decode: "those (map decode_account (map encode_account xs)) = Some (map kept_account xs)"
  by (induction xs) (simp_all add: decode_encode_account)

lemma decode_encode_registry:
  assumes "- (2 ^ 63) \<le> reg_Version r" and "reg_Version r < 2 ^ 63"
  shows "decode_registry (encode_registry r) = Some (kept_registry r)"
proof -
  have "registry_field ''accounts'' (JList (map encode_account (reg_Accounts r))) s = Some (s\<lparr>reg_Accounts := map kept_account (reg_Accounts r)\<rparr>)" for s
    unfolding registry_field_def by (simp add: those_decode del: map_map)
  moreover have "registry_field ''version'' (JInt (reg_Version r)) s = Some (s\<lparr>reg_Version := reg_Version r\<rparr>)" for s
    using assms by (simp add: registry_field_def decode_int_def)
  ultimately show ?thesis
    by (simp add: decode_registry_def decode_struct_def encode_registry_def find_field_exact registry_names_def kept_registry_def)
qed

text \<open>A second encoding writes the same.\<close>

lemma encode_kept_identity: "encode_identity (kept_identity i) = encode_identity i"
  by (simp add: encode_identity_def kept_identity_def text_member_def text_json_def)

lemma encode_kept_account: "encode_account (kept_account a) = encode_account a"
  by (cases "acc_Identity a")
    (simp_all add: encode_account_def kept_account_def text_member_def text_json_def encode_kept_identity)

lemma encode_kept_registry [simp]: "encode_registry (kept_registry r) = encode_registry r"
  by (simp add: encode_registry_def kept_registry_def encode_kept_account comp_def)

lemma kept_account_simps [simp]:
  "acc_Active (kept_account a) = acc_Active a" "acc_Deleting (kept_account a) = acc_Deleting a"
  "acc_CreatedAt (kept_account a) = acc_CreatedAt a" "acc_UpdatedAt (kept_account a) = acc_UpdatedAt a"
  by (simp_all add: kept_account_def)

lemma kept_registry_simps [simp]:
  "reg_Version (kept_registry r) = reg_Version r" "reg_Accounts (kept_registry r) = map kept_account (reg_Accounts r)"
  by (simp_all add: kept_registry_def)

text \<open>A text of ASCII characters is kept.\<close>

lemma utf8_scan_ascii: "list_all (\<lambda>c. of_char c < (128 :: nat)) s \<Longrightarrow> utf8_scan [] s"
  by (induction s) (simp_all add: utf8_tail_ascii [THEN iffD2])

lemma json_text_ascii: "list_all (\<lambda>c. of_char c < (128 :: nat)) s \<Longrightarrow> json_text s = s"
  by (intro json_text_valid) (simp add: ValidString_def utf8_scan_ascii)

lemma platform_of_known [simp]: "platform_of (json_text (platform_string PlatformWeChat)) = PlatformWeChat"
  "platform_of (json_text (platform_string PlatformWeCom)) = PlatformWeCom"
  by code_simp+

lemma state_kept_stopped [simp]: "state_of (json_text (state_string StateStopped)) = StateStopped"
  by code_simp

text \<open>An account whose constants are written the way the code writes them and whose texts are valid is kept.\<close>

definition plain_platform :: "platform \<Rightarrow> bool" where
  "plain_platform p \<longleftrightarrow> platform_of (platform_string p) = p \<and> ValidString (platform_string p)"

definition plain_state :: "runtime_state \<Rightarrow> bool" where
  "plain_state st \<longleftrightarrow> state_of (state_string st) = st \<and> ValidString (state_string st)"

definition valid_texts :: "Account \<Rightarrow> bool" where
  "valid_texts a \<longleftrightarrow> ValidString (acc_ID a) \<and> ValidString (acc_Alias a) \<and> plain_platform (acc_Platform a) \<and>
     plain_state (acc_State a) \<and> ValidString (acc_LastError a) \<and> ValidString (acc_ClientVersion a) \<and>
     (case acc_Identity a of None \<Rightarrow> True | Some i \<Rightarrow>
        ValidString (idn_PlatformID i) \<and> ValidString (idn_DisplayName i) \<and> ValidString (idn_AvatarURL i))"

lemma kept_account_valid: "valid_texts a \<Longrightarrow> kept_account a = a"
  by (cases "acc_Identity a")
    (simp_all add: kept_account_def kept_identity_def valid_texts_def plain_platform_def plain_state_def json_text_valid)

end
