(* ===== verification/Account_Store.thy ===== *)
theory Account_Store
  imports Config Account_JSON
begin

text \<open>
  The account registry of \<^verbatim>\<open>internal/account/store.go\<close>: the registry held in memory, its JSON file
  and the account directories. Every operation of the store is one definition on that state; what
  the operating system, the clock and the random generator answer is its first argument. The
  store's mutex makes each operation one step. \<^verbatim>\<open>cloneAccount\<close> and its kin copy pointers and are
  the identity on values.
\<close>

section \<open>State\<close>

text \<open>The registry file's bytes: a JSON value, or a text that is none with the error it gives.\<close>

datatype registry_content = RegistryJSON json | CorruptJSON string

record Store =
  s_paths :: Paths
  s_data :: registry
  s_files :: "registry_content files"
  s_dirs :: "string list"

text \<open>
  The answers of the environment during one operation. \<open>en_lstat\<close> and \<open>en_mkdir\<close> are failures
  other than the ones the directory list implies; a failing \<^verbatim>\<open>os.RemoveAll\<close> reports its error
  and which paths below its root survived.
\<close>

record store_env =
  en_now :: time
  en_write :: write_env
  en_newID :: "nat \<Rightarrow> string"
  en_lstat :: "string \<Rightarrow> go_error option"
  en_mkdir :: "string \<Rightarrow> go_error option"
  en_removeall :: "string \<Rightarrow> (go_error \<times> (string \<Rightarrow> bool)) option"

section \<open>Patterns and identifiers\<close>

definition aliasPattern :: "string \<Rightarrow> bool" where
  "aliasPattern s \<longleftrightarrow>
     (case s of [] \<Rightarrow> False
      | c # cs \<Rightarrow> is_lower c \<and> match_bounded (\<lambda>x. is_lower x \<or> is_digit x \<or> x = CHR ''-'') 0 47 cs)"

definition accountIDPattern :: "char_class list" where
  "accountIDPattern =
     replicate 8 is_hex @ [\<lambda>c. c = CHR ''-''] @ replicate 4 is_hex @ [\<lambda>c. c = CHR ''-''] @
     [\<lambda>c. c = CHR ''4''] @ replicate 3 is_hex @ [\<lambda>c. c = CHR ''-''] @
     [\<lambda>c. c \<in> set ''89ab''] @ replicate 3 is_hex @ [\<lambda>c. c = CHR ''-''] @ replicate 12 is_hex"

definition IsID :: "string \<Rightarrow> bool" where
  "IsID value = match_classes accountIDPattern value"

definition hex_digit :: "nat \<Rightarrow> char" where
  "hex_digit n = (if n < 10 then char_of (48 + n) else char_of (87 + n))"

definition hex_byte :: "8 word \<Rightarrow> string" where
  "hex_byte b = [hex_digit (unat b div 16), hex_digit (unat b mod 16)]"

definition EncodeToString :: "8 word list \<Rightarrow> string" where
  "EncodeToString bs = concat (map hex_byte bs)"

text \<open>The version 4 UUID made from sixteen random bytes.\<close>

definition newID :: "8 word list \<Rightarrow> string" where
  "newID value =
     (let value = value[6 := ((value ! 6) AND 0x0f) OR 0x40];
          value = value[8 := ((value ! 8) AND 0x3f) OR 0x80];
          encoded = EncodeToString value
      in take 8 encoded @ ''-'' @ take 4 (drop 8 encoded) @ ''-'' @ take 4 (drop 12 encoded) @ ''-'' @
         take 4 (drop 16 encoded) @ ''-'' @ drop 20 encoded)"

section \<open>Persistence\<close>

definition saveDataLocked :: "store_env \<Rightarrow> registry \<Rightarrow> Store \<Rightarrow> go_error option \<times> Store" where
  "saveDataLocked env data s =
     (case AtomicWrite (en_write env) (p_Registry (s_paths s)) (RegistryJSON (encode_registry data)) 0x180 (s_files s) of
        (err, files) \<Rightarrow> (err, s\<lparr>s_files := files\<rparr>))"

text \<open>
  The common tail of the mutating operations: write the new registry, and only when that
  succeeded make it the registry in memory.
\<close>

definition commit_registry ::
  "store_env \<Rightarrow> registry \<Rightarrow> 'a \<Rightarrow> Store \<Rightarrow> 'a result \<times> Store"
where
  "commit_registry env data value s =
     (case saveDataLocked env data s of
        (Some e, s') \<Rightarrow> (Inl e, s')
      | (None, s') \<Rightarrow> (Inr value, s'\<lparr>s_data := data\<rparr>))"

definition known_platform :: "platform \<Rightarrow> bool" where
  "known_platform p \<longleftrightarrow> p = PlatformWeChat \<or> p = PlatformWeCom"

definition check_account :: "string list \<Rightarrow> string list \<Rightarrow> Account \<Rightarrow> go_error option" where
  "check_account ids aliases item =
     (if \<not> IsID (acc_ID item)
      then Some (ErrNew (''account registry contains invalid account ID '' @ quoted (acc_ID item)))
      else if \<not> aliasPattern (acc_Alias item)
      then Some (ErrNew (''account registry contains invalid alias '' @ quoted (acc_Alias item)))
      else if \<not> known_platform (acc_Platform item)
      then Some (ErrNew (''account registry contains invalid platform '' @
             quoted (platform_string (acc_Platform item))))
      else if acc_ID item = acc_Alias item
      then Some (ErrNew (''account registry ID '' @ quoted (acc_ID item) @ '' cannot also be an alias''))
      else if acc_ID item \<in> set ids
      then Some (ErrNew (''account registry contains duplicate account ID '' @ quoted (acc_ID item)))
      else if acc_Alias item \<in> set aliases
      then Some (ErrNew (''account registry contains duplicate alias '' @ quoted (acc_Alias item)))
      else if acc_ID item \<in> set aliases
      then Some (ErrNew (''account registry ID '' @ quoted (acc_ID item) @
             '' conflicts with another account alias''))
      else if acc_Alias item \<in> set ids
      then Some (ErrNew (''account registry alias '' @ quoted (acc_Alias item) @
             '' conflicts with another account ID''))
      else None)"

text \<open>The validation loop; it also stops an account whose deletion was interrupted.\<close>

fun check_accounts ::
  "string list \<Rightarrow> string list \<Rightarrow> Account list \<Rightarrow> (Account list \<times> bool) result"
where
  "check_accounts ids aliases [] = Inr ([], False)"
| "check_accounts ids aliases (item # items) =
     (case check_account ids aliases item of
        Some e \<Rightarrow> Inl e
      | None \<Rightarrow>
          let stale = acc_Deleting item \<and> (acc_Active item \<or> acc_State item \<noteq> StateStopped);
              item' = (if stale then item\<lparr>acc_Active := False, acc_State := StateStopped\<rparr> else item)
          in case check_accounts (acc_ID item # ids) (acc_Alias item # aliases) items of
               Inl e \<Rightarrow> Inl e
             | Inr (items', normalized) \<Rightarrow> Inr (item' # items', stale \<or> normalized))"

record open_env =
  oe_ensure :: "go_error option"
  oe_lstat :: "go_error option"
  oe_readfile :: "go_error option"
  oe_store :: store_env

definition load_registry :: "open_env \<Rightarrow> registry \<Rightarrow> Store \<Rightarrow> Store result \<times> Store" where
  "load_registry oe data store =
     (if reg_Version data \<noteq> 1
      then (Inl (ErrNew (''unsupported account registry version '' @ Itoa (reg_Version data))), store)
      else case check_accounts [] [] (reg_Accounts data) of
          Inl e \<Rightarrow> (Inl e, store)
        | Inr (items, normalized) \<Rightarrow>
            let loaded = store\<lparr>s_data := data\<lparr>reg_Accounts := items\<rparr>\<rparr>
            in if normalized
               then (case saveDataLocked (oe_store oe) (s_data loaded) loaded of
                       (Some e, s') \<Rightarrow> (Inl (ErrWrapf ''normalize deleting accounts: '' e []), s')
                     | (None, s') \<Rightarrow> (Inr s', s'))
               else (Inr loaded, loaded))"

text \<open>
  \<^verbatim>\<open>Open\<close> on the disk of \<open>store\<close>: the second component is the state of the disk afterwards, also
  when opening fails.
\<close>

definition Open :: "open_env \<Rightarrow> Store \<Rightarrow> Store result \<times> Store" where
  "Open oe disk =
     (let store = disk\<lparr>s_data := \<lparr>reg_Version = 1, reg_Accounts = []\<rparr>\<rparr>
      in case oe_ensure oe of
          Some e \<Rightarrow> (Inl e, store)
        | None \<Rightarrow>
            (case oe_lstat oe of
               Some e \<Rightarrow> (Inl e, store)
             | None \<Rightarrow>
                 (case s_files store (Named (p_Registry (s_paths store))) of
                    None \<Rightarrow> (Inr store, store)
                  | Some node \<Rightarrow>
                      if fn_kind node \<noteq> RegularFile
                      then (Inl (ErrNew ''account registry must be a regular, non-symlink file''), store)
                      else if fn_perm node AND 0x3f \<noteq> 0
                      then (Inl (ErrNew ''account registry is accessible by other users''), store)
                      else (case oe_readfile oe of
                          Some e \<Rightarrow> if errors_Is e (ErrSentinel OsErrNotExist) then (Inr store, store)
                            else (Inl e, store)
                        | None \<Rightarrow>
                            (case fn_content node of
                               Some (RegistryJSON v) \<Rightarrow>
                                 (case decode_registry v of
                                    None \<Rightarrow> (Inl (ErrWrapf ''decode account registry: ''
                                      (ErrNew ''json: cannot unmarshal'') []), store)
                                  | Some data \<Rightarrow> load_registry oe data store)
                             | Some (CorruptJSON m) \<Rightarrow>
                                 (Inl (ErrWrapf ''decode account registry: '' (ErrNew m) []), store)
                             | None \<Rightarrow>
                                 (Inl (ErrWrapf ''decode account registry: ''
                                    (ErrNew ''unexpected end of JSON input'') []), store))))))"

section \<open>Adding an account\<close>

definition Lstat :: "store_env \<Rightarrow> string \<Rightarrow> Store \<Rightarrow> go_error option" where
  "Lstat env path s =
     (case en_lstat env path of
        Some e \<Rightarrow> Some e
      | None \<Rightarrow> if path \<in> set (s_dirs s) then None else Some (ErrSentinel OsErrNotExist))"

definition Mkdir :: "store_env \<Rightarrow> string \<Rightarrow> Store \<Rightarrow> go_error option \<times> Store" where
  "Mkdir env path s =
     (case en_mkdir env path of
        Some e \<Rightarrow> (Some e, s)
      | None \<Rightarrow> if path \<in> set (s_dirs s) then (Some (ErrNew ''file exists''), s)
          else (None, s\<lparr>s_dirs := path # s_dirs s\<rparr>))"

definition below :: "string \<Rightarrow> string \<Rightarrow> bool" where
  "below base path \<longleftrightarrow> path = base \<or> take (Suc (length base)) path = base @ [slash]"

definition RemoveAll :: "store_env \<Rightarrow> string \<Rightarrow> Store \<Rightarrow> go_error option \<times> Store" where
  "RemoveAll env path s =
     (case en_removeall env path of
        None \<Rightarrow> (None, s\<lparr>s_dirs := filter (\<lambda>d. \<not> below path d) (s_dirs s)\<rparr>)
      | Some (e, survives) \<Rightarrow>
          (Some e, s\<lparr>s_dirs := filter (\<lambda>d. \<not> below path d \<or> survives d) (s_dirs s)\<rparr>))"

definition accountDir :: "Store \<Rightarrow> string \<Rightarrow> string" where
  "accountDir s aid = Join [p_Accounts (s_paths s), aid]"

fun next_id_from :: "store_env \<Rightarrow> string \<Rightarrow> Store \<Rightarrow> nat \<Rightarrow> nat \<Rightarrow> string result" where
  "next_id_from env newAlias s attempt 0 = Inl (ErrNew ''could not allocate a unique account ID'')"
| "next_id_from env newAlias s attempt (Suc remaining) =
     (let aid = en_newID env attempt
      in if \<not> IsID aid \<or> aid = newAlias then next_id_from env newAlias s (Suc attempt) remaining
         else if \<exists>existing \<in> set (reg_Accounts (s_data s)).
                   acc_ID existing = aid \<or> acc_Alias existing = aid
         then next_id_from env newAlias s (Suc attempt) remaining
         else case Lstat env (accountDir s aid) s of
             None \<Rightarrow> next_id_from env newAlias s (Suc attempt) remaining
           | Some e \<Rightarrow> if errors_Is e (ErrSentinel OsErrNotExist) then Inr aid else Inl e)"

definition nextAccountIDLocked :: "store_env \<Rightarrow> string \<Rightarrow> Store \<Rightarrow> string result" where
  "nextAccountIDLocked env newAlias s = next_id_from env newAlias s 0 128"

fun alias_conflict :: "string \<Rightarrow> Account list \<Rightarrow> go_error option" where
  "alias_conflict alias [] = None"
| "alias_conflict alias (existing # rest) =
     (if acc_Alias existing = alias
      then Some (ErrNew (''account alias '' @ quoted alias @ '' already exists''))
      else if acc_ID existing = alias
      then Some (ErrNew (''account alias '' @ quoted alias @ '' conflicts with an existing account ID''))
      else alias_conflict alias rest)"

text \<open>\<^verbatim>\<open>errors.Join(err, os.RemoveAll(accountDir))\<close>, the cleanup of a failed \<^verbatim>\<open>Add\<close>.\<close>

definition abandon_add :: "store_env \<Rightarrow> string \<Rightarrow> go_error \<Rightarrow> Store \<Rightarrow> Account result \<times> Store" where
  "abandon_add env dir e s =
     (case RemoveAll env dir s of
        (cleanup, s') \<Rightarrow> (Inl (the (errors_Join [Some e, cleanup])), s'))"

definition Add :: "store_env \<Rightarrow> string \<Rightarrow> platform \<Rightarrow> Store \<Rightarrow> Account result \<times> Store" where
  "Add env alias platform s =
     (if \<not> aliasPattern alias then (Inl (ErrNew ''alias must match ^[a-z][a-z0-9-]{0,47}$''), s)
      else if \<not> known_platform platform
      then (Inl (ErrNew (''unsupported platform '' @ quoted (platform_string platform))), s)
      else case alias_conflict alias (reg_Accounts (s_data s)) of
          Some e \<Rightarrow> (Inl e, s)
        | None \<Rightarrow>
            (case nextAccountIDLocked env alias s of
               Inl e \<Rightarrow> (Inl e, s)
             | Inr aid \<Rightarrow>
                 let account = \<lparr>acc_ID = aid, acc_Alias = alias, acc_Platform = platform,
                       acc_Active = False, acc_State = StateStopped, acc_Identity = None,
                       acc_CreatedAt = en_now env, acc_UpdatedAt = en_now env,
                       acc_LastError = [], acc_ClientVersion = [], acc_Deleting = False\<rparr>;
                     dir = accountDir s aid
                 in case Mkdir env dir s of
                     (Some e, s1) \<Rightarrow> (Inl e, s1)
                   | (None, s1) \<Rightarrow>
                       (case Mkdir env (Join [dir, ''profile'']) s1 of
                          (Some e, s2) \<Rightarrow> abandon_add env dir e s2
                        | (None, s2) \<Rightarrow>
                            let next = (s_data s)\<lparr>reg_Accounts := reg_Accounts (s_data s) @ [account]\<rparr>
                            in case saveDataLocked env next s2 of
                                (Some e, s3) \<Rightarrow> abandon_add env dir e s3
                              | (None, s3) \<Rightarrow> (Inr account, s3\<lparr>s_data := next\<rparr>))))"

section \<open>Reading\<close>

definition List :: "Store \<Rightarrow> Account list" where
  "List s = sort_key (\<lambda>a. (platform_string (acc_Platform a), acc_Alias a)) (reg_Accounts (s_data s))"

definition resolveLocked :: "string \<Rightarrow> Store \<Rightarrow> Account result" where
  "resolveLocked value s =
     (case List.find (\<lambda>a. acc_ID a = value \<or> acc_Alias a = value) (reg_Accounts (s_data s)) of
        Some a \<Rightarrow> Inr a
      | None \<Rightarrow> Inl (ErrSentinel OsErrNotExist))"

definition Resolve :: "string \<Rightarrow> Store \<Rightarrow> Account result" where
  "Resolve value s = resolveLocked value s"

definition Runtime :: "Account \<Rightarrow> Store \<Rightarrow> AccountRuntime" where
  "Runtime account s =
     \<lparr>ar_AccountID = acc_ID account, ar_Alias = acc_Alias account,
      ar_StateDir = accountDir s (acc_ID account),
      ar_RuntimeDir = Join [p_Runtime (s_paths s), ''accounts'', acc_ID account]\<rparr>"

section \<open>Lifecycle of an account\<close>

definition last_or :: "'a \<Rightarrow> 'a list \<Rightarrow> 'a" where
  "last_or d xs = (if xs = [] then d else last xs)"

definition occupies_slot :: "Account \<Rightarrow> Account \<Rightarrow> bool" where
  "occupies_slot target a \<longleftrightarrow>
     acc_Platform a = acc_Platform target \<and> acc_Active a \<and> acc_ID a \<noteq> acc_ID target"

definition activate_accounts :: "time \<Rightarrow> Account \<Rightarrow> Account list \<Rightarrow> Account list" where
  "activate_accounts now target accounts =
     update_where (\<lambda>a. acc_ID a = acc_ID target)
       (\<lambda>a. a\<lparr>acc_Active := True, acc_State := StateStarting, acc_UpdatedAt := now\<rparr>)
       (update_where (occupies_slot target)
          (\<lambda>a. a\<lparr>acc_Active := False, acc_State := StateStopped, acc_UpdatedAt := now\<rparr>) accounts)"

definition Activate ::
  "store_env \<Rightarrow> string \<Rightarrow> Store \<Rightarrow> (Account \<times> Account option) result \<times> Store"
where
  "Activate env value s =
     (case resolveLocked value s of
        Inl e \<Rightarrow> (Inl e, s)
      | Inr target \<Rightarrow>
          if acc_Deleting target then (Inl (ErrSentinel AccountErrDeleting), s)
          else
            let accounts = reg_Accounts (s_data s);
                previous = filter (occupies_slot target) accounts;
                updated = activate_accounts (en_now env) target accounts;
                result = last_or target (filter (\<lambda>a. acc_ID a = acc_ID target) updated)
            in commit_registry env ((s_data s)\<lparr>reg_Accounts := updated\<rparr>)
                 (result, if previous = [] then None else Some (last previous)) s)"

definition stop_account :: "time \<Rightarrow> Account \<Rightarrow> Account" where
  "stop_account now a = a\<lparr>acc_Active := False, acc_State := StateStopped, acc_UpdatedAt := now\<rparr>"

definition Deactivate :: "store_env \<Rightarrow> string \<Rightarrow> Store \<Rightarrow> Account result \<times> Store" where
  "Deactivate env value s =
     (case resolveLocked value s of
        Inl e \<Rightarrow> (Inl e, s)
      | Inr account \<Rightarrow>
          if acc_Deleting account then (Inl (ErrSentinel AccountErrDeleting), s)
          else
            let updated = update_where (\<lambda>a. acc_ID a = acc_ID account) (stop_account (en_now env))
                  (reg_Accounts (s_data s))
            in commit_registry env ((s_data s)\<lparr>reg_Accounts := updated\<rparr>)
                 (last_or account (filter (\<lambda>a. acc_ID a = acc_ID account) updated)) s)"

text \<open>The loops that return from inside change the first matching element only.\<close>

fun update_first :: "('a \<Rightarrow> bool) \<Rightarrow> ('a \<Rightarrow> 'a) \<Rightarrow> 'a list \<Rightarrow> 'a list" where
  "update_first P f [] = []"
| "update_first P f (x # xs) = (if P x then f x # xs else x # update_first P f xs)"

definition status_account :: "time \<Rightarrow> Status \<Rightarrow> Account \<Rightarrow> Account" where
  "status_account now status a =
     a\<lparr>acc_State := st_State status, acc_Identity := st_Identity status,
       acc_LastError := st_Reason status, acc_ClientVersion := st_ClientVersion status,
       acc_UpdatedAt := now\<rparr>"

definition UpdateStatus :: "store_env \<Rightarrow> string \<Rightarrow> Status \<Rightarrow> Store \<Rightarrow> unit result \<times> Store" where
  "UpdateStatus env aid status s =
     (case List.find (\<lambda>a. acc_ID a = aid) (reg_Accounts (s_data s)) of
        None \<Rightarrow> (Inl (ErrSentinel OsErrNotExist), s)
      | Some a \<Rightarrow>
          if acc_Deleting a then (Inl (ErrSentinel AccountErrDeleting), s)
          else commit_registry env
                 ((s_data s)\<lparr>reg_Accounts := update_first (\<lambda>a. acc_ID a = aid)
                    (status_account (en_now env) status) (reg_Accounts (s_data s))\<rparr>) () s)"

section \<open>Deletion in two phases\<close>

definition deleting_account :: "time \<Rightarrow> Account \<Rightarrow> Account" where
  "deleting_account now a =
     a\<lparr>acc_Deleting := True, acc_Active := False, acc_State := StateStopped,
       acc_LastError := [], acc_UpdatedAt := now\<rparr>"

definition BeginDelete :: "store_env \<Rightarrow> string \<Rightarrow> Store \<Rightarrow> Account result \<times> Store" where
  "BeginDelete env value s =
     (case resolveLocked value s of
        Inl e \<Rightarrow> (Inl e, s)
      | Inr account \<Rightarrow>
          if acc_Active account then (Inl (ErrNew ''deactivate the account before removing it''), s)
          else if acc_Deleting account then (Inr account, s)
          else case List.find (\<lambda>a. acc_ID a = acc_ID account) (reg_Accounts (s_data s)) of
              None \<Rightarrow> (Inl (ErrSentinel OsErrNotExist), s)
            | Some a \<Rightarrow>
                commit_registry env
                  ((s_data s)\<lparr>reg_Accounts := update_first (\<lambda>a. acc_ID a = acc_ID account)
                     (deleting_account (en_now env)) (reg_Accounts (s_data s))\<rparr>)
                  (deleting_account (en_now env) a) s)"

definition RecordDeleteFailure ::
  "store_env \<Rightarrow> string \<Rightarrow> go_error option \<Rightarrow> Store \<Rightarrow> unit result \<times> Store"
where
  "RecordDeleteFailure env aid failure s =
     (case failure of
        None \<Rightarrow> (Inl (ErrNew ''account deletion failure is required''), s)
      | Some e \<Rightarrow>
          (case List.find (\<lambda>a. acc_ID a = aid) (reg_Accounts (s_data s)) of
             None \<Rightarrow> (Inl (ErrSentinel OsErrNotExist), s)
           | Some a \<Rightarrow>
               if \<not> acc_Deleting a then (Inl (ErrSentinel AccountErrNotDeleting), s)
               else commit_registry env
                      ((s_data s)\<lparr>reg_Accounts := update_first (\<lambda>a. acc_ID a = aid)
                         (\<lambda>a. a\<lparr>acc_LastError := Error e, acc_UpdatedAt := en_now env\<rparr>)
                         (reg_Accounts (s_data s))\<rparr>) () s))"

definition deletionTarget :: "string \<Rightarrow> string \<Rightarrow> string result" where
  "deletionTarget base aid =
     (if \<not> IsID aid then Inl (ErrNew (''refusing to delete invalid account ID '' @ quoted aid))
      else
        let base = Clean base; target = Join [base, aid]
        in if Rel base target \<noteq> Some aid
           then Inl (ErrNew ''account deletion target escapes its managed root'')
           else Inr target)"

definition FinalizeDelete :: "store_env \<Rightarrow> string \<Rightarrow> Store \<Rightarrow> Account result \<times> Store" where
  "FinalizeDelete env value s =
     (case resolveLocked value s of
        Inl e \<Rightarrow> (Inl e, s)
      | Inr account \<Rightarrow>
          if \<not> acc_Deleting account then (Inl (ErrSentinel AccountErrNotDeleting), s)
          else case deletionTarget (p_Accounts (s_paths s)) (acc_ID account) of
              Inl e \<Rightarrow> (Inl e, s)
            | Inr stateDir \<Rightarrow>
                (case deletionTarget (Join [p_Runtime (s_paths s), ''accounts'']) (acc_ID account) of
                   Inl e \<Rightarrow> (Inl e, s)
                 | Inr runtimeDir \<Rightarrow>
                     (case RemoveAll env runtimeDir s of
                        (Some e, s1) \<Rightarrow> (Inl (ErrWrapf ''remove account runtime state: '' e []), s1)
                      | (None, s1) \<Rightarrow>
                          (case RemoveAll env stateDir s1 of
                             (Some e, s2) \<Rightarrow>
                               (Inl (ErrWrapf ''remove account persistent state: '' e []), s2)
                           | (None, s2) \<Rightarrow>
                               commit_registry env
                                 ((s_data s)\<lparr>reg_Accounts := filter (\<lambda>a. acc_ID a \<noteq> acc_ID account)
                                    (reg_Accounts (s_data s))\<rparr>) account s2))))"

section \<open>Invariants\<close>

text \<open>
  \<open>registry_ok\<close> is what \<^verbatim>\<open>Open\<close> checks of the file and every operation keeps: identifiers and
  aliases are valid, unique and disjoint, and an account being deleted is stopped. \<open>one_active\<close> is
  the platform-slot discipline: at most one active account per platform. \<open>synced\<close> relates the
  registry in memory to the file: the file holds exactly the JSON of that registry with mode 0600, or the
  registry was never saved and is empty.
\<close>

definition key_of :: "Account \<Rightarrow> string \<times> string \<times> platform" where
  "key_of a = (acc_ID a, acc_Alias a, acc_Platform a)"

definition valid_key :: "string \<times> string \<times> platform \<Rightarrow> bool" where
  "valid_key k \<longleftrightarrow> IsID (fst k) \<and> aliasPattern (fst (snd k)) \<and> known_platform (snd (snd k))"

definition keys_ok :: "(string \<times> string \<times> platform) list \<Rightarrow> bool" where
  "keys_ok ks \<longleftrightarrow> list_all valid_key ks \<and> distinct (map fst ks) \<and> distinct (map (fst \<circ> snd) ks) \<and>
     list_all (\<lambda>k. fst k \<notin> set (map (fst \<circ> snd) ks)) ks"

definition del_ok :: "Account \<Rightarrow> bool" where
  "del_ok a \<longleftrightarrow> (acc_Deleting a \<longrightarrow> \<not> acc_Active a \<and> acc_State a = StateStopped)"

definition registry_ok :: "registry \<Rightarrow> bool" where
  "registry_ok r \<longleftrightarrow> reg_Version r = 1 \<and> keys_ok (map key_of (reg_Accounts r)) \<and>
     list_all del_ok (reg_Accounts r)"

definition one_active :: "registry \<Rightarrow> bool" where
  "one_active r \<longleftrightarrow> distinct (map acc_Platform (filter acc_Active (reg_Accounts r)))"

definition saved_node :: "registry \<Rightarrow> registry_content file_node" where
  "saved_node r = \<lparr>fn_kind = RegularFile, fn_perm = 0x180, fn_content = Some (RegistryJSON (encode_registry r))\<rparr>"

definition synced :: "Store \<Rightarrow> bool" where
  "synced s \<longleftrightarrow>
     (case s_files s (Named (p_Registry (s_paths s))) of
        Some node \<Rightarrow> node = saved_node (s_data s)
      | None \<Rightarrow> s_data s = \<lparr>reg_Version = 1, reg_Accounts = []\<rparr>)"

section \<open>Saving\<close>

lemma saveDataLocked_frame [frame]:
  "saveDataLocked env data s = (err, s') \<Longrightarrow>
     s_paths s' = s_paths s \<and> s_data s' = s_data s \<and> s_dirs s' = s_dirs s"
  by (auto simp: saveDataLocked_def split: prod.splits)

lemma saveDataLocked_error:
  "saveDataLocked env data s = (Some e, s') \<Longrightarrow> s_files s' (Named q) = s_files s (Named q)"
  by (auto simp: saveDataLocked_def dest: AtomicWrite_error split: prod.splits)

lemma saveDataLocked_success:
  "saveDataLocked env data s = (None, s') \<Longrightarrow>
     s_files s' (Named (p_Registry (s_paths s))) = Some (saved_node data)"
  by (auto simp: saveDataLocked_def saved_node_def dest: AtomicWrite_success split: prod.splits)

lemma commit_registry_cases:
  assumes "commit_registry env data v s = (r, s')"
  obtains (failed) e where "r = Inl e" "s_data s' = s_data s" "s_dirs s' = s_dirs s"
      "s_paths s' = s_paths s" "\<And>q. s_files s' (Named q) = s_files s (Named q)"
  | (saved) "r = Inr v" "s_data s' = data" "s_dirs s' = s_dirs s" "s_paths s' = s_paths s"
      "s_files s' (Named (p_Registry (s_paths s))) = Some (saved_node data)"
proof (cases "saveDataLocked env data s")
  case (Pair err s1)
  show thesis
  proof (cases err)
    case None
    with Pair assms have "r = Inr v" "s' = s1\<lparr>s_data := data\<rparr>" by (simp_all add: commit_registry_def)
    with Pair None show thesis
      by (intro saved) (auto dest: saveDataLocked_frame saveDataLocked_success)
  next
    case (Some e)
    with Pair assms have "r = Inl e" "s' = s1" by (simp_all add: commit_registry_def)
    with Pair Some show thesis
      by (intro failed) (auto dest: saveDataLocked_frame saveDataLocked_error)
  qed
qed

lemma commit_registry_synced:
  "commit_registry env data v s = (r, s') \<Longrightarrow> synced s \<Longrightarrow> synced s'"
  by (erule commit_registry_cases) (auto simp: synced_def split: option.splits)

lemma commit_registry_inv:
  assumes "commit_registry env data v s = (r, s')" and "P (s_data s)" and "P data"
  shows "P (s_data s')"
  using assms by (auto elim: commit_registry_cases)

section \<open>Updates that keep the registry well formed\<close>

lemma map_update_first_same: "(\<And>x. g (f x) = g x) \<Longrightarrow> map g (update_first P f xs) = map g xs"
  by (induction xs) auto

lemma list_all_update_first:
  "list_all Q xs \<Longrightarrow> (\<And>x. List.find P xs = Some x \<Longrightarrow> Q (f x)) \<Longrightarrow> list_all Q (update_first P f xs)"
  by (induction xs) auto

lemma resolveLockedD:
  "resolveLocked value s = Inr a \<Longrightarrow>
     a \<in> set (reg_Accounts (s_data s)) \<and> (acc_ID a = value \<or> acc_Alias a = value)"
  by (auto simp: resolveLocked_def dest: find_SomeD split: option.splits)

lemma registry_ok_ids: "registry_ok r \<Longrightarrow> distinct (map acc_ID (reg_Accounts r))"
  by (simp add: registry_ok_def keys_ok_def key_of_def comp_def)

lemma registry_ok_same_id:
  "registry_ok r \<Longrightarrow> a \<in> set (reg_Accounts r) \<Longrightarrow> b \<in> set (reg_Accounts r) \<Longrightarrow>
     acc_ID a = acc_ID b \<Longrightarrow> a = b"
  by (rule distinct_map_inj [OF registry_ok_ids])

lemma registry_ok_cong:
  "registry_ok r \<Longrightarrow> map key_of xs = map key_of (reg_Accounts r) \<Longrightarrow> list_all del_ok xs \<Longrightarrow>
     registry_ok (r\<lparr>reg_Accounts := xs\<rparr>)"
  by (simp add: registry_ok_def)

lemma registry_ok_find_self:
  assumes "registry_ok r" and "a \<in> set (reg_Accounts r)"
  shows "List.find (\<lambda>b. acc_ID b = acc_ID a) (reg_Accounts r) = Some a"
  by (rule distinct_map_find [OF registry_ok_ids [OF assms(1)] assms(2)])

lemma registry_ok_activate:
  assumes "registry_ok r" and "target \<in> set (reg_Accounts r)" and "\<not> acc_Deleting target"
  shows "registry_ok (r\<lparr>reg_Accounts := activate_accounts now target (reg_Accounts r)\<rparr>)"
proof (rule registry_ok_cong [OF assms(1)])
  show "map key_of (activate_accounts now target (reg_Accounts r)) = map key_of (reg_Accounts r)"
    unfolding activate_accounts_def by (simp add: map_update_where_same key_of_def)
  have "\<And>a. a \<in> set (reg_Accounts r) \<Longrightarrow> acc_ID a = acc_ID target \<Longrightarrow> \<not> acc_Deleting a"
    using assms registry_ok_same_id by blast
  with assms(1) show "list_all del_ok (activate_accounts now target (reg_Accounts r))"
    by (auto simp: activate_accounts_def set_update_where list_all_iff del_ok_def registry_ok_def
        occupies_slot_def split: if_splits)
qed

lemma registry_ok_stop:
  assumes "registry_ok r"
  shows "registry_ok (r\<lparr>reg_Accounts := update_where P (stop_account now) (reg_Accounts r)\<rparr>)"
  using assms
  by (intro registry_ok_cong)
     (auto simp: map_update_where_same key_of_def stop_account_def set_update_where list_all_iff
       del_ok_def registry_ok_def)

lemma registry_ok_update_first:
  assumes "registry_ok r" and "\<And>a. key_of (f a) = key_of a"
    and "\<And>a. List.find P (reg_Accounts r) = Some a \<Longrightarrow> del_ok (f a)"
  shows "registry_ok (r\<lparr>reg_Accounts := update_first P f (reg_Accounts r)\<rparr>)"
  using assms
  by (intro registry_ok_cong)
     (auto simp: map_update_first_same registry_ok_def intro: list_all_update_first)

lemma registry_ok_filter:
  "registry_ok r \<Longrightarrow> registry_ok (r\<lparr>reg_Accounts := filter P (reg_Accounts r)\<rparr>)"
  by (auto simp: registry_ok_def keys_ok_def list_all_iff distinct_map_filter comp_def)

lemma registry_ok_append:
  assumes "registry_ok r" and "valid_key (key_of a)" and "del_ok a"
    and "\<forall>b \<in> set (reg_Accounts r).
      acc_ID b \<noteq> acc_ID a \<and> acc_Alias b \<noteq> acc_ID a \<and> acc_Alias b \<noteq> acc_Alias a \<and> acc_ID b \<noteq> acc_Alias a"
    and "acc_ID a \<noteq> acc_Alias a"
  shows "registry_ok (r\<lparr>reg_Accounts := reg_Accounts r @ [a]\<rparr>)"
  using assms by (auto simp: registry_ok_def keys_ok_def list_all_iff key_of_def)

end
