(* ===== verification/Account_Props.thy ===== *)
theory Account_Props
  imports Account_Store
begin

text \<open>
  Correctness of the account registry: identifiers, the invariants kept by every operation and by
  a restart of the daemon, exclusive platform slots, the two-phase deletion and the confinement
  of what a deletion removes.
\<close>

section \<open>Identifiers\<close>

lemma hex_digit_is_hex: "n < 16 \<Longrightarrow> is_hex (hex_digit n)"
proof -
  have "list_all (\<lambda>n. is_hex (hex_digit n)) [0..<16]" by code_simp
  then show "n < 16 \<Longrightarrow> is_hex (hex_digit n)" by (simp add: list_all_iff)
qed

lemma hex_byte_hex: "list_all is_hex (hex_byte b)"
proof -
  have "unat b < 256" using unsigned_less [of b] by simp
  then show ?thesis by (auto simp: hex_byte_def intro!: hex_digit_is_hex)
qed

lemma length_hex_byte [simp]: "length (hex_byte b) = 2"
  by (simp add: hex_byte_def)

lemma EncodeToString_hex: "list_all is_hex (EncodeToString bs)"
  by (induction bs) (simp_all add: EncodeToString_def hex_byte_hex)

lemma length_EncodeToString: "length (EncodeToString bs) = 2 * length bs"
  by (induction bs) (simp_all add: EncodeToString_def)

lemma hex_high_is_hex [simp]: "is_hex (hex_digit (unat (b :: 8 word) div 16))"
  and hex_low_is_hex [simp]: "is_hex (hex_digit (unat (b :: 8 word) mod 16))"
  using hex_byte_hex [of b] by (simp_all add: hex_byte_def)

text \<open>The two bytes that carry the version and the variant are checked value by value.\<close>

lemma byte_exhaust:
  assumes "list_all (\<lambda>n. P (of_nat n :: 8 word)) [0..<256]"
  shows "P b"
proof -
  have "unat b < 256" using unsigned_less [of b, where 'a = nat] by simp
  then have "unat b \<in> set [0..<256]" by simp
  with assms have "P (of_nat (unat b))" unfolding list_all_iff by (rule bspec)
  then show "P b" by simp
qed

lemma version_nibble: "unat ((b AND 0x0f) OR 0x40 :: 8 word) div 16 = 4"
  by (rule byte_exhaust [where P = "\<lambda>b. unat ((b AND 0x0f) OR 0x40) div 16 = 4"]) code_simp

lemma version_digit: "hex_digit (unat ((b AND 0x0f) OR 0x40 :: 8 word) div 16) = CHR ''4''"
proof -
  have "hex_digit 4 = CHR ''4''" by code_simp
  then show ?thesis by (simp only: version_nibble)
qed

lemma variant_nibble: "unat ((b AND 0x3f) OR 0x80 :: 8 word) div 16 \<in> {8, 9, 10, 11}"
  by (rule byte_exhaust [where P = "\<lambda>b. unat ((b AND 0x3f) OR 0x80) div 16 \<in> {8, 9, 10, 11}"])
     code_simp

lemma variant_digit: "hex_digit (unat ((b AND 0x3f) OR 0x80 :: 8 word) div 16) \<in> set ''89ab''"
proof -
  have "\<forall>n \<in> {8, 9, 10, 11}. hex_digit n \<in> set ''89ab''" by code_simp
  with variant_nibble [of b] show ?thesis by blast
qed

lemma EncodeToString_append: "EncodeToString (xs @ ys) = EncodeToString xs @ EncodeToString ys"
  by (simp add: EncodeToString_def)

lemma EncodeToString_two:
  "EncodeToString (a # b # c # d # bs) = EncodeToString [a, b] @ EncodeToString [c, d] @ EncodeToString bs"
  by (simp add: EncodeToString_def)

lemma newID_expanded:
  assumes "length bs = 16"
  shows "newID bs =
    EncodeToString (take 4 bs) @ ''-'' @ EncodeToString (take 2 (drop 4 bs)) @ ''-'' @
    EncodeToString [((bs ! 6) AND 0x0f) OR 0x40, bs ! 7] @ ''-'' @
    EncodeToString [((bs ! 8) AND 0x3f) OR 0x80, bs ! 9] @ ''-'' @ EncodeToString (drop 10 bs)"
proof -
  define v6 where "v6 = ((bs ! 6) AND 0x0f) OR (0x40 :: 8 word)"
  define v8 where "v8 = ((bs ! 8) AND 0x3f) OR (0x80 :: 8 word)"
  have "bs[6 := v6, 8 := v8] = take 4 bs @ take 2 (drop 4 bs) @ [v6, bs ! 7] @ [v8, bs ! 9] @ drop 10 bs"
    using assms
    by (intro nth_equalityI) (auto simp: nth_append nth_list_update nth_Cons' less_Suc_eq numeral_eq_Suc)
  then show ?thesis using assms
    unfolding newID_def Let_def v6_def [symmetric]
    by (simp add: v8_def [symmetric] EncodeToString_append length_EncodeToString EncodeToString_two)
qed

lemma match_classes_Cons: "match_classes (p # ps) (c # s) \<longleftrightarrow> p c \<and> match_classes ps s"
  by (simp add: match_classes_def)

lemma match_classes_Nil: "match_classes [] []"
  by (simp add: match_classes_def)

lemma match_hex_bytes:
  "2 * length bs = n \<Longrightarrow>
     match_classes (replicate n is_hex @ ps) (EncodeToString bs @ t) \<longleftrightarrow> match_classes ps t"
  by (simp add: match_classes_append match_classes_replicate length_EncodeToString EncodeToString_hex)

lemma match_tagged_bytes:
  "match_classes (p # replicate 3 is_hex @ ps) (EncodeToString [a, b] @ t) \<longleftrightarrow>
     p (hex_digit (unat a div 16)) \<and> match_classes ps t"
  by (simp add: EncodeToString_def hex_byte_def match_classes_Cons numeral_3_eq_3)

lemma IsID_grouped:
  assumes "2 * length A = 8" and "2 * length B = 4" and "2 * length C = 12"
    and "hex_digit (unat v6 div 16) = CHR ''4''" and "hex_digit (unat v8 div 16) \<in> set ''89ab''"
  shows "IsID (EncodeToString A @ ''-'' @ EncodeToString B @ ''-'' @ EncodeToString [v6, b7] @ ''-'' @
    EncodeToString [v8, b9] @ ''-'' @ EncodeToString C)"
  using match_hex_bytes [OF assms(3), of "[]" "[]"] assms(4,5)
  unfolding IsID_def accountIDPattern_def append_Cons append_Nil append_Nil2
    match_hex_bytes [OF assms(1)] match_hex_bytes [OF assms(2)] match_classes_Cons match_tagged_bytes
  by (simp only: match_classes_Nil simp_thms)

lemma newID_IsID: "length bs = 16 \<Longrightarrow> IsID (newID bs)"
  by (simp only: newID_expanded, rule IsID_grouped [OF _ _ _ version_digit variant_digit]) simp_all

section \<open>The registry as a state machine\<close>

text \<open>
  One rule per operation of the store, under every answer of the environment, labelled with
  whether the operation returned an error; \<open>Reopened\<close> is a restart of the daemon on the same disk,
  during which nobody removes the registry file between the two calls that examine it.
\<close>

inductive store_op :: "Store \<Rightarrow> bool \<Rightarrow> Store \<Rightarrow> bool" where
  Added: "Add env alias platform s = (r, s') \<Longrightarrow> store_op s (isl r) s'"
| Activated: "Activate env value s = (r, s') \<Longrightarrow> store_op s (isl r) s'"
| Deactivated: "Deactivate env value s = (r, s') \<Longrightarrow> store_op s (isl r) s'"
| StatusUpdated: "UpdateStatus env aid status s = (r, s') \<Longrightarrow> store_op s (isl r) s'"
| DeleteBegun: "BeginDelete env value s = (r, s') \<Longrightarrow> store_op s (isl r) s'"
| DeleteFailed: "RecordDeleteFailure env aid failure s = (r, s') \<Longrightarrow> store_op s (isl r) s'"
| DeleteFinalized: "FinalizeDelete env value s = (r, s') \<Longrightarrow> store_op s (isl r) s'"

inductive store_step :: "Store \<Rightarrow> Store \<Rightarrow> bool" where
  Operation: "store_op s failed s' \<Longrightarrow> store_step s s'"
| Reopened: "Open oe s = (Inr s', s'') \<Longrightarrow>
    \<forall>e. oe_readfile oe = Some e \<longrightarrow> \<not> errors_Is e (ErrSentinel OsErrNotExist) \<Longrightarrow> store_step s s'"

inductive_cases store_opE: "store_op s failed s'"
inductive_cases store_stepE: "store_step s s'"

definition store_inv :: "Store \<Rightarrow> bool" where
  "store_inv s \<longleftrightarrow> registry_ok (s_data s) \<and> one_active (s_data s) \<and> synced s"

definition fresh_store :: "Store \<Rightarrow> bool" where
  "fresh_store s \<longleftrightarrow> s_data s = \<lparr>reg_Version = 1, reg_Accounts = []\<rparr> \<and>
     s_files s (Named (p_Registry (s_paths s))) = None"

section \<open>Every operation keeps the invariant\<close>

lemma match_classes_notin:
  "match_classes ps s \<Longrightarrow> \<forall>p \<in> set ps. \<not> p c \<Longrightarrow> c \<notin> set s"
  unfolding match_classes_def by (induction ps s rule: list_all2_induct) auto

lemma IsID_plain: "IsID aid \<Longrightarrow> plain aid"
proof -
  assume "IsID aid"
  then have m: "match_classes accountIDPattern aid" by (simp add: IsID_def)
  have "length aid = 36" using match_classes_length [OF m] by (simp add: accountIDPattern_def)
  moreover have "\<forall>p \<in> set accountIDPattern. \<not> p slash"
    by (simp add: accountIDPattern_def is_hex_def is_digit_def less_eq_char_def)
  ultimately show "plain aid"
    using match_classes_notin [OF m] by (auto simp: plain_def)
qed

lemma Mkdir_frame [frame]:
  "Mkdir env path s = (r, s') \<Longrightarrow> s_paths s' = s_paths s \<and> s_data s' = s_data s \<and> s_files s' = s_files s"
  by (auto simp: Mkdir_def split: option.splits if_splits)

lemma RemoveAll_frame [frame]:
  "RemoveAll env path s = (r, s') \<Longrightarrow> s_paths s' = s_paths s \<and> s_data s' = s_data s \<and> s_files s' = s_files s"
  by (auto simp: RemoveAll_def split: option.splits)

lemma abandon_add_frame [frame]:
  "abandon_add env dir e s = (r, s') \<Longrightarrow>
     s_paths s' = s_paths s \<and> s_data s' = s_data s \<and> s_files s' = s_files s \<and> isl r"
  by (auto simp: abandon_add_def split: prod.splits dest: RemoveAll_frame)

lemma alias_conflict_None:
  "alias_conflict alias xs = None \<longleftrightarrow> (\<forall>a \<in> set xs. acc_Alias a \<noteq> alias \<and> acc_ID a \<noteq> alias)"
  by (induction xs) auto

lemma next_id_from_fresh:
  "next_id_from env newAlias s k n = Inr aid \<Longrightarrow>
     IsID aid \<and> aid \<noteq> newAlias \<and> Lstat env (accountDir s aid) s \<noteq> None \<and>
     (\<forall>a \<in> set (reg_Accounts (s_data s)). acc_ID a \<noteq> aid \<and> acc_Alias a \<noteq> aid)"
  by (induction n arbitrary: k) (auto simp: Let_def split: if_splits option.splits)

lemma saveDataLocked_failed:
  "saveDataLocked env data s = (Some e, s') \<Longrightarrow> s_paths s' = s_paths s \<and> s_data s' = s_data s \<and>
     s_dirs s' = s_dirs s \<and> (\<forall>q. s_files s' (Named q) = s_files s (Named q))"
  using saveDataLocked_frame saveDataLocked_error by blast

lemma saveDataLocked_saved:
  "saveDataLocked env data s = (None, s') \<Longrightarrow> s_paths s' = s_paths s \<and> s_data s' = s_data s \<and>
     s_dirs s' = s_dirs s \<and> s_files s' (Named (p_Registry (s_paths s))) = Some (saved_node data)"
  using saveDataLocked_frame saveDataLocked_success by blast

text \<open>What a completed \<^verbatim>\<open>Add\<close> did: nothing to the registry, or one account appended and saved.\<close>

definition new_account :: "store_env \<Rightarrow> string \<Rightarrow> string \<Rightarrow> platform \<Rightarrow> Account" where
  "new_account env aid alias platform =
     \<lparr>acc_ID = aid, acc_Alias = alias, acc_Platform = platform, acc_Active = False,
      acc_State = StateStopped, acc_Identity = None, acc_CreatedAt = en_now env,
      acc_UpdatedAt = en_now env, acc_LastError = [], acc_ClientVersion = [], acc_Deleting = False\<rparr>"

lemma Add_cases:
  assumes "Add env alias platform s = (r, s')"
  obtains (failed) "isl r" "s_data s' = s_data s" "s_paths s' = s_paths s"
      "\<And>q. s_files s' (Named q) = s_files s (Named q)"
  | (added) aid where "r = Inr (new_account env aid alias platform)" "s_paths s' = s_paths s"
      "nextAccountIDLocked env alias s = Inr aid"
      "aliasPattern alias" "known_platform platform" "alias_conflict alias (reg_Accounts (s_data s)) = None"
      "s_data s' = (s_data s)\<lparr>reg_Accounts := reg_Accounts (s_data s) @ [new_account env aid alias platform]\<rparr>"
      "s_files s' (Named (p_Registry (s_paths s))) = Some (saved_node (s_data s'))"
proof -
  note [simp] = new_account_def [symmetric]
  note [dest!] = Mkdir_frame abandon_add_frame saveDataLocked_failed saveDataLocked_saved
  show thesis
    using assms unfolding Add_def Let_def
    by (auto split: if_splits option.splits sum.splits prod.splits
        intro: failed added)
qed

text \<open>With unique identifiers, the slot discipline is a statement about pairs of accounts.\<close>

lemma distinct_filter_iff:
  assumes "distinct (map f xs)"
  shows "distinct (map g (filter P xs)) \<longleftrightarrow>
    (\<forall>x \<in> set xs. \<forall>y \<in> set xs. P x \<longrightarrow> P y \<longrightarrow> g x = g y \<longrightarrow> f x = f y)"
  using assms unfolding distinct_map inj_on_def set_filter by (blast intro: distinct_filter)

definition exclusive :: "Account list \<Rightarrow> bool" where
  "exclusive xs \<longleftrightarrow> (\<forall>a \<in> set xs. \<forall>b \<in> set xs. acc_Active a \<longrightarrow> acc_Active b \<longrightarrow>
     acc_Platform a = acc_Platform b \<longrightarrow> acc_ID a = acc_ID b)"

lemma exclusiveD:
  "exclusive xs \<Longrightarrow> a \<in> set xs \<Longrightarrow> b \<in> set xs \<Longrightarrow> acc_Active a \<Longrightarrow> acc_Active b \<Longrightarrow>
     acc_Platform a = acc_Platform b \<Longrightarrow> acc_ID a = acc_ID b"
  unfolding exclusive_def by blast

lemma one_active_exclusive:
  "registry_ok r \<Longrightarrow> one_active r \<longleftrightarrow> exclusive (reg_Accounts r)"
  using distinct_filter_iff [OF registry_ok_ids, of r acc_Platform acc_Active]
  by (simp add: one_active_def exclusive_def)

lemma exclusive_update:
  assumes "exclusive xs"
    and "\<And>y. y \<in> set ys \<Longrightarrow> acc_Active y \<Longrightarrow>
      \<exists>x \<in> set xs. acc_Active x \<and> acc_ID x = acc_ID y \<and> acc_Platform x = acc_Platform y"
  shows "exclusive ys"
  unfolding exclusive_def by (metis assms exclusive_def)

lemma set_update_first: "y \<in> set (update_first P f xs) \<Longrightarrow> y \<in> set xs \<or> (\<exists>x \<in> set xs. P x \<and> y = f x)"
  by (induction xs) (auto split: if_splits)

lemma set_update_first_key:
  "distinct (map k xs) \<Longrightarrow>
     set (update_first (\<lambda>x. k x = v) f xs) = (\<lambda>x. if k x = v then f x else x) ` set xs"
  by (induction xs) (auto simp: image_iff split: if_splits)

lemma exclusive_update_first:
  assumes "exclusive xs"
    and "\<And>x. acc_ID (f x) = acc_ID x \<and> acc_Platform (f x) = acc_Platform x \<and> (acc_Active (f x) \<longrightarrow> acc_Active x)"
  shows "exclusive (update_first P f xs)"
proof (rule exclusive_update [OF assms(1)])
  fix y assume "y \<in> set (update_first P f xs)" "acc_Active y"
  then show "\<exists>x \<in> set xs. acc_Active x \<and> acc_ID x = acc_ID y \<and> acc_Platform x = acc_Platform y"
    using assms(2) set_update_first [of y P f xs] by metis
qed

lemma exclusive_stop: "exclusive xs \<Longrightarrow> exclusive (update_where P (stop_account now) xs)"
  by (erule exclusive_update) (auto simp: set_update_where stop_account_def split: if_splits)

lemma activate_accounts_active:
  assumes "y \<in> set (activate_accounts now target xs)" and "acc_Active y"
    and "\<forall>a \<in> set xs. acc_ID a = acc_ID target \<longrightarrow> acc_Platform a = acc_Platform target"
  shows "(acc_ID y = acc_ID target \<and> acc_Platform y = acc_Platform target) \<or>
    (y \<in> set xs \<and> acc_Platform y \<noteq> acc_Platform target)"
  using assms by (auto simp: activate_accounts_def set_update_where occupies_slot_def split: if_splits)

lemma exclusive_activate:
  assumes "exclusive xs"
    and "\<forall>a \<in> set xs. acc_ID a = acc_ID target \<longrightarrow> acc_Platform a = acc_Platform target"
  shows "exclusive (activate_accounts now target xs)"
  unfolding exclusive_def
  using assms(1) activate_accounts_active [of _ now target xs, OF _ _ assms(2)]
  unfolding exclusive_def by metis

lemma commit_preserves:
  assumes "commit_registry env data v s = (r, s')" and "store_inv s"
    and "registry_ok data" and "exclusive (reg_Accounts data)"
  shows "store_inv s'"
  using assms(2-) commit_registry_synced [OF assms(1)]
    commit_registry_inv [OF assms(1), where P = "\<lambda>d. registry_ok d \<and> one_active d"]
  by (auto simp: store_inv_def one_active_exclusive)

lemma store_inv_cong:
  assumes "store_inv s" and "s_data s' = s_data s" and "s_paths s' = s_paths s"
    and "\<And>q. s_files s' (Named q) = s_files s (Named q)"
  shows "store_inv s'"
  using assms by (auto simp: store_inv_def synced_def split: option.splits)

lemma Add_preserves: "Add env alias platform s = (r, s') \<Longrightarrow> store_inv s \<Longrightarrow> store_inv s'"
proof (erule Add_cases)
  assume "store_inv s" "s_data s' = s_data s" "s_paths s' = s_paths s"
    "\<And>q. s_files s' (Named q) = s_files s (Named q)"
  then show "store_inv s'" by (rule store_inv_cong)
next
  fix aid
  let ?a = "new_account env aid alias platform"
  assume inv: "store_inv s" and fresh: "nextAccountIDLocked env alias s = Inr aid"
    and al: "aliasPattern alias" and plat: "known_platform platform"
    and free: "alias_conflict alias (reg_Accounts (s_data s)) = None"
    and data: "s_data s' = (s_data s)\<lparr>reg_Accounts := reg_Accounts (s_data s) @ [?a]\<rparr>"
    and paths: "s_paths s' = s_paths s"
    and saved: "s_files s' (Named (p_Registry (s_paths s))) = Some (saved_node (s_data s'))"
  note id = next_id_from_fresh [OF fresh [unfolded nextAccountIDLocked_def]]
  have ok: "registry_ok (s_data s')" 
    unfolding data
    using inv id al plat free
    by (intro registry_ok_append)
       (auto simp: store_inv_def new_account_def valid_key_def key_of_def del_ok_def alias_conflict_None)
  moreover have "one_active (s_data s')"
    using inv by (simp add: store_inv_def one_active_def data new_account_def)
  moreover have "synced s'" using saved paths by (simp add: synced_def)
  ultimately show "store_inv s'" by (simp add: store_inv_def)
qed

lemma store_inv_exclusive: "store_inv s \<Longrightarrow> exclusive (reg_Accounts (s_data s))"
  unfolding store_inv_def using one_active_exclusive by blast

lemma store_inv_ok: "store_inv s \<Longrightarrow> registry_ok (s_data s)"
  by (simp add: store_inv_def)

lemmas store_invD = store_inv_ok store_inv_exclusive

lemma Activate_preserves:
  assumes "Activate env value s = (r, s')" and inv: "store_inv s"
  shows "store_inv s'"
proof (cases "resolveLocked value s")
  case (Inl e)
  then show ?thesis using assms by (simp add: Activate_def)
next
  case (Inr target)
  note t = resolveLockedD [OF Inr]
  have same: "\<forall>a \<in> set (reg_Accounts (s_data s)). acc_ID a = acc_ID target \<longrightarrow>
      acc_Platform a = acc_Platform target"
    using registry_ok_same_id [OF store_inv_ok [OF inv]] t by blast
  show ?thesis
  proof (cases "acc_Deleting target")
    case True
    then show ?thesis using assms Inr by (simp add: Activate_def)
  next
    case False
    then show ?thesis using assms(1) Inr t
      by (auto simp: Activate_def Let_def elim!: commit_preserves [OF _ inv] intro!: registry_ok_activate
          exclusive_activate store_inv_ok [OF inv] store_inv_exclusive [OF inv] same)
  qed
qed

lemma Deactivate_preserves:
  "Deactivate env value s = (r, s') \<Longrightarrow> store_inv s \<Longrightarrow> store_inv s'"
  unfolding Deactivate_def Let_def
  by (auto split: sum.splits if_splits
      elim!: commit_preserves intro!: registry_ok_stop exclusive_stop store_invD)

lemma commit_update_first_preserves:
  assumes "commit_registry env ((s_data s)\<lparr>reg_Accounts := update_first P f (reg_Accounts (s_data s))\<rparr>) v s = (r, s')"
    and "store_inv s" and "List.find P (reg_Accounts (s_data s)) = Some a" and "del_ok (f a)"
    and "\<And>x. key_of (f x) = key_of x \<and> (acc_Active (f x) \<longrightarrow> acc_Active x)"
  shows "store_inv s'"
proof (rule commit_preserves [OF assms(1,2)])
  show "registry_ok ((s_data s)\<lparr>reg_Accounts := update_first P f (reg_Accounts (s_data s))\<rparr>)"
    using assms(3-5) by (intro registry_ok_update_first store_inv_ok [OF assms(2)]) auto
  show "exclusive (reg_Accounts ((s_data s)\<lparr>reg_Accounts := update_first P f (reg_Accounts (s_data s))\<rparr>))"
    using assms(5) exclusive_update_first [OF store_inv_exclusive [OF assms(2)], of f P]
    by (simp add: key_of_def)
qed

lemma UpdateStatus_preserves:
  "UpdateStatus env aid status s = (r, s') \<Longrightarrow> store_inv s \<Longrightarrow> store_inv s'"
  unfolding UpdateStatus_def
  by (auto split: option.splits if_splits elim!: commit_update_first_preserves
      simp: status_account_def key_of_def del_ok_def)

lemma BeginDelete_preserves:
  "BeginDelete env value s = (r, s') \<Longrightarrow> store_inv s \<Longrightarrow> store_inv s'"
  unfolding BeginDelete_def
  by (auto split: sum.splits option.splits if_splits elim!: commit_update_first_preserves
      simp: deleting_account_def key_of_def del_ok_def)

lemma store_inv_del_ok:
  "store_inv s \<Longrightarrow> List.find P (reg_Accounts (s_data s)) = Some a \<Longrightarrow> del_ok a"
  by (auto simp: store_inv_def registry_ok_def list_all_iff dest!: find_SomeD)

lemma RecordDeleteFailure_preserves:
  assumes "RecordDeleteFailure env aid failure s = (r, s')" and inv: "store_inv s"
  shows "store_inv s'"
proof -
  have "del_ok (a\<lparr>acc_LastError := m, acc_UpdatedAt := t\<rparr>) = del_ok a" for a m t
    by (simp add: del_ok_def)
  then show ?thesis
    using assms unfolding RecordDeleteFailure_def
    by (auto split: option.splits if_splits simp: key_of_def dest: store_inv_del_ok [OF inv]
        elim!: commit_update_first_preserves)
qed

lemma exclusive_filter: "exclusive xs \<Longrightarrow> exclusive (filter P xs)"
  by (auto simp: exclusive_def)

text \<open>
  \<open>FinalizeDelete_cases\<close> follows the deletion: refused before anything was touched, interrupted
  with some directories gone and the registry unchanged, or committed after both trees are gone.
\<close>

lemma FinalizeDelete_cases:
  assumes "FinalizeDelete env value s = (r, s')"
  obtains (refused) e where "r = Inl e" "s' = s"
  | (interrupted) e account stateDir runtimeDir where "r = Inl e" "resolveLocked value s = Inr account" "acc_Deleting account"
      "s_data s' = s_data s" "s_paths s' = s_paths s" "\<And>q. s_files s' (Named q) = s_files s (Named q)"
      "deletionTarget (p_Accounts (s_paths s)) (acc_ID account) = Inr stateDir"
      "deletionTarget (Join [p_Runtime (s_paths s), ''accounts'']) (acc_ID account) = Inr runtimeDir"
      "\<And>d. d \<in> set (s_dirs s) \<Longrightarrow> \<not> below stateDir d \<Longrightarrow> \<not> below runtimeDir d \<Longrightarrow> d \<in> set (s_dirs s')"
  | (finalized) account stateDir runtimeDir where "r = Inr account" "resolveLocked value s = Inr account"
      "acc_Deleting account"
      "deletionTarget (p_Accounts (s_paths s)) (acc_ID account) = Inr stateDir"
      "deletionTarget (Join [p_Runtime (s_paths s), ''accounts'']) (acc_ID account) = Inr runtimeDir"
      "s_data s' = (s_data s)\<lparr>reg_Accounts := filter (\<lambda>a. acc_ID a \<noteq> acc_ID account) (reg_Accounts (s_data s))\<rparr>"
      "s_files s' (Named (p_Registry (s_paths s))) = Some (saved_node (s_data s'))" "s_paths s' = s_paths s"
      "set (s_dirs s') = {d \<in> set (s_dirs s). \<not> below stateDir d \<and> \<not> below runtimeDir d}"
proof (cases "resolveLocked value s")
  case (Inl e)
  then show thesis using assms by (intro refused [of e]) (auto simp: FinalizeDelete_def)
next
  case account: (Inr account)
  show thesis
  proof (cases "acc_Deleting account")
    case False
    then show thesis using assms account
      by (intro refused [of "ErrSentinel AccountErrNotDeleting"]) (auto simp: FinalizeDelete_def)
  next
    case deleting: True
    note head = account deleting
    show thesis
    proof (cases "deletionTarget (p_Accounts (s_paths s)) (acc_ID account)")
      case (Inl e)
      then show thesis using assms head by (intro refused [of e]) (auto simp: FinalizeDelete_def)
    next
      case state: (Inr stateDir)
      show thesis
      proof (cases "deletionTarget (Join [p_Runtime (s_paths s), ''accounts'']) (acc_ID account)")
        case (Inl e)
        then show thesis using assms head state by (intro refused [of e]) (auto simp: FinalizeDelete_def)
      next
        case runtime: (Inr runtimeDir)
        show thesis
          using assms head state runtime unfolding FinalizeDelete_def
          by (auto split: prod.splits option.splits simp: RemoveAll_def elim!: commit_registry_cases
              intro: interrupted [OF _ head _ _ _ state runtime] finalized [OF _ head state runtime])
      qed
    qed
  qed
qed

lemma FinalizeDelete_preserves:
  "FinalizeDelete env value s = (r, s') \<Longrightarrow> store_inv s \<Longrightarrow> store_inv s'"
proof (erule FinalizeDelete_cases)
  fix account
  let ?data = "(s_data s)\<lparr>reg_Accounts := filter (\<lambda>a. acc_ID a \<noteq> acc_ID account) (reg_Accounts (s_data s))\<rparr>"
  assume inv: "store_inv s" and "s_data s' = ?data" "s_paths s' = s_paths s"
    "s_files s' (Named (p_Registry (s_paths s))) = Some (saved_node (s_data s'))"
  moreover have "registry_ok ?data" by (rule registry_ok_filter [OF store_inv_ok [OF inv]])
  ultimately show "store_inv s'"
    using exclusive_filter [OF store_inv_exclusive [OF inv]]
    by (simp add: store_inv_def synced_def one_active_exclusive)
qed (auto intro: store_inv_cong)

section \<open>Opening a registry\<close>

text \<open>
  What the validation loop accepts: keys that are valid, new and disjoint from the ones already
  seen. \<open>unseen\<close> is its loop invariant.
\<close>

definition unseen :: "string list \<Rightarrow> string list \<Rightarrow> (string \<times> string \<times> platform) list \<Rightarrow> bool" where
  "unseen ids aliases ks \<longleftrightarrow>
     (\<forall>k \<in> set ks. fst k \<notin> set ids \<and> fst k \<notin> set aliases \<and>
        fst (snd k) \<notin> set ids \<and> fst (snd k) \<notin> set aliases)"

lemma keys_ok_Cons:
  "keys_ok (k # ks) \<longleftrightarrow> valid_key k \<and> fst k \<noteq> fst (snd k) \<and> unseen [fst k] [fst (snd k)] ks \<and> keys_ok ks"
  by (auto simp: keys_ok_def list_all_iff unseen_def image_iff comp_def)

lemma unseen_Cons:
  "unseen (i # ids) (a # aliases) ks \<longleftrightarrow> unseen [i] [a] ks \<and> unseen ids aliases ks"
  by (auto simp: unseen_def)

definition normalize :: "Account \<Rightarrow> Account" where
  "normalize a = (if acc_Deleting a \<and> (acc_Active a \<or> acc_State a \<noteq> StateStopped)
     then a\<lparr>acc_Active := False, acc_State := StateStopped\<rparr> else a)"

lemma check_account_None:
  "check_account ids aliases a = None \<longleftrightarrow> valid_key (key_of a) \<and> acc_ID a \<noteq> acc_Alias a \<and>
     unseen ids aliases [key_of a]"
  by (simp add: check_account_def valid_key_def key_of_def unseen_def)

lemma unseen_head: "unseen ids aliases (k # ks) \<longleftrightarrow> unseen ids aliases [k] \<and> unseen ids aliases ks"
  by (auto simp: unseen_def)

lemma check_accounts_iff:
  "check_accounts ids aliases xs = Inr (ys, n) \<longleftrightarrow>
     keys_ok (map key_of xs) \<and> unseen ids aliases (map key_of xs) \<and>
     ys = map normalize xs \<and> n = (\<not> list_all del_ok xs)"
proof (induction xs arbitrary: ids aliases ys n)
  case Nil
  then show ?case by (auto simp: keys_ok_def unseen_def)
next
  case (Cons a xs)
  have k: "fst (key_of a) = acc_ID a" "fst (snd (key_of a)) = acc_Alias a" by (simp_all add: key_of_def)
  show ?case
  proof (cases "check_account ids aliases a")
    case (Some e)
    then have "\<not> (valid_key (key_of a) \<and> acc_ID a \<noteq> acc_Alias a \<and> unseen ids aliases [key_of a])"
      using check_account_None [of ids aliases a] by simp
    then show ?thesis
      using unseen_head [of ids aliases "key_of a" "map key_of xs"]
      by (auto simp: Some keys_ok_Cons k)
  next
    case None
    then have "valid_key (key_of a) \<and> acc_ID a \<noteq> acc_Alias a \<and> unseen ids aliases [key_of a]"
      by (simp add: check_account_None)
    moreover have "check_accounts ids aliases (a # xs) = Inr (ys, n) \<longleftrightarrow>
        (\<exists>ys' n'. check_accounts (acc_ID a # ids) (acc_Alias a # aliases) xs = Inr (ys', n') \<and>
           ys = normalize a # ys' \<and> n = (\<not> del_ok a \<or> n'))"
      by (cases "check_accounts (acc_ID a # ids) (acc_Alias a # aliases) xs")
         (auto simp: None Let_def normalize_def del_ok_def)
    ultimately show ?thesis
      using unseen_head [of ids aliases "key_of a" "map key_of xs"]
        unseen_Cons [of "acc_ID a" ids "acc_Alias a" aliases "map key_of xs"]
      by (auto simp: keys_ok_Cons k Cons.IH)
  qed
qed

lemma map_normalize_id: "list_all del_ok xs \<Longrightarrow> map normalize xs = xs"
  by (induction xs) (auto simp: normalize_def del_ok_def)

lemma normalize_keeps [simp]: "key_of (normalize a) = key_of a" "del_ok (normalize a)"
  by (auto simp: normalize_def key_of_def del_ok_def)

lemma registry_ok_normalized:
  "reg_Version r = 1 \<Longrightarrow> keys_ok (map key_of (reg_Accounts r)) \<Longrightarrow>
     registry_ok (r\<lparr>reg_Accounts := map normalize (reg_Accounts r)\<rparr>)"
  by (simp add: registry_ok_def comp_def list_all_iff)

lemma load_registry_cases:
  assumes "load_registry oe data store = (Inr s, s')"
  obtains "registry_ok (s_data s)" "s' = s" "s_paths s = s_paths store"
    "list_all del_ok (reg_Accounts data) \<Longrightarrow> s = store\<lparr>s_data := data\<rparr>"
    "\<not> list_all del_ok (reg_Accounts data) \<Longrightarrow>
       s_files s (Named (p_Registry (s_paths s))) = Some (saved_node (s_data s))"
proof -
  from assms have version: "reg_Version data = 1" by (simp add: load_registry_def split: if_splits)
  obtain items n where c: "check_accounts [] [] (reg_Accounts data) = Inr (items, n)"
    using assms version by (cases "check_accounts [] [] (reg_Accounts data)") (auto simp: load_registry_def)
  let ?loaded = "store\<lparr>s_data := data\<lparr>reg_Accounts := items\<rparr>\<rparr>"
  from c have k: "keys_ok (map key_of (reg_Accounts data))" "items = map normalize (reg_Accounts data)"
    "n = (\<not> list_all del_ok (reg_Accounts data))" by (simp_all add: check_accounts_iff)
  have ok: "registry_ok (data\<lparr>reg_Accounts := items\<rparr>)"
    using registry_ok_normalized [OF version k(1)] k(2) by simp
  show thesis
  proof (cases n)
    case False
    then have "s = ?loaded \<and> s' = s" using assms version c by (auto simp: load_registry_def Let_def)
    with ok False k show thesis by (intro that) (auto simp: map_normalize_id)
  next
    case True
    then obtain s1 where "saveDataLocked (oe_store oe) (s_data ?loaded) ?loaded = (None, s1)" "s = s1" "s' = s"
      using assms version c
      by (cases "saveDataLocked (oe_store oe) (s_data ?loaded) ?loaded")
         (auto simp: load_registry_def Let_def split: option.splits)
    note saved = this
    have "s_paths s = s_paths store" "s_data s = data\<lparr>reg_Accounts := items\<rparr>"
      "s_files s (Named (p_Registry (s_paths store))) = Some (saved_node (s_data s))"
      using saveDataLocked_saved [OF saved(1)] saved(2) by simp_all
    with ok True k(3) saved(3) show thesis by (intro that) simp_all
  qed
qed

lemma empty_registry_ok: "registry_ok \<lparr>reg_Version = 1, reg_Accounts = []\<rparr>"
  by (simp add: registry_ok_def keys_ok_def)

lemma Open_cases:
  assumes "Open oe disk = (Inr s, s')"
  obtains (empty) "s_data s = \<lparr>reg_Version = 1, reg_Accounts = []\<rparr>" "s' = s"
  | (loaded) data store where "load_registry oe data store = (Inr s, s')" "s_paths store = s_paths disk"
      "s_files store = s_files disk"
      "s_files disk (Named (p_Registry (s_paths disk))) \<noteq> None"
proof (cases "s_files disk (Named (p_Registry (s_paths disk)))")
  case None
  then show thesis using assms by (intro empty) (auto simp: Open_def Let_def split: option.splits)
next
  case (Some node)
  show thesis
  proof (cases "fn_content node")
    case None
    then show thesis using assms Some
      by (intro empty) (auto simp: Open_def Let_def split: option.splits if_splits)
  next
    case content: (Some c)
    show thesis
      using assms Some content
      by (cases c) (auto simp: Open_def Let_def intro: empty loaded split: option.splits if_splits)
  qed
qed

lemma Open_accepts: "Open oe disk = (Inr s, s') \<Longrightarrow> registry_ok (s_data s)"
  by (erule Open_cases) (auto simp: empty_registry_ok elim: load_registry_cases)

text \<open>The identifiers and aliases are ASCII, so that the file keeps them as they are.\<close>

lemma match_classes_all: "match_classes ps s \<Longrightarrow> list_all (\<lambda>p. \<forall>c. p c \<longrightarrow> Q c) ps \<Longrightarrow> list_all Q s"
  unfolding match_classes_def by (induction ps s rule: list_all2_induct) auto

lemma IsID_ascii: "IsID aid \<Longrightarrow> list_all (\<lambda>c. of_char c < (128 :: nat)) aid"
  unfolding IsID_def accountIDPattern_def
  by (erule match_classes_all) (auto simp: list_all_iff is_hex_def is_digit_def less_eq_char_def)

lemma aliasPattern_ascii: "aliasPattern al \<Longrightarrow> list_all (\<lambda>c. of_char c < (128 :: nat)) al"
  by (cases al) (auto simp: aliasPattern_def match_bounded_def list_all_iff is_lower_def is_digit_def less_eq_char_def)

lemma key_of_kept: "valid_key (key_of a) \<Longrightarrow> key_of (kept_account a) = key_of a"
  by (auto simp: key_of_def valid_key_def kept_account_def known_platform_def platform_of_def
      json_text_ascii IsID_ascii aliasPattern_ascii)

lemma key_of_kept_registry:
  assumes "registry_ok r"
  shows "map key_of (map kept_account (reg_Accounts r)) = map key_of (reg_Accounts r)"
proof -
  have "valid_key (key_of a)" if "a \<in> set (reg_Accounts r)" for a
    using assms that by (auto simp: registry_ok_def keys_ok_def list_all_iff)
  then show ?thesis by (simp add: key_of_kept)
qed

lemma del_ok_kept: "del_ok a \<Longrightarrow> del_ok (kept_account a)"
  by (simp add: del_ok_def kept_account_def)

lemma registry_ok_kept:
  assumes "registry_ok r"
  shows "registry_ok (kept_registry r)"
  unfolding kept_registry_def
  using assms by (intro registry_ok_cong [OF assms key_of_kept_registry [OF assms]])
    (auto simp: registry_ok_def list_all_iff del_ok_kept)

lemma filter_active_kept: "filter acc_Active (map kept_account xs) = map kept_account (filter acc_Active xs)"
  by (simp add: filter_map comp_def)

lemma one_active_kept:
  assumes "registry_ok r" and "one_active r"
  shows "one_active (kept_registry r)"
proof -
  have p: "acc_Platform (kept_account a) = acc_Platform a" if "a \<in> set (reg_Accounts r)" for a
  proof -
    have "valid_key (key_of a)" using assms(1) that by (auto simp: registry_ok_def keys_ok_def list_all_iff)
    from key_of_kept [OF this] show ?thesis by (simp add: key_of_def)
  qed
  have "map acc_Platform (map kept_account (filter acc_Active (reg_Accounts r))) =
      map acc_Platform (filter acc_Active (reg_Accounts r))"
    by (simp add: p)
  then show ?thesis using assms(2) by (simp only: one_active_def kept_registry_simps filter_active_kept)
qed

text \<open>A store that nobody saved yet, or whose file is the JSON of its registry, as a restart finds it.\<close>

definition kept_store :: "Store \<Rightarrow> Store" where
  "kept_store s = s\<lparr>s_data := kept_registry (s_data s)\<rparr>"

lemma kept_store_inv: "store_inv s \<Longrightarrow> store_inv (kept_store s)"
  by (auto simp: store_inv_def kept_store_def registry_ok_kept one_active_kept synced_def saved_node_def
      split: option.splits)

lemma kept_account_key:
  assumes "registry_ok r" and "a \<in> set (reg_Accounts r)"
  shows "kept_account a = a\<lparr>acc_State := state_of (json_text (state_string (acc_State a))),
      acc_Identity := map_option kept_identity (acc_Identity a), acc_LastError := json_text (acc_LastError a),
      acc_ClientVersion := json_text (acc_ClientVersion a)\<rparr>"
proof -
  have "valid_key (key_of a)" using assms by (auto simp: registry_ok_def keys_ok_def list_all_iff)
  from key_of_kept [OF this]
  have k: "acc_ID (kept_account a) = acc_ID a" "acc_Alias (kept_account a) = acc_Alias a"
      "acc_Platform (kept_account a) = acc_Platform a" by (simp_all add: key_of_def)
  show ?thesis by (rule Account.equality) (simp_all add: k, simp_all add: kept_account_def)
qed

lemma kept_store_idem [simp]: "kept_store (kept_store s) = kept_store s"
proof -
  have "kept_identity (kept_identity i) = kept_identity i" for i by (simp add: kept_identity_def)
  then have "kept_account (kept_account a) = kept_account a" for a
    by (cases "acc_Identity a") (simp_all add: kept_account_def)
  then show ?thesis by (simp add: kept_store_def kept_registry_def comp_def)
qed

lemma kept_store_valid: "list_all valid_texts (reg_Accounts (s_data s)) \<Longrightarrow> kept_store s = s"
proof -
  assume "list_all valid_texts (reg_Accounts (s_data s))"
  then have "map kept_account (reg_Accounts (s_data s)) = reg_Accounts (s_data s)"
    by (intro map_idI) (simp add: list_all_iff kept_account_valid)
  then show ?thesis by (simp add: kept_store_def kept_registry_def)
qed

lemma load_registry_self:
  assumes "registry_ok r"
  shows "load_registry oe r s0 = (Inr (s0\<lparr>s_data := r\<rparr>), s0\<lparr>s_data := r\<rparr>)"
proof -
  have "check_accounts [] [] (reg_Accounts r) = Inr (reg_Accounts r, False)"
    using assms by (simp add: check_accounts_iff registry_ok_def unseen_def map_normalize_id)
  then show ?thesis
    using assms by (simp add: load_registry_def registry_ok_def Let_def)
qed

lemma Open_restores:
  assumes "store_inv s" and "oe_ensure oe = None" and "oe_lstat oe = None" and "oe_readfile oe = None"
  shows "Open oe s = (Inr (kept_store s), kept_store s)"
proof (cases "s_files s (Named (p_Registry (s_paths s)))")
  case None
  then have "s_data s = \<lparr>reg_Version = 1, reg_Accounts = []\<rparr>"
    using assms(1) by (simp add: store_inv_def synced_def)
  with None assms show ?thesis by (simp add: Open_def Let_def kept_store_def kept_registry_def)
next
  case (Some node)
  then have "node = saved_node (s_data s)" using assms(1) by (simp add: store_inv_def synced_def)
  moreover have "reg_Version (s_data s) = 1" using assms(1) by (simp add: store_inv_def registry_ok_def)
  ultimately show ?thesis using Some assms registry_ok_kept [OF store_inv_ok [OF assms(1)]]
    by (simp add: Open_def Let_def saved_node_def decode_encode_registry load_registry_self kept_store_def)
qed

lemma Open_unchanged:
  assumes "Open oe s = (Inr s', s'')" and "store_inv s"
    and "\<forall>e. oe_readfile oe = Some e \<longrightarrow> \<not> errors_Is e (ErrSentinel OsErrNotExist)"
  shows "s' = kept_store s"
proof -
  have "oe_ensure oe = None" "oe_lstat oe = None"
    using assms(1) by (auto simp: Open_def Let_def split: option.splits)
  moreover have "oe_readfile oe = None \<or> s_files s (Named (p_Registry (s_paths s))) = None"
    using assms(1,3) by (auto simp: Open_def Let_def split: option.splits if_splits)
  ultimately show ?thesis
  proof (elim disjE)
    assume "oe_readfile oe = None"
    with \<open>oe_ensure oe = None\<close> \<open>oe_lstat oe = None\<close> show ?thesis
      using Open_restores [OF assms(2)] assms(1) by auto
  next
    assume "s_files s (Named (p_Registry (s_paths s))) = None"
    with \<open>oe_ensure oe = None\<close> \<open>oe_lstat oe = None\<close> show ?thesis
      using assms(1,2) by (auto simp: Open_def Let_def store_inv_def synced_def kept_store_def kept_registry_def)
  qed
qed

lemma store_op_preserves: "store_op s failed s' \<Longrightarrow> store_inv s \<Longrightarrow> store_inv s'"
  by (erule store_opE)
     (auto intro: Add_preserves Activate_preserves Deactivate_preserves UpdateStatus_preserves
       BeginDelete_preserves RecordDeleteFailure_preserves FinalizeDelete_preserves)

lemma store_step_preserves: "store_inv s \<Longrightarrow> store_step s s' \<Longrightarrow> store_inv s'"
  by (erule store_stepE) (auto intro: store_op_preserves kept_store_inv dest: Open_unchanged)

lemma fresh_store_inv: "fresh_store s \<Longrightarrow> store_inv s"
  by (simp add: fresh_store_def store_inv_def empty_registry_ok one_active_def synced_def)

interpretation account_store: invariant_system fresh_store store_step store_inv
  by unfold_locales (auto intro: fresh_store_inv store_step_preserves)

section \<open>Failed operations\<close>

lemma commit_failed:
  "commit_registry env data v s = (Inl e, s') \<Longrightarrow>
     s_data s' = s_data s \<and> (\<forall>q. s_files s' (Named q) = s_files s (Named q))"
  by (erule commit_registry_cases) auto

lemma store_op_failed:
  "store_op s True s' \<Longrightarrow> s_data s' = s_data s \<and> (\<forall>q. s_files s' (Named q) = s_files s (Named q))"
proof (erule store_opE)
  fix env al platform and r :: "Account result"
  assume "True = isl r" "Add env al platform s = (r, s')"
  then show ?thesis by (auto elim: Add_cases)
next
  fix env val and r :: "Account result"
  assume "True = isl r" "FinalizeDelete env val s = (r, s')"
  then show ?thesis by (auto elim!: FinalizeDelete_cases)
qed (auto simp: Activate_def Deactivate_def UpdateStatus_def BeginDelete_def RecordDeleteFailure_def
      Let_def isl_def dest: commit_failed split: sum.splits if_splits option.splits)

section \<open>An account marked for deletion\<close>

definition marked :: "string \<Rightarrow> Account list \<Rightarrow> bool" where
  "marked aid xs \<longleftrightarrow> (\<exists>b \<in> set xs. acc_ID b = aid \<and> acc_Deleting b)"

lemma marked_update_first:
  assumes "\<And>x. acc_ID (f x) = acc_ID x \<and> (acc_Deleting x \<longrightarrow> acc_Deleting (f x))"
  shows "marked aid xs \<Longrightarrow> marked aid (update_first P f xs)"
  by (induction xs) (auto simp: marked_def assms)

lemma marked_update_where:
  assumes "\<And>x. acc_ID (f x) = acc_ID x \<and> (acc_Deleting x \<longrightarrow> acc_Deleting (f x))"
  shows "marked aid xs \<Longrightarrow> marked aid (update_where P f xs)"
  by (induction xs) (auto simp: marked_def assms)

lemma marked_activate: "marked aid xs \<Longrightarrow> marked aid (activate_accounts now target xs)"
  unfolding activate_accounts_def by (intro marked_update_where) simp_all

lemma marked_updates:
  "marked aid xs \<Longrightarrow> marked aid (update_where P (stop_account now) xs)"
  "marked aid xs \<Longrightarrow> marked aid (update_first P (status_account now status) xs)"
  "marked aid xs \<Longrightarrow> marked aid (update_first P (deleting_account now) xs)"
  "marked aid xs \<Longrightarrow> marked aid (update_first P (\<lambda>a. a\<lparr>acc_LastError := m, acc_UpdatedAt := now\<rparr>) xs)"
  by (intro marked_update_where marked_update_first;
      simp add: stop_account_def status_account_def deleting_account_def)+

lemma commit_marked:
  "commit_registry env data v s = (r, s') \<Longrightarrow> marked aid (reg_Accounts (s_data s)) \<Longrightarrow>
     marked aid (reg_Accounts data) \<Longrightarrow> marked aid (reg_Accounts (s_data s'))"
  by (erule commit_registry_inv [where P = "\<lambda>d. marked aid (reg_Accounts d)"])

text \<open>The directory that \<^verbatim>\<open>FinalizeDelete\<close> removes is the one \<^verbatim>\<open>Add\<close> created.\<close>

lemma deletionTarget_Join:
  assumes "IsID aid"
  shows "deletionTarget base aid = Inr (Join [Clean base, aid])"
  using assms Rel_child [OF IsID_plain Clean_nonempty] by (simp add: deletionTarget_def Let_def)

lemma Clean_cong: "clean_parts a = clean_parts b \<Longrightarrow> IsAbs a = IsAbs b \<Longrightarrow> Clean a = Clean b"
  by (simp add: Clean_def)

lemma Join_Clean_child:
  assumes "IsID aid" and "base \<noteq> []"
  shows "Join [Clean base, aid] = Join [base, aid]"
proof -
  note c = Join_child [OF IsID_plain [OF assms(1)]]
  have "clean_parts (Clean base @ slash # aid) = clean_parts (base @ slash # aid)"
    using clean_parts_child [OF IsID_plain [OF assms(1)]] assms(2) by simp
  moreover have "IsAbs (Clean base @ slash # aid) = IsAbs (base @ slash # aid)"
    using IsAbs_append [OF Clean_nonempty] IsAbs_append [OF assms(2)] by simp
  ultimately have "Clean (Clean base @ slash # aid) = Clean (base @ slash # aid)" by (rule Clean_cong)
  then show ?thesis using c(1) [OF Clean_nonempty] c(1) [OF assms(2)] by simp
qed

lemma deletionTargetD:
  assumes "deletionTarget base aid = Inr t"
  shows "IsID aid \<and> t = Join [Clean base, aid]"
proof (cases "IsID aid")
  case True
  then show ?thesis using assms deletionTarget_Join by simp
next
  case False
  then show ?thesis using assms by (simp add: deletionTarget_def)
qed

lemma accountDir_target:
  assumes "deletionTarget (p_Accounts (s_paths s)) aid = Inr t" and "p_Accounts (s_paths s) \<noteq> []"
  shows "t = accountDir s aid"
  using deletionTargetD [OF assms(1)] Join_Clean_child assms(2) by (auto simp: accountDir_def)

lemma marked_kept:
  assumes "store_inv s" and "marked aid (reg_Accounts (s_data s))"
  shows "marked aid (reg_Accounts (s_data (kept_store s)))"
  using assms(2) kept_account_key [OF store_inv_ok [OF assms(1)]] by (force simp: marked_def kept_store_def)

lemma store_op_marked:
  assumes "store_op s failed s'" and "store_inv s" and "marked aid (reg_Accounts (s_data s))"
    and "p_Accounts (s_paths s) \<noteq> []"
  shows "marked aid (reg_Accounts (s_data s')) \<or>
    ((\<forall>b \<in> set (reg_Accounts (s_data s')). acc_ID b \<noteq> aid) \<and>
     (\<forall>d \<in> set (s_dirs s'). \<not> below (accountDir s aid) d))"
  using assms(1)
proof (cases rule: store_op.cases)
  case (Added env al platform r)
  then show ?thesis using assms(3) by (auto elim!: Add_cases simp: marked_def)
next
  case (DeleteFinalized env val r)
  from DeleteFinalized(2) show ?thesis
  proof (cases rule: FinalizeDelete_cases)
    case (finalized account stateDir runtimeDir)
    then show ?thesis
      using assms(3) accountDir_target [OF _ assms(4)]
      by (cases "acc_ID account = aid") (auto simp: marked_def)
  qed (use assms(3) in auto)
qed (use assms(3) in \<open>auto simp: Activate_def Deactivate_def UpdateStatus_def BeginDelete_def
      RecordDeleteFailure_def Let_def split: sum.splits if_splits option.splits
      dest!: commit_marked [where aid = aid] intro: marked_activate marked_updates\<close>)

section \<open>What an activation changes\<close>

lemma Activate_effect:
  assumes "Activate env value s = (Inr (target, previous), s')" and "store_inv s"
  shows "target \<in> set (reg_Accounts (s_data s')) \<and> acc_Active target \<and>
    (\<forall>b \<in> set (reg_Accounts (s_data s')). acc_Active b \<longrightarrow> acc_Platform b = acc_Platform target \<longrightarrow> b = target) \<and>
    (\<forall>b \<in> set (reg_Accounts (s_data s)). acc_Platform b \<noteq> acc_Platform target \<longrightarrow>
       b \<in> set (reg_Accounts (s_data s')))"
proof -
  obtain t where t: "resolveLocked value s = Inr t" "\<not> acc_Deleting t"
    using assms(1) by (auto simp: Activate_def split: sum.splits if_splits)
  define ups where "ups = activate_accounts (en_now env) t (reg_Accounts (s_data s))"
  have "commit_registry env ((s_data s)\<lparr>reg_Accounts := ups\<rparr>)
      (last_or t (filter (\<lambda>a. acc_ID a = acc_ID t) ups), previous) s = (Inr (target, previous), s')"
    using assms(1) t by (auto simp: Activate_def Let_def ups_def commit_registry_def split: prod.splits option.splits)
  then have data: "reg_Accounts (s_data s') = ups" and
    target: "target = last_or t (filter (\<lambda>a. acc_ID a = acc_ID t) ups)"
    by (auto elim: commit_registry_cases)
  have mem: "t \<in> set (reg_Accounts (s_data s))" using resolveLockedD [OF t(1)] by simp
  have inv': "store_inv s'" by (rule Activate_preserves [OF assms])
  let ?act = "t\<lparr>acc_Active := True, acc_State := StateStarting, acc_UpdatedAt := en_now env\<rparr>"
  have act: "?act \<in> set ups"
    using mem unfolding ups_def activate_accounts_def set_update_where
    by (force simp: occupies_slot_def image_iff)
  have same: "b = ?act" if "b \<in> set ups" "acc_ID b = acc_ID t" for b
    using registry_ok_same_id [OF store_inv_ok [OF inv'], unfolded data, OF that(1) act] that(2) by simp
  have "target \<in> set (filter (\<lambda>a. acc_ID a = acc_ID t) ups)"
    using target act last_in_set [of "filter (\<lambda>a. acc_ID a = acc_ID t) ups"]
    by (auto simp: last_or_def filter_empty_conv split: if_splits)
  then have t_act: "target = ?act" using same by auto
  have others: "b \<in> set ups" if "b \<in> set (reg_Accounts (s_data s))" "acc_Platform b \<noteq> acc_Platform t" for b
  proof -
    have "acc_ID b \<noteq> acc_ID t"
      using registry_ok_same_id [OF store_inv_ok [OF assms(2)] that(1) mem] that(2) by auto
    then show ?thesis using that unfolding ups_def activate_accounts_def set_update_where
      by (force simp: occupies_slot_def image_iff)
  qed
  have only: "b = target" if "b \<in> set ups" "acc_Active b" "acc_Platform b = acc_Platform t" for b
    unfolding t_act
  proof (rule same [OF that(1)])
    have "exclusive ups" using store_inv_exclusive [OF inv'] by (simp add: data)
    from exclusiveD [OF this that(1) act that(2)] that(3) show "acc_ID b = acc_ID t" by simp
  qed
  have p: "acc_Platform target = acc_Platform t" and "target \<in> set ups" "acc_Active target"
    using act t_act by simp_all
  then show ?thesis unfolding data p using others only by blast
qed

section \<open>A concrete store\<close>

text \<open>A store with one stopped account, on which the properties below are exercised.\<close>

definition demo_env :: store_env where
  "demo_env = \<lparr>en_now = 1, en_write = write_ok, en_newID = (\<lambda>_. ''00000000-0000-4000-8000-000000000000''),
     en_lstat = (\<lambda>_. None), en_mkdir = (\<lambda>_. None), en_removeall = (\<lambda>_. None)\<rparr>"

definition demo_paths :: Paths where
  "demo_paths = \<lparr>p_Home = ''/h'', p_Accounts = ''/h/accounts'', p_Downloads = ''/h/downloads'', p_Runtime = ''/r'',
     p_Socket = ''/r/s.sock'', p_Registry = ''/h/accounts.json''\<rparr>"

definition empty_store :: Store where
  "empty_store = \<lparr>s_paths = demo_paths, s_data = \<lparr>reg_Version = 1, reg_Accounts = []\<rparr>,
     s_files = (\<lambda>_. None), s_dirs = []\<rparr>"

definition demo_store :: Store where
  "demo_store = snd (Add demo_env ''alice'' PlatformWeChat empty_store)"

definition deleting_store :: Store where
  "deleting_store = snd (BeginDelete demo_env ''alice'' demo_store)"

definition demo_open :: open_env where
  "demo_open = \<lparr>oe_ensure = None, oe_lstat = None, oe_readfile = None, oe_store = demo_env\<rparr>"

lemma fresh_empty_store: "fresh_store empty_store"
  by (simp add: fresh_store_def empty_store_def)

lemma empty_to_demo: "store_step empty_store demo_store"
  unfolding demo_store_def by (rule Operation, rule Added) (rule prod.collapse [symmetric])

lemma demo_to_deleting: "store_step demo_store deleting_store"
  unfolding deleting_store_def by (rule Operation, rule DeleteBegun) (rule prod.collapse [symmetric])

lemma demo_store_inv: "store_inv demo_store"
  by (rule store_step_preserves [OF fresh_store_inv [OF fresh_empty_store] empty_to_demo])

lemma deleting_store_inv: "store_inv deleting_store"
  by (rule store_step_preserves [OF demo_store_inv demo_to_deleting])

lemma deleting_store_marked:
  "reg_Accounts (s_data deleting_store) \<noteq> [] \<and> acc_Deleting (hd (reg_Accounts (s_data deleting_store)))"
  by code_simp

section \<open>Properties\<close>

text \<open>Whatever sixteen bytes the random generator delivers, the identifier built from them is
  accepted by \<^verbatim>\<open>IsID\<close>: the version and variant bits are forced to those of a version 4 UUID.\<close>

theorem newID_valid: "length bs = 16 \<Longrightarrow> IsID (newID bs)"
  by (rule newID_IsID)

theorem newID_valid_witness: "IsID (newID (replicate 16 255))"
  by (rule newID_valid) simp

text \<open>C23. From an empty state directory, after any sequence of store operations and daemon restarts,
  with any failures of the operating system, the registry is well formed (unique, valid and disjoint
  identifiers and aliases; accounts under deletion stopped), each platform has at most one active
  account, and the file on disk holds exactly the registry in memory.\<close>

theorem account_store_reachable:
  assumes "fresh_store s0" and "store_step\<^sup>*\<^sup>* s0 s"
  shows "registry_ok (s_data s) \<and> one_active (s_data s) \<and> synced s"
  using account_store.reachable_inv [OF assms] by (simp add: store_inv_def)

theorem account_store_reachable_witness:
  "store_step\<^sup>*\<^sup>* empty_store deleting_store \<and> registry_ok (s_data deleting_store) \<and> synced deleting_store"
proof -
  have run: "store_step\<^sup>*\<^sup>* empty_store deleting_store"
    using empty_to_demo demo_to_deleting by (blast intro: rtranclp_trans)
  then show ?thesis using account_store_reachable [OF fresh_empty_store run] by simp
qed

text \<open>An operation that returns an error has changed neither the registry in memory nor any
  registered file on disk.\<close>

theorem store_failure_atomic:
  assumes "store_op s True s'"
  shows "s_data s' = s_data s \<and> (\<forall>q. s_files s' (Named q) = s_files s (Named q))"
  by (rule store_op_failed [OF assms])

theorem store_failure_atomic_witness:
  "\<exists>s'. store_op demo_store True s' \<and> s_data s' = s_data demo_store"
proof -
  obtain r s' where c: "Deactivate demo_env ''bob'' demo_store = (r, s')" by fastforce
  moreover have "isl (fst (Deactivate demo_env ''bob'' demo_store))" by code_simp
  ultimately have "store_op demo_store True s'" using Deactivated [OF c] by simp
  then show ?thesis using store_failure_atomic by blast
qed

text \<open>C29. Whatever operations and restarts led to a store, \<^verbatim>\<open>Open\<close> decodes from the JSON that
  \<^verbatim>\<open>saveDataLocked\<close> wrote the accounts the previous process held in memory: in the same order, each
  with its identifier, alias, platform, slot, times and deletion mark, the other texts with every invalid
  byte replaced by U+FFFD. When all texts are valid UTF-8 the store is the same, and a second restart
  changes nothing in any case.\<close>

theorem Open_roundtrip:
  assumes "fresh_store s0" and "store_step\<^sup>*\<^sup>* s0 s"
    and "oe_ensure oe = None" and "oe_lstat oe = None" and "oe_readfile oe = None"
  shows "\<exists>s'. Open oe s = (Inr s', s') \<and> s_files s' = s_files s \<and> s_dirs s' = s_dirs s \<and>
    reg_Accounts (s_data s') = map (\<lambda>a. a\<lparr>acc_State := state_of (json_text (state_string (acc_State a))),
      acc_Identity := map_option kept_identity (acc_Identity a), acc_LastError := json_text (acc_LastError a),
      acc_ClientVersion := json_text (acc_ClientVersion a)\<rparr>) (reg_Accounts (s_data s)) \<and>
    (list_all valid_texts (reg_Accounts (s_data s)) \<longrightarrow> s' = s) \<and> Open oe s' = (Inr s', s')"
proof (intro exI conjI impI)
  have inv: "store_inv s" by (rule account_store.reachable_inv [OF assms(1,2)])
  show "Open oe s = (Inr (kept_store s), kept_store s)" by (rule Open_restores [OF inv assms(3-5)])
  show "Open oe (kept_store s) = (Inr (kept_store s), kept_store s)"
    using Open_restores [OF kept_store_inv [OF inv] assms(3-5)] by simp
  show "reg_Accounts (s_data (kept_store s)) = map (\<lambda>a. a\<lparr>acc_State := state_of (json_text (state_string (acc_State a))),
      acc_Identity := map_option kept_identity (acc_Identity a), acc_LastError := json_text (acc_LastError a),
      acc_ClientVersion := json_text (acc_ClientVersion a)\<rparr>) (reg_Accounts (s_data s))"
    using store_inv_ok [OF inv] by (simp add: kept_store_def kept_account_key)
  show "kept_store s = s" if "list_all valid_texts (reg_Accounts (s_data s))"
    using that by (simp add: kept_store_valid)
qed (simp_all add: kept_store_def)

theorem Open_roundtrip_witness: "Open demo_open demo_store = (Inr demo_store, demo_store)"
proof -
  have "list_all valid_texts (reg_Accounts (s_data demo_store))" by code_simp
  then show ?thesis
    using Open_roundtrip [OF fresh_empty_store r_into_rtranclp [of store_step, OF empty_to_demo], of demo_open]
    by (auto simp: demo_open_def)
qed

text \<open>A successful activation makes the account active and leaves no other active account on its
  platform; accounts of other platforms are untouched.\<close>

theorem Activate_exclusive:
  assumes "Activate env value s = (Inr (target, previous), s')" and "store_inv s"
  shows "target \<in> set (reg_Accounts (s_data s')) \<and> acc_Active target \<and>
    (\<forall>b \<in> set (reg_Accounts (s_data s')). acc_Active b \<longrightarrow> acc_Platform b = acc_Platform target \<longrightarrow> b = target) \<and>
    (\<forall>b \<in> set (reg_Accounts (s_data s)). acc_Platform b \<noteq> acc_Platform target \<longrightarrow>
       b \<in> set (reg_Accounts (s_data s')))"
  by (rule Activate_effect [OF assms])

theorem Activate_exclusive_witness:
  "\<exists>target previous s'. Activate demo_env ''alice'' demo_store = (Inr (target, previous), s') \<and>
     acc_Active target \<and> target \<in> set (reg_Accounts (s_data s'))"
proof -
  have "\<not> isl (fst (Activate demo_env ''alice'' demo_store))" by code_simp
  then obtain target previous s' where
    a: "Activate demo_env ''alice'' demo_store = (Inr (target, previous), s')"
    by (metis eq_fst_iff isl_def sum.exhaust surj_pair)
  then show ?thesis using Activate_exclusive [OF a demo_store_inv] by blast
qed

text \<open>C24. Once an account is marked for deletion no step brings it back: it stays marked, inactive
  and stopped, or it has left the registry and no directory is left below its state directory.\<close>

theorem deletion_irrevocable:
  assumes "store_inv s" and "store_step s s'" and "a \<in> set (reg_Accounts (s_data s))"
    and "acc_Deleting a" and "p_Accounts (s_paths s) \<noteq> []"
  shows "(\<exists>b \<in> set (reg_Accounts (s_data s')). acc_ID b = acc_ID a \<and> acc_Deleting b \<and>
      \<not> acc_Active b \<and> acc_State b = StateStopped) \<or>
    ((\<forall>b \<in> set (reg_Accounts (s_data s')). acc_ID b \<noteq> acc_ID a) \<and>
     (\<forall>d \<in> set (s_dirs s'). \<not> below (accountDir s (acc_ID a)) d))"
proof -
  have m: "marked (acc_ID a) (reg_Accounts (s_data s))" using assms(3,4) by (auto simp: marked_def)
  have "registry_ok (s_data s')" by (rule store_inv_ok [OF store_step_preserves [OF assms(1,2)]])
  then have "\<forall>b \<in> set (reg_Accounts (s_data s')). del_ok b" by (simp add: registry_ok_def list_all_iff)
  moreover have "marked (acc_ID a) (reg_Accounts (s_data s')) \<or>
      ((\<forall>b \<in> set (reg_Accounts (s_data s')). acc_ID b \<noteq> acc_ID a) \<and>
       (\<forall>d \<in> set (s_dirs s'). \<not> below (accountDir s (acc_ID a)) d))"
    using assms(2) m
    by (cases rule: store_step.cases) (auto dest: store_op_marked [OF _ assms(1) m assms(5)] Open_unchanged [OF _ assms(1)] intro: marked_kept [OF assms(1) m])
  ultimately show ?thesis by (auto simp: marked_def del_ok_def)
qed

theorem deletion_irrevocable_witness:
  "\<exists>s'. store_step deleting_store s' \<and>
     marked ''00000000-0000-4000-8000-000000000000'' (reg_Accounts (s_data deleting_store)) \<and>
     (marked ''00000000-0000-4000-8000-000000000000'' (reg_Accounts (s_data s')) \<or>
      (\<forall>d \<in> set (s_dirs s'). \<not> below (accountDir deleting_store ''00000000-0000-4000-8000-000000000000'') d))"
proof -
  obtain r s' where c: "FinalizeDelete demo_env ''alice'' deleting_store = (r, s')" by fastforce
  let ?a = "hd (reg_Accounts (s_data deleting_store))"
  have step: "store_step deleting_store s'" by (rule Operation [OF DeleteFinalized [OF c]])
  have a: "?a \<in> set (reg_Accounts (s_data deleting_store))" "acc_Deleting ?a"
    using deleting_store_marked by simp_all
  have i: "acc_ID ?a = ''00000000-0000-4000-8000-000000000000''" by code_simp
  have p: "p_Accounts (s_paths deleting_store) \<noteq> []" by code_simp
  from deletion_irrevocable [OF deleting_store_inv step a p] step a show ?thesis
    unfolding marked_def i by (metis i)
qed

text \<open>A deletion target exists exactly for valid identifiers and is the direct child of the cleaned
  root with that name, in the same absolute or relative space.\<close>

theorem deletionTarget_confined:
  "(deletionTarget base aid = Inr t \<longleftrightarrow> IsID aid \<and> t = Join [Clean base, aid]) \<and>
   (deletionTarget base aid = Inr t \<longrightarrow> clean_parts t = clean_parts base @ [aid] \<and> IsAbs t = IsAbs base)"
proof -
  have "deletionTarget base aid = Inr t \<longleftrightarrow> IsID aid \<and> t = Join [Clean base, aid]"
    using deletionTarget_Join deletionTargetD by blast
  then show ?thesis
    by (auto simp: Join_child(2,3) [OF IsID_plain Clean_nonempty])
qed

theorem deletionTarget_confined_witness:
  "clean_parts (Join [Clean ''/h/../h/accounts'', ''00000000-0000-4000-8000-000000000000'']) =
     [''h'', ''accounts'', ''00000000-0000-4000-8000-000000000000'']"
proof -
  have "IsID ''00000000-0000-4000-8000-000000000000''" by code_simp
  then have "clean_parts (Join [Clean ''/h/../h/accounts'', ''00000000-0000-4000-8000-000000000000'']) =
      clean_parts ''/h/../h/accounts'' @ [''00000000-0000-4000-8000-000000000000'']"
    using deletionTarget_confined by blast
  moreover have "clean_parts ''/h/../h/accounts'' = [''h'', ''accounts'']" by code_simp
  ultimately show ?thesis by simp
qed

text \<open>Finalizing a deletion, whether it succeeds or is interrupted, removes no directory outside the
  two trees that belong to the account, and only an account already marked for deletion.\<close>

theorem FinalizeDelete_confined:
  assumes "FinalizeDelete env value s = (r, s')" and "d \<in> set (s_dirs s)" and "d \<notin> set (s_dirs s')"
  shows "\<exists>account \<in> set (reg_Accounts (s_data s)). acc_Deleting account \<and> IsID (acc_ID account) \<and>
    (below (Join [Clean (p_Accounts (s_paths s)), acc_ID account]) d \<or>
     below (Join [Clean (Join [p_Runtime (s_paths s), ''accounts'']), acc_ID account]) d)"
  using assms(1)
proof (cases rule: FinalizeDelete_cases)
  case (refused e)
  then show ?thesis using assms by simp
next
  case (interrupted e account stateDir runtimeDir)
  then show ?thesis using assms deletionTargetD resolveLockedD by blast
next
  case (finalized account stateDir runtimeDir)
  then show ?thesis using assms deletionTargetD resolveLockedD by blast
qed

theorem FinalizeDelete_confined_witness:
  "\<exists>d \<in> set (s_dirs deleting_store).
     \<exists>account \<in> set (reg_Accounts (s_data deleting_store)). acc_Deleting account \<and> IsID (acc_ID account) \<and>
       (below (Join [Clean (p_Accounts (s_paths deleting_store)), acc_ID account]) d \<or>
        below (Join [Clean (Join [p_Runtime (s_paths deleting_store), ''accounts'']), acc_ID account]) d)"
proof -
  obtain r s' where c: "FinalizeDelete demo_env ''alice'' deleting_store = (r, s')" by fastforce
  have "set (s_dirs deleting_store) \<noteq> {}" by code_simp
  moreover have "s_dirs (snd (FinalizeDelete demo_env ''alice'' deleting_store)) = []" by code_simp
  ultimately obtain d where d: "d \<in> set (s_dirs deleting_store)" "d \<notin> set (s_dirs s')"
    using c by (metis all_not_in_conv empty_set snd_conv)
  show ?thesis using FinalizeDelete_confined [OF c d] d(1) by blast
qed

end
