(* ===== verification/Index_Schema.thy ===== *)
theory Index_Schema
  imports Errors Go_Time
begin

text \<open>
  The per-account message index of \<^verbatim>\<open>internal/index/store.go\<close>: the database, the ownership and
  schema checks of \<^verbatim>\<open>initialize\<close>, and the \<^verbatim>\<open>LIKE\<close> matching its searches use. A statement that
  SQLite refuses is an answer of the environment, \<open>q site\<close>; a statement that succeeds has the
  effect the SQL text says. A transaction that is not committed leaves the database as it was.
  \<^verbatim>\<open>Open\<close>'s pinning of the file descriptor (\<^verbatim>\<open>secure_path.go\<close>) is not modelled.
\<close>

section \<open>The database\<close>

datatype send_state = InFlight | Terminal

record send_row =
  sn_idempotency_key :: string
  sn_transaction_id :: string
  sn_request_hash :: string
  sn_state :: send_state
  sn_result_json :: SendResult
  sn_created_at :: time

text \<open>
  \<open>db_objects\<close> are the type and name columns of \<^verbatim>\<open>sqlite_master\<close>, \<open>db_columns\<close> what
  \<^verbatim>\<open>PRAGMA table_info\<close> lists, \<open>db_fts_sql\<close> the stored text of the FTS table and \<open>db_quick_check\<close> the
  verdict of the integrity check. Times and JSON columns are kept as the value they encode;
  \<open>db_last_sequence\<close> is the \<^verbatim>\<open>AUTOINCREMENT\<close> counter.
\<close>

record index_db =
  db_objects :: "(string \<times> string) list"
  db_columns :: "string \<Rightarrow> string list"
  db_fts_sql :: string
  db_quick_check :: string
  db_metadata :: "(int \<times> int \<times> string) list"
  db_conversations :: "Conversation list"
  db_messages :: "Message list"
  db_last_sequence :: int
  db_fts :: "(string \<times> string \<times> string) list"
  db_send_results :: "send_row list"

datatype sql_site =
    SiteBusyTimeout | SiteMetadataExists | SiteHasSchema | SiteLegacyObjects | SiteTableInfo string
  | SiteTableRows string | SiteFtsSQL | SiteQuickCheck | SiteLegacyRows | SitePragma nat
  | SiteBegin | SiteCreate nat | SiteBind | SiteCommit | SiteAlter string | SiteCountMetadata
  | SiteReadMetadata | SiteInsert nat | SiteRowsAffected nat | SiteUpdateGap nat | SiteGapRows nat
  | SiteSequence nat | SiteFts nat | SiteQuery | SiteScan | SiteFallbackQuery | SiteMarshal | SiteUnmarshal

type_synonym faults = "sql_site \<Rightarrow> go_error option"

section \<open>LIKE patterns\<close>

datatype like_token = LikeLit char | LikeOne | LikeMany | LikeNever

text \<open>
  The reading of a pattern: with an escape character the character after it is literal, and a pattern that
  ends in the escape character matches nothing.
\<close>

fun like_tokens :: "char option \<Rightarrow> string \<Rightarrow> like_token list" where
  "like_tokens esc [] = []"
| "like_tokens esc [c] =
     [if Some c = esc then LikeNever else if c = CHR ''%'' then LikeMany
      else if c = CHR ''_'' then LikeOne else LikeLit c]"
| "like_tokens esc (c # d # cs) =
     (if Some c = esc then LikeLit d # like_tokens esc cs
      else (if c = CHR ''%'' then LikeMany else if c = CHR ''_'' then LikeOne else LikeLit c)
        # like_tokens esc (d # cs))"

definition continuation :: "char \<Rightarrow> bool" where
  "continuation c \<longleftrightarrow> 128 \<le> (of_char c :: nat) \<and> (of_char c :: nat) < 192"

text \<open>
  SQLite's \<^verbatim>\<open>LIKE\<close> folds the case of ASCII letters only; \<^verbatim>\<open>_\<close> matches one UTF-8 character, a byte
  and the continuation bytes after it. The pattern and the text are read up to the first NUL. This is
  \<^verbatim>\<open>patternCompare\<close> on valid UTF-8.
\<close>

function like_matches :: "like_token list \<Rightarrow> string \<Rightarrow> bool" where
  "like_matches [] s = (s = [])"
| "like_matches (LikeNever # ts) s = False"
| "like_matches (LikeLit c # ts) [] = False"
| "like_matches (LikeLit c # ts) (d # s) = (lower_byte c = lower_byte d \<and> like_matches ts s)"
| "like_matches (LikeOne # ts) [] = False"
| "like_matches (LikeOne # ts) (d # s) = like_matches ts (dropWhile continuation s)"
| "like_matches (LikeMany # ts) [] = like_matches ts []"
| "like_matches (LikeMany # ts) (d # s) = (like_matches ts (d # s) \<or> like_matches (LikeMany # ts) s)"
  by pat_completeness auto
termination
  by (relation "measure (\<lambda>(ts, s). length ts + length s)")
     (auto simp: less_Suc_eq_le intro: order_trans [OF length_dropWhile_le])

definition c_string :: "string \<Rightarrow> string" where
  "c_string s = takeWhile (\<lambda>c. c \<noteq> CHR 0x00) s"

definition like :: "char option \<Rightarrow> string \<Rightarrow> string \<Rightarrow> bool" where
  "like esc pattern s = like_matches (like_tokens esc (c_string pattern)) (c_string s)"

fun ReplaceAll :: "char \<Rightarrow> string \<Rightarrow> string \<Rightarrow> string" where
  "ReplaceAll c new [] = []"
| "ReplaceAll c new (d # s) = (if d = c then new @ ReplaceAll c new s else d # ReplaceAll c new s)"

definition backslash :: char where "backslash = CHR 0x5C"

definition escapeLike :: "string \<Rightarrow> string" where
  "escapeLike value =
     (let value = ReplaceAll backslash [backslash, backslash] value;
          value = ReplaceAll (CHR ''%'') [backslash, CHR ''%''] value
      in ReplaceAll (CHR ''_'') [backslash, CHR ''_''] value)"

section \<open>Schema inspection\<close>

definition conversations_columns :: "string list" where
  "conversations_columns =
     [''id'', ''external_id'', ''title'', ''kind'', ''unread_count'', ''last_message_at'', ''complete'',
      ''source'', ''updated_at'']"

definition legacy_messages_columns :: "string list" where
  "legacy_messages_columns =
     [''sequence'', ''id'', ''external_id'', ''conversation_id'', ''sender_id'', ''sender_name'', ''sent_at'',
      ''kind'', ''text'', ''attachments_json'', ''reply_to'', ''surface_ref'', ''source'', ''complete'',
      ''confidence'', ''raw_json'', ''inserted_at'']"

definition messages_columns :: "string list" where
  "messages_columns = legacy_messages_columns @ [''gap_before'']"

definition send_results_columns :: "string list" where
  "send_results_columns =
     [''idempotency_key'', ''transaction_id'', ''request_hash'', ''state'', ''result_json'', ''created_at'']"

definition legacy_send_results_columns :: "string list" where
  "legacy_send_results_columns =
     [''idempotency_key'', ''transaction_id'', ''request_hash'', ''result_json'', ''created_at'']"

definition tableColumns :: "faults \<Rightarrow> string \<Rightarrow> index_db \<Rightarrow> string list result" where
  "tableColumns q table db =
     (if table \<noteq> ''conversations'' \<and> table \<noteq> ''messages'' \<and> table \<noteq> ''send_results''
      then Inl (ErrNew ''unsupported message index table inspection'')
      else case q (SiteTableInfo table) of
          Some e \<Rightarrow> Inl (ErrWrapf (''inspect table '' @ table @ '': '') e [])
        | None \<Rightarrow>
            (case q (SiteTableRows table) of
               Some e \<Rightarrow> Inl e
             | None \<Rightarrow>
                 if db_columns db table = [] then Inl (ErrNew (''table '' @ table @ '' is missing''))
                 else Inr (db_columns db table)))"

definition validateTableColumnsOneOf ::
  "faults \<Rightarrow> string \<Rightarrow> string list list \<Rightarrow> index_db \<Rightarrow> go_error option"
where
  "validateTableColumnsOneOf q table choices db =
     (case tableColumns q table db of
        Inl e \<Rightarrow> Some e
      | Inr actual \<Rightarrow>
          if \<exists>expected \<in> set choices. actual = expected then None
          else Some (ErrNew (''table '' @ table @ '' has unexpected columns'')))"

definition validateTableColumns ::
  "faults \<Rightarrow> string \<Rightarrow> string list \<Rightarrow> index_db \<Rightarrow> go_error option"
where
  "validateTableColumns q table expected db =
     (case tableColumns q table db of
        Inl e \<Rightarrow> Some e
      | Inr actual \<Rightarrow>
          if length actual \<noteq> length expected
          then Some (ErrNew (''table '' @ table @ '' has unexpected columns''))
          else if \<exists>i \<in> set [0..<length expected]. actual ! i \<noteq> expected ! i
          then Some (ErrNew (''table '' @ table @ '' has unexpected columns''))
          else None)"

definition validateInitializedSchema :: "faults \<Rightarrow> index_db \<Rightarrow> go_error option" where
  "validateInitializedSchema q db =
     (case validateTableColumns q ''conversations'' conversations_columns db of
        Some e \<Rightarrow> Some e
      | None \<Rightarrow>
          (case validateTableColumns q ''messages'' messages_columns db of
             Some e \<Rightarrow> Some e
           | None \<Rightarrow> validateTableColumns q ''send_results'' send_results_columns db))"

definition legacy_objects :: "(string \<times> string) list" where
  "legacy_objects =
     [(''conversations'', ''table''), (''conversations_external_id'', ''index''), (''messages'', ''table''),
      (''messages_external_conversation'', ''index''), (''messages_conversation_sequence'', ''index''),
      (''messages_fts'', ''table''), (''messages_fts_data'', ''table''), (''messages_fts_idx'', ''table''),
      (''messages_fts_content'', ''table''), (''messages_fts_docsize'', ''table''),
      (''messages_fts_config'', ''table''), (''send_results'', ''table''),
      (''send_results_transaction'', ''index'')]"

definition application_objects :: "index_db \<Rightarrow> (string \<times> string) list" where
  "application_objects db = filter (\<lambda>(ty, name). \<not> like None ''sqlite_%'' name) (db_objects db)"

fun check_objects :: "string list \<Rightarrow> (string \<times> string) list \<Rightarrow> string list result" where
  "check_objects seen [] = Inr seen"
| "check_objects seen ((objectType, name) # rows) =
     (if map_of legacy_objects name \<noteq> Some objectType \<or> name \<in> set seen
      then Inl (ErrNew (''unexpected schema object '' @ objectType @ '' '' @ name))
      else check_objects (name # seen) rows)"

definition validateLegacyObjectSet :: "faults \<Rightarrow> index_db \<Rightarrow> go_error option" where
  "validateLegacyObjectSet q db =
     (case q SiteLegacyObjects of
        Some e \<Rightarrow> Some e
      | None \<Rightarrow>
          (case check_objects [] (sort (application_objects db)) of
             Inl e \<Rightarrow> Some e
           | Inr seen \<Rightarrow>
               if length seen \<noteq> length legacy_objects
               then Some (ErrNew ''required legacy schema objects are missing'') else None))"

definition is_field_space :: "char \<Rightarrow> bool" where
  "is_field_space c \<longleftrightarrow> c \<in> {CHR 0x20, CHR 0x09, CHR 0x0A, CHR 0x0B, CHR 0x0C, CHR 0x0D}"

text \<open>\<^verbatim>\<open>strings.Join(strings.Fields(s), " ")\<close> on ASCII white space.\<close>

fun squeeze :: "bool \<Rightarrow> string \<Rightarrow> string" where
  "squeeze pending [] = []"
| "squeeze pending (c # s) =
     (if is_field_space c then squeeze pending s
      else (if pending then [CHR 0x20] else []) @
        c # (case s of [] \<Rightarrow> [] | d # _ \<Rightarrow> squeeze (is_field_space d) s))"

definition not_recognized :: string where
  "not_recognized = ''legacy message index is not a recognized wechatcopilot schema: ''"

definition validateLegacySchema :: "faults \<Rightarrow> index_db \<Rightarrow> go_error option" where
  "validateLegacySchema q db =
     (case validateLegacyObjectSet q db of
        Some e \<Rightarrow> Some (ErrWrapf not_recognized e [])
      | None \<Rightarrow>
     (case validateTableColumns q ''conversations'' conversations_columns db of
        Some e \<Rightarrow> Some (ErrWrapf not_recognized e [])
      | None \<Rightarrow>
     (case validateTableColumnsOneOf q ''messages'' [legacy_messages_columns, messages_columns] db of
        Some e \<Rightarrow> Some (ErrWrapf not_recognized e [])
      | None \<Rightarrow>
     (case validateTableColumnsOneOf q ''send_results''
             [send_results_columns, legacy_send_results_columns] db of
        Some e \<Rightarrow> Some (ErrWrapf not_recognized e [])
      | None \<Rightarrow>
     (case q SiteFtsSQL of
        Some e \<Rightarrow> Some (ErrWrapf (not_recognized @ ''messages_fts: '') e [])
      | None \<Rightarrow>
          let ftsSQL = ToLower (squeeze False (db_fts_sql db))
          in if \<not> Contains ftsSQL ''create virtual table'' \<or> \<not> Contains ftsSQL ''using fts5''
             then Some (ErrNew (not_recognized @ ''messages_fts is not an FTS5 virtual table''))
             else case q SiteQuickCheck of
                 Some e \<Rightarrow> Some (ErrWrapf ''check legacy message index integrity: '' e [])
               | None \<Rightarrow>
                   if db_quick_check db \<noteq> ''ok''
                   then Some (ErrNew (''legacy message index failed integrity check: '' @ db_quick_check db))
                   else None)))))"

definition hasApplicationSchema :: "index_db \<Rightarrow> bool" where
  "hasApplicationSchema db \<longleftrightarrow> length (application_objects db) \<noteq> 0"

definition legacyContainsApplicationData :: "index_db \<Rightarrow> bool" where
  "legacyContainsApplicationData db \<longleftrightarrow>
     db_conversations db \<noteq> [] \<or> db_messages db \<noteq> [] \<or> db_fts db \<noteq> [] \<or> db_send_results db \<noteq> []"

definition metadataTableExists :: "index_db \<Rightarrow> bool" where
  "metadataTableExists db \<longleftrightarrow>
     length (filter (\<lambda>r. r = (''table'', ''wechatcopilot_metadata'')) (db_objects db)) = 1"

definition indexSchemaVersion :: int where "indexSchemaVersion = 1"

definition validateMetadata :: "faults \<Rightarrow> string \<Rightarrow> index_db \<Rightarrow> go_error option" where
  "validateMetadata q accountID db =
     (case q SiteCountMetadata of
        Some e \<Rightarrow> Some (ErrWrapf ''read message index ownership metadata: '' e [])
      | None \<Rightarrow>
          if length (db_metadata db) \<noteq> 1
          then Some (ErrNew ''message index ownership metadata is missing or ambiguous'')
          else case q SiteReadMetadata of
              Some e \<Rightarrow> Some (ErrWrapf ''read message index ownership metadata: '' e [])
            | None \<Rightarrow>
                (case List.find (\<lambda>(singleton, _). singleton = 1) (db_metadata db) of
                   None \<Rightarrow>
                     Some (ErrWrapf ''read message index ownership metadata: ''
                             (ErrNew ''sql: no rows in result set'') [])
                 | Some (_, schemaVersion, owner) \<Rightarrow>
                     if schemaVersion \<noteq> indexSchemaVersion
                     then Some (ErrNew (''unsupported message index metadata schema '' @ Itoa schemaVersion))
                     else if owner \<noteq> accountID
                     then Some (ErrNew ''message index belongs to another account'')
                     else None))"

section \<open>Initialization\<close>

definition has_object :: "string \<Rightarrow> index_db \<Rightarrow> bool" where
  "has_object name db \<longleftrightarrow> name \<in> set (map snd (db_objects db))"

definition create_table :: "string \<Rightarrow> string list \<Rightarrow> index_db \<Rightarrow> index_db" where
  "create_table name cols db =
     (if has_object name db then db
      else db\<lparr>db_objects := db_objects db @ [(''table'', name)], db_columns := (db_columns db)(name := cols)\<rparr>)"

definition create_index :: "string \<Rightarrow> index_db \<Rightarrow> index_db" where
  "create_index name db =
     (if has_object name db then db else db\<lparr>db_objects := db_objects db @ [(''index'', name)]\<rparr>)"

definition create_fts :: "index_db \<Rightarrow> index_db" where
  "create_fts db =
     (if has_object ''messages_fts'' db then db
      else db\<lparr>db_objects := db_objects db @ map (\<lambda>n. (''table'', n))
             [''messages_fts'', ''messages_fts_data'', ''messages_fts_idx'', ''messages_fts_content'',
              ''messages_fts_docsize'', ''messages_fts_config''],
           db_fts_sql := ''CREATE VIRTUAL TABLE messages_fts USING fts5(message_id UNINDEXED, text, '' @
             ''sender_name, tokenize='' @ [CHR 0x27] @ ''unicode61'' @ [CHR 0x27] @ '')''\<rparr>)"

definition statements :: "(index_db \<Rightarrow> index_db) list" where
  "statements =
     [create_table ''conversations'' conversations_columns,
      create_index ''conversations_external_id'',
      create_table ''messages'' messages_columns,
      create_index ''messages_external_conversation'',
      create_index ''messages_conversation_sequence'',
      create_fts,
      create_table ''send_results'' send_results_columns,
      create_index ''send_results_transaction'',
      create_table ''wechatcopilot_metadata'' [''singleton'', ''schema_version'', ''account_id'']]"

fun run_statements :: "faults \<Rightarrow> nat \<Rightarrow> (index_db \<Rightarrow> index_db) list \<Rightarrow> index_db \<Rightarrow> index_db result" where
  "run_statements q n [] db = Inr db"
| "run_statements q n (st # sts) db =
     (case q (SiteCreate n) of
        Some e \<Rightarrow> Inl (ErrWrapf ''initialize message index: '' e [])
      | None \<Rightarrow> run_statements q (Suc n) sts (st db))"

fun first_fault :: "faults \<Rightarrow> sql_site list \<Rightarrow> go_error option" where
  "first_fault q [] = None"
| "first_fault q (s # ss) = (case q s of Some e \<Rightarrow> Some e | None \<Rightarrow> first_fault q ss)"

text \<open>\<^verbatim>\<open>ALTER TABLE ... ADD COLUMN\<close> appends the column; existing rows get its default.\<close>

definition ensureSendStateColumn :: "faults \<Rightarrow> index_db \<Rightarrow> go_error option \<times> index_db" where
  "ensureSendStateColumn q db =
     (case first_fault q [SiteTableInfo ''send_results'', SiteTableRows ''send_results''] of
        Some e \<Rightarrow> (Some e, db)
      | None \<Rightarrow>
          if ''state'' \<in> set (db_columns db ''send_results'') then (None, db)
          else case q (SiteAlter ''send_results'') of
              Some e \<Rightarrow> (Some e, db)
            | None \<Rightarrow>
                (None, db\<lparr>db_columns := (db_columns db)
                            (''send_results'' := db_columns db ''send_results'' @ [''state'']),
                          db_send_results := map (sn_state_update (\<lambda>_. Terminal)) (db_send_results db)\<rparr>))"

definition ensureMessageGapBeforeColumn :: "faults \<Rightarrow> index_db \<Rightarrow> go_error option \<times> index_db" where
  "ensureMessageGapBeforeColumn q db =
     (case tableColumns q ''messages'' db of
        Inl e \<Rightarrow> (Some e, db)
      | Inr columns \<Rightarrow>
          if ''gap_before'' \<in> set columns then (None, db)
          else case q (SiteAlter ''messages'') of
              Some e \<Rightarrow> (Some e, db)
            | None \<Rightarrow>
                (None, db\<lparr>db_columns := (db_columns db)
                            (''messages'' := db_columns db ''messages'' @ [''gap_before'']),
                          db_messages := map (ms_GapBefore_update (\<lambda>_. False)) (db_messages db)\<rparr>))"

text \<open>The ownership decision that precedes every write.\<close>

definition ownership_check :: "faults \<Rightarrow> string \<Rightarrow> bool \<Rightarrow> index_db \<Rightarrow> go_error option" where
  "ownership_check q accountID adoptLegacy db =
     (case q SiteMetadataExists of
        Some e \<Rightarrow> Some (ErrWrapf ''inspect message index ownership metadata: '' e [])
      | None \<Rightarrow>
          if metadataTableExists db
          then (if adoptLegacy
                then Some (ErrNew (''message index already contains ownership metadata; '' @
                        ''legacy adoption is not applicable''))
                else validateMetadata q accountID db)
          else (case q SiteHasSchema of
              Some e \<Rightarrow> Some (ErrWrapf ''inspect legacy message index schema: '' e [])
            | None \<Rightarrow>
                if \<not> hasApplicationSchema db
                then (if adoptLegacy
                      then Some (ErrNew ''message index is empty; explicit legacy adoption is not applicable'')
                      else None)
                else (case validateLegacySchema q db of
                    Some e \<Rightarrow>
                      if \<not> adoptLegacy then errors_Join [Some (ErrSentinel IndexErrLegacyUnbound), Some e]
                      else Some e
                  | None \<Rightarrow>
                      (case q SiteLegacyRows of
                         Some e \<Rightarrow> Some (ErrWrapf ''inspect legacy message index contents: '' e [])
                       | None \<Rightarrow>
                           if legacyContainsApplicationData db \<and> \<not> adoptLegacy
                           then Some (ErrSentinel IndexErrLegacyUnbound)
                           else if \<not> legacyContainsApplicationData db \<and> adoptLegacy
                           then Some (ErrNew (''message index contains no account data; '' @
                                   ''explicit legacy adoption is not applicable''))
                           else None))))"

definition bind_account :: "string \<Rightarrow> index_db \<Rightarrow> index_db" where
  "bind_account accountID db = db\<lparr>db_metadata := db_metadata db @ [(1, indexSchemaVersion, accountID)]\<rparr>"

definition create_schema :: "faults \<Rightarrow> string \<Rightarrow> index_db \<Rightarrow> go_error option \<times> index_db" where
  "create_schema q accountID db =
     (case q SiteBegin of
        Some e \<Rightarrow> (Some e, db)
      | None \<Rightarrow>
          (case run_statements q 0 statements db of
             Inl e \<Rightarrow> (Some e, db)
           | Inr created \<Rightarrow>
               (case if metadataTableExists db then None else q SiteBind of
                  Some e \<Rightarrow> (Some (ErrWrapf ''bind message index to account: '' e []), db)
                | None \<Rightarrow>
                    (case q SiteCommit of
                       Some e \<Rightarrow> (Some e, db)
                     | None \<Rightarrow>
                         (None, if metadataTableExists db then created else bind_account accountID created)))))"

definition migrate :: "faults \<Rightarrow> string \<Rightarrow> index_db \<Rightarrow> go_error option \<times> index_db" where
  "migrate q accountID db =
     (case ensureSendStateColumn q db of
        (Some e, db1) \<Rightarrow> (Some (ErrWrapf ''initialize send journal: '' e []), db1)
      | (None, db1) \<Rightarrow>
          (case ensureMessageGapBeforeColumn q db1 of
             (Some e, db2) \<Rightarrow> (Some (ErrWrapf ''initialize message gap metadata: '' e []), db2)
           | (None, db2) \<Rightarrow>
               (case validateInitializedSchema q db2 of
                  Some e \<Rightarrow> (Some (ErrWrapf ''validate message index schema: '' e []), db2)
                | None \<Rightarrow> (validateMetadata q accountID db2, db2))))"

definition initialize :: "faults \<Rightarrow> string \<Rightarrow> bool \<Rightarrow> index_db \<Rightarrow> go_error option \<times> index_db" where
  "initialize q accountID adoptLegacy db =
     (case q SiteBusyTimeout of
        Some e \<Rightarrow> (Some (ErrWrapf ''configure message index lock timeout: '' e []), db)
      | None \<Rightarrow>
          (case ownership_check q accountID adoptLegacy db of
             Some e \<Rightarrow> (Some e, db)
           | None \<Rightarrow>
               (case first_fault q [SitePragma 0, SitePragma 1, SitePragma 2] of
                  Some e \<Rightarrow> (Some (ErrWrapf ''configure message index: '' e []), db)
                | None \<Rightarrow>
                    (case create_schema q accountID db of
                       (Some e, db1) \<Rightarrow> (Some e, db1)
                     | (None, db1) \<Rightarrow> migrate q accountID db1))))"

text \<open>The check of the account identifier at the top of \<^verbatim>\<open>open\<close>.\<close>

definition valid_index_account :: "string \<Rightarrow> bool" where
  "valid_index_account accountID \<longleftrightarrow>
     TrimSpace accountID = accountID \<and> accountID \<noteq> [] \<and> length accountID \<le> 128 \<and>
     list_all (\<lambda>c. c \<noteq> CHR ''/'' \<and> c \<noteq> backslash \<and> c \<noteq> CHR 0x00) accountID"

definition empty_db :: index_db where
  "empty_db = \<lparr>db_objects = [], db_columns = (\<lambda>_. []), db_fts_sql = [], db_quick_check = ''ok'',
     db_metadata = [], db_conversations = [], db_messages = [], db_last_sequence = 0, db_fts = [],
     db_send_results = []\<rparr>"

definition no_faults :: faults where "no_faults = (\<lambda>_. None)"

end
