(* ===== verification/Index_Store.thy ===== *)
theory Index_Store
  imports Index_Schema
begin

text \<open>
  The operations of the message index (\<^verbatim>\<open>internal/index/store.go\<close>): conversations, the append-only
  message log, search, and the journal of send results.
\<close>

section \<open>Conversations\<close>

fun upsert_row :: "Conversation \<Rightarrow> Conversation list \<Rightarrow> Conversation list" where
  "upsert_row item [] = [item]"
| "upsert_row item (row # rows) =
     (if cv_ID row = cv_ID item then item # rows else row # upsert_row item rows)"

definition unique_error :: "string \<Rightarrow> go_error" where
  "unique_error column = ErrNew (''constraint failed: UNIQUE constraint failed: '' @ column)"

definition upsert_conversation :: "Conversation \<Rightarrow> index_db \<Rightarrow> index_db result" where
  "upsert_conversation item db =
     (if \<exists>row \<in> set (db_conversations db). cv_ID row \<noteq> cv_ID item \<and> cv_ExternalID row = cv_ExternalID item
      then Inl (unique_error ''conversations.external_id'')
      else Inr (db\<lparr>db_conversations := upsert_row item (db_conversations db)\<rparr>))"

fun upsert_loop :: "faults \<Rightarrow> nat \<Rightarrow> Conversation list \<Rightarrow> index_db \<Rightarrow> index_db result" where
  "upsert_loop q n [] db = Inr db"
| "upsert_loop q n (item # items) db =
     (if cv_ID item = [] \<or> cv_ExternalID item = []
      then Inl (ErrNew ''conversation id and external id are required'')
      else case q (SiteInsert n) of
          Some e \<Rightarrow> Inl e
        | None \<Rightarrow>
            (case upsert_conversation item db of
               Inl e \<Rightarrow> Inl e
             | Inr db' \<Rightarrow> upsert_loop q (Suc n) items db'))"

definition commit_tx :: "faults \<Rightarrow> index_db \<Rightarrow> (index_db \<times> 'a) result \<Rightarrow> 'a result \<times> index_db" where
  "commit_tx q db body =
     (case body of
        Inl e \<Rightarrow> (Inl e, db)
      | Inr (db', v) \<Rightarrow> (case q SiteCommit of Some e \<Rightarrow> (Inl e, db) | None \<Rightarrow> (Inr v, db')))"

definition UpsertConversations ::
  "faults \<Rightarrow> Conversation list \<Rightarrow> index_db \<Rightarrow> unit result \<times> index_db"
where
  "UpsertConversations q conversations db =
     (case q SiteBegin of
        Some e \<Rightarrow> (Inl e, db)
      | None \<Rightarrow> commit_tx q db (map_sum id (\<lambda>db'. (db', ())) (upsert_loop q 0 conversations db)))"

section \<open>Messages\<close>

definition same_message :: "Message \<Rightarrow> Message \<Rightarrow> bool" where
  "same_message m row \<longleftrightarrow> ms_ID row = ms_ID m \<and> ms_ExternalID row = ms_ExternalID m \<and>
     ms_ConversationID row = ms_ConversationID m"

text \<open>The two unique indexes on which \<^verbatim>\<open>INSERT OR IGNORE\<close> skips a row.\<close>

definition duplicate_row :: "Message \<Rightarrow> Message \<Rightarrow> bool" where
  "duplicate_row m row \<longleftrightarrow> ms_ID row = ms_ID m \<or>
     (ms_ConversationID row = ms_ConversationID m \<and> ms_ExternalID row = ms_ExternalID m)"

definition insert_message :: "faults \<Rightarrow> nat \<Rightarrow> Message \<Rightarrow> index_db \<Rightarrow> (index_db \<times> Message) result" where
  "insert_message q n m db =
     (if ms_ConversationID m \<notin> cv_ID ` set (db_conversations db)
      then Inl (ErrNew ''constraint failed: FOREIGN KEY constraint failed'')
      else case first_fault q [SiteRowsAffected n, SiteSequence n, SiteFts n] of
          Some e \<Rightarrow> Inl e
        | None \<Rightarrow>
            let sequence = db_last_sequence db + 1; row = m\<lparr>ms_Sequence := sequence\<rparr>
            in Inr (db\<lparr>db_messages := db_messages db @ [row], db_last_sequence := sequence,
                       db_fts := db_fts db @ [(ms_ID m, ms_Text m, ms_SenderName m)]\<rparr>, row))"

text \<open>
  SQLite takes the next rowid before it looks at the unique indexes, so an ignored row uses up a number of
  the \<^verbatim>\<open>AUTOINCREMENT\<close> counter.
\<close>

definition skip_rowid :: "index_db \<Rightarrow> index_db" where
  "skip_rowid db = db\<lparr>db_last_sequence := db_last_sequence db + 1\<rparr>"

definition mark_gap :: "faults \<Rightarrow> nat \<Rightarrow> Message \<Rightarrow> index_db \<Rightarrow> index_db result" where
  "mark_gap q n m db =
     (case first_fault q [SiteRowsAffected n] of
        Some e \<Rightarrow> Inl e
      | None \<Rightarrow>
          if \<not> ms_GapBefore m then Inr db
          else case first_fault q [SiteUpdateGap n, SiteGapRows n] of
              Some e \<Rightarrow> Inl e
            | None \<Rightarrow>
                if length (filter (same_message m) (db_messages db)) \<noteq> 1
                then Inl (ErrNew ''duplicate message identity does not match the indexed record'')
                else Inr (db\<lparr>db_messages := update_where (same_message m)
                       (ms_GapBefore_update (\<lambda>_. True)) (db_messages db)\<rparr>))"

fun add_loop ::
  "faults \<Rightarrow> nat \<Rightarrow> Message list \<Rightarrow> index_db \<Rightarrow> Message list \<Rightarrow> (index_db \<times> Message list) result"
where
  "add_loop q n [] db inserted = Inr (db, inserted)"
| "add_loop q n (m # ms) db inserted =
     (if ms_ID m = [] \<or> ms_ExternalID m = [] \<or> ms_ConversationID m = []
      then Inl (ErrNew ''message id, external id, and conversation id are required'')
      else case q (SiteInsert n) of
          Some e \<Rightarrow> Inl e
        | None \<Rightarrow>
            if \<exists>row \<in> set (db_messages db). duplicate_row m row
            then (case mark_gap q n m (skip_rowid db) of
                    Inl e \<Rightarrow> Inl e
                  | Inr db' \<Rightarrow> add_loop q (Suc n) ms db' inserted)
            else (case insert_message q n m db of
                    Inl e \<Rightarrow> Inl e
                  | Inr (db', row) \<Rightarrow> add_loop q (Suc n) ms db' (inserted @ [row])))"

definition AddMessages :: "faults \<Rightarrow> Message list \<Rightarrow> index_db \<Rightarrow> Message list result \<times> index_db" where
  "AddMessages q messages db =
     (case q SiteBegin of
        Some e \<Rightarrow> (Inl e, db)
      | None \<Rightarrow> commit_tx q db (add_loop q 0 messages db []))"

section \<open>Queries\<close>

definition clamp_limit :: "int \<Rightarrow> int \<Rightarrow> nat" where
  "clamp_limit maximum limit = nat (if limit \<le> 0 \<or> limit > maximum then 100 else limit)"

definition like_pattern :: "string \<Rightarrow> string" where
  "like_pattern value = ''%'' @ escapeLike value @ ''%''"

definition nullableTime :: "time \<Rightarrow> string option" where
  "nullableTime value = (if value = 0 then None else Some (FormatRFC3339Nano value))"

text \<open>\<^verbatim>\<open>ORDER BY last_message_at DESC, title ASC\<close>, in which a NULL time comes last.\<close>

definition conversation_le :: "Conversation \<Rightarrow> Conversation \<Rightarrow> bool" where
  "conversation_le a b =
     (let ta = nullableTime (cv_LastMessageAt a); tb = nullableTime (cv_LastMessageAt b)
      in if ta = tb then cv_Title a \<le> cv_Title b
         else case (ta, tb) of
             (None, _) \<Rightarrow> False
           | (Some x, None) \<Rightarrow> True
           | (Some x, Some y) \<Rightarrow> y \<le> x)"

definition ListConversations ::
  "faults \<Rightarrow> string \<Rightarrow> bool \<Rightarrow> int \<Rightarrow> index_db \<Rightarrow> Conversation list result"
where
  "ListConversations q search unread limit db =
     (case first_fault q [SiteQuery, SiteScan] of
        Some e \<Rightarrow> Inl e
      | None \<Rightarrow>
          Inr (take (clamp_limit 500 limit) (sort_by conversation_le
            (filter (\<lambda>c. (search = [] \<or> like (Some backslash) (like_pattern search) (cv_Title c)) \<and>
                         (unread \<longrightarrow> cv_UnreadCount c > 0)) (db_conversations db)))))"

text \<open>
  \<^verbatim>\<open>scanMessage\<close>: the raw payload comes back only when it is valid JSON, which \<open>valid_json\<close>
  decides.
\<close>

definition scanMessage :: "(string \<Rightarrow> bool) \<Rightarrow> Message \<Rightarrow> Message" where
  "scanMessage valid_json row = row\<lparr>ms_Raw := (if valid_json (ms_Raw row) then ms_Raw row else [])\<rparr>"

definition message_matches :: "MessageQuery \<Rightarrow> Message \<Rightarrow> bool" where
  "message_matches query m \<longleftrightarrow>
     ms_Sequence m > mq_AfterSequence query \<and>
     (mq_ConversationID query \<noteq> [] \<longrightarrow> ms_ConversationID m = mq_ConversationID query) \<and>
     (mq_Before query \<noteq> 0 \<longrightarrow>
        FormatRFC3339Nano (ms_SentAt m) < FormatRFC3339Nano (mq_Before query))"

definition newest :: "nat \<Rightarrow> 'a list \<Rightarrow> 'a list" where
  "newest n xs = drop (length xs - n) xs"

definition ListMessages ::
  "faults \<Rightarrow> (string \<Rightarrow> bool) \<Rightarrow> MessageQuery \<Rightarrow> index_db \<Rightarrow> Message list result"
where
  "ListMessages q valid_json query db =
     (case first_fault q [SiteQuery, SiteScan] of
        Some e \<Rightarrow> Inl e
      | None \<Rightarrow>
          let limit = clamp_limit 1000 (mq_Limit query);
              rows = sort_key ms_Sequence (filter (message_matches query) (db_messages db))
          in Inr (map (scanMessage valid_json)
                   (if mq_Latest query then newest limit rows else take limit rows)))"

text \<open>
  \<open>fts text rows\<close> is what the FTS5 module answers to a \<^verbatim>\<open>MATCH\<close>: an error for text outside its
  query syntax, or the identifiers of matching rows, best rank first.
\<close>

definition SearchMessages ::
  "faults \<Rightarrow> (string \<Rightarrow> bool) \<Rightarrow> (string \<Rightarrow> (string \<times> string \<times> string) list \<Rightarrow> string list result) \<Rightarrow>
     string \<Rightarrow> int \<Rightarrow> index_db \<Rightarrow> Message list result"
where
  "SearchMessages q valid_json fts search limit db =
     (let text = TrimSpace search; n = clamp_limit 500 limit
      in if text = [] then Inl (ErrNew ''search text is required'')
         else
           let ranked = (case fts text (db_fts db) of
                   Inl e \<Rightarrow> []
                 | Inr ids \<Rightarrow> take n (concat (map (\<lambda>i. filter (\<lambda>m. ms_ID m = i) (db_messages db)) ids)));
               literal = take n (rev (sort_key ms_Sequence
                 (filter (\<lambda>m. like (Some backslash) (like_pattern text) (ms_Text m) \<or>
                    like (Some backslash) (like_pattern text) (ms_SenderName m)) (db_messages db))))
           in case (case fts text (db_fts db) of Inl e \<Rightarrow> None | Inr ids \<Rightarrow> q SiteScan) of
               Some e \<Rightarrow> Inl e
             | None \<Rightarrow>
                 if ranked \<noteq> [] then Inr (map (scanMessage valid_json) ranked)
                 else case first_fault q [SiteFallbackQuery, SiteScan] of
                     Some e \<Rightarrow> Inl e
                   | None \<Rightarrow> Inr (map (scanMessage valid_json) literal))"

section \<open>The send journal\<close>

definition GetSendResult :: "faults \<Rightarrow> string \<Rightarrow> string \<Rightarrow> index_db \<Rightarrow> SendResult option result" where
  "GetSendResult q key hash db =
     (case q SiteQuery of
        Some e \<Rightarrow> Inl e
      | None \<Rightarrow>
          (case List.find (\<lambda>r. sn_idempotency_key r = key) (db_send_results db) of
             None \<Rightarrow> Inr None
           | Some row \<Rightarrow>
               if sn_request_hash row \<noteq> hash
               then Inl (ErrNew ''idempotency key was already used for another request'')
               else case q SiteUnmarshal of Some e \<Rightarrow> Inl e | None \<Rightarrow> Inr (Some (sn_result_json row))))"

definition GetSendResultForTransaction ::
  "faults \<Rightarrow> string \<Rightarrow> index_db \<Rightarrow> (string \<times> SendResult option) result"
where
  "GetSendResultForTransaction q transactionID db =
     (case q SiteQuery of
        Some e \<Rightarrow> Inl e
      | None \<Rightarrow>
          (case List.find (\<lambda>r. sn_transaction_id r = transactionID) (db_send_results db) of
             None \<Rightarrow> Inr ([], None)
           | Some row \<Rightarrow>
               (case q SiteUnmarshal of
                  Some e \<Rightarrow> Inl e
                | None \<Rightarrow> Inr (sn_idempotency_key row, Some (sn_result_json row)))))"

definition insert_send_row ::
  "faults \<Rightarrow> send_row \<Rightarrow> index_db \<Rightarrow> unit result \<times> index_db"
where
  "insert_send_row q row db =
     (case first_fault q [SiteMarshal, SiteInsert 0] of
        Some e \<Rightarrow> (Inl e, db)
      | None \<Rightarrow>
          if \<exists>r \<in> set (db_send_results db). sn_idempotency_key r = sn_idempotency_key row
          then (Inl (unique_error ''send_results.idempotency_key''), db)
          else if \<exists>r \<in> set (db_send_results db). sn_transaction_id r = sn_transaction_id row
          then (Inl (unique_error ''send_results.transaction_id''), db)
          else (Inr (), db\<lparr>db_send_results := db_send_results db @ [row]\<rparr>))"

definition SaveSendResult ::
  "faults \<Rightarrow> time \<Rightarrow> string \<Rightarrow> string \<Rightarrow> string \<Rightarrow> SendResult \<Rightarrow> index_db \<Rightarrow> unit result \<times> index_db"
where
  "SaveSendResult q now key transactionID hash result db =
     insert_send_row q \<lparr>sn_idempotency_key = key, sn_transaction_id = transactionID,
       sn_request_hash = hash, sn_state = Terminal, sn_result_json = result, sn_created_at = now\<rparr> db"

definition ReserveSend ::
  "faults \<Rightarrow> time \<Rightarrow> string \<Rightarrow> string \<Rightarrow> string \<Rightarrow> SendResult \<Rightarrow> index_db \<Rightarrow> unit result \<times> index_db"
where
  "ReserveSend q now key transactionID hash result db =
     insert_send_row q \<lparr>sn_idempotency_key = key, sn_transaction_id = transactionID,
       sn_request_hash = hash, sn_state = InFlight, sn_result_json = result, sn_created_at = now\<rparr> db"

definition reservation :: "string \<Rightarrow> string \<Rightarrow> string \<Rightarrow> send_row \<Rightarrow> bool" where
  "reservation key transactionID hash r \<longleftrightarrow> sn_idempotency_key r = key \<and>
     sn_transaction_id r = transactionID \<and> sn_request_hash r = hash \<and> sn_state r = InFlight"

definition reservation_missing :: go_error where
  "reservation_missing = ErrNew ''send reservation is missing or no longer in flight''"

text \<open>
  The two statements below commit on their own: a failure of \<^verbatim>\<open>RowsAffected\<close> comes after the
  rows have changed.
\<close>

definition FinalizeSend ::
  "faults \<Rightarrow> string \<Rightarrow> string \<Rightarrow> string \<Rightarrow> SendResult \<Rightarrow> index_db \<Rightarrow> unit result \<times> index_db"
where
  "FinalizeSend q key transactionID hash result db =
     (case first_fault q [SiteMarshal, SiteInsert 0] of
        Some e \<Rightarrow> (Inl e, db)
      | None \<Rightarrow>
          let rows = length (filter (reservation key transactionID hash) (db_send_results db));
              db' = db\<lparr>db_send_results := update_where (reservation key transactionID hash)
                (\<lambda>r. r\<lparr>sn_state := Terminal, sn_result_json := result\<rparr>) (db_send_results db)\<rparr>
          in case q (SiteRowsAffected 0) of
              Some e \<Rightarrow> (Inl e, db')
            | None \<Rightarrow> if rows \<noteq> 1 then (Inl reservation_missing, db') else (Inr (), db'))"

definition DeleteSendReservation ::
  "faults \<Rightarrow> string \<Rightarrow> string \<Rightarrow> string \<Rightarrow> index_db \<Rightarrow> unit result \<times> index_db"
where
  "DeleteSendReservation q key transactionID hash db =
     (case q (SiteInsert 0) of
        Some e \<Rightarrow> (Inl e, db)
      | None \<Rightarrow>
          let rows = length (filter (reservation key transactionID hash) (db_send_results db));
              db' = db\<lparr>db_send_results :=
                filter (\<lambda>r. \<not> reservation key transactionID hash r) (db_send_results db)\<rparr>
          in case q (SiteRowsAffected 0) of
              Some e \<Rightarrow> (Inl e, db')
            | None \<Rightarrow> if rows \<noteq> 1 then (Inl reservation_missing, db') else (Inr (), db'))"

end
