(* ===== verification/Index_Props.thy ===== *)
theory Index_Props
  imports Index_Store
begin

text \<open>
  Correctness of the message index: literal substring search, the append-only message log and
  its pages, idempotent ingestion, ownership of a database by one account, and the send journal
  as the contract the send service relies on.
\<close>

section \<open>Literal search\<close>

text \<open>\<open>fold_case\<close> is the comparison of SQLite's \<^verbatim>\<open>LIKE\<close>: ASCII letters without case.\<close>

definition fold_case :: "string \<Rightarrow> string" where
  "fold_case s = map lower_byte s"

lemma like_matches_many:
  "like_matches (LikeMany # ts) s \<longleftrightarrow> (\<exists>pre post. s = pre @ post \<and> like_matches ts post)"
proof (induction s)
  case (Cons d s)
  show ?case
  proof
    assume "like_matches (LikeMany # ts) (d # s)"
    then consider "like_matches ts (d # s)" | "like_matches (LikeMany # ts) s" by auto
    then show "\<exists>pre post. d # s = pre @ post \<and> like_matches ts post"
    proof cases
      case 2
      then obtain pre post where "s = pre @ post" "like_matches ts post" using Cons.IH by blast
      then have "d # s = (d # pre) @ post" by simp
      with \<open>like_matches ts post\<close> show ?thesis by blast
    qed (metis append_Nil)
  next
    assume "\<exists>pre post. d # s = pre @ post \<and> like_matches ts post"
    then obtain pre post where p: "d # s = pre @ post" "like_matches ts post" by blast
    show "like_matches (LikeMany # ts) (d # s)"
    proof (cases pre)
      case (Cons c pre')
      then have "s = pre' @ post" using p by simp
      then show ?thesis using p Cons.IH by auto
    qed (use p in auto)
  qed
qed auto

lemma like_matches_literal:
  "like_matches (map LikeLit cs @ ts) s \<longleftrightarrow>
     (\<exists>mid post. s = mid @ post \<and> fold_case mid = fold_case cs \<and> like_matches ts post)"
proof (induction cs arbitrary: s)
  case (Cons c cs)
  show ?case
  proof
    assume "like_matches (map LikeLit (c # cs) @ ts) s"
    then obtain d s' where s: "s = d # s'" "lower_byte c = lower_byte d"
      and m: "like_matches (map LikeLit cs @ ts) s'" by (cases s) auto
    from m Cons.IH obtain mid post where
      "s' = mid @ post" "fold_case mid = fold_case cs" "like_matches ts post" by blast
    with s show "\<exists>mid post. s = mid @ post \<and> fold_case mid = fold_case (c # cs) \<and> like_matches ts post"
      by (intro exI [of _ "d # mid"] exI [of _ post]) (simp add: fold_case_def)
  next
    assume "\<exists>mid post. s = mid @ post \<and> fold_case mid = fold_case (c # cs) \<and> like_matches ts post"
    then obtain mid post where p: "s = mid @ post" "fold_case mid = fold_case (c # cs)" "like_matches ts post"
      by blast
    then obtain d mid' where mid: "mid = d # mid'" "lower_byte d = lower_byte c" "fold_case mid' = fold_case cs"
      by (cases mid) (auto simp: fold_case_def)
    have "like_matches (map LikeLit cs @ ts) (mid' @ post)" using Cons.IH mid(3) p(3) by blast
    then show "like_matches (map LikeLit (c # cs) @ ts) s" using p(1) mid by simp
  qed
qed (simp add: fold_case_def)

text \<open>Escaping rune by rune: the three replacements together put a backslash before each special byte.\<close>

definition like_special :: "char \<Rightarrow> bool" where
  "like_special c \<longleftrightarrow> c = backslash \<or> c = CHR ''%'' \<or> c = CHR ''_''"

lemma ReplaceAll_append: "ReplaceAll c new (s @ t) = ReplaceAll c new s @ ReplaceAll c new t"
  by (induction s) auto

lemma escapeLike_Cons:
  "escapeLike (c # s) = (if like_special c then [backslash, c] else [c]) @ escapeLike s"
  by (simp add: escapeLike_def Let_def ReplaceAll_append like_special_def backslash_def)

lemma like_tokens_escaped:
  "like_tokens (Some backslash) (escapeLike s @ ''%'') = map LikeLit s @ [LikeMany]"
proof (induction s)
  case Nil
  show ?case by (simp add: escapeLike_def backslash_def)
next
  case (Cons c s)
  obtain d ds where nxt: "escapeLike s @ ''%'' = d # ds" by (cases "escapeLike s @ ''%''") auto
  show ?case
  proof (cases "like_special c")
    case True
    then have "escapeLike (c # s) @ ''%'' = backslash # c # (escapeLike s @ ''%'')" by (simp add: escapeLike_Cons)
    then show ?thesis using Cons.IH by simp
  next
    case False
    then have "escapeLike (c # s) @ ''%'' = c # d # ds" using nxt by (simp add: escapeLike_Cons)
    then show ?thesis using False Cons.IH nxt by (simp add: like_special_def)
  qed
qed

lemma like_tokens_pattern:
  "like_tokens (Some backslash) (like_pattern s) = LikeMany # map LikeLit s @ [LikeMany]"
proof -
  obtain d ds where nxt: "escapeLike s @ ''%'' = d # ds" by (cases "escapeLike s @ ''%''") auto
  then show ?thesis using like_tokens_escaped [of s] by (simp add: like_pattern_def backslash_def)
qed

lemma like_literal:
  assumes "CHR 0x00 \<notin> set s"
  shows "like (Some backslash) (like_pattern s) t \<longleftrightarrow>
     (\<exists>pre mid post. c_string t = pre @ mid @ post \<and> fold_case mid = fold_case s)"
proof -
  have "set (escapeLike s) \<subseteq> insert backslash (set s)" by (induction s) (auto simp: escapeLike_Cons, simp add: escapeLike_def)
  then have "CHR 0x00 \<notin> set (like_pattern s)" using assms by (auto simp: like_pattern_def backslash_def)
  then have whole: "c_string (like_pattern s) = like_pattern s" by (auto simp: c_string_def takeWhile_eq_all_conv)
  have any: "like_matches [LikeMany] post" for post
    by (induction post) auto
  have "like_matches (map LikeLit s @ [LikeMany]) u \<longleftrightarrow>
      (\<exists>mid post. u = mid @ post \<and> fold_case mid = fold_case s)" for u
    using like_matches_literal [of s "[LikeMany]" u] any by simp
  then show ?thesis
    by (simp only: like_def whole like_tokens_pattern like_matches_many) blast
qed

section \<open>The message log\<close>

definition identity_of :: "Message \<Rightarrow> string \<times> string" where
  "identity_of m = (ms_ConversationID m, ms_ExternalID m)"

text \<open>
  \<open>log_ok\<close>: the unique indexes and the foreign key hold, sequence numbers strictly increase and
  never exceed the counter, and the full-text table has one row per message.
\<close>

definition log_ok :: "index_db \<Rightarrow> bool" where
  "log_ok db \<longleftrightarrow>
     distinct (map ms_ID (db_messages db)) \<and> distinct (map identity_of (db_messages db)) \<and>
     sorted_wrt (<) (map ms_Sequence (db_messages db)) \<and>
     (\<forall>m \<in> set (db_messages db). 0 < ms_Sequence m \<and> ms_Sequence m \<le> db_last_sequence db \<and>
        ms_ConversationID m \<in> cv_ID ` set (db_conversations db)) \<and>
     0 \<le> db_last_sequence db \<and> map fst (db_fts db) = map ms_ID (db_messages db)"

definition conversations_ok :: "index_db \<Rightarrow> bool" where
  "conversations_ok db \<longleftrightarrow>
     distinct (map cv_ID (db_conversations db)) \<and> distinct (map cv_ExternalID (db_conversations db)) \<and>
     (\<forall>c \<in> set (db_conversations db). cv_ID c \<noteq> [] \<and> cv_ExternalID c \<noteq> [])"

definition journal_ok :: "index_db \<Rightarrow> bool" where
  "journal_ok db \<longleftrightarrow> distinct (map sn_idempotency_key (db_send_results db)) \<and>
     distinct (map sn_transaction_id (db_send_results db))"

text \<open>A later log keeps every earlier row; only a gap mark may be added to it.\<close>

definition keeps_row :: "Message \<Rightarrow> Message \<Rightarrow> bool" where
  "keeps_row r r' \<longleftrightarrow> r' = r \<or> r' = r\<lparr>ms_GapBefore := True\<rparr>"

definition log_extends :: "index_db \<Rightarrow> index_db \<Rightarrow> Message list \<Rightarrow> bool" where
  "log_extends db db' new \<longleftrightarrow>
     (\<exists>old' new'. db_messages db' = old' @ new' \<and> list_all2 keeps_row (db_messages db) old' \<and>
        list_all2 keeps_row new new')"

lemma keeps_row_refl [simp]: "keeps_row r r"
  by (simp add: keeps_row_def)

lemma keeps_row_trans: "keeps_row a b \<Longrightarrow> keeps_row b c \<Longrightarrow> keeps_row a c"
  by (auto simp: keeps_row_def)

lemma keeps_rows_refl [simp]: "list_all2 keeps_row xs xs"
  by (simp add: list_all2_refl)

lemma keeps_rows_trans: "list_all2 keeps_row xs ys \<Longrightarrow> list_all2 keeps_row ys zs \<Longrightarrow> list_all2 keeps_row xs zs"
  by (rule list_all2_trans [OF keeps_row_trans])

lemma keeps_rows_mark: "list_all2 keeps_row xs (update_where P (ms_GapBefore_update (\<lambda>_. True)) xs)"
  by (induction xs) (auto simp: keeps_row_def)

lemma log_extends_refl: "log_extends db db []"
  by (simp add: log_extends_def)

lemma log_extends_trans:
  assumes "log_extends a b xs" and "log_extends b c ys"
  shows "log_extends a c (xs @ ys)"
proof -
  obtain o1 n1 where ab: "db_messages b = o1 @ n1" "list_all2 keeps_row (db_messages a) o1"
    "list_all2 keeps_row xs n1" using assms(1) by (auto simp: log_extends_def)
  obtain o2 n2 where bc: "db_messages c = o2 @ n2" "list_all2 keeps_row (o1 @ n1) o2"
    "list_all2 keeps_row ys n2" using assms(2) ab(1) by (auto simp: log_extends_def)
  obtain p r where pr: "o2 = p @ r" "list_all2 keeps_row o1 p" "list_all2 keeps_row n1 r"
    using bc(2) by (auto simp: list_all2_append1)
  have "list_all2 keeps_row (db_messages a) p" by (rule keeps_rows_trans [OF ab(2) pr(2)])
  moreover have "list_all2 keeps_row (xs @ ys) (r @ n2)"
    by (rule list_all2_appendI [OF keeps_rows_trans [OF ab(3) pr(3)] bc(3)])
  moreover have "db_messages c = p @ (r @ n2)" using bc(1) pr(1) by simp
  ultimately show ?thesis unfolding log_extends_def by blast
qed

lemma skip_rowid_simps [simp]:
  "db_messages (skip_rowid db) = db_messages db" "db_conversations (skip_rowid db) = db_conversations db"
  "db_last_sequence (skip_rowid db) = db_last_sequence db + 1" "db_fts (skip_rowid db) = db_fts db"
  "db_send_results (skip_rowid db) = db_send_results db" "db_metadata (skip_rowid db) = db_metadata db"
  by (simp_all add: skip_rowid_def)

lemma log_ok_skip: "log_ok db \<Longrightarrow> log_ok (skip_rowid db)"
  by (fastforce simp: log_ok_def)

lemma mark_gap_cases:
  assumes "mark_gap q n m db = Inr db'"
  obtains (unmarked) "db' = db" "\<not> ms_GapBefore m"
  | (marked) "ms_GapBefore m" "length (filter (same_message m) (db_messages db)) = 1"
      "db' = db\<lparr>db_messages := update_where (same_message m) (ms_GapBefore_update (\<lambda>_. True)) (db_messages db)\<rparr>"
  using assms by (auto simp: mark_gap_def split: option.splits if_splits)

lemma insert_message_cases:
  assumes "insert_message q n m db = Inr (db', row)"
  obtains "row = m\<lparr>ms_Sequence := db_last_sequence db + 1\<rparr>"
    "ms_ConversationID m \<in> cv_ID ` set (db_conversations db)"
    "db' = db\<lparr>db_messages := db_messages db @ [row], db_last_sequence := db_last_sequence db + 1,
       db_fts := db_fts db @ [(ms_ID m, ms_Text m, ms_SenderName m)]\<rparr>"
  using assms by (auto simp: insert_message_def Let_def split: option.splits if_splits)

text \<open>One iteration of the insertion loop, as a relation.\<close>

inductive add_step :: "Message \<Rightarrow> index_db \<Rightarrow> index_db \<Rightarrow> Message list \<Rightarrow> bool" where
  Skipped: "row \<in> set (db_messages db) \<Longrightarrow> duplicate_row m row \<Longrightarrow> mark_gap q n m (skip_rowid db) = Inr db' \<Longrightarrow>
    add_step m db db' []"
| Inserted: "\<forall>row \<in> set (db_messages db). \<not> duplicate_row m row \<Longrightarrow>
    insert_message q n m db = Inr (db', row) \<Longrightarrow> add_step m db db' [row]"

lemma add_loop_Cons:
  assumes "add_loop q n (m # ms) db inserted = Inr (db', result)"
  obtains db1 new where "add_step m db db1 new" "add_loop q (Suc n) ms db1 (inserted @ new) = Inr (db', result)"
    "ms_ID m \<noteq> []" "ms_ExternalID m \<noteq> []" "ms_ConversationID m \<noteq> []"
proof -
  from assms have valid: "ms_ID m \<noteq> []" "ms_ExternalID m \<noteq> []" "ms_ConversationID m \<noteq> []"
    by (simp_all split: if_splits)
  show thesis
  proof (cases "\<exists>row \<in> set (db_messages db). duplicate_row m row")
    case True
    then obtain db1 where "mark_gap q n m (skip_rowid db) = Inr db1" "add_loop q (Suc n) ms db1 inserted = Inr (db', result)"
      using assms valid by (auto split: option.splits sum.splits)
    with True show thesis using valid by (auto intro: that Skipped)
  next
    case False
    then obtain db1 row where "insert_message q n m db = Inr (db1, row)"
      "add_loop q (Suc n) ms db1 (inserted @ [row]) = Inr (db', result)"
      using assms valid by (auto split: option.splits sum.splits)
    with False show thesis using valid by (auto intro: that Inserted)
  qed
qed

lemma add_step_extends: "add_step m db db' new \<Longrightarrow> log_extends db db' new"
proof (induction rule: add_step.induct)
  case (Skipped row db m q n db')
  from Skipped(3) show ?case
    by (cases rule: mark_gap_cases) (auto simp: log_extends_def keeps_rows_mark)
next
  case (Inserted db m q n db' row)
  from Inserted(2) show ?case
    by (cases rule: insert_message_cases) (force simp: log_extends_def)
qed

lemma map_mark_same:
  "(\<And>x. g (ms_GapBefore_update (\<lambda>_. True) x) = g x) \<Longrightarrow>
     map g (update_where P (ms_GapBefore_update (\<lambda>_. True)) xs) = map g xs"
  by (rule map_update_where_same)

lemma add_step_log_ok: "add_step m db db' new \<Longrightarrow> log_ok db \<Longrightarrow> log_ok db'"
proof (induction rule: add_step.induct)
  case (Skipped row db m q n db')
  from Skipped(3) show ?case
  proof (cases rule: mark_gap_cases)
    case marked
    then show ?thesis using log_ok_skip [OF Skipped.prems]
      by (auto simp: log_ok_def map_mark_same identity_of_def set_update_where)
  qed (use log_ok_skip [OF Skipped.prems] in simp)
next
  case (Inserted db m q n db' row)
  from Inserted(2) show ?case
  proof (cases rule: insert_message_cases)
    case 1
    then show ?thesis using Inserted.prems Inserted(1)
      by (auto simp: log_ok_def sorted_wrt_append identity_of_def duplicate_row_def image_iff)
  qed
qed

lemma add_step_frame:
  "add_step m db db' new \<Longrightarrow> db_conversations db' = db_conversations db \<and>
     db_send_results db' = db_send_results db \<and> db_metadata db' = db_metadata db"
  by (erule add_step.cases) (auto elim!: mark_gap_cases insert_message_cases)

lemma add_loop_run:
  "add_loop q n ms db inserted = Inr (db', result) \<Longrightarrow> log_ok db \<Longrightarrow>
     log_ok db' \<and> (\<exists>new. result = inserted @ new \<and> log_extends db db' new) \<and>
     db_conversations db' = db_conversations db \<and> db_send_results db' = db_send_results db \<and>
     db_metadata db' = db_metadata db"
proof (induction ms arbitrary: n db inserted)
  case Nil
  then show ?case using log_extends_refl by auto
next
  case (Cons m ms)
  from Cons.prems(1) obtain db1 new where st: "add_step m db db1 new"
    and run: "add_loop q (Suc n) ms db1 (inserted @ new) = Inr (db', result)"
    by (rule add_loop_Cons)
  note ih = Cons.IH [OF run add_step_log_ok [OF st Cons.prems(2)]]
  then obtain new' where "result = inserted @ (new @ new')" "log_extends db1 db' new'" by auto
  with ih add_step_frame [OF st] log_extends_trans [OF add_step_extends [OF st]] show ?case by auto
qed

section \<open>Idempotent ingestion\<close>

text \<open>\<open>absorbed db m\<close>: adding \<open>m\<close> to \<open>db\<close> again changes nothing.\<close>

definition absorbed :: "index_db \<Rightarrow> Message \<Rightarrow> bool" where
  "absorbed db m \<longleftrightarrow> (\<exists>row \<in> set (db_messages db). duplicate_row m row) \<and>
     (ms_GapBefore m \<longrightarrow> length (filter (same_message m) (db_messages db)) = 1 \<and>
        (\<forall>row \<in> set (db_messages db). same_message m row \<longrightarrow> ms_GapBefore row))"

lemma same_message_mark [simp]:
  "same_message m (ms_GapBefore_update (\<lambda>_. True) row) = same_message m row"
  "duplicate_row m (ms_GapBefore_update (\<lambda>_. True) row) = duplicate_row m row"
  by (simp_all add: same_message_def duplicate_row_def)

lemma length_filter_mark:
  "length (filter (same_message m) (update_where P (ms_GapBefore_update (\<lambda>_. True)) xs)) =
     length (filter (same_message m) xs)"
  by (induction xs) auto

lemma duplicate_mark:
  "(\<exists>row \<in> set (update_where P (ms_GapBefore_update (\<lambda>_. True)) xs). duplicate_row m row) \<longleftrightarrow>
     (\<exists>row \<in> set xs. duplicate_row m row)"
  by (induction xs) auto

lemma gap_mark:
  "\<forall>row \<in> set xs. same_message m row \<longrightarrow> ms_GapBefore row \<or> P row \<Longrightarrow>
     \<forall>row \<in> set (update_where P (ms_GapBefore_update (\<lambda>_. True)) xs). same_message m row \<longrightarrow> ms_GapBefore row"
  by (induction xs) auto

lemma no_faults_None: "no_faults s = None"
  by (simp add: no_faults_def)

lemma same_message_duplicate: "same_message m row \<Longrightarrow> duplicate_row m row"
  by (simp add: same_message_def duplicate_row_def)

lemma add_step_absorbs: "add_step m db db' new \<Longrightarrow> absorbed db' m"
proof (induction rule: add_step.induct)
  case (Skipped row db m q n db')
  from Skipped(3) show ?case
  proof (cases rule: mark_gap_cases)
    case unmarked
    then show ?thesis using Skipped(1,2) by (auto simp: absorbed_def)
  next
    case marked
    then show ?thesis using Skipped(1,2)
      by (auto simp: absorbed_def length_filter_mark duplicate_mark intro: gap_mark [THEN bspec, THEN mp])
  qed
next
  case (Inserted db m q n db' row)
  from Inserted(2) show ?case
  proof (cases rule: insert_message_cases)
    case 1
    have "filter (same_message m) (db_messages db) = []"
      using Inserted(1) same_message_duplicate by (auto simp: filter_empty_conv)
    moreover have "same_message m row" using 1 by (simp add: same_message_def)
    ultimately show ?thesis using 1 same_message_duplicate [of m row]
      by (auto simp: absorbed_def filter_empty_conv)
  qed
qed

lemma absorbed_skip [simp]: "absorbed (skip_rowid db) m = absorbed db m"
  by (simp add: absorbed_def)

lemma add_step_keeps_absorbed:
  assumes "add_step m db db' new" and "absorbed db m'"
  shows "absorbed db' m'"
  using assms(1)
proof (cases rule: add_step.cases)
  case (Skipped row q n)
  from Skipped(4) show ?thesis
  proof (cases rule: mark_gap_cases)
    case marked
    then show ?thesis using assms(2)
      by (auto simp: absorbed_def length_filter_mark duplicate_mark intro: gap_mark [THEN bspec, THEN mp])
  qed (use assms in simp)
next
  case (Inserted q n row)
  from Inserted(3) show ?thesis
  proof (cases rule: insert_message_cases)
    case 1
    have "\<not> same_message m' row" if gap: "ms_GapBefore m'"
    proof
      assume "same_message m' row"
      then have same: "ms_ID m' = ms_ID m" using 1 by (simp add: same_message_def)
      have "length (filter (same_message m') (db_messages db)) = 1"
        using assms(2) gap by (simp add: absorbed_def)
      then obtain r where "r \<in> set (db_messages db)" "same_message m' r"
        by (metis filter_False length_0_conv list.size(3) zero_neq_one)
      then have "duplicate_row m r" using same by (simp add: same_message_def duplicate_row_def)
      then show False using Inserted(2) \<open>r \<in> set (db_messages db)\<close> by blast
    qed
    then show ?thesis using 1 assms(2) by (auto simp: absorbed_def)
  qed
qed

lemma add_loop_absorbs:
  "add_loop q n ms db inserted = Inr (db', result) \<Longrightarrow>
     (\<forall>m. absorbed db m \<longrightarrow> absorbed db' m) \<and>
     (\<forall>m \<in> set ms. absorbed db' m \<and> ms_ID m \<noteq> [] \<and> ms_ExternalID m \<noteq> [] \<and> ms_ConversationID m \<noteq> [])"
proof (induction ms arbitrary: n db inserted)
  case (Cons m ms)
  from Cons.prems obtain db1 new where st: "add_step m db db1 new"
    and run: "add_loop q (Suc n) ms db1 (inserted @ new) = Inr (db', result)"
    and v: "ms_ID m \<noteq> []" "ms_ExternalID m \<noteq> []" "ms_ConversationID m \<noteq> []"
    by (rule add_loop_Cons)
  from Cons.IH [OF run] st v show ?case
    by (auto intro: add_step_absorbs add_step_keeps_absorbed)
qed simp

lemma update_where_unchanged: "(\<And>x. x \<in> set xs \<Longrightarrow> P x \<Longrightarrow> f x = x) \<Longrightarrow> update_where P f xs = xs"
  by (induction xs) auto

lemma mark_gap_absorbed: "absorbed db m \<Longrightarrow> mark_gap no_faults n m db = Inr db"
proof -
  assume a: "absorbed db m"
  have "update_where (same_message m) (ms_GapBefore_update (\<lambda>_. True)) (db_messages db) = db_messages db"
    if "ms_GapBefore m" using a that by (intro update_where_unchanged) (auto simp: absorbed_def)
  with a show ?thesis by (auto simp: mark_gap_def no_faults_def absorbed_def)
qed

lemma add_loop_absorbed:
  "\<forall>m \<in> set ms. absorbed db m \<and> ms_ID m \<noteq> [] \<and> ms_ExternalID m \<noteq> [] \<and> ms_ConversationID m \<noteq> [] \<Longrightarrow>
     add_loop no_faults n ms db inserted = Inr (db\<lparr>db_last_sequence := db_last_sequence db + int (length ms)\<rparr>, inserted)"
proof (induction ms arbitrary: n db)
  case (Cons m ms)
  then have a: "absorbed db m" and v: "ms_ID m \<noteq> []" "ms_ExternalID m \<noteq> []" "ms_ConversationID m \<noteq> []"
    by simp_all
  have dup: "\<exists>row \<in> set (db_messages db). duplicate_row m row" using a unfolding absorbed_def by blast
  have gap: "mark_gap no_faults n m (skip_rowid db) = Inr (skip_rowid db)"
    using a by (intro mark_gap_absorbed) simp
  have "add_loop no_faults (Suc n) ms (skip_rowid db) inserted =
      Inr ((skip_rowid db)\<lparr>db_last_sequence := db_last_sequence (skip_rowid db) + int (length ms)\<rparr>, inserted)"
    using Cons.prems by (intro Cons.IH) simp
  then show ?case by (simp add: dup gap v no_faults_None [of "SiteInsert n"]) (simp add: skip_rowid_def add.assoc)
qed simp

section \<open>Conversations\<close>

lemma upsert_row_set:
  "set (upsert_row item rows) \<subseteq> insert item (set rows) \<and> item \<in> set (upsert_row item rows) \<and>
     cv_ID ` set (upsert_row item rows) = insert (cv_ID item) (cv_ID ` set rows)"
  by (induction rows) auto

lemma upsert_row_distinct:
  "distinct (map cv_ID rows) \<Longrightarrow> distinct (map cv_ID (upsert_row item rows))"
proof (induction rows)
  case (Cons r rows)
  have "cv_ID ` set (upsert_row item rows) = insert (cv_ID item) (cv_ID ` set rows)"
    using upsert_row_set by blast
  with Cons show ?case by auto
qed simp

lemma upsert_row_external:
  "distinct (map cv_ExternalID rows) \<Longrightarrow> distinct (map cv_ID rows) \<Longrightarrow>
     \<forall>r \<in> set rows. cv_ID r \<noteq> cv_ID item \<longrightarrow> cv_ExternalID r \<noteq> cv_ExternalID item \<Longrightarrow>
     distinct (map cv_ExternalID (upsert_row item rows))"
proof (induction rows)
  case (Cons r rows)
  show ?case
  proof (cases "cv_ID r = cv_ID item")
    case True
    then have "\<forall>x \<in> set rows. cv_ID x \<noteq> cv_ID item" using Cons.prems(2) by (auto simp: image_iff)
    then show ?thesis using Cons.prems True by (auto simp: image_iff)
  next
    case False
    then have "cv_ExternalID r \<notin> cv_ExternalID ` set (upsert_row item rows)"
      using Cons.prems upsert_row_set [of item rows] by auto
    then show ?thesis using Cons False by auto
  qed
qed simp

lemma upsert_loop_ok:
  "upsert_loop q n items db = Inr db' \<Longrightarrow> conversations_ok db \<Longrightarrow>
     conversations_ok db' \<and> cv_ID ` set (db_conversations db) \<subseteq> cv_ID ` set (db_conversations db') \<and>
     cv_ID ` set items \<subseteq> cv_ID ` set (db_conversations db') \<and>
     db_messages db' = db_messages db \<and> db_last_sequence db' = db_last_sequence db \<and>
     db_fts db' = db_fts db \<and> db_send_results db' = db_send_results db \<and> db_metadata db' = db_metadata db"
proof (induction items arbitrary: n db)
  case (Cons item items)
  from Cons.prems(1) obtain db1 where u: "upsert_conversation item db = Inr db1"
    and run: "upsert_loop q (Suc n) items db1 = Inr db'" and v: "cv_ID item \<noteq> []" "cv_ExternalID item \<noteq> []"
    by (auto split: if_splits option.splits sum.splits)
  from u have d: "db1 = db\<lparr>db_conversations := upsert_row item (db_conversations db)\<rparr>"
    and free: "\<forall>r \<in> set (db_conversations db). cv_ID r \<noteq> cv_ID item \<longrightarrow> cv_ExternalID r \<noteq> cv_ExternalID item"
    by (auto simp: upsert_conversation_def split: if_splits)
  have "conversations_ok db1"
    using Cons.prems(2) free v upsert_row_set [of item "db_conversations db"]
    by (auto simp: d conversations_ok_def upsert_row_distinct upsert_row_external)
  from Cons.IH [OF run this] upsert_row_set [of item "db_conversations db"] show ?case
    by (auto simp: d)
qed simp

lemma log_ok_more_conversations:
  assumes "log_ok db" and "cv_ID ` set (db_conversations db) \<subseteq> cv_ID ` set (db_conversations db')"
    and "db_messages db' = db_messages db" and "db_last_sequence db' = db_last_sequence db"
    and "db_fts db' = db_fts db"
  shows "log_ok db'"
  using assms unfolding log_ok_def by auto

section \<open>The send journal as a contract\<close>

text \<open>
  What the send service relies on. A journal maps an idempotency key and a transaction to at
  most one row each; a reservation succeeds only when both are free and makes both taken; only the
  holder of the same key, transaction and request hash can end its own reservation; a terminal
  row is final.
\<close>

locale send_journal =
  fixes rows :: "'db \<Rightarrow> send_row list"
    and reserve :: "string \<Rightarrow> string \<Rightarrow> string \<Rightarrow> SendResult \<Rightarrow> 'db \<Rightarrow> unit result \<times> 'db"
    and finalize :: "string \<Rightarrow> string \<Rightarrow> string \<Rightarrow> SendResult \<Rightarrow> 'db \<Rightarrow> unit result \<times> 'db"
    and release :: "string \<Rightarrow> string \<Rightarrow> string \<Rightarrow> 'db \<Rightarrow> unit result \<times> 'db"
    and wf :: "'db \<Rightarrow> bool"
  assumes wf_unique: "wf db \<Longrightarrow> distinct (map sn_idempotency_key (rows db)) \<and> distinct (map sn_transaction_id (rows db))"
    and reserve_wf: "wf db \<Longrightarrow> reserve k t h v db = (r, db') \<Longrightarrow> wf db'"
    and reserve_ok: "reserve k t h v db = (Inr (), db') \<Longrightarrow>
      \<exists>row. rows db' = rows db @ [row] \<and> sn_idempotency_key row = k \<and> sn_transaction_id row = t \<and>
        sn_request_hash row = h \<and> sn_state row = InFlight \<and> sn_result_json row = v \<and>
        (\<forall>o' \<in> set (rows db). sn_idempotency_key o' \<noteq> k \<and> sn_transaction_id o' \<noteq> t)"
    and reserve_fail: "reserve k t h v db = (Inl e, db') \<Longrightarrow> rows db' = rows db"
    and finalize_wf: "wf db \<Longrightarrow> finalize k t h v db = (r, db') \<Longrightarrow> wf db'"
    and finalize_rows: "finalize k t h v db = (r, db') \<Longrightarrow>
      rows db' = rows db \<or> rows db' = update_where (reservation k t h)
        (\<lambda>x. x\<lparr>sn_state := Terminal, sn_result_json := v\<rparr>) (rows db)"
    and finalize_ok: "finalize k t h v db = (Inr (), db') \<Longrightarrow>
      rows db' = update_where (reservation k t h) (\<lambda>x. x\<lparr>sn_state := Terminal, sn_result_json := v\<rparr>) (rows db)"
    and release_wf: "wf db \<Longrightarrow> release k t h db = (r, db') \<Longrightarrow> wf db'"
    and release_rows: "release k t h db = (r, db') \<Longrightarrow>
      rows db' = rows db \<or> rows db' = filter (\<lambda>x. \<not> reservation k t h x) (rows db)"
begin

text \<open>The pairs of key and transaction that the journal holds.\<close>

definition held :: "'db \<Rightarrow> (string \<times> string) set" where
  "held db = (\<lambda>r. (sn_idempotency_key r, sn_transaction_id r)) ` set (rows db)"

lemma reserve_held:
  assumes "reserve k t h v db = (Inr (), db')"
  shows "held db' = insert (k, t) (held db)" and "\<forall>(k', t') \<in> held db. k' \<noteq> k \<and> t' \<noteq> t"
proof -
  obtain row where "rows db' = rows db @ [row]" "sn_idempotency_key row = k" "sn_transaction_id row = t"
    "\<forall>o' \<in> set (rows db). sn_idempotency_key o' \<noteq> k \<and> sn_transaction_id o' \<noteq> t"
    using reserve_ok [OF assms] by blast
  then show "held db' = insert (k, t) (held db)" "\<forall>(k', t') \<in> held db. k' \<noteq> k \<and> t' \<noteq> t"
    by (auto simp: held_def)
qed

lemma finalize_held:
  assumes "finalize k t h v db = (r, db')"
  shows "held db' = held db"
proof -
  let ?key = "\<lambda>r. (sn_idempotency_key r, sn_transaction_id r)"
  have "map ?key (rows db') = map ?key (rows db)"
    using finalize_rows [OF assms] by (elim disjE) (simp_all add: map_update_where_same)
  then show ?thesis unfolding held_def by (metis set_map)
qed

lemma release_held:
  assumes "release k t h db = (r, db')"
  shows "held db' \<subseteq> held db" and "(k', t') \<in> held db \<Longrightarrow> (k', t') \<noteq> (k, t) \<Longrightarrow> (k', t') \<in> held db'"
  using release_rows [OF assms] unfolding held_def by (auto simp: reservation_def)

lemma held_functional:
  assumes "wf db" and "(k, t) \<in> held db" and "(k', t') \<in> held db"
  shows "k = k' \<longleftrightarrow> t = t'"
  using wf_unique [OF assms(1)] assms(2,3) unfolding held_def
  by (auto dest: distinct_map_inj [of sn_idempotency_key] distinct_map_inj [of sn_transaction_id])

lemma terminal_final:
  assumes "row \<in> set (rows db)" and "sn_state row = Terminal"
  shows "finalize k t h v db = (r, db') \<Longrightarrow> row \<in> set (rows db')"
    and "release k t h db = (r', db'') \<Longrightarrow> row \<in> set (rows db'')"
proof -
  have "\<not> reservation k t h row" using assms(2) by (simp add: reservation_def)
  then show "finalize k t h v db = (r, db') \<Longrightarrow> row \<in> set (rows db')"
    and "release k t h db = (r', db'') \<Longrightarrow> row \<in> set (rows db'')"
    using assms(1) finalize_rows release_rows by (force simp: set_update_where)+
qed

end

lemma insert_send_row_cases:
  assumes "insert_send_row q row db = (r, db')"
  obtains (refused) e where "r = Inl e" "db' = db"
  | (inserted) "r = Inr ()" "db' = db\<lparr>db_send_results := db_send_results db @ [row]\<rparr>"
      "\<forall>o' \<in> set (db_send_results db). sn_idempotency_key o' \<noteq> sn_idempotency_key row \<and>
         sn_transaction_id o' \<noteq> sn_transaction_id row"
  using assms unfolding insert_send_row_def by (auto split: option.splits if_splits)

lemma insert_send_row_ok: "insert_send_row q row db = (r, db') \<Longrightarrow> journal_ok db \<Longrightarrow> journal_ok db'"
  by (erule insert_send_row_cases) (auto simp: journal_ok_def)

lemma ReserveSend_ok:
  "ReserveSend q now k t h v db = (Inr (), db') \<Longrightarrow>
     \<exists>row. db_send_results db' = db_send_results db @ [row] \<and> sn_idempotency_key row = k \<and>
       sn_transaction_id row = t \<and> sn_request_hash row = h \<and> sn_state row = InFlight \<and> sn_result_json row = v \<and>
       (\<forall>o' \<in> set (db_send_results db). sn_idempotency_key o' \<noteq> k \<and> sn_transaction_id o' \<noteq> t)"
  unfolding ReserveSend_def by (erule insert_send_row_cases) auto

lemma journal_ok_update:
  "journal_ok db \<Longrightarrow> (\<And>x. sn_idempotency_key (f x) = sn_idempotency_key x \<and> sn_transaction_id (f x) = sn_transaction_id x) \<Longrightarrow>
     journal_ok (db\<lparr>db_send_results := update_where P f (db_send_results db)\<rparr>)"
  by (simp add: journal_ok_def map_update_where_same)

lemma FinalizeSend_cases:
  "FinalizeSend q k t h v db = (r, db') \<Longrightarrow>
     (isl r \<and> db' = db) \<or> db' = db\<lparr>db_send_results := update_where (reservation k t h)
        (\<lambda>x. x\<lparr>sn_state := Terminal, sn_result_json := v\<rparr>) (db_send_results db)\<rparr>"
  unfolding FinalizeSend_def Let_def by (auto split: option.splits if_splits)

lemma DeleteSendReservation_cases:
  "DeleteSendReservation q k t h db = (r, db') \<Longrightarrow>
     (isl r \<and> db' = db) \<or> db' = db\<lparr>db_send_results := filter (\<lambda>x. \<not> reservation k t h x) (db_send_results db)\<rparr>"
  unfolding DeleteSendReservation_def Let_def by (auto split: option.splits if_splits)

lemma journal_laws:
  "send_journal db_send_results (ReserveSend q now) (FinalizeSend q) (DeleteSendReservation q) journal_ok"
proof (unfold_locales, goal_cases)
  case (1 db)
  then show ?case by (simp add: journal_ok_def)
next
  case (2 db k t h v r db')
  then show ?case unfolding ReserveSend_def by (blast intro: insert_send_row_ok)
next
  case (3 k t h v db db')
  then show ?case by (rule ReserveSend_ok)
next
  case (4 k t h v db e db')
  then show ?case unfolding ReserveSend_def by (auto elim: insert_send_row_cases)
next
  case (5 db k t h v r db')
  then show ?case using FinalizeSend_cases [OF 5(2)] by (auto intro: journal_ok_update)
next
  case (6 k t h v db r db')
  then show ?case using FinalizeSend_cases [OF 6] by auto
next
  case (7 k t h v db db')
  then show ?case using FinalizeSend_cases [OF 7] by auto
next
  case (8 db k t h r db')
  then show ?case using DeleteSendReservation_cases [OF 8(2)]
    by (auto simp: journal_ok_def distinct_map_filter)
next
  case (9 k t h db r db')
  then show ?case using DeleteSendReservation_cases [OF 9] by auto
qed

interpretation index_journal: send_journal db_send_results "ReserveSend q now" "FinalizeSend q"
  "DeleteSendReservation q" journal_ok for q now
  by (rule journal_laws)

section \<open>Opening and binding a database\<close>

lemma create_frame [simp]:
  "db_metadata (create_table n c db) = db_metadata db" "db_messages (create_table n c db) = db_messages db"
  "db_conversations (create_table n c db) = db_conversations db" "db_fts (create_table n c db) = db_fts db"
  "db_send_results (create_table n c db) = db_send_results db"
  "db_last_sequence (create_table n c db) = db_last_sequence db"
  "db_metadata (create_index n db) = db_metadata db" "db_messages (create_index n db) = db_messages db"
  "db_conversations (create_index n db) = db_conversations db" "db_fts (create_index n db) = db_fts db"
  "db_send_results (create_index n db) = db_send_results db"
  "db_last_sequence (create_index n db) = db_last_sequence db"
  "db_columns (create_index n db) = db_columns db"
  "db_metadata (create_fts db) = db_metadata db" "db_messages (create_fts db) = db_messages db"
  "db_conversations (create_fts db) = db_conversations db" "db_fts (create_fts db) = db_fts db"
  "db_send_results (create_fts db) = db_send_results db"
  "db_last_sequence (create_fts db) = db_last_sequence db" "db_columns (create_fts db) = db_columns db"
  by (simp_all add: create_table_def create_index_def create_fts_def)

lemma has_object_create [simp]:
  "has_object m (create_table n c db) \<longleftrightarrow> m = n \<or> has_object m db"
  "has_object m (create_index n db) \<longleftrightarrow> m = n \<or> has_object m db"
  by (auto simp: create_table_def create_index_def has_object_def)

lemma has_object_create_fts: "has_object m db \<Longrightarrow> has_object m (create_fts db)"
  by (auto simp: create_fts_def has_object_def)

lemma columns_create_table:
  "db_columns (create_table n c db) m = (if m = n \<and> \<not> has_object n db then c else db_columns db m)"
  by (simp add: create_table_def)

text \<open>All nine statements in one: what the committed transaction made of the schema.\<close>

definition with_schema :: "index_db \<Rightarrow> index_db" where
  "with_schema db = fold (\<lambda>st d. st d) statements db"

lemma run_statements_ok: "run_statements q n sts db = Inr db' \<Longrightarrow> db' = fold (\<lambda>st d. st d) sts db"
  by (induction sts arbitrary: n db) (auto split: option.splits)

lemma with_schema_frame [simp]:
  "db_metadata (with_schema db) = db_metadata db" "db_messages (with_schema db) = db_messages db"
  "db_conversations (with_schema db) = db_conversations db" "db_fts (with_schema db) = db_fts db"
  "db_send_results (with_schema db) = db_send_results db"
  "db_last_sequence (with_schema db) = db_last_sequence db"
  by (simp_all add: with_schema_def statements_def)

lemma with_schema_objects:
  "has_object ''wechatcopilot_metadata'' (with_schema db)"
  by (simp add: with_schema_def statements_def)

lemma with_schema_send_columns:
  "has_object ''send_results'' db \<Longrightarrow> db_columns (with_schema db) ''send_results'' = db_columns db ''send_results''"
  by (simp add: with_schema_def statements_def columns_create_table has_object_create_fts)

lemma create_schema_cases:
  assumes "create_schema q acc db = (err, db')"
  obtains (failed) "err \<noteq> None" "db' = db"
  | (created) "err = None"
      "db' = (if metadataTableExists db then with_schema db else bind_account acc (with_schema db))"
  using assms unfolding create_schema_def with_schema_def
  by (auto split: option.splits sum.splits if_splits dest: run_statements_ok sym [where s = "Some x" for x])

lemma initialize_cases:
  assumes "initialize q acc adopt db = (err, db')"
  obtains (refused) "err \<noteq> None" "db' = db"
  | (migrated) "ownership_check q acc adopt db = None"
      "migrate q acc (if metadataTableExists db then with_schema db else bind_account acc (with_schema db)) = (err, db')"
  using assms unfolding initialize_def
  by (auto split: option.splits prod.splits elim!: create_schema_cases dest: sym [where s = "Some x" for x])

lemma ensureSendStateColumn_cases:
  assumes "ensureSendStateColumn q db = (err, db')"
  obtains (same) "db' = db" "err = None \<Longrightarrow> ''state'' \<in> set (db_columns db ''send_results'')"
  | (added) "err = None" "''state'' \<notin> set (db_columns db ''send_results'')"
      "db' = db\<lparr>db_columns := (db_columns db)(''send_results'' := db_columns db ''send_results'' @ [''state'']),
         db_send_results := map (sn_state_update (\<lambda>_. Terminal)) (db_send_results db)\<rparr>"
proof (cases "first_fault q [SiteTableInfo ''send_results'', SiteTableRows ''send_results'']")
  case (Some e)
  then show thesis using assms by (intro same) (simp_all add: ensureSendStateColumn_def del: first_fault.simps)
next
  case None
  note start = ensureSendStateColumn_def None option.case
  show thesis
  proof (cases "''state'' \<in> set (db_columns db ''send_results'')")
    case True
    then show thesis using assms unfolding start by (intro same) simp_all
  next
    case False
    then show thesis using assms unfolding start
      by (cases "q (SiteAlter ''send_results'')") (auto intro: same added)
  qed
qed

lemma ensureMessageGapBeforeColumn_cases:
  assumes "ensureMessageGapBeforeColumn q db = (err, db')"
  obtains (same) "db' = db"
  | (added) "db' = db\<lparr>db_columns := (db_columns db)(''messages'' := db_columns db ''messages'' @ [''gap_before'']),
         db_messages := map (ms_GapBefore_update (\<lambda>_. False)) (db_messages db)\<rparr>"
proof (cases "tableColumns q ''messages'' db")
  case (Inl e)
  then show thesis using assms by (intro same) (simp add: ensureMessageGapBeforeColumn_def)
next
  case (Inr columns)
  note start = ensureMessageGapBeforeColumn_def Inr sum.case
  show thesis
  proof (cases "''gap_before'' \<in> set columns")
    case True
    then show thesis using assms unfolding start by (intro same) simp
  next
    case False
    then show thesis using assms unfolding start
      by (cases "q (SiteAlter ''messages'')") (simp_all add: same added)
  qed
qed

text \<open>The state a migration leaves behind, also when it fails half way.\<close>

lemma migrate_shape:
  assumes "migrate q acc db = (err, db')"
  obtains d1 e1 e2 where "ensureSendStateColumn q db = (e1, d1)"
    "db' = d1 \<or> ensureMessageGapBeforeColumn q d1 = (e2, db')"
    "err = None \<longrightarrow> e1 = None \<and> ensureMessageGapBeforeColumn q d1 = (None, db') \<and>
       validateInitializedSchema q db' = None \<and> validateMetadata q acc db' = None"
proof (cases "ensureSendStateColumn q db")
  case (Pair e1 d1)
  show thesis
  proof (cases "ensureMessageGapBeforeColumn q d1")
    case inner: (Pair e2 d2)
    show thesis
      using assms Pair inner unfolding migrate_def
      by (intro that [OF Pair, of e2]) (auto split: option.splits)
  qed
qed

definition index_inv :: "index_db \<Rightarrow> bool" where
  "index_inv db \<longleftrightarrow> log_ok db \<and> conversations_ok db \<and> journal_ok db"

lemma index_inv_cong:
  assumes "index_inv db" and "map ms_ID (db_messages db') = map ms_ID (db_messages db)"
    and "map (\<lambda>m. (identity_of m, ms_Sequence m)) (db_messages db') =
      map (\<lambda>m. (identity_of m, ms_Sequence m)) (db_messages db)"
    and "db_last_sequence db' = db_last_sequence db" and "db_fts db' = db_fts db"
    and "db_conversations db' = db_conversations db"
    and "map (\<lambda>r. (sn_idempotency_key r, sn_transaction_id r)) (db_send_results db') =
      map (\<lambda>r. (sn_idempotency_key r, sn_transaction_id r)) (db_send_results db)"
  shows "index_inv db'"
proof -
  have "map identity_of (db_messages db') = map identity_of (db_messages db)"
    and "map ms_Sequence (db_messages db') = map ms_Sequence (db_messages db)"
    and "map sn_idempotency_key (db_send_results db') = map sn_idempotency_key (db_send_results db)"
    and "map sn_transaction_id (db_send_results db') = map sn_transaction_id (db_send_results db)"
    using arg_cong [OF assms(3), of "map fst"] arg_cong [OF assms(3), of "map snd"]
      arg_cong [OF assms(7), of "map fst"] arg_cong [OF assms(7), of "map snd"]
    by (simp_all add: comp_def)
  moreover have "\<forall>m \<in> set (db_messages db'). \<exists>m0 \<in> set (db_messages db).
      ms_Sequence m = ms_Sequence m0 \<and> ms_ConversationID m = ms_ConversationID m0"
  proof
    fix m assume "m \<in> set (db_messages db')"
    then have "(identity_of m, ms_Sequence m) \<in> set (map (\<lambda>m. (identity_of m, ms_Sequence m)) (db_messages db'))"
      by simp
    then show "\<exists>m0 \<in> set (db_messages db). ms_Sequence m = ms_Sequence m0 \<and> ms_ConversationID m = ms_ConversationID m0"
      unfolding assms(3) by (auto simp: identity_of_def)
  qed
  ultimately show ?thesis
    using assms(1,2,4-6) by (fastforce simp: index_inv_def log_ok_def conversations_ok_def journal_ok_def)
qed

lemma migrate_inv: "migrate q acc db = (err, db') \<Longrightarrow> index_inv db \<Longrightarrow> index_inv db'"
proof (erule migrate_shape)
  fix d1 e1 e2
  assume inv: "index_inv db" and e: "ensureSendStateColumn q db = (e1, d1)"
    and d: "db' = d1 \<or> ensureMessageGapBeforeColumn q d1 = (e2, db')"
  from e have d1: "index_inv d1"
  proof (cases rule: ensureSendStateColumn_cases)
    case added
    then show ?thesis by (intro index_inv_cong [OF inv]) (simp_all add: comp_def)
  qed (use inv in simp)
  from d show "index_inv db'"
  proof
    assume "ensureMessageGapBeforeColumn q d1 = (e2, db')"
    then show ?thesis
    proof (cases rule: ensureMessageGapBeforeColumn_cases)
      case added
      then show ?thesis by (intro index_inv_cong [OF d1]) (simp_all add: comp_def identity_of_def)
    qed (use d1 in simp)
  qed (use d1 in simp)
qed

lemma initialize_inv: "initialize q acc adopt db = (err, db') \<Longrightarrow> index_inv db \<Longrightarrow> index_inv db'"
proof (erule initialize_cases)
  assume "index_inv db"
  then have "index_inv (if metadataTableExists db then with_schema db else bind_account acc (with_schema db))"
    by (intro index_inv_cong [OF \<open>index_inv db\<close>]) (simp_all add: bind_account_def)
  then show "migrate q acc (if metadataTableExists db then with_schema db
      else bind_account acc (with_schema db)) = (err, db') \<Longrightarrow> index_inv db'"
    using migrate_inv by blast
qed simp

section \<open>The index as a state machine\<close>

inductive index_step :: "index_db \<Rightarrow> index_db \<Rightarrow> bool" where
  Opened: "initialize q acc adopt db = (err, db') \<Longrightarrow> index_step db db'"
| Upserted: "UpsertConversations q cs db = (r, db') \<Longrightarrow> index_step db db'"
| Ingested: "AddMessages q ms db = (r', db') \<Longrightarrow> index_step db db'"
| ResultSaved: "SaveSendResult q now k t h v db = (r, db') \<Longrightarrow> index_step db db'"
| SendReserved: "ReserveSend q now k t h v db = (r, db') \<Longrightarrow> index_step db db'"
| SendFinalized: "FinalizeSend q k t h v db = (r, db') \<Longrightarrow> index_step db db'"
| ReservationDeleted: "DeleteSendReservation q k t h db = (r, db') \<Longrightarrow> index_step db db'"

lemma UpsertConversations_cases:
  assumes "UpsertConversations q cs db = (r, db')"
  obtains (failed) "isl r" "db' = db" | (committed) "r = Inr ()" "upsert_loop q 0 cs db = Inr db'"
  using assms unfolding UpsertConversations_def commit_tx_def
  by (cases "upsert_loop q 0 cs db") (auto split: option.splits)

lemma AddMessages_cases:
  assumes "AddMessages q ms db = (r, db')"
  obtains (failed) "isl r" "db' = db" | (committed) new where "r = Inr new" "add_loop q 0 ms db [] = Inr (db', new)"
  using assms unfolding AddMessages_def commit_tx_def
  by (cases "add_loop q 0 ms db []") (auto split: option.splits)

lemma journal_only_inv:
  "index_inv db \<Longrightarrow> journal_ok (db\<lparr>db_send_results := rs\<rparr>) \<Longrightarrow> index_inv (db\<lparr>db_send_results := rs\<rparr>)"
  by (simp add: index_inv_def log_ok_def conversations_ok_def)

lemma insert_send_row_inv: "insert_send_row q row db = (r, db') \<Longrightarrow> index_inv db \<Longrightarrow> index_inv db'"
  by (frule insert_send_row_ok, simp add: index_inv_def)
     (erule insert_send_row_cases, auto intro: journal_only_inv)

lemma index_step_inv: "index_inv db \<Longrightarrow> index_step db db' \<Longrightarrow> index_inv db'"
proof (erule index_step.cases)
  fix q cs d r d'
  assume inv: "index_inv db" and eq: "db = d" "db' = d'" and c: "UpsertConversations q cs d = (r, d')"
  from c show "index_inv db'"
  proof (cases rule: UpsertConversations_cases)
    case committed
    from upsert_loop_ok [OF committed(2)] inv eq show ?thesis
      by (auto simp: index_inv_def journal_ok_def intro: log_ok_more_conversations)
  qed (use inv eq in simp)
next
  fix q ms d r' d'
  assume inv: "index_inv db" and eq: "db = d" "db' = d'" and c: "AddMessages q ms d = (r', d')"
  from c show "index_inv db'"
  proof (cases rule: AddMessages_cases)
    case (committed new)
    from add_loop_run [OF committed(2)] inv eq show ?thesis
      by (auto simp: index_inv_def journal_ok_def conversations_ok_def)
  qed (use inv eq in simp)
next
  fix q k t h v d r d'
  assume inv: "index_inv db" and eq: "db = d" "db' = d'" and c: "FinalizeSend q k t h v d = (r, d')"
  have "journal_ok d'" using index_journal.finalize_wf c inv eq by (auto simp: index_inv_def)
  with FinalizeSend_cases [OF c] inv eq show "index_inv db'" by (auto intro: journal_only_inv)
next
  fix q k t h d r d'
  assume inv: "index_inv db" and eq: "db = d" "db' = d'" and c: "DeleteSendReservation q k t h d = (r, d')"
  have "journal_ok d'" using index_journal.release_wf c inv eq by (auto simp: index_inv_def)
  with DeleteSendReservation_cases [OF c] inv eq show "index_inv db'" by (auto intro: journal_only_inv)
qed (auto simp: SaveSendResult_def ReserveSend_def intro: initialize_inv insert_send_row_inv)

lemma empty_db_inv: "index_inv empty_db"
  by (simp add: index_inv_def log_ok_def conversations_ok_def journal_ok_def empty_db_def)

interpretation message_index: invariant_system "\<lambda>db. db = empty_db" index_step index_inv
  by unfold_locales (auto simp: empty_db_inv intro: index_step_inv)

section \<open>Pages of the log\<close>

lemma sorted_wrt_less_distinct: "sorted_wrt (<) (xs :: int list) \<Longrightarrow> distinct xs"
  by (simp add: strict_sorted_iff)

lemma sorted_filter_sequence:
  "sorted_wrt (<) (map ms_Sequence xs) \<Longrightarrow> sorted_wrt (<) (map ms_Sequence (filter P xs))"
  by (induction xs) auto

lemma log_rows:
  assumes "log_ok db"
  shows "sort_key ms_Sequence (filter P (db_messages db)) = filter P (db_messages db)"
    and "sorted_wrt (<) (map ms_Sequence (filter P (db_messages db)))"
proof -
  show s: "sorted_wrt (<) (map ms_Sequence (filter P (db_messages db)))"
    using assms by (auto simp: log_ok_def intro: sorted_filter_sequence)
  then have "sorted (map ms_Sequence (filter P (db_messages db)))" by (simp add: strict_sorted_iff)
  then show "sort_key ms_Sequence (filter P (db_messages db)) = filter P (db_messages db)"
    by (rule sort_key_id_if_sorted)
qed

lemma scan_sequence [simp]: "ms_Sequence (scanMessage v m) = ms_Sequence m"
  by (simp add: scanMessage_def)

lemma scan_sequence_comp [simp]: "ms_Sequence \<circ> scanMessage v = ms_Sequence"
  by (simp add: fun_eq_iff)

lemma sorted_wrt_take_drop:
  assumes "sorted_wrt (<) (map f (rows :: 'a list) :: int list)"
  shows "sorted_wrt (<) (map f (take n rows))" and "sorted_wrt (<) (map f (drop n rows))"
    and "x \<in> set (take n rows) \<Longrightarrow> y \<in> set (drop n rows) \<Longrightarrow> f x < f y"
proof -
  have "sorted_wrt (<) (map f (take n rows) @ map f (drop n rows))"
    using assms by (metis append_take_drop_id map_append)
  then show "sorted_wrt (<) (map f (take n rows))" "sorted_wrt (<) (map f (drop n rows))"
    "x \<in> set (take n rows) \<Longrightarrow> y \<in> set (drop n rows) \<Longrightarrow> f x < f y"
    by (auto simp: sorted_wrt_append)
qed

lemma in_take_or_drop: "x \<in> set xs \<Longrightarrow> x \<notin> set (take n xs) \<Longrightarrow> x \<in> set (drop n xs)"
  by (metis Un_iff append_take_drop_id set_append)

section \<open>Ownership\<close>

lemma validateMetadata_owner:
  "validateMetadata q acc db = None \<Longrightarrow> db_metadata db = [(1, 1, acc)]"
proof -
  assume v: "validateMetadata q acc db = None"
  then have "length (db_metadata db) = 1" by (auto simp: validateMetadata_def split: option.splits if_splits)
  then obtain a b c where row: "db_metadata db = [(a, b, c)]" by (auto simp: length_Suc_conv)
  with v show ?thesis
    by (auto simp: validateMetadata_def indexSchemaVersion_def split: option.splits if_splits)
qed

lemma validateMetadata_other:
  "db_metadata db = [(1, 1, acc)] \<Longrightarrow> other \<noteq> acc \<Longrightarrow> validateMetadata q other db \<noteq> None"
  by (simp add: validateMetadata_def indexSchemaVersion_def split: option.splits)

lemma check_objects_unknown:
  "(ty, name) \<in> set rows \<Longrightarrow> map_of legacy_objects name = None \<Longrightarrow> isl (check_objects seen rows)"
  by (induction seen rows rule: check_objects.induct) auto

lemma metadata_not_sqlite: "\<not> like None ''sqlite_%'' ''wechatcopilot_metadata''"
  by code_simp

lemma metadata_not_legacy: "map_of legacy_objects ''wechatcopilot_metadata'' = None"
  by code_simp

lemma legacy_check_fails:
  assumes "has_object ''wechatcopilot_metadata'' db"
  shows "validateLegacySchema q db \<noteq> None" and "hasApplicationSchema db"
proof -
  obtain ty where o: "(ty, ''wechatcopilot_metadata'') \<in> set (db_objects db)"
    using assms by (auto simp: has_object_def)
  then have a: "(ty, ''wechatcopilot_metadata'') \<in> set (application_objects db)"
    using metadata_not_sqlite by (simp add: application_objects_def)
  then show "hasApplicationSchema db" by (auto simp: hasApplicationSchema_def)
  have "isl (check_objects [] (sort (application_objects db)))"
    using a metadata_not_legacy by (intro check_objects_unknown) simp_all
  then have "validateLegacyObjectSet q db \<noteq> None"
    by (auto simp: validateLegacyObjectSet_def split: option.splits sum.splits)
  then show "validateLegacySchema q db \<noteq> None"
    by (auto simp: validateLegacySchema_def)
qed

lemma errors_Join_Some: "errors_Join [Some a, Some b] \<noteq> None"
  by (simp add: errors_Join_def)

lemma ownership_check_other:
  assumes "db_metadata db = [(1, 1, acc)]" and "other \<noteq> acc" and "has_object ''wechatcopilot_metadata'' db"
  shows "ownership_check q other adopt db \<noteq> None"
proof (cases "metadataTableExists db")
  case True
  then show ?thesis using validateMetadata_other [OF assms(1,2)]
    by (simp add: ownership_check_def split: option.splits)
next
  case False
  obtain e where "validateLegacySchema q db = Some e" using legacy_check_fails(1) [OF assms(3)] by blast
  with False legacy_check_fails(2) [OF assms(3)] show ?thesis
    using errors_Join_Some by (simp add: ownership_check_def split: option.splits)
qed

lemma initialize_other:
  assumes "db_metadata db = [(1, 1, acc)]" and "other \<noteq> acc" and "has_object ''wechatcopilot_metadata'' db"
  shows "fst (initialize q other adopt db) \<noteq> None \<and> snd (initialize q other adopt db) = db"
proof (cases "ownership_check q other adopt db")
  case None
  then show ?thesis using ownership_check_other [OF assms] by blast
next
  case (Some e)
  then show ?thesis by (simp add: initialize_def split: option.splits)
qed

lemma ensure_objects:
  "ensureSendStateColumn q db = (e, d) \<Longrightarrow> db_objects d = db_objects db \<and> db_metadata d = db_metadata db"
  "ensureMessageGapBeforeColumn q db = (e, d) \<Longrightarrow> db_objects d = db_objects db \<and> db_metadata d = db_metadata db"
  by (auto elim!: ensureSendStateColumn_cases ensureMessageGapBeforeColumn_cases)

lemma initialize_success:
  assumes "initialize q acc adopt db = (None, db')"
  shows "db_metadata db' = [(1, 1, acc)] \<and> has_object ''wechatcopilot_metadata'' db' \<and>
    validateInitializedSchema q db' = None"
  using assms
proof (cases rule: initialize_cases)
  case migrated
  let ?d = "if metadataTableExists db then with_schema db else bind_account acc (with_schema db)"
  from migrated(2) obtain d1 where s: "ensureSendStateColumn q ?d = (None, d1)"
    "ensureMessageGapBeforeColumn q d1 = (None, db')" "validateInitializedSchema q db' = None"
    "validateMetadata q acc db' = None"
    by (rule migrate_shape) auto
  have "db_objects db' = db_objects (with_schema db)"
    using ensure_objects(1) [OF s(1)] ensure_objects(2) [OF s(2)] by (simp add: bind_account_def split: if_splits)
  then have "has_object ''wechatcopilot_metadata'' db'"
    using with_schema_objects [of db] by (simp add: has_object_def)
  with s validateMetadata_owner show ?thesis by blast
qed simp

section \<open>Properties\<close>

text \<open>The search pattern is matched literally: a title, text or sender name without NUL matches exactly
  when it contains the searched string as a contiguous part, up to the case of ASCII letters, whatever
  wildcard or escape characters the string contains.\<close>

theorem like_pattern_literal:
  assumes "CHR 0x00 \<notin> set search" and "CHR 0x00 \<notin> set text"
  shows "like (Some backslash) (like_pattern search) text \<longleftrightarrow>
     (\<exists>pre mid post. text = pre @ mid @ post \<and> fold_case mid = fold_case search)"
proof -
  have "c_string text = text" using assms(2) by (auto simp: c_string_def takeWhile_eq_all_conv)
  with like_literal [OF assms(1)] show ?thesis by simp
qed

text \<open>C25. Starting from an empty database, after any sequence of opens, ingestions and journal operations
  and whatever statements SQLite refuses, message and conversation identities stay unique, messages
  refer to known conversations, sequence numbers strictly increase, every message has its
  full-text row, and the send journal has one row per key and per transaction.\<close>

theorem message_index_reachable:
  assumes "index_step\<^sup>*\<^sup>* empty_db db"
  shows "log_ok db \<and> conversations_ok db \<and> journal_ok db"
  using message_index.reachable_inv [OF refl assms] by (simp add: index_inv_def)

theorem message_index_reachable_witness:
  "index_step\<^sup>*\<^sup>* empty_db (snd (initialize no_faults ''a'' False empty_db)) \<and>
     log_ok (snd (initialize no_faults ''a'' False empty_db))"
proof -
  have s: "index_step\<^sup>*\<^sup>* empty_db (snd (initialize no_faults ''a'' False empty_db))"
    by (rule r_into_rtranclp, rule Opened) (rule prod.collapse [symmetric])
  then show ?thesis using message_index_reachable [OF s] by simp
qed

text \<open>Ingestion appends: the stored rows stay in place and unchanged except that a gap mark may be
  added, the returned messages are the new rows in order, all with larger sequence numbers than
  every earlier row; an ingestion that fails changes nothing.\<close>

theorem AddMessages_appends:
  assumes "AddMessages q ms db = (r, db')" and "log_ok db"
  shows "(case r of
      Inl e \<Rightarrow> db' = db
    | Inr new \<Rightarrow> log_extends db db' new \<and>
        (\<forall>row \<in> set (db_messages db). \<forall>m \<in> set new. ms_Sequence row < ms_Sequence m))"
  using assms(1)
proof (cases rule: AddMessages_cases)
  case failed
  then show ?thesis by (auto simp: isl_def)
next
  case (committed new)
  from add_loop_run [OF committed(2) assms(2)] have ok: "log_ok db'" and ext: "log_extends db db' new" by auto
  obtain old' new' where rows: "db_messages db' = old' @ new'" "list_all2 keeps_row (db_messages db) old'"
    "list_all2 keeps_row new new'" using ext by (auto simp: log_extends_def)
  have seq: "list_all2 keeps_row xs ys \<Longrightarrow> map ms_Sequence xs = map ms_Sequence ys" for xs ys
    by (induction xs ys rule: list_all2_induct) (auto simp: keeps_row_def)
  have "sorted_wrt (<) (map ms_Sequence (db_messages db) @ map ms_Sequence new)"
    using ok rows(1) seq [OF rows(2)] seq [OF rows(3)] by (simp add: log_ok_def)
  then show ?thesis using committed(1) ext by (auto simp: sorted_wrt_append)
qed

definition demo_message :: "string \<Rightarrow> Message" where
  "demo_message i = \<lparr>ms_ID = i, ms_ExternalID = ''x'' @ i, ms_ConversationID = ''c'', ms_GapBefore = True,
     ms_SenderID = [], ms_SenderName = [], ms_SentAt = 1, ms_Kind = ''text'', ms_Text = ''hello'',
     ms_Attachments = [], ms_ReplyTo = [], ms_SurfaceRef = [], ms_Source = ''ui'', ms_Complete = True,
     ms_Confidence = 1, ms_Raw = [], ms_Sequence = 0\<rparr>"

definition demo_db :: index_db where
  "demo_db = empty_db\<lparr>db_conversations := [\<lparr>cv_ID = ''c'', cv_ExternalID = ''xc'', cv_Title = ''T'',
     cv_Kind = ''direct'', cv_UnreadCount = 0, cv_LastMessageAt = 0, cv_Complete = True, cv_Source = ''ui''\<rparr>]\<rparr>"

definition demo_log :: index_db where
  "demo_log = snd (AddMessages no_faults [demo_message ''1'', demo_message ''2''] demo_db)"

lemma demo_db_ok: "log_ok demo_db"
  by (simp add: log_ok_def demo_db_def empty_db_def)

lemma demo_added:
  "\<exists>new. AddMessages no_faults [demo_message ''1'', demo_message ''2''] demo_db = (Inr new, demo_log)"
proof -
  have "\<not> isl (fst (AddMessages no_faults [demo_message ''1'', demo_message ''2''] demo_db))" by code_simp
  then show ?thesis unfolding demo_log_def by (metis isl_def prod.collapse sum.exhaust)
qed

lemma demo_log_ok: "log_ok demo_log"
proof -
  obtain new where "AddMessages no_faults [demo_message ''1'', demo_message ''2''] demo_db = (Inr new, demo_log)"
    using demo_added by blast
  then show ?thesis
  proof (cases rule: AddMessages_cases)
    case (committed new')
    from add_loop_run [OF committed(2) demo_db_ok] show ?thesis by (rule conjunct1)
  qed simp
qed

theorem AddMessages_appends_witness:
  "\<exists>new. AddMessages no_faults [demo_message ''1'', demo_message ''2''] demo_db = (Inr new, demo_log) \<and>
     log_extends demo_db demo_log new"
proof -
  obtain new where a: "AddMessages no_faults [demo_message ''1'', demo_message ''2''] demo_db = (Inr new, demo_log)"
    using demo_added by blast
  from AddMessages_appends [OF a demo_db_ok] a show ?thesis by auto
qed

text \<open>C26. Ingestion is idempotent up to the counter: offering a batch a second time, as the polling loop
  does after a crash before its cursor advanced, succeeds, reports no new message and leaves every row of
  the database as it is, gap marks included. Only the \<^verbatim>\<open>AUTOINCREMENT\<close> counter moves: it grows by the
  size of the batch, so the next new message leaves a hole of that size in the sequence.\<close>

theorem AddMessages_idempotent:
  assumes "AddMessages q ms db = (Inr new, db')"
  shows "AddMessages no_faults ms db' = (Inr [], db'\<lparr>db_last_sequence := db_last_sequence db' + int (length ms)\<rparr>)"
  using assms
proof (cases rule: AddMessages_cases)
  case (committed new')
  have "add_loop no_faults 0 ms db' [] = Inr (db'\<lparr>db_last_sequence := db_last_sequence db' + int (length ms)\<rparr>, [])"
    using add_loop_absorbs [OF committed(2)] by (intro add_loop_absorbed) blast
  then show ?thesis
    by (simp add: AddMessages_def commit_tx_def no_faults_None [of SiteBegin] no_faults_None [of SiteCommit])
qed simp

theorem AddMessages_idempotent_witness:
  "fst (AddMessages no_faults [demo_message ''1'', demo_message ''2''] demo_log) = Inr [] \<and>
     db_messages (snd (AddMessages no_faults [demo_message ''1'', demo_message ''2''] demo_log)) = db_messages demo_log \<and>
     db_last_sequence (snd (AddMessages no_faults [demo_message ''1'', demo_message ''2''] demo_log)) = 4"
proof -
  have "db_last_sequence demo_log = 2" by code_simp
  moreover obtain new where "AddMessages no_faults [demo_message ''1'', demo_message ''2''] demo_db = (Inr new, demo_log)"
    using demo_added by blast
  ultimately show ?thesis using AddMessages_idempotent by simp
qed

text \<open>C27. A page of messages is strictly increasing in sequence, at most the clamped limit long, made of
  matching rows only, and skips nothing: a matching row is absent only when the page is full and
  the row lies after it, or before it when the latest page was asked for.\<close>

theorem ListMessages_page:
  assumes "log_ok db" and "ListMessages q valid_json query db = Inr page"
  shows "sorted_wrt (<) (map ms_Sequence page) \<and> length page \<le> clamp_limit 1000 (mq_Limit query) \<and>
    set page \<subseteq> scanMessage valid_json ` {m \<in> set (db_messages db). message_matches query m} \<and>
    (\<forall>m \<in> set (db_messages db). message_matches query m \<longrightarrow> scanMessage valid_json m \<notin> set page \<longrightarrow>
       length page = clamp_limit 1000 (mq_Limit query) \<and>
       (\<forall>r \<in> set page. if mq_Latest query then ms_Sequence m < ms_Sequence r
          else ms_Sequence r < ms_Sequence m))"
proof -
  define rows where "rows = filter (message_matches query) (db_messages db)"
  define n where "n = clamp_limit 1000 (mq_Limit query)"
  have sorted: "sorted_wrt (<) (map ms_Sequence rows)"
    using log_rows(2) [OF assms(1)] by (simp add: rows_def)
  have page: "page = map (scanMessage valid_json) (if mq_Latest query then newest n rows else take n rows)"
    using assms(2) log_rows(1) [OF assms(1)]
    by (auto simp: ListMessages_def rows_def n_def Let_def split: option.splits)
  note s = sorted_wrt_take_drop [OF sorted]
  show ?thesis
  proof (cases "mq_Latest query")
    case True
    then have p: "page = map (scanMessage valid_json) (drop (length rows - n) rows)"
      using page by (simp add: newest_def)
    have "length page = n \<and> (\<forall>r \<in> set page. ms_Sequence m < ms_Sequence r)"
      if "m \<in> set rows" "scanMessage valid_json m \<notin> set page" for m
    proof -
      have "m \<notin> set (drop (length rows - n) rows)" using that(2) p by auto
      then have t: "m \<in> set (take (length rows - n) rows)" using that(1) in_take_or_drop by fast
      then have "n \<le> length rows" by (cases "n \<le> length rows") auto
      then show ?thesis using p s(3) [OF t] by auto
    qed
    moreover have "set page \<subseteq> scanMessage valid_json ` set rows" using p by (auto dest: in_set_dropD)
    ultimately show ?thesis using True p s(2) by (auto simp: rows_def n_def)
  next
    case False
    then have p: "page = map (scanMessage valid_json) (take n rows)" using page by simp
    have "length page = n \<and> (\<forall>r \<in> set page. ms_Sequence r < ms_Sequence m)"
      if "m \<in> set rows" "scanMessage valid_json m \<notin> set page" for m
    proof -
      have "m \<notin> set (take n rows)" using that(2) p by auto
      then have t: "m \<in> set (drop n rows)" using that(1) in_take_or_drop by fast
      then have "n \<le> length rows" by (cases "n \<le> length rows") auto
      then show ?thesis using p s(3) [OF _ t] by auto
    qed
    moreover have "set page \<subseteq> scanMessage valid_json ` set rows" using p by (auto dest: in_set_takeD)
    ultimately show ?thesis using False p s(1) by (auto simp: rows_def n_def)
  qed
qed

definition demo_query :: MessageQuery where
  "demo_query = \<lparr>mq_ConversationID = [], mq_AfterSequence = 0, mq_Before = 0, mq_Limit = 1, mq_Latest = False\<rparr>"

theorem ListMessages_page_witness:
  "\<exists>page. ListMessages no_faults (\<lambda>_. False) demo_query demo_log = Inr page \<and> length page \<le> 1"
proof -
  obtain page where p: "ListMessages no_faults (\<lambda>_. False) demo_query demo_log = Inr page"
    by (auto simp: ListMessages_def no_faults_def Let_def)
  moreover have "clamp_limit 1000 (mq_Limit demo_query) = 1" by code_simp
  ultimately show ?thesis using ListMessages_page [OF demo_log_ok p] by auto
qed

text \<open>C28. A database that was opened for an account belongs to it: its metadata names the account, and
  opening it for any other account, ordinarily or as a legacy adoption, fails without changing it.\<close>

theorem initialize_binds_owner:
  assumes "initialize q acc adopt db = (None, db')" and "other \<noteq> acc"
  shows "db_metadata db' = [(1, 1, acc)] \<and>
    fst (initialize q' other adopt' db') \<noteq> None \<and> snd (initialize q' other adopt' db') = db'"
  using initialize_success [OF assms(1)] initialize_other [OF _ assms(2)] by blast

theorem initialize_binds_owner_witness:
  "fst (initialize no_faults ''b'' False (snd (initialize no_faults ''a'' False empty_db))) \<noteq> None"
proof -
  have "fst (initialize no_faults ''a'' False empty_db) = None" by code_simp
  then have "initialize no_faults ''a'' False empty_db = (None, snd (initialize no_faults ''a'' False empty_db))"
    by (metis prod.collapse)
  from initialize_binds_owner [OF this, of "''b''" no_faults False] show ?thesis by simp
qed

text \<open>A terminal row of the send journal is final: neither a finalization nor a deletion, with any
  arguments and any failures, removes or alters it.\<close>

theorem terminal_send_final:
  assumes "row \<in> set (db_send_results db)" and "sn_state row = Terminal"
    and "FinalizeSend q k t h v db = (r, db')" and "DeleteSendReservation q k t h db = (r', db'')"
  shows "row \<in> set (db_send_results db') \<and> row \<in> set (db_send_results db'')"
  using index_journal.terminal_final [OF assms(1,2)] assms(3,4) by blast

definition demo_send_row :: send_row where
  "demo_send_row = \<lparr>sn_idempotency_key = ''k'', sn_transaction_id = ''t'', sn_request_hash = ''h'',
     sn_state = Terminal, sn_result_json = zero_SendResult, sn_created_at = 1\<rparr>"

theorem terminal_send_final_witness:
  "\<exists>db' r. FinalizeSend no_faults ''k'' ''t'' ''h'' zero_SendResult (empty_db\<lparr>db_send_results := [demo_send_row]\<rparr>) =
     (r, db') \<and> demo_send_row \<in> set (db_send_results db')"
proof -
  let ?db = "empty_db\<lparr>db_send_results := [demo_send_row]\<rparr>"
  obtain r db' r' db'' where
    "FinalizeSend no_faults ''k'' ''t'' ''h'' zero_SendResult ?db = (r, db')"
    "DeleteSendReservation no_faults ''k'' ''t'' ''h'' ?db = (r', db'')" by fastforce
  then show ?thesis using terminal_send_final [of demo_send_row ?db] by (auto simp: demo_send_row_def)
qed

section \<open>Two divergences\<close>

text \<open>
  \<^verbatim>\<open>validateLegacySchema\<close> recognizes a journal without the \<^verbatim>\<open>state\<close> column, but the migration
  appends that column at the end, while \<^verbatim>\<open>validateInitializedSchema\<close> expects it in fourth place: an
  index with that layout can never be opened or adopted.
\<close>

lemma legacy_column_order: "legacy_send_results_columns @ [''state''] \<noteq> send_results_columns"
  by (simp add: legacy_send_results_columns_def send_results_columns_def)

lemma legacy_has_no_state: "''state'' \<notin> set legacy_send_results_columns"
  by (simp add: legacy_send_results_columns_def)

lemma validateTableColumns_None:
  "validateTableColumns q table expected db = None \<Longrightarrow> db_columns db table = expected"
  unfolding validateTableColumns_def tableColumns_def
  by (auto split: sum.splits if_splits option.splits intro!: nth_equalityI)

lemma validateInitializedSchema_send:
  "validateInitializedSchema q db = None \<Longrightarrow> db_columns db ''send_results'' = send_results_columns"
  unfolding validateInitializedSchema_def by (auto split: option.splits dest: validateTableColumns_None)

lemma gap_column_frame:
  "ensureMessageGapBeforeColumn q db = (e, d) \<Longrightarrow> db_columns d ''send_results'' = db_columns db ''send_results''"
  by (erule ensureMessageGapBeforeColumn_cases) simp_all

text \<open>An index whose journal has the legacy columns, without \<^verbatim>\<open>state\<close>, is refused by every open,
  ordinary or adopting, for every account.\<close>

theorem legacy_journal_unopenable:
  assumes "db_columns db ''send_results'' = legacy_send_results_columns" and "has_object ''send_results'' db"
  shows "fst (initialize q acc adopt db) \<noteq> None"
proof
  assume "fst (initialize q acc adopt db) = None"
  then obtain db' where "initialize q acc adopt db = (None, db')" by (metis prod.collapse)
  then show False
  proof (cases rule: initialize_cases)
    case migrated
    let ?d = "if metadataTableExists db then with_schema db else bind_account acc (with_schema db)"
    have cols: "db_columns ?d ''send_results'' = legacy_send_results_columns"
      using with_schema_send_columns [OF assms(2)] assms(1) by (simp add: bind_account_def)
    from migrated(2) obtain d1 where s: "ensureSendStateColumn q ?d = (None, d1)"
      "ensureMessageGapBeforeColumn q d1 = (None, db')" "validateInitializedSchema q db' = None"
      by (rule migrate_shape) auto
    from s(1) have "db_columns d1 ''send_results'' = legacy_send_results_columns @ [''state'']"
    proof (cases rule: ensureSendStateColumn_cases)
      case same
      then show ?thesis using legacy_has_no_state unfolding cols by blast
    next
      case added
      then show ?thesis unfolding cols by simp
    qed
    then show False
      using validateInitializedSchema_send [OF s(3)] gap_column_frame [OF s(2)] legacy_column_order by simp
  qed simp
qed

theorem legacy_journal_unopenable_witness:
  "fst (initialize no_faults ''a'' True (empty_db\<lparr>db_objects := [(''table'', ''send_results'')],
     db_columns := (\<lambda>_. legacy_send_results_columns)\<rparr>)) \<noteq> None"
  by (rule legacy_journal_unopenable) (simp_all add: has_object_def)

text \<open>
  Times are stored and compared in a text form whose fraction has variable length, and
  \<^verbatim>\<open>.\<close> sorts before \<^verbatim>\<open>Z\<close>: a message sent half a second after the cutoff is listed as sent before it.
\<close>

lemma civil_epoch: "civil 0 = (1, 1, 1)"
  by code_simp

lemma format_half: "FormatRFC3339Nano 1500000000 = ''0001-01-01T00:00:01.5Z''"
  by (simp add: format_simps civil_epoch)

lemma format_whole: "FormatRFC3339Nano 1000000000 = ''0001-01-01T00:00:01Z''"
  by (simp add: format_simps civil_epoch)

lemma half_before_whole: "''0001-01-01T00:00:01.5Z'' < ''0001-01-01T00:00:01Z''"
  by code_simp

text \<open>The cutoff of a message query compares texts: the filter accepts a message sent half a second after a
  cutoff at a whole second.\<close>

theorem before_cutoff_by_text:
  "\<exists>query m. mq_Before query \<noteq> 0 \<and> mq_Before query < ms_SentAt m \<and> message_matches query m"
proof -
  let ?query = "demo_query\<lparr>mq_Before := 1000000000\<rparr>"
  let ?m = "(demo_message ''1'')\<lparr>ms_SentAt := 1500000000, ms_Sequence := 1\<rparr>"
  have t: "ms_SentAt ?m = 1500000000" "mq_Before ?query = 1000000000" by simp_all
  have "FormatRFC3339Nano (ms_SentAt ?m) < FormatRFC3339Nano (mq_Before ?query)"
    unfolding t format_half format_whole by (rule half_before_whole)
  moreover have "ms_Sequence ?m > mq_AfterSequence ?query" "mq_ConversationID ?query = []"
    by (simp_all add: demo_query_def)
  ultimately have "message_matches ?query ?m" unfolding message_matches_def by blast
  moreover have "mq_Before ?query \<noteq> 0 \<and> mq_Before ?query < ms_SentAt ?m" unfolding t by simp
  ultimately show ?thesis by blast
qed

end
