(* ===== verification/Runtime_Manager.thy ===== *)
theory Runtime_Manager
  imports Account_Props Index_Props
begin

text \<open>
  The runtime manager of \<^verbatim>\<open>internal/runtime/manager.go\<close>: one slot per platform for the driver of
  the active account, the ingestion loop of each running driver, and the lifecycle operations.

  Runtimes are objects that several goroutines share, so they live in a heap and the slots hold
  their addresses. A platform's operation lock makes the part of an operation after the lock one
  step; what other operations did while it waited is the argument \<open>wait\<close>. What drivers, the
  operating system and the clock answer is the argument \<open>env\<close>. A background repair started by
  \<^verbatim>\<open>restartIngestAfterExit\<close> is an entry of \<open>m_repairs\<close> until it runs.
\<close>

section \<open>State\<close>

record activeRuntime =
  rt_account :: Account
  rt_ingesting :: bool
  rt_done :: nat
  rt_stopping :: bool
  rt_cursor :: int

record Manager =
  m_accounts :: Store
  m_factories :: "platform \<Rightarrow> bool"
  m_heap :: "nat \<Rightarrow> activeRuntime"
  m_active :: "platform \<Rightarrow> nat option"
  m_closed :: bool
  m_repairs :: "(nat \<times> nat) list"
  m_indexes :: "string \<Rightarrow> index_db"
  m_next :: nat

record runtime_env =
  re_now :: time
  re_lock :: "go_error option"
  re_drain :: "go_error option"
  re_ingestMu :: "go_error option"
  re_Stop :: "go_error option"
  re_MkdirAll :: "go_error option"
  re_factory :: "go_error option"
  re_Start :: "go_error option"
  re_Status :: "Status result"
  re_ListConversations :: "Conversation list result"
  re_ReadMessages :: "int \<Rightarrow> Message list result"
  re_Purge :: "go_error option"
  re_purger :: bool
  re_open :: faults
  re_sql :: faults
  re_store :: "nat \<Rightarrow> store_env"

definition set_runtime :: "nat \<Rightarrow> (activeRuntime \<Rightarrow> activeRuntime) \<Rightarrow> Manager \<Rightarrow> Manager" where
  "set_runtime rid f m = m\<lparr>m_heap := (m_heap m)(rid := f (m_heap m rid))\<rparr>"

definition set_slot :: "platform \<Rightarrow> nat option \<Rightarrow> Manager \<Rightarrow> Manager" where
  "set_slot p v m = m\<lparr>m_active := (m_active m)(p := v)\<rparr>"

definition NewManager :: "Store \<Rightarrow> (string \<Rightarrow> index_db) \<Rightarrow> Manager" where
  "NewManager accounts indexes =
     \<lparr>m_accounts = accounts, m_factories = (\<lambda>_. False), m_heap = (\<lambda>_. undefined),
      m_active = (\<lambda>_. None), m_closed = False, m_repairs = [], m_indexes = indexes, m_next = 0\<rparr>"

definition Register :: "platform \<Rightarrow> Manager \<Rightarrow> Manager" where
  "Register p m = m\<lparr>m_factories := (m_factories m)(p := True)\<rparr>"

text \<open>A call whose error the code discards: only its effect on the registry remains.\<close>

definition discard :: "(Store \<Rightarrow> 'a result \<times> Store) \<Rightarrow> Manager \<Rightarrow> Manager" where
  "discard call m = m\<lparr>m_accounts := snd (call (m_accounts m))\<rparr>"

definition degraded :: "time \<Rightarrow> go_error \<Rightarrow> Status" where
  "degraded now e = \<lparr>st_State = StateDegraded, st_Identity = None, st_Reason = Error e,
     st_ClientVersion = [], st_Capabilities = None, st_ObservedAt = now\<rparr>"

section \<open>Ingestion loops\<close>

definition startIngest :: "nat \<Rightarrow> Manager \<Rightarrow> Manager" where
  "startIngest rid m =
     (set_runtime rid (\<lambda>rt. rt\<lparr>rt_ingesting := True, rt_done := m_next m\<rparr>) m)\<lparr>m_next := m_next m + 1\<rparr>"

definition restartIngestAfterExit :: "nat \<Rightarrow> nat \<Rightarrow> Manager \<Rightarrow> Manager" where
  "restartIngestAfterExit rid done m = m\<lparr>m_repairs := m_repairs m @ [(rid, done)]\<rparr>"

text \<open>The body of that goroutine once the old loop has exited and the platform lock is held.\<close>

definition run_repair :: "nat \<times> nat \<Rightarrow> Manager \<Rightarrow> Manager" where
  "run_repair job m =
     (let rid = fst job; done = snd job; runtime = m_heap m rid;
          m0 = m\<lparr>m_repairs := remove1 job (m_repairs m)\<rparr>
      in case Resolve (acc_ID (rt_account runtime)) (m_accounts m) of
          Inl e \<Rightarrow> m0
        | Inr current \<Rightarrow>
            if \<not> acc_Active current \<or> acc_Deleting current then m0
            else if m_closed m \<or> m_active m (acc_Platform (rt_account runtime)) \<noteq> Some rid \<or>
                    rt_done runtime \<noteq> done
            then m0 else startIngest rid m0)"

definition stopRuntime :: "runtime_env \<Rightarrow> nat \<Rightarrow> bool \<Rightarrow> Manager \<Rightarrow> go_error option \<times> Manager" where
  "stopRuntime env rid restartOnFailure m =
     (let done = rt_done (m_heap m rid);
          m1 = set_runtime rid (rt_ingesting_update (\<lambda>_. False)) m;
          give_up = (\<lambda>e. (Some e, if restartOnFailure then restartIngestAfterExit rid done m1 else m1))
      in case re_drain env of
          Some e \<Rightarrow> give_up e
        | None \<Rightarrow>
            (case re_ingestMu env of
               Some e \<Rightarrow> give_up e
             | None \<Rightarrow>
                 (case re_Stop env of
                    None \<Rightarrow> (None, set_runtime rid (rt_stopping_update (\<lambda>_. True)) m1)
                  | Some e \<Rightarrow>
                      if restartOnFailure
                      then (Some e, startIngest rid (set_runtime rid (rt_stopping_update (\<lambda>_. False)) m1))
                      else (Some e, set_runtime rid (rt_stopping_update (\<lambda>_. True)) m1))))"

definition OpenIndex :: "runtime_env \<Rightarrow> Account \<Rightarrow> Manager \<Rightarrow> index_db result \<times> Manager" where
  "OpenIndex env item m =
     (if acc_Deleting item then (Inl (ErrSentinel AccountErrDeleting), m)
      else if \<not> valid_index_account (acc_ID item)
      then (Inl (ErrNew ''message index account ID is invalid''), m)
      else case initialize (re_open env) (acc_ID item) False (m_indexes m (acc_ID item)) of
          (err, db) \<Rightarrow>
            let m' = m\<lparr>m_indexes := (m_indexes m)(acc_ID item := db)\<rparr>
            in case err of Some e \<Rightarrow> (Inl e, m') | None \<Rightarrow> (Inr db, m'))"

definition put_index :: "Account \<Rightarrow> index_db \<Rightarrow> Manager \<Rightarrow> Manager" where
  "put_index item db m = m\<lparr>m_indexes := (m_indexes m)(acc_ID item := db)\<rparr>"

definition max_cursor :: "int \<Rightarrow> Message list \<Rightarrow> int" where
  "max_cursor cursor messages =
     foldl (\<lambda>c message. if ms_Sequence message > c then ms_Sequence message else c) cursor messages"

definition ingestOnce :: "runtime_env \<Rightarrow> nat \<Rightarrow> Manager \<Rightarrow> go_error option \<times> Manager" where
  "ingestOnce env rid m =
     (let runtime = m_heap m rid; item = rt_account runtime
      in if rt_stopping runtime then (Some (ErrNew ''account runtime is stopping''), m)
         else case re_ListConversations env of
             Inl e \<Rightarrow> (Some e, m)
           | Inr conversations \<Rightarrow>
               (case OpenIndex env item m of
                  (Inl e, m1) \<Rightarrow> (Some e, m1)
                | (Inr db, m1) \<Rightarrow>
                    (case UpsertConversations (re_sql env) conversations db of
                       (Inl e, db1) \<Rightarrow> (Some e, put_index item db1 m1)
                     | (Inr _, db1) \<Rightarrow>
                         (case re_ReadMessages env (rt_cursor runtime) of
                            Inl e \<Rightarrow> (Some e, put_index item db1 m1)
                          | Inr messages \<Rightarrow>
                              (case AddMessages (re_sql env) messages db1 of
                                 (Inl e, db2) \<Rightarrow> (Some e, put_index item db2 m1)
                               | (Inr _, db2) \<Rightarrow>
                                   (None, set_runtime rid
                                      (rt_cursor_update (\<lambda>_. max_cursor (rt_cursor runtime) messages))
                                      (put_index item db2 m1)))))))"

section \<open>Lifecycle\<close>

definition recordActivationFailure ::
  "runtime_env \<Rightarrow> string \<Rightarrow> go_error \<Rightarrow> bool \<Rightarrow> Manager \<Rightarrow> Manager"
where
  "recordActivationFailure env accountID failure restoring m =
     (let m1 = discard (UpdateStatus (re_store env 1) accountID (degraded (re_now env) failure)) m
      in if restoring then m1 else discard (Deactivate (re_store env 2) accountID) m1)"

text \<open>The slot of the account itself is already running.\<close>

definition already_active :: "runtime_env \<Rightarrow> bool \<Rightarrow> nat \<Rightarrow> Manager \<Rightarrow> Account result \<times> Manager" where
  "already_active env restoring rid m =
     (let previous = rt_account (m_heap m rid)
      in if \<not> restoring then (Inr previous, m)
         else case re_Status env of
             Inl e \<Rightarrow>
               (Inl e, discard (UpdateStatus (re_store env 1) (acc_ID previous) (degraded (re_now env) e)) m)
           | Inr status \<Rightarrow>
               let m1 = discard (UpdateStatus (re_store env 1) (acc_ID previous) status) m
               in (Resolve (acc_ID previous) (m_accounts m1), m1))"

text \<open>From the durable activation to the started ingestion loop; the platform's slot is empty.\<close>

definition launch :: "runtime_env \<Rightarrow> string \<Rightarrow> bool \<Rightarrow> Manager \<Rightarrow> Account result \<times> Manager" where
  "launch env targetID restoring m =
     (case Activate (re_store env 0) targetID (m_accounts m) of
        (Inl e, s) \<Rightarrow> (Inl e, m\<lparr>m_accounts := s\<rparr>)
      | (Inr (activated, _), s) \<Rightarrow>
          let m1 = m\<lparr>m_accounts := s\<rparr>;
              fail = (\<lambda>e. (Inl e, recordActivationFailure env (acc_ID activated) e restoring m1))
          in case re_MkdirAll env of
              Some e \<Rightarrow> fail e
            | None \<Rightarrow>
                (case re_factory env of
                   Some e \<Rightarrow> fail e
                 | None \<Rightarrow>
                     (case re_Start env of
                        Some e \<Rightarrow> fail e
                      | None \<Rightarrow>
                          let status = (case re_Status env of Inr st \<Rightarrow> st | Inl e \<Rightarrow> degraded (re_now env) e);
                              m2 = discard (UpdateStatus (re_store env 1) (acc_ID activated) status) m1;
                              rid = m_next m2;
                              m3 = (set_runtime rid (\<lambda>_. \<lparr>rt_account = activated, rt_ingesting = False,
                                      rt_done = 0, rt_stopping = False, rt_cursor = 0\<rparr>) m2)\<lparr>m_next := rid + 1\<rparr>;
                              m4 = startIngest rid (set_slot (acc_Platform activated) (Some rid) m3)
                          in case Resolve (acc_ID activated) (m_accounts m4) of
                              Inl e \<Rightarrow> (Inl e, m4)
                            | Inr current \<Rightarrow>
                                (case re_Status env of
                                   Inl e \<Rightarrow> if restoring then (Inl e, m4) else (Inr current, m4)
                                 | Inr _ \<Rightarrow> (Inr current, m4)))))"

definition activate_locked ::
  "runtime_env \<Rightarrow> string \<Rightarrow> bool \<Rightarrow> Manager \<Rightarrow> Account result \<times> Manager"
where
  "activate_locked env targetID restoring m =
     (case Resolve targetID (m_accounts m) of
        Inl e \<Rightarrow> (Inl e, m)
      | Inr target \<Rightarrow>
          if acc_Deleting target then (Inl (ErrSentinel AccountErrDeleting), m)
          else if restoring \<and> \<not> acc_Active target then (Inr target, m)
          else if m_closed m then (Inl (ErrNew ''runtime manager is closed''), m)
          else if \<not> m_factories m (acc_Platform target)
          then (Inl (ErrNew (''no '' @ platform_string (acc_Platform target) @ '' driver is installed'')), m)
          else case m_active m (acc_Platform target) of
              None \<Rightarrow> launch env (acc_ID target) restoring m
            | Some rid \<Rightarrow>
                if acc_ID (rt_account (m_heap m rid)) = acc_ID target
                then already_active env restoring rid m
                else (case stopRuntime env rid True m of
                    (Some e, m1) \<Rightarrow>
                      (Inl (ErrWrapf (''stop active '' @ platform_string (acc_Platform target) @ '' account '' @
                         acc_Alias (rt_account (m_heap m rid)) @ '': '') e []), m1)
                  | (None, m1) \<Rightarrow>
                      launch env (acc_ID target) restoring (set_slot (acc_Platform target) None m1)))"

definition activate ::
  "runtime_env \<Rightarrow> (Manager \<Rightarrow> Manager) \<Rightarrow> string \<Rightarrow> bool \<Rightarrow> Manager \<Rightarrow> Account result \<times> Manager"
where
  "activate env wait value restoring m =
     (case Resolve value (m_accounts m) of
        Inl e \<Rightarrow> (Inl e, m)
      | Inr target \<Rightarrow>
          if acc_Deleting target then (Inl (ErrSentinel AccountErrDeleting), m)
          else case re_lock env of
              Some e \<Rightarrow> (Inl e, m)
            | None \<Rightarrow> activate_locked env (acc_ID target) restoring (wait m))"

definition deactivate_locked :: "runtime_env \<Rightarrow> string \<Rightarrow> Manager \<Rightarrow> Account result \<times> Manager" where
  "deactivate_locked env targetID m =
     (case Resolve targetID (m_accounts m) of
        Inl e \<Rightarrow> (Inl e, m)
      | Inr target \<Rightarrow>
          if acc_Deleting target then (Inl (ErrSentinel AccountErrDeleting), m)
          else
            let finish = (\<lambda>m'. case Deactivate (re_store env 0) (acc_ID target) (m_accounts m') of
                  (r, s) \<Rightarrow> (r, m'\<lparr>m_accounts := s\<rparr>))
            in case m_active m (acc_Platform target) of
                None \<Rightarrow> finish m
              | Some rid \<Rightarrow>
                  if acc_ID (rt_account (m_heap m rid)) \<noteq> acc_ID target then finish m
                  else (case stopRuntime env rid True m of
                      (Some e, m1) \<Rightarrow>
                        (Inl (ErrWrapf (''stop '' @ platform_string (acc_Platform target) @ '' account '' @
                           acc_Alias target @ '': '') e []), m1)
                    | (None, m1) \<Rightarrow> finish (set_slot (acc_Platform target) None m1)))"

definition deactivate ::
  "runtime_env \<Rightarrow> (Manager \<Rightarrow> Manager) \<Rightarrow> string \<Rightarrow> Manager \<Rightarrow> Account result \<times> Manager"
where
  "deactivate env wait value m =
     (case Resolve value (m_accounts m) of
        Inl e \<Rightarrow> (Inl e, m)
      | Inr target \<Rightarrow>
          if acc_Deleting target then (Inl (ErrSentinel AccountErrDeleting), m)
          else case re_lock env of
              Some e \<Rightarrow> (Inl e, m)
            | None \<Rightarrow> deactivate_locked env (acc_ID target) (wait m))"

fun restore_each ::
  "(nat \<Rightarrow> runtime_env) \<Rightarrow> (nat \<Rightarrow> Manager \<Rightarrow> Manager) \<Rightarrow> nat \<Rightarrow> Account list \<Rightarrow> Manager \<Rightarrow>
     go_error list \<times> Manager"
where
  "restore_each envs waits n [] m = ([], m)"
| "restore_each envs waits n (item # items) m =
     (if acc_Active item \<and> \<not> acc_Deleting item
      then (case activate (envs n) (waits n) (acc_ID item) True m of
              (r, m1) \<Rightarrow>
                (case restore_each envs waits (Suc n) items m1 of
                   (errs, m2) \<Rightarrow>
                     (case r of
                        Inl e \<Rightarrow> (ErrWrapf (''restore '' @ acc_Alias item @ '': '') e [] # errs, m2)
                      | Inr _ \<Rightarrow> (errs, m2))))
      else restore_each envs waits (Suc n) items m)"

definition Restore ::
  "(nat \<Rightarrow> runtime_env) \<Rightarrow> (nat \<Rightarrow> Manager \<Rightarrow> Manager) \<Rightarrow> Manager \<Rightarrow> go_error list \<times> Manager"
where
  "Restore envs waits m = restore_each envs waits 0 (List (m_accounts m)) m"

definition begin_delete ::
  "runtime_env \<Rightarrow> (Manager \<Rightarrow> Manager) \<Rightarrow> string \<Rightarrow> Manager \<Rightarrow> Account result \<times> Manager"
where
  "begin_delete env wait value m =
     (case Resolve value (m_accounts m) of
        Inl e \<Rightarrow> (Inl e, m)
      | Inr target \<Rightarrow>
          let m1 = wait m
          in case Resolve (acc_ID target) (m_accounts m1) of
              Inl e \<Rightarrow> (Inl e, m1)
            | Inr target' \<Rightarrow>
                (case BeginDelete (re_store env 0) (acc_ID target') (m_accounts m1) of
                   (r, s) \<Rightarrow> (r, m1\<lparr>m_accounts := s\<rparr>)))"

section \<open>Queries and shutdown\<close>

definition Driver :: "string \<Rightarrow> Manager \<Rightarrow> (go_error \<times> Account option) + (Account \<times> nat)" where
  "Driver value m =
     (case Resolve value (m_accounts m) of
        Inl e \<Rightarrow> Inl (e, None)
      | Inr target \<Rightarrow>
          if acc_Deleting target then Inl (ErrSentinel AccountErrDeleting, Some target)
          else case m_active m (acc_Platform target) of
              Some rid \<Rightarrow>
                if acc_ID (rt_account (m_heap m rid)) = acc_ID target then Inr (target, rid)
                else Inl (ErrNew ''account is not active'', Some target)
            | None \<Rightarrow> Inl (ErrNew ''account is not active'', Some target))"

definition zero_status :: Status where
  "zero_status = \<lparr>st_State = StateOther [], st_Identity = None, st_Reason = [], st_ClientVersion = [],
     st_Capabilities = None, st_ObservedAt = 0\<rparr>"

text \<open>The stored status of an account without a running driver; an unknown account has none.\<close>

definition stored_status :: "time \<Rightarrow> Account option \<Rightarrow> Status" where
  "stored_status now item =
     (case item of
        None \<Rightarrow> zero_status\<lparr>st_ObservedAt := now\<rparr>
      | Some a \<Rightarrow> \<lparr>st_State = acc_State a, st_Identity = acc_Identity a, st_Reason = acc_LastError a,
          st_ClientVersion = acc_ClientVersion a, st_Capabilities = None, st_ObservedAt = now\<rparr>)"

definition manager_Status :: "runtime_env \<Rightarrow> string \<Rightarrow> Manager \<Rightarrow> Status result \<times> Manager" where
  "manager_Status env value m =
     (case Driver value m of
        Inl (e, item) \<Rightarrow>
          if errors_Is e (ErrSentinel AccountErrDeleting) then (Inl e, m)
          else (Inr (stored_status (re_now env) item), m)
      | Inr (item, rid) \<Rightarrow>
          (case re_Status env of
             Inl e \<Rightarrow> (Inl e, m)
           | Inr status \<Rightarrow>
               (Inr status, discard (UpdateStatus (re_store env 0) (acc_ID item) status) m)))"

definition Sync :: "runtime_env \<Rightarrow> string \<Rightarrow> Manager \<Rightarrow> go_error option \<times> Manager" where
  "Sync env value m =
     (case Driver value m of
        Inl (e, _) \<Rightarrow> (Some e, m)
      | Inr (target, _) \<Rightarrow>
          (case m_active m (acc_Platform target) of
             Some rid \<Rightarrow>
               if acc_ID (rt_account (m_heap m rid)) = acc_ID target then ingestOnce env rid m
               else (Some (ErrNew ''account is not active''), m)
           | None \<Rightarrow> (Some (ErrNew ''account is not active''), m)))"

definition slots :: "Manager \<Rightarrow> nat list" where
  "slots m = List.map_filter (m_active m) [PlatformWeChat, PlatformWeCom]"

fun stop_each :: "(nat \<Rightarrow> runtime_env) \<Rightarrow> nat list \<Rightarrow> Manager \<Rightarrow> go_error option list \<times> Manager" where
  "stop_each envs [] m = ([], m)"
| "stop_each envs (rid # rids) m =
     (case stopRuntime (envs rid) rid False m of
        (err, m1) \<Rightarrow> (case stop_each envs rids m1 of (errs, m2) \<Rightarrow> (err # errs, m2)))"

text \<open>
  \<open>expired\<close> is the error of the shutdown context when it ends before every stop has reported; the
  stops that were started still run to their end.
\<close>

definition Shutdown ::
  "runtime_env \<Rightarrow> runtime_env \<Rightarrow> (nat \<Rightarrow> runtime_env) \<Rightarrow> (go_error \<times> (nat \<Rightarrow> bool)) option \<Rightarrow> Manager \<Rightarrow>
     go_error option \<times> Manager"
where
  "Shutdown lock1 lock2 envs expired m =
     (case re_lock lock1 of
        Some e \<Rightarrow> (Some e, m)
      | None \<Rightarrow>
          (case re_lock lock2 of
             Some e \<Rightarrow> (Some e, m)
           | None \<Rightarrow>
               let stopped = slots m;
                   m1 = m\<lparr>m_closed := True, m_active := (\<lambda>_. None)\<rparr>
               in case stop_each envs stopped m1 of
                   (errs, m2) \<Rightarrow>
                     (case expired of
                        None \<Rightarrow> (errors_Join errs, m2)
                      | Some (e, reported) \<Rightarrow>
                          (errors_Join (map2 (\<lambda>rid err. if reported rid then err else None) stopped errs @ [Some e]),
                           m2))))"

definition Purge :: "runtime_env \<Rightarrow> (Manager \<Rightarrow> Manager) \<Rightarrow> string \<Rightarrow> Manager \<Rightarrow> go_error option \<times> Manager" where
  "Purge env wait value m =
     (case Resolve value (m_accounts m) of
        Inl e \<Rightarrow> (Some e, m)
      | Inr target \<Rightarrow>
          if acc_Active target then (Some (ErrNew ''deactivate the account before purging it''), m)
          else case re_lock env of
              Some e \<Rightarrow> (Some e, m)
            | None \<Rightarrow>
                let m1 = wait m
                in if \<not> m_factories m1 (acc_Platform target)
                   then (Some (ErrNew (''no '' @ platform_string (acc_Platform target) @ '' driver is installed'')), m1)
                   else case re_factory env of
                       Some e \<Rightarrow> (Some e, m1)
                     | None \<Rightarrow>
                         if \<not> re_purger env
                         then (Some (ErrNew (platform_string (acc_Platform target) @
                                 '' driver does not support safe account purge'')), m1)
                         else (re_Purge env, m1))"

end
