(* ===== verification/Runtime_Props.thy ===== *)
theory Runtime_Props
  imports Runtime_Manager
begin

text \<open>
  Correctness of the runtime manager: its slots agree with the durable registry, an account
  whose client runs is never under deletion, a failed stop never leaves a slot without an ingestion
  loop, and a failed restore keeps what the user asked for.
\<close>

section \<open>Slots and the registry\<close>

definition slot_ok :: "registry \<Rightarrow> platform \<Rightarrow> string \<Rightarrow> bool" where
  "slot_ok r p aid \<longleftrightarrow> (\<exists>a \<in> set (reg_Accounts r). acc_ID a = aid \<and> acc_Active a \<and> acc_Platform a = p)"

lemma slot_update_first:
  assumes "\<And>x. acc_ID (f x) = acc_ID x \<and> acc_Platform (f x) = acc_Platform x"
    and "\<And>x. List.find P xs = Some x \<Longrightarrow> acc_Active x \<Longrightarrow> acc_Active (f x)"
    and "\<exists>a \<in> set xs. acc_ID a = aid \<and> acc_Active a \<and> acc_Platform a = p"
  shows "\<exists>a \<in> set (update_first P f xs). acc_ID a = aid \<and> acc_Active a \<and> acc_Platform a = p"
  using assms(2,3)
proof (induction xs)
  case (Cons x xs)
  show ?case
  proof (cases "P x")
    case True
    with Cons.prems(1) [of x] Cons.prems(2) assms(1) show ?thesis by auto
  next
    case False
    with Cons show ?thesis by auto
  qed
qed simp

lemma slot_ok_update_first:
  assumes "\<And>x. acc_ID (f x) = acc_ID x \<and> acc_Platform (f x) = acc_Platform x"
    and "\<And>x. List.find P (reg_Accounts r) = Some x \<Longrightarrow> acc_Active x \<Longrightarrow> acc_Active (f x)"
    and "slot_ok r p aid"
  shows "slot_ok (r\<lparr>reg_Accounts := update_first P f (reg_Accounts r)\<rparr>) p aid"
  using slot_update_first [OF assms(1,2)] assms(3) by (simp add: slot_ok_def)

lemma slot_commit:
  "commit_registry env data v s = (r, s') \<Longrightarrow> slot_ok (s_data s) p aid \<Longrightarrow> slot_ok data p aid \<Longrightarrow>
     slot_ok (s_data s') p aid"
  by (erule commit_registry_inv [where P = "\<lambda>d. slot_ok d p aid"])

lemma slot_UpdateStatus:
  assumes "UpdateStatus env i status s = (r, s')" and "slot_ok (s_data s) p aid"
  shows "slot_ok (s_data s') p aid"
  using assms unfolding UpdateStatus_def
  by (auto split: option.splits if_splits elim!: slot_commit simp: status_account_def
      intro!: slot_ok_update_first)

lemma slot_RecordDeleteFailure:
  assumes "RecordDeleteFailure env i failure s = (r, s')" and "slot_ok (s_data s) p aid"
  shows "slot_ok (s_data s') p aid"
  using assms unfolding RecordDeleteFailure_def
  by (auto split: option.splits if_splits elim!: slot_commit intro!: slot_ok_update_first)

lemma slot_BeginDelete:
  assumes "BeginDelete env value s = (r, s')" and "slot_ok (s_data s) p aid" and "store_inv s"
  shows "slot_ok (s_data s') p aid"
proof (cases "resolveLocked value s")
  case (Inl e)
  then show ?thesis using assms by (simp add: BeginDelete_def)
next
  case (Inr account)
  have self: "List.find (\<lambda>a. acc_ID a = acc_ID account) (reg_Accounts (s_data s)) = Some account"
    using registry_ok_find_self [OF store_inv_ok [OF assms(3)]] resolveLockedD [OF Inr] by blast
  show ?thesis
  proof (cases "acc_Active account \<or> acc_Deleting account")
    case True
    then show ?thesis using assms Inr by (auto simp: BeginDelete_def split: if_splits)
  next
    case False
    then have "slot_ok ((s_data s)\<lparr>reg_Accounts := update_first (\<lambda>a. acc_ID a = acc_ID account)
        (deleting_account (en_now env)) (reg_Accounts (s_data s))\<rparr>) p aid"
      using assms(2) self by (intro slot_ok_update_first) (auto simp: deleting_account_def)
    then show ?thesis using assms Inr self False by (auto simp: BeginDelete_def elim!: slot_commit)
  qed
qed

lemma slot_Add:
  "Add env al pl s = (r, s') \<Longrightarrow> slot_ok (s_data s) p aid \<Longrightarrow> slot_ok (s_data s') p aid"
  by (erule Add_cases) (auto simp: slot_ok_def)

lemma slot_not_deleting:
  "store_inv s \<Longrightarrow> slot_ok (s_data s) p aid \<Longrightarrow> a \<in> set (reg_Accounts (s_data s)) \<Longrightarrow> acc_ID a = aid \<Longrightarrow>
     acc_Active a \<and> acc_Platform a = p \<and> \<not> acc_Deleting a"
proof -
  assume inv: "store_inv s" and "slot_ok (s_data s) p aid" and a: "a \<in> set (reg_Accounts (s_data s))" "acc_ID a = aid"
  then obtain b where b: "b \<in> set (reg_Accounts (s_data s))" "acc_ID b = aid" "acc_Active b" "acc_Platform b = p"
    by (auto simp: slot_ok_def)
  have "a = b" using registry_ok_same_id [OF store_inv_ok [OF inv] a(1) b(1)] a(2) b(2) by simp
  moreover have "del_ok b" using inv b(1) by (auto simp: store_inv_def registry_ok_def list_all_iff)
  ultimately show ?thesis using b by (auto simp: del_ok_def)
qed

lemma slot_FinalizeDelete:
  assumes "FinalizeDelete env value s = (r, s')" and "slot_ok (s_data s) p aid" and "store_inv s"
  shows "slot_ok (s_data s') p aid"
  using assms(1)
proof (cases rule: FinalizeDelete_cases)
  case (finalized account stateDir runtimeDir)
  have "account \<in> set (reg_Accounts (s_data s))" using resolveLockedD [OF finalized(2)] by simp
  then have "acc_ID account \<noteq> aid" using slot_not_deleting [OF assms(3,2)] finalized(3) by blast
  then show ?thesis using assms(2) finalized(6) by (auto simp: slot_ok_def)
qed (use assms(2) in auto)

lemma slot_Activate_other:
  assumes "Activate env value s = (r, s')" and "slot_ok (s_data s) p aid" and "store_inv s"
    and "\<And>t x. r = Inr (t, x) \<Longrightarrow> acc_Platform t \<noteq> p"
  shows "slot_ok (s_data s') p aid"
proof (cases r)
  case (Inl e)
  then have "store_op s True s'" using Activated [OF assms(1)] by simp
  then show ?thesis using store_op_failed assms(2) by metis
next
  case (Inr v)
  obtain t x where v: "v = (t, x)" by (cases v)
  obtain a where a: "a \<in> set (reg_Accounts (s_data s))" "acc_ID a = aid" "acc_Active a" "acc_Platform a = p"
    using assms(2) by (auto simp: slot_ok_def)
  have "a \<in> set (reg_Accounts (s_data s'))"
    using Activate_effect [of env "value" s t x s'] assms(1,3,4) a Inr v by metis
  then show ?thesis using a by (auto simp: slot_ok_def)
qed

lemma slot_Activate_target:
  assumes "Activate env value s = (Inr (t, x), s')" and "store_inv s"
  shows "slot_ok (s_data s') (acc_Platform t) (acc_ID t)"
  using Activate_effect [OF assms] by (auto simp: slot_ok_def)

lemma slot_Deactivate_other:
  assumes "Deactivate env value s = (r, s')" and "slot_ok (s_data s) p aid"
    and "\<And>a. resolveLocked value s = Inr a \<Longrightarrow> acc_ID a \<noteq> aid"
  shows "slot_ok (s_data s') p aid"
proof (cases "resolveLocked value s")
  case (Inl e)
  then show ?thesis using assms by (simp add: Deactivate_def)
next
  case (Inr account)
  then have other: "acc_ID account \<noteq> aid" using assms(3) by simp
  obtain a where a: "a \<in> set (reg_Accounts (s_data s))" "acc_ID a = aid" "acc_Active a" "acc_Platform a = p"
    using assms(2) by (auto simp: slot_ok_def)
  then have "a \<in> set (update_where (\<lambda>b. acc_ID b = acc_ID account) (stop_account now) (reg_Accounts (s_data s)))" for now
    using other unfolding set_update_where by (force simp: image_iff)
  then have "slot_ok ((s_data s)\<lparr>reg_Accounts := update_where (\<lambda>b. acc_ID b = acc_ID account)
      (stop_account (en_now env)) (reg_Accounts (s_data s))\<rparr>) p aid"
    using a unfolding slot_ok_def by force
  then show ?thesis using assms(1,2) Inr
    by (auto simp: Deactivate_def Let_def split: if_splits elim!: slot_commit)
qed

text \<open>An identifier resolves to its own account: it is nobody's alias.\<close>

lemma Resolve_id:
  assumes "store_inv s" and "a \<in> set (reg_Accounts (s_data s))"
  shows "Resolve (acc_ID a) s = Inr a"
proof -
  have keys: "keys_ok (map key_of (reg_Accounts (s_data s)))"
    using assms(1) by (simp add: store_inv_def registry_ok_def)
  have "acc_Alias b \<noteq> acc_ID a" if "b \<in> set (reg_Accounts (s_data s))" for b
  proof -
    have "key_of a \<in> set (map key_of (reg_Accounts (s_data s)))" using assms(2) by simp
    then have "fst (key_of a) \<notin> set (map (fst \<circ> snd) (map key_of (reg_Accounts (s_data s))))"
      using keys unfolding keys_ok_def list_all_iff by blast
    then have "acc_ID a \<notin> acc_Alias ` set (reg_Accounts (s_data s))" by (simp add: key_of_def image_image)
    then show ?thesis using that by (metis image_eqI)
  qed
  then have "List.find (\<lambda>b. acc_ID b = acc_ID a \<or> acc_Alias b = acc_ID a) (reg_Accounts (s_data s)) =
      List.find (\<lambda>b. acc_ID b = acc_ID a) (reg_Accounts (s_data s))"
    by (intro find_cong) auto
  then show ?thesis
    using registry_ok_find_self [OF store_inv_ok [OF assms(1)] assms(2)]
    by (simp add: Resolve_def resolveLocked_def)
qed

section \<open>The invariant\<close>

text \<open>
  \<open>live m p rid\<close>: the slot of platform \<open>p\<close> holds a runtime of that platform whose account is
  the registry's active account, which is not being stopped, and whose messages are being
  ingested or will be again after a pending repair.
\<close>

definition live :: "Manager \<Rightarrow> platform \<Rightarrow> nat \<Rightarrow> bool" where
  "live m p rid \<longleftrightarrow> rid < m_next m \<and> acc_Platform (rt_account (m_heap m rid)) = p \<and>
     slot_ok (s_data (m_accounts m)) p (acc_ID (rt_account (m_heap m rid))) \<and>
     \<not> rt_stopping (m_heap m rid) \<and>
     (rt_ingesting (m_heap m rid) \<or> (rid, rt_done (m_heap m rid)) \<in> set (m_repairs m))"

definition manager_inv :: "Manager \<Rightarrow> bool" where
  "manager_inv m \<longleftrightarrow> store_inv (m_accounts m) \<and> (\<forall>aid. index_inv (m_indexes m aid)) \<and>
     (m_closed m \<longrightarrow> (\<forall>p. m_active m p = None)) \<and>
     (\<forall>p rid. m_active m p = Some rid \<longrightarrow> live m p rid)"

lemma manager_invD:
  "manager_inv m \<Longrightarrow> store_inv (m_accounts m)"
  "manager_inv m \<Longrightarrow> index_inv (m_indexes m aid)"
  "manager_inv m \<Longrightarrow> m_active m p = Some rid \<Longrightarrow> live m p rid"
  "manager_inv m \<Longrightarrow> m_closed m \<Longrightarrow> m_active m p = None"
  by (simp_all add: manager_inv_def)

lemma manager_inv_accounts:
  assumes "manager_inv m" and "store_inv s"
    and "\<And>p rid. m_active m p = Some rid \<Longrightarrow> slot_ok (s_data s) p (acc_ID (rt_account (m_heap m rid)))"
  shows "manager_inv (m\<lparr>m_accounts := s\<rparr>)"
  using assms unfolding manager_inv_def live_def by simp

lemma manager_inv_index:
  "manager_inv m \<Longrightarrow> index_inv db \<Longrightarrow> manager_inv (put_index item db m)"
  by (simp add: manager_inv_def live_def put_index_def)

text \<open>An update of one runtime object keeps the invariant when a slot that holds it stays live.\<close>

lemma manager_inv_runtime:
  assumes inv: "manager_inv m"
    and same: "m_accounts m' = m_accounts m" "m_indexes m' = m_indexes m" "m_closed m' = m_closed m"
      "m_active m' = m_active m"
    and grow: "m_next m \<le> m_next m'" "set (m_repairs m) \<subseteq> set (m_repairs m')"
    and others: "\<And>r. r \<noteq> rid \<Longrightarrow> m_heap m' r = m_heap m r"
    and account: "rt_account (m_heap m' rid) = rt_account (m_heap m rid)"
    and alive: "\<And>p. m_active m p = Some rid \<Longrightarrow> \<not> rt_stopping (m_heap m' rid) \<and>
      (rt_ingesting (m_heap m' rid) \<or> (rid, rt_done (m_heap m' rid)) \<in> set (m_repairs m'))"
  shows "manager_inv m'"
proof -
  have "live m' p r" if "m_active m p = Some r" for p r
  proof -
    have l: "live m p r" using inv that by (rule manager_invD)
    show ?thesis
    proof (cases "r = rid")
      case True
      then show ?thesis using l account same(1) grow(1) alive [of p] that by (auto simp: live_def)
    next
      case False
      then show ?thesis using l others [OF False] same(1) grow by (auto simp: live_def)
    qed
  qed
  then show ?thesis using inv same by (simp add: manager_inv_def)
qed

lemma manager_inv_discard:
  assumes "manager_inv m" and "\<And>r s. call (m_accounts m) = (r, s) \<Longrightarrow> store_inv s \<and>
      (\<forall>p aid. slot_ok (s_data (m_accounts m)) p aid \<longrightarrow> slot_ok (s_data s) p aid)"
  shows "manager_inv (discard call m)"
  unfolding discard_def
proof (rule manager_inv_accounts [OF assms(1)])
  obtain r s where c: "call (m_accounts m) = (r, s)" by fastforce
  then show "store_inv (snd (call (m_accounts m)))" using assms(2) by simp
  show "slot_ok (s_data (snd (call (m_accounts m)))) p (acc_ID (rt_account (m_heap m rid)))"
    if "m_active m p = Some rid" for p rid
    using assms(2) [OF c] manager_invD(3) [OF assms(1) that] c by (simp add: live_def)
qed

lemma discard_UpdateStatus: "manager_inv m \<Longrightarrow> manager_inv (discard (UpdateStatus env i st) m)"
  by (rule manager_inv_discard)
     (auto intro: UpdateStatus_preserves slot_UpdateStatus dest: manager_invD(1))

section \<open>Stopping and repairing\<close>

lemmas runtime_defs = set_runtime_def set_slot_def startIngest_def restartIngestAfterExit_def

lemma stopRuntime_frame:
  "stopRuntime env rid restart m = (err, m') \<Longrightarrow>
     m_accounts m' = m_accounts m \<and> m_active m' = m_active m \<and> m_closed m' = m_closed m \<and>
     m_indexes m' = m_indexes m \<and> m_factories m' = m_factories m \<and> m_next m \<le> m_next m' \<and>
     set (m_repairs m) \<subseteq> set (m_repairs m') \<and> (\<forall>r. r \<noteq> rid \<longrightarrow> m_heap m' r = m_heap m r) \<and>
     rt_account (m_heap m' rid) = rt_account (m_heap m rid)"
  unfolding stopRuntime_def Let_def
  by (auto simp: runtime_defs split: option.splits if_splits)

lemma stopRuntime_failed_alive:
  "stopRuntime env rid True m = (Some e, m') \<Longrightarrow> \<not> rt_stopping (m_heap m rid) \<Longrightarrow>
     \<not> rt_stopping (m_heap m' rid) \<and>
     (rt_ingesting (m_heap m' rid) \<or> (rid, rt_done (m_heap m' rid)) \<in> set (m_repairs m'))"
  unfolding stopRuntime_def Let_def
  by (auto simp: runtime_defs split: option.splits)

lemma stopRuntime_failed_inv:
  assumes "stopRuntime env rid True m = (Some e, m')" and "manager_inv m"
  shows "manager_inv m'"
proof (rule manager_inv_runtime [OF assms(2), where rid = rid])
  fix p assume "m_active m p = Some rid"
  then have "\<not> rt_stopping (m_heap m rid)" using manager_invD(3) [OF assms(2)] by (auto simp: live_def)
  then show "\<not> rt_stopping (m_heap m' rid) \<and>
      (rt_ingesting (m_heap m' rid) \<or> (rid, rt_done (m_heap m' rid)) \<in> set (m_repairs m'))"
    by (rule stopRuntime_failed_alive [OF assms(1)])
qed (use stopRuntime_frame [OF assms(1)] in auto)

lemma stopped_slot_inv:
  assumes "stopRuntime env rid restart m = (err, m')" and "manager_inv m" and "m_active m p = Some rid"
  shows "manager_inv (set_slot p None m')"
proof -
  note f = stopRuntime_frame [OF assms(1)]
  have "live (set_slot p None m') q r" if "m_active m q = Some r" "q \<noteq> p" for q r
  proof -
    have l: "live m q r" and lp: "live m p rid" using assms(2,3) that by (auto intro: manager_invD(3))
    then have "r \<noteq> rid" using that by (auto simp: live_def)
    then show ?thesis using l f by (auto simp: live_def set_slot_def)
  qed
  then show ?thesis using assms(2) f by (auto simp: manager_inv_def set_slot_def split: if_splits)
qed

lemma run_repair_live:
  assumes "manager_inv m" and "m_active m p = Some rid"
  shows "run_repair (rid, rt_done (m_heap m rid)) m =
    startIngest rid (m\<lparr>m_repairs := remove1 (rid, rt_done (m_heap m rid)) (m_repairs m)\<rparr>)"
proof -
  let ?rt = "m_heap m rid"
  have l: "live m p rid" using assms by (rule manager_invD)
  then obtain a where a: "a \<in> set (reg_Accounts (s_data (m_accounts m)))" "acc_ID a = acc_ID (rt_account ?rt)"
    by (auto simp: live_def slot_ok_def)
  have c: "Resolve (acc_ID (rt_account ?rt)) (m_accounts m) = Inr a"
    using Resolve_id [OF manager_invD(1) [OF assms(1)] a(1)] a(2) by simp
  have "acc_Active a \<and> \<not> acc_Deleting a"
    using slot_not_deleting [OF manager_invD(1) [OF assms(1)] _ a] l by (auto simp: live_def)
  moreover have "\<not> m_closed m" using manager_invD(4) [OF assms(1)] assms(2) by force
  ultimately show ?thesis using c assms(2) l by (auto simp: run_repair_def Let_def live_def)
qed

lemma run_repair_inv:
  assumes "manager_inv m"
  shows "manager_inv (run_repair job m)"
proof -
  obtain rid d where job: "job = (rid, d)" by (cases job)
  let ?m0 = "m\<lparr>m_repairs := remove1 job (m_repairs m)\<rparr>"
  show ?thesis
  proof (cases "\<exists>p. m_active m p = Some rid \<and> rt_done (m_heap m rid) = d")
    case True
    then obtain p where p: "m_active m p = Some rid" "rt_done (m_heap m rid) = d" by blast
    have run: "run_repair job m = startIngest rid ?m0"
      using run_repair_live [OF assms p(1)] p(2) job by simp
    have alive: "live (startIngest rid ?m0) q r" if "m_active m q = Some r" for q r
      using manager_invD(3) [OF assms that] by (cases "r = rid") (auto simp: live_def runtime_defs job)
    then show ?thesis using assms unfolding run by (auto simp: manager_inv_def runtime_defs)
  next
    case False
    have "live ?m0 q r" if "m_active m q = Some r" for q r
    proof -
      have "(r, rt_done (m_heap m r)) \<noteq> job" using False that job by auto
      then show ?thesis using manager_invD(3) [OF assms that] by (auto simp: live_def)
    qed
    then have "manager_inv ?m0" using assms by (auto simp: manager_inv_def)
    moreover have "run_repair job m = ?m0"
      using False by (auto simp: run_repair_def Let_def job split: sum.splits)
    ultimately show ?thesis by simp
  qed
qed

section \<open>Activation\<close>

lemma Activate_same:
  assumes "Activate env (acc_ID a) s = (Inr (t, x), s')" and "store_inv s" and "a \<in> set (reg_Accounts (s_data s))"
  shows "acc_ID t = acc_ID a \<and> acc_Platform t = acc_Platform a"
proof -
  have r: "resolveLocked (acc_ID a) s = Inr a" using Resolve_id [OF assms(2,3)] by (simp add: Resolve_def)
  define ups where "ups = activate_accounts (en_now env) a (reg_Accounts (s_data s))"
  have "commit_registry env ((s_data s)\<lparr>reg_Accounts := ups\<rparr>)
      (last_or a (filter (\<lambda>b. acc_ID b = acc_ID a) ups), x) s = (Inr (t, x), s')"
    using assms(1) r by (auto simp: Activate_def Let_def ups_def commit_registry_def split: if_splits prod.splits option.splits)
  then have t: "t = last_or a (filter (\<lambda>b. acc_ID b = acc_ID a) ups)"
    by (auto elim: commit_registry_cases)
  have keys: "map key_of ups = map key_of (reg_Accounts (s_data s))"
    unfolding ups_def activate_accounts_def by (simp add: map_update_where_same key_of_def)
  have same: "acc_Platform b = acc_Platform a" if "b \<in> set ups" "acc_ID b = acc_ID a" for b
  proof -
    have "key_of b \<in> set (map key_of (reg_Accounts (s_data s)))" using that(1) by (simp flip: keys)
    then obtain c where c: "c \<in> set (reg_Accounts (s_data s))" "key_of c = key_of b" by auto
    then have "c = a" using registry_ok_same_id [OF store_inv_ok [OF assms(2)] c(1) assms(3)] that(2)
      by (simp add: key_of_def)
    then show ?thesis using c(2) by (simp add: key_of_def)
  qed
  show ?thesis
  proof (cases "filter (\<lambda>b. acc_ID b = acc_ID a) ups = []")
    case False
    then have "t \<in> set (filter (\<lambda>b. acc_ID b = acc_ID a) ups)"
      unfolding t last_or_def using last_in_set [OF False] by simp
    then show ?thesis using same by simp
  qed (simp add: t last_or_def)
qed

lemma ResolveD: "Resolve v s = Inr a \<Longrightarrow> a \<in> set (reg_Accounts (s_data s))"
  using resolveLockedD by (auto simp: Resolve_def)

text \<open>A runtime slot of another platform survives the failure path of an activation.\<close>

lemma recordActivationFailure_inv:
  assumes inv: "manager_inv m" and own: "slot_ok (s_data (m_accounts m)) q i" and free: "m_active m q = None"
  shows "manager_inv (recordActivationFailure env i e restoring m)"
proof -
  define m1 where "m1 = discard (UpdateStatus (re_store env 1) i (degraded (re_now env) e)) m"
  have inv1: "manager_inv m1" unfolding m1_def by (rule discard_UpdateStatus [OF inv])
  have own1: "slot_ok (s_data (m_accounts m1)) q i"
    unfolding m1_def discard_def using slot_UpdateStatus own by (metis (no_types) Manager.select_convs(1)
        Manager.surjective Manager.update_convs(1) prod.collapse)
  have free1: "m_active m1 q = None" using free by (simp add: m1_def discard_def)
  have "manager_inv (discard (Deactivate (re_store env 2) i) m1)"
    unfolding discard_def
  proof (rule manager_inv_accounts [OF inv1])
    obtain r s where d: "Deactivate (re_store env 2) i (m_accounts m1) = (r, s)" by fastforce
    then show "store_inv (snd (Deactivate (re_store env 2) i (m_accounts m1)))"
      using Deactivate_preserves [OF d manager_invD(1) [OF inv1]] by simp
    fix p rid assume slot: "m_active m1 p = Some rid"
    let ?aid = "acc_ID (rt_account (m_heap m1 rid))"
    have sl: "slot_ok (s_data (m_accounts m1)) p ?aid" using manager_invD(3) [OF inv1 slot] by (simp add: live_def)
    obtain b where b: "b \<in> set (reg_Accounts (s_data (m_accounts m1)))" "acc_ID b = i" "acc_Platform b = q"
      using own1 by (auto simp: slot_ok_def)
    have "acc_ID a \<noteq> ?aid" if "resolveLocked i (m_accounts m1) = Inr a" for a
    proof
      assume "acc_ID a = ?aid"
      have "a = b" using Resolve_id [OF manager_invD(1) [OF inv1] b(1)] that b(2) by (simp add: Resolve_def)
      then have "q = p" using slot_not_deleting [OF manager_invD(1) [OF inv1] sl b(1)] b \<open>acc_ID a = ?aid\<close> by simp
      then show False using slot free1 by simp
    qed
    from slot_Deactivate_other [OF d sl this]
    show "slot_ok (s_data (snd (Deactivate (re_store env 2) i (m_accounts m1)))) p ?aid" using d by simp
  qed
  then show ?thesis using inv1 by (simp add: recordActivationFailure_def Let_def m1_def)
qed

lemma launched_slot_inv:
  assumes inv: "manager_inv m" and own: "slot_ok (s_data (m_accounts m)) (acc_Platform act) (acc_ID act)"
    and openp: "\<not> m_closed m" and free: "m_active m (acc_Platform act) = None"
    and m4: "m4 = startIngest (m_next m) (set_slot (acc_Platform act) (Some (m_next m))
      ((set_runtime (m_next m) (\<lambda>_. \<lparr>rt_account = act, rt_ingesting = False, rt_done = 0,
         rt_stopping = False, rt_cursor = 0\<rparr>) m)\<lparr>m_next := m_next m + 1\<rparr>))"
  shows "manager_inv m4"
proof -
  have "live m4 p rid" if "m_active m4 p = Some rid" for p rid
  proof (cases "p = acc_Platform act")
    case True
    then show ?thesis using that own by (simp add: m4 live_def runtime_defs)
  next
    case False
    then have l: "live m p rid" using that inv by (auto simp: m4 runtime_defs intro: manager_invD(3))
    then have "rid \<noteq> m_next m" by (simp add: live_def)
    then show ?thesis using l by (simp add: m4 live_def runtime_defs)
  qed
  then show ?thesis using inv openp by (simp add: manager_inv_def) (simp add: m4 runtime_defs)
qed

lemma launch_inv:
  assumes inv: "manager_inv m" and a: "a \<in> set (reg_Accounts (s_data (m_accounts m)))"
    and openp: "\<not> m_closed m" and free: "m_active m (acc_Platform a) = None"
    and run: "launch env (acc_ID a) restoring m = (r, m')"
  shows "manager_inv m'"
proof (cases "Activate (re_store env 0) (acc_ID a) (m_accounts m)")
  case (Pair res s)
  have st: "store_inv s" by (rule Activate_preserves [OF Pair manager_invD(1) [OF inv]])
  have other: "slot_ok (s_data s) p (acc_ID (rt_account (m_heap m rid)))" if "m_active m p = Some rid" for p rid
  proof (rule slot_Activate_other [OF Pair _ manager_invD(1) [OF inv]])
    show "slot_ok (s_data (m_accounts m)) p (acc_ID (rt_account (m_heap m rid)))"
      using manager_invD(3) [OF inv that] by (simp add: live_def)
    show "acc_Platform t \<noteq> p" if "res = Inr (t, x)" for t x
      using Activate_same [of "re_store env 0" a "m_accounts m" t x s] Pair that a manager_invD(1) [OF inv]
        free \<open>m_active m p = Some rid\<close> by auto
  qed
  have inv1: "manager_inv (m\<lparr>m_accounts := s\<rparr>)" by (rule manager_inv_accounts [OF inv st other])
  show ?thesis
  proof (cases res)
    case (Inl e)
    then show ?thesis using run Pair inv1 by (simp add: launch_def)
  next
    case (Inr v)
    obtain act x where v: "v = (act, x)" by (cases v)
    have A: "Activate (re_store env 0) (acc_ID a) (m_accounts m) = (Inr (act, x), s)" using Pair Inr v by simp
    have own: "slot_ok (s_data s) (acc_Platform act) (acc_ID act)"
      by (rule slot_Activate_target [OF A manager_invD(1) [OF inv]])
    have free1: "m_active m (acc_Platform act) = None"
      using Activate_same [OF A manager_invD(1) [OF inv] a] free by simp
    have fail: "manager_inv (recordActivationFailure env (acc_ID act) e restoring (m\<lparr>m_accounts := s\<rparr>))" for e
      using own free1 by (intro recordActivationFailure_inv [OF inv1]) simp_all
    define m2 where "m2 = discard (UpdateStatus (re_store env 1) (acc_ID act)
        (case re_Status env of Inr st \<Rightarrow> st | Inl e \<Rightarrow> degraded (re_now env) e)) (m\<lparr>m_accounts := s\<rparr>)"
    have inv2: "manager_inv m2" unfolding m2_def by (rule discard_UpdateStatus [OF inv1])
    have own2: "slot_ok (s_data (m_accounts m2)) (acc_Platform act) (acc_ID act)"
      unfolding m2_def discard_def using slot_UpdateStatus [OF prod.collapse [symmetric]] own by simp
    note inv4 = launched_slot_inv [OF inv2 own2 _ _ refl]
    have "\<not> m_closed m2" "m_active m2 (acc_Platform act) = None"
      using openp free1 by (simp_all add: m2_def discard_def)
    note inv4 = inv4 [OF this, unfolded Suc_eq_plus1 [symmetric]]
    show ?thesis
      using run unfolding launch_def A prod.case sum.case Let_def m2_def [symmetric]
      by (auto split: option.splits sum.splits if_splits intro: fail inv4)
  qed
qed

lemma already_active_inv:
  "already_active env restoring rid m = (r, m') \<Longrightarrow> manager_inv m \<Longrightarrow> manager_inv m'"
  unfolding already_active_def Let_def
  by (auto split: if_splits sum.splits intro: discard_UpdateStatus)

lemma activate_locked_inv:
  assumes run: "activate_locked env i restoring m = (r, m')" and inv: "manager_inv m"
  shows "manager_inv m'"
proof (cases "Resolve i (m_accounts m)")
  case (Inl e)
  then show ?thesis using run inv by (simp add: activate_locked_def)
next
  case target: (Inr a)
  note mem = ResolveD [OF target]
  show ?thesis
  proof (cases "acc_Deleting a \<or> (restoring \<and> \<not> acc_Active a) \<or> m_closed m \<or> \<not> m_factories m (acc_Platform a)")
    case True
    then have "m' = m" using run target by (auto simp: activate_locked_def split: if_splits)
    then show ?thesis using inv by simp
  next
    case False
    then have c: "\<not> acc_Deleting a" "\<not> (restoring \<and> \<not> acc_Active a)" "\<not> m_closed m"
      "m_factories m (acc_Platform a)" by blast+
    have head: "(case m_active m (acc_Platform a) of
              None \<Rightarrow> launch env (acc_ID a) restoring m
            | Some rid \<Rightarrow>
                if acc_ID (rt_account (m_heap m rid)) = acc_ID a
                then already_active env restoring rid m
                else (case stopRuntime env rid True m of
                    (Some e, m1) \<Rightarrow>
                      (Inl (ErrWrapf (''stop active '' @ platform_string (acc_Platform a) @ '' account '' @
                         acc_Alias (rt_account (m_heap m rid)) @ '': '') e []), m1)
                  | (None, m1) \<Rightarrow>
                      launch env (acc_ID a) restoring (set_slot (acc_Platform a) None m1))) = (r, m')"
      using run unfolding activate_locked_def target sum.case by (simp only: c if_False if_True not_True_eq_False simp_thms)
    show ?thesis
    proof (cases "m_active m (acc_Platform a)")
      case None
      then have "launch env (acc_ID a) restoring m = (r, m')" using head by simp
      then show ?thesis using launch_inv [OF inv mem _ None] False by blast
    next
      case (Some rid)
      show ?thesis
      proof (cases "acc_ID (rt_account (m_heap m rid)) = acc_ID a")
        case True
        then have "already_active env restoring rid m = (r, m')" using head Some by simp
        then show ?thesis using already_active_inv inv by blast
      next
        case different: False
        obtain err m1 where st: "stopRuntime env rid True m = (err, m1)" by fastforce
        show ?thesis
        proof (cases err)
          case (Some e)
          then have "m' = m1" using head \<open>m_active m (acc_Platform a) = Some rid\<close> different st by simp
          then show ?thesis using stopRuntime_failed_inv st Some inv by blast
        next
          case None
          let ?m = "set_slot (acc_Platform a) None m1"
          have inv1: "manager_inv ?m" by (rule stopped_slot_inv [OF st inv Some])
          have "launch env (acc_ID a) restoring ?m = (r, m')"
            using head Some different st None by simp
          moreover have "a \<in> set (reg_Accounts (s_data (m_accounts ?m)))" "\<not> m_closed ?m"
            "m_active ?m (acc_Platform a) = None"
            using stopRuntime_frame [OF st] mem False by (simp_all add: set_slot_def)
          ultimately show ?thesis using launch_inv [OF inv1] by blast
        qed
      qed
    qed
  qed
qed

section \<open>Deactivation, deletion, ingestion and shutdown\<close>

lemma finish_deactivate_inv:
  assumes inv: "manager_inv m" and a: "a \<in> set (reg_Accounts (s_data (m_accounts m)))"
    and free: "\<And>rid. m_active m (acc_Platform a) = Some rid \<Longrightarrow> acc_ID (rt_account (m_heap m rid)) \<noteq> acc_ID a"
    and run: "Deactivate env (acc_ID a) (m_accounts m) = (r, s)"
  shows "manager_inv (m\<lparr>m_accounts := s\<rparr>)"
proof (rule manager_inv_accounts [OF inv])
  show "store_inv s" by (rule Deactivate_preserves [OF run manager_invD(1) [OF inv]])
  fix p rid assume slot: "m_active m p = Some rid"
  let ?aid = "acc_ID (rt_account (m_heap m rid))"
  have sl: "slot_ok (s_data (m_accounts m)) p ?aid" using manager_invD(3) [OF inv slot] by (simp add: live_def)
  have "acc_ID a \<noteq> ?aid"
    using slot_not_deleting [OF manager_invD(1) [OF inv] sl a] free slot by metis
  moreover have "resolveLocked (acc_ID a) (m_accounts m) = Inr a"
    using Resolve_id [OF manager_invD(1) [OF inv] a] by (simp add: Resolve_def)
  ultimately show "slot_ok (s_data s) p ?aid" by (intro slot_Deactivate_other [OF run sl]) simp
qed

lemma deactivate_locked_inv:
  assumes run: "deactivate_locked env i m = (r, m')" and inv: "manager_inv m"
  shows "manager_inv m'"
proof (cases "Resolve i (m_accounts m)")
  case (Inl e)
  then show ?thesis using run inv by (simp add: deactivate_locked_def)
next
  case target: (Inr a)
  note mem = ResolveD [OF target]
  show ?thesis
  proof (cases "acc_Deleting a")
    case True
    then show ?thesis using run target inv by (simp add: deactivate_locked_def)
  next
    case False
    have finish: "manager_inv (m1\<lparr>m_accounts := snd (Deactivate (re_store env 0) (acc_ID a) (m_accounts m1))\<rparr>)"
      if "manager_inv m1" "m_accounts m1 = m_accounts m"
        "\<And>rid. m_active m1 (acc_Platform a) = Some rid \<Longrightarrow> acc_ID (rt_account (m_heap m1 rid)) \<noteq> acc_ID a" for m1
      by (rule finish_deactivate_inv [OF that(1) _ that(3) prod.collapse [symmetric]]) (use that(2) mem in simp)
    show ?thesis
    proof (cases "\<exists>rid. m_active m (acc_Platform a) = Some rid \<and> acc_ID (rt_account (m_heap m rid)) = acc_ID a")
      case False
      then have "m' = m\<lparr>m_accounts := snd (Deactivate (re_store env 0) (acc_ID a) (m_accounts m))\<rparr>"
        using run target \<open>\<not> acc_Deleting a\<close>
        by (auto simp: deactivate_locked_def Let_def split: option.splits prod.splits)
      then show ?thesis using finish [OF inv] False by auto
    next
      case True
      then obtain rid where slot: "m_active m (acc_Platform a) = Some rid" "acc_ID (rt_account (m_heap m rid)) = acc_ID a"
        by blast
      obtain err m1 where st: "stopRuntime env rid True m = (err, m1)" by fastforce
      show ?thesis
      proof (cases err)
        case (Some e)
        then have "m' = m1" using run target \<open>\<not> acc_Deleting a\<close> slot st by (simp add: deactivate_locked_def)
        then show ?thesis using stopRuntime_failed_inv st Some inv by blast
      next
        case None
        let ?m = "set_slot (acc_Platform a) None m1"
        have "m' = ?m\<lparr>m_accounts := snd (Deactivate (re_store env 0) (acc_ID a) (m_accounts ?m))\<rparr>"
          using run target \<open>\<not> acc_Deleting a\<close> slot st None
          by (auto simp: deactivate_locked_def split: prod.splits)
        then show ?thesis
          using finish [OF stopped_slot_inv [OF st inv slot(1)]] stopRuntime_frame [OF st]
          by (simp add: set_slot_def)
      qed
    qed
  qed
qed

lemma begin_delete_inv:
  assumes "begin_delete env wait v m = (r, m')" and "manager_inv m" and "\<And>m. manager_inv m \<Longrightarrow> manager_inv (wait m)"
  shows "manager_inv m'"
proof -
  have inv1: "manager_inv (wait m)" using assms by blast
  have "manager_inv ((wait m)\<lparr>m_accounts := s\<rparr>)" if "BeginDelete e i (m_accounts (wait m)) = (r', s)" for e i r' s
    using inv1 that manager_invD(3) [OF inv1]
    by (intro manager_inv_accounts)
       (auto simp: live_def intro: BeginDelete_preserves slot_BeginDelete manager_invD(1))
  then show ?thesis using assms(1,2) inv1 unfolding begin_delete_def
    by (auto simp: Let_def split: sum.splits prod.splits)
qed

lemma OpenIndex_inv:
  assumes "OpenIndex env item m = (r, m')" and "manager_inv m"
  shows "manager_inv m' \<and> (\<forall>db. r = Inr db \<longrightarrow> index_inv db) \<and> m_heap m' = m_heap m \<and>
    m_active m' = m_active m \<and> m_accounts m' = m_accounts m"
proof (cases "acc_Deleting item \<or> \<not> valid_index_account (acc_ID item)")
  case True
  then show ?thesis using assms by (auto simp: OpenIndex_def split: if_splits)
next
  case False
  obtain err db where i: "initialize (re_open env) (acc_ID item) False (m_indexes m (acc_ID item)) = (err, db)" by fastforce
  have "index_inv db" by (rule initialize_inv [OF i manager_invD(2) [OF assms(2)]])
  with assms False i show ?thesis
    by (auto simp: OpenIndex_def put_index_def [symmetric] Let_def split: option.splits
        intro: manager_inv_index) (auto simp: put_index_def)
qed

lemma ingestOnce_inv:
  assumes "ingestOnce env rid m = (err, m')" and "manager_inv m"
  shows "manager_inv m'"
proof -
  let ?item = "rt_account (m_heap m rid)"
  obtain r m1 where o: "OpenIndex env ?item m = (r, m1)" by fastforce
  note oi = OpenIndex_inv [OF o assms(2)]
  have cursor: "manager_inv (set_runtime rid (rt_cursor_update f) x)" if "manager_inv x" for x f
    by (rule manager_inv_runtime [OF that, where rid = rid])
       (use manager_invD(3) [OF that] in \<open>auto simp: set_runtime_def live_def\<close>)
  have up: "index_inv db \<Longrightarrow> UpsertConversations q cs db = (r', db') \<Longrightarrow> index_inv db'" for db q cs r' db'
    using index_step_inv Upserted by blast
  have add: "index_inv db \<Longrightarrow> AddMessages q ms db = (r', db') \<Longrightarrow> index_inv db'" for db q ms r' db'
    using index_step_inv Ingested by blast
  note put = manager_inv_index [OF conjunct1 [OF oi]]
  show ?thesis
  proof (cases "rt_stopping (m_heap m rid) \<or> isl (re_ListConversations env) \<or> isl r")
    case True
    then have "m' = m \<or> m' = m1" using assms(1) o
      by (auto simp: ingestOnce_def Let_def isl_def split: if_splits sum.splits)
    then show ?thesis using assms(2) oi by blast
  next
    case False
    then obtain cs db where r: "r = Inr db" and cs: "re_ListConversations env = Inr cs"
      by (cases r; cases "re_ListConversations env") auto
    obtain r1 db1 where u: "UpsertConversations (re_sql env) cs db = (r1, db1)" by fastforce
    have db1: "index_inv db1" using up [OF _ u] oi r by blast
    show ?thesis
    proof (cases "isl r1 \<or> isl (re_ReadMessages env (rt_cursor (m_heap m rid)))")
      case True
      then have "m' = put_index ?item db1 m1" using assms(1) o False r cs u
        by (auto simp: ingestOnce_def Let_def isl_def split: sum.splits)
      then show ?thesis using put [OF db1] by simp
    next
      case ok: False
      then obtain ms where ms: "re_ReadMessages env (rt_cursor (m_heap m rid)) = Inr ms" and r1: "r1 = Inr ()"
        by (cases r1; cases "re_ReadMessages env (rt_cursor (m_heap m rid))") auto
      obtain r2 db2 where a: "AddMessages (re_sql env) ms db1 = (r2, db2)" by fastforce
      have db2: "index_inv db2" by (rule add [OF db1 a])
      have "m' = put_index ?item db2 m1 \<or> m' = set_runtime rid (rt_cursor_update
          (\<lambda>_. max_cursor (rt_cursor (m_heap m rid)) ms)) (put_index ?item db2 m1)"
        using assms(1) o False r cs u ms r1 a by (cases r2) (simp_all add: ingestOnce_def Let_def)
      then show ?thesis using put [OF db2] cursor [OF put [OF db2]] by blast
    qed
  qed
qed

lemma stop_each_frame:
  "stop_each envs rids m = (errs, m') \<Longrightarrow> m_accounts m' = m_accounts m \<and> m_active m' = m_active m \<and>
     m_closed m' = m_closed m \<and> m_indexes m' = m_indexes m"
  by (induction rids arbitrary: m errs) (auto split: prod.splits dest!: stopRuntime_frame)

lemma Shutdown_inv: "Shutdown l1 l2 envs expired m = (err, m') \<Longrightarrow> manager_inv m \<Longrightarrow> manager_inv m'"
  unfolding Shutdown_def Let_def
  by (auto split: option.splits prod.splits dest!: stop_each_frame simp: manager_inv_def)

lemma manager_Status_inv: "manager_Status env v m = (r, m') \<Longrightarrow> manager_inv m \<Longrightarrow> manager_inv m'"
  unfolding manager_Status_def
  by (auto split: sum.splits prod.splits if_splits intro: discard_UpdateStatus)

lemma Sync_inv: "Sync env v m = (r, m') \<Longrightarrow> manager_inv m \<Longrightarrow> manager_inv m'"
  unfolding Sync_def by (auto split: sum.splits prod.splits option.splits if_splits intro: ingestOnce_inv)

section \<open>The manager as a state machine\<close>

text \<open>
  The steps of the daemon: the locked parts of the lifecycle operations, pending repairs, the
  ingestion loops, queries, shutdown, and the registry calls that the service makes directly.
\<close>

inductive manager_step :: "Manager \<Rightarrow> Manager \<Rightarrow> bool" where
  SlotActivated: "activate_locked env i restoring m = (r, m') \<Longrightarrow> manager_step m m'"
| SlotDeactivated: "deactivate_locked env i m = (r, m') \<Longrightarrow> manager_step m m'"
| DeleteMarked: "begin_delete env id v m = (r, m') \<Longrightarrow> manager_step m m'"
| Repaired: "job \<in> set (m_repairs m) \<Longrightarrow> manager_step m (run_repair job m)"
| LoopIngested: "m_active m p = Some rid \<Longrightarrow> ingestOnce env rid m = (e, m') \<Longrightarrow> manager_step m m'"
| Synced: "Sync env v m = (e, m') \<Longrightarrow> manager_step m m'"
| StatusRead: "manager_Status env v m = (r', m') \<Longrightarrow> manager_step m m'"
| IndexOpened: "OpenIndex env item m = (r'', m') \<Longrightarrow> manager_step m m'"
| Closed: "Shutdown l1 l2 envs expired m = (e, m') \<Longrightarrow> manager_step m m'"
| FactoryRegistered: "manager_step m (Register p m)"
| AccountAdded: "Add se al pl (m_accounts m) = (r, s) \<Longrightarrow> manager_step m (m\<lparr>m_accounts := s\<rparr>)"
| FailureRecorded: "RecordDeleteFailure se i failure (m_accounts m) = (ru, s) \<Longrightarrow>
    manager_step m (m\<lparr>m_accounts := s\<rparr>)"
| AccountFinalized: "FinalizeDelete se v (m_accounts m) = (r, s) \<Longrightarrow> manager_step m (m\<lparr>m_accounts := s\<rparr>)"

lemma store_call_inv:
  assumes "manager_inv m" and "store_inv (m_accounts m) \<Longrightarrow> store_inv s"
    and "\<And>p aid. slot_ok (s_data (m_accounts m)) p aid \<Longrightarrow> slot_ok (s_data s) p aid"
  shows "manager_inv (m\<lparr>m_accounts := s\<rparr>)"
  using assms manager_invD(1,3) by (intro manager_inv_accounts) (auto simp: live_def)

lemma manager_step_inv: "manager_inv m \<Longrightarrow> manager_step m m' \<Longrightarrow> manager_inv m'"
proof (erule manager_step.cases, simp_all only:)
  fix env v m r m'
  assume "manager_inv m" "begin_delete env id v m = (r, m')"
  then show "manager_inv m'" using begin_delete_inv [of env id v m r m'] by simp
next
  fix m p assume "manager_inv m"
  then show "manager_inv (Register p m)" by (simp add: manager_inv_def live_def Register_def)
next
  fix se al pl m r s assume "manager_inv m" "Add se al pl (m_accounts m) = (r, s)"
  then show "manager_inv (m\<lparr>m_accounts := s\<rparr>)" by (intro store_call_inv) (auto intro: Add_preserves slot_Add)
next
  fix se i failure m ru s assume "manager_inv m" "RecordDeleteFailure se i failure (m_accounts m) = (ru, s)"
  then show "manager_inv (m\<lparr>m_accounts := s\<rparr>)"
    by (intro store_call_inv) (auto intro: RecordDeleteFailure_preserves slot_RecordDeleteFailure)
next
  fix se v m r s assume "manager_inv m" "FinalizeDelete se v (m_accounts m) = (r, s)"
  then show "manager_inv (m\<lparr>m_accounts := s\<rparr>)"
    by (intro store_call_inv) (auto intro: FinalizeDelete_preserves slot_FinalizeDelete manager_invD(1))
qed (auto intro: activate_locked_inv deactivate_locked_inv run_repair_inv ingestOnce_inv Sync_inv
      manager_Status_inv Shutdown_inv dest: OpenIndex_inv)

definition manager_start :: "Manager \<Rightarrow> bool" where
  "manager_start m \<longleftrightarrow> (\<exists>s indexes. store_inv s \<and> (\<forall>aid. index_inv (indexes aid)) \<and> m = NewManager s indexes)"

lemma manager_start_inv: "manager_start m \<Longrightarrow> manager_inv m"
  by (auto simp: manager_start_def manager_inv_def NewManager_def)

text \<open>A closed manager stays closed, and runtime addresses are never reused.\<close>

definition closes :: "Manager \<Rightarrow> Manager \<Rightarrow> bool" where
  "closes m m' \<longleftrightarrow> (m_closed m \<longrightarrow> m_closed m') \<and> m_next m \<le> m_next m'"

lemma launch_closed: "launch env i restoring m = (r, m') \<Longrightarrow> m_closed m' = m_closed m \<and> m_next m \<le> m_next m'"
  unfolding launch_def recordActivationFailure_def Let_def discard_def
  by (auto simp: runtime_defs split: prod.splits sum.splits option.splits if_splits)

lemma OpenIndex_frame:
  "OpenIndex env item m = (r, m') \<Longrightarrow> m_closed m' = m_closed m \<and> m_next m' = m_next m \<and> m_heap m' = m_heap m"
  by (auto simp: OpenIndex_def Let_def split: if_splits prod.splits option.splits)

lemma stop_each_next: "stop_each envs rids m = (errs, m') \<Longrightarrow> m_next m \<le> m_next m'"
proof (induction rids arbitrary: m errs)
  case (Cons rid rids)
  then show ?case by (fastforce split: prod.splits dest!: stopRuntime_frame)
qed simp

lemma activate_locked_cases:
  assumes "activate_locked env i restoring m = (r, m')"
  obtains "m' = m" | rid where "already_active env restoring rid m = (r, m')"
  | rid e where "stopRuntime env rid True m = (Some e, m')"
  | a :: Account where "launch env (acc_ID a) restoring m = (r, m')"
  | a :: Account and rid m1 where "stopRuntime env rid True m = (None, m1)"
      "launch env (acc_ID a) restoring (set_slot (acc_Platform a) None m1) = (r, m')"
proof (cases "Resolve i (m_accounts m)")
  case (Inl e)
  then show thesis using assms that(1) by (simp add: activate_locked_def)
next
  case target: (Inr a)
  show thesis
  proof (cases "m_active m (acc_Platform a)")
    case None
    then show thesis using assms target that(1,4) by (auto simp: activate_locked_def split: if_splits)
  next
    case (Some rid)
    obtain err m1 where "stopRuntime env rid True m = (err, m1)" by fastforce
    then show thesis using assms target Some that
      by (cases err) (auto simp: activate_locked_def split: if_splits)
  qed
qed

lemma activate_locked_closed:
  assumes "activate_locked env i restoring m = (r, m')"
  shows "m_closed m' = m_closed m \<and> m_next m \<le> m_next m'"
  using assms
proof (cases rule: activate_locked_cases)
  case (2 rid)
  then show ?thesis by (auto simp: already_active_def discard_def Let_def split: if_splits sum.splits)
next
  case (5 a rid m1)
  then show ?thesis using launch_closed [OF 5(2)] stopRuntime_frame [OF 5(1)] by (simp add: set_slot_def)
qed (auto dest: launch_closed stopRuntime_frame)

lemma deactivate_locked_closed:
  "deactivate_locked env i m = (r, m') \<Longrightarrow> m_closed m' = m_closed m \<and> m_next m \<le> m_next m'"
  unfolding deactivate_locked_def Let_def
  by (auto simp: set_slot_def split: sum.splits if_splits option.splits prod.splits dest!: stopRuntime_frame)

lemma ingestOnce_closed:
  "ingestOnce env rid m = (err, m') \<Longrightarrow> m_closed m' = m_closed m \<and> m_next m' = m_next m"
  unfolding ingestOnce_def Let_def
  by (auto simp: set_runtime_def put_index_def split: if_splits sum.splits prod.splits dest!: OpenIndex_frame)

lemma manager_step_closes: "manager_step m m' \<Longrightarrow> closes m m'"
proof (erule manager_step.cases, simp_all only:)
  fix m :: Manager and job show "closes m (run_repair job m)"
    by (auto simp: closes_def run_repair_def Let_def runtime_defs split: sum.splits)
next
  fix env v m e m' assume "Sync env v m = (e, m')"
  then show "closes m m'" unfolding Sync_def closes_def
    by (auto split: sum.splits prod.splits option.splits if_splits dest: ingestOnce_closed)
next
  fix env v m r' m' assume "manager_Status env v m = (r', m')"
  then show "closes m m'" unfolding manager_Status_def closes_def discard_def
    by (auto split: sum.splits prod.splits if_splits)
next
  fix l1 l2 envs expired m e m' assume "Shutdown l1 l2 envs expired m = (e, m')"
  then show "closes m m'" unfolding Shutdown_def closes_def Let_def
    by (auto split: option.splits prod.splits dest: stop_each_frame stop_each_next)
next
  fix env v m r m' assume "begin_delete env id v m = (r, m')"
  then show "closes m m'" unfolding begin_delete_def closes_def Let_def by (auto split: sum.splits prod.splits)
qed (auto simp: closes_def Register_def
      dest: activate_locked_closed deactivate_locked_closed ingestOnce_closed OpenIndex_frame)

interpretation runtime_manager: progress_system manager_start manager_step manager_inv closes
proof unfold_locales
  show "closes m m" for m by (simp add: closes_def)
  show "closes s u" if "closes s t" "closes t u" for s t u using that by (auto simp: closes_def)
qed (auto intro: manager_start_inv manager_step_inv manager_step_closes)

end
