(* ===== verification/Send_Transactions.thy ===== *)
theory Send_Transactions
  imports Runtime_Props Go_Text
begin

text \<open>
  The prepared-send transactions of \<^verbatim>\<open>internal/service/transactions.go\<close>: staging of attachments, the
  canonical request hash, and the table of prepared transactions with its expiry and cleanup.
  The table and the staged files are the part of the service's state that a daemon restart loses.
\<close>

section \<open>Data\<close>

record PreparedAttachment =
  pa_Name :: string
  pa_Size :: int
  pa_SHA256 :: string

record PreparedSend =
  ps_ID :: string
  ps_AccountID :: string
  ps_AccountAlias :: string
  ps_ConversationID :: string
  ps_ConversationTitle :: string
  ps_Text :: string
  ps_Attachments :: "PreparedAttachment list"
  ps_ShareSurfaceID :: string
  ps_Warnings :: "string list"
  ps_RequestHash :: string
  ps_ExpiresAt :: time

record preparedTransaction =
  tx_Preview :: PreparedSend
  tx_Attachments :: "Attachment list"
  tx_StageDir :: string
  tx_Committing :: bool

text \<open>The staging area: for each directory that exists, the staged files with their bytes.\<close>

type_synonym staging = "string \<Rightarrow> (string \<times> string) list option"

text \<open>An answer of \<^verbatim>\<open>os.RemoveAll\<close>: success, or an error and which of the files survived.\<close>

type_synonym removal = "string \<Rightarrow> (go_error \<times> (string \<Rightarrow> bool)) option"

definition maxSendAttachments :: nat where "maxSendAttachments = 20"
definition maxSendAttachmentBytes :: int where "maxSendAttachmentBytes = 512 * 2 ^ 20"
definition transactionTTL :: duration where "transactionTTL = 5 * minute"

definition remove_stage :: "removal \<Rightarrow> string \<Rightarrow> staging \<Rightarrow> go_error option \<times> staging" where
  "remove_stage rm dir st =
     (case rm dir of
        None \<Rightarrow> (None, st(dir := None))
      | Some (e, survives) \<Rightarrow> (Some e, st(dir := map_option (filter (survives \<circ> fst)) (st dir))))"

section \<open>The canonical request hash\<close>

text \<open>\<^verbatim>\<open>binary.BigEndian.PutUint64\<close>: the eight bytes \<^verbatim>\<open>byte(v >> n)\<close>, most significant first.\<close>

definition PutUint64 :: "64 word \<Rightarrow> string" where
  "PutUint64 v = map (\<lambda>n. char_of (unat (drop_bit n v))) [56, 48, 40, 32, 24, 16, 8, 0]"

definition writeHashField :: "string \<Rightarrow> string" where
  "writeHashField value = PutUint64 (of_nat (length value)) @ value"

definition hash_attachment :: "PreparedAttachment \<Rightarrow> string" where
  "hash_attachment a = writeHashField (pa_Name a) @ PutUint64 (word_of_int (pa_Size a)) @ writeHashField (pa_SHA256 a)"

text \<open>The byte string that is written to the digest.\<close>

definition send_encoding :: "string \<Rightarrow> string \<Rightarrow> PreparedAttachment list \<Rightarrow> string \<Rightarrow> string" where
  "send_encoding conversationID text attachments shareSurfaceID =
     writeHashField conversationID @ writeHashField text @ writeHashField shareSurfaceID @
     PutUint64 (of_nat (length attachments)) @ concat (map hash_attachment attachments)"

definition canonicalSendHash ::
  "(string \<Rightarrow> 8 word list) \<Rightarrow> string \<Rightarrow> string \<Rightarrow> PreparedAttachment list \<Rightarrow> string \<Rightarrow> string"
where
  "canonicalSendHash sha256 conversationID text attachments shareSurfaceID =
     EncodeToString (sha256 (send_encoding conversationID text attachments shareSurfaceID))"

section \<open>Staging\<close>

text \<open>
  What the operating system answers for one source file: \<open>gs_bytes\<close> are the bytes its reader
  delivers, which need not match the size that \<^verbatim>\<open>Stat\<close> reported before.
\<close>

record stage_source =
  gs_Open :: "go_error option"
  gs_Stat :: "(bool \<times> int) result"
  gs_Create :: "go_error option"
  gs_bytes :: string
  gs_Copy :: "go_error option"
  gs_CloseSource :: "go_error option"
  gs_Sync :: "go_error option"
  gs_CloseOutput :: "go_error option"

record stage_env =
  gx_Lstat :: "bool result"
  gx_MkdirAll :: "go_error option"
  gx_Chmod :: "go_error option"
  gx_source :: "nat \<Rightarrow> stage_source"
  gx_syncDir :: "go_error option"
  gx_RemoveAll :: removal

text \<open>
  \<^verbatim>\<open>Lstat\<close> answers whether the path is a directory and not a symbolic link. A directory that did not
  exist is there once \<^verbatim>\<open>MkdirAll\<close> has succeeded, also when \<^verbatim>\<open>Chmod\<close> fails.
\<close>

definition ensurePrivateStagingDirectory ::
  "stage_env \<Rightarrow> string \<Rightarrow> staging \<Rightarrow> go_error option \<times> staging"
where
  "ensurePrivateStagingDirectory env path st =
     (let create =
        (case gx_MkdirAll env of
           Some e \<Rightarrow> (Some e, st)
         | None \<Rightarrow>
             (gx_Chmod env, if st path = None then st(path \<mapsto> []) else st))
      in case gx_Lstat env of
          Inr directory \<Rightarrow>
            if directory then create
            else (Some (ErrNew (path @ '' must be a directory, not a symlink'')), st)
        | Inl e \<Rightarrow> if errors_Is e (ErrSentinel OsErrNotExist) then create else (Some e, st))"

definition transactionStagingRoot :: "Paths \<Rightarrow> string" where
  "transactionStagingRoot paths = Join [p_Home paths, ''.send-transactions'']"

definition blob_name :: "nat \<Rightarrow> string" where
  "blob_name n = (if n < 10 then ''0'' else []) @ dec_nat n @ ''.blob''"

definition exceed_error :: go_error where
  "exceed_error = ErrNew (''attachments exceed '' @ Itoa maxSendAttachmentBytes @ '' bytes'')"

text \<open>One turn of the loop: the preview and the staged attachment, and the file it leaves behind.\<close>

definition stage_one ::
  "stage_source \<Rightarrow> (string \<Rightarrow> 8 word list) \<Rightarrow> string \<Rightarrow> nat \<Rightarrow> int \<Rightarrow> Attachment \<Rightarrow>
     (PreparedAttachment \<times> Attachment) result \<times> (string \<times> string) list"
where
  "stage_one src sha256 stageDir index used attachment =
     (let path = Clean (at_LocalPath attachment)
      in if at_LocalPath attachment = [] \<or> \<not> IsAbs path
         then (Inl (ErrNew ''attachment local_path must be absolute''), [])
         else
           let name = Base path
           in if name = ''.'' \<or> name = ''/'' \<or> \<not> ValidString name
              then (Inl (ErrNew (''attachment '' @ quoted path @ '' has an invalid file name'')), [])
              else case gs_Open src of
                  Some e \<Rightarrow> (Inl (ErrWrapf (''open attachment '' @ quoted path @ '': '') e []), [])
                | None \<Rightarrow>
                    (case gs_Stat src of
                       Inl e \<Rightarrow> (Inl (ErrWrapf (''inspect attachment '' @ quoted path @ '': '') e []), [])
                     | Inr (regular, bytes) \<Rightarrow>
                         let remaining = maxSendAttachmentBytes - used
                         in if \<not> regular
                            then (Inl (ErrNew (''attachment '' @ quoted path @ '' must be a regular, non-symlink file'')), [])
                            else if bytes > remaining then (Inl exceed_error, [])
                            else case gs_Create src of
                                Some e \<Rightarrow> (Inl (ErrWrapf ''create staged attachment: '' e []), [])
                              | None \<Rightarrow>
                                  let destination = Join [stageDir, blob_name (index + 1)];
                                      data = take (nat (remaining + 1)) (gs_bytes src);
                                      written = int (length data);
                                      blob = [(destination, data)]
                                  in case errors_Join [gs_Copy src, gs_CloseSource src, gs_Sync src, gs_CloseOutput src] of
                                      Some e \<Rightarrow> (Inl e, blob)
                                    | None \<Rightarrow>
                                        if written > remaining then (Inl exceed_error, blob)
                                        else (Inr (\<lparr>pa_Name = name, pa_Size = written,
                                                     pa_SHA256 = EncodeToString (sha256 data)\<rparr>,
                                                   \<lparr>at_ID = [], at_Kind = ''file'', at_Name = name, at_MediaType = [],
                                                     at_Size = written, at_LocalPath = destination\<rparr>), blob)))"

fun stage_each ::
  "stage_env \<Rightarrow> (string \<Rightarrow> 8 word list) \<Rightarrow> string \<Rightarrow> nat \<Rightarrow> int \<Rightarrow> Attachment list \<Rightarrow>
     (PreparedAttachment list \<times> Attachment list) result \<times> (string \<times> string) list"
where
  "stage_each env sha256 stageDir index used [] = (Inr ([], []), [])"
| "stage_each env sha256 stageDir index used (attachment # rest) =
     (case stage_one (gx_source env index) sha256 stageDir index used attachment of
        (Inl e, blob) \<Rightarrow> (Inl e, blob)
      | (Inr (preview, staged), blob) \<Rightarrow>
          (case stage_each env sha256 stageDir (index + 1) (used + pa_Size preview) rest of
             (Inl e, blobs) \<Rightarrow> (Inl e, blob @ blobs)
           | (Inr (previews, stageds), blobs) \<Rightarrow>
               (Inr (preview # previews, staged # stageds), blob @ blobs)))"

definition stage_cleanup ::
  "stage_env \<Rightarrow> string \<Rightarrow> go_error \<Rightarrow> staging \<Rightarrow> 'a result \<times> staging"
where
  "stage_cleanup env stageDir e st =
     (case remove_stage (gx_RemoveAll env) stageDir st of
        (None, st') \<Rightarrow> (Inl e, st')
      | (Some cleanupErr, st') \<Rightarrow> (Inl (the (errors_Join [Some e, Some cleanupErr])), st'))"

definition stageSendAttachments ::
  "stage_env \<Rightarrow> (string \<Rightarrow> 8 word list) \<Rightarrow> Paths \<Rightarrow> string \<Rightarrow> Attachment list \<Rightarrow> staging \<Rightarrow>
     (PreparedAttachment list \<times> Attachment list \<times> string) result \<times> staging"
where
  "stageSendAttachments env sha256 paths transactionID requested st =
     (if requested = [] then (Inr ([], [], []), st)
      else if length requested > maxSendAttachments
      then (Inl (ErrNew (''at most '' @ dec_nat maxSendAttachments @ '' attachments are allowed'')), st)
      else
        let stageDir = Join [transactionStagingRoot paths, transactionID]
        in case ensurePrivateStagingDirectory env stageDir st of
            (Some e, st1) \<Rightarrow> (Inl e, st1)
          | (None, st1) \<Rightarrow>
              (case stage_each env sha256 stageDir 0 0 requested of
                 (r, blobs) \<Rightarrow>
                   let st2 = st1(stageDir := map_option (\<lambda>files. files @ blobs) (st1 stageDir))
                   in case r of
                       Inl e \<Rightarrow> stage_cleanup env stageDir e st2
                     | Inr (previews, staged) \<Rightarrow>
                         (case gx_syncDir env of
                            Some e \<Rightarrow> stage_cleanup env stageDir e st2
                          | None \<Rightarrow> (Inr (previews, staged, stageDir), st2))))"

section \<open>The table of transactions\<close>

text \<open>
  \<open>sv_sends\<close> is not a field of the Go struct: it is the history of the calls of \<^verbatim>\<open>Driver.Send\<close> that
  each existing account has seen, the effect outside the daemon that the properties speak of.
\<close>

record send_event =
  ev_key :: string
  ev_transaction :: string
  ev_request :: SendRequest
  ev_result :: SendResult
  ev_error :: "go_error option"

record Service =
  sv_paths :: Paths
  sv_runtimes :: Manager
  sv_transactions :: "(string \<times> preparedTransaction) list"
  sv_staging :: staging
  sv_stopped :: bool
  sv_sends :: "string \<Rightarrow> send_event list"

fun remove_entries :: "removal \<Rightarrow> string \<Rightarrow> string list \<Rightarrow> staging \<Rightarrow> go_error option \<times> staging" where
  "remove_entries rm base [] st = (None, st)"
| "remove_entries rm base (entry # entries) st =
     (case remove_stage rm (Join [base, entry]) st of
        (Some e, st') \<Rightarrow> (Some (ErrWrapf ''remove abandoned send transaction staging: '' e []), st')
      | (None, st') \<Rightarrow> remove_entries rm base entries st')"

definition initializeTransactionStaging ::
  "stage_env \<Rightarrow> string list result \<Rightarrow> removal \<Rightarrow> Paths \<Rightarrow> staging \<Rightarrow> go_error option \<times> staging"
where
  "initializeTransactionStaging env entries rm paths st =
     (let base = transactionStagingRoot paths
      in case ensurePrivateStagingDirectory env base st of
          (Some e, st1) \<Rightarrow> (Some (ErrWrapf ''initialize send transaction staging: '' e []), st1)
        | (None, st1) \<Rightarrow>
            (case entries of
               Inl e \<Rightarrow> (Some (ErrWrapf ''list send transaction staging: '' e []), st1)
             | Inr names \<Rightarrow> remove_entries rm base names st1))"

definition cleanupTransactionLocked :: "removal \<Rightarrow> string \<Rightarrow> Service \<Rightarrow> go_error option \<times> Service" where
  "cleanupTransactionLocked rm i s =
     (case map_of (sv_transactions s) i of
        None \<Rightarrow> (None, s)
      | Some transaction \<Rightarrow>
          let drop_entry = (\<lambda>s'. s'\<lparr>sv_transactions := AList.delete i (sv_transactions s')\<rparr>)
          in if tx_StageDir transaction = [] then (None, drop_entry s)
             else case remove_stage rm (tx_StageDir transaction) (sv_staging s) of
                 (Some e, st) \<Rightarrow>
                   (Some (ErrWrapf ''remove send transaction staging: '' e []), s\<lparr>sv_staging := st\<rparr>)
               | (None, st) \<Rightarrow> (None, drop_entry (s\<lparr>sv_staging := st\<rparr>)))"

definition set_transaction :: "string \<Rightarrow> preparedTransaction \<Rightarrow> Service \<Rightarrow> Service" where
  "set_transaction i transaction s = s\<lparr>sv_transactions := AList.update i transaction (sv_transactions s)\<rparr>"

definition cleanupTransaction :: "removal \<Rightarrow> string \<Rightarrow> Service \<Rightarrow> Service" where
  "cleanupTransaction rm i s =
     (case cleanupTransactionLocked rm i s of
        (None, s') \<Rightarrow> s'
      | (Some e, s') \<Rightarrow>
          (case map_of (sv_transactions s') i of
             None \<Rightarrow> s'
           | Some transaction \<Rightarrow>
               set_transaction i (transaction\<lparr>tx_Preview := (tx_Preview transaction)\<lparr>ps_ExpiresAt := 0\<rparr>\<rparr>) s'))"

definition expired :: "time \<Rightarrow> preparedTransaction \<Rightarrow> bool" where
  "expired now transaction \<longleftrightarrow> \<not> now < ps_ExpiresAt (tx_Preview transaction)"

fun cleanup_each :: "removal \<Rightarrow> string list \<Rightarrow> Service \<Rightarrow> go_error option list \<times> Service" where
  "cleanup_each rm [] s = ([], s)"
| "cleanup_each rm (i # is) s =
     (case cleanupTransactionLocked rm i s of
        (err, s1) \<Rightarrow> (case cleanup_each rm is s1 of (errs, s2) \<Rightarrow> (err # errs, s2)))"

definition pruneTransactionsLocked :: "removal \<Rightarrow> time \<Rightarrow> Service \<Rightarrow> Service" where
  "pruneTransactionsLocked rm now s =
     snd (cleanup_each rm (map fst (filter (\<lambda>(i, transaction). \<not> tx_Committing transaction \<and> expired now transaction)
       (sv_transactions s))) s)"

definition releaseTransactionCommit :: "removal \<Rightarrow> time \<Rightarrow> string \<Rightarrow> Service \<Rightarrow> Service" where
  "releaseTransactionCommit rm now i s =
     (case map_of (sv_transactions s) i of
        None \<Rightarrow> s
      | Some transaction \<Rightarrow>
          let s1 = set_transaction i (transaction\<lparr>tx_Committing := False\<rparr>) s
          in if expired now transaction then snd (cleanupTransactionLocked rm i s1) else s1)"

definition closeTransactions :: "removal \<Rightarrow> Service \<Rightarrow> go_error option \<times> Service" where
  "closeTransactions rm s =
     (if sv_stopped s then (None, s)
      else case cleanup_each rm (map fst (sv_transactions s)) (s\<lparr>sv_stopped := True\<rparr>) of
          (errs, s') \<Rightarrow>
            (foldl (\<lambda>acc err. case err of None \<Rightarrow> acc | Some e \<Rightarrow> errors_Join [acc, Some e]) None errs, s'))"

end
