(* ===== verification/Send_Service.thy ===== *)
theory Send_Service
  imports Send_Transactions
begin

text \<open>
  The account, message and send operations of \<^verbatim>\<open>internal/service/service.go\<close>. \<^verbatim>\<open>CommitSend\<close> is split
  where a crash of the daemon can separate its effects: up to the durable reservation, the call of
  the driver, and the settlement of the reservation. The n-th clock reading, runtime call, SQL
  statement group and removal of an operation have their own answers in the environment. The send
  mutex and the deletion lock make each operation one step.
\<close>

record service_env =
  vx_now :: "nat \<Rightarrow> time"
  vx_removeall :: "nat \<Rightarrow> removal"
  vx_rt :: "nat \<Rightarrow> runtime_env"
  vx_wait :: "nat \<Rightarrow> Manager \<Rightarrow> Manager"
  vx_sql :: "nat \<Rightarrow> faults"
  vx_close :: "nat \<Rightarrow> go_error option"
  vx_json :: "string \<Rightarrow> bool"
  vx_fts :: "string \<Rightarrow> (string \<times> string \<times> string) list \<Rightarrow> string list result"
  vx_Send :: "SendRequest \<Rightarrow> SendResult \<times> go_error option"
  vx_randomID :: "8 word list"
  vx_sha256 :: "string \<Rightarrow> 8 word list"
  vx_stage :: stage_env

definition set_runtimes :: "Manager \<Rightarrow> Service \<Rightarrow> Service" where
  "set_runtimes m s = s\<lparr>sv_runtimes := m\<rparr>"

section \<open>Accounts\<close>

definition service_New :: "Paths \<Rightarrow> Manager \<Rightarrow> staging \<Rightarrow> (string \<Rightarrow> send_event list) \<Rightarrow> Service" where
  "service_New paths m st sends = \<lparr>sv_paths = paths, sv_runtimes = m, sv_transactions = [],
     sv_staging = st, sv_stopped = False, sv_sends = sends\<rparr>"

definition Accounts :: "Service \<Rightarrow> Account list" where
  "Accounts s = List (m_accounts (sv_runtimes s))"

definition AddAccount :: "store_env \<Rightarrow> string \<Rightarrow> platform \<Rightarrow> Service \<Rightarrow> Account result \<times> Service" where
  "AddAccount env al platform s =
     (case Add env al platform (m_accounts (sv_runtimes s)) of
        (r, st) \<Rightarrow>
          ((case r of
              Inl e \<Rightarrow> Inl (WrapError StatusBadRequest CodeInvalidArgument ''cannot add account'' e)
            | Inr item \<Rightarrow> Inr item),
           set_runtimes ((sv_runtimes s)\<lparr>m_accounts := st\<rparr>) s))"

definition deletingAccountError :: "Account \<Rightarrow> string \<Rightarrow> go_error \<Rightarrow> go_error" where
  "deletingAccountError item message cause =
     ErrApp StatusConflict CodeConflict message
       [(''account_id'', DetailString (acc_ID item)), (''deleting'', DetailBool True),
        (''retryable'', DetailBool True)] (Some cause)"

definition service_Account :: "string \<Rightarrow> Service \<Rightarrow> Account result" where
  "service_Account v s =
     (case Resolve v (m_accounts (sv_runtimes s)) of
        Inl e \<Rightarrow>
          if errors_Is e (ErrSentinel OsErrNotExist)
          then Inl (NewError StatusNotFound CodeNotFound ''account not found'') else Inl e
      | Inr item \<Rightarrow>
          if acc_Deleting item
          then Inl (deletingAccountError item ''account deletion is in progress'' (ErrSentinel AccountErrDeleting))
          else Inr item)"

text \<open>The error of a lifecycle request: a deletion in progress first, then a classified failure.\<close>

definition lifecycle_error ::
  "(go_error \<Rightarrow> nat \<times> api_code) \<Rightarrow> string \<Rightarrow> string \<Rightarrow> go_error \<Rightarrow> Service \<Rightarrow> go_error"
where
  "lifecycle_error other message v e s =
     (let general =
        (case classifiedDriverError (Some e) of
           Some classified \<Rightarrow> classified
         | None \<Rightarrow> (case other e of (status, code) \<Rightarrow> WrapError status code message e))
      in if errors_Is e (ErrSentinel AccountErrDeleting)
         then (case Resolve v (m_accounts (sv_runtimes s)) of
                 Inr deleting \<Rightarrow> deletingAccountError deleting ''account deletion is in progress'' e
               | Inl _ \<Rightarrow> general)
         else general)"

definition activate_error :: "go_error \<Rightarrow> nat \<times> api_code" where
  "activate_error e =
     (if errors_Is e (ErrSentinel OsErrNotExist) then (StatusNotFound, CodeNotFound)
      else (StatusServiceUnavailable, CodeDriverUnavailable))"

definition service_Activate :: "service_env \<Rightarrow> string \<Rightarrow> Service \<Rightarrow> Account result \<times> Service" where
  "service_Activate env v s =
     (case activate (vx_rt env 0) (vx_wait env 0) v False (sv_runtimes s) of
        (r, m) \<Rightarrow>
          let s1 = set_runtimes m s
          in case r of
              Inr item \<Rightarrow> (Inr item, s1)
            | Inl e \<Rightarrow> (Inl (lifecycle_error activate_error ''cannot activate account'' v e s1), s1))"

definition service_Deactivate :: "service_env \<Rightarrow> string \<Rightarrow> Service \<Rightarrow> Account result \<times> Service" where
  "service_Deactivate env v s =
     (case deactivate (vx_rt env 0) (vx_wait env 0) v (sv_runtimes s) of
        (r, m) \<Rightarrow>
          let s1 = set_runtimes m s
          in case r of
              Inr item \<Rightarrow> (Inr item, s1)
            | Inl e \<Rightarrow>
                (Inl (lifecycle_error (\<lambda>_. (StatusBadRequest, CodeInvalidArgument))
                    ''cannot deactivate account'' v e s1), s1))"

definition recordDeleteFailure ::
  "store_env \<Rightarrow> Account \<Rightarrow> string \<Rightarrow> go_error \<Rightarrow> Service \<Rightarrow> go_error \<times> Service"
where
  "recordDeleteFailure env item message failure s =
     (case RecordDeleteFailure env (acc_ID item) (Some failure) (m_accounts (sv_runtimes s)) of
        (r, st) \<Rightarrow>
          let s1 = set_runtimes ((sv_runtimes s)\<lparr>m_accounts := st\<rparr>) s
          in (case r of
                Inl e \<Rightarrow>
                  deletingAccountError item message
                    (the (errors_Join [Some failure, Some (ErrWrapf ''persist deletion failure: '' e [])]))
              | Inr _ \<Rightarrow> deletingAccountError item message failure, s1))"

text \<open>
  A finished deletion has removed the account's state directory, with the message index in it; its
  history of sends ends with it.
\<close>

definition forget_account :: "string \<Rightarrow> Service \<Rightarrow> Service" where
  "forget_account i s =
     s\<lparr>sv_runtimes := (sv_runtimes s)\<lparr>m_indexes := (m_indexes (sv_runtimes s))(i := empty_db)\<rparr>,
       sv_sends := (sv_sends s)(i := [])\<rparr>"

definition RemoveAccount ::
  "service_env \<Rightarrow> store_env \<Rightarrow> string \<Rightarrow> bool \<Rightarrow> bool \<Rightarrow> Service \<Rightarrow> Account result \<times> Service"
where
  "RemoveAccount env store v purge confirmed s =
     (if \<not> confirmed
      then (Inl (NewError StatusConflict CodeConfirmationRequired ''account removal requires confirmed=true''), s)
      else if \<not> purge
      then (Inl (NewError StatusBadRequest CodeInvalidArgument ''account removal requires purge=true in v0.1''), s)
      else if \<not> IsID v
      then (Inl (NewError StatusBadRequest CodeInvalidArgument
              ''account removal requires an exact opaque account ID''), s)
      else case begin_delete (vx_rt env 0) (vx_wait env 0) v (sv_runtimes s) of
          (Inl e, m) \<Rightarrow>
            (Inl (if errors_Is e (ErrSentinel OsErrNotExist)
                  then NewError StatusNotFound CodeNotFound ''account not found''
                  else WrapError StatusConflict CodeConflict ''cannot begin account deletion'' e), set_runtimes m s)
        | (Inr item, m) \<Rightarrow>
            (case Purge (vx_rt env 1) (vx_wait env 1) (acc_ID item) m of
               (Some e, m1) \<Rightarrow>
                 (case recordDeleteFailure store item
                     ''account runtime purge is incomplete; retry the same removal request'' e (set_runtimes m1 s) of
                    (err, s1) \<Rightarrow> (Inl err, s1))
             | (None, m1) \<Rightarrow>
                 (case FinalizeDelete store (acc_ID item) (m_accounts m1) of
                    (Inl e, st) \<Rightarrow>
                      (case recordDeleteFailure store item
                          ''account state deletion is incomplete; retry the same removal request'' e
                          (set_runtimes (m1\<lparr>m_accounts := st\<rparr>) s) of
                         (err, s1) \<Rightarrow> (Inl err, s1))
                  | (Inr removed, st) \<Rightarrow>
                      (Inr removed, forget_account (acc_ID item) (set_runtimes (m1\<lparr>m_accounts := st\<rparr>) s)))))"

definition service_Status :: "service_env \<Rightarrow> string \<Rightarrow> Service \<Rightarrow> Status result \<times> Service" where
  "service_Status env v s =
     (case service_Account v s of
        Inl e \<Rightarrow> (Inl e, s)
      | Inr _ \<Rightarrow>
          (case manager_Status (vx_rt env 0) v (sv_runtimes s) of
             (Inr status, m) \<Rightarrow> (Inr status, set_runtimes m s)
           | (Inl e, m) \<Rightarrow>
               (Inl (case classifiedDriverError (Some e) of
                       Some classified \<Rightarrow> classified
                     | None \<Rightarrow> WrapError StatusServiceUnavailable CodeDriverUnavailable ''cannot read driver status'' e),
                set_runtimes m s)))"

definition Capabilities :: "service_env \<Rightarrow> string \<Rightarrow> Service \<Rightarrow> (string \<times> support) list result \<times> Service" where
  "Capabilities env v s =
     (case service_Status env v s of
        (Inl e, s1) \<Rightarrow> (Inl e, s1)
      | (Inr status, s1) \<Rightarrow> (Inr (case st_Capabilities status of None \<Rightarrow> [] | Some c \<Rightarrow> c), s1))"

definition ActiveAccounts :: "Service \<Rightarrow> Account list" where
  "ActiveAccounts s =
     sort_key (\<lambda>a. platform_string (acc_Platform a)) (filter acc_Active (List (m_accounts (sv_runtimes s))))"

section \<open>Reading messages\<close>

text \<open>The common head of the readers: the account, a synchronisation whose error is dropped, the index.\<close>

definition open_for_reading ::
  "service_env \<Rightarrow> bool \<Rightarrow> string \<Rightarrow> Service \<Rightarrow> (Account \<times> index_db) result \<times> Service"
where
  "open_for_reading env sync v s =
     (case service_Account v s of
        Inl e \<Rightarrow> (Inl e, s)
      | Inr item \<Rightarrow>
          let m = (if sync \<and> acc_Active item then snd (Sync (vx_rt env 0) (acc_ID item) (sv_runtimes s))
                   else sv_runtimes s)
          in case OpenIndex (vx_rt env 1) item m of
              (Inl e, m1) \<Rightarrow> (Inl e, set_runtimes m1 s)
            | (Inr db, m1) \<Rightarrow> (Inr (item, db), set_runtimes m1 s))"

definition service_ListConversations ::
  "service_env \<Rightarrow> string \<Rightarrow> string \<Rightarrow> bool \<Rightarrow> int \<Rightarrow> Service \<Rightarrow> Conversation list result \<times> Service"
where
  "service_ListConversations env v search unread limit s =
     (case open_for_reading env True v s of
        (Inl e, s1) \<Rightarrow> (Inl e, s1)
      | (Inr (item, db), s1) \<Rightarrow> (ListConversations (vx_sql env 0) search unread limit db, s1))"

definition service_ListMessages ::
  "service_env \<Rightarrow> string \<Rightarrow> MessageQuery \<Rightarrow> Service \<Rightarrow> Message list result \<times> Service"
where
  "service_ListMessages env v query s =
     (if mq_Latest query \<and> mq_AfterSequence query \<noteq> 0
      then (Inl (NewError StatusBadRequest CodeInvalidArgument
              ''latest message reads cannot use a nonzero sequence cursor''), s)
      else case open_for_reading env True v s of
          (Inl e, s1) \<Rightarrow> (Inl e, s1)
        | (Inr (item, db), s1) \<Rightarrow> (ListMessages (vx_sql env 0) (vx_json env) query db, s1))"

definition service_SearchMessages ::
  "service_env \<Rightarrow> string \<Rightarrow> string \<Rightarrow> int \<Rightarrow> Service \<Rightarrow> Message list result \<times> Service"
where
  "service_SearchMessages env v text limit s =
     (case open_for_reading env False v s of
        (Inl e, s1) \<Rightarrow> (Inl e, s1)
      | (Inr (item, db), s1) \<Rightarrow> (SearchMessages (vx_sql env 0) (vx_json env) (vx_fts env) text limit db, s1))"

text \<open>
  \<^verbatim>\<open>PollMessages\<close>: each round reads and then waits for the end of the context, the deadline or the
  next tick. Given the timeout, \<open>timers\<close> answers with the environments of the rounds that a tick
  ends, the environment of the last round and what ends that one.
\<close>

datatype poll_end = PollCanceled go_error | PollDeadline

definition poll_timeout :: "duration \<Rightarrow> duration" where
  "poll_timeout timeout = (if timeout \<le> 0 \<or> timeout > 30 * second then 25 * second else timeout)"

fun poll_rounds ::
  "service_env list \<Rightarrow> service_env \<Rightarrow> poll_end \<Rightarrow> string \<Rightarrow> MessageQuery \<Rightarrow> Service \<Rightarrow> Message list result \<times> Service"
where
  "poll_rounds [] env finish v query s =
     (case service_ListMessages env v query s of
        (Inl e, s1) \<Rightarrow> (Inl e, s1)
      | (Inr messages, s1) \<Rightarrow>
          if messages \<noteq> [] then (Inr messages, s1)
          else (case finish of PollCanceled e \<Rightarrow> Inl e | PollDeadline \<Rightarrow> Inr [], s1))"
| "poll_rounds (tick # ticks) env finish v query s =
     (case service_ListMessages tick v query s of
        (Inl e, s1) \<Rightarrow> (Inl e, s1)
      | (Inr messages, s1) \<Rightarrow>
          if messages \<noteq> [] then (Inr messages, s1)
          else poll_rounds ticks env finish v query s1)"

definition PollMessages ::
  "(duration \<Rightarrow> service_env list \<times> service_env \<times> poll_end) \<Rightarrow> string \<Rightarrow> int \<Rightarrow> duration \<Rightarrow> int \<Rightarrow> Service \<Rightarrow>
     Message list result \<times> Service"
where
  "PollMessages timers v after timeout limit s =
     (case timers (poll_timeout timeout) of
        (ticks, env, finish) \<Rightarrow>
          poll_rounds ticks env finish v
            \<lparr>mq_ConversationID = [], mq_AfterSequence = after, mq_Before = 0, mq_Limit = limit, mq_Latest = False\<rparr> s)"

section \<open>Preparing a send\<close>

definition send_warnings :: "Conversation \<Rightarrow> PreparedAttachment list \<Rightarrow> string \<Rightarrow> string list" where
  "send_warnings conversation attachments surface =
     (if cv_Kind conversation = ''group'' then [''this message targets a group conversation''] else []) @
     (if attachments \<noteq> []
      then [''attachments were copied into immutable staging; edits to the source files will not change this send'']
      else []) @
     (if surface \<noteq> [] then [''this send shares the currently prepared webpage or mini-program surface''] else [])"

definition PrepareSend :: "service_env \<Rightarrow> string \<Rightarrow> SendRequest \<Rightarrow> Service \<Rightarrow> PreparedSend result \<times> Service" where
  "PrepareSend env v request s =
     (case Driver v (sv_runtimes s) of
        Inl _ \<Rightarrow> (Inl (NewError StatusConflict CodeAccountInactive ''account must be active before sending''), s)
      | Inr (item, _) \<Rightarrow>
          if TrimSpace (rq_Text request) = [] \<and> rq_Attachments request = [] \<and> rq_ShareSurfaceID request = []
          then (Inl (NewError StatusBadRequest CodeInvalidArgument ''message content is empty''), s)
          else case service_ListConversations env (acc_ID item) [] False 500 s of
              (Inl e, s1) \<Rightarrow> (Inl e, s1)
            | (Inr conversations, s1) \<Rightarrow>
                (case filter (\<lambda>c. cv_ID c = rq_ConversationID request) conversations of
                   [] \<Rightarrow> (Inl (NewError StatusNotFound CodeNotFound ''conversation not found''), s1)
                 | [match] \<Rightarrow>
                     let transactionID = EncodeToString (vx_randomID env)
                     in (case stageSendAttachments (vx_stage env) (vx_sha256 env) (sv_paths s1) transactionID
                            (rq_Attachments request) (sv_staging s1) of
                           (Inl e, st) \<Rightarrow>
                             (Inl (WrapError StatusBadRequest CodeInvalidArgument ''cannot stage attachments'' e),
                              s1\<lparr>sv_staging := st\<rparr>)
                         | (Inr (previews, staged, stageDir), st) \<Rightarrow>
                             let prepared =
                                   \<lparr>ps_ID = transactionID, ps_AccountID = acc_ID item, ps_AccountAlias = acc_Alias item,
                                    ps_ConversationID = rq_ConversationID request,
                                    ps_ConversationTitle = cv_Title match, ps_Text = rq_Text request,
                                    ps_Attachments = previews, ps_ShareSurfaceID = rq_ShareSurfaceID request,
                                    ps_Warnings = send_warnings match previews (rq_ShareSurfaceID request),
                                    ps_RequestHash = canonicalSendHash (vx_sha256 env) (rq_ConversationID request)
                                      (rq_Text request) previews (rq_ShareSurfaceID request),
                                    ps_ExpiresAt = vx_now env 0 + transactionTTL\<rparr>;
                                 s2 = pruneTransactionsLocked (vx_removeall env 0) (vx_now env 1) (s1\<lparr>sv_staging := st\<rparr>)
                             in (Inr prepared,
                                 set_transaction transactionID
                                   \<lparr>tx_Preview = prepared, tx_Attachments = staged, tx_StageDir = stageDir,
                                    tx_Committing = False\<rparr> s2))
                 | _ \<Rightarrow> (Inl (NewError StatusConflict CodeTargetAmbiguous ''conversation target is ambiguous''), s1)))"

section \<open>Committing a send\<close>

definition sendOutcome :: "SendResult \<Rightarrow> SendResult \<times> go_error option" where
  "sendOutcome result =
     (if sr_Uncertain result \<or> \<not> sr_Verified result
      then (result, Some (ErrApp StatusConflict CodeSendUncertain ''client could not verify the sent message''
              [(''result'', DetailResult result)] None))
      else (result, None))"

definition no_result :: "go_error \<Rightarrow> SendResult \<times> go_error option" where
  "no_result e = (zero_SendResult, Some e)"

definition provisional :: SendResult where
  "provisional = zero_SendResult\<lparr>sr_Uncertain := True,
     sr_Detail := ''send attempt was durably reserved, but no verified completion was recorded; it will not be retried''\<rparr>"

definition other_key_error :: go_error where
  "other_key_error = NewError StatusConflict CodeConflict
     ''send transaction was already committed with another idempotency key''"

fun find_in_accounts ::
  "service_env \<Rightarrow> nat \<Rightarrow> string \<Rightarrow> string \<Rightarrow> Account list \<Rightarrow> Manager \<Rightarrow> SendResult option result \<times> Manager"
where
  "find_in_accounts env n transactionID key [] m = (Inr None, m)"
| "find_in_accounts env n transactionID key (item # items) m =
     (case OpenIndex (vx_rt env n) item m of
        (Inl e, m1) \<Rightarrow> (Inl e, m1)
      | (Inr db, m1) \<Rightarrow>
          (case GetSendResultForTransaction (vx_sql env n) transactionID db of
             Inl e \<Rightarrow> (Inl e, m1)
           | Inr (storedKey, found) \<Rightarrow>
               (case vx_close env n of
                  Some e \<Rightarrow> (Inl e, m1)
                | None \<Rightarrow>
                    (case found of
                       Some result \<Rightarrow>
                         (if storedKey \<noteq> key then Inl other_key_error else Inr (Some result), m1)
                     | None \<Rightarrow> find_in_accounts env (Suc n) transactionID key items m1))))"

definition findCommittedSend ::
  "service_env \<Rightarrow> string \<Rightarrow> string \<Rightarrow> Service \<Rightarrow> SendResult option result \<times> Service"
where
  "findCommittedSend env transactionID key s =
     (case find_in_accounts env 0 transactionID key (List (m_accounts (sv_runtimes s))) (sv_runtimes s) of
        (r, m) \<Rightarrow> (r, set_runtimes m s))"

text \<open>The transaction under the lock of the table: an expired one is cleaned up, another one is marked.\<close>

definition admit_commit :: "service_env \<Rightarrow> string \<Rightarrow> Service \<Rightarrow> preparedTransaction option \<times> Service" where
  "admit_commit env transactionID s =
     (case map_of (sv_transactions s) transactionID of
        None \<Rightarrow> (None, s)
      | Some transaction \<Rightarrow>
          if expired (vx_now env 0) transaction
          then (None, snd (cleanupTransactionLocked (vx_removeall env 0) transactionID s))
          else let transaction' = transaction\<lparr>tx_Committing := True\<rparr>
               in (Some transaction', set_transaction transactionID transaction' s))"

definition commit_missing ::
  "service_env \<Rightarrow> string \<Rightarrow> string \<Rightarrow> Service \<Rightarrow> (SendResult \<times> go_error option) \<times> Service"
where
  "commit_missing env transactionID key s =
     (case findCommittedSend env transactionID key s of
        (Inl e, s1) \<Rightarrow> (no_result e, s1)
      | (Inr (Some result), s1) \<Rightarrow> (sendOutcome result, s1)
      | (Inr None, s1) \<Rightarrow>
          (no_result (NewError StatusNotFound CodeNotFound ''send transaction not found or expired''), s1))"

text \<open>From the account to the reservation: an answer, or the index that holds the new reservation.\<close>

definition commit_reserve ::
  "service_env \<Rightarrow> string \<Rightarrow> string \<Rightarrow> preparedTransaction \<Rightarrow> Service \<Rightarrow>
     ((SendResult \<times> go_error option) + Account) \<times> Service"
where
  "commit_reserve env transactionID key transaction s =
     (let prepared = tx_Preview transaction
      in case service_Account (ps_AccountID prepared) s of
          Inl e \<Rightarrow> (Inl (no_result e), s)
        | Inr item \<Rightarrow>
            (case OpenIndex (vx_rt env 0) item (sv_runtimes s) of
               (Inl e, m) \<Rightarrow> (Inl (no_result e), set_runtimes m s)
             | (Inr db, m) \<Rightarrow>
                 let s1 = set_runtimes m s
                 in case GetSendResultForTransaction (vx_sql env 0) transactionID db of
                     Inl e \<Rightarrow> (Inl (no_result e), s1)
                   | Inr (storedKey, Some existing) \<Rightarrow>
                       (Inl (if storedKey \<noteq> key then no_result other_key_error else sendOutcome existing),
                        cleanupTransaction (vx_removeall env 1) transactionID s1)
                   | Inr (storedKey, None) \<Rightarrow>
                       (case GetSendResult (vx_sql env 1) key (ps_RequestHash prepared) db of
                          Inl e \<Rightarrow>
                            (Inl (no_result (WrapError StatusConflict CodeConflict ''idempotency key conflict'' e)), s1)
                        | Inr (Some existing) \<Rightarrow>
                            (Inl (sendOutcome existing), cleanupTransaction (vx_removeall env 1) transactionID s1)
                        | Inr None \<Rightarrow>
                            (case Driver (ps_AccountID prepared) m of
                               Inl _ \<Rightarrow>
                                 (Inl (no_result (NewError StatusConflict CodeAccountInactive
                                    ''prepared account is no longer active'')), s1)
                             | Inr _ \<Rightarrow>
                                 (case ReserveSend (vx_sql env 2) (vx_now env 1) key transactionID
                                     (ps_RequestHash prepared) provisional db of
                                    (Inl e, db') \<Rightarrow>
                                      (Inl (no_result (WrapError StatusConflict CodeConflict
                                         ''cannot reserve idempotent send'' e)),
                                       set_runtimes (put_index item db' m) s)
                                  | (Inr _, db') \<Rightarrow>
                                      (Inr item, set_runtimes (put_index item db' m) s))))))"

text \<open>The call of the driver, an entry of the account's history.\<close>

definition send_request :: "string \<Rightarrow> preparedTransaction \<Rightarrow> SendRequest" where
  "send_request key transaction =
     (let prepared = tx_Preview transaction
      in \<lparr>rq_ConversationID = ps_ConversationID prepared, rq_Text = ps_Text prepared,
          rq_Attachments = tx_Attachments transaction, rq_ShareSurfaceID = ps_ShareSurfaceID prepared,
          rq_IdempotencyKey = key\<rparr>)"

definition commit_call ::
  "service_env \<Rightarrow> string \<Rightarrow> string \<Rightarrow> preparedTransaction \<Rightarrow> Account \<Rightarrow> Service \<Rightarrow>
     (SendResult \<times> go_error option) \<times> Service"
where
  "commit_call env transactionID key transaction item s =
     (let request = send_request key transaction; answer = vx_Send env request;
          event = \<lparr>ev_key = key, ev_transaction = transactionID, ev_request = request,
            ev_result = fst answer, ev_error = snd answer\<rparr>
      in (answer, s\<lparr>sv_sends := (sv_sends s)(acc_ID item := sv_sends s (acc_ID item) @ [event])\<rparr>))"

definition settled_result :: "SendResult \<Rightarrow> SendResult" where
  "settled_result result =
     (if sr_Verified result then result
      else result\<lparr>sr_Uncertain := True,
             sr_Detail := (if sr_Detail result = [] then ''client could not verify whether the message was sent''
                           else sr_Detail result)\<rparr>)"

definition commit_settle ::
  "service_env \<Rightarrow> string \<Rightarrow> string \<Rightarrow> preparedTransaction \<Rightarrow> Account \<Rightarrow> SendResult \<times> go_error option \<Rightarrow> Service \<Rightarrow>
     (SendResult \<times> go_error option) \<times> Service"
where
  "commit_settle env transactionID key transaction item answer s =
     (let hash = ps_RequestHash (tx_Preview transaction);
          m = sv_runtimes s; db = m_indexes m (acc_ID item);
          cleaned = cleanupTransaction (vx_removeall env 1) transactionID
      in case answer of
          (result, sendErr) \<Rightarrow>
            if sendErr \<noteq> None \<and> \<not> sr_Uncertain result
            then (case DeleteSendReservation (vx_sql env 3) key transactionID hash db of
                    (Inl e, db') \<Rightarrow> (sendOutcome provisional, cleaned (set_runtimes (put_index item db' m) s))
                  | (Inr _, db') \<Rightarrow>
                      (no_result (case classifiedDriverError sendErr of
                           Some classified \<Rightarrow> classified
                         | None \<Rightarrow> WrapError StatusBadGateway CodePartialFailure
                             ''client send failed before any send action'' (the sendErr)),
                       set_runtimes (put_index item db' m) s))
            else (case FinalizeSend (vx_sql env 3) key transactionID hash (settled_result result) db of
                    (Inl e, db') \<Rightarrow> (sendOutcome provisional, cleaned (set_runtimes (put_index item db' m) s))
                  | (Inr _, db') \<Rightarrow>
                      (sendOutcome (settled_result result), cleaned (set_runtimes (put_index item db' m) s))))"

definition commit_guard :: "string \<Rightarrow> bool \<Rightarrow> go_error option" where
  "commit_guard key confirmed =
     (if \<not> confirmed
      then Some (NewError StatusConflict CodeConfirmationRequired ''send transaction requires confirmed=true'')
      else if TrimSpace key = [] \<or> length key > 128
      then Some (NewError StatusBadRequest CodeInvalidArgument ''a bounded idempotency key is required'')
      else None)"

definition CommitSend ::
  "service_env \<Rightarrow> string \<Rightarrow> string \<Rightarrow> bool \<Rightarrow> Service \<Rightarrow> (SendResult \<times> go_error option) \<times> Service"
where
  "CommitSend env transactionID key confirmed s =
     (case commit_guard key confirmed of
        Some e \<Rightarrow> (no_result e, s)
      | None \<Rightarrow>
          (case admit_commit env transactionID s of
             (None, s1) \<Rightarrow> commit_missing env transactionID key s1
           | (Some transaction, s1) \<Rightarrow>
               let released = releaseTransactionCommit (vx_removeall env 2) (vx_now env 2) transactionID
               in case commit_reserve env transactionID key transaction s1 of
                   (Inl outcome, s2) \<Rightarrow> (outcome, released s2)
                 | (Inr item, s2) \<Rightarrow>
                     (case commit_call env transactionID key transaction item s2 of
                        (answer, s3) \<Rightarrow>
                          (case commit_settle env transactionID key transaction item answer s3 of
                             (outcome, s4) \<Rightarrow> (outcome, released s4)))))"

section \<open>Surfaces and shutdown\<close>

definition inactive_error :: go_error where
  "inactive_error = NewError StatusConflict CodeAccountInactive ''account must be active''"

definition driver_answer :: "'a \<Rightarrow> 'a \<times> go_error option \<Rightarrow> 'a \<times> go_error option" where
  "driver_answer zero answer =
     (case classifiedDriverError (snd answer) of Some classified \<Rightarrow> (zero, Some classified) | None \<Rightarrow> answer)"

definition service_OpenSurface ::
  "(string \<Rightarrow> Surface \<times> go_error option) \<Rightarrow> Surface \<Rightarrow> string \<Rightarrow> string \<Rightarrow> Service \<Rightarrow> Surface \<times> go_error option"
where
  "service_OpenSurface open_ref zero v ref s =
     (case Driver v (sv_runtimes s) of
        Inl _ \<Rightarrow> (zero, Some inactive_error)
      | Inr _ \<Rightarrow> driver_answer zero (open_ref ref))"

definition service_OpenNamedSurface ::
  "(NamedSurface \<Rightarrow> Surface \<times> go_error option) option \<Rightarrow> Surface \<Rightarrow> string \<Rightarrow> NamedSurface \<Rightarrow> Service \<Rightarrow>
     Surface \<times> go_error option"
where
  "service_OpenNamedSurface opener zero v target s =
     (case Driver v (sv_runtimes s) of
        Inl _ \<Rightarrow> (zero, Some inactive_error)
      | Inr _ \<Rightarrow>
          (case opener of
             None \<Rightarrow> (zero, Some (NewError StatusConflict CodeUnsupportedCapability
                 ''the active driver cannot open mini programs by name''))
           | Some call \<Rightarrow> driver_answer zero (call target)))"

definition service_SnapshotSurface ::
  "(string \<Rightarrow> Surface \<times> go_error option) \<Rightarrow> Surface \<Rightarrow> string \<Rightarrow> string \<Rightarrow> Service \<Rightarrow> Surface \<times> go_error option"
where
  "service_SnapshotSurface snapshot zero v i s =
     (case Driver v (sv_runtimes s) of
        Inl _ \<Rightarrow> (zero, Some inactive_error)
      | Inr _ \<Rightarrow> driver_answer zero (snapshot i))"

definition forbidden_actions :: "string list" where
  "forbidden_actions = [''pay'', ''transfer'', ''red-packet'', ''grant-permission'']"

definition service_ActSurface ::
  "(string \<Rightarrow> SurfaceAction \<Rightarrow> Surface \<times> go_error option) \<Rightarrow> Surface \<Rightarrow> string \<Rightarrow> string \<Rightarrow> SurfaceAction \<Rightarrow> Service \<Rightarrow>
     Surface \<times> go_error option"
where
  "service_ActSurface act zero v i action s =
     (case Driver v (sv_runtimes s) of
        Inl _ \<Rightarrow> (zero, Some inactive_error)
      | Inr _ \<Rightarrow>
          if sact_ActionID action \<in> set forbidden_actions
          then (zero, Some (NewError StatusConflict CodeUserActionRequired
                  ''this action requires direct user interaction''))
          else driver_answer zero (act i action))"

definition service_CloseSurface ::
  "(string \<Rightarrow> go_error option) \<Rightarrow> string \<Rightarrow> string \<Rightarrow> Service \<Rightarrow> go_error option"
where
  "service_CloseSurface close v i s =
     (case Driver v (sv_runtimes s) of
        Inl _ \<Rightarrow> Some inactive_error
      | Inr _ \<Rightarrow> snd (driver_answer () ((), close i)))"

definition service_ExportSurfaceAsset ::
  "(string \<Rightarrow> string \<Rightarrow> SurfaceAssetExport \<times> go_error option) option \<Rightarrow> SurfaceAssetExport \<Rightarrow> string \<Rightarrow> string \<Rightarrow> string \<Rightarrow>
     Service \<Rightarrow> SurfaceAssetExport \<times> go_error option"
where
  "service_ExportSurfaceAsset exporter zero v i token s =
     (case Driver v (sv_runtimes s) of
        Inl _ \<Rightarrow> (zero, Some inactive_error)
      | Inr _ \<Rightarrow>
          (case exporter of
             None \<Rightarrow> (zero, Some (NewError StatusConflict CodeUnsupportedCapability
                 ''the active driver cannot export surface assets''))
           | Some call \<Rightarrow> driver_answer zero (call i token)))"

text \<open>
  \<^verbatim>\<open>Close\<close> after \<^verbatim>\<open>auth.CloseAll\<close>: the transactions, then the runtimes; both errors are reported.
\<close>

definition service_Close ::
  "removal \<Rightarrow> (Manager \<Rightarrow> go_error option \<times> Manager) \<Rightarrow> Service \<Rightarrow> go_error option \<times> Service"
where
  "service_Close rm shutdown s =
     (case closeTransactions rm s of
        (stagingErr, s1) \<Rightarrow>
          (case shutdown (sv_runtimes s1) of
             (err, m) \<Rightarrow> (errors_Join [stagingErr, err], set_runtimes m s1)))"

text \<open>The daemon's memory after a crash: the registry, the indexes and the staged files remain.\<close>

definition crash :: "Service \<Rightarrow> Service" where
  "crash s = service_New (sv_paths s)
     (NewManager (m_accounts (sv_runtimes s)) (m_indexes (sv_runtimes s))) (sv_staging s) (sv_sends s)"

end
