(* ===== verification/Lifecycle_Props.thy ===== *)
theory Lifecycle_Props
  imports Runtime_Props
begin

text \<open>
  The properties of the runtime manager, over the invariant of \<^verbatim>\<open>Runtime_Props\<close>: what holds of every
  reachable manager, what failed operations leave behind, and that a closed manager stays closed.
\<close>

section \<open>Registry writes that succeed\<close>

lemma commit_write_ok:
  assumes "en_write env = write_ok"
  obtains s' where "commit_registry env data v s = (Inr v, s')" "s_data s' = data"
proof -
  have "fst (AtomicWrite write_ok (p_Registry (s_paths s)) (RegistryJSON (encode_registry data)) 0x180 (s_files s)) = None"
    by (rule AtomicWrite_write_ok)
  then have "fst (saveDataLocked env data s) = None"
    using assms by (auto simp: saveDataLocked_def split: prod.splits)
  then obtain s1 where "saveDataLocked env data s = (None, s1)" by (metis prod.collapse)
  then show thesis by (intro that [of "s1\<lparr>s_data := data\<rparr>"]) (simp_all add: commit_registry_def)
qed

lemma fst_commit_write_ok: "en_write env = write_ok \<Longrightarrow> fst (commit_registry env data v s) = Inr v"
  by (erule commit_write_ok [of env data v s]) simp

lemma Deactivate_effect:
  assumes "en_write env = write_ok" and "store_inv s" and "a \<in> set (reg_Accounts (s_data s))" and "\<not> acc_Deleting a"
  shows "\<not> isl (fst (Deactivate env (acc_ID a) s)) \<and>
    (\<forall>b \<in> set (reg_Accounts (s_data (snd (Deactivate env (acc_ID a) s)))). acc_ID b = acc_ID a \<longrightarrow> \<not> acc_Active b)"
proof -
  have r: "resolveLocked (acc_ID a) s = Inr a" using Resolve_id [OF assms(2,3)] by (simp add: Resolve_def)
  define ups where "ups = update_where (\<lambda>b. acc_ID b = acc_ID a) (stop_account (en_now env)) (reg_Accounts (s_data s))"
  obtain s' where c: "commit_registry env ((s_data s)\<lparr>reg_Accounts := ups\<rparr>)
      (last_or a (filter (\<lambda>b. acc_ID b = acc_ID a) ups)) s =
      (Inr (last_or a (filter (\<lambda>b. acc_ID b = acc_ID a) ups)), s')" "s_data s' = (s_data s)\<lparr>reg_Accounts := ups\<rparr>"
    using commit_write_ok [OF assms(1)] by metis
  have "\<not> acc_Active b" if "b \<in> set ups" "acc_ID b = acc_ID a" for b
    using that by (auto simp: ups_def set_update_where stop_account_def)
  then show ?thesis using r assms(4) c by (simp add: Deactivate_def Let_def ups_def)
qed

section \<open>What a failed launch leaves behind\<close>

definition launch_fault :: "runtime_env \<Rightarrow> go_error option" where
  "launch_fault env =
     (case re_MkdirAll env of Some e \<Rightarrow> Some e
      | None \<Rightarrow> (case re_factory env of Some e \<Rightarrow> Some e | None \<Rightarrow> re_Start env))"

lemma launch_failed:
  assumes "launch_fault env = Some e" and "Activate (re_store env 0) i (m_accounts m) = (Inr (act, x), s)"
  shows "launch env i restoring m =
    (Inl e, recordActivationFailure env (acc_ID act) e restoring (m\<lparr>m_accounts := s\<rparr>))"
  using assms by (auto simp: launch_fault_def launch_def Let_def split: option.splits)

lemma UpdateStatus_member:
  assumes "slot_ok (s_data s) p i"
  shows "slot_ok (s_data (snd (UpdateStatus env i st s))) p i"
  using slot_UpdateStatus [OF prod.collapse [symmetric] assms] .

lemma recordActivationFailure_inactive:
  assumes inv: "store_inv (m_accounts m)" and own: "slot_ok (s_data (m_accounts m)) p i"
    and writes: "en_write (re_store env 2) = write_ok"
  shows "\<forall>b \<in> set (reg_Accounts (s_data (m_accounts (recordActivationFailure env i e False m)))).
    acc_ID b = i \<longrightarrow> \<not> acc_Active b"
proof -
  let ?s = "snd (UpdateStatus (re_store env 1) i (degraded (re_now env) e) (m_accounts m))"
  have inv1: "store_inv ?s" by (rule UpdateStatus_preserves [OF prod.collapse [symmetric] inv])
  obtain b where b: "b \<in> set (reg_Accounts (s_data ?s))" "acc_ID b = i"
    using UpdateStatus_member [OF own] unfolding slot_ok_def by blast
  have "\<not> acc_Deleting b" using slot_not_deleting [OF inv1 UpdateStatus_member [OF own] b] by simp
  from Deactivate_effect [OF writes inv1 b(1) this] b(2)
  show ?thesis by (simp add: recordActivationFailure_def discard_def Let_def)
qed

lemma recordActivationFailure_restoring:
  "slot_ok (s_data (m_accounts m)) p i \<Longrightarrow>
     slot_ok (s_data (m_accounts (recordActivationFailure env j e True m))) p i"
  using slot_UpdateStatus [OF prod.collapse [symmetric]]
  by (simp add: recordActivationFailure_def discard_def Let_def)

lemma recordActivationFailure_frame:
  "m_active (recordActivationFailure env i e restoring m) = m_active m"
  by (simp add: recordActivationFailure_def discard_def Let_def)

lemma slot_stays_active:
  assumes "slot_ok (s_data (m_accounts m)) p i" and "launch env i True m = (r, m')" and "store_inv (m_accounts m)"
  shows "slot_ok (s_data (m_accounts m')) p i"
proof (cases "Activate (re_store env 0) i (m_accounts m)")
  case (Pair res s)
  obtain a where a: "a \<in> set (reg_Accounts (s_data (m_accounts m)))" "acc_ID a = i" "acc_Platform a = p"
    using assms(1) by (auto simp: slot_ok_def)
  show ?thesis
  proof (cases res)
    case (Inl e)
    then have "slot_ok (s_data s) p i"
      using slot_Activate_other [OF Pair assms(1,3)] by simp
    then show ?thesis using assms(2) Pair Inl by (auto simp: launch_def)
  next
    case (Inr v)
    obtain act x where v: "v = (act, x)" by (cases v)
    have A: "Activate (re_store env 0) (acc_ID a) (m_accounts m) = (Inr (act, x), s)" using Pair Inr v a by simp
    have own: "slot_ok (s_data s) p i"
      using slot_Activate_target [OF A assms(3)] Activate_same [OF A assms(3) a(1)] a by simp
    have status: "slot_ok (s_data (snd (UpdateStatus e (acc_ID act) st s))) p i" for e st
      by (rule slot_UpdateStatus [OF prod.collapse [symmetric] own])
    have fail: "slot_ok (s_data (m_accounts (recordActivationFailure env (acc_ID act) e True (m\<lparr>m_accounts := s\<rparr>)))) p i" for e
      by (rule recordActivationFailure_restoring) (simp add: own)
    show ?thesis using assms(2) fail status A a(2)
      by (auto simp: launch_def Let_def discard_def runtime_defs split: option.splits sum.splits)
  qed
qed

section \<open>Ingestion\<close>

lemma max_cursor_bounds:
  "cursor \<le> max_cursor cursor ms \<and> (\<forall>message \<in> set ms. ms_Sequence message \<le> max_cursor cursor ms) \<and>
     (max_cursor cursor ms = cursor \<or> (\<exists>message \<in> set ms. max_cursor cursor ms = ms_Sequence message))"
proof (induction ms arbitrary: cursor)
  case (Cons message ms)
  from Cons.IH [of "if ms_Sequence message > cursor then ms_Sequence message else cursor"] show ?case
    unfolding max_cursor_def foldl.simps by (auto split: if_splits)
qed (simp add: max_cursor_def)

lemma ingestOnce_cases:
  assumes "ingestOnce env rid m = (err, m')"
  obtains (failed) "err \<noteq> None" "m_heap m' = m_heap m"
  | (ingested) ms m1 db db' new where "err = None" "re_ReadMessages env (rt_cursor (m_heap m rid)) = Inr ms"
      "AddMessages (re_sql env) ms db = (Inr new, db')" "m_heap m1 = m_heap m"
      "m' = set_runtime rid (rt_cursor_update (\<lambda>_. max_cursor (rt_cursor (m_heap m rid)) ms))
         (put_index (rt_account (m_heap m rid)) db' m1)"
proof (cases "rt_stopping (m_heap m rid) \<or> isl (re_ListConversations env)")
  case True
  then show thesis using assms failed by (cases "re_ListConversations env") (auto simp: ingestOnce_def Let_def split: if_splits)
next
  case False
  then obtain cs where cs: "re_ListConversations env = Inr cs" by (cases "re_ListConversations env") auto
  obtain r m1 where o: "OpenIndex env (rt_account (m_heap m rid)) m = (r, m1)" by fastforce
  note heap = OpenIndex_frame [OF o]
  show thesis
  proof (cases r)
    case (Inl e)
    then show thesis using assms False cs o heap by (intro failed) (auto simp: ingestOnce_def Let_def)
  next
    case (Inr db)
    obtain r1 db1 where u: "UpsertConversations (re_sql env) cs db = (r1, db1)" by fastforce
    show thesis
    proof (cases "isl r1 \<or> isl (re_ReadMessages env (rt_cursor (m_heap m rid)))")
      case True
      then show thesis using assms False cs o heap Inr u
        by (intro failed) (auto simp: ingestOnce_def Let_def put_index_def isl_def split: sum.splits)
    next
      case ok: False
      then obtain ms where ms: "re_ReadMessages env (rt_cursor (m_heap m rid)) = Inr ms" and r1: "r1 = Inr ()"
        by (cases r1; cases "re_ReadMessages env (rt_cursor (m_heap m rid))") auto
      obtain r2 db2 where a: "AddMessages (re_sql env) ms db1 = (r2, db2)" by fastforce
      show thesis
      proof (cases r2)
        case (Inl e)
        then show thesis using assms False cs o heap \<open>r = Inr db\<close> u ms r1 a
          by (intro failed) (auto simp: ingestOnce_def Let_def put_index_def)
      next
        case new: (Inr new)
        show thesis using assms False cs o heap Inr u ms r1 a new
          by (intro ingested [of ms db1 new db2 m1]) (simp_all add: ingestOnce_def Let_def)
      qed
    qed
  qed
qed

section \<open>A concrete manager\<close>

definition demo_runtime :: runtime_env where
  "demo_runtime = \<lparr>re_now = 2, re_lock = None, re_drain = None, re_ingestMu = None, re_Stop = None,
     re_MkdirAll = None, re_factory = None, re_Start = None,
     re_Status = Inr (zero_status\<lparr>st_State := StateOnline\<rparr>), re_ListConversations = Inr (db_conversations demo_db),
     re_ReadMessages = (\<lambda>_. Inr [(demo_message ''1'')\<lparr>ms_Sequence := 7\<rparr>]), re_Purge = None, re_purger = True,
     re_open = no_faults, re_sql = no_faults, re_store = (\<lambda>_. demo_env)\<rparr>"

definition demo_manager :: Manager where
  "demo_manager = Register PlatformWeChat (NewManager demo_store (\<lambda>_. empty_db))"

definition running_manager :: Manager where
  "running_manager = snd (activate_locked demo_runtime ''alice'' False demo_manager)"

definition demo_id :: string where
  "demo_id = ''00000000-0000-4000-8000-000000000000''"

lemma demo_start: "manager_start (NewManager demo_store (\<lambda>_. empty_db))"
  using demo_store_inv empty_db_inv by (auto simp: manager_start_def)

lemma demo_run: "manager_step\<^sup>*\<^sup>* (NewManager demo_store (\<lambda>_. empty_db)) running_manager"
proof -
  have "manager_step (NewManager demo_store (\<lambda>_. empty_db)) demo_manager"
    unfolding demo_manager_def by (rule FactoryRegistered)
  moreover have "manager_step demo_manager running_manager"
    unfolding running_manager_def by (rule SlotActivated) (rule prod.collapse [symmetric])
  ultimately show ?thesis by simp
qed

lemma running_inv: "manager_inv running_manager"
  by (rule runtime_manager.reachable_inv [OF demo_start demo_run])

lemma running_slot: "m_active running_manager PlatformWeChat = Some 0"
  by code_simp

section \<open>Properties\<close>

text \<open>C22. In every state the daemon can reach, a platform's slot holds a runtime of the account that
  the registry records as active on that platform; that account is not being deleted, its driver
  is not being stopped, and its messages are ingested or a repair of its loop is pending. A closed
  manager has no runtime.\<close>

theorem runtime_slots_agree:
  assumes "manager_start m0" and "manager_step\<^sup>*\<^sup>* m0 m"
  shows "(\<forall>p rid. m_active m p = Some rid \<longrightarrow>
      (\<exists>a \<in> set (reg_Accounts (s_data (m_accounts m))). acc_ID a = acc_ID (rt_account (m_heap m rid)) \<and>
         acc_Platform a = p \<and> acc_Active a \<and> \<not> acc_Deleting a) \<and>
      \<not> rt_stopping (m_heap m rid) \<and>
      (rt_ingesting (m_heap m rid) \<or> (rid, rt_done (m_heap m rid)) \<in> set (m_repairs m))) \<and>
    (m_closed m \<longrightarrow> (\<forall>p. m_active m p = None))"
proof -
  have inv: "manager_inv m" by (rule runtime_manager.reachable_inv [OF assms])
  have "\<exists>a \<in> set (reg_Accounts (s_data (m_accounts m))). acc_ID a = acc_ID (rt_account (m_heap m rid)) \<and>
      acc_Platform a = p \<and> acc_Active a \<and> \<not> acc_Deleting a"
    if "m_active m p = Some rid" for p rid
  proof -
    have s: "slot_ok (s_data (m_accounts m)) p (acc_ID (rt_account (m_heap m rid)))"
      using manager_invD(3) [OF inv that] by (simp add: live_def)
    then show ?thesis using slot_not_deleting [OF manager_invD(1) [OF inv] s] by (auto simp: slot_ok_def)
  qed
  then show ?thesis using manager_invD(3,4) [OF inv] by (auto simp: live_def)
qed

theorem runtime_slots_agree_witness:
  "m_active running_manager PlatformWeChat = Some 0 \<and>
     (\<exists>a \<in> set (reg_Accounts (s_data (m_accounts running_manager))). acc_Platform a = PlatformWeChat \<and> acc_Active a)"
  using runtime_slots_agree [OF demo_start demo_run] running_slot by blast

text \<open>An account whose driver runs cannot be marked for deletion: the request fails and changes
  nothing, so stored messages and profiles are only removed below a stopped client.\<close>

theorem running_account_not_deletable:
  assumes "manager_inv m" and "Driver v m = Inr (target, rid)"
  shows "\<exists>e. begin_delete env id v m = (Inl e, m)"
proof -
  have t: "Resolve v (m_accounts m) = Inr target" "m_active m (acc_Platform target) = Some rid"
    "acc_ID (rt_account (m_heap m rid)) = acc_ID target"
    using assms(2) by (auto simp: Driver_def split: sum.splits if_splits option.splits)
  have "slot_ok (s_data (m_accounts m)) (acc_Platform target) (acc_ID target)"
    using manager_invD(3) [OF assms(1) t(2)] t(3) by (simp add: live_def)
  from slot_not_deleting [OF manager_invD(1) [OF assms(1)] this ResolveD [OF t(1)]]
  have "acc_Active target" by simp
  moreover have "Resolve (acc_ID target) (m_accounts m) = Inr target"
    by (rule Resolve_id [OF manager_invD(1) [OF assms(1)] ResolveD [OF t(1)]])
  ultimately show ?thesis using t(1) by (simp add: begin_delete_def BeginDelete_def Resolve_def)
qed

theorem running_account_not_deletable_witness:
  "\<exists>e. begin_delete demo_runtime id ''alice'' running_manager = (Inl e, running_manager)"
proof -
  have "case Driver ''alice'' running_manager of Inl _ \<Rightarrow> False | Inr _ \<Rightarrow> True" by code_simp
  then obtain target rid where "Driver ''alice'' running_manager = Inr (target, rid)"
    by (auto split: sum.splits)
  then show ?thesis by (rule running_account_not_deletable [OF running_inv])
qed

text \<open>C31. A deactivation whose stop fails loses nothing: the error is returned, slot and registry are as
  before, and the ingestion loop runs again - at once, or as soon as the pending repair has run.\<close>

theorem failed_stop_recovers:
  assumes "manager_inv m" and "Driver v m = Inr (target, rid)"
    and "fst (stopRuntime env rid True m) = Some e" and "deactivate_locked env (acc_ID target) m = (r, m')"
  shows "isl r \<and> m_active m' = m_active m \<and> m_accounts m' = m_accounts m \<and>
    (rt_ingesting (m_heap m' rid) \<or>
     (rid, rt_done (m_heap m' rid)) \<in> set (m_repairs m') \<and>
     rt_ingesting (m_heap (run_repair (rid, rt_done (m_heap m' rid)) m') rid))"
proof -
  have t: "Resolve v (m_accounts m) = Inr target" "m_active m (acc_Platform target) = Some rid"
    "acc_ID (rt_account (m_heap m rid)) = acc_ID target" "\<not> acc_Deleting target"
    using assms(2) by (auto simp: Driver_def split: sum.splits if_splits option.splits)
  have "Resolve (acc_ID target) (m_accounts m) = Inr target"
    by (rule Resolve_id [OF manager_invD(1) [OF assms(1)] ResolveD [OF t(1)]])
  moreover obtain m1 where st: "stopRuntime env rid True m = (Some e, m1)" using assms(3) by (metis prod.collapse)
  ultimately have m': "m' = m1" and err: "isl r"
    using assms(4) t by (auto simp: deactivate_locked_def isl_def)
  note f = stopRuntime_frame [OF st]
  have inv: "manager_inv m1" by (rule stopRuntime_failed_inv [OF st assms(1)])
  have slot: "m_active m1 (acc_Platform target) = Some rid" using f t(2) by simp
  have "rt_ingesting (m_heap m1 rid) \<or> (rid, rt_done (m_heap m1 rid)) \<in> set (m_repairs m1)"
    using manager_invD(3) [OF inv slot] by (simp add: live_def)
  moreover have "rt_ingesting (m_heap (run_repair (rid, rt_done (m_heap m1 rid)) m1) rid)"
    unfolding run_repair_live [OF inv slot] by (simp add: runtime_defs)
  ultimately show ?thesis using f err m' by auto
qed

theorem failed_stop_recovers_witness:
  "\<exists>m'. deactivate_locked (demo_runtime\<lparr>re_drain := Some (ErrNew ''deadline'')\<rparr>) demo_id running_manager =
     (Inl (ErrWrapf ''stop wechat account alice: '' (ErrNew ''deadline'') []), m') \<and>
     m_active m' = m_active running_manager"
proof -
  let ?env = "demo_runtime\<lparr>re_drain := Some (ErrNew ''deadline'')\<rparr>"
  have "case Driver ''alice'' running_manager of Inl _ \<Rightarrow> False | Inr (a, rid) \<Rightarrow> acc_ID a = demo_id \<and> rid = 0"
    by code_simp
  then obtain target where d: "Driver ''alice'' running_manager = Inr (target, 0)" "acc_ID target = demo_id"
    by (auto split: sum.splits)
  have s: "fst (stopRuntime ?env 0 True running_manager) = Some (ErrNew ''deadline'')"
    by (simp add: stopRuntime_def Let_def)
  have "fst (deactivate_locked ?env demo_id running_manager) =
      Inl (ErrWrapf ''stop wechat account alice: '' (ErrNew ''deadline'') [])" by code_simp
  then obtain m' where m': "deactivate_locked ?env demo_id running_manager =
      (Inl (ErrWrapf ''stop wechat account alice: '' (ErrNew ''deadline'') []), m')" by (metis prod.collapse)
  from failed_stop_recovers [OF running_inv d(1) s, unfolded d(2), OF m'] m' show ?thesis by blast
qed

text \<open>C32. The ingestion cursor is safe: it never moves back, it moves only when the batch was committed
  to the account's index, and then every message of the batch is in that index and the cursor is
  the largest sequence seen; after any error the next round reads from the same place.\<close>

theorem ingest_cursor_committed:
  assumes "ingestOnce env rid m = (err, m')"
  shows "case err of
      Some e \<Rightarrow> rt_cursor (m_heap m' rid) = rt_cursor (m_heap m rid)
    | None \<Rightarrow> \<exists>ms. re_ReadMessages env (rt_cursor (m_heap m rid)) = Inr ms \<and>
        rt_cursor (m_heap m rid) \<le> rt_cursor (m_heap m' rid) \<and>
        (\<forall>message \<in> set ms. ms_Sequence message \<le> rt_cursor (m_heap m' rid) \<and>
           absorbed (m_indexes m' (acc_ID (rt_account (m_heap m rid)))) message) \<and>
        (rt_cursor (m_heap m' rid) = rt_cursor (m_heap m rid) \<or>
         (\<exists>message \<in> set ms. ms_Sequence message = rt_cursor (m_heap m' rid)))"
  using assms
proof (cases rule: ingestOnce_cases)
  case failed
  then show ?thesis by (auto split: option.splits)
next
  case (ingested ms m1 db db' new)
  have "\<forall>message \<in> set ms. absorbed db' message"
    using ingested(3) by (cases rule: AddMessages_cases) (auto dest: add_loop_absorbs)
  then show ?thesis using ingested max_cursor_bounds [of "rt_cursor (m_heap m rid)" ms]
    by (auto simp: set_runtime_def put_index_def)
qed

theorem ingest_cursor_committed_witness:
  "\<exists>m'. ingestOnce demo_runtime 0 running_manager = (None, m') \<and> rt_cursor (m_heap m' 0) \<ge> 7"
proof -
  have "fst (ingestOnce demo_runtime 0 running_manager) = None" by code_simp
  then obtain m' where m': "ingestOnce demo_runtime 0 running_manager = (None, m')" by (metis prod.collapse)
  from ingest_cursor_committed [OF m'] m' show ?thesis by (auto simp: demo_runtime_def)
qed

text \<open>Shutdown is final: once it has the two platform locks, the manager is closed and without
  runtimes in every later state, so no request reaches a driver any more.\<close>

theorem shutdown_final:
  assumes "manager_inv m" and "re_lock l1 = None" and "re_lock l2 = None"
    and "Shutdown l1 l2 envs expired m = (err, m')" and "manager_step\<^sup>*\<^sup>* m' m''"
  shows "m_closed m'' \<and> (\<forall>p. m_active m'' p = None) \<and> isl (Driver v m'')"
proof -
  have inv: "manager_inv m'" by (rule Shutdown_inv [OF assms(4,1)])
  have "m_closed m'" using assms(2-4)
    by (auto simp: Shutdown_def Let_def split: prod.splits option.splits dest!: stop_each_frame)
  then have closed: "m_closed m''" using runtime_manager.run_rel [OF assms(5) inv] by (simp add: closes_def)
  then have none: "\<forall>p. m_active m'' p = None"
    using manager_invD(4) runtime_manager.run_inv [OF assms(5) inv] by blast
  then show ?thesis using closed by (auto simp: Driver_def split: sum.splits)
qed

theorem shutdown_final_witness:
  "isl (Driver ''alice'' (snd (Shutdown demo_runtime demo_runtime (\<lambda>_. demo_runtime) None running_manager)))"
proof -
  have "re_lock demo_runtime = None" by (simp add: demo_runtime_def)
  from shutdown_final [OF running_inv this this prod.collapse [symmetric] rtranclp.rtrancl_refl]
  show ?thesis by blast
qed

text \<open>C30. An automatic restore never undoes what the user asked for: whatever fails - the stop of
  another runtime, the registry write, the directory, the factory, the start or the first status -
  the account that was active in the registry is active in it afterwards.\<close>

theorem restore_keeps_request:
  assumes "manager_inv m" and "a \<in> set (reg_Accounts (s_data (m_accounts m)))" and "acc_Active a"
    and "activate_locked env (acc_ID a) True m = (r, m')"
  shows "\<exists>b \<in> set (reg_Accounts (s_data (m_accounts m'))). acc_ID b = acc_ID a \<and> acc_Active b"
proof -
  note inv = manager_invD(1) [OF assms(1)]
  have own: "slot_ok (s_data (m_accounts m)) (acc_Platform a) (acc_ID a)" using assms(2,3) by (auto simp: slot_ok_def)
  have target: "Resolve (acc_ID a) (m_accounts m) = Inr a" by (rule Resolve_id [OF inv assms(2)])
  have del: "\<not> acc_Deleting a" using slot_not_deleting [OF inv own assms(2)] by simp
  have "slot_ok (s_data (m_accounts m')) (acc_Platform a) (acc_ID a)"
  proof (cases "m_active m (acc_Platform a)")
    case None
    then show ?thesis using assms(3,4) target del own slot_stays_active [OF own _ inv]
      by (auto simp: activate_locked_def split: if_splits)
  next
    case (Some rid)
    obtain err m1 where st: "stopRuntime env rid True m = (err, m1)" by fastforce
    note f = stopRuntime_frame [OF st]
    have launched: "slot_ok (s_data (m_accounts m'')) (acc_Platform a) (acc_ID a)"
      if "launch env (acc_ID a) True (set_slot (acc_Platform a) None m1) = (r', m'')" for r' m''
      using slot_stays_active [OF _ that] own inv f by (simp add: set_slot_def)
    have same: "slot_ok (s_data (m_accounts m'')) (acc_Platform a) (acc_ID a)"
      if "already_active env True rid m = (r', m'')" for r' m''
      using that own by (auto simp: already_active_def Let_def discard_def split: sum.splits
          intro: slot_UpdateStatus [OF prod.collapse [symmetric]])
    have m': "m' = m \<or> already_active env True rid m = (r, m') \<or> m' = m1 \<or>
        launch env (acc_ID a) True (set_slot (acc_Platform a) None m1) = (r, m')"
      using assms(3,4) target del Some st by (cases err) (auto simp: activate_locked_def split: if_splits)
    have "slot_ok (s_data (m_accounts m1)) (acc_Platform a) (acc_ID a)" using own f by simp
    then show ?thesis using m' own launched same by blast
  qed
  then show ?thesis by (auto simp: slot_ok_def)
qed

theorem restore_keeps_request_witness:
  "\<exists>r m'. activate_locked (demo_runtime\<lparr>re_Status := Inl (ErrNew ''down'')\<rparr>) demo_id True running_manager = (r, m') \<and>
     (\<exists>b \<in> set (reg_Accounts (s_data (m_accounts m'))). acc_ID b = demo_id \<and> acc_Active b)"
proof -
  obtain a where a: "a \<in> set (reg_Accounts (s_data (m_accounts running_manager)))" "acc_Active a"
    "acc_ID a = acc_ID (rt_account (m_heap running_manager 0))"
    using manager_invD(3) [OF running_inv running_slot] by (auto simp: live_def slot_ok_def)
  have "acc_ID (rt_account (m_heap running_manager 0)) = demo_id" by code_simp
  then show ?thesis using restore_keeps_request [OF running_inv a(1,2) prod.collapse [symmetric]] a(3)
    by (metis prod.collapse)
qed

text \<open>An explicit activation that fails rolls back: when the runtime directory, the factory or the
  start fails, the error is returned, no runtime occupies the platform's slot, and the account is
  inactive in the registry.\<close>

theorem failed_activation_rolls_back:
  assumes "manager_inv m" and "a \<in> set (reg_Accounts (s_data (m_accounts m)))" and "\<not> acc_Deleting a"
    and "\<not> m_closed m" and "m_factories m (acc_Platform a)" and "m_active m (acc_Platform a) = None"
    and "launch_fault env = Some e" and "\<forall>n. en_write (re_store env n) = write_ok"
  shows "\<exists>m'. activate_locked env (acc_ID a) False m = (Inl e, m') \<and> m_active m' (acc_Platform a) = None \<and>
    (\<forall>b \<in> set (reg_Accounts (s_data (m_accounts m'))). acc_ID b = acc_ID a \<longrightarrow> \<not> acc_Active b)"
proof -
  note inv = manager_invD(1) [OF assms(1)]
  have target: "Resolve (acc_ID a) (m_accounts m) = Inr a" by (rule Resolve_id [OF inv assms(2)])
  then have rl: "resolveLocked (acc_ID a) (m_accounts m) = Inr a" by (simp add: Resolve_def)
  have "\<not> isl (fst (Activate (re_store env 0) (acc_ID a) (m_accounts m)))"
    using assms(3,8) rl by (simp add: Activate_def Let_def fst_commit_write_ok)
  then obtain act x s where A: "Activate (re_store env 0) (acc_ID a) (m_accounts m) = (Inr (act, x), s)"
    by (metis isl_def prod.collapse sum.exhaust)
  note same = Activate_same [OF A inv assms(2)]
  let ?m = "m\<lparr>m_accounts := s\<rparr>"
  have "activate_locked env (acc_ID a) False m =
      (Inl e, recordActivationFailure env (acc_ID act) e False ?m)"
    using target assms(3-6) launch_failed [OF assms(7) A] by (simp add: activate_locked_def)
  moreover have "\<forall>b \<in> set (reg_Accounts (s_data (m_accounts (recordActivationFailure env (acc_ID act) e False ?m)))).
      acc_ID b = acc_ID act \<longrightarrow> \<not> acc_Active b"
  proof (rule recordActivationFailure_inactive)
    show "store_inv (m_accounts ?m)" using Activate_preserves [OF A inv] by simp
    show "slot_ok (s_data (m_accounts ?m)) (acc_Platform act) (acc_ID act)"
      using slot_Activate_target [OF A inv] by simp
  qed (use assms(8) in simp)
  ultimately show ?thesis using same assms(6) by (simp add: recordActivationFailure_frame)
qed

theorem failed_activation_rolls_back_witness:
  "\<exists>m'. activate_locked (demo_runtime\<lparr>re_Start := Some (ErrNew ''boom'')\<rparr>) demo_id False demo_manager =
     (Inl (ErrNew ''boom''), m') \<and> m_active m' PlatformWeChat = None"
proof -
  let ?env = "demo_runtime\<lparr>re_Start := Some (ErrNew ''boom'')\<rparr>"
  let ?a = "hd (reg_Accounts (s_data (m_accounts demo_manager)))"
  have inv: "manager_inv demo_manager"
    using manager_step_inv [OF manager_start_inv [OF demo_start] FactoryRegistered] by (simp add: demo_manager_def)
  have "reg_Accounts (s_data (m_accounts demo_manager)) \<noteq> []" by code_simp
  then have a: "?a \<in> set (reg_Accounts (s_data (m_accounts demo_manager)))" by simp
  have i: "acc_ID ?a = demo_id" and p: "acc_Platform ?a = PlatformWeChat" and d: "\<not> acc_Deleting ?a" by code_simp+
  have free: "m_active demo_manager PlatformWeChat = None" "\<not> m_closed demo_manager" "m_factories demo_manager PlatformWeChat"
    by (simp_all add: demo_manager_def Register_def NewManager_def)
  have fault: "launch_fault ?env = Some (ErrNew ''boom'')" "\<forall>n. en_write (re_store ?env n) = write_ok"
    by (simp_all add: launch_fault_def demo_runtime_def demo_env_def)
  from failed_activation_rolls_back [OF inv a d free(2) free(3) [folded p] free(1) [folded p] fault]
  show ?thesis unfolding i p by blast
qed

end
