(* ===== verification/Send_Props.thy ===== *)
theory Send_Props
  imports Send_Service Lifecycle_Props
begin

text \<open>
  Correctness of sending: a request reaches the official client at most once per idempotency key
  and per transaction, also across crashes and retries; replies are replayed from the journal;
  nothing is sent without confirmation or after expiry; the request hash determines the request.
\<close>

section \<open>What keeps the send journal\<close>

abbreviation held :: "index_db \<Rightarrow> (string \<times> string) set" where
  "held \<equiv> send_journal.held db_send_results"

lemmas held_def = send_journal.held_def [OF journal_laws]
lemmas held_reserve = send_journal.reserve_held [OF journal_laws]
lemmas held_finalize = send_journal.finalize_held [OF journal_laws]
lemmas held_release = send_journal.release_held [OF journal_laws]

lemma held_cong:
  "map (\<lambda>r. (sn_idempotency_key r, sn_transaction_id r)) (db_send_results db') =
     map (\<lambda>r. (sn_idempotency_key r, sn_transaction_id r)) (db_send_results db) \<Longrightarrow> held db' = held db"
  unfolding held_def by (metis set_map)

lemma held_empty [simp]: "held empty_db = {}"
  by (simp add: held_def empty_db_def)

lemma migrate_held: "migrate q acc db = (err, db') \<Longrightarrow> held db' = held db"
proof (erule migrate_shape)
  fix d1 e1 e2
  assume e: "ensureSendStateColumn q db = (e1, d1)"
    and d: "db' = d1 \<or> ensureMessageGapBeforeColumn q d1 = (e2, db')"
  from e have "held d1 = held db"
    by (cases rule: ensureSendStateColumn_cases) (auto intro!: held_cong simp: comp_def)
  moreover from d have "held db' = held d1"
    by (elim disjE) (auto elim!: ensureMessageGapBeforeColumn_cases intro!: held_cong)
  ultimately show ?thesis by simp
qed

lemma initialize_held:
  assumes "initialize q acc adopt db = (err, db')"
  shows "held db' = held db"
  using assms
proof (cases rule: initialize_cases)
  case migrated
  then have "held db' = held (if metadataTableExists db then with_schema db else bind_account acc (with_schema db))"
    by (intro migrate_held)
  then show ?thesis by (simp add: bind_account_def held_def split: if_splits)
qed simp

lemma ingest_held:
  "index_inv db \<Longrightarrow> UpsertConversations q cs db = (r, db') \<Longrightarrow> held db' = held db"
  "index_inv db \<Longrightarrow> AddMessages q ms db = (r', db') \<Longrightarrow> held db' = held db"
proof -
  show "index_inv db \<Longrightarrow> UpsertConversations q cs db = (r, db') \<Longrightarrow> held db' = held db"
    by (erule UpsertConversations_cases) (auto simp: index_inv_def held_def dest!: upsert_loop_ok)
  show "index_inv db \<Longrightarrow> AddMessages q ms db = (r', db') \<Longrightarrow> held db' = held db"
    by (erule AddMessages_cases) (auto simp: index_inv_def held_def dest!: add_loop_run)
qed

text \<open>The journals of a manager: what no step of the runtime manager touches.\<close>

definition journals :: "Manager \<Rightarrow> string \<Rightarrow> (string \<times> string) set" where
  "journals m = (\<lambda>i. held (m_indexes m i))"

lemma put_index_journals:
  "held db = held (m_indexes m (acc_ID item)) \<Longrightarrow> journals (put_index item db m) = journals m"
  by (auto simp: journals_def put_index_def fun_eq_iff)

lemma OpenIndex_journals:
  assumes "OpenIndex env item m = (r, m')"
  shows "journals m' = journals m \<and> (\<forall>db. r = Inr db \<longrightarrow> m_indexes m' (acc_ID item) = db)"
proof (cases "acc_Deleting item \<or> \<not> valid_index_account (acc_ID item)")
  case True
  then show ?thesis using assms by (auto simp: OpenIndex_def split: if_splits)
next
  case False
  obtain err db where i: "initialize (re_open env) (acc_ID item) False (m_indexes m (acc_ID item)) = (err, db)" by fastforce
  have m': "m' = put_index item db m" and r: "r = (case err of Some e \<Rightarrow> Inl e | None \<Rightarrow> Inr db)"
    using assms False i by (auto simp: OpenIndex_def put_index_def Let_def split: option.splits)
  show ?thesis using put_index_journals [OF initialize_held [OF i]] m' r
    by (auto simp: put_index_def split: option.splits)
qed

lemma ingestOnce_journals:
  assumes "ingestOnce env rid m = (err, m')" and "manager_inv m"
  shows "journals m' = journals m"
proof -
  let ?item = "rt_account (m_heap m rid)"
  obtain r m1 where o: "OpenIndex env ?item m = (r, m1)" by fastforce
  note oj = OpenIndex_journals [OF o] and oi = OpenIndex_inv [OF o assms(2)]
  have cursor: "journals (set_runtime rid f x) = journals x" for f x by (simp add: journals_def set_runtime_def)
  show ?thesis
  proof (cases "rt_stopping (m_heap m rid) \<or> isl (re_ListConversations env) \<or> isl r")
    case True
    then have "m' = m \<or> m' = m1" using assms(1) o
      by (auto simp: ingestOnce_def Let_def isl_def split: if_splits sum.splits)
    then show ?thesis using oj by auto
  next
    case False
    then obtain cs db where r: "r = Inr db" and cs: "re_ListConversations env = Inr cs"
      by (cases r; cases "re_ListConversations env") auto
    obtain r1 db1 where u: "UpsertConversations (re_sql env) cs db = (r1, db1)" by fastforce
    have db: "index_inv db" "m_indexes m1 (acc_ID ?item) = db" using oi oj r by auto
    have db1: "index_inv db1" "held db1 = held db"
      using ingest_held(1) [OF db(1) u] index_step_inv [OF db(1) Upserted [OF u]] by auto
    have p1: "journals (put_index ?item db1 m1) = journals m" using put_index_journals db1(2) db(2) oj by metis
    show ?thesis
    proof (cases "isl r1 \<or> isl (re_ReadMessages env (rt_cursor (m_heap m rid)))")
      case True
      then have "m' = put_index ?item db1 m1" using assms(1) o False r cs u
        by (auto simp: ingestOnce_def Let_def isl_def split: sum.splits)
      then show ?thesis using p1 by simp
    next
      case ok: False
      then obtain ms where ms: "re_ReadMessages env (rt_cursor (m_heap m rid)) = Inr ms" and r1: "r1 = Inr ()"
        by (cases r1; cases "re_ReadMessages env (rt_cursor (m_heap m rid))") auto
      obtain r2 db2 where a: "AddMessages (re_sql env) ms db1 = (r2, db2)" by fastforce
      have p2: "journals (put_index ?item db2 m1) = journals m"
        using put_index_journals ingest_held(2) [OF db1(1) a] db1(2) db(2) oj by metis
      have "m' = put_index ?item db2 m1 \<or> m' = set_runtime rid (rt_cursor_update
          (\<lambda>_. max_cursor (rt_cursor (m_heap m rid)) ms)) (put_index ?item db2 m1)"
        using assms(1) o False r cs u ms r1 a by (cases r2) (simp_all add: ingestOnce_def Let_def)
      then show ?thesis using p2 cursor by metis
    qed
  qed
qed

lemma launch_journals: "launch env i restoring m = (r, m') \<Longrightarrow> m_indexes m' = m_indexes m"
  unfolding launch_def recordActivationFailure_def Let_def discard_def
  by (auto simp: runtime_defs split: prod.splits sum.splits option.splits if_splits)

lemma activate_locked_indexes: "activate_locked env i restoring m = (r, m') \<Longrightarrow> m_indexes m' = m_indexes m"
proof (erule activate_locked_cases)
  fix rid assume "already_active env restoring rid m = (r, m')"
  then show ?thesis by (auto simp: already_active_def discard_def Let_def split: if_splits sum.splits)
next
  fix a :: Account and rid m1
  assume "stopRuntime env rid True m = (None, m1)"
    "launch env (acc_ID a) restoring (set_slot (acc_Platform a) None m1) = (r, m')"
  then show ?thesis using launch_journals stopRuntime_frame by (fastforce simp: set_slot_def)
qed (auto dest: launch_journals stopRuntime_frame)

lemma deactivate_locked_indexes: "deactivate_locked env i m = (r, m') \<Longrightarrow> m_indexes m' = m_indexes m"
  unfolding deactivate_locked_def Let_def
  by (auto simp: set_slot_def split: sum.splits if_splits option.splits prod.splits dest!: stopRuntime_frame)

lemma manager_step_journals: "manager_step m m' \<Longrightarrow> manager_inv m \<Longrightarrow> journals m' = journals m"
proof (erule manager_step.cases, simp_all only:)
  fix m :: Manager and job show "journals (run_repair job m) = journals m"
    by (auto simp: journals_def run_repair_def Let_def runtime_defs split: sum.splits)
next
  fix env v m e m' assume "manager_inv m" "Sync env v m = (e, m')"
  then show "journals m' = journals m" unfolding Sync_def
    by (auto split: sum.splits prod.splits option.splits if_splits dest: ingestOnce_journals)
next
  fix env v m r' m' assume "manager_Status env v m = (r', m')"
  then show "journals m' = journals m" unfolding manager_Status_def journals_def discard_def
    by (auto split: sum.splits prod.splits if_splits)
next
  fix l1 l2 envs expired m e m' assume "Shutdown l1 l2 envs expired m = (e, m')"
  then show "journals m' = journals m" unfolding Shutdown_def journals_def Let_def
    by (auto split: option.splits prod.splits dest: stop_each_frame)
next
  fix env v m r m' assume "begin_delete env id v m = (r, m')"
  then show "journals m' = journals m" unfolding begin_delete_def journals_def Let_def
    by (auto split: sum.splits prod.splits)
next
  fix env i restoring m r m' assume "activate_locked env i restoring m = (r, m')"
  then show "journals m' = journals m" using activate_locked_indexes by (simp add: journals_def fun_eq_iff)
next
  fix env i m r m' assume "deactivate_locked env i m = (r, m')"
  then show "journals m' = journals m" using deactivate_locked_indexes by (simp add: journals_def fun_eq_iff)
qed (auto simp: journals_def Register_def dest: ingestOnce_journals OpenIndex_journals)

section \<open>The table of transactions is separate from journal and history\<close>

definition same_ledger :: "Service \<Rightarrow> Service \<Rightarrow> bool" where
  "same_ledger s s' \<longleftrightarrow> sv_runtimes s' = sv_runtimes s \<and> sv_sends s' = sv_sends s \<and> sv_paths s' = sv_paths s"

lemma same_ledger_refl [simp]: "same_ledger s s"
  by (simp add: same_ledger_def)

lemma same_ledger_trans: "same_ledger s t \<Longrightarrow> same_ledger t u \<Longrightarrow> same_ledger s u"
  by (simp add: same_ledger_def)

lemma set_transaction_ledger [simp]: "same_ledger s (set_transaction i tx s)"
  by (simp add: same_ledger_def set_transaction_def)

lemma cleanupTransactionLocked_ledger: "cleanupTransactionLocked rm i s = (err, s') \<Longrightarrow> same_ledger s s'"
  by (auto simp: cleanupTransactionLocked_def same_ledger_def Let_def split: option.splits if_splits prod.splits)

lemma cleanup_ledger [simp]: "same_ledger s (snd (cleanupTransactionLocked rm i s))"
  by (rule cleanupTransactionLocked_ledger [OF prod.collapse [symmetric]])

lemma cleanupTransaction_ledger [simp]: "same_ledger s (cleanupTransaction rm i s)"
  unfolding cleanupTransaction_def
  by (auto split: prod.splits option.splits dest!: cleanupTransactionLocked_ledger
      intro: same_ledger_trans)

lemma cleanup_each_ledger: "cleanup_each rm ids s = (errs, s') \<Longrightarrow> same_ledger s s'"
proof (induction ids arbitrary: s errs)
  case (Cons i ids)
  then show ?case
    by (auto split: prod.splits dest!: cleanupTransactionLocked_ledger intro: same_ledger_trans)
qed simp

lemma prune_ledger [simp]: "same_ledger s (pruneTransactionsLocked rm now s)"
  unfolding pruneTransactionsLocked_def by (rule cleanup_each_ledger [OF prod.collapse [symmetric]])

lemma release_ledger [simp]: "same_ledger s (releaseTransactionCommit rm now i s)"
  unfolding releaseTransactionCommit_def Let_def
  by (auto split: option.splits intro: same_ledger_trans [OF set_transaction_ledger cleanup_ledger])

lemma admit_commit_ledger: "admit_commit env t s = (r, s') \<Longrightarrow> same_ledger s s'"
  by (auto simp: admit_commit_def Let_def split: option.splits if_splits)

section \<open>The invariant of the ledger\<close>

text \<open>
  A failure that the driver reports without uncertainty happened before any action in the client.
  \<open>covered\<close>: every other call has its key and transaction in the journal. \<open>at_most_once\<close>: a call that
  shares key or transaction with a later one failed in that way.
\<close>

definition definite :: "send_event \<Rightarrow> bool" where
  "definite e \<longleftrightarrow> ev_error e \<noteq> None \<and> \<not> sr_Uncertain (ev_result e)"

definition covered :: "send_event list \<Rightarrow> (string \<times> string) set \<Rightarrow> bool" where
  "covered evs J \<longleftrightarrow> (\<forall>e \<in> set evs. definite e \<or> (ev_key e, ev_transaction e) \<in> J)"

definition at_most_once :: "send_event list \<Rightarrow> bool" where
  "at_most_once evs \<longleftrightarrow>
     sorted_wrt (\<lambda>e e'. ev_key e = ev_key e' \<or> ev_transaction e = ev_transaction e' \<longrightarrow> definite e) evs"

definition service_inv :: "Service \<Rightarrow> bool" where
  "service_inv s \<longleftrightarrow> manager_inv (sv_runtimes s) \<and>
     (\<forall>i. covered (sv_sends s i) (journals (sv_runtimes s) i) \<and> at_most_once (sv_sends s i))"

lemma service_invD:
  "service_inv s \<Longrightarrow> manager_inv (sv_runtimes s)"
  "service_inv s \<Longrightarrow> covered (sv_sends s i) (journals (sv_runtimes s) i)"
  "service_inv s \<Longrightarrow> at_most_once (sv_sends s i)"
  by (auto simp: service_inv_def)

lemma service_inv_ledger: "same_ledger s s' \<Longrightarrow> service_inv s \<Longrightarrow> service_inv s'"
  by (simp add: same_ledger_def service_inv_def)

text \<open>An operation that leaves journals and history alone and the manager well formed.\<close>

definition keeps_ledger :: "Service \<Rightarrow> Service \<Rightarrow> bool" where
  "keeps_ledger s s' \<longleftrightarrow> manager_inv (sv_runtimes s') \<and> sv_sends s' = sv_sends s \<and>
     journals (sv_runtimes s') = journals (sv_runtimes s)"

lemma keeps_ledger_inv: "service_inv s \<Longrightarrow> keeps_ledger s s' \<Longrightarrow> service_inv s'"
  by (simp add: keeps_ledger_def service_inv_def)

lemma keeps_ledger_trans: "keeps_ledger s t \<Longrightarrow> keeps_ledger t u \<Longrightarrow> keeps_ledger s u"
  by (simp add: keeps_ledger_def)

lemma keeps_ledger_same: "manager_inv (sv_runtimes s) \<Longrightarrow> same_ledger s s' \<Longrightarrow> keeps_ledger s s'"
  by (simp add: keeps_ledger_def same_ledger_def)

lemma service_inv_runtimes:
  assumes "service_inv s" and "manager_inv (sv_runtimes s')" and "sv_sends s' = sv_sends s"
    and "journals (sv_runtimes s') = journals (sv_runtimes s)"
  shows "service_inv s'"
  using assms by (simp add: service_inv_def)

lemma set_runtimes_simps [simp]:
  "sv_runtimes (set_runtimes m s) = m" "sv_sends (set_runtimes m s) = sv_sends s"
  "sv_transactions (set_runtimes m s) = sv_transactions s" "sv_staging (set_runtimes m s) = sv_staging s"
  "sv_paths (set_runtimes m s) = sv_paths s" "sv_stopped (set_runtimes m s) = sv_stopped s"
  by (simp_all add: set_runtimes_def)

lemma manager_run_keeps:
  assumes "manager_inv (sv_runtimes s)" and "manager_step\<^sup>*\<^sup>* (sv_runtimes s) m"
  shows "keeps_ledger s (set_runtimes m s)"
proof -
  have "manager_inv m \<and> journals m = journals (sv_runtimes s)"
    using assms(2)
  proof (induction rule: rtranclp_induct)
    case base
    then show ?case using assms(1) by simp
  next
    case (step m1 m2)
    then show ?case using manager_step_inv manager_step_journals by metis
  qed
  then show ?thesis by (simp add: keeps_ledger_def)
qed

lemma manager_run_inv:
  "service_inv s \<Longrightarrow> manager_step\<^sup>*\<^sup>* (sv_runtimes s) m \<Longrightarrow> service_inv (set_runtimes m s)"
  by (blast intro: keeps_ledger_inv manager_run_keeps service_invD(1))

section \<open>The phases of a commit\<close>

text \<open>A reservation makes a fresh key and a fresh transaction of the account taken; nothing else changes.\<close>

lemma commit_reserve_effect:
  assumes run: "commit_reserve env t k tx s = (r, s')" and inv: "manager_inv (sv_runtimes s)"
  shows "manager_inv (sv_runtimes s') \<and> sv_sends s' = sv_sends s \<and>
    (case r of
       Inl _ \<Rightarrow> journals (sv_runtimes s') = journals (sv_runtimes s)
     | Inr item \<Rightarrow> journals (sv_runtimes s') = (journals (sv_runtimes s))(acc_ID item :=
           insert (k, t) (journals (sv_runtimes s) (acc_ID item))) \<and>
         (\<forall>(k', t') \<in> journals (sv_runtimes s) (acc_ID item). k' \<noteq> k \<and> t' \<noteq> t))"
proof (cases "service_Account (ps_AccountID (tx_Preview tx)) s")
  case (Inl e)
  then show ?thesis using run inv by (auto simp: commit_reserve_def)
next
  case (Inr item)
  obtain ro m where o: "OpenIndex (vx_rt env 0) item (sv_runtimes s) = (ro, m)" by fastforce
  note oi = OpenIndex_inv [OF o inv] and oj = OpenIndex_journals [OF o]
  have clean: "sv_runtimes (cleanupTransaction rm i x) = sv_runtimes x" "sv_sends (cleanupTransaction rm i x) = sv_sends x" for rm i x
    using cleanupTransaction_ledger by (auto simp: same_ledger_def)
  show ?thesis
  proof (cases ro)
    case (Inl e)
    then show ?thesis using run \<open>service_Account _ s = Inr item\<close> o oi oj by (auto simp: commit_reserve_def)
  next
    case db: (Inr db)
    have "m_indexes m (acc_ID item) = db" using oj db by simp
    then have held_db: "journals m (acc_ID item) = held db" by (simp add: journals_def)
    obtain rr db' where rs: "ReserveSend (vx_sql env 2) (vx_now env 1) k t (ps_RequestHash (tx_Preview tx)) provisional db = (rr, db')"
      by fastforce
    have inv': "manager_inv (put_index item db' m)"
      using oi db index_step_inv [OF _ SendReserved [OF rs]] by (intro manager_inv_index) auto
    have failed: "journals (put_index item db' m) = journals m" if "rr = Inl e" for e
      using send_journal.reserve_fail [OF journal_laws, of "vx_sql env 2" "vx_now env 1"] rs that oj db
      by (intro put_index_journals) (auto simp: held_def)
    have reserved: "journals (put_index item db' m) = (journals m)(acc_ID item := insert (k, t) (journals m (acc_ID item))) \<and>
        (\<forall>(k', t') \<in> journals m (acc_ID item). k' \<noteq> k \<and> t' \<noteq> t)" if "rr = Inr u" for u
      using held_reserve [of "vx_sql env 2" "vx_now env 1" k t _ provisional db db'] rs that held_db
      by (auto simp: journals_def put_index_def fun_eq_iff)
    have shape: "(isl r \<and> sv_runtimes s' = m \<and> sv_sends s' = sv_sends s) \<or>
        (\<exists>e. rr = Inl e \<and> isl r \<and> s' = set_runtimes (put_index item db' m) s) \<or>
        (\<exists>u. rr = Inr u \<and> r = Inr item \<and> s' = set_runtimes (put_index item db' m) s)"
      using run \<open>service_Account _ s = Inr item\<close> o db rs unfolding commit_reserve_def Let_def
      by (auto simp: clean isl_def split: sum.splits option.splits prod.splits)
    then consider "isl r" "sv_runtimes s' = m" "sv_sends s' = sv_sends s"
      | e where "rr = Inl e" "isl r" "s' = set_runtimes (put_index item db' m) s"
      | u where "rr = Inr u" "r = Inr item" "s' = set_runtimes (put_index item db' m) s" by blast
    then show ?thesis
    proof cases
      case 1
      then show ?thesis using oi oj by (auto simp: isl_def)
    next
      case 2
      then show ?thesis using inv' failed oj by (auto simp: isl_def)
    next
      case 3
      then show ?thesis using inv' reserved oj by auto
    qed
  qed
qed

lemma commit_settle_effect:
  assumes run: "commit_settle env t k tx item answer s = (r, s')" and inv: "manager_inv (sv_runtimes s)"
  shows "manager_inv (sv_runtimes s') \<and> sv_sends s' = sv_sends s \<and>
    (\<forall>i. i \<noteq> acc_ID item \<longrightarrow> journals (sv_runtimes s') i = journals (sv_runtimes s) i) \<and>
    journals (sv_runtimes s) (acc_ID item) - (if snd answer \<noteq> None \<and> \<not> sr_Uncertain (fst answer) then {(k, t)} else {})
      \<subseteq> journals (sv_runtimes s') (acc_ID item) \<and>
    journals (sv_runtimes s') (acc_ID item) \<subseteq> journals (sv_runtimes s) (acc_ID item)"
proof -
  let ?hash = "ps_RequestHash (tx_Preview tx)" and ?db = "m_indexes (sv_runtimes s) (acc_ID item)"
  obtain result sendErr where answer: "answer = (result, sendErr)" by (cases answer)
  have clean: "sv_runtimes (cleanupTransaction rm i x) = sv_runtimes x" "sv_sends (cleanupTransaction rm i x) = sv_sends x" for rm i x
    using cleanupTransaction_ledger by (auto simp: same_ledger_def)
  note db = manager_invD(2) [OF inv, of "acc_ID item"]
  show ?thesis
  proof (cases "sendErr \<noteq> None \<and> \<not> sr_Uncertain result")
    case True
    obtain rd db' where d: "DeleteSendReservation (vx_sql env 3) k t ?hash ?db = (rd, db')" by fastforce
    have s': "sv_runtimes s' = put_index item db' (sv_runtimes s) \<and> sv_sends s' = sv_sends s"
      using run True d by (cases rd) (auto simp: commit_settle_def Let_def answer clean)
    have "manager_inv (put_index item db' (sv_runtimes s))"
      by (rule manager_inv_index [OF inv index_step_inv [OF db ReservationDeleted [OF d]]])
    moreover have "held ?db - {(k, t)} \<subseteq> held db'" "held db' \<subseteq> held ?db"
      using held_release [OF d] by fastforce+
    ultimately show ?thesis using s' True answer by (auto simp: journals_def put_index_def)
  next
    case False
    obtain rd db' where d: "FinalizeSend (vx_sql env 3) k t ?hash (settled_result result) ?db = (rd, db')" by fastforce
    have s': "sv_runtimes s' = put_index item db' (sv_runtimes s) \<and> sv_sends s' = sv_sends s"
      using run False d by (cases rd) (auto simp: commit_settle_def Let_def answer clean split: if_splits)
    have "manager_inv (put_index item db' (sv_runtimes s))"
      by (rule manager_inv_index [OF inv index_step_inv [OF db SendFinalized [OF d]]])
    then show ?thesis using s' held_finalize [OF d] by (auto simp: journals_def put_index_def)
  qed
qed

lemma covered_mono: "covered evs J \<Longrightarrow> J \<subseteq> J' \<Longrightarrow> covered evs J'"
  by (auto simp: covered_def)

lemma reserved_inv:
  assumes "commit_reserve env t k tx s = (r, s')" and "service_inv s"
  shows "service_inv s'"
proof -
  note f = commit_reserve_effect [OF assms(1) service_invD(1) [OF assms(2)]]
  show ?thesis
  proof (cases r)
    case (Inl x)
    then show ?thesis using f by (intro service_inv_runtimes [OF assms(2)]) simp_all
  next
    case (Inr item)
    then have "covered (sv_sends s i) (journals (sv_runtimes s') i)" for i
      using f covered_mono [OF service_invD(2) [OF assms(2)], of i] by (auto split: if_splits)
    then show ?thesis using f Inr service_invD(3) [OF assms(2)] by (simp add: service_inv_def)
  qed
qed

lemma commit_call_event:
  assumes "commit_call env t k tx item s = (answer, s')"
  obtains e where "ev_key e = k" "ev_transaction e = t" "ev_request e = send_request k tx"
    "ev_result e = fst answer" "ev_error e = snd answer"
    "s' = s\<lparr>sv_sends := (sv_sends s)(acc_ID item := sv_sends s (acc_ID item) @ [e])\<rparr>"
  using assms
  by (intro that [of "\<lparr>ev_key = k, ev_transaction = t, ev_request = send_request k tx,
        ev_result = fst answer, ev_error = snd answer\<rparr>"]) (auto simp: commit_call_def Let_def)

lemma called_inv:
  assumes res: "commit_reserve env t k tx s = (Inr item, s2)" and inv: "service_inv s"
    and call: "commit_call env t k tx item s2 = (answer, s3)"
  shows "service_inv s3"
proof -
  note f = commit_reserve_effect [OF res service_invD(1) [OF inv]] and inv2 = reserved_inv [OF res inv]
  obtain e where e: "ev_key e = k" "ev_transaction e = t"
    and s3: "s3 = s2\<lparr>sv_sends := (sv_sends s2)(acc_ID item := sv_sends s2 (acc_ID item) @ [e])\<rparr>"
    using call by (rule commit_call_event) blast
  have "(k, t) \<in> journals (sv_runtimes s2) (acc_ID item)" using f by simp
  then have cov: "covered (sv_sends s3 i) (journals (sv_runtimes s3) i)" for i
    using service_invD(2) [OF inv2, of i] e by (auto simp: s3 covered_def)
  have "definite x" if "x \<in> set (sv_sends s2 (acc_ID item))" "ev_key x = k \<or> ev_transaction x = t" for x
    using service_invD(2) [OF inv, of "acc_ID item"] f that by (fastforce simp: covered_def)
  then have "at_most_once (sv_sends s3 i)" for i
    using service_invD(3) [OF inv2, of i] e by (auto simp: s3 at_most_once_def sorted_wrt_append)
  then show ?thesis using cov service_invD(1) [OF inv2] by (simp add: service_inv_def s3)
qed

lemma settled_inv:
  assumes res: "commit_reserve env t k tx s = (Inr item, s2)" and inv: "service_inv s"
    and call: "commit_call env t k tx item s2 = (answer, s3)"
    and settle: "commit_settle env t k tx item answer s3 = (r, s4)"
  shows "service_inv s4"
proof -
  have inv3: "service_inv s3" by (rule called_inv [OF res inv call])
  note f = commit_settle_effect [OF settle service_invD(1) [OF inv3]]
  obtain old e where log: "sv_sends s3 (acc_ID item) = old @ [e]" and e: "ev_key e = k" "ev_transaction e = t"
    "ev_result e = fst answer" "ev_error e = snd answer"
    using call by (rule commit_call_event) auto
  have "covered (sv_sends s4 i) (journals (sv_runtimes s4) i)" for i
  proof (cases "i = acc_ID item")
    case False
    then show ?thesis using f service_invD(2) [OF inv3, of i] by simp
  next
    case True
    have "definite x \<or> (ev_key x, ev_transaction x) \<in> journals (sv_runtimes s4) i" if "x \<in> set (old @ [e])" for x
    proof (cases "definite e \<and> ev_key x = k")
      case True
      have "at_most_once (old @ [e])" using service_invD(3) [OF inv3, of "acc_ID item"] log by simp
      then show ?thesis using that True e by (auto simp: at_most_once_def sorted_wrt_append)
    next
      case other: False
      have "definite x \<or> (ev_key x, ev_transaction x) \<in> journals (sv_runtimes s3) i"
        using service_invD(2) [OF inv3, of i] that log True by (auto simp: covered_def)
      then show ?thesis using f other e True by (auto simp: definite_def split: if_splits)
    qed
    then show ?thesis using f log True by (simp add: covered_def)
  qed
  then show ?thesis using f service_invD(3) [OF inv3] by (simp add: service_inv_def)
qed

lemma find_in_accounts_run:
  "find_in_accounts env n t k items m = (r, m') \<Longrightarrow> manager_step\<^sup>*\<^sup>* m m'"
proof (induction items arbitrary: n m)
  case (Cons item items)
  obtain ro m1 where o: "OpenIndex (vx_rt env n) item m = (ro, m1)" by fastforce
  have "manager_step m m1" by (rule IndexOpened [OF o])
  moreover have "m' = m1 \<or> find_in_accounts env (Suc n) t k items m1 = (r, m')"
    using Cons.prems o by (auto split: sum.splits option.splits prod.splits)
  ultimately show ?case using Cons.IH by (auto intro: converse_rtranclp_into_rtranclp)
qed simp

lemma findCommittedSend_inv: "findCommittedSend env t k s = (r, s') \<Longrightarrow> service_inv s \<Longrightarrow> service_inv s'"
  unfolding findCommittedSend_def
  by (auto split: prod.splits intro: manager_run_inv find_in_accounts_run)

lemma CommitSend_inv:
  assumes "CommitSend env t k confirmed s = (r, s')" and "service_inv s"
  shows "service_inv s'"
proof (cases "commit_guard k confirmed")
  case (Some e)
  then show ?thesis using assms by (simp add: CommitSend_def)
next
  case None
  obtain admitted s1 where a: "admit_commit env t s = (admitted, s1)" by fastforce
  have inv1: "service_inv s1" using service_inv_ledger [OF admit_commit_ledger [OF a] assms(2)] .
  have rel: "service_inv (releaseTransactionCommit rm now t x)" if "service_inv x" for rm now x
    by (rule service_inv_ledger [OF release_ledger that])
  show ?thesis
  proof (cases admitted)
    case n: None
    obtain rf sf where f: "findCommittedSend env t k s1 = (rf, sf)" by fastforce
    have "s' = sf" using assms(1) None a n f
      by (auto simp: CommitSend_def commit_missing_def split: sum.splits option.splits)
    then show ?thesis using findCommittedSend_inv [OF f inv1] by simp
  next
    case (Some tx)
    obtain rr s2 where res: "commit_reserve env t k tx s1 = (rr, s2)" by fastforce
    show ?thesis
    proof (cases rr)
      case (Inl x)
      then show ?thesis using assms(1) None a Some res rel [OF reserved_inv [OF res inv1]]
        by (auto simp: CommitSend_def Let_def)
    next
      case (Inr item)
      obtain answer s3 where call: "commit_call env t k tx item s2 = (answer, s3)" by fastforce
      obtain x s4 where settle: "commit_settle env t k tx item answer s3 = (x, s4)" by fastforce
      have "service_inv s4" using settled_inv [OF _ inv1 call settle] res Inr by simp
      then show ?thesis using assms(1) None a Some res Inr call settle rel
        by (auto simp: CommitSend_def Let_def)
    qed
  qed
qed

section \<open>The other operations\<close>

lemma Sync_run: "manager_step\<^sup>*\<^sup>* m (snd (Sync env v m))"
  by (rule r_into_rtranclp, rule Synced, rule prod.collapse [symmetric])

lemma open_for_reading_run:
  assumes "open_for_reading env sync v s = (r, s')"
  shows "\<exists>m. manager_step\<^sup>*\<^sup>* (sv_runtimes s) m \<and> s' = set_runtimes m s"
proof (cases "service_Account v s")
  case (Inl e)
  then show ?thesis using assms by (intro exI [of _ "sv_runtimes s"]) (simp add: open_for_reading_def set_runtimes_def)
next
  case (Inr item)
  define m where "m = (if sync \<and> acc_Active item then snd (Sync (vx_rt env 0) (acc_ID item) (sv_runtimes s))
      else sv_runtimes s)"
  obtain ro m1 where o: "OpenIndex (vx_rt env 1) item m = (ro, m1)" by fastforce
  have "manager_step\<^sup>*\<^sup>* (sv_runtimes s) m" unfolding m_def using Sync_run by simp
  then have "manager_step\<^sup>*\<^sup>* (sv_runtimes s) m1" by (rule rtranclp.rtrancl_into_rtrancl) (rule IndexOpened [OF o])
  moreover have "s' = set_runtimes m1 s"
    using assms Inr o by (auto simp: open_for_reading_def Let_def m_def [symmetric] split: sum.splits)
  ultimately show ?thesis by blast
qed

lemma reading_inv: "open_for_reading env sync v s = (r, s') \<Longrightarrow> service_inv s \<Longrightarrow> service_inv s'"
  using open_for_reading_run manager_run_inv by blast

lemma reading_keeps:
  "open_for_reading env sync v s = (r, s') \<Longrightarrow> manager_inv (sv_runtimes s) \<Longrightarrow> keeps_ledger s s'"
  using open_for_reading_run manager_run_keeps by blast

lemma service_ListConversations_keeps:
  "service_ListConversations env v search unread limit s = (r, s') \<Longrightarrow> manager_inv (sv_runtimes s) \<Longrightarrow>
     keeps_ledger s s'"
  unfolding service_ListConversations_def by (auto split: prod.splits sum.splits dest: reading_keeps)

lemma PrepareSend_keeps:
  assumes "PrepareSend env v request s = (r, s')" and "manager_inv (sv_runtimes s)"
  shows "keeps_ledger s s'"
proof (cases "Driver v (sv_runtimes s)")
  case (Inl e)
  then show ?thesis using assms by (simp add: PrepareSend_def keeps_ledger_def)
next
  case (Inr d)
  obtain item rid where d: "d = (item, rid)" by (cases d)
  obtain rc s1 where c: "service_ListConversations env (acc_ID item) [] False 500 s = (rc, s1)" by fastforce
  have k1: "keeps_ledger s s1" by (rule service_ListConversations_keeps [OF c assms(2)])
  have "same_ledger s1 s' \<or> s' = s"
  proof -
    have st: "same_ledger s1 (s1\<lparr>sv_staging := st\<rparr>)" for st by (simp add: same_ledger_def)
    have "same_ledger s1 (set_transaction i tx (pruneTransactionsLocked rm now (s1\<lparr>sv_staging := st\<rparr>)))" for i tx rm now st
      by (rule same_ledger_trans [OF same_ledger_trans [OF st prune_ledger] set_transaction_ledger])
    then show ?thesis using assms(1) Inr d c st unfolding PrepareSend_def Let_def
      by (auto split: if_splits sum.splits list.splits prod.splits)
  qed
  then show ?thesis using k1 assms(2) by (auto simp: keeps_ledger_def same_ledger_def)
qed

lemma crash_inv:
  assumes "service_inv s"
  shows "service_inv (crash s)"
proof (rule service_inv_runtimes [OF assms])
  have "manager_start (sv_runtimes (crash s))"
    using manager_invD(1,2) [OF service_invD(1) [OF assms]]
    by (auto simp: crash_def service_New_def manager_start_def)
  then show "manager_inv (sv_runtimes (crash s))" by (rule manager_start_inv)
qed (simp_all add: crash_def service_New_def journals_def NewManager_def)

text \<open>Interference while an operation waits for a platform lock: any steps of the runtime manager.\<close>

definition fair_waits :: "service_env \<Rightarrow> bool" where
  "fair_waits env \<longleftrightarrow> (\<forall>n m. manager_step\<^sup>*\<^sup>* m (vx_wait env n m))"

lemma begin_delete_keeps:
  assumes "begin_delete env wait v m = (r, m')" and "manager_inv m" and "\<And>m. manager_step\<^sup>*\<^sup>* m (wait m)"
  shows "manager_inv m' \<and> journals m' = journals m"
proof -
  have waits: "manager_inv (wait x)" "journals (wait x) = journals x" if "manager_inv x" for x
  proof -
    have "manager_inv (wait x) \<and> journals (wait x) = journals x"
      using assms(3) [of x] that
    proof (induction rule: rtranclp_induct)
      case (step y z)
      then show ?case using manager_step_inv manager_step_journals by metis
    qed simp
    then show "manager_inv (wait x)" "journals (wait x) = journals x" by simp_all
  qed
  have "manager_inv m'" by (rule begin_delete_inv [OF assms(1,2) waits(1)])
  moreover have "m_indexes m' = m_indexes m \<or> m_indexes m' = m_indexes (wait m)"
    using assms(1) by (auto simp: begin_delete_def Let_def split: sum.splits prod.splits)
  ultimately show ?thesis using waits(2) [OF assms(2)] by (auto simp: journals_def)
qed

lemma Purge_run:
  "Purge env wait v m = (r, m') \<Longrightarrow> m' = m \<or> m' = wait m"
  by (auto simp: Purge_def Let_def split: sum.splits if_splits option.splits)

lemma recordDeleteFailure_run:
  "recordDeleteFailure env item message e s = (err, s') \<Longrightarrow>
     \<exists>m. manager_step\<^sup>*\<^sup>* (sv_runtimes s) m \<and> s' = set_runtimes m s"
  unfolding recordDeleteFailure_def Let_def
  by (auto split: prod.splits dest!: FailureRecorded)

lemma forget_account_inv: "service_inv s \<Longrightarrow> service_inv (forget_account i s)"
  unfolding service_inv_def forget_account_def manager_inv_def live_def
  by (auto simp: journals_def empty_db_inv covered_def at_most_once_def)

lemma RemoveAccount_keeps:
  assumes run: "RemoveAccount env store v purge confirmed s = (r, s')" and inv: "manager_inv (sv_runtimes s)"
    and fair: "fair_waits env"
  obtains s1 i where "keeps_ledger s s1" "s' = s1 \<or> s' = forget_account i s1"
proof (cases "confirmed \<and> purge \<and> IsID v")
  case False
  then have "s' = s" using run by (auto simp: RemoveAccount_def split: if_splits)
  then show thesis using inv that [of s] by (simp add: keeps_ledger_def)
next
  case True
  obtain rb m where b: "begin_delete (vx_rt env 0) (vx_wait env 0) v (sv_runtimes s) = (rb, m)" by fastforce
  have kb: "keeps_ledger s (set_runtimes m s)"
    using begin_delete_keeps [OF b inv] fair by (simp add: fair_waits_def keeps_ledger_def)
  show thesis
  proof (cases rb)
    case (Inl e)
    then show thesis using run True b kb by (intro that) (auto simp: RemoveAccount_def)
  next
    case (Inr item)
    have run_keeps: "keeps_ledger s (set_runtimes m' x)" "sv_sends (set_runtimes m' x) = sv_sends s"
      if "keeps_ledger s x" "manager_step\<^sup>*\<^sup>* (sv_runtimes x) m'" for x m'
      using that manager_run_keeps [of x m'] by (auto simp: keeps_ledger_def)
    obtain rp m1 where p: "Purge (vx_rt env 1) (vx_wait env 1) (acc_ID item) m = (rp, m1)" by fastforce
    have "manager_step\<^sup>*\<^sup>* m m1" using Purge_run [OF p] fair by (auto simp: fair_waits_def)
    then have kp: "keeps_ledger s (set_runtimes m1 s)"
      using run_keeps [OF kb, of m1] by (simp add: set_runtimes_def)
    have rec: "keeps_ledger s x" if "recordDeleteFailure store item msg e y = (err, x)" "keeps_ledger s y" for msg e y err x
      using recordDeleteFailure_run [OF that(1)] run_keeps [OF that(2)] by blast
    obtain rf st where f: "FinalizeDelete store (acc_ID item) (m_accounts m1) = (rf, st)" by fastforce
    have kf: "keeps_ledger s (set_runtimes (m1\<lparr>m_accounts := st\<rparr>) s)"
      using run_keeps [OF kp, of "m1\<lparr>m_accounts := st\<rparr>"] r_into_rtranclp [of manager_step, OF AccountFinalized [OF f]]
      by (simp add: set_runtimes_def)
    have "keeps_ledger s s' \<or> s' = forget_account (acc_ID item) (set_runtimes (m1\<lparr>m_accounts := st\<rparr>) s)"
      using run True b Inr p f rec [OF _ kp] rec [OF _ kf]
      by (cases rp; cases rf) (auto simp: RemoveAccount_def split: prod.splits)
    then show thesis using kf by (auto intro: that)
  qed
qed

lemma RemoveAccount_inv:
  "RemoveAccount env store v purge confirmed s = (r, s') \<Longrightarrow> service_inv s \<Longrightarrow> fair_waits env \<Longrightarrow> service_inv s'"
  by (erule RemoveAccount_keeps) (auto intro: keeps_ledger_inv forget_account_inv service_invD(1))

section \<open>The service as a state machine\<close>

inductive service_step :: "Service \<Rightarrow> Service \<Rightarrow> bool" where
  RuntimeStepped: "manager_step (sv_runtimes s) m \<Longrightarrow> service_step s (set_runtimes m s)"
| SendPrepared: "PrepareSend env v request s = (rp, s') \<Longrightarrow> service_step s s'"
| SendCommitted: "CommitSend env t k confirmed s = (rc, s') \<Longrightarrow> service_step s s'"
| CrashedReserved: "commit_guard k True = None \<Longrightarrow> admit_commit env t s = (Some tx, s1) \<Longrightarrow>
    commit_reserve env t k tx s1 = (Inr item, s2) \<Longrightarrow> service_step s (crash s2)"
| CrashedCalled: "commit_guard k True = None \<Longrightarrow> admit_commit env t s = (Some tx, s1) \<Longrightarrow>
    commit_reserve env t k tx s1 = (Inr item, s2) \<Longrightarrow> commit_call env t k tx item s2 = (answer, s3) \<Longrightarrow>
    service_step s (crash s3)"
| Crashed: "service_step s (crash s)"
| MessagesRead: "open_for_reading env sync v s = (ro, s') \<Longrightarrow> service_step s s'"
| Reaped: "service_step s (pruneTransactionsLocked rm now s)"
| TransactionsClosed: "closeTransactions rm s = (e, s') \<Longrightarrow> service_step s s'"
| AccountRemoved: "fair_waits env \<Longrightarrow> RemoveAccount env store v purge confirmed s = (r, s') \<Longrightarrow> service_step s s'"

lemma closeTransactions_ledger: "closeTransactions rm s = (e, s') \<Longrightarrow> same_ledger s s'"
  unfolding closeTransactions_def
  by (auto split: if_splits prod.splits dest!: cleanup_each_ledger simp: same_ledger_def)

lemma service_step_inv: "service_inv s \<Longrightarrow> service_step s s' \<Longrightarrow> service_inv s'"
proof (erule service_step.cases, simp_all only:)
  fix k env t s tx s1 item s2
  assume inv: "service_inv s" and "admit_commit env t s = (Some tx, s1)" "commit_reserve env t k tx s1 = (Inr item, s2)"
  then show "service_inv (crash s2)"
    using crash_inv reserved_inv service_inv_ledger admit_commit_ledger by metis
next
  fix k env t s tx s1 item s2 answer s3
  assume inv: "service_inv s" and "admit_commit env t s = (Some tx, s1)" "commit_reserve env t k tx s1 = (Inr item, s2)"
    "commit_call env t k tx item s2 = (answer, s3)"
  then show "service_inv (crash s3)"
    using crash_inv called_inv service_inv_ledger admit_commit_ledger by metis
qed (auto intro: manager_run_inv keeps_ledger_inv [OF _ PrepareSend_keeps] service_invD(1) CommitSend_inv crash_inv reading_inv RemoveAccount_inv
    service_inv_ledger [OF prune_ledger] service_inv_ledger [OF closeTransactions_ledger])

definition service_start :: "Service \<Rightarrow> bool" where
  "service_start s \<longleftrightarrow> manager_start (sv_runtimes s) \<and> sv_sends s = (\<lambda>_. [])"

lemma service_start_inv: "service_start s \<Longrightarrow> service_inv s"
  by (auto simp: service_start_def service_inv_def covered_def at_most_once_def dest: manager_start_inv)

interpretation send_service: invariant_system service_start service_step service_inv
  by unfold_locales (auto intro: service_start_inv service_step_inv)

end
