(* ===== verification/Outbox_Props.thy ===== *)
theory Outbox_Props
  imports Send_Props
begin

text \<open>
  The send service against its specification. An outbox knows, for each account, which pairs of
  idempotency key and transaction are taken and which calls the client has seen; the service's
  journal and history implement it. The properties of sending follow.
\<close>

section \<open>The outbox\<close>

record outbox =
  ob_taken :: "string \<Rightarrow> (string \<times> string) set"
  ob_calls :: "string \<Rightarrow> send_event list"

inductive outbox_step :: "outbox \<Rightarrow> outbox \<Rightarrow> bool" where
  Take: "\<forall>(k', t') \<in> ob_taken o1 i. k' \<noteq> k \<and> t' \<noteq> t \<Longrightarrow>
    outbox_step o1 (o1\<lparr>ob_taken := (ob_taken o1)(i := insert (k, t) (ob_taken o1 i))\<rparr>)"
| Deliver: "\<forall>(k', t') \<in> ob_taken o1 i. k' \<noteq> ev_key e \<and> t' \<noteq> ev_transaction e \<Longrightarrow>
    outbox_step o1 (o1\<lparr>ob_taken := (ob_taken o1)(i := insert (ev_key e, ev_transaction e) (ob_taken o1 i)),
      ob_calls := (ob_calls o1)(i := ob_calls o1 i @ [e])\<rparr>)"
| Retract: "ob_calls o1 i = old @ [e] \<Longrightarrow> definite e \<Longrightarrow>
    outbox_step o1 (o1\<lparr>ob_taken := (ob_taken o1)(i := ob_taken o1 i - {(ev_key e, ev_transaction e)})\<rparr>)"
| Forget: "outbox_step o1 (o1\<lparr>ob_taken := (ob_taken o1)(i := {}), ob_calls := (ob_calls o1)(i := [])\<rparr>)"

definition outbox_of :: "Service \<Rightarrow> outbox" where
  "outbox_of s = \<lparr>ob_taken = journals (sv_runtimes s), ob_calls = sv_sends s\<rparr>"

lemma outbox_of_ledger: "same_ledger s s' \<Longrightarrow> outbox_of s' = outbox_of s"
  by (simp add: same_ledger_def outbox_of_def)

lemma outbox_of_run:
  assumes "manager_step\<^sup>*\<^sup>* m m'" and "manager_inv m"
  shows "journals m' = journals m \<and> manager_inv m'"
  using assms
proof (induction rule: rtranclp_induct)
  case (step y z)
  then show ?case using manager_step_inv manager_step_journals by metis
qed simp

lemma outbox_of_crash: "outbox_of (crash s) = outbox_of s"
  by (simp add: outbox_of_def crash_def service_New_def journals_def NewManager_def)

lemma reserve_refines:
  assumes "commit_reserve env t k tx s = (r, s')" and "service_inv s"
  shows "case r of Inl _ \<Rightarrow> outbox_of s' = outbox_of s | Inr _ \<Rightarrow> outbox_step (outbox_of s) (outbox_of s')"
proof (cases r)
  case (Inl x)
  then show ?thesis using commit_reserve_effect [OF assms(1) service_invD(1) [OF assms(2)]] by (simp add: outbox_of_def)
next
  case (Inr item)
  note f = commit_reserve_effect [OF assms(1) service_invD(1) [OF assms(2)]]
  have "outbox_of s' = (outbox_of s)\<lparr>ob_taken := (ob_taken (outbox_of s))(acc_ID item :=
      insert (k, t) (ob_taken (outbox_of s) (acc_ID item)))\<rparr>"
    using f Inr by (simp add: outbox_of_def)
  then show ?thesis using Take [of "outbox_of s" "acc_ID item" k t] f Inr by (simp add: outbox_of_def)
qed

lemma call_refines:
  assumes "commit_reserve env t k tx s = (Inr item, s2)" and "service_inv s"
    and "commit_call env t k tx item s2 = (answer, s3)"
  shows "outbox_step (outbox_of s) (outbox_of s3)"
proof -
  note f = commit_reserve_effect [OF assms(1) service_invD(1) [OF assms(2)]]
  from assms(3) obtain e where e: "ev_key e = k" "ev_transaction e = t"
    and s3: "s3 = s2\<lparr>sv_sends := (sv_sends s2)(acc_ID item := sv_sends s2 (acc_ID item) @ [e])\<rparr>"
    by (rule commit_call_event) blast
  show ?thesis using Deliver [of "outbox_of s" "acc_ID item" e] f e by (simp add: outbox_of_def s3)
qed

lemma settle_refines:
  assumes "commit_reserve env t k tx s = (Inr item, s2)" and "service_inv s"
    and "commit_call env t k tx item s2 = (answer, s3)"
    and "commit_settle env t k tx item answer s3 = (r, s4)"
  shows "outbox_step\<^sup>*\<^sup>* (outbox_of s3) (outbox_of s4)"
proof -
  have inv3: "manager_inv (sv_runtimes s3)" using called_inv [OF assms(1-3)] by (rule service_invD)
  note f = commit_settle_effect [OF assms(4) inv3]
  from assms(3) obtain e where e: "ev_key e = k" "ev_transaction e = t" "ev_result e = fst answer" "ev_error e = snd answer"
    and s3: "s3 = s2\<lparr>sv_sends := (sv_sends s2)(acc_ID item := sv_sends s2 (acc_ID item) @ [e])\<rparr>"
    by (rule commit_call_event) blast
  let ?J = "journals (sv_runtimes s3)" and ?J' = "journals (sv_runtimes s4)" and ?i = "acc_ID item"
  have log: "ob_calls (outbox_of s3) ?i = sv_sends s2 ?i @ [e]" by (simp add: outbox_of_def s3)
  have others: "?J' = ?J(?i := ?J' ?i)" using f by (auto simp: fun_eq_iff)
  show ?thesis
  proof (cases "?J' ?i = ?J ?i")
    case True
    then show ?thesis using others f by (simp add: outbox_of_def)
  next
    case False
    then have "definite e" and "?J' ?i = ?J ?i - {(k, t)}"
      using f e by (auto simp: definite_def split: if_splits)
    then have "outbox_of s4 = (outbox_of s3)\<lparr>ob_taken := (ob_taken (outbox_of s3))(?i :=
        ob_taken (outbox_of s3) ?i - {(ev_key e, ev_transaction e)})\<rparr>"
      using others f e by (simp add: outbox_of_def)
    then show ?thesis using Retract [OF log \<open>definite e\<close>] by simp
  qed
qed

lemma commit_refines:
  assumes "CommitSend env t k confirmed s = (r, s')" and "service_inv s"
  shows "outbox_step\<^sup>*\<^sup>* (outbox_of s) (outbox_of s')"
proof (cases "commit_guard k confirmed")
  case (Some e)
  then show ?thesis using assms by (simp add: CommitSend_def)
next
  case None
  obtain admitted s1 where a: "admit_commit env t s = (admitted, s1)" by fastforce
  have inv1: "service_inv s1" using service_inv_ledger [OF admit_commit_ledger [OF a] assms(2)] .
  have start: "outbox_of s1 = outbox_of s" by (rule outbox_of_ledger [OF admit_commit_ledger [OF a]])
  have rel: "outbox_of (releaseTransactionCommit rm now t x) = outbox_of x" for rm now x
    by (rule outbox_of_ledger [OF release_ledger])
  show ?thesis
  proof (cases admitted)
    case n: None
    obtain rf m where f: "find_in_accounts env 0 t k (List (m_accounts (sv_runtimes s1))) (sv_runtimes s1) = (rf, m)" by fastforce
    have "s' = set_runtimes m s1" using assms(1) None a n f
      by (auto simp: CommitSend_def commit_missing_def findCommittedSend_def split: sum.splits option.splits)
    then have "outbox_of s' = outbox_of s1"
      using outbox_of_run [OF find_in_accounts_run [OF f] service_invD(1) [OF inv1]] by (simp add: outbox_of_def)
    then show ?thesis using start by simp
  next
    case (Some tx)
    obtain rr s2 where res: "commit_reserve env t k tx s1 = (rr, s2)" by fastforce
    show ?thesis
    proof (cases rr)
      case (Inl x)
      have "outbox_of s' = outbox_of s2" using assms(1) None a Some res Inl rel by (auto simp: CommitSend_def Let_def)
      then show ?thesis using reserve_refines [OF res inv1] Inl start by simp
    next
      case (Inr item)
      obtain answer s3 where call: "commit_call env t k tx item s2 = (answer, s3)" by fastforce
      obtain x s4 where settle: "commit_settle env t k tx item answer s3 = (x, s4)" by fastforce
      have "outbox_of s' = outbox_of s4" using assms(1) None a Some res Inr call settle rel
        by (auto simp: CommitSend_def Let_def)
      then show ?thesis
        using call_refines [OF _ inv1 call] settle_refines [OF _ inv1 call settle] res Inr start
        by (simp add: converse_rtranclp_into_rtranclp)
    qed
  qed
qed

lemma keeps_refines: "keeps_ledger s s' \<Longrightarrow> outbox_of s' = outbox_of s"
  by (simp add: keeps_ledger_def outbox_of_def)

lemma remove_refines:
  assumes "RemoveAccount env store v purge confirmed s = (r, s')" and "manager_inv (sv_runtimes s)" and "fair_waits env"
  shows "outbox_step\<^sup>*\<^sup>* (outbox_of s) (outbox_of s')"
  using assms
proof (rule RemoveAccount_keeps)
  fix s1 i assume k: "keeps_ledger s s1" and s': "s' = s1 \<or> s' = forget_account i s1"
  have "outbox_of (forget_account i s1) =
      (outbox_of s1)\<lparr>ob_taken := (ob_taken (outbox_of s1))(i := {}), ob_calls := (ob_calls (outbox_of s1))(i := [])\<rparr>"
    by (simp add: outbox_of_def forget_account_def journals_def fun_eq_iff)
  then have "outbox_step (outbox_of s) (outbox_of (forget_account i s1))"
    using Forget keeps_refines [OF k] by simp
  then show ?thesis using s' keeps_refines [OF k] by auto
qed

lemma service_refines_step:
  assumes "service_step s s'" and "service_inv s"
  shows "outbox_step\<^sup>*\<^sup>* (outbox_of s) (outbox_of s')"
proof -
  note inv = service_invD(1) [OF assms(2)]
  have same: "outbox_of s' = outbox_of s \<Longrightarrow> ?thesis" by simp
  have admitted: "outbox_of s1 = outbox_of s" "service_inv s1" if "admit_commit env t s = (x, s1)" for env t x s1
    using outbox_of_ledger service_inv_ledger admit_commit_ledger [OF that] assms(2) by blast+
  from assms(1) show ?thesis
  proof cases
    case (RuntimeStepped m)
    then have "outbox_of s' = outbox_of s" using keeps_refines [OF manager_run_keeps [OF inv r_into_rtranclp]] by simp
    then show ?thesis by (rule same)
  next
    case (SendPrepared env v request rp)
    then show ?thesis using keeps_refines [OF PrepareSend_keeps [OF _ inv]] same by blast
  next
    case (SendCommitted env t k confirmed rc)
    then show ?thesis using commit_refines assms(2) by blast
  next
    case (CrashedReserved k env t tx s1 item s2)
    have "outbox_step (outbox_of s1) (outbox_of s2)"
      using reserve_refines [OF CrashedReserved(4) admitted(2) [OF CrashedReserved(3)]] by simp
    then show ?thesis using CrashedReserved(1) admitted(1) [OF CrashedReserved(3)] by (simp add: outbox_of_crash)
  next
    case (CrashedCalled k env t tx s1 item s2 answer s3)
    have "outbox_step (outbox_of s1) (outbox_of s3)"
      by (rule call_refines [OF CrashedCalled(4) admitted(2) [OF CrashedCalled(3)] CrashedCalled(5)])
    then show ?thesis using CrashedCalled(1) admitted(1) [OF CrashedCalled(3)] by (simp add: outbox_of_crash)
  next
    case Crashed
    then show ?thesis by (simp add: outbox_of_crash)
  next
    case (MessagesRead env sync v ro)
    then show ?thesis using keeps_refines [OF reading_keeps [OF _ inv]] same by blast
  next
    case (Reaped rm now)
    then show ?thesis using outbox_of_ledger [OF prune_ledger] by simp
  next
    case (TransactionsClosed rm e)
    then show ?thesis using outbox_of_ledger [OF closeTransactions_ledger] same by blast
  next
    case (AccountRemoved env store v purge confirmed r)
    then show ?thesis using remove_refines inv by blast
  qed
qed

section \<open>The request hash\<close>

lemma byte_of: "of_char (char_of (n :: nat)) = n mod 256"
  by simp

lemma PutUint64_inj: "PutUint64 v = PutUint64 w \<Longrightarrow> v = w"
proof -
  assume eq: "PutUint64 v = PutUint64 w"
  let ?n = "\<lambda>k (x :: 64 word). unat x div 2 ^ k"
  have digit: "?n k v mod 256 = ?n k w mod 256" if "k \<in> {0, 8, 16, 24, 32, 40, 48, 56}" for k
  proof -
    have "char_of (unat (drop_bit k v)) = (char_of (unat (drop_bit k w)) :: char)"
      using eq that by (auto simp: PutUint64_def)
    then have "unat (drop_bit k v) mod 256 = unat (drop_bit k w) mod 256" by (metis byte_of)
    moreover have "unat (drop_bit k x) = unat x div 2 ^ k" for x :: "64 word"
      unfolding unat_drop_bit_eq by (rule drop_bit_eq_div)
    ultimately show ?thesis by simp
  qed
  have up: "?n k v = ?n k w" if "?n (k + 8) v = ?n (k + 8) w" "k \<in> {0, 8, 16, 24, 32, 40, 48, 56}" for k
  proof -
    have split: "?n k x = ?n (k + 8) x * 256 + ?n k x mod 256" for x
      by (simp add: power_add div_mult2_eq)
    show ?thesis using split [of v] split [of w] that(1) digit [OF that(2)] by simp
  qed
  have small: "unat x < 2 ^ LENGTH(64)" for x :: "64 word" by (rule unsigned_less)
  have "?n 64 v = ?n 64 w" using small [of v] small [of w] by simp
  then have "?n 56 v = ?n 56 w" using up [of 56] by simp
  then have "?n 48 v = ?n 48 w" using up [of 48] by simp
  then have "?n 40 v = ?n 40 w" using up [of 40] by simp
  then have "?n 32 v = ?n 32 w" using up [of 32] by simp
  then have "?n 24 v = ?n 24 w" using up [of 24] by simp
  then have "?n 16 v = ?n 16 w" using up [of 16] by simp
  then have "?n 8 v = ?n 8 w" using up [of 8] by simp
  then have "?n 0 v = ?n 0 w" using up [of 0] by simp
  then show "v = w" by (simp add: word_unat_eq_iff)
qed

lemma length_PutUint64 [simp]: "length (PutUint64 v) = 8"
  by (simp add: PutUint64_def)

lemma PutUint64_append: "PutUint64 v @ xs = PutUint64 w @ ys \<longleftrightarrow> v = w \<and> xs = ys"
  using PutUint64_inj by auto

definition short :: "'a list \<Rightarrow> bool" where
  "short xs \<longleftrightarrow> length xs < 2 ^ 64"

lemma of_nat_short: "short xs \<Longrightarrow> short ys \<Longrightarrow> (of_nat (length xs) :: 64 word) = of_nat (length ys) \<longleftrightarrow> length xs = length ys"
  by (auto simp: short_def of_nat_inverse dest!: arg_cong [where f = unat] simp: unat_of_nat)

lemma field_append:
  "short xs \<Longrightarrow> short ys \<Longrightarrow> writeHashField xs @ u = writeHashField ys @ v \<longleftrightarrow> xs = ys \<and> u = v"
  by (auto simp: writeHashField_def PutUint64_append of_nat_short)

definition encodable :: "PreparedAttachment \<Rightarrow> bool" where
  "encodable a \<longleftrightarrow> short (pa_Name a) \<and> short (pa_SHA256 a) \<and> 0 \<le> pa_Size a \<and> pa_Size a < 2 ^ 63"

lemma size_inj: "0 \<le> x \<Longrightarrow> x < 2 ^ 63 \<Longrightarrow> 0 \<le> y \<Longrightarrow> y < 2 ^ 63 \<Longrightarrow> (word_of_int x :: 64 word) = word_of_int y \<longleftrightarrow> x = y"
  by (auto dest!: arg_cong [where f = uint] simp: uint_word_of_int)

lemma attachments_inj:
  "length xs = length ys \<Longrightarrow> list_all encodable xs \<Longrightarrow> list_all encodable ys \<Longrightarrow>
     concat (map hash_attachment xs) @ u = concat (map hash_attachment ys) @ v \<Longrightarrow> xs = ys"
proof (induction xs ys arbitrary: u v rule: list_induct2)
  case (Cons x xs y ys)
  then have f: "pa_Name x = pa_Name y" "pa_Size x = pa_Size y" "pa_SHA256 x = pa_SHA256 y"
    and rest: "concat (map hash_attachment xs) @ u = concat (map hash_attachment ys) @ v"
    by (auto simp: hash_attachment_def encodable_def field_append PutUint64_append size_inj)
  from f have "x = y" by simp
  then show ?case using Cons.IH [OF _ _ rest] Cons.prems by simp
qed simp

lemma send_encoding_inj:
  assumes "short c" "short c'" "short x" "short x'" "short f" "short f'" "short as" "short as'"
    and "list_all encodable as" "list_all encodable as'" and "send_encoding c x as f = send_encoding c' x' as' f'"
  shows "c = c' \<and> x = x' \<and> as = as' \<and> f = f'"
proof -
  have "c = c' \<and> x = x' \<and> f = f' \<and> length as = length as' \<and>
      concat (map hash_attachment as) = concat (map hash_attachment as')"
    using assms by (simp add: send_encoding_def field_append PutUint64_append of_nat_short)
  then show ?thesis using attachments_inj [of as as' "[]" "[]"] assms(9,10) by simp
qed

lemma hex_digit_inj: "m < 16 \<Longrightarrow> n < 16 \<Longrightarrow> hex_digit m = hex_digit n \<Longrightarrow> m = n"
  by (auto simp: hex_digit_def dest!: arg_cong [where f = "of_char :: char \<Rightarrow> nat"] split: if_splits)

lemma hex_byte_inj: "hex_byte a = hex_byte b \<Longrightarrow> a = b"
proof -
  assume eq: "hex_byte a = hex_byte b"
  have "unat x < 2 ^ LENGTH(8)" for x :: "8 word" by (rule unsigned_less)
  then have small: "unat x div 16 < 16" for x :: "8 word" by (simp add: div_less_iff_less_mult)
  have "unat a div 16 = unat b div 16" "unat a mod 16 = unat b mod 16"
    using eq small by (auto simp: hex_byte_def intro!: hex_digit_inj)
  then have "unat a = unat b" by (metis div_mult_mod_eq)
  then show "a = b" by (simp add: word_unat_eq_iff)
qed

lemma EncodeToString_inj: "EncodeToString xs = EncodeToString ys \<Longrightarrow> xs = ys"
proof (induction xs arbitrary: ys)
  case Nil
  then show ?case by (cases ys) (simp_all add: EncodeToString_def hex_byte_def)
next
  case (Cons x xs)
  then obtain y ys' where ys: "ys = y # ys'" by (cases ys) (auto simp: EncodeToString_def hex_byte_def)
  have "hex_byte x @ EncodeToString xs = hex_byte y @ EncodeToString ys'"
    using Cons.prems by (simp add: ys EncodeToString_def)
  then have "hex_byte x = hex_byte y" "EncodeToString xs = EncodeToString ys'"
    by (simp_all add: append_eq_append_conv)
  then show ?case using Cons.IH hex_byte_inj ys by blast
qed

section \<open>Staging\<close>

text \<open>How the staged files, the preview and the attachments handed to the driver correspond.\<close>

definition staged_as ::
  "(string \<Rightarrow> 8 word list) \<Rightarrow> (string \<times> string) list \<Rightarrow> PreparedAttachment list \<Rightarrow> Attachment list \<Rightarrow> bool"
where
  "staged_as sha256 blobs previews staged \<longleftrightarrow>
     map fst blobs = map at_LocalPath staged \<and> map pa_Name previews = map at_Name staged \<and>
     map (\<lambda>(_, data). (int (length data), EncodeToString (sha256 data))) blobs =
       map (\<lambda>p. (pa_Size p, pa_SHA256 p)) previews"

lemma stage_one_ok:
  assumes "stage_one src sha256 dir n used a = (Inr (p, st), blob)"
  shows "staged_as sha256 blob [p] [st] \<and> 0 \<le> pa_Size p \<and> pa_Size p \<le> maxSendAttachmentBytes - used"
  using assms unfolding stage_one_def Let_def staged_as_def
  by (auto split: if_splits option.splits sum.splits prod.splits)

lemma staged_as_append:
  "staged_as sha256 b1 [p] [s] \<Longrightarrow> staged_as sha256 b2 ps ss \<Longrightarrow> staged_as sha256 (b1 @ b2) (p # ps) (s # ss)"
  by (simp add: staged_as_def)

lemma stage_each_ok:
  "stage_each env sha256 dir n used atts = (Inr (ps, ss), blobs) \<Longrightarrow> used \<le> maxSendAttachmentBytes \<Longrightarrow>
     staged_as sha256 blobs ps ss \<and> length ps = length atts \<and> used + sum_list (map pa_Size ps) \<le> maxSendAttachmentBytes"
proof (induction atts arbitrary: n used ps ss blobs)
  case Nil
  then show ?case by (auto simp: staged_as_def)
next
  case (Cons a atts)
  obtain r1 b1 where one: "stage_one (gx_source env n) sha256 dir n used a = (r1, b1)" by fastforce
  then obtain p s where r1: "r1 = Inr (p, s)" using Cons.prems(1) by (auto split: sum.splits prod.splits)
  obtain r2 b2 where rest: "stage_each env sha256 dir (n + 1) (used + pa_Size p) atts = (r2, b2)" by fastforce
  then obtain ps' ss' where r2: "r2 = Inr (ps', ss')" and e: "ps = p # ps'" "ss = s # ss'" "blobs = b1 @ b2"
    using Cons.prems(1) one r1 by (auto split: sum.splits)
  have ok: "staged_as sha256 b1 [p] [s]" "pa_Size p \<le> maxSendAttachmentBytes - used"
    using stage_one_ok one r1 by auto
  from Cons.IH [OF rest [unfolded r2]] ok show ?case by (simp add: e staged_as_append)
qed

lemma max_bytes: "maxSendAttachmentBytes = 536870912"
  by (simp add: maxSendAttachmentBytes_def)

lemma stageSendAttachments_ok:
  assumes "stageSendAttachments env sha256 paths t atts st = (Inr (ps, ss, dir), st')" and "atts \<noteq> []"
    and "st (Join [transactionStagingRoot paths, t]) = None"
  shows "dir = Join [transactionStagingRoot paths, t] \<and> length atts \<le> 20 \<and> length ps = length atts \<and>
    sum_list (map pa_Size ps) \<le> maxSendAttachmentBytes \<and> (\<exists>blobs. st' dir = Some blobs \<and> staged_as sha256 blobs ps ss)"
proof -
  let ?dir = "Join [transactionStagingRoot paths, t]"
  obtain e1 st1 where en: "ensurePrivateStagingDirectory env ?dir st = (e1, st1)" by fastforce
  obtain r blobs where each: "stage_each env sha256 ?dir 0 0 atts = (r, blobs)" by fastforce
  have len: "length atts \<le> 20"
    using assms(1,2) by (auto simp: stageSendAttachments_def maxSendAttachments_def split: if_splits)
  have e1: "e1 = None" using assms(1,2) len en
    by (cases e1) (auto simp: stageSendAttachments_def maxSendAttachments_def Let_def)
  obtain ps' ss' where r: "r = Inr (ps', ss')"
    using assms(1,2) len en e1 each
    by (cases r) (auto simp: stageSendAttachments_def maxSendAttachments_def Let_def stage_cleanup_def split: prod.splits option.splits)
  have res: "ps' = ps" "ss' = ss" "dir = ?dir" "st' = st1(?dir := map_option (\<lambda>files. files @ blobs) (st1 ?dir))"
    using assms(1,2) len en e1 each r
    by (auto simp: stageSendAttachments_def maxSendAttachments_def Let_def stage_cleanup_def split: prod.splits option.splits)
  have "st1 ?dir = Some []"
    using en e1 assms(3) by (auto simp: ensurePrivateStagingDirectory_def Let_def split: sum.splits if_splits option.splits)
  then show ?thesis
    using stage_each_ok [of env sha256 ?dir 0 0 atts ps' ss' blobs] each r res len
    by (simp add: maxSendAttachmentBytes_def)
qed

section \<open>A concrete service\<close>

definition demo_service_env :: service_env where
  "demo_service_env = \<lparr>vx_now = (\<lambda>_. 1000), vx_removeall = (\<lambda>_ _. None), vx_rt = (\<lambda>_. demo_runtime), vx_wait = (\<lambda>_. id),
     vx_sql = (\<lambda>_. no_faults), vx_close = (\<lambda>_. None), vx_json = (\<lambda>_. True), vx_fts = (\<lambda>_ _. Inr []),
     vx_Send = (\<lambda>_. (zero_SendResult\<lparr>sr_Verified := True\<rparr>, None)), vx_randomID = [1, 2], vx_sha256 = (\<lambda>s. [of_nat (length s)]),
     vx_stage = \<lparr>gx_Lstat = Inl (ErrSentinel OsErrNotExist), gx_MkdirAll = None, gx_Chmod = None,
       gx_source = (\<lambda>_. \<lparr>gs_Open = None, gs_Stat = Inr (True, 3), gs_Create = None, gs_bytes = ''abc'', gs_Copy = None,
         gs_CloseSource = None, gs_Sync = None, gs_CloseOutput = None\<rparr>), gx_syncDir = None, gx_RemoveAll = (\<lambda>_. None)\<rparr>\<rparr>"

definition demo_request :: SendRequest where
  "demo_request = \<lparr>rq_ConversationID = ''c'', rq_Text = ''hello'', rq_Attachments = [], rq_ShareSurfaceID = [], rq_IdempotencyKey = []\<rparr>"

definition demo_service :: Service where
  "demo_service = service_New demo_paths (NewManager demo_store (\<lambda>_. empty_db)) (\<lambda>_. None) (\<lambda>_. [])"

definition prepared_service :: Service where
  "prepared_service = snd (PrepareSend demo_service_env ''alice'' demo_request (set_runtimes running_manager demo_service))"

definition sent_service :: Service where
  "sent_service = snd (CommitSend demo_service_env ''0102'' ''k'' True prepared_service)"

lemma demo_service_start: "service_start demo_service"
  using demo_start by (simp add: service_start_def demo_service_def service_New_def)

lemma lift_runtime_run:
  "manager_step\<^sup>*\<^sup>* m m' \<Longrightarrow> service_step\<^sup>*\<^sup>* (set_runtimes m s) (set_runtimes m' s)"
proof (induction rule: rtranclp_induct)
  case (step y z)
  have "service_step (set_runtimes y s) (set_runtimes z (set_runtimes y s))"
    by (rule RuntimeStepped) (simp add: step.hyps)
  then show ?case using step.IH by (simp add: set_runtimes_def)
qed simp

lemma demo_service_run: "service_step\<^sup>*\<^sup>* demo_service sent_service"
proof -
  have "service_step\<^sup>*\<^sup>* demo_service (set_runtimes running_manager demo_service)"
    using lift_runtime_run [OF demo_run, of demo_service] by (simp add: demo_service_def service_New_def set_runtimes_def)
  also have "service_step (set_runtimes running_manager demo_service) prepared_service"
    unfolding prepared_service_def by (rule SendPrepared, rule prod.collapse [symmetric])
  also have "service_step prepared_service sent_service"
    unfolding sent_service_def by (rule SendCommitted, rule prod.collapse [symmetric])
  finally show ?thesis .
qed

lemma demo_sent: "map ev_key (sv_sends sent_service demo_id) = [''k''] \<and> sv_sends prepared_service demo_id = []"
  by code_simp

section \<open>Properties\<close>

text \<open>C1. At most once: in every reachable state of the service - after any interleaving of prepares,
  commits, retries, crashes between reservation, call and settlement, and lifecycle operations - two
  calls of the driver for the same account share an idempotency key or a transaction only when
  the earlier one failed without any uncertainty.\<close>

theorem send_at_most_once:
  assumes "service_start s0" and "service_step\<^sup>*\<^sup>* s0 s" and "i < j" and "j < length (sv_sends s a)"
    and "ev_key (sv_sends s a ! i) = ev_key (sv_sends s a ! j) \<or>
      ev_transaction (sv_sends s a ! i) = ev_transaction (sv_sends s a ! j)"
  shows "ev_error (sv_sends s a ! i) \<noteq> None \<and> \<not> sr_Uncertain (ev_result (sv_sends s a ! i))"
proof -
  have "at_most_once (sv_sends s a)" by (rule service_invD(3) [OF send_service.reachable_inv [OF assms(1,2)]])
  then show ?thesis using assms(3-5) sorted_wrt_nth_less [OF _ assms(3,4)]
    by (fastforce simp: at_most_once_def definite_def)
qed

definition failing_env :: service_env where
  "failing_env = demo_service_env\<lparr>vx_Send := (\<lambda>_. (zero_SendResult, Some (ErrNew ''no window'')))\<rparr>"

definition retried_service :: Service where
  "retried_service = snd (CommitSend demo_service_env ''0102'' ''k'' True
     (snd (CommitSend failing_env ''0102'' ''k'' True prepared_service)))"

theorem send_at_most_once_witness:
  "length (sv_sends retried_service demo_id) = 2 \<and> ev_error (sv_sends retried_service demo_id ! 0) \<noteq> None"
proof -
  have steps: "service_step prepared_service (snd (CommitSend failing_env ''0102'' ''k'' True prepared_service))"
    "service_step (snd (CommitSend failing_env ''0102'' ''k'' True prepared_service)) retried_service"
    unfolding retried_service_def by (rule SendCommitted, rule prod.collapse [symmetric])+
  have "service_step\<^sup>*\<^sup>* demo_service (set_runtimes running_manager demo_service)"
    using lift_runtime_run [OF demo_run, of demo_service] by (simp add: demo_service_def service_New_def set_runtimes_def)
  moreover have "service_step (set_runtimes running_manager demo_service) prepared_service"
    unfolding prepared_service_def by (rule SendPrepared, rule prod.collapse [symmetric])
  ultimately have run: "service_step\<^sup>*\<^sup>* demo_service retried_service"
    using steps by (meson rtranclp.rtrancl_into_rtrancl)
  have keys: "map ev_key (sv_sends retried_service demo_id) = [''k'', ''k'']" by code_simp
  then have "length (sv_sends retried_service demo_id) = 2" by (metis length_map length_Cons list.size(3) numeral_2_eq_2)
  moreover from this have "ev_key (sv_sends retried_service demo_id ! 0) = ev_key (sv_sends retried_service demo_id ! 1)"
    using nth_map [of 0 "sv_sends retried_service demo_id" ev_key] nth_map [of 1 "sv_sends retried_service demo_id" ev_key]
    by (simp add: keys)
  ultimately have log: "length (sv_sends retried_service demo_id) = 2 \<and>
      ev_key (sv_sends retried_service demo_id ! 0) = ev_key (sv_sends retried_service demo_id ! 1)" by simp
  then show ?thesis using send_at_most_once [OF demo_service_start run, of 0 1 demo_id] by simp
qed

text \<open>C2. The service implements an outbox: every run of the service is, under the abstraction to taken
  keys and delivered calls, a run of the outbox, whose steps take a fresh pair of key and
  transaction, deliver a call together with taking its fresh pair, give back the pair of a last
  call that failed without uncertainty, or forget an account.\<close>

theorem service_refines_outbox:
  assumes "service_start s0" and "service_step\<^sup>*\<^sup>* s0 s"
  shows "outbox_step\<^sup>*\<^sup>* (outbox_of s0) (outbox_of s)"
  using assms(2)
proof (induction rule: rtranclp_induct)
  case (step y z)
  have "service_inv y" by (rule send_service.reachable_inv [OF assms(1) step.hyps(1)])
  then show ?case using step.IH service_refines_step [OF step.hyps(2)] by simp
qed simp

theorem service_refines_outbox_witness: "outbox_step\<^sup>*\<^sup>* (outbox_of demo_service) (outbox_of sent_service)"
  by (rule service_refines_outbox [OF demo_service_start demo_service_run])

text \<open>C3. The driver is called only for a confirmed commit with a bounded key, for a transaction that is
  in the table and has not expired, and then exactly once and with exactly the conversation, text,
  staged attachments and surface of the preview.\<close>

theorem only_confirmed_previews_sent:
  assumes "CommitSend env t k confirmed s = (r, s')" and "sv_sends s' \<noteq> sv_sends s" and "manager_inv (sv_runtimes s)"
  shows "confirmed \<and> TrimSpace k \<noteq> [] \<and> length k \<le> 128 \<and>
    (\<exists>tx a e. map_of (sv_transactions s) t = Some tx \<and> vx_now env 0 < ps_ExpiresAt (tx_Preview tx) \<and>
       sv_sends s' = (sv_sends s)(a := sv_sends s a @ [e]) \<and>
       ev_request e = \<lparr>rq_ConversationID = ps_ConversationID (tx_Preview tx), rq_Text = ps_Text (tx_Preview tx),
         rq_Attachments = tx_Attachments tx, rq_ShareSurfaceID = ps_ShareSurfaceID (tx_Preview tx), rq_IdempotencyKey = k\<rparr>)"
proof -
  have guard: "commit_guard k confirmed = None"
    using assms(1,2) by (cases "commit_guard k confirmed") (auto simp: CommitSend_def)
  obtain admitted s1 where a: "admit_commit env t s = (admitted, s1)" by fastforce
  have ledger: "sv_sends s1 = sv_sends s" "sv_runtimes s1 = sv_runtimes s"
    using admit_commit_ledger [OF a] by (simp_all add: same_ledger_def)
  have rel: "sv_sends (releaseTransactionCommit rm now t x) = sv_sends x" for rm now x
    using release_ledger by (auto simp: same_ledger_def)
  have "admitted \<noteq> None"
    using assms(1,2) guard a ledger(1)
    by (auto simp: CommitSend_def commit_missing_def findCommittedSend_def split: sum.splits option.splits prod.splits)
  then obtain tx' where adm: "admitted = Some tx'" by blast
  then obtain tx where tx: "map_of (sv_transactions s) t = Some tx" "tx' = tx\<lparr>tx_Committing := True\<rparr>"
    "\<not> expired (vx_now env 0) tx"
    using a by (auto simp: admit_commit_def Let_def split: option.splits if_splits)
  obtain rr s2 where res: "commit_reserve env t k tx' s1 = (rr, s2)" by fastforce
  have sends2: "sv_sends s2 = sv_sends s"
    using commit_reserve_effect [OF res] ledger assms(3) by simp
  obtain item where item: "rr = Inr item"
    using assms(1,2) guard a adm res sends2 rel by (cases rr) (auto simp: CommitSend_def Let_def)
  obtain answer s3 where call: "commit_call env t k tx' item s2 = (answer, s3)" by fastforce
  obtain x s4 where settle: "commit_settle env t k tx' item answer s3 = (x, s4)" by fastforce
  from call obtain e where e: "ev_request e = send_request k tx'"
    and s3: "s3 = s2\<lparr>sv_sends := (sv_sends s2)(acc_ID item := sv_sends s2 (acc_ID item) @ [e])\<rparr>"
    by (rule commit_call_event) blast
  have "manager_inv (sv_runtimes s3)"
    using commit_reserve_effect [OF res] ledger assms(3) by (simp add: s3)
  then have "sv_sends s4 = sv_sends s3" using commit_settle_effect [OF settle] by simp
  moreover have "sv_sends s' = sv_sends s4"
    using assms(1) guard a adm res item call settle rel by (auto simp: CommitSend_def Let_def)
  ultimately have "sv_sends s' = (sv_sends s)(acc_ID item := sv_sends s (acc_ID item) @ [e])"
    using s3 sends2 by simp
  then show ?thesis using guard tx e
    by (auto simp: commit_guard_def expired_def send_request_def Let_def split: if_splits)
qed

theorem only_confirmed_previews_sent_witness:
  "\<exists>tx. map_of (sv_transactions prepared_service) ''0102'' = Some tx \<and> 1000 < ps_ExpiresAt (tx_Preview tx)"
proof -
  have diff: "sv_sends sent_service \<noteq> sv_sends prepared_service" using demo_sent by force
  have run: "CommitSend demo_service_env ''0102'' ''k'' True prepared_service =
      (fst (CommitSend demo_service_env ''0102'' ''k'' True prepared_service), sent_service)"
    by (simp add: sent_service_def)
  have "service_step\<^sup>*\<^sup>* demo_service (set_runtimes running_manager demo_service)"
    using lift_runtime_run [OF demo_run, of demo_service] by (simp add: demo_service_def service_New_def set_runtimes_def)
  then have "service_inv (set_runtimes running_manager demo_service)"
    by (rule send_service.reachable_inv [OF demo_service_start])
  then have "manager_inv (sv_runtimes prepared_service)"
    using PrepareSend_keeps [OF prod.collapse [symmetric]] service_invD(1)
    unfolding prepared_service_def by (blast intro: service_invD(1) keeps_ledger_inv)
  from only_confirmed_previews_sent [OF run diff this] show ?thesis by (auto simp: demo_service_env_def)
qed

text \<open>C33. The request hash determines the request: two requests with the same hash are equal in
  conversation, text, attachments and surface, unless SHA-256 maps their different encodings to the
  same digest. The length prefixes leave no way to shift bytes between fields.\<close>

theorem canonicalSendHash_binds:
  assumes "canonicalSendHash sha256 c x as f = canonicalSendHash sha256 c' x' as' f'"
    and "short c" "short c'" "short x" "short x'" "short f" "short f'" "short as" "short as'"
    and "list_all encodable as" "list_all encodable as'"
  shows "(c, x, as, f) = (c', x', as', f') \<or>
    send_encoding c x as f \<noteq> send_encoding c' x' as' f' \<and>
    sha256 (send_encoding c x as f) = sha256 (send_encoding c' x' as' f')"
  using EncodeToString_inj [OF assms(1) [unfolded canonicalSendHash_def]]
    send_encoding_inj [OF assms(2-11)] by auto

theorem canonicalSendHash_binds_witness:
  "canonicalSendHash (\<lambda>s. map (\<lambda>ch. of_nat (of_char ch)) s) ''ab'' ''c'' [] [] \<noteq>
   canonicalSendHash (\<lambda>s. map (\<lambda>ch. of_nat (of_char ch)) s) ''a'' ''bc'' [] []"
proof
  let ?sha = "\<lambda>s. map (\<lambda>ch. of_nat (of_char ch)) s :: 8 word list"
  assume "canonicalSendHash ?sha ''ab'' ''c'' [] [] = canonicalSendHash ?sha ''a'' ''bc'' [] []"
  from canonicalSendHash_binds [OF this]
  have "?sha (send_encoding ''ab'' ''c'' [] []) = ?sha (send_encoding ''a'' ''bc'' [] [])" by (simp add: short_def)
  moreover have "?sha (send_encoding ''ab'' ''c'' [] []) \<noteq> ?sha (send_encoding ''a'' ''bc'' [] [])" by code_simp
  ultimately show False by blast
qed

text \<open>C34. Staged attachments are bounded and faithful: at most 20 files of 512 MiB together, and each file
  in the staging directory has the size and the digest that the preview shows, under the name and
  path that the driver will be given. The size that the file system reported before is not relied on.\<close>

theorem staged_attachments_faithful:
  assumes "stageSendAttachments env sha256 paths t atts st = (Inr (ps, ss, dir), st')" and "atts \<noteq> []"
    and "st (Join [transactionStagingRoot paths, t]) = None"
  shows "dir = Join [transactionStagingRoot paths, t] \<and> length atts \<le> 20 \<and> length ps = length atts \<and>
    sum_list (map pa_Size ps) \<le> 536870912 \<and>
    (\<exists>blobs. st' dir = Some blobs \<and> map fst blobs = map at_LocalPath ss \<and> map pa_Name ps = map at_Name ss \<and>
       map (\<lambda>(_, data). (int (length data), EncodeToString (sha256 data))) blobs =
         map (\<lambda>p. (pa_Size p, pa_SHA256 p)) ps)"
  by (rule stageSendAttachments_ok [OF assms, unfolded staged_as_def max_bytes])

definition demo_attachment :: Attachment where
  "demo_attachment = \<lparr>at_ID = [], at_Kind = [], at_Name = [], at_MediaType = [], at_Size = 0, at_LocalPath = ''/tmp/a.txt''\<rparr>"

theorem staged_attachments_faithful_witness:
  "\<exists>ps ss dir st'. stageSendAttachments (vx_stage demo_service_env) (vx_sha256 demo_service_env) demo_paths ''0102''
      [demo_attachment] (\<lambda>_. None) = (Inr (ps, ss, dir), st') \<and> length ps = 1"
proof -
  have path: "Clean ''/tmp/a.txt'' = ''/tmp/a.txt''" "Base ''/tmp/a.txt'' = ''a.txt''" "ValidString ''a.txt''"
    "IsAbs ''/tmp/a.txt''" by code_simp+
  have "\<not> isl (fst (stageSendAttachments (vx_stage demo_service_env) (vx_sha256 demo_service_env) demo_paths ''0102''
      [demo_attachment] (\<lambda>_. None)))"
    by (simp add: stageSendAttachments_def maxSendAttachments_def ensurePrivateStagingDirectory_def errors_Is_def
        stage_one_def path demo_attachment_def demo_service_env_def maxSendAttachmentBytes_def errors_Join_def Let_def)
  then obtain ps ss dir st' where run: "stageSendAttachments (vx_stage demo_service_env) (vx_sha256 demo_service_env)
      demo_paths ''0102'' [demo_attachment] (\<lambda>_. None) = (Inr (ps, ss, dir), st')"
    by (metis isl_def prod.collapse sum.exhaust)
  from staged_attachments_faithful [OF run] run show ?thesis by auto
qed

end
