(* ===== verification/Auth_Challenge.thy ===== *)
theory Auth_Challenge
  imports Config
begin

text \<open>
  Authentication challenges of \<^verbatim>\<open>internal/auth/manager.go\<close>: the entry of a challenge, the
  observation of the official client, verification codes and confirmed login actions, and the
  HTTP handlers. A handler releases the entry's mutex around every call of the driver; each section
  under the mutex is one definition here, and what happens in between is up to other handlers.
  The texts that the page shows are not modelled, except where the program stores them.
\<close>

section \<open>Data\<close>

record Challenge =
  ch_ID :: string
  ch_AccountID :: string
  ch_LocalURL :: string
  ch_LANURL :: string
  ch_LinkQRPath :: string
  ch_State :: runtime_state
  ch_Kind :: auth_kind
  ch_Prompt :: string
  ch_ExpiresAt :: time
  ch_CompletedAt :: "time option"

text \<open>The maps with default value 0 or false are functions; driver, server and listener are not state.\<close>

record entry =
  ey_public :: Challenge
  ey_token :: string
  ey_codeAttempts :: int
  ey_codeInFlight :: bool
  ey_codeSubmitted :: bool
  ey_actionAttempts :: "string \<Rightarrow> int"
  ey_totalActionAttempts :: int
  ey_actionInFlight :: bool
  ey_performedActions :: "string \<Rightarrow> bool"
  ey_performedReplayKeys :: "string \<Rightarrow> bool"
  ey_lastObservedAt :: time
  ey_onlineCandidateSince :: time
  ey_onlineObservations :: int
  ey_closed :: bool

definition challengeTTL :: duration where "challengeTTL = 10 * minute"
definition completedRetention :: duration where "completedRetention = 60 * second"
definition onlineStabilityWindow :: duration where "onlineStabilityWindow = 15 * second"
definition minimumStableOnlineObservations :: int where "minimumStableOnlineObservations = 3"
definition maxAuthActionAttemptsPerAction :: int where "maxAuthActionAttemptsPerAction = 3"
definition maxAuthActionAttemptsPerChallenge :: int where "maxAuthActionAttemptsPerChallenge = 6"

definition verificationCodePattern :: "string \<Rightarrow> bool" where
  "verificationCodePattern = match_bounded (\<lambda>c. is_digit c \<or> is_upper c \<or> is_lower c \<or> c = CHR ''-'') 4 16"

section \<open>Observing the client\<close>

definition completedLocked :: "entry \<Rightarrow> bool" where
  "completedLocked e \<longleftrightarrow> ch_CompletedAt (ey_public e) \<noteq> None"

definition markCompletedLocked :: "time \<Rightarrow> entry \<Rightarrow> entry" where
  "markCompletedLocked now e =
     e\<lparr>ey_public := (ey_public e)\<lparr>ch_State := StateOnline,
         ch_CompletedAt := (if ch_CompletedAt (ey_public e) = None then Some now else ch_CompletedAt (ey_public e))\<rparr>\<rparr>"

definition stability_prompt :: string where
  "stability_prompt =
     [CHR 0xE5, CHR 0xAE, CHR 0x98, CHR 0xE6, CHR 0x96, CHR 0xB9, CHR 0xE5, CHR 0xAE, CHR 0xA2, CHR 0xE6,
      CHR 0x88, CHR 0xB7, CHR 0xE7, CHR 0xAB, CHR 0xAF, CHR 0xE5, CHR 0xB7, CHR 0xB2, CHR 0xE8, CHR
      0xBF, CHR 0x9B, CHR 0xE5, CHR 0x85, CHR 0xA5, CHR 0xE4, CHR 0xB8, CHR 0xBB, CHR 0xE7, CHR
      0x95, CHR 0x8C, CHR 0xE9, CHR 0x9D, CHR 0xA2, CHR 0xEF, CHR 0xBC, CHR 0x8C, CHR 0xE6, CHR
      0xAD, CHR 0xA3, CHR 0xE5, CHR 0x9C, CHR 0xA8, CHR 0xE7, CHR 0xA1, CHR 0xAE, CHR 0xE8, CHR
      0xAE, CHR 0xA4, CHR 0xE7, CHR 0x99, CHR 0xBB, CHR 0xE5, CHR 0xBD, CHR 0x95, CHR 0xE7, CHR
      0x8A, CHR 0xB6, CHR 0xE6, CHR 0x80, CHR 0x81, CHR 0xE7, CHR 0xA8, CHR 0xB3, CHR 0xE5, CHR
      0xAE, CHR 0x9A]"

definition observeAuthSnapshotLocked :: "AuthSnapshot \<Rightarrow> time \<Rightarrow> entry \<Rightarrow> bool \<times> entry" where
  "observeAuthSnapshotLocked snapshot now e =
     (let e1 = e\<lparr>ey_public := (ey_public e)\<lparr>ch_Kind := as_Kind snapshot\<rparr>,
                 ey_lastObservedAt := (if as_ObservedAt snapshot = 0 then now else as_ObservedAt snapshot)\<rparr>
      in if as_State snapshot \<noteq> StateOnline
         then (False, e1\<lparr>ey_onlineCandidateSince := 0, ey_onlineObservations := 0,
                 ey_public := (ey_public e1)\<lparr>ch_State := as_State snapshot, ch_Prompt := as_Prompt snapshot\<rparr>\<rparr>)
         else
           let e2 = (if ey_onlineCandidateSince e1 = 0
                     then e1\<lparr>ey_onlineCandidateSince := now, ey_onlineObservations := 1\<rparr>
                     else e1\<lparr>ey_onlineObservations := ey_onlineObservations e1 + 1\<rparr>)
           in if ey_onlineObservations e2 \<ge> minimumStableOnlineObservations \<and>
                 now - ey_onlineCandidateSince e2 \<ge> onlineStabilityWindow
              then (True, markCompletedLocked now e2)
              else (False, e2\<lparr>ey_public := (ey_public e2)\<lparr>ch_State := StateStarting, ch_Prompt := stability_prompt\<rparr>\<rparr>))"

section \<open>Opening and closing\<close>

text \<open>The entry that \<^verbatim>\<open>Begin\<close> creates, after its first observation.\<close>

definition new_entry ::
  "string \<Rightarrow> string \<Rightarrow> string \<Rightarrow> string \<Rightarrow> string \<Rightarrow> string \<Rightarrow> AuthSnapshot \<Rightarrow> time \<Rightarrow> entry"
where
  "new_entry challengeID accountID token localURL lanURL qrPath snapshot now =
     snd (observeAuthSnapshotLocked snapshot now
       \<lparr>ey_public = \<lparr>ch_ID = challengeID, ch_AccountID = accountID, ch_LocalURL = localURL, ch_LANURL = lanURL,
          ch_LinkQRPath = qrPath, ch_State = as_State snapshot, ch_Kind = as_Kind snapshot,
          ch_Prompt = as_Prompt snapshot, ch_ExpiresAt = now + challengeTTL, ch_CompletedAt = None\<rparr>,
        ey_token = token, ey_codeAttempts = 0, ey_codeInFlight = False, ey_codeSubmitted = False,
        ey_actionAttempts = (\<lambda>_. 0), ey_totalActionAttempts = 0, ey_actionInFlight = False,
        ey_performedActions = (\<lambda>_. False), ey_performedReplayKeys = (\<lambda>_. False), ey_lastObservedAt = 0,
        ey_onlineCandidateSince = 0, ey_onlineObservations = 0, ey_closed = False\<rparr>)"

definition entry_close :: "entry \<Rightarrow> entry" where
  "entry_close e = e\<lparr>ey_closed := True\<rparr>"

definition gone :: "time \<Rightarrow> entry \<Rightarrow> bool" where
  "gone now e \<longleftrightarrow> ey_closed e \<or> now > ch_ExpiresAt (ey_public e) \<or> completedLocked e"

section \<open>Login actions\<close>

definition authActionReplayKey :: "AuthAction \<Rightarrow> string option" where
  "authActionReplayKey action =
     (let key = (if aa_ReplayKey action = [] then aa_ID action else aa_ReplayKey action)
      in if key = [] \<or> TrimSpace key \<noteq> key \<or> length key > 256 then None
         else if list_all (\<lambda>c. CHR 0x21 \<le> c \<and> c \<le> CHR 0x7E) key then Some key else None)"

definition replay_matches :: "string \<Rightarrow> AuthAction list \<Rightarrow> nat" where
  "replay_matches key actions = length (filter (\<lambda>a. authActionReplayKey a = Some key) actions)"

definition availableAuthActionsLocked :: "AuthSnapshot \<Rightarrow> entry \<Rightarrow> AuthAction list" where
  "availableAuthActionsLocked snapshot e =
     (if ey_actionInFlight e \<or> completedLocked e \<or> as_State snapshot \<noteq> StateAuthRequired then []
      else if ey_totalActionAttempts e \<ge> maxAuthActionAttemptsPerChallenge then []
      else filter (\<lambda>action.
             aa_ID action \<noteq> [] \<and> TrimSpace (aa_ID action) = aa_ID action \<and>
             length (filter (\<lambda>a. aa_ID a = aa_ID action) (as_Actions snapshot)) = 1 \<and>
             (case authActionReplayKey action of
                None \<Rightarrow> False
              | Some key \<Rightarrow> replay_matches key (as_Actions snapshot) = 1 \<and> \<not> ey_performedReplayKeys e key) \<and>
             \<not> ey_performedActions e (aa_ID action) \<and>
             ey_actionAttempts e (aa_ID action) < maxAuthActionAttemptsPerAction) (as_Actions snapshot))"

definition action_begin :: "time \<Rightarrow> string \<Rightarrow> bool \<Rightarrow> entry \<Rightarrow> go_error option \<times> entry" where
  "action_begin now actionID confirmed e =
     (if gone now e then (Some (ErrSentinel OsErrNotExist), e)
      else if ey_actionInFlight e then (Some (ErrSentinel AuthErrActionInFlight), e)
      else if ey_performedActions e actionID then (Some (ErrSentinel AuthErrActionUnavailable), e)
      else if \<not> confirmed then (Some (ErrSentinel AuthErrConfirmationRequired), e)
      else (None, e\<lparr>ey_actionInFlight := True\<rparr>))"

text \<open>The choice of the advertised action, between the two locked sections: its replay key.\<close>

definition action_select :: "bool \<Rightarrow> AuthSnapshot result \<Rightarrow> string \<Rightarrow> string result" where
  "action_select actor snapshot actionID =
     (case snapshot of
        Inl err \<Rightarrow> Inl err
      | Inr snap \<Rightarrow>
          if as_State snap = StateOnline then Inl (ErrSentinel OsErrNotExist)
          else if as_State snap \<noteq> StateAuthRequired then Inl (ErrSentinel AuthErrActionUnavailable)
          else case filter (\<lambda>a. aa_ID a = actionID) (as_Actions snap) of
              [advertised] \<Rightarrow>
                (case authActionReplayKey advertised of
                   None \<Rightarrow> Inl (ErrSentinel AuthErrActionUnavailable)
                 | Some key \<Rightarrow>
                     if replay_matches key (as_Actions snap) \<noteq> 1 \<or> \<not> actor
                     then Inl (ErrSentinel AuthErrActionUnavailable) else Inr key)
            | _ \<Rightarrow> Inl (ErrSentinel AuthErrActionUnavailable))"

definition action_reserve :: "time \<Rightarrow> string \<Rightarrow> string \<Rightarrow> entry \<Rightarrow> go_error option \<times> entry" where
  "action_reserve now actionID replayKey e =
     (if gone now e then (Some (ErrSentinel OsErrNotExist), e)
      else if ey_performedActions e actionID \<or> ey_performedReplayKeys e replayKey
      then (Some (ErrSentinel AuthErrActionUnavailable), e)
      else if ey_actionAttempts e actionID \<ge> maxAuthActionAttemptsPerAction \<or>
              ey_totalActionAttempts e \<ge> maxAuthActionAttemptsPerChallenge
      then (Some (ErrSentinel AuthErrTooManyActionAttempts), e)
      else (None, e\<lparr>ey_actionAttempts := (ey_actionAttempts e)(actionID := ey_actionAttempts e actionID + 1),
              ey_totalActionAttempts := ey_totalActionAttempts e + 1,
              ey_performedActions := (ey_performedActions e)(actionID := True),
              ey_performedReplayKeys := (ey_performedReplayKeys e)(replayKey := True)\<rparr>))"

definition authActionDefinitivelyRejected :: "go_error option \<Rightarrow> bool" where
  "authActionDefinitivelyRejected err =
     (if err = None \<or> AuthActionWasConsumed err then False
      else case ClassifyFailure err of
          None \<Rightarrow> False
        | Some kind \<Rightarrow> kind \<in> {FailureInvalidArgument, FailureAuthRequired, FailureClientIncompatible,
            FailureTargetAmbiguous, FailureUserActionRequired, FailureStale, FailureDriverUnavailable})"

definition action_settle :: "go_error option \<Rightarrow> string \<Rightarrow> string \<Rightarrow> entry \<Rightarrow> entry" where
  "action_settle err actionID replayKey e =
     (if authActionDefinitivelyRejected err
      then e\<lparr>ey_performedActions := (ey_performedActions e)(actionID := False),
             ey_performedReplayKeys := (ey_performedReplayKeys e)(replayKey := False)\<rparr>
      else e)"

definition action_end :: "entry \<Rightarrow> entry" where
  "action_end e = e\<lparr>ey_actionInFlight := False\<rparr>"

text \<open>
  The whole operation. \<open>between n\<close> is what other handlers do to the entry while the driver takes its
  snapshot and while it performs the action.
\<close>

definition performAuthAction ::
  "(nat \<Rightarrow> time) \<Rightarrow> bool \<Rightarrow> AuthSnapshot result \<Rightarrow> go_error option \<Rightarrow> (nat \<Rightarrow> entry \<Rightarrow> entry) \<Rightarrow>
     string \<Rightarrow> bool \<Rightarrow> entry \<Rightarrow> go_error option \<times> entry"
where
  "performAuthAction now actor snapshot answer between requested confirmed e =
     (let actionID = TrimSpace requested
      in case action_begin (now 0) actionID confirmed e of
          (Some err, e1) \<Rightarrow> (Some err, e1)
        | (None, e1) \<Rightarrow>
            let e2 = between 0 e1
            in case action_select actor snapshot actionID of
                Inl err \<Rightarrow> (Some err, action_end e2)
              | Inr replayKey \<Rightarrow>
                  (case action_reserve (now 1) actionID replayKey e2 of
                     (Some err, e3) \<Rightarrow> (Some err, action_end e3)
                   | (None, e3) \<Rightarrow> (answer, action_end (action_settle answer actionID replayKey (between 1 e3)))))"

section \<open>Verification codes\<close>

definition code_begin :: "time \<Rightarrow> string \<Rightarrow> entry \<Rightarrow> go_error option \<times> entry" where
  "code_begin now code e =
     (if \<not> verificationCodePattern code then (Some (ErrNew ''invalid verification code''), e)
      else if gone now e then (Some (ErrSentinel OsErrNotExist), e)
      else if ey_codeInFlight e then (Some (ErrSentinel AuthErrCodeInFlight), e)
      else if ey_codeSubmitted e then (Some (ErrSentinel AuthErrCodeAlreadySubmitted), e)
      else
        let e1 = e\<lparr>ey_codeAttempts := ey_codeAttempts e + 1\<rparr>
        in if ey_codeAttempts e1 > 8 then (Some (ErrSentinel AuthErrTooManyAttempts), e1)
           else (None, e1\<lparr>ey_codeInFlight := True\<rparr>))"

definition code_screen :: "AuthSnapshot result \<Rightarrow> go_error option" where
  "code_screen snapshot =
     (case snapshot of
        Inl err \<Rightarrow> Some err
      | Inr snap \<Rightarrow>
          if as_State snap \<noteq> StateAuthRequired \<or> as_Kind snap \<noteq> AuthSMS \<or> \<not> as_CanSubmitCode snap
          then Some (ErrNew ''verification code input is not available on the current official login screen'')
          else None)"

definition code_end :: "go_error option \<Rightarrow> entry \<Rightarrow> entry" where
  "code_end err e = e\<lparr>ey_codeInFlight := False, ey_codeSubmitted := (if err = None then True else ey_codeSubmitted e)\<rparr>"

definition submitCode ::
  "time \<Rightarrow> AuthSnapshot result \<Rightarrow> (string \<Rightarrow> go_error option) \<Rightarrow> (entry \<Rightarrow> entry) \<Rightarrow> string \<Rightarrow> entry \<Rightarrow>
     go_error option \<times> entry"
where
  "submitCode now snapshot submit between code e =
     (case code_begin now code e of
        (Some err, e1) \<Rightarrow> (Some err, e1)
      | (None, e1) \<Rightarrow>
          let err = (case code_screen snapshot of Some err \<Rightarrow> Some err | None \<Rightarrow> submit code)
          in (err, code_end err (between e1)))"

end
