(* ===== verification/Auth_LAN.thy ===== *)
theory Auth_LAN
  imports Errors
begin

text \<open>
  The choice of the address on which a login page is served, from \<^verbatim>\<open>internal/auth/manager.go\<close>: reading
  the default routes, parsing a requested address, and selecting a private address that is
  assigned to an eligible interface. The interfaces of the host and the lines of
  \<^verbatim>\<open>/proc/net/route\<close> are arguments.
\<close>

section \<open>Splitting and numerals\<close>

text \<open>\<^verbatim>\<open>strings.Fields\<close>: the maximal runs of bytes between white-space runes.\<close>

function split_fields :: "string \<Rightarrow> string \<Rightarrow> string list" where
  "split_fields word s =
     (case strip_one space_runes s of
        Some rest \<Rightarrow> (if word = [] then [] else [rev word]) @ split_fields [] rest
      | None \<Rightarrow>
          (case s of
             [] \<Rightarrow> (if word = [] then [] else [rev word])
           | c # rest \<Rightarrow> split_fields (c # word) rest))"
  by pat_completeness auto
termination
  by (relation "measure (\<lambda>(word, s). length s)") (auto dest: strip_one_shorter)

declare split_fields.simps [simp del]

definition Fields :: "string \<Rightarrow> string list" where
  "Fields s = split_fields [] s"

definition hex_value :: "char \<Rightarrow> int option" where
  "hex_value c =
     (if is_digit c then Some (of_char c - 48)
      else if CHR ''a'' \<le> c \<and> c \<le> CHR ''f'' then Some (of_char c - 87)
      else if CHR ''A'' \<le> c \<and> c \<le> CHR ''F'' then Some (of_char c - 55)
      else None)"

fun digits_value :: "int \<Rightarrow> int \<Rightarrow> string \<Rightarrow> int option" where
  "digits_value base acc [] = Some acc"
| "digits_value base acc (c # cs) =
     (case hex_value c of
        Some d \<Rightarrow> if d < base then digits_value base (acc * base + d) cs else None
      | None \<Rightarrow> None)"

definition ParseUint :: "int \<Rightarrow> nat \<Rightarrow> string \<Rightarrow> int option" where
  "ParseUint base bits s =
     (if s = [] then None
      else case digits_value base 0 s of
          Some n \<Rightarrow> if n < 2 ^ bits then Some n else None
        | None \<Rightarrow> None)"

definition Atoi :: "string \<Rightarrow> int option" where
  "Atoi s =
     (let negative = (take 1 s = ''-'');
          digits = (if take 1 s = ''-'' \<or> take 1 s = ''+'' then drop 1 s else s)
      in if digits = [] then None
         else case digits_value 10 0 digits of
             None \<Rightarrow> None
           | Some n \<Rightarrow>
               if negative then (if n \<le> 2 ^ 63 then Some (- n) else None)
               else (if n < 2 ^ 63 then Some n else None))"

section \<open>IPv4 addresses\<close>

type_synonym ipv4 = "8 word list"

fun split_dots :: "string \<Rightarrow> string list" where
  "split_dots [] = [[]]"
| "split_dots (c # cs) =
     (if c = CHR ''.'' then [] # split_dots cs
      else case split_dots cs of w # ws \<Rightarrow> (c # w) # ws | [] \<Rightarrow> [[c]])"

text \<open>A decimal field of at most 255 without a leading zero.\<close>

definition parse_octet :: "string \<Rightarrow> 8 word option" where
  "parse_octet s =
     (if s = [] \<or> \<not> list_all is_digit s \<or> (length s > 1 \<and> hd s = CHR ''0'') then None
      else case digits_value 10 0 s of
          Some n \<Rightarrow> if n \<le> 255 then Some (of_int n) else None
        | None \<Rightarrow> None)"

definition parseIPv4 :: "string \<Rightarrow> ipv4 option" where
  "parseIPv4 s =
     (case map parse_octet (split_dots s) of
        [Some a, Some b, Some c, Some d] \<Rightarrow> Some [a, b, c, d]
      | _ \<Rightarrow> None)"

definition IPString :: "ipv4 \<Rightarrow> string" where
  "IPString ip = intercalate ''.'' (map (\<lambda>b. dec_nat (unat b)) ip)"

definition isRFC1918 :: "ipv4 \<Rightarrow> bool" where
  "isRFC1918 ip \<longleftrightarrow> length ip = 4 \<and>
     (ip ! 0 = 10 \<or> (ip ! 0 = 172 \<and> 16 \<le> ip ! 1 \<and> ip ! 1 \<le> 31) \<or> (ip ! 0 = 192 \<and> ip ! 1 = 168))"

section \<open>Interfaces and routes\<close>

record lanInterface =
  li_Name :: string
  li_Index :: int
  li_Up :: bool
  li_Loopback :: bool
  li_Addresses :: "ipv4 list"
  li_Excluded :: bool

definition excluded_prefixes :: "string list" where
  "excluded_prefixes = [''docker'', ''veth'', ''br-'', ''virbr'', ''cni'', ''flannel'']"

text \<open>\<open>bridge\<close>: whether the interface has a bridge directory in sysfs.\<close>

definition excludedLANInterface :: "bool \<Rightarrow> string \<Rightarrow> bool" where
  "excludedLANInterface bridge name \<longleftrightarrow>
     list_ex (\<lambda>prefix. take (length prefix) (ToLower name) = prefix) excluded_prefixes \<or> bridge"

definition eligibleLANInterface :: "lanInterface \<Rightarrow> bool" where
  "eligibleLANInterface iface \<longleftrightarrow> li_Up iface \<and> \<not> li_Loopback iface \<and> \<not> li_Excluded iface"

definition parse_route :: "string \<Rightarrow> (int \<times> string) option" where
  "parse_route line =
     (let fields = Fields line
      in if length fields < 8 \<or> fields ! 1 \<noteq> ''00000000'' \<or> fields ! 7 \<noteq> ''00000000'' then None
         else case ParseUint 16 32 (fields ! 3) of
             None \<Rightarrow> None
           | Some flags \<Rightarrow>
               if even flags then None
               else map_option (\<lambda>metric. (metric, fields ! 0)) (Atoi (fields ! 6)))"

text \<open>\<open>None\<close> is a routing table that cannot be opened.\<close>

definition defaultRouteInterfaces :: "string list option \<Rightarrow> string list" where
  "defaultRouteInterfaces lines =
     (case lines of None \<Rightarrow> [] | Some ls \<Rightarrow> map snd (sort (List.map_filter parse_route ls)))"

fun default_first :: "lanInterface list \<Rightarrow> string list \<Rightarrow> string list \<Rightarrow> lanInterface list \<times> string list" where
  "default_first interfaces seen [] = ([], seen)"
| "default_first interfaces seen (name # names) =
     (case List.find (\<lambda>i. li_Name i = name) (rev interfaces) of
        Some iface \<Rightarrow>
          if name \<in> set seen then default_first interfaces seen names
          else (case default_first interfaces (name # seen) names of (ifs, seen') \<Rightarrow> (iface # ifs, seen'))
      | None \<Rightarrow> default_first interfaces seen names)"

definition ordered_interfaces :: "lanInterface list \<Rightarrow> string list \<Rightarrow> lanInterface list" where
  "ordered_interfaces interfaces defaults =
     (case default_first interfaces [] defaults of
        (first, seen) \<Rightarrow>
          first @ filter (\<lambda>i. li_Name i \<notin> set seen) (sort_key (\<lambda>i. (li_Index i, li_Name i)) interfaces))"

definition lan_error :: "string \<Rightarrow> go_error" where
  "lan_error text = ErrWrapf [] (ErrSentinel AuthErrInvalidLANAddress) ('': '' @ text)"

fun first_private :: "lanInterface list \<Rightarrow> ipv4 option" where
  "first_private [] = None"
| "first_private (iface # rest) =
     (if \<not> eligibleLANInterface iface then first_private rest
      else case List.find isRFC1918 (sort (li_Addresses iface)) of
          Some ip \<Rightarrow> Some ip
        | None \<Rightarrow> first_private rest)"

text \<open>
  \<open>mapped\<close> answers for texts in IPv6 notation: the IPv4 address that the notation maps to, if it is
  an IPv4-mapped one. A private address is never the unspecified or a loopback address.
\<close>

definition selectPrivateLANAddress ::
  "(string \<Rightarrow> ipv4 option) \<Rightarrow> string \<Rightarrow> lanInterface list \<Rightarrow> string list \<Rightarrow> string result"
where
  "selectPrivateLANAddress mapped requested interfaces defaults =
     (let requested = TrimSpace requested
      in if requested \<noteq> []
         then (case (case parseIPv4 requested of Some ip \<Rightarrow> Some ip | None \<Rightarrow> mapped requested) of
                 None \<Rightarrow> Inl (lan_error (quoted requested @ '' must be an assigned RFC1918 IPv4 address''))
               | Some ip \<Rightarrow>
                   if \<not> isRFC1918 ip
                   then Inl (lan_error (quoted requested @ '' must be an assigned RFC1918 IPv4 address''))
                   else if list_ex (\<lambda>iface. eligibleLANInterface iface \<and> ip \<in> set (li_Addresses iface)) interfaces
                   then Inr (IPString ip)
                   else Inl (lan_error (quoted requested @ '' is not assigned to an eligible local interface'')))
         else case first_private (ordered_interfaces interfaces defaults) of
             Some ip \<Rightarrow> Inr (IPString ip)
           | None \<Rightarrow> Inl (lan_error ''no RFC1918 address is assigned to an eligible local interface''))"

text \<open>
  What the host answers: its interfaces (\<^verbatim>\<open>net.Interface\<close>), the addresses of each as \<^verbatim>\<open>To4\<close> gives them
  (\<open>None\<close> for an address that is not IPv4), which interfaces have a bridge directory, the routing table,
  the configured address and the reading of IPv6 notations.
\<close>

record net_interface =
  ni_Name :: string
  ni_Index :: int
  ni_Up :: bool
  ni_Loopback :: bool
  ni_Addrs :: "ipv4 option list result"

record host_env =
  hx_Interfaces :: "net_interface list result"
  hx_bridge :: "string \<Rightarrow> bool"
  hx_routes :: "string list option"
  hx_LANAddress :: string
  hx_mapped :: "string \<Rightarrow> ipv4 option"

definition lan_candidate :: "host_env \<Rightarrow> net_interface \<Rightarrow> lanInterface" where
  "lan_candidate host iface =
     \<lparr>li_Name = ni_Name iface, li_Index = ni_Index iface, li_Up = ni_Up iface, li_Loopback = ni_Loopback iface,
      li_Addresses = (case ni_Addrs iface of Inl e \<Rightarrow> [] | Inr addresses \<Rightarrow> List.map_filter id addresses),
      li_Excluded = excludedLANInterface (hx_bridge host (ni_Name iface)) (ni_Name iface)\<rparr>"

definition privateLANAddress :: "host_env \<Rightarrow> string \<Rightarrow> string result" where
  "privateLANAddress host requested =
     (case hx_Interfaces host of
        Inl e \<Rightarrow> Inl (ErrWrapf ''list network interfaces: '' e [])
      | Inr interfaces \<Rightarrow>
          selectPrivateLANAddress (hx_mapped host) requested (map (lan_candidate host) interfaces)
            (defaultRouteInterfaces (hx_routes host)))"

definition ResolveLANAddress :: "host_env \<Rightarrow> bool \<Rightarrow> string \<Rightarrow> string result" where
  "ResolveLANAddress host lan requested =
     (if \<not> lan
      then (if requested \<noteq> [] then Inl (lan_error ''an address requires LAN login to be enabled'') else Inr [])
      else privateLANAddress host (if requested = [] then hx_LANAddress host else requested))"

section \<open>Printed addresses parse back\<close>

lemma is_digit_value: "is_digit c \<longleftrightarrow> 48 \<le> (of_char c :: nat) \<and> of_char c \<le> (57 :: nat)"
  by (simp add: is_digit_def less_eq_char_def)

lemma digit_char: "d < 10 \<Longrightarrow> is_digit (char_of (48 + d :: nat)) \<and> hex_value (char_of (48 + d)) = Some (int d)"
proof -
  assume "d < 10"
  moreover have "(of_char (char_of (48 + d)) :: int) = int (of_char (char_of (48 + d)))"
    by (simp only: of_nat_of_char)
  ultimately show ?thesis by (simp only: hex_value_def is_digit_value of_char_of) simp
qed

lemma digits_value_append:
  "digits_value b acc (xs @ ys) = Option.bind (digits_value b acc xs) (\<lambda>a. digits_value b a ys)"
  by (induction xs arbitrary: acc) (auto split: option.splits)

lemma dec_nat_digits: "list_all is_digit (dec_nat n)"
proof (induction n rule: dec_nat.induct)
  case (1 n)
  then show ?case using digit_char [of "n mod 10"] digit_char [of n] by (simp add: dec_nat.simps [of n])
qed

lemma dec_nat_value: "digits_value 10 0 (dec_nat n) = Some (int n)"
proof (induction n rule: dec_nat.induct)
  case (1 n)
  show ?case
  proof (cases "n < 10")
    case True
    then show ?thesis using digit_char [of n] by (simp add: dec_nat.simps [of n])
  next
    case False
    then show ?thesis using 1 digit_char [of "n mod 10"]
      by (simp add: dec_nat.simps [of n] digits_value_append) presburger
  qed
qed

lemma dec_nat_hd: "dec_nat n \<noteq> [] \<and> (0 < n \<longrightarrow> hd (dec_nat n) \<noteq> CHR ''0'')"
proof (induction n rule: dec_nat.induct)
  case (1 n)
  have "char_of (48 + n) \<noteq> CHR ''0''" if "0 < n" "n < 10"
    using that by (auto dest!: arg_cong [where f = "of_char :: char \<Rightarrow> nat"])
  then show ?case using 1 by (auto simp: dec_nat.simps [of n])
qed

lemma dec_nat_single: "n < 10 \<Longrightarrow> length (dec_nat n) = 1"
  by (simp add: dec_nat.simps [of n])

lemma dec_nat_octet: "n < 256 \<Longrightarrow> parse_octet (dec_nat n) = Some (of_nat n)"
  using dec_nat_hd [of n] dec_nat_single [of n]
  by (cases "n = 0") (auto simp: parse_octet_def dec_nat_digits dec_nat_value)

lemma dec_nat_no_dot: "CHR ''.'' \<notin> set (dec_nat n)"
  using dec_nat_digits [of n] by (auto simp: list_all_iff is_digit_value)

lemma split_dots_word: "CHR ''.'' \<notin> set w \<Longrightarrow> split_dots w = [w]"
  by (induction w) auto

lemma split_dots_append: "CHR ''.'' \<notin> set w \<Longrightarrow> split_dots (w @ CHR ''.'' # s) = w # split_dots s"
  by (induction w) auto

lemma parseIPv4_IPString: "length ip = 4 \<Longrightarrow> parseIPv4 (IPString ip) = Some ip"
proof -
  assume "length ip = 4"
  then obtain a b c d where ip: "ip = [a, b, c, d]"
    by (auto simp: numeral_eq_Suc length_Suc_conv)
  have small: "unat x < 256" for x :: "8 word"
  proof -
    have "unat x < 2 ^ LENGTH(8)" by (rule unsigned_less)
    then show ?thesis by simp
  qed
  have "split_dots (IPString ip) = map (\<lambda>b. dec_nat (unat b)) ip"
    by (simp add: ip IPString_def split_dots_append split_dots_word dec_nat_no_dot)
  then show "parseIPv4 (IPString ip) = Some ip"
    by (simp add: parseIPv4_def ip dec_nat_octet [OF small])
qed

lemma find_last_mem: "List.find P (rev xs) = Some x \<Longrightarrow> x \<in> set xs \<and> P x"
  by (drule find_SomeD) simp

lemma default_first_mem: "default_first interfaces seen names = (ifs, seen') \<Longrightarrow> set ifs \<subseteq> set interfaces"
proof (induction interfaces seen names arbitrary: ifs seen' rule: default_first.induct)
  case (2 interfaces seen name names)
  then show ?case
    by (cases "List.find (\<lambda>i. li_Name i = name) (rev interfaces)")
       (fastforce split: if_splits prod.splits dest: find_last_mem)+
qed simp

lemma ordered_interfaces_mem: "set (ordered_interfaces interfaces defaults) \<subseteq> set interfaces"
  using default_first_mem [of interfaces "[]" defaults] unfolding ordered_interfaces_def
  by (cases "default_first interfaces [] defaults") auto

lemma first_private_sound:
  "first_private ifs = Some ip \<Longrightarrow> isRFC1918 ip \<and> (\<exists>iface \<in> set ifs. eligibleLANInterface iface \<and> ip \<in> set (li_Addresses iface))"
  by (induction ifs) (auto split: if_splits option.splits dest!: find_SomeD)

lemma first_private_complete:
  "first_private ifs = None \<Longrightarrow> iface \<in> set ifs \<Longrightarrow> eligibleLANInterface iface \<Longrightarrow> ip \<in> set (li_Addresses iface) \<Longrightarrow>
     \<not> isRFC1918 ip"
  by (induction ifs) (auto split: if_splits option.splits simp: find_None_iff_all)

lemma parseIPv4_Nil: "parseIPv4 [] = None"
  by (simp add: parseIPv4_def parse_octet_def)

lemma selectPrivateLANAddress_sound:
  assumes sel: "selectPrivateLANAddress mapped req interfaces defaults = Inr address"
  shows "\<exists>iface \<in> set interfaces. \<exists>ip. eligibleLANInterface iface \<and> ip \<in> set (li_Addresses iface) \<and> isRFC1918 ip \<and> address = IPString ip"
proof (cases "TrimSpace req = []")
  case True
  then obtain ip where ip: "first_private (ordered_interfaces interfaces defaults) = Some ip" "address = IPString ip"
    using sel by (auto simp: selectPrivateLANAddress_def split: option.splits)
  then show ?thesis using first_private_sound [OF ip(1)] ordered_interfaces_mem by fastforce
next
  case False
  then show ?thesis using sel
    by (auto simp: selectPrivateLANAddress_def Let_def list_ex_iff split: option.splits if_splits)
qed

lemma lan_candidate_simps [simp]:
  "li_Up (lan_candidate host n) = ni_Up n" "li_Loopback (lan_candidate host n) = ni_Loopback n"
  "li_Excluded (lan_candidate host n) = excludedLANInterface (hx_bridge host (ni_Name n)) (ni_Name n)"
  by (simp_all add: lan_candidate_def)

lemma lan_candidate_addresses:
  "ip \<in> set (li_Addresses (lan_candidate host n)) \<Longrightarrow> \<exists>addresses. ni_Addrs n = Inr addresses \<and> Some ip \<in> set addresses"
  by (cases "ni_Addrs n") (auto simp: lan_candidate_def List.map_filter_def)

lemma ResolveLANAddress_sound:
  assumes "ResolveLANAddress host True requested = Inr address"
  shows "\<exists>interfaces n ip. hx_Interfaces host = Inr interfaces \<and> n \<in> set interfaces \<and> eligibleLANInterface (lan_candidate host n) \<and>
    ip \<in> set (li_Addresses (lan_candidate host n)) \<and> isRFC1918 ip \<and> address = IPString ip \<and> parseIPv4 address = Some ip"
proof -
  obtain interfaces req where i: "hx_Interfaces host = Inr interfaces"
    and sel: "selectPrivateLANAddress (hx_mapped host) req (map (lan_candidate host) interfaces)
      (defaultRouteInterfaces (hx_routes host)) = Inr address"
    using assms by (auto simp: ResolveLANAddress_def privateLANAddress_def split: sum.splits)
  obtain n ip where "n \<in> set interfaces" "eligibleLANInterface (lan_candidate host n)"
      "ip \<in> set (li_Addresses (lan_candidate host n))" "isRFC1918 ip" "address = IPString ip"
    using selectPrivateLANAddress_sound [OF sel] by auto
  then show ?thesis using i parseIPv4_IPString [of ip] by (auto simp: isRFC1918_def)
qed

section \<open>Properties\<close>

text \<open>C11. A login page is served beyond the host only on a private address: whatever was requested or
  configured, the resolved address is the text of an RFC 1918 address that the host assigns to an
  interface which is up and not the loopback, whose name begins with none of the container and bridge
  prefixes in any case of letters, and which has no bridge directory; the text parses back to that
  address. Without LAN login there is no address at all.\<close>

theorem ResolveLANAddress_private:
  assumes "ResolveLANAddress host lan requested = Inr address"
  shows "(\<not> lan \<longrightarrow> address = []) \<and>
    (lan \<longrightarrow> (\<exists>interfaces n addresses ip. hx_Interfaces host = Inr interfaces \<and> n \<in> set interfaces \<and>
       ni_Up n \<and> \<not> ni_Loopback n \<and> \<not> hx_bridge host (ni_Name n) \<and>
       (\<forall>prefix \<in> {''docker'', ''veth'', ''br-'', ''virbr'', ''cni'', ''flannel''}.
          take (length prefix) (ToLower (ni_Name n)) \<noteq> prefix) \<and>
       ni_Addrs n = Inr addresses \<and> Some ip \<in> set addresses \<and>
       isRFC1918 ip \<and> address = IPString ip \<and> parseIPv4 address = Some ip))"
proof (cases lan)
  case False
  then show ?thesis using assms by (auto simp: ResolveLANAddress_def split: if_splits)
next
  case True
  obtain interfaces n ip where r: "hx_Interfaces host = Inr interfaces" "n \<in> set interfaces"
      "eligibleLANInterface (lan_candidate host n)" "ip \<in> set (li_Addresses (lan_candidate host n))" "isRFC1918 ip"
      "address = IPString ip" "parseIPv4 address = Some ip"
    using ResolveLANAddress_sound [of host requested address] assms True by auto
  obtain addresses where "ni_Addrs n = Inr addresses" "Some ip \<in> set addresses"
    using lan_candidate_addresses [OF r(4)] by blast
  moreover have "ni_Up n \<and> \<not> ni_Loopback n \<and> \<not> hx_bridge host (ni_Name n) \<and>
      (\<forall>prefix \<in> {''docker'', ''veth'', ''br-'', ''virbr'', ''cni'', ''flannel''}.
         take (length prefix) (ToLower (ni_Name n)) \<noteq> prefix)"
    using r(3) by (simp add: eligibleLANInterface_def excludedLANInterface_def excluded_prefixes_def)
  ultimately show ?thesis using True r by blast
qed

definition demo_host :: host_env where
  "demo_host = \<lparr>hx_Interfaces = Inr [\<lparr>ni_Name = ''Docker0'', ni_Index = 1, ni_Up = True, ni_Loopback = False,
       ni_Addrs = Inr [Some [172, 17, 0, 1]]\<rparr>,
     \<lparr>ni_Name = ''eth0'', ni_Index = 2, ni_Up = True, ni_Loopback = False,
       ni_Addrs = Inr [None, Some [8, 8, 8, 8], Some [192, 168, 1, 7]]\<rparr>],
     hx_bridge = (\<lambda>_. False), hx_routes = None, hx_LANAddress = [], hx_mapped = (\<lambda>_. None)\<rparr>"

theorem ResolveLANAddress_private_witness:
  "ResolveLANAddress demo_host True [] = Inr ''192.168.1.7'' \<and> parseIPv4 ''192.168.1.7'' = Some [192, 168, 1, 7]"
proof -
  have r: "ResolveLANAddress demo_host True [] = Inr ''192.168.1.7''" by code_simp
  from ResolveLANAddress_private [OF r] have "\<exists>ip. parseIPv4 ''192.168.1.7'' = Some ip" by blast
  moreover have "parseIPv4 ''192.168.1.7'' = Some [192, 168, 1, 7]" by code_simp
  ultimately show ?thesis using r by simp
qed

end
