(* ===== verification/Auth_Server.thy ===== *)
theory Auth_Server
  imports Auth_Challenge Auth_LAN Go_Text
begin

text \<open>
  The login server of \<^verbatim>\<open>internal/auth/manager.go\<close>: the HTTP handlers of a challenge, the monitor that
  watches it, and the manager that opens and closes challenges. A handler is a function of the
  request, of what the driver answers and of the clock; where it takes the entry's mutex several
  times, \<open>between n\<close> is what others do to the entry after its \<open>n\<close>-th section. A request is given by
  what the program reads of it: the results of \<^verbatim>\<open>url.Parse\<close> and of the JSON decoder are its fields.
  The Chinese texts of the failures are not modelled; their codes are.
\<close>

section \<open>Requests and replies\<close>

record origin_url =
  or_Scheme :: string
  or_Host :: string
  or_Path :: string
  or_RawQuery :: string
  or_Fragment :: string

record http_request =
  rq_Method :: string
  rq_Path :: string
  rq_Host :: string
  rq_ContentType :: string
  rq_Marker :: "string \<Rightarrow> string"
  rq_Origin :: "origin_url option"
  rq_action_id :: "string list option"

datatype http_reply =
    HttpError nat string
  | HttpPage Challenge string
  | HttpState Challenge bool "AuthAction list" time
  | HttpImage string
  | HttpAccepted
  | HttpActionFailure nat string bool

definition sameOriginJSONRequest :: "http_request \<Rightarrow> string \<Rightarrow> string \<Rightarrow> bool" where
  "sameOriginJSONRequest r markerHeader markerValue \<longleftrightarrow>
     (let mediaType = TrimSpace (takeWhile (\<lambda>c. c \<noteq> CHR '';'') (rq_ContentType r))
      in fold_case mediaType = ''application/json'' \<and> rq_Marker r markerHeader = markerValue \<and>
         (case rq_Origin r of
            None \<Rightarrow> False
          | Some u \<Rightarrow> or_Scheme u = ''http'' \<and> or_Host u = rq_Host r \<and> or_Path u = [] \<and>
              or_RawQuery u = [] \<and> or_Fragment u = []))"

section \<open>Pages and states\<close>

definition method_error :: http_reply where
  "method_error = HttpError StatusMethodNotAllowed ''method not allowed''"

definition handlePage :: "time \<Rightarrow> http_request \<Rightarrow> entry \<Rightarrow> http_reply \<times> entry" where
  "handlePage now r e =
     (if rq_Method r \<noteq> ''GET'' then (method_error, e)
      else if ey_closed e then (HttpError StatusGone ''authentication challenge expired or completed'', e)
      else if completedLocked e
      then (let e1 = markCompletedLocked now e in (HttpPage (ey_public e1) (rq_Path r), e1))
      else if now > ch_ExpiresAt (ey_public e)
      then (HttpError StatusGone ''authentication challenge expired'', e)
      else (HttpPage (ey_public e) (rq_Path r), e))"

definition writeChallengeState :: "entry \<Rightarrow> bool \<Rightarrow> AuthAction list \<Rightarrow> http_reply" where
  "writeChallengeState e canSubmitCode actions =
     HttpState (ey_public e) canSubmitCode actions (ey_lastObservedAt e)"

text \<open>The tests that \<^verbatim>\<open>handleState\<close> makes before and after it asks the driver.\<close>

definition state_screen :: "time \<Rightarrow> entry \<Rightarrow> http_reply option \<times> entry" where
  "state_screen now e =
     (if ey_closed e then (Some (HttpError StatusGone ''authentication challenge expired or completed''), e)
      else if completedLocked e
      then (let e1 = markCompletedLocked now e in (Some (writeChallengeState e1 False []), e1))
      else if now > ch_ExpiresAt (ey_public e)
      then (Some (HttpError StatusGone ''authentication challenge expired''), e)
      else if ey_actionInFlight e then (Some (writeChallengeState e False []), e)
      else (None, e))"

definition state_observe :: "time \<Rightarrow> AuthSnapshot \<Rightarrow> entry \<Rightarrow> http_reply \<times> entry" where
  "state_observe now snapshot e =
     (case state_screen now e of
        (Some reply, e1) \<Rightarrow> (reply, e1)
      | (None, e1) \<Rightarrow>
          (case observeAuthSnapshotLocked snapshot now e1 of
             (True, e2) \<Rightarrow> (writeChallengeState e2 False [], e2)
           | (False, e2) \<Rightarrow>
               (writeChallengeState e2
                  (as_State snapshot = StateAuthRequired \<and> as_Kind snapshot = AuthSMS \<and> as_CanSubmitCode snapshot \<and>
                   \<not> ey_codeInFlight e2 \<and> \<not> ey_codeSubmitted e2 \<and> \<not> ey_actionInFlight e2)
                  (availableAuthActionsLocked snapshot e2), e2)))"

definition handleState ::
  "(nat \<Rightarrow> time) \<Rightarrow> AuthSnapshot result \<Rightarrow> (entry \<Rightarrow> entry) \<Rightarrow> http_request \<Rightarrow> entry \<Rightarrow> http_reply \<times> entry"
where
  "handleState now snapshot between r e =
     (if rq_Method r \<noteq> ''GET'' then (method_error, e)
      else case state_screen (now 0) e of
          (Some reply, e1) \<Rightarrow> (reply, e1)
        | (None, e1) \<Rightarrow>
            (case snapshot of
               Inl err \<Rightarrow> (HttpError StatusServiceUnavailable ''driver unavailable'', between e1)
             | Inr snap \<Rightarrow> state_observe (now 1) snap (between e1)))"

section \<open>Images\<close>

fun bound_matches :: "string \<Rightarrow> AuthAction list \<Rightarrow> string list option" where
  "bound_matches actionID [] = Some []"
| "bound_matches actionID (a # as) =
     (if aa_ID a \<noteq> actionID then bound_matches actionID as
      else if \<not> aa_ImageBound a then None
      else case authActionReplayKey a of
          None \<Rightarrow> None
        | Some key \<Rightarrow> map_option (\<lambda>keys. key # keys) (bound_matches actionID as))"

text \<open>
  The replay key and whether it is valid. When the binding is invalid the program still looks the
  key up, but discards the answer.
\<close>

definition uniqueImageBoundAction :: "AuthSnapshot \<Rightarrow> string \<Rightarrow> string \<times> bool" where
  "uniqueImageBoundAction snapshot actionID =
     (if as_State snapshot \<noteq> StateAuthRequired then ([], False)
      else case bound_matches actionID (as_Actions snapshot) of
          Some [key] \<Rightarrow> (key, replay_matches key (as_Actions snapshot) = 1)
        | _ \<Rightarrow> ([], False))"

definition image_binding :: "string list option \<Rightarrow> string option" where
  "image_binding query =
     (case query of
        None \<Rightarrow> Some []
      | Some [v] \<Rightarrow> if v = [] \<or> TrimSpace v \<noteq> v \<or> length v > 512 then None else Some v
      | _ \<Rightarrow> None)"

definition image_gone :: http_reply where
  "image_gone = HttpError StatusGone ''login image is no longer available''"

definition image_observe :: "time \<Rightarrow> AuthSnapshot \<Rightarrow> entry \<Rightarrow> bool \<times> entry" where
  "image_observe now snapshot e =
     (let e1 = snd (observeAuthSnapshotLocked snapshot now e)
      in (gone now e1 \<or> as_State snapshot = StateOnline, e1))"

definition image_reply :: "AuthSnapshot \<Rightarrow> string \<Rightarrow> entry \<Rightarrow> http_reply" where
  "image_reply snapshot actionID e =
     (let (replayKey, valid) = uniqueImageBoundAction snapshot actionID;
          consumed = ey_actionInFlight e \<or> ey_performedActions e actionID \<or> ey_performedReplayKeys e replayKey;
          image = (if actionID \<noteq> [] then as_ScreenshotPNG snapshot
                   else if as_QRCodePNG snapshot = [] then as_ScreenshotPNG snapshot else as_QRCodePNG snapshot)
      in if actionID \<noteq> [] \<and> (\<not> valid \<or> consumed \<or> as_ScreenshotPNG snapshot = [])
         then HttpError StatusConflict ''authentication image binding is stale''
         else if image = [] then HttpError StatusNotFound ''login image not available''
         else HttpImage image)"

definition handleImage ::
  "(nat \<Rightarrow> time) \<Rightarrow> AuthSnapshot result \<Rightarrow> (nat \<Rightarrow> entry \<Rightarrow> entry) \<Rightarrow> http_request \<Rightarrow> entry \<Rightarrow> http_reply \<times> entry"
where
  "handleImage now snapshot between r e =
     (if rq_Method r \<noteq> ''GET'' then (method_error, e)
      else case image_binding (rq_action_id r) of
          None \<Rightarrow> (HttpError StatusBadRequest ''invalid authentication image binding'', e)
        | Some actionID \<Rightarrow>
            if gone (now 0) e then (image_gone, e)
            else case snapshot of
                Inl err \<Rightarrow> (HttpError StatusServiceUnavailable ''driver unavailable'', between 0 e)
              | Inr snap \<Rightarrow>
                  (case image_observe (now 1) snap (between 0 e) of
                     (True, e1) \<Rightarrow> (image_gone, e1)
                   | (False, e1) \<Rightarrow>
                       let e2 = between 1 e1 in (image_reply snap actionID e2, e2)))"

section \<open>Codes and confirmed actions\<close>

definition submit_failure :: "go_error \<Rightarrow> http_reply" where
  "submit_failure err =
     (if errors_Is err (ErrSentinel AuthErrCodeInFlight) \<or> errors_Is err (ErrSentinel AuthErrCodeAlreadySubmitted)
      then HttpError StatusConflict ''verification submission is unavailable''
      else if errors_Is err (ErrSentinel AuthErrTooManyAttempts)
      then HttpError StatusTooManyRequests ''too many attempts''
      else if errors_Is err (ErrSentinel OsErrNotExist)
      then HttpError StatusGone ''authentication challenge expired or completed''
      else HttpError StatusBadRequest ''verification failed'')"

definition handleSubmit ::
  "time \<Rightarrow> AuthSnapshot result \<Rightarrow> (string \<Rightarrow> go_error option) \<Rightarrow> (entry \<Rightarrow> entry) \<Rightarrow> http_request \<Rightarrow>
     string json_value \<Rightarrow> entry \<Rightarrow> http_reply \<times> entry"
where
  "handleSubmit now snapshot submit between r body e =
     (if rq_Method r \<noteq> ''POST'' then (method_error, e)
      else if \<not> sameOriginJSONRequest r ''X-WeChatCopilot-Code'' ''user-entered''
      then (HttpError StatusForbidden ''cross-origin verification submission rejected'', e)
      else case body of
          JsonError err \<Rightarrow> (HttpError StatusBadRequest ''invalid verification code'', e)
        | JsonValue code \<Rightarrow>
            (case submitCode now snapshot submit between code e of
               (Some err, e1) \<Rightarrow> (submit_failure err, e1)
             | (None, e1) \<Rightarrow> (HttpAccepted, e1)))"

definition writeClassifiedAuthActionFailure :: "go_error \<Rightarrow> http_reply" where
  "writeClassifiedAuthActionFailure err =
     (case ClassifyFailure (Some err) of
        None \<Rightarrow> HttpActionFailure StatusConflict ''OUTCOME_UNCERTAIN'' False
      | Some kind \<Rightarrow>
          if kind = FailureStale then HttpActionFailure StatusConflict ''PAGE_CHANGED'' True
          else if kind = FailureTargetAmbiguous then HttpActionFailure StatusConflict ''TARGET_AMBIGUOUS'' True
          else if kind = FailureClientIncompatible then HttpActionFailure StatusConflict ''CLIENT_INCOMPATIBLE'' False
          else if kind = FailureUserActionRequired then HttpActionFailure StatusConflict ''USER_ACTION_REQUIRED'' False
          else if kind = FailureAuthRequired then HttpActionFailure StatusConflict ''AUTH_SCREEN_CHANGED'' True
          else if kind = FailureInvalidArgument then HttpActionFailure StatusBadRequest ''INVALID_ACTION'' False
          else if kind = FailureDriverUnavailable
          then HttpActionFailure StatusServiceUnavailable ''DRIVER_UNAVAILABLE'' True
          else HttpActionFailure StatusConflict ''ACTION_UNAVAILABLE'' False)"

definition action_failure :: "go_error \<Rightarrow> http_reply" where
  "action_failure err =
     (if errors_Is err (ErrSentinel OsErrNotExist) then HttpActionFailure StatusGone ''CHALLENGE_GONE'' False
      else if errors_Is err (ErrSentinel AuthErrTooManyActionAttempts)
      then HttpActionFailure StatusTooManyRequests ''ATTEMPT_LIMIT'' False
      else if errors_Is err (ErrSentinel AuthErrActionInFlight)
      then HttpActionFailure StatusConflict ''ACTION_IN_PROGRESS'' True
      else if errors_Is err (ErrSentinel AuthErrConfirmationRequired)
      then HttpActionFailure StatusBadRequest ''CONFIRMATION_REQUIRED'' True
      else if errors_Is err (ErrSentinel AuthErrActionUnavailable)
      then HttpActionFailure StatusConflict ''ACTION_NOT_CURRENT'' True
      else writeClassifiedAuthActionFailure err)"

text \<open>The body is an action identifier and a confirmation; \<open>trailing\<close> is what follows it.\<close>

definition handleAction ::
  "(nat \<Rightarrow> time) \<Rightarrow> bool \<Rightarrow> AuthSnapshot result \<Rightarrow> go_error option \<Rightarrow> (nat \<Rightarrow> entry \<Rightarrow> entry) \<Rightarrow> http_request \<Rightarrow>
     (string \<times> bool) json_value \<Rightarrow> json_trailing \<Rightarrow> entry \<Rightarrow> http_reply \<times> entry"
where
  "handleAction now actor snapshot answer between r body trailing e =
     (if rq_Method r \<noteq> ''POST'' then (HttpActionFailure StatusMethodNotAllowed ''METHOD_NOT_ALLOWED'' False, e)
      else if \<not> sameOriginJSONRequest r ''X-WeChatCopilot-Action'' ''user-confirmed''
      then (HttpActionFailure StatusForbidden ''REQUEST_REJECTED'' False, e)
      else case body of
          JsonError err \<Rightarrow> (HttpActionFailure StatusBadRequest ''INVALID_ACTION'' False, e)
        | JsonValue (actionID, confirmed) \<Rightarrow>
            if TrimSpace actionID = [] \<or> trailing \<noteq> TrailingEOF
            then (HttpActionFailure StatusBadRequest ''INVALID_ACTION'' False, e)
            else case performAuthAction now actor snapshot answer between actionID confirmed e of
                (Some err, e1) \<Rightarrow> (action_failure err, e1)
              | (None, e1) \<Rightarrow> (HttpAccepted, e1))"

section \<open>The monitor\<close>

datatype monitor_verdict = MonitorContinue | MonitorReturn | MonitorRetain time

definition expired_prompt :: string where "expired_prompt = ''authentication challenge expired''"

text \<open>The tests the monitor makes under the mutex, before and after it asks the driver.\<close>

definition monitor_check :: "time \<Rightarrow> entry \<Rightarrow> monitor_verdict \<times> entry" where
  "monitor_check now e =
     (if ey_closed e then (MonitorReturn, e)
      else case ch_CompletedAt (ey_public e) of
          Some completedAt \<Rightarrow> (MonitorRetain completedAt, markCompletedLocked now e)
        | None \<Rightarrow>
            if now > ch_ExpiresAt (ey_public e)
            then (MonitorReturn, e\<lparr>ey_public := (ey_public e)\<lparr>ch_State := StateOffline, ch_Prompt := expired_prompt\<rparr>\<rparr>)
            else (MonitorContinue, e))"

definition monitor_observe :: "time \<Rightarrow> AuthSnapshot \<Rightarrow> entry \<Rightarrow> monitor_verdict \<times> entry" where
  "monitor_observe now snapshot e =
     (case monitor_check now e of
        (MonitorContinue, e1) \<Rightarrow>
          (case observeAuthSnapshotLocked snapshot now e1 of
             (fin, e2) \<Rightarrow>
               if fin then (MonitorRetain (the (ch_CompletedAt (ey_public e2))), e2) else (MonitorContinue, e2))
      | (verdict, e1) \<Rightarrow> (verdict, e1))"

text \<open>\<open>until\<close> is the time that is left, and \<open>closed\<close> whether the entry is closed while it waits.\<close>

definition waitForCompletedRetention :: "time \<Rightarrow> time \<Rightarrow> time option \<Rightarrow> time" where
  "waitForCompletedRetention now completedAt closedAt =
     (let deadline = completedAt + completedRetention
      in if deadline - now \<le> 0 then now
         else case closedAt of Some t \<Rightarrow> min deadline t | None \<Rightarrow> deadline)"

text \<open>
  One round of the loop: what others did to the entry until the tick, the clock, the driver's
  answer, what others did meanwhile, and the clock again. \<open>mo_done\<close> is a round in which the done
  channel is chosen instead of the tick.
\<close>

record monitor_round =
  mo_done :: bool
  mo_before :: "entry \<Rightarrow> entry"
  mo_tick :: time
  mo_snapshot :: "AuthSnapshot result"
  mo_between :: "entry \<Rightarrow> entry"
  mo_now :: time

definition monitor_round_step :: "monitor_round \<Rightarrow> entry \<Rightarrow> monitor_verdict \<times> entry" where
  "monitor_round_step w e0 =
     (let e = mo_before w e0
      in if mo_done w then (MonitorReturn, e)
         else case monitor_check (mo_tick w) e of
             (MonitorContinue, e1) \<Rightarrow>
               (case mo_snapshot w of
                  Inl err \<Rightarrow> (MonitorContinue, mo_between w e1)
                | Inr snap \<Rightarrow> monitor_observe (mo_now w) snap (mo_between w e1))
           | (verdict, e1) \<Rightarrow> (verdict, e1))"

text \<open>The loop over the rounds: the verdict with which it leaves, and the entry then; \<open>Inr\<close> while it runs.\<close>

fun monitor_loop :: "monitor_round list \<Rightarrow> entry \<Rightarrow> (monitor_verdict \<times> entry) + entry" where
  "monitor_loop [] e = Inr e"
| "monitor_loop (w # ws) e =
     (case monitor_round_step w e of
        (MonitorContinue, e1) \<Rightarrow> monitor_loop ws e1
      | (verdict, e1) \<Rightarrow> Inl (verdict, e1))"

section \<open>The manager\<close>

text \<open>
  The registered challenges, and those that left the registry while their server may still answer.
\<close>

record auth_manager =
  am_paths :: Paths
  am_entries :: "(string \<times> entry) list"
  am_detached :: "(string \<times> entry) list"

definition auth_NewManager :: "Paths \<Rightarrow> auth_manager" where
  "auth_NewManager paths = \<lparr>am_paths = paths, am_entries = [], am_detached = []\<rparr>"

definition base64url :: string where
  "base64url = ''ABCDEFGHIJKLMNOPQRSTUVWXYZabcdefghijklmnopqrstuvwxyz0123456789-_''"

definition base64_char :: "8 word \<Rightarrow> char" where
  "base64_char w = base64url ! (unat w mod 64)"

unbundle bit_operations_syntax

text \<open>\<^verbatim>\<open>base64.RawURLEncoding\<close>: three bytes give four characters, without padding.\<close>

fun RawURLEncode :: "8 word list \<Rightarrow> string" where
  "RawURLEncode [] = []"
| "RawURLEncode [a] = map base64_char [drop_bit 2 a, push_bit 4 (a AND 3)]"
| "RawURLEncode [a, b] =
     map base64_char [drop_bit 2 a, push_bit 4 (a AND 3) OR drop_bit 4 b, push_bit 2 (b AND 15)]"
| "RawURLEncode (a # b # c # rest) =
     map base64_char [drop_bit 2 a, push_bit 4 (a AND 3) OR drop_bit 4 b, push_bit 2 (b AND 15) OR drop_bit 6 c, c AND 63]
     @ RawURLEncode rest"

definition randomToken :: "8 word list \<Rightarrow> string" where
  "randomToken bytes = RawURLEncode bytes"

text \<open>
  \<open>ax_Snapshot\<close> is what the driver returns, whether or not it also reports an error. \<open>None\<close> for the
  driver is a nil interface.
\<close>

record auth_env =
  ax_id :: "8 word list"
  ax_token :: "8 word list"
  ax_host :: host_env
  ax_Listen :: "string \<Rightarrow> int result"
  ax_MkdirAll :: "string \<Rightarrow> go_error option"
  ax_WriteQR :: "string \<Rightarrow> string \<Rightarrow> go_error option"
  ax_Snapshot :: AuthSnapshot
  ax_now :: time

definition register_entry :: "string \<Rightarrow> entry \<Rightarrow> auth_manager \<Rightarrow> auth_manager" where
  "register_entry challengeID item m =
     (let replaced = (\<lambda>(cid, e). ch_AccountID (ey_public e) = ch_AccountID (ey_public item) \<or> cid = challengeID)
      in m\<lparr>am_entries := (challengeID, item) # filter (\<lambda>x. \<not> replaced x) (am_entries m),
           am_detached := filter replaced (am_entries m) @ am_detached m\<rparr>)"

definition begin_url :: "auth_env \<Rightarrow> string \<Rightarrow> int \<Rightarrow> string" where
  "begin_url env lanAddress port =
     ''http://'' @ (if lanAddress \<noteq> [] then lanAddress else ''127.0.0.1'') @ '':'' @ Itoa port @ ''/a/'' @ randomToken (ax_token env)"

definition begin_dir :: "auth_env \<Rightarrow> auth_manager \<Rightarrow> string" where
  "begin_dir env m = Join [p_Runtime (am_paths m), ''auth'', randomToken (ax_id env)]"

definition begin_item :: "auth_env \<Rightarrow> string \<Rightarrow> bool \<Rightarrow> string \<Rightarrow> int \<Rightarrow> auth_manager \<Rightarrow> entry" where
  "begin_item env accountID lan lanAddress port m =
     (let localURL = begin_url env lanAddress port
      in new_entry (randomToken (ax_id env)) accountID (randomToken (ax_token env)) localURL
           (if lan then localURL else []) (Join [begin_dir env m, ''link.png'']) (ax_Snapshot env) (ax_now env))"

text \<open>The local and the LAN address of the page are the same text, so the link is it in either case.\<close>

definition auth_Begin :: "auth_env \<Rightarrow> string \<Rightarrow> bool \<Rightarrow> bool \<Rightarrow> string \<Rightarrow> auth_manager \<Rightarrow> Challenge result \<times> auth_manager" where
  "auth_Begin env accountID hasDriver lan requested m =
     (if \<not> hasDriver then (Inl (ErrNew ''driver is required''), m)
      else case ResolveLANAddress (ax_host env) lan requested of
          Inl err \<Rightarrow> (Inl err, m)
        | Inr lanAddress \<Rightarrow>
            (case ax_Listen env (if lanAddress \<noteq> [] then lanAddress @ '':0'' else ''127.0.0.1:0'') of
               Inl err \<Rightarrow> (Inl err, m)
             | Inr port \<Rightarrow>
                 (case ax_MkdirAll env (begin_dir env m) of
                    Some err \<Rightarrow> (Inl err, m)
                  | None \<Rightarrow>
                      (case ax_WriteQR env (begin_url env lanAddress port) (Join [begin_dir env m, ''link.png'']) of
                         Some err \<Rightarrow> (Inl err, m)
                       | None \<Rightarrow>
                           let item = begin_item env accountID lan lanAddress port m
                           in (Inr (ey_public item), register_entry (randomToken (ax_id env)) item m)))))"

definition set_entry :: "string \<Rightarrow> entry \<Rightarrow> (string \<times> entry) list \<Rightarrow> (string \<times> entry) list" where
  "set_entry cid e = map (\<lambda>(k, x). if k = cid then (k, e) else (k, x))"

definition status_entry :: "time \<Rightarrow> entry \<Rightarrow> Challenge result \<times> entry" where
  "status_entry now e =
     (if ey_closed e then (Inl (ErrSentinel OsErrNotExist), e)
      else
        let e1 = (if completedLocked e then markCompletedLocked now e else e)
        in if now > ch_ExpiresAt (ey_public e1) \<and> \<not> completedLocked e1
           then (Inl (ErrSentinel OsErrNotExist), e1)
           else (Inr (ey_public e1), e1))"

definition auth_Status :: "time \<Rightarrow> string \<Rightarrow> auth_manager \<Rightarrow> Challenge result \<times> auth_manager" where
  "auth_Status now cid m =
     (case map_of (am_entries m) cid of
        None \<Rightarrow> (Inl (ErrSentinel OsErrNotExist), m)
      | Some e \<Rightarrow>
          (case status_entry now e of
             (r, e1) \<Rightarrow> (r, m\<lparr>am_entries := set_entry cid e1 (am_entries m)\<rparr>)))"

definition auth_SubmitCode ::
  "time \<Rightarrow> AuthSnapshot result \<Rightarrow> (string \<Rightarrow> go_error option) \<Rightarrow> (entry \<Rightarrow> entry) \<Rightarrow> string \<Rightarrow> string \<Rightarrow>
     auth_manager \<Rightarrow> go_error option \<times> auth_manager"
where
  "auth_SubmitCode now snapshot submit between cid code m =
     (case map_of (am_entries m) cid of
        None \<Rightarrow> (Some (ErrSentinel OsErrNotExist), m)
      | Some e \<Rightarrow>
          (case submitCode now snapshot submit between code e of
             (err, e1) \<Rightarrow> (err, m\<lparr>am_entries := set_entry cid e1 (am_entries m)\<rparr>)))"

definition CloseAll :: "auth_manager \<Rightarrow> auth_manager" where
  "CloseAll m =
     m\<lparr>am_entries := [], am_detached := map (\<lambda>(cid, e). (cid, entry_close e)) (am_entries m) @ am_detached m\<rparr>"

text \<open>The deferred end of a monitor: the challenge leaves the registry and is closed.\<close>

definition monitor_end :: "string \<Rightarrow> auth_manager \<Rightarrow> auth_manager" where
  "monitor_end cid m =
     m\<lparr>am_entries := filter (\<lambda>(k, e). k \<noteq> cid) (am_entries m),
       am_detached := map (\<lambda>(k, e). if k = cid then (k, entry_close e) else (k, e))
         (filter (\<lambda>(k, e). k = cid) (am_entries m) @ am_detached m)\<rparr>"

end
