(* ===== verification/Auth_Steps.thy ===== *)
theory Auth_Steps
  imports Auth_Server
begin

text \<open>
  A login challenge as a transition system: any number of handlers, the monitor and callers of the
  manager interleave at the granularity of their sections under the entry's mutex. The state adds to
  the entry the handlers that are past their first section, and a log of what reached the driver
  and of what was observed. The invariants here carry the properties of \<^verbatim>\<open>Auth_Props\<close>.
\<close>

section \<open>Worlds and steps\<close>

datatype action_phase = ActionScreening string | ActionCalling string string | ActionEnding

datatype code_phase = CodeScreening string | CodeEnding "go_error option"

datatype auth_event =
    Performed string string
  | Answered string string "go_error option"
  | CodeSent string "go_error option"
  | Observed runtime_state time

record auth_world =
  wd_entry :: entry
  wd_actions :: "action_phase list"
  wd_codes :: "code_phase list"
  wd_events :: "auth_event list"

definition world_of :: "entry \<Rightarrow> auth_event list \<Rightarrow> auth_world" where
  "world_of e es = \<lparr>wd_entry = e, wd_actions = [], wd_codes = [], wd_events = es\<rparr>"

text \<open>A challenge starts as \<^verbatim>\<open>Begin\<close> leaves it. The clock is later than the zero time.\<close>

definition auth_start :: "auth_world \<Rightarrow> bool" where
  "auth_start w \<longleftrightarrow> (\<exists>cid account token localURL lanURL qr snapshot now. 0 < now \<and>
     w = world_of (new_entry cid account token localURL lanURL qr snapshot now) [Observed (as_State snapshot) now])"

text \<open>Observing sections that may or may not reach \<^verbatim>\<open>observeAuthSnapshotLocked\<close>.\<close>

definition observed :: "bool \<Rightarrow> AuthSnapshot \<Rightarrow> time \<Rightarrow> auth_event list" where
  "observed reached snapshot now = (if reached then [Observed (as_State snapshot) now] else [])"

inductive auth_step :: "auth_world \<Rightarrow> auth_world \<Rightarrow> bool" where
  page: "auth_step w (w\<lparr>wd_entry := snd (handlePage now r (wd_entry w))\<rparr>)"
| status: "auth_step w (w\<lparr>wd_entry := snd (status_entry now (wd_entry w))\<rparr>)"
| close: "auth_step w (w\<lparr>wd_entry := entry_close (wd_entry w)\<rparr>)"
| state_first: "auth_step w (w\<lparr>wd_entry := snd (state_screen now (wd_entry w))\<rparr>)"
| state_second:
    "0 < now \<Longrightarrow> auth_step w (w\<lparr>wd_entry := snd (state_observe now snapshot (wd_entry w)),
       wd_events := wd_events w @ observed (fst (state_screen now (wd_entry w)) = None) snapshot now\<rparr>)"
| image:
    "0 < now \<Longrightarrow> auth_step w (w\<lparr>wd_entry := snd (image_observe now snapshot (wd_entry w)),
       wd_events := wd_events w @ observed True snapshot now\<rparr>)"
| tick: "auth_step w (w\<lparr>wd_entry := snd (monitor_check now (wd_entry w))\<rparr>)"
| monitor:
    "0 < now \<Longrightarrow> auth_step w (w\<lparr>wd_entry := snd (monitor_observe now snapshot (wd_entry w)),
       wd_events := wd_events w @ observed (fst (monitor_check now (wd_entry w)) = MonitorContinue) snapshot now\<rparr>)"
| action_start:
    "action_begin now (TrimSpace requested) confirmed (wd_entry w) = (None, e) \<Longrightarrow>
     auth_step w (w\<lparr>wd_entry := e, wd_actions := ActionScreening (TrimSpace requested) # wd_actions w\<rparr>)"
| action_screened_out:
    "wd_actions w = ps @ ActionScreening i # qs \<Longrightarrow> action_select actor snapshot i = Inl err \<Longrightarrow>
     auth_step w (w\<lparr>wd_actions := ps @ ActionEnding # qs\<rparr>)"
| action_refused:
    "wd_actions w = ps @ ActionScreening i # qs \<Longrightarrow> action_select actor snapshot i = Inr key \<Longrightarrow>
     action_reserve now i key (wd_entry w) = (Some err, e) \<Longrightarrow>
     auth_step w (w\<lparr>wd_entry := e, wd_actions := ps @ ActionEnding # qs\<rparr>)"
| action_performed:
    "wd_actions w = ps @ ActionScreening i # qs \<Longrightarrow> action_select actor snapshot i = Inr key \<Longrightarrow>
     action_reserve now i key (wd_entry w) = (None, e) \<Longrightarrow>
     auth_step w (w\<lparr>wd_entry := e, wd_actions := ps @ ActionCalling i key # qs,
       wd_events := wd_events w @ [Performed i key]\<rparr>)"
| action_answered:
    "wd_actions w = ps @ ActionCalling i key # qs \<Longrightarrow>
     auth_step w (w\<lparr>wd_entry := action_settle err i key (wd_entry w), wd_actions := ps @ ActionEnding # qs,
       wd_events := wd_events w @ [Answered i key err]\<rparr>)"
| action_finished:
    "wd_actions w = ps @ ActionEnding # qs \<Longrightarrow>
     auth_step w (w\<lparr>wd_entry := action_end (wd_entry w), wd_actions := ps @ qs\<rparr>)"
| code_refused:
    "code_begin now code (wd_entry w) = (Some err, e) \<Longrightarrow> auth_step w (w\<lparr>wd_entry := e\<rparr>)"
| code_start:
    "code_begin now code (wd_entry w) = (None, e) \<Longrightarrow>
     auth_step w (w\<lparr>wd_entry := e, wd_codes := CodeScreening code # wd_codes w\<rparr>)"
| code_screened_out:
    "wd_codes w = ps @ CodeScreening code # qs \<Longrightarrow> code_screen snapshot = Some err \<Longrightarrow>
     auth_step w (w\<lparr>wd_codes := ps @ CodeEnding (Some err) # qs\<rparr>)"
| code_sent:
    "wd_codes w = ps @ CodeScreening code # qs \<Longrightarrow> code_screen snapshot = None \<Longrightarrow>
     auth_step w (w\<lparr>wd_codes := ps @ CodeEnding err # qs, wd_events := wd_events w @ [CodeSent code err]\<rparr>)"
| code_finished:
    "wd_codes w = ps @ CodeEnding err # qs \<Longrightarrow>
     auth_step w (w\<lparr>wd_entry := code_end err (wd_entry w), wd_codes := ps @ qs\<rparr>)"

section \<open>What the observing sections keep\<close>

text \<open>The fields that only the handlers of actions and codes change.\<close>

definition same_attempts :: "entry \<Rightarrow> entry \<Rightarrow> bool" where
  "same_attempts e f \<longleftrightarrow>
     ey_codeAttempts f = ey_codeAttempts e \<and> ey_codeInFlight f = ey_codeInFlight e \<and>
     ey_codeSubmitted f = ey_codeSubmitted e \<and> ey_actionAttempts f = ey_actionAttempts e \<and>
     ey_totalActionAttempts f = ey_totalActionAttempts e \<and> ey_actionInFlight f = ey_actionInFlight e \<and>
     ey_performedActions f = ey_performedActions e \<and> ey_performedReplayKeys f = ey_performedReplayKeys e"

lemma same_attempts_refl [simp]: "same_attempts e e"
  by (simp add: same_attempts_def)

lemma mark_same_attempts [simp]: "same_attempts e (markCompletedLocked now e)"
  by (simp add: same_attempts_def markCompletedLocked_def)

lemma observe_same_attempts [simp]: "same_attempts e (snd (observeAuthSnapshotLocked snapshot now e))"
  by (simp add: same_attempts_def observeAuthSnapshotLocked_def markCompletedLocked_def Let_def)

lemma state_screen_cases:
  obtains "fst (state_screen now e) = None" "snd (state_screen now e) = e"
  | "fst (state_screen now e) \<noteq> None" "snd (state_screen now e) = e"
  | "fst (state_screen now e) \<noteq> None" "completedLocked e" "snd (state_screen now e) = markCompletedLocked now e"
  by (cases "ey_closed e"; cases "completedLocked e")
     (auto simp: state_screen_def Let_def split: if_splits)

lemma snd_state_observe:
  "snd (state_observe now snapshot e) =
     (if fst (state_screen now e) = None then snd (observeAuthSnapshotLocked snapshot now e) else snd (state_screen now e))"
  by (rule state_screen_cases [of now e])
     (auto simp: state_observe_def split: prod.splits option.splits bool.splits)

lemma snd_handlePage:
  "snd (handlePage now r e) = e \<or> completedLocked e \<and> snd (handlePage now r e) = markCompletedLocked now e"
  by (simp add: handlePage_def Let_def)

lemma snd_status_entry:
  "snd (status_entry now e) = e \<or> completedLocked e \<and> snd (status_entry now e) = markCompletedLocked now e"
  by (simp add: status_entry_def Let_def)

lemma monitor_check_cases:
  obtains "fst (monitor_check now e) = MonitorContinue" "snd (monitor_check now e) = e" "\<not> completedLocked e"
  | "fst (monitor_check now e) = MonitorReturn" "snd (monitor_check now e) = e"
  | "fst (monitor_check now e) = MonitorReturn" "\<not> completedLocked e"
      "snd (monitor_check now e) = e\<lparr>ey_public := (ey_public e)\<lparr>ch_State := StateOffline, ch_Prompt := expired_prompt\<rparr>\<rparr>"
  | t where "fst (monitor_check now e) = MonitorRetain t" "completedLocked e"
      "snd (monitor_check now e) = markCompletedLocked now e"
proof (cases "ey_closed e")
  case True
  then show ?thesis by (intro that(2)) (simp_all add: monitor_check_def)
next
  case False
  show ?thesis
  proof (cases "ch_CompletedAt (ey_public e)")
    case None
    then show ?thesis using False that(1) that(3)
      by (cases "now > ch_ExpiresAt (ey_public e)") (simp_all add: monitor_check_def completedLocked_def)
  next
    case (Some t)
    then show ?thesis using False by (intro that(4) [of t]) (simp_all add: monitor_check_def completedLocked_def)
  qed
qed

lemma snd_monitor_observe:
  "snd (monitor_observe now snapshot e) =
     (if fst (monitor_check now e) = MonitorContinue then snd (observeAuthSnapshotLocked snapshot now e)
      else snd (monitor_check now e))"
  by (rule monitor_check_cases [of now e]) (auto simp: monitor_observe_def split: prod.splits)

text \<open>
  Every observing section does one of four things: nothing, an observation, a repeated marking of a
  completed challenge, or the marking of an expired one; closing is the fifth.
\<close>

datatype section_effect = Untouched | Observation AuthSnapshot time | Remark time | Expire | Closing

fun effect :: "section_effect \<Rightarrow> entry \<Rightarrow> entry" where
  "effect Untouched e = e"
| "effect (Observation snapshot now) e = snd (observeAuthSnapshotLocked snapshot now e)"
| "effect (Remark now) e = markCompletedLocked now e"
| "effect Expire e = e\<lparr>ey_public := (ey_public e)\<lparr>ch_State := StateOffline, ch_Prompt := expired_prompt\<rparr>\<rparr>"
| "effect Closing e = entry_close e"

fun effect_events :: "section_effect \<Rightarrow> auth_event list" where
  "effect_events (Observation snapshot now) = [Observed (as_State snapshot) now]"
| "effect_events _ = []"

fun effect_guard :: "section_effect \<Rightarrow> entry \<Rightarrow> bool" where
  "effect_guard (Observation snapshot now) e = (0 < now)"
| "effect_guard (Remark now) e = completedLocked e"
| "effect_guard Expire e = (\<not> completedLocked e)"
| "effect_guard _ e = True"

lemma effect_same_attempts: "same_attempts e (effect a e)"
  by (cases a) (simp_all add: same_attempts_def entry_close_def markCompletedLocked_def
      observeAuthSnapshotLocked_def Let_def)

text \<open>The steps, with the observing sections summarized.\<close>

lemma auth_step_cases:
  assumes "auth_step w w'"
  obtains (effect) a where "effect_guard a (wd_entry w)"
      "w' = w\<lparr>wd_entry := effect a (wd_entry w), wd_events := wd_events w @ effect_events a\<rparr>"
  | (action_start) now i confirmed e where "action_begin now i confirmed (wd_entry w) = (None, e)"
      "w' = w\<lparr>wd_entry := e, wd_actions := ActionScreening i # wd_actions w\<rparr>"
  | (action_out) ps i qs where "wd_actions w = ps @ ActionScreening i # qs" "w' = w\<lparr>wd_actions := ps @ ActionEnding # qs\<rparr>"
  | (action_performed) ps i qs now key e where "wd_actions w = ps @ ActionScreening i # qs"
      "action_reserve now i key (wd_entry w) = (None, e)"
      "w' = w\<lparr>wd_entry := e, wd_actions := ps @ ActionCalling i key # qs, wd_events := wd_events w @ [Performed i key]\<rparr>"
  | (action_answered) ps i key qs err where "wd_actions w = ps @ ActionCalling i key # qs"
      "w' = w\<lparr>wd_entry := action_settle err i key (wd_entry w), wd_actions := ps @ ActionEnding # qs,
         wd_events := wd_events w @ [Answered i key err]\<rparr>"
  | (action_finished) ps qs where "wd_actions w = ps @ ActionEnding # qs"
      "w' = w\<lparr>wd_entry := action_end (wd_entry w), wd_actions := ps @ qs\<rparr>"
  | (code_refused) now code err e where "code_begin now code (wd_entry w) = (Some err, e)" "w' = w\<lparr>wd_entry := e\<rparr>"
  | (code_start) now code e where "code_begin now code (wd_entry w) = (None, e)"
      "w' = w\<lparr>wd_entry := e, wd_codes := CodeScreening code # wd_codes w\<rparr>"
  | (code_out) ps code qs err where "wd_codes w = ps @ CodeScreening code # qs"
      "w' = w\<lparr>wd_codes := ps @ CodeEnding (Some err) # qs\<rparr>"
  | (code_sent) ps code qs err where "wd_codes w = ps @ CodeScreening code # qs"
      "w' = w\<lparr>wd_codes := ps @ CodeEnding err # qs, wd_events := wd_events w @ [CodeSent code err]\<rparr>"
  | (code_finished) ps err qs where "wd_codes w = ps @ CodeEnding err # qs"
      "w' = w\<lparr>wd_entry := code_end err (wd_entry w), wd_codes := ps @ qs\<rparr>"
  using assms
proof cases
  case (page now r)
  then show ?thesis using snd_handlePage [of now r "wd_entry w"] that(1) [of Untouched] that(1) [of "Remark now"] by auto
next
  case (status now)
  then show ?thesis using snd_status_entry [of now "wd_entry w"] that(1) [of Untouched] that(1) [of "Remark now"] by auto
next
  case close
  then show ?thesis using that(1) [of Closing] by simp
next
  case (state_first now)
  then show ?thesis using that(1) [of Untouched] that(1) [of "Remark now"]
    by (cases rule: state_screen_cases [of now "wd_entry w"]) auto
next
  case (state_second now snapshot)
  then show ?thesis using that(1) [of Untouched] that(1) [of "Remark now"] that(1) [of "Observation snapshot now"]
    by (cases rule: state_screen_cases [of now "wd_entry w"]) (auto simp: snd_state_observe observed_def)
next
  case (image now snapshot)
  then show ?thesis using that(1) [of "Observation snapshot now"]
    by (simp add: image_observe_def Let_def observed_def)
next
  case (tick now)
  then show ?thesis using that(1) [of Untouched] that(1) [of "Remark now"] that(1) [of Expire]
    by (cases rule: monitor_check_cases [of now "wd_entry w"]) auto
next
  case (monitor now snapshot)
  then show ?thesis using that(1) [of Untouched] that(1) [of "Remark now"] that(1) [of Expire] that(1) [of "Observation snapshot now"]
    by (cases rule: monitor_check_cases [of now "wd_entry w"]) (auto simp: snd_monitor_observe observed_def)
next
  case (action_refused ps i qs actor snapshot key now err e)
  have "e = wd_entry w" using action_refused(4) by (auto simp: action_reserve_def split: if_splits)
  then show ?thesis using action_refused that(3) by simp
qed (use that(2-) in blast)+

end
