(* ===== verification/Auth_Props.thy ===== *)
theory Auth_Props
  imports Auth_Steps
begin

text \<open>
  What a login challenge guarantees, however its handlers interleave: confirmed actions are not
  replayed, verification codes are bounded and stop at the first accepted one, a login counts as
  completed only after a stable run of online observations, and the monitor ends every challenge.
\<close>

section \<open>Confirmed actions\<close>

definition rejected :: "string \<Rightarrow> string \<Rightarrow> auth_event list \<Rightarrow> bool" where
  "rejected i k es \<longleftrightarrow> (\<exists>err. Answered i k err \<in> set es \<and> authActionDefinitivelyRejected err)"

text \<open>Two calls for one action or one logical operation are separated by a definitive rejection of the first.\<close>

definition no_replay :: "auth_event list \<Rightarrow> bool" where
  "no_replay es \<longleftrightarrow>
     (\<forall>a i k b j l c. es = a @ Performed i k # b @ Performed j l # c \<longrightarrow> i = j \<or> k = l \<longrightarrow> rejected i k b)"

definition performs :: "string \<Rightarrow> auth_event list \<Rightarrow> nat" where
  "performs i es = length (filter (\<lambda>x. case x of Performed j k \<Rightarrow> j = i | _ \<Rightarrow> False) es)"

definition all_performs :: "auth_event list \<Rightarrow> nat" where
  "all_performs es = length (filter (\<lambda>x. case x of Performed j k \<Rightarrow> True | _ \<Rightarrow> False) es)"

lemma rejected_mono: "rejected i k es \<Longrightarrow> set es \<subseteq> set fs \<Longrightarrow> rejected i k fs"
  by (auto simp: rejected_def)

lemma performs_snoc [simp]:
  "performs i (es @ [Performed j k]) = performs i es + (if i = j then 1 else 0)"
  "performs i (es @ [Answered j k err]) = performs i es" "performs i (es @ [CodeSent c err]) = performs i es"
  "performs i (es @ [Observed s t]) = performs i es"
  by (simp_all add: performs_def)

lemma all_performs_snoc [simp]:
  "all_performs (es @ [Performed j k]) = all_performs es + 1"
  "all_performs (es @ [Answered j k err]) = all_performs es" "all_performs (es @ [CodeSent c err]) = all_performs es"
  "all_performs (es @ [Observed s t]) = all_performs es"
  by (simp_all add: all_performs_def)

lemma no_replay_snoc:
  "no_replay (es @ [x]) \<longleftrightarrow> no_replay es \<and>
     (\<forall>a i k b j l. x = Performed j l \<longrightarrow> es = a @ Performed i k # b \<longrightarrow> i = j \<or> k = l \<longrightarrow> rejected i k b)"
    (is "?L \<longleftrightarrow> ?R")
proof
  show ?R if ?L
    using that unfolding no_replay_def by (metis append.assoc append_Cons append_Nil append_Nil2)
next
  assume r: ?R
  show ?L unfolding no_replay_def
  proof (intro allI impI)
    fix a i k b j l c
    assume e: "es @ [x] = a @ Performed i k # b @ Performed j l # c" and same: "i = j \<or> k = l"
    show "rejected i k b"
    proof (cases c rule: rev_cases)
      case Nil
      then have "x = Performed j l" "es = a @ Performed i k # b" using e by auto
      then show ?thesis using r same by blast
    next
      case (snoc d y)
      then have "es = a @ Performed i k # b @ Performed j l # d" using e by auto
      then show ?thesis using r same unfolding no_replay_def by blast
    qed
  qed
qed

text \<open>The last call comes after every other one.\<close>

lemma last_performed_after:
  assumes "es = a @ Performed i k # b" and "es = a' @ Performed j l # b'"
    and "Performed i k \<notin> set b'" and "i \<noteq> j \<or> k \<noteq> l"
  shows "\<exists>m. b = m @ Performed j l # b'"
  using assms by (auto simp: append_eq_append_conv2 Cons_eq_append_conv append_eq_Cons_conv)

definition in_flight :: "bool \<Rightarrow> 'a list \<Rightarrow> bool" where
  "in_flight flag phases \<longleftrightarrow> length phases = (if flag then 1 else 0)"

lemma in_flight_middle: "in_flight flag (ps @ p # qs) \<longleftrightarrow> flag \<and> ps = [] \<and> qs = []"
  by (auto simp: in_flight_def split: if_splits)

lemma in_flight_simps [simp]:
  "in_flight True [p]" "in_flight False []" "in_flight flag [] \<longleftrightarrow> \<not> flag" "in_flight flag [p] \<longleftrightarrow> flag"
  by (auto simp: in_flight_def)

lemma in_flight_False: "in_flight False ps \<longleftrightarrow> ps = []"
  by (simp add: in_flight_def)

definition tombstones :: "(string \<Rightarrow> bool) \<Rightarrow> (string \<Rightarrow> bool) \<Rightarrow> auth_event list \<Rightarrow> bool" where
  "tombstones ids keys es \<longleftrightarrow> (\<forall>a i k b. es = a @ Performed i k # b \<longrightarrow> rejected i k b \<or> ids i \<and> keys k)"

definition calling_last :: "action_phase list \<Rightarrow> auth_event list \<Rightarrow> bool" where
  "calling_last ps es \<longleftrightarrow> (\<forall>i k. ActionCalling i k \<in> set ps \<longrightarrow>
     (\<exists>a b. es = a @ Performed i k # b \<and> (\<forall>m n. Performed m n \<notin> set b)))"

lemma calling_lastD:
  assumes "calling_last ps es" and "ActionCalling i k \<in> set ps"
  obtains a b where "es = a @ Performed i k # b" "\<And>m n. Performed m n \<notin> set b"
  using assms unfolding calling_last_def by blast

definition action_inv :: "auth_world \<Rightarrow> bool" where
  "action_inv w \<longleftrightarrow>
     in_flight (ey_actionInFlight (wd_entry w)) (wd_actions w) \<and>
     ey_actionAttempts (wd_entry w) = (\<lambda>i. int (performs i (wd_events w))) \<and>
     ey_totalActionAttempts (wd_entry w) = int (all_performs (wd_events w)) \<and>
     (\<forall>i. performs i (wd_events w) \<le> 3) \<and> all_performs (wd_events w) \<le> 6 \<and>
     no_replay (wd_events w) \<and> tombstones (ey_performedActions (wd_entry w)) (ey_performedReplayKeys (wd_entry w)) (wd_events w) \<and>
     calling_last (wd_actions w) (wd_events w)"

text \<open>An event that is not a call keeps the bookkeeping of calls.\<close>

fun is_call :: "auth_event \<Rightarrow> bool" where
  "is_call (Performed i k) = True"
| "is_call _ = False"

lemma other_event:
  assumes "\<not> is_call x"
  shows "performs i (es @ [x]) = performs i es" "all_performs (es @ [x]) = all_performs es"
    "no_replay (es @ [x]) = no_replay es" "calling_last ps es \<Longrightarrow> calling_last ps (es @ [x])"
    "tombstones ids keys es \<Longrightarrow> tombstones ids keys (es @ [x])"
proof -
  show "performs i (es @ [x]) = performs i es" "all_performs (es @ [x]) = all_performs es"
    "no_replay (es @ [x]) = no_replay es"
    using assms by (cases x; simp add: no_replay_snoc)+
  show "calling_last ps (es @ [x])" if prior: "calling_last ps es"
    unfolding calling_last_def
  proof (intro allI impI)
    fix i k assume "ActionCalling i k \<in> set ps"
    with prior obtain a b where "es = a @ Performed i k # b" "\<And>m n. Performed m n \<notin> set b"
      by (rule calling_lastD) blast
    then have "es @ [x] = a @ Performed i k # (b @ [x]) \<and> (\<forall>m n. Performed m n \<notin> set (b @ [x]))"
      using assms by auto
    then show "\<exists>a b. es @ [x] = a @ Performed i k # b \<and> (\<forall>m n. Performed m n \<notin> set b)" by blast
  qed
  show "tombstones ids keys (es @ [x])" if "tombstones ids keys es"
    using that assms by (fastforce simp: tombstones_def snoc_split intro: rejected_mono)
qed

lemma action_inv_effect:
  assumes "action_inv w" and "same_attempts (wd_entry w) e" and "es = [] \<or> (\<exists>x. es = [x] \<and> \<not> is_call x)"
  shows "action_inv (w\<lparr>wd_entry := e, wd_events := wd_events w @ es\<rparr>)"
  using assms(3)
proof (elim disjE exE conjE)
  assume "es = []"
  then show ?thesis using assms(1,2)
    by (simp add: action_inv_def same_attempts_def)
next
  fix x assume "es = [x]" "\<not> is_call x"
  then show ?thesis using assms(1,2)
    by (simp add: action_inv_def same_attempts_def other_event)
qed

lemma effect_events_cases: "effect_events a = [] \<or> (\<exists>x. effect_events a = [x] \<and> \<not> is_call x)"
  by (cases a) simp_all

lemma action_inv_start: "auth_start w \<Longrightarrow> action_inv w"
  by (auto simp: auth_start_def world_of_def action_inv_def new_entry_def observeAuthSnapshotLocked_def
      markCompletedLocked_def Let_def performs_def all_performs_def no_replay_def tombstones_def calling_last_def
      Cons_eq_append_conv append_eq_Cons_conv)

lemma action_inv_performed:
  assumes inv: "action_inv w" and ps: "wd_actions w = ps @ ActionScreening i # qs"
    and res: "action_reserve now i key (wd_entry w) = (None, e)"
  shows "action_inv (w\<lparr>wd_entry := e, wd_actions := ps @ ActionCalling i key # qs, wd_events := wd_events w @ [Performed i key]\<rparr>)"
proof -
  let ?e = "wd_entry w" and ?es = "wd_events w"
  have free: "\<not> ey_performedActions ?e i" "\<not> ey_performedReplayKeys ?e key"
    and room: "ey_actionAttempts ?e i < 3" "ey_totalActionAttempts ?e < 6"
    and e: "e = ?e\<lparr>ey_actionAttempts := (ey_actionAttempts ?e)(i := ey_actionAttempts ?e i + 1),
              ey_totalActionAttempts := ey_totalActionAttempts ?e + 1,
              ey_performedActions := (ey_performedActions ?e)(i := True),
              ey_performedReplayKeys := (ey_performedReplayKeys ?e)(key := True)\<rparr>"
    using res by (auto simp: action_reserve_def maxAuthActionAttemptsPerAction_def
        maxAuthActionAttemptsPerChallenge_def split: if_splits)
  have tombs: "tombstones (ey_performedActions ?e) (ey_performedReplayKeys ?e) ?es" and prior: "no_replay ?es"
    using inv by (simp_all add: action_inv_def)
  have unrejected: "rejected j l b" if "?es = a @ Performed j l # b" "j = i \<or> l = key" for a j l b
    using tombs that free unfolding tombstones_def by blast
  have "no_replay (?es @ [Performed i key])"
    unfolding no_replay_snoc using prior unrejected by blast
  moreover have "tombstones (ey_performedActions e) (ey_performedReplayKeys e) (?es @ [Performed i key])"
    using inv by (fastforce simp: action_inv_def tombstones_def snoc_split e intro: rejected_mono)
  moreover have "calling_last [ActionCalling i key] (?es @ [Performed i key])"
    using snoc_split [of ?es "Performed i key" ?es "Performed i key" "[]"] by (fastforce simp: calling_last_def)
  moreover have "performs j (?es @ [Performed i key]) \<le> 3" for j
    using inv room by (auto simp: action_inv_def)
  moreover have "all_performs (?es @ [Performed i key]) \<le> 6" using inv room by (simp add: action_inv_def)
  moreover have "in_flight (ey_actionInFlight ?e) (ps @ ActionScreening i # qs)"
    using inv ps by (simp add: action_inv_def)
  ultimately show ?thesis using inv ps by (auto simp: action_inv_def e in_flight_middle)
qed

lemma action_inv_answered:
  assumes inv: "action_inv w" and ps: "wd_actions w = ps @ ActionCalling i key # qs"
  shows "action_inv (w\<lparr>wd_entry := action_settle err i key (wd_entry w), wd_actions := ps @ ActionEnding # qs,
     wd_events := wd_events w @ [Answered i key err]\<rparr>)"
proof -
  let ?e = "wd_entry w" and ?es = "wd_events w" and ?s = "action_settle err i key (wd_entry w)"
  have tombs: "tombstones (ey_performedActions ?s) (ey_performedReplayKeys ?s) (?es @ [Answered i key err])"
  proof (cases "authActionDefinitivelyRejected err")
    case False
    then show ?thesis using inv by (simp add: action_settle_def action_inv_def other_event)
  next
    case True
    from inv ps have "calling_last (wd_actions w) ?es" "ActionCalling i key \<in> set (wd_actions w)"
      by (simp_all add: action_inv_def)
    then obtain a0 b0 where call: "?es = a0 @ Performed i key # b0" "\<And>m n. Performed m n \<notin> set b0"
      by (rule calling_lastD) blast
    show ?thesis unfolding tombstones_def
    proof (intro allI impI)
      fix a j l b assume dec: "?es @ [Answered i key err] = a @ Performed j l # b"
      then obtain b' where b: "b = b' @ [Answered i key err]" "?es = a @ Performed j l # b'" by (auto simp: snoc_split)
      consider "j = i \<and> l = key" | "rejected j l b'" | "j \<noteq> i" "l \<noteq> key" "\<not> rejected j l b'"
        | "j \<noteq> i \<or> l \<noteq> key" "j = i \<or> l = key" by blast
      then show "rejected j l b \<or> ey_performedActions ?s j \<and> ey_performedReplayKeys ?s l"
      proof cases
        case 1
        then show ?thesis using True b(1) by (auto simp: rejected_def)
      next
        case 2
        then show ?thesis using b(1) by (auto intro: rejected_mono)
      next
        case 3
        then have "ey_performedActions ?e j \<and> ey_performedReplayKeys ?e l"
          using inv b(2) unfolding action_inv_def tombstones_def by blast
        then show ?thesis using 3 by (simp add: action_settle_def)
      next
        case 4
        then obtain m where m: "b' = m @ Performed i key # b0" using last_performed_after [OF b(2) call(1)] call(2) by auto
        have "rejected j l m" using inv 4(2) b(2) unfolding m action_inv_def no_replay_def by blast
        then show ?thesis using m b(1) by (auto intro: rejected_mono)
      qed
    qed
  qed
  have settle: "ey_actionInFlight ?s = ey_actionInFlight ?e" "ey_actionAttempts ?s = ey_actionAttempts ?e"
    "ey_totalActionAttempts ?s = ey_totalActionAttempts ?e" by (simp_all add: action_settle_def)
  have "in_flight (ey_actionInFlight ?e) (ps @ ActionCalling i key # qs)" using inv ps by (simp add: action_inv_def)
  moreover have "calling_last [ActionEnding] es" for es by (simp add: calling_last_def)
  ultimately show ?thesis using inv tombs
    by (simp add: action_inv_def in_flight_middle settle other_event)
qed

lemma action_inv_step: "action_inv w \<Longrightarrow> auth_step w w' \<Longrightarrow> action_inv w'"
proof -
  assume inv: "action_inv w" and "auth_step w w'"
  from \<open>auth_step w w'\<close> show ?thesis
  proof (cases rule: auth_step_cases)
    case (effect a)
    then show ?thesis using action_inv_effect [OF inv effect_same_attempts effect_events_cases] by simp
  next
    case (action_start now i confirmed e)
    then have "\<not> ey_actionInFlight (wd_entry w)" "e = (wd_entry w)\<lparr>ey_actionInFlight := True\<rparr>"
      by (auto simp: action_begin_def split: if_splits)
    then show ?thesis using inv action_start(2)
      by (simp add: action_inv_def in_flight_False calling_last_def)
  next
    case (action_out ps i qs)
    then show ?thesis using inv by (auto simp: action_inv_def in_flight_middle calling_last_def)
  next
    case (action_performed ps i qs now key e)
    then show ?thesis using action_inv_performed [OF inv] by simp
  next
    case (action_answered ps i key qs err)
    then show ?thesis using action_inv_answered [OF inv] by simp
  next
    case (action_finished ps qs)
    then show ?thesis using inv
      by (auto simp: action_inv_def in_flight_middle calling_last_def action_end_def)
  next
    case (code_refused now code err e)
    then have "same_attempts (wd_entry w) (e\<lparr>ey_codeAttempts := ey_codeAttempts (wd_entry w)\<rparr>)"
      by (auto simp: code_begin_def same_attempts_def Let_def split: if_splits)
    then show ?thesis using inv code_refused(2)
      by (simp add: action_inv_def same_attempts_def)
  next
    case (code_start now code e)
    then have "e = (wd_entry w)\<lparr>ey_codeAttempts := ey_codeAttempts (wd_entry w) + 1, ey_codeInFlight := True\<rparr>"
      by (auto simp: code_begin_def Let_def split: if_splits)
    then show ?thesis using inv code_start(2) by (simp add: action_inv_def)
  next
    case (code_out ps code qs err)
    then show ?thesis using inv by (simp add: action_inv_def)
  next
    case (code_sent ps code qs err)
    then show ?thesis using inv by (simp add: action_inv_def other_event)
  next
    case (code_finished ps err qs)
    then show ?thesis using inv by (simp add: action_inv_def code_end_def)
  qed
qed


section \<open>Verification codes\<close>

definition code_calls :: "auth_event list \<Rightarrow> nat" where
  "code_calls es = length (filter (\<lambda>x. case x of CodeSent c err \<Rightarrow> True | _ \<Rightarrow> False) es)"

lemma code_calls_snoc [simp]:
  "code_calls (es @ [CodeSent c err]) = code_calls es + 1" "code_calls (es @ [Performed i k]) = code_calls es"
  "code_calls (es @ [Answered i k err]) = code_calls es" "code_calls (es @ [Observed st t]) = code_calls es"
  by (simp_all add: code_calls_def)

text \<open>After an accepted code no further one is sent.\<close>

definition accepted_last :: "auth_event list \<Rightarrow> bool" where
  "accepted_last es \<longleftrightarrow> (\<forall>a c b d err. es = a @ CodeSent c None # b \<longrightarrow> CodeSent d err \<notin> set b)"

definition accepted :: "auth_event list \<Rightarrow> bool" where
  "accepted es \<longleftrightarrow> (\<exists>c. CodeSent c None \<in> set es)"

definition code_inv :: "auth_world \<Rightarrow> bool" where
  "code_inv w \<longleftrightarrow>
     in_flight (ey_codeInFlight (wd_entry w)) (wd_codes w) \<and>
     int (code_calls (wd_events w)) + (if \<exists>c. CodeScreening c \<in> set (wd_codes w) then 1 else 0)
       \<le> min 8 (ey_codeAttempts (wd_entry w)) \<and>
     (accepted (wd_events w) \<longrightarrow> ey_codeSubmitted (wd_entry w) \<or> CodeEnding None \<in> set (wd_codes w)) \<and>
     (\<forall>c. CodeScreening c \<in> set (wd_codes w) \<longrightarrow> verificationCodePattern c \<and> \<not> accepted (wd_events w)) \<and>
     (\<forall>c err. CodeSent c err \<in> set (wd_events w) \<longrightarrow> verificationCodePattern c) \<and>
     accepted_last (wd_events w)"

lemma code_inv_start: "auth_start w \<Longrightarrow> code_inv w"
  by (auto simp: auth_start_def world_of_def code_inv_def new_entry_def observeAuthSnapshotLocked_def
      markCompletedLocked_def Let_def code_calls_def accepted_def accepted_last_def Cons_eq_append_conv)

fun is_code :: "auth_event \<Rightarrow> bool" where
  "is_code (CodeSent c err) = True"
| "is_code _ = False"

lemma other_code_event:
  assumes "\<not> is_code x"
  shows "code_calls (es @ [x]) = code_calls es" "accepted (es @ [x]) = accepted es"
    "CodeSent c err \<in> set (es @ [x]) \<longleftrightarrow> CodeSent c err \<in> set es" "accepted_last es \<Longrightarrow> accepted_last (es @ [x])"
  using assms by (cases x; force simp: accepted_def accepted_last_def snoc_split)+

lemma code_inv_effect:
  assumes "code_inv w" and "ey_codeInFlight e = ey_codeInFlight (wd_entry w)"
    and "ey_codeAttempts e = ey_codeAttempts (wd_entry w)" and "ey_codeSubmitted e = ey_codeSubmitted (wd_entry w)"
    and "es = [] \<or> (\<exists>x. es = [x] \<and> \<not> is_code x)"
  shows "code_inv (w\<lparr>wd_entry := e, wd_actions := ps, wd_events := wd_events w @ es\<rparr>)"
  using assms(5)
proof (elim disjE exE conjE)
  assume "es = []"
  then show ?thesis using assms(1-4) by (simp add: code_inv_def)
next
  fix x assume "es = [x]" "\<not> is_code x"
  then show ?thesis using assms(1-4) other_code_event [of x, where es = "wd_events w"]
    by (auto simp add: code_inv_def simp del: set_append)
qed

lemma code_inv_start_code:
  assumes inv: "code_inv w" and opened: "code_begin now code (wd_entry w) = (None, e)"
  shows "code_inv (w\<lparr>wd_entry := e, wd_codes := CodeScreening code # wd_codes w\<rparr>)"
proof -
  let ?e = "wd_entry w"
  have pat: "verificationCodePattern code" and idle: "\<not> ey_codeInFlight ?e" "\<not> ey_codeSubmitted ?e"
    and room: "ey_codeAttempts ?e + 1 \<le> 8"
    and e: "e = ?e\<lparr>ey_codeAttempts := ey_codeAttempts ?e + 1, ey_codeInFlight := True\<rparr>"
    using opened by (auto simp: code_begin_def Let_def split: if_splits)
  have "wd_codes w = []" using inv idle by (simp add: code_inv_def in_flight_False)
  then show ?thesis using inv pat idle room by (auto simp: code_inv_def e)
qed

lemma code_inv_sent:
  assumes inv: "code_inv w" and cs: "wd_codes w = ps @ CodeScreening code # qs"
  shows "code_inv (w\<lparr>wd_codes := ps @ CodeEnding err # qs, wd_events := wd_events w @ [CodeSent code err]\<rparr>)"
proof -
  have "in_flight (ey_codeInFlight (wd_entry w)) (ps @ CodeScreening code # qs)" using inv cs by (simp add: code_inv_def)
  then have one: "ps = []" "qs = []" "ey_codeInFlight (wd_entry w)" by (simp_all add: in_flight_middle)
  have fresh: "\<not> accepted (wd_events w)" "verificationCodePattern code" using inv cs by (auto simp: code_inv_def)
  then have "accepted_last (wd_events w @ [CodeSent code err])"
    by (auto simp: accepted_last_def accepted_def snoc_split)
  then show ?thesis using inv cs fresh one by (auto simp: code_inv_def accepted_def)
qed

lemma code_inv_step: "code_inv w \<Longrightarrow> auth_step w w' \<Longrightarrow> code_inv w'"
proof -
  assume inv: "code_inv w" and "auth_step w w'"
  have keep: "code_inv (w\<lparr>wd_entry := e, wd_actions := ps, wd_events := wd_events w @ es\<rparr>)"
    if "ey_codeInFlight e = ey_codeInFlight (wd_entry w)" "ey_codeAttempts e = ey_codeAttempts (wd_entry w)"
      "ey_codeSubmitted e = ey_codeSubmitted (wd_entry w)" "es = [] \<or> (\<exists>x. es = [x] \<and> \<not> is_code x)" for e es ps
    using code_inv_effect [OF inv that] .
  from \<open>auth_step w w'\<close> show ?thesis
  proof (cases rule: auth_step_cases)
    case (effect a)
    have "effect_events a = [] \<or> (\<exists>x. effect_events a = [x] \<and> \<not> is_code x)" by (cases a) simp_all
    then show ?thesis using keep [of "effect a (wd_entry w)" "effect_events a" "wd_actions w"]
      effect_same_attempts [of "wd_entry w" a] effect(2) by (simp add: same_attempts_def)
  next
    case (action_start now i confirmed e)
    then show ?thesis using keep [of e "[]" "ActionScreening i # wd_actions w"]
      by (auto simp: action_begin_def split: if_splits)
  next
    case (action_out ps i qs)
    then show ?thesis using keep [of "wd_entry w" "[]" "ps @ ActionEnding # qs"] by simp
  next
    case (action_performed ps i qs now key e)
    then show ?thesis using keep [of e "[Performed i key]" "ps @ ActionCalling i key # qs"]
      by (auto simp: action_reserve_def split: if_splits)
  next
    case (action_answered ps i key qs err)
    then show ?thesis using keep [of "action_settle err i key (wd_entry w)" "[Answered i key err]" "ps @ ActionEnding # qs"]
      by (simp add: action_settle_def)
  next
    case (action_finished ps qs)
    then show ?thesis using keep [of "action_end (wd_entry w)" "[]" "ps @ qs"] by (simp add: action_end_def)
  next
    case (code_refused now code err e)
    then show ?thesis using inv by (auto simp: code_begin_def code_inv_def Let_def split: if_splits)
  next
    case (code_start now code e)
    then show ?thesis using code_inv_start_code [OF inv] by simp
  next
    case (code_out ps code qs err)
    then show ?thesis using inv by (auto simp: code_inv_def in_flight_middle split: if_splits)
  next
    case (code_sent ps code qs err)
    then show ?thesis using code_inv_sent [OF inv] by simp
  next
    case (code_finished ps err qs)
    then show ?thesis using inv by (auto simp: code_inv_def in_flight_middle code_end_def split: if_splits)
  qed
qed

end
