(* ===== verification/Login_Props.thy ===== *)
theory Login_Props
  imports Auth_Props
begin

text \<open>
  Completion of a login, the end of its monitor, and the registry of challenges; then the
  properties of the login server with their witnesses.
\<close>

section \<open>Completion\<close>

definition observations :: "auth_event list \<Rightarrow> (runtime_state \<times> time) list" where
  "observations es = List.map_filter (\<lambda>x. case x of Observed s t \<Rightarrow> Some (s, t) | _ \<Rightarrow> None) es"

lemma observations_append [simp]: "observations (es @ fs) = observations es @ observations fs"
  by (simp add: observations_def map_filter_def)

lemma observations_simps [simp]:
  "observations [] = []" "observations (Observed s t # es) = (s, t) # observations es"
  "observations (Performed i k # es) = observations es" "observations (Answered i k err # es) = observations es"
  "observations (CodeSent c err # es) = observations es"
  by (simp_all add: observations_def map_filter_def)

abbreviation all_online :: "(runtime_state \<times> time) list \<Rightarrow> bool" where
  "all_online os \<equiv> (\<forall>x \<in> set os. fst x = StateOnline)"

text \<open>
  At \<open>t\<close> the client had been observed online at least three times in a row, the first time at least
  fifteen seconds before.
\<close>

definition stable_online :: "time \<Rightarrow> (runtime_state \<times> time) list \<Rightarrow> bool" where
  "stable_online t os \<longleftrightarrow> (\<exists>pre t0 mid post. os = pre @ (StateOnline, t0) # mid @ (StateOnline, t) # post \<and>
     all_online mid \<and> mid \<noteq> [] \<and> 15 * second \<le> t - t0)"

definition online_run :: "time \<Rightarrow> int \<Rightarrow> (runtime_state \<times> time) list \<Rightarrow> bool" where
  "online_run since n os \<longleftrightarrow> (\<exists>pre mid. os = pre @ (StateOnline, since) # mid \<and> all_online mid \<and> n = 1 + int (length mid))"

lemma stable_online_append: "stable_online t os \<Longrightarrow> stable_online t (os @ ps)"
  unfolding stable_online_def by (metis append.assoc append_Cons)

lemma online_run_snoc: "online_run since n os \<Longrightarrow> online_run since (n + 1) (os @ [(StateOnline, t)])"
  unfolding online_run_def
proof (elim exE conjE)
  fix pre mid assume "os = pre @ (StateOnline, since) # mid" "all_online mid" "n = 1 + int (length mid)"
  then have "os @ [(StateOnline, t)] = pre @ (StateOnline, since) # (mid @ [(StateOnline, t)]) \<and>
      all_online (mid @ [(StateOnline, t)]) \<and> n + 1 = 1 + int (length (mid @ [(StateOnline, t)]))" by auto
  then show "\<exists>pre mid. os @ [(StateOnline, t)] = pre @ (StateOnline, since) # mid \<and> all_online mid \<and> n + 1 = 1 + int (length mid)"
    by blast
qed

lemma online_run_new: "online_run t 1 (os @ [(StateOnline, t)])"
  unfolding online_run_def by force

lemma online_run_stable:
  assumes "online_run since n os" and "3 \<le> n + 1" and "15 * second \<le> t - since"
  shows "stable_online t (os @ [(StateOnline, t)])"
proof -
  obtain pre mid where "os = pre @ (StateOnline, since) # mid" "all_online mid" "n = 1 + int (length mid)"
    using assms(1) by (auto simp: online_run_def)
  then have "os @ [(StateOnline, t)] = pre @ (StateOnline, since) # mid @ (StateOnline, t) # []" "mid \<noteq> []" "all_online mid"
    using assms(2) by auto
  then show ?thesis using assms(3) unfolding stable_online_def by blast
qed

definition login_inv :: "entry \<Rightarrow> (runtime_state \<times> time) list \<Rightarrow> bool" where
  "login_inv e os \<longleftrightarrow>
     (ey_onlineCandidateSince e \<noteq> 0 \<longrightarrow> online_run (ey_onlineCandidateSince e) (ey_onlineObservations e) os) \<and>
     (\<forall>t. ch_CompletedAt (ey_public e) = Some t \<longrightarrow> stable_online t os) \<and>
     (ch_State (ey_public e) = StateOnline \<longrightarrow> completedLocked e)"

lemma login_inv_observe:
  assumes inv: "login_inv e os" and now: "0 < now"
  shows "login_inv (snd (observeAuthSnapshotLocked snapshot now e)) (os @ [(as_State snapshot, now)])"
proof (cases "as_State snapshot = StateOnline")
  case False
  then show ?thesis using inv
    by (auto simp: observeAuthSnapshotLocked_def login_inv_def Let_def completedLocked_def intro: stable_online_append)
next
  case True
  let ?since = "if ey_onlineCandidateSince e = 0 then now else ey_onlineCandidateSince e"
  let ?n = "if ey_onlineCandidateSince e = 0 then 1 else ey_onlineObservations e + 1"
  let ?os = "os @ [(as_State snapshot, now)]"
  have run: "online_run ?since ?n ?os"
    using inv True by (auto simp: login_inv_def online_run_new intro: online_run_snoc)
  have stable: "stable_online t ?os" if "ch_CompletedAt (ey_public e) = Some t" for t
    using inv that by (auto simp: login_inv_def intro: stable_online_append)
  have complete: "stable_online now ?os" if "3 \<le> ?n" "15 * second \<le> now - ?since"
    using inv that True by (auto simp: login_inv_def split: if_splits intro!: online_run_stable)
  show ?thesis using run stable complete True now
    by (auto simp: observeAuthSnapshotLocked_def login_inv_def Let_def completedLocked_def markCompletedLocked_def
        minimumStableOnlineObservations_def onlineStabilityWindow_def)
qed

lemma login_inv_public:
  "ey_onlineCandidateSince f = ey_onlineCandidateSince e \<Longrightarrow> ey_onlineObservations f = ey_onlineObservations e \<Longrightarrow>
     ey_public f = ey_public e \<Longrightarrow> login_inv f os = login_inv e os"
  by (simp add: login_inv_def completedLocked_def)

lemma login_inv_effect:
  "login_inv (wd_entry w) (observations (wd_events w)) \<Longrightarrow> effect_guard a (wd_entry w) \<Longrightarrow>
     login_inv (effect a (wd_entry w)) (observations (wd_events w @ effect_events a))"
proof (cases a)
  case (Observation snapshot now)
  assume "login_inv (wd_entry w) (observations (wd_events w))" "effect_guard a (wd_entry w)"
  then show ?thesis using Observation login_inv_observe by simp
qed (auto simp: login_inv_def markCompletedLocked_def completedLocked_def entry_close_def)

definition challenge_inv :: "auth_world \<Rightarrow> bool" where
  "challenge_inv w \<longleftrightarrow> action_inv w \<and> code_inv w \<and> login_inv (wd_entry w) (observations (wd_events w))"

text \<open>What a step adds: events, and nothing that undoes a completion or a closing.\<close>

definition challenge_grows :: "auth_world \<Rightarrow> auth_world \<Rightarrow> bool" where
  "challenge_grows w w' \<longleftrightarrow>
     (\<exists>es. wd_events w' = wd_events w @ es \<and>
        (ey_closed (wd_entry w) \<or> completedLocked (wd_entry w) \<longrightarrow> (\<forall>x \<in> set es. \<not> is_call x))) \<and>
     (let p = ey_public (wd_entry w); p' = ey_public (wd_entry w')
      in ch_ID p' = ch_ID p \<and> ch_AccountID p' = ch_AccountID p \<and> ch_ExpiresAt p' = ch_ExpiresAt p \<and>
         (\<forall>t. ch_CompletedAt p = Some t \<longrightarrow> ch_CompletedAt p' = Some t)) \<and>
     ey_token (wd_entry w') = ey_token (wd_entry w) \<and> (ey_closed (wd_entry w) \<longrightarrow> ey_closed (wd_entry w'))"

lemma new_entry_login_inv:
  "0 < now \<Longrightarrow> login_inv (new_entry cid account token localURL lanURL qr snapshot now) [(as_State snapshot, now)]"
  unfolding new_entry_def
  using login_inv_observe [of _ "[]" now snapshot]
  by (auto simp: observeAuthSnapshotLocked_def login_inv_def Let_def completedLocked_def markCompletedLocked_def
        minimumStableOnlineObservations_def onlineStabilityWindow_def online_run_def)

lemma challenge_inv_start: "auth_start w \<Longrightarrow> challenge_inv w"
  using action_inv_start [of w] code_inv_start [of w] new_entry_login_inv
  by (auto simp: challenge_inv_def auth_start_def world_of_def)

text \<open>The steps of actions and codes leave what the page shows alone.\<close>

lemma auth_step_public:
  assumes "auth_step w w'"
  obtains (effect) a where "effect_guard a (wd_entry w)" "wd_entry w' = effect a (wd_entry w)"
      "wd_events w' = wd_events w @ effect_events a"
  | (quiet) x where "ey_onlineCandidateSince (wd_entry w') = ey_onlineCandidateSince (wd_entry w)"
      "ey_onlineObservations (wd_entry w') = ey_onlineObservations (wd_entry w)"
      "ey_public (wd_entry w') = ey_public (wd_entry w)" "ey_closed (wd_entry w') = ey_closed (wd_entry w)"
      "ey_token (wd_entry w') = ey_token (wd_entry w)" "wd_events w' = wd_events w @ x" "observations x = []"
      "ey_closed (wd_entry w) \<or> completedLocked (wd_entry w) \<Longrightarrow> \<forall>y \<in> set x. \<not> is_call y"
  using assms
proof (cases rule: auth_step_cases)
  case (effect a)
  then show ?thesis using that(1) by simp
next
  case (action_start now i confirmed e)
  then show ?thesis using that(2) [of "[]"] by (auto simp: action_begin_def split: if_splits)
next
  case (action_performed ps i qs now key e)
  then show ?thesis using that(2) [of "[Performed i key]"] by (auto simp: action_reserve_def gone_def split: if_splits)
next
  case (action_answered ps i key qs err)
  then show ?thesis using that(2) [of "[Answered i key err]"] by (simp add: action_settle_def)
next
  case (code_refused now code err e)
  then show ?thesis using that(2) [of "[]"] by (auto simp: code_begin_def Let_def split: if_splits)
next
  case (code_start now code e)
  then show ?thesis using that(2) [of "[]"] by (auto simp: code_begin_def Let_def split: if_splits)
next
  case (code_sent ps code qs err)
  then show ?thesis using that(2) [of "[CodeSent code err]"] by simp
qed (use that(2) [of "[]"] in \<open>simp add: action_end_def code_end_def\<close>)+

lemma challenge_inv_step: "challenge_inv w \<Longrightarrow> auth_step w w' \<Longrightarrow> challenge_inv w'"
proof -
  assume inv: "challenge_inv w" and step: "auth_step w w'"
  from step have "login_inv (wd_entry w') (observations (wd_events w'))"
  proof (cases rule: auth_step_public)
    case (effect a)
    then show ?thesis using inv login_inv_effect [of w a] by (simp add: challenge_inv_def)
  next
    case (quiet x)
    then show ?thesis using inv login_inv_public [of "wd_entry w'" "wd_entry w"] by (simp add: challenge_inv_def)
  qed
  then show ?thesis using inv action_inv_step [OF _ step] code_inv_step [OF _ step] by (simp add: challenge_inv_def)
qed

lemma effect_keeps:
  "ch_ID (ey_public (effect a e)) = ch_ID (ey_public e)" "ch_AccountID (ey_public (effect a e)) = ch_AccountID (ey_public e)"
  "ch_ExpiresAt (ey_public (effect a e)) = ch_ExpiresAt (ey_public e)" "ey_token (effect a e) = ey_token e"
  "ch_CompletedAt (ey_public e) = Some t \<Longrightarrow> ch_CompletedAt (ey_public (effect a e)) = Some t"
  "ey_closed e \<Longrightarrow> ey_closed (effect a e)"
  by (cases a; simp add: entry_close_def markCompletedLocked_def observeAuthSnapshotLocked_def Let_def)+

lemma challenge_grows_step: "auth_step w w' \<Longrightarrow> challenge_grows w w'"
proof -
  assume "auth_step w w'"
  then show ?thesis
  proof (cases rule: auth_step_public)
    case (effect a)
    have "\<forall>x \<in> set (effect_events a). \<not> is_call x" by (cases a) simp_all
    then show ?thesis using effect by (auto simp: challenge_grows_def effect_keeps Let_def)
  next
    case (quiet x)
    then show ?thesis by (auto simp: challenge_grows_def Let_def)
  qed
qed

lemma challenge_grows_trans:
  assumes "challenge_grows u v" and "challenge_grows v w"
  shows "challenge_grows u w"
proof -
  have "ey_closed (wd_entry v) \<or> completedLocked (wd_entry v)" if "ey_closed (wd_entry u) \<or> completedLocked (wd_entry u)"
    using assms(1) that by (auto simp: challenge_grows_def completedLocked_def Let_def)
  then show ?thesis using assms by (auto simp: challenge_grows_def Let_def)
qed

lemma challenge_grows_performs:
  assumes "challenge_grows w w'" and "ey_closed (wd_entry w) \<or> completedLocked (wd_entry w)"
  shows "all_performs (wd_events w') = all_performs (wd_events w)"
proof -
  obtain es where "wd_events w' = wd_events w @ es" "\<forall>x \<in> set es. \<not> is_call x"
    using assms by (auto simp: challenge_grows_def)
  then show ?thesis by (auto simp: all_performs_def filter_empty_conv split: auth_event.splits)
qed

interpretation login: progress_system auth_start auth_step challenge_inv challenge_grows
proof unfold_locales
  show "challenge_grows s s" for s by (simp add: challenge_grows_def Let_def)
qed (auto intro: challenge_inv_start challenge_inv_step challenge_grows_step challenge_grows_trans)


section \<open>The monitor\<close>

lemma monitor_check_keeps: "ch_ExpiresAt (ey_public (snd (monitor_check now e))) = ch_ExpiresAt (ey_public e)"
  by (rule monitor_check_cases [of now e]) (simp_all add: markCompletedLocked_def)

lemma monitor_observe_keeps: "ch_ExpiresAt (ey_public (snd (monitor_observe now snapshot e))) = ch_ExpiresAt (ey_public e)"
  using effect_keeps(3) [of "Observation snapshot now" e] by (simp add: snd_monitor_observe monitor_check_keeps)

definition undisturbed :: "monitor_round \<Rightarrow> bool" where
  "undisturbed w \<longleftrightarrow> (\<forall>x. ch_ExpiresAt (ey_public (mo_before w x)) = ch_ExpiresAt (ey_public x) \<and>
     ch_ExpiresAt (ey_public (mo_between w x)) = ch_ExpiresAt (ey_public x))"

lemma monitor_round_keeps:
  assumes "undisturbed w"
  shows "ch_ExpiresAt (ey_public (snd (monitor_round_step w e))) = ch_ExpiresAt (ey_public e)"
proof (cases "monitor_check (mo_tick w) (mo_before w e)")
  case (Pair verdict f)
  then have "ch_ExpiresAt (ey_public f) = ch_ExpiresAt (ey_public e)"
    using assms monitor_check_keeps [of "mo_tick w" "mo_before w e"] by (simp add: undisturbed_def)
  then show ?thesis using Pair assms monitor_observe_keeps
    by (auto simp: monitor_round_step_def Let_def undisturbed_def split: monitor_verdict.splits sum.splits)
qed

lemma monitor_round_late:
  assumes "undisturbed w" and "ch_ExpiresAt (ey_public e) < mo_tick w"
  shows "fst (monitor_round_step w e) \<noteq> MonitorContinue"
proof -
  have "ch_ExpiresAt (ey_public (mo_before w e)) < mo_tick w" using assms by (simp add: undisturbed_def)
  then have "fst (monitor_check (mo_tick w) (mo_before w e)) \<noteq> MonitorContinue"
    by (simp add: monitor_check_def split: option.splits)
  then show ?thesis
    by (cases "monitor_check (mo_tick w) (mo_before w e)")
       (auto simp: monitor_round_step_def Let_def split: monitor_verdict.splits)
qed

lemma monitor_loop_ends:
  assumes "\<And>w. w \<in> set ws \<Longrightarrow> undisturbed w" and "\<exists>w \<in> set ws. ch_ExpiresAt (ey_public e) < mo_tick w"
  shows "\<exists>verdict f. monitor_loop ws e = Inl (verdict, f) \<and> verdict \<noteq> MonitorContinue"
  using assms
proof (induction ws arbitrary: e)
  case (Cons w ws)
  obtain verdict f where r: "monitor_round_step w e = (verdict, f)" by (cases "monitor_round_step w e")
  show ?case
  proof (cases "verdict = MonitorContinue")
    case False
    then show ?thesis using r by (cases verdict) simp_all
  next
    case True
    have "undisturbed w" by (rule Cons.prems(1)) simp
    then have "\<not> ch_ExpiresAt (ey_public e) < mo_tick w" "ch_ExpiresAt (ey_public f) = ch_ExpiresAt (ey_public e)"
      using monitor_round_late [of w e] monitor_round_keeps [of w e] r True by auto
    then have "\<exists>verdict g. monitor_loop ws f = Inl (verdict, g) \<and> verdict \<noteq> MonitorContinue"
      using Cons.prems by (intro Cons.IH) auto
    then show ?thesis using r True by simp
  qed
qed simp

section \<open>The registry of challenges\<close>

inductive login_step :: "auth_manager \<Rightarrow> auth_manager \<Rightarrow> bool" where
  begun: "login_step m (snd (auth_Begin env account hasDriver lan requested m))"
| status: "login_step m (snd (auth_Status now cid m))"
| served: "(cid, wd_entry w) \<in> set (am_entries m) \<Longrightarrow> auth_step w w' \<Longrightarrow>
     login_step m (m\<lparr>am_entries := set_entry cid (wd_entry w') (am_entries m)\<rparr>)"
| served_late: "(cid, wd_entry w) \<in> set (am_detached m) \<Longrightarrow> auth_step w w' \<Longrightarrow>
     login_step m (m\<lparr>am_detached := set_entry cid (wd_entry w') (am_detached m)\<rparr>)"
| monitor_ended: "login_step m (monitor_end cid m)"
| close_all: "login_step m (CloseAll m)"

abbreviation owner :: "string \<times> entry \<Rightarrow> string" where
  "owner x \<equiv> ch_AccountID (ey_public (snd x))"

definition registry_inv :: "auth_manager \<Rightarrow> bool" where
  "registry_inv m \<longleftrightarrow> distinct (map fst (am_entries m)) \<and> distinct (map owner (am_entries m)) \<and>
     (\<forall>(cid, e) \<in> set (am_entries m). ch_ID (ey_public e) = cid)"

lemma distinct_map_filter: "distinct (map f xs) \<Longrightarrow> distinct (map f (filter P xs))"
  by (induction xs) auto

lemma new_entry_fields:
  "ch_ID (ey_public (new_entry cid account token localURL lanURL qr snapshot now)) = cid"
  "ch_AccountID (ey_public (new_entry cid account token localURL lanURL qr snapshot now)) = account"
  "ch_LocalURL (ey_public (new_entry cid account token localURL lanURL qr snapshot now)) = localURL"
  "ch_LANURL (ey_public (new_entry cid account token localURL lanURL qr snapshot now)) = lanURL"
  "ch_ExpiresAt (ey_public (new_entry cid account token localURL lanURL qr snapshot now)) = now + challengeTTL"
  "\<not> ey_closed (new_entry cid account token localURL lanURL qr snapshot now)"
  "\<not> completedLocked (new_entry cid account token localURL lanURL qr snapshot now)"
  by (simp_all add: new_entry_def observeAuthSnapshotLocked_def markCompletedLocked_def completedLocked_def Let_def
      minimumStableOnlineObservations_def)

text \<open>What a successful \<^verbatim>\<open>Begin\<close> did; a failed one did nothing.\<close>

lemma auth_Begin_cases:
  obtains (failed) err where "auth_Begin env account hasDriver lan requested m = (Inl err, m)"
  | (opened) address port where "ResolveLANAddress (ax_host env) lan requested = Inr address"
      "auth_Begin env account hasDriver lan requested m =
         (Inr (ey_public (begin_item env account lan address port m)),
          register_entry (randomToken (ax_id env)) (begin_item env account lan address port m) m)"
proof (cases "fst (auth_Begin env account hasDriver lan requested m)")
  case (Inl err)
  then have "auth_Begin env account hasDriver lan requested m = (Inl err, m)"
    by (auto simp: auth_Begin_def Let_def split: if_splits sum.splits option.splits)
  then show ?thesis by (rule that(1))
next
  case (Inr challenge)
  then show ?thesis using that(2)
    by (auto simp: auth_Begin_def Let_def split: if_splits sum.splits option.splits)
qed

lemma begin_item_fields:
  "ch_ID (ey_public (begin_item env account lan address port m)) = randomToken (ax_id env)"
  "ch_AccountID (ey_public (begin_item env account lan address port m)) = account"
  "ch_LocalURL (ey_public (begin_item env account lan address port m)) = begin_url env address port"
  "ch_LANURL (ey_public (begin_item env account lan address port m)) = (if lan then begin_url env address port else [])"
  "ch_ExpiresAt (ey_public (begin_item env account lan address port m)) = ax_now env + challengeTTL"
  "\<not> ey_closed (begin_item env account lan address port m)"
  "\<not> completedLocked (begin_item env account lan address port m)"
  by (simp_all add: begin_item_def new_entry_fields Let_def)

lemma register_entry_inv:
  "registry_inv m \<Longrightarrow> ch_ID (ey_public item) = cid \<Longrightarrow> registry_inv (register_entry cid item m)"
  by (auto simp: registry_inv_def register_entry_def Let_def distinct_map_filter)

lemma set_entry_inv:
  assumes "registry_inv m" and "(cid, e) \<in> set (am_entries m)"
    and "ch_ID (ey_public f) = ch_ID (ey_public e)" and "ch_AccountID (ey_public f) = ch_AccountID (ey_public e)"
  shows "registry_inv (m\<lparr>am_entries := set_entry cid f (am_entries m)\<rparr>)"
proof -
  have "map fst (set_entry cid f (am_entries m)) = map fst (am_entries m)"
    by (auto simp: set_entry_def)
  moreover have "x = e" if "(cid, x) \<in> set (am_entries m)" for x
    using assms(1,2) that by (auto simp: registry_inv_def dest: eq_key_imp_eq_value)
  then have "map owner (set_entry cid f (am_entries m)) = map owner (am_entries m)"
    using assms(4) by (auto simp: set_entry_def)
  moreover have "\<forall>(k, x) \<in> set (set_entry cid f (am_entries m)). ch_ID (ey_public x) = k"
    using assms by (auto simp: set_entry_def registry_inv_def split: if_splits)
  ultimately show ?thesis using assms(1) by (simp add: registry_inv_def)
qed

lemma status_entry_keeps:
  "ch_ID (ey_public (snd (status_entry now e))) = ch_ID (ey_public e)"
  "ch_AccountID (ey_public (snd (status_entry now e))) = ch_AccountID (ey_public e)"
  using snd_status_entry [of now e] by (auto simp: markCompletedLocked_def)

lemma login_step_inv: "registry_inv m \<Longrightarrow> login_step m m' \<Longrightarrow> registry_inv m'"
proof -
  assume inv: "registry_inv m" and "login_step m m'"
  from \<open>login_step m m'\<close> show ?thesis
  proof cases
    case (begun env account hasDriver lan requested)
    then show ?thesis using inv register_entry_inv begin_item_fields(1)
      by (cases rule: auth_Begin_cases [of env account hasDriver lan requested m]) auto
  next
    case (status now cid)
    then show ?thesis using inv set_entry_inv [OF inv map_of_SomeD status_entry_keeps]
      by (auto simp: auth_Status_def case_prod_beta split: option.splits)
  next
    case (served cid w w')
    have "challenge_grows w w'" using served(3) by (rule challenge_grows_step)
    then show ?thesis using served set_entry_inv [OF inv served(2)] by (simp add: challenge_grows_def Let_def)
  qed (use inv in \<open>auto simp: registry_inv_def monitor_end_def CloseAll_def distinct_map_filter\<close>)
qed

interpretation registry: invariant_system "\<lambda>m. \<exists>paths. m = auth_NewManager paths" login_step registry_inv
proof unfold_locales
  show "registry_inv s" if "\<exists>paths. s = auth_NewManager paths" for s
    using that by (auto simp: auth_NewManager_def registry_inv_def)
qed (rule login_step_inv)


section \<open>A login in the small\<close>

text \<open>Snapshots and a challenge on which the properties are evaluated.\<close>

definition demo_action :: AuthAction where
  "demo_action = \<lparr>aa_ID = ''accept#1'', aa_Label = [], aa_Risk = [], aa_Confirmation = [], aa_RequiresConfirmation = True,
     aa_ImageBound = True, aa_ReplayKey = ''accept''\<rparr>"

definition login_screen :: AuthSnapshot where
  "login_screen = zero_AuthSnapshot\<lparr>as_State := StateAuthRequired, as_Kind := AuthSMS, as_CanSubmitCode := True,
     as_ScreenshotPNG := ''png'', as_Actions := [demo_action]\<rparr>"

definition main_screen :: AuthSnapshot where
  "main_screen = zero_AuthSnapshot\<lparr>as_State := StateOnline\<rparr>"

definition demo_entry :: entry where
  "demo_entry = new_entry ''c'' ''acc'' ''t'' ''u'' [] ''q'' login_screen second"

definition demo_world :: auth_world where
  "demo_world = world_of demo_entry [Observed StateAuthRequired second]"

lemma auth_startI:
  "0 < now \<Longrightarrow> st = as_State snapshot \<Longrightarrow>
     auth_start (world_of (new_entry cid account token localURL lanURL qr snapshot now) [Observed st now])"
  unfolding auth_start_def by blast

lemma demo_world_start: "auth_start demo_world"
  unfolding demo_world_def demo_entry_def by (rule auth_startI) (simp_all add: login_screen_def)

lemmas demo_simps = demo_world_def demo_entry_def demo_action_def login_screen_def main_screen_def zero_AuthSnapshot_def
  world_of_def new_entry_def observeAuthSnapshotLocked_def markCompletedLocked_def completedLocked_def gone_def
  minimumStableOnlineObservations_def onlineStabilityWindow_def challengeTTL_def


lemma demo_trim: "TrimSpace ''accept#1'' = ''accept#1''" "TrimSpace ''accept'' = ''accept''"
  by code_simp+

lemma demo_pattern: "verificationCodePattern ''1234''"
  by code_simp

definition demo_begun :: auth_world where
  "demo_begun = demo_world\<lparr>wd_entry := demo_entry\<lparr>ey_actionInFlight := True\<rparr>, wd_actions := [ActionScreening ''accept#1'']\<rparr>"

definition demo_called :: auth_world where
  "demo_called = demo_begun\<lparr>wd_entry := snd (action_reserve second ''accept#1'' ''accept'' (wd_entry demo_begun)),
     wd_actions := [ActionCalling ''accept#1'' ''accept''],
     wd_events := wd_events demo_begun @ [Performed ''accept#1'' ''accept'']\<rparr>"

lemma demo_action_run: "auth_step\<^sup>*\<^sup>* demo_world demo_called"
proof -
  have "action_begin second (TrimSpace ''accept#1'') True (wd_entry demo_world) = (None, demo_entry\<lparr>ey_actionInFlight := True\<rparr>)"
    by (simp add: action_begin_def demo_trim demo_simps)
  from auth_step.action_start [OF this] have 1: "auth_step demo_world demo_begun"
    by (simp add: demo_begun_def demo_trim demo_world_def world_of_def)
  have "action_select True (Inr login_screen) ''accept#1'' = Inr ''accept''"
    by (simp add: action_select_def demo_simps authActionReplayKey_def replay_matches_def demo_trim Let_def less_eq_char_def)
  moreover have "action_reserve second ''accept#1'' ''accept'' (wd_entry demo_begun) =
      (None, snd (action_reserve second ''accept#1'' ''accept'' (wd_entry demo_begun)))"
    by (simp add: action_reserve_def demo_begun_def demo_simps maxAuthActionAttemptsPerAction_def
        maxAuthActionAttemptsPerChallenge_def)
  moreover have "wd_actions demo_begun = [] @ ActionScreening ''accept#1'' # []" by (simp add: demo_begun_def)
  ultimately have 2: "auth_step demo_begun demo_called"
    unfolding demo_called_def by (metis append_Nil auth_step.action_performed)
  show ?thesis using 1 2 by (meson converse_rtranclp_into_rtranclp rtranclp.rtrancl_refl)
qed

section \<open>Images bound to an action\<close>

lemma bound_matches_sound:
  "bound_matches i as = Some keys \<Longrightarrow>
     map authActionReplayKey (filter (\<lambda>a. aa_ID a = i) as) = map Some keys \<and>
     (\<forall>a \<in> set as. aa_ID a = i \<longrightarrow> aa_ImageBound a)"
proof (induction as arbitrary: keys)
  case (Cons a as)
  show ?case
  proof (cases "aa_ID a = i")
    case True
    then obtain key ks where "aa_ImageBound a" "authActionReplayKey a = Some key" "bound_matches i as = Some ks" "keys = key # ks"
      using Cons.prems by (simp split: if_splits option.splits) blast
    then show ?thesis using Cons.IH [of ks] True by simp
  next
    case False
    then show ?thesis using Cons by simp
  qed
qed simp

lemma uniqueImageBoundAction_sound:
  assumes "uniqueImageBoundAction snap i = (key, True)"
  shows "\<exists>a. as_State snap = StateAuthRequired \<and> filter (\<lambda>b. aa_ID b = i) (as_Actions snap) = [a] \<and> aa_ImageBound a \<and>
    authActionReplayKey a = Some key \<and> replay_matches key (as_Actions snap) = 1"
proof -
  have auth: "as_State snap = StateAuthRequired" and one: "bound_matches i (as_Actions snap) = Some [key]"
    and unique: "replay_matches key (as_Actions snap) = 1"
    using assms by (auto simp: uniqueImageBoundAction_def split: if_splits option.splits list.splits)
  obtain a where a: "filter (\<lambda>b. aa_ID b = i) (as_Actions snap) = [a]" "authActionReplayKey a = Some key"
    using bound_matches_sound [OF one] by (auto simp: map_eq_Cons_conv)
  then have "a \<in> set (as_Actions snap)" "aa_ID a = i" by (auto simp: filter_eq_Cons_iff)
  then show ?thesis using bound_matches_sound [OF one] a auth unique by blast
qed

section \<open>An uninterrupted handler is a run\<close>

definition action_world :: "entry \<Rightarrow> action_phase list \<Rightarrow> auth_event list \<Rightarrow> auth_world" where
  "action_world e ps es = \<lparr>wd_entry = e, wd_actions = ps, wd_codes = [], wd_events = es\<rparr>"

lemma world_of_action: "world_of e es = action_world e [] es"
  by (simp add: world_of_def action_world_def)

lemma action_sections:
  "action_begin t (TrimSpace requested) confirmed e = (None, e1) \<Longrightarrow>
     auth_step (action_world e [] es) (action_world e1 [ActionScreening (TrimSpace requested)] es)"
  "action_select actor snapshot i = Inl err \<Longrightarrow>
     auth_step (action_world e [ActionScreening i] es) (action_world e [ActionEnding] es)"
  "action_select actor snapshot i = Inr key \<Longrightarrow> action_reserve t i key e = (Some err, e1) \<Longrightarrow>
     auth_step (action_world e [ActionScreening i] es) (action_world e1 [ActionEnding] es)"
  "action_select actor snapshot i = Inr key \<Longrightarrow> action_reserve t i key e = (None, e1) \<Longrightarrow>
     auth_step (action_world e [ActionScreening i] es) (action_world e1 [ActionCalling i key] (es @ [Performed i key]))"
  "auth_step (action_world e [ActionCalling i key] es)
     (action_world (action_settle answer i key e) [ActionEnding] (es @ [Answered i key answer]))"
  "auth_step (action_world e [ActionEnding] es) (action_world (action_end e) [] es)"
  using auth_step.action_start [of t requested confirmed "action_world e [] es" e1]
    auth_step.action_screened_out [of "action_world e [ActionScreening i] es" "[]" i "[]" actor snapshot err]
    auth_step.action_refused [of "action_world e [ActionScreening i] es" "[]" i "[]" actor snapshot key t err e1]
    auth_step.action_performed [of "action_world e [ActionScreening i] es" "[]" i "[]" actor snapshot key t e1]
    auth_step.action_answered [of "action_world e [ActionCalling i key] es" "[]" i key "[]" answer]
    auth_step.action_finished [of "action_world e [ActionEnding] es" "[]" "[]"]
  by (simp_all add: action_world_def)

text \<open>The events of the operation: what it asked of the driver and what the driver said.\<close>

definition action_events :: "go_error option \<Rightarrow> string \<Rightarrow> auth_event list \<Rightarrow> bool" where
  "action_events err i events \<longleftrightarrow> (if err = None then \<exists>key. events = [Performed i key, Answered i key None]
     else events = [] \<or> (\<exists>key. events = [Performed i key, Answered i key err]))"

section \<open>Properties\<close>

text \<open>C4. A confirmed login action is not replayed, however the handlers of the login page
  interleave: the driver is asked to perform an action again - the same action, or another
  generation of the same logical operation - only after it definitively rejected the first request,
  an action at most three times and at most six actions in one challenge.\<close>

theorem login_actions_not_replayed:
  assumes "auth_start w" and "auth_step\<^sup>*\<^sup>* w w'"
  shows "no_replay (wd_events w') \<and> (\<forall>i. performs i (wd_events w') \<le> 3) \<and> all_performs (wd_events w') \<le> 6"
  using login.reachable_inv [OF assms] by (simp add: challenge_inv_def action_inv_def)

theorem login_actions_not_replayed_witness:
  "no_replay (wd_events demo_called) \<and> performs ''accept#1'' (wd_events demo_called) = 1 \<and>
     all_performs (wd_events demo_called) \<le> 6"
proof -
  have "performs ''accept#1'' (wd_events demo_called) = 1"
    by (simp add: demo_called_def demo_begun_def demo_world_def world_of_def performs_def)
  then show ?thesis using login_actions_not_replayed [OF demo_world_start demo_action_run] by simp
qed


text \<open>C6. At most eight verification codes of one challenge reach the client, each of the accepted
  form, and after a code that the client took none is sent any more - also when submissions from the
  page and from the terminal race.\<close>

theorem login_codes_bounded:
  assumes "auth_start w" and "auth_step\<^sup>*\<^sup>* w w'"
  shows "code_calls (wd_events w') \<le> 8 \<and> accepted_last (wd_events w') \<and>
    (\<forall>c err. CodeSent c err \<in> set (wd_events w') \<longrightarrow> verificationCodePattern c)"
  using login.reachable_inv [OF assms] by (auto simp: challenge_inv_def code_inv_def split: if_splits)

definition demo_code :: auth_world where
  "demo_code = demo_world\<lparr>wd_entry := demo_entry\<lparr>ey_codeAttempts := 1, ey_codeInFlight := True\<rparr>,
     wd_codes := [CodeScreening ''1234'']\<rparr>"

definition demo_sent :: auth_world where
  "demo_sent = demo_code\<lparr>wd_codes := [CodeEnding None], wd_events := wd_events demo_code @ [CodeSent ''1234'' None]\<rparr>"

lemma demo_code_run: "auth_step\<^sup>*\<^sup>* demo_world demo_sent"
proof -
  have "code_begin second ''1234'' (wd_entry demo_world) = (None, demo_entry\<lparr>ey_codeAttempts := 1, ey_codeInFlight := True\<rparr>)"
    by (simp add: code_begin_def demo_pattern demo_simps)
  from auth_step.code_start [OF this] have 1: "auth_step demo_world demo_code"
    by (simp add: demo_code_def demo_world_def world_of_def)
  have "code_screen (Inr login_screen) = None" by (simp add: code_screen_def login_screen_def)
  from auth_step.code_sent [of demo_code "[]" "''1234''" "[]", OF _ this, of None] have 2: "auth_step demo_code demo_sent"
    by (simp add: demo_code_def demo_sent_def)
  show ?thesis using 1 2 by (meson converse_rtranclp_into_rtranclp rtranclp.rtrancl_refl)
qed

theorem login_codes_bounded_witness:
  "code_calls (wd_events demo_sent) = 1 \<and> accepted (wd_events demo_sent) \<and> accepted_last (wd_events demo_sent)"
proof -
  have "code_calls (wd_events demo_sent) = 1" "accepted (wd_events demo_sent)"
    by (simp_all add: demo_sent_def demo_code_def demo_world_def world_of_def code_calls_def accepted_def)
  then show ?thesis using login_codes_bounded [OF demo_world_start demo_code_run] by simp
qed

text \<open>C5. A login is reported as completed, and the account as online, only if the client was observed
  online at least three times in a row over at least fifteen seconds up to the time of completion: a
  main window that appears briefly does not end a login.\<close>

theorem login_completion_stable:
  assumes "auth_start w" and "auth_step\<^sup>*\<^sup>* w w'"
  shows "(\<forall>t. ch_CompletedAt (ey_public (wd_entry w')) = Some t \<longrightarrow> stable_online t (observations (wd_events w'))) \<and>
    (\<forall>now challenge. fst (status_entry now (wd_entry w')) = Inr challenge \<and> ch_State challenge = StateOnline \<longrightarrow>
       (\<exists>t. ch_CompletedAt challenge = Some t \<and> stable_online t (observations (wd_events w'))))"
proof -
  have "login_inv (wd_entry w') (observations (wd_events w'))"
    using login.reachable_inv [OF assms] by (simp add: challenge_inv_def)
  then show ?thesis
    by (auto simp: login_inv_def status_entry_def completedLocked_def markCompletedLocked_def Let_def split: if_splits)
qed

definition demo_online :: "time \<Rightarrow> auth_world \<Rightarrow> auth_world" where
  "demo_online now w = w\<lparr>wd_entry := snd (image_observe now main_screen (wd_entry w)),
     wd_events := wd_events w @ observed True main_screen now\<rparr>"

definition demo_done :: auth_world where
  "demo_done = demo_online (17 * second) (demo_online (9 * second) (demo_online (2 * second) demo_world))"

lemma demo_done_run: "auth_step\<^sup>*\<^sup>* demo_world demo_done"
proof -
  have step: "auth_step w (demo_online now w)" if "0 < now" for now w
    unfolding demo_online_def by (rule auth_step.image [OF that])
  have "auth_step demo_world (demo_online (2 * second) demo_world)"
    "auth_step (demo_online (2 * second) demo_world) (demo_online (9 * second) (demo_online (2 * second) demo_world))"
    "auth_step (demo_online (9 * second) (demo_online (2 * second) demo_world)) demo_done"
    unfolding demo_done_def by (simp_all add: step)
  then show ?thesis by (meson converse_rtranclp_into_rtranclp rtranclp.rtrancl_refl)
qed

lemmas demo_done_simps = demo_done_def demo_online_def image_observe_def demo_simps observed_def Let_def

theorem login_completion_stable_witness:
  "ch_CompletedAt (ey_public (wd_entry demo_done)) = Some (17 * second) \<and>
     stable_online (17 * second) (observations (wd_events demo_done))"
proof -
  have "ch_CompletedAt (ey_public (wd_entry demo_done)) = Some (17 * second)"
    by (simp add: demo_done_simps)
  then show ?thesis using login_completion_stable [OF demo_world_start demo_done_run] by blast
qed

text \<open>C8. Completion, closing and expiry are final. A challenge that is completed, closed (as one that is
  replaced or whose monitor ends) or expired stays so, whatever handlers, monitor and client do later: it
  keeps its completion time and stays closed; once it is completed or closed no further action of it reaches
  the driver, not even of a handler that was already running; every later request for an action or a code
  is refused and changes nothing; and a caller who asks for its status is told that it is online since its
  completion when it is completed and open, and that it does not exist otherwise.\<close>

theorem login_completion_final:
  assumes "auth_start v" and "auth_step\<^sup>*\<^sup>* v w" and "auth_step\<^sup>*\<^sup>* w w'"
    and "gone now (wd_entry w)" and "now \<le> later"
  shows "gone later (wd_entry w') \<and> (ey_closed (wd_entry w) \<longrightarrow> ey_closed (wd_entry w')) \<and>
    (\<forall>t. ch_CompletedAt (ey_public (wd_entry w)) = Some t \<longrightarrow> ch_CompletedAt (ey_public (wd_entry w')) = Some t) \<and>
    (ey_closed (wd_entry w) \<or> completedLocked (wd_entry w) \<longrightarrow> all_performs (wd_events w') = all_performs (wd_events w)) \<and>
    (later \<le> clock 0 \<longrightarrow> performAuthAction clock actor snapshot answer between requested confirmed (wd_entry w') =
       (Some (ErrSentinel OsErrNotExist), wd_entry w')) \<and>
    action_reserve later actionID key (wd_entry w') = (Some (ErrSentinel OsErrNotExist), wd_entry w') \<and>
    (verificationCodePattern code \<longrightarrow> submitCode later snapshot submit meanwhile code (wd_entry w') =
       (Some (ErrSentinel OsErrNotExist), wd_entry w')) \<and>
    (if ey_closed (wd_entry w') \<or> \<not> completedLocked (wd_entry w')
     then fst (status_entry later (wd_entry w')) = Inl (ErrSentinel OsErrNotExist)
     else \<exists>challenge. fst (status_entry later (wd_entry w')) = Inr challenge \<and> ch_State challenge = StateOnline \<and>
       ch_CompletedAt challenge = ch_CompletedAt (ey_public (wd_entry w')))"
proof -
  have grows: "challenge_grows w w'"
    using login.run_rel [OF assms(3) login.reachable_inv [OF assms(1,2)]] .
  have gone: "gone later (wd_entry w')"
    using grows assms(4,5) by (auto simp: challenge_grows_def gone_def completedLocked_def Let_def)
  have performs: "all_performs (wd_events w') = all_performs (wd_events w)"
    if "ey_closed (wd_entry w) \<or> completedLocked (wd_entry w)"
    using challenge_grows_performs [OF grows that] .
  have refused: "action_begin moment i confirmed (wd_entry w') = (Some (ErrSentinel OsErrNotExist), wd_entry w')"
    if "later \<le> moment" for moment i
    using gone that by (auto simp: action_begin_def gone_def)
  have status: "if ey_closed (wd_entry w') \<or> \<not> completedLocked (wd_entry w')
     then fst (status_entry later (wd_entry w')) = Inl (ErrSentinel OsErrNotExist)
     else \<exists>challenge. fst (status_entry later (wd_entry w')) = Inr challenge \<and> ch_State challenge = StateOnline \<and>
       ch_CompletedAt challenge = ch_CompletedAt (ey_public (wd_entry w'))"
    using gone by (auto simp: gone_def status_entry_def completedLocked_def markCompletedLocked_def Let_def)
  have kept: "(ey_closed (wd_entry w) \<longrightarrow> ey_closed (wd_entry w')) \<and>
    (\<forall>t. ch_CompletedAt (ey_public (wd_entry w)) = Some t \<longrightarrow> ch_CompletedAt (ey_public (wd_entry w')) = Some t)"
    using grows by (auto simp: challenge_grows_def Let_def)
  show ?thesis
    using gone kept performs refused [of "clock 0"] status
    by (simp add: performAuthAction_def action_reserve_def submitCode_def code_begin_def Let_def)
qed

text \<open>A completed login that the client confirms once more, before and after it is closed.\<close>

definition demo_later :: auth_world where
  "demo_later = demo_online (30 * second) demo_done"

definition demo_over :: auth_world where
  "demo_over = demo_later\<lparr>wd_entry := entry_close (wd_entry demo_later)\<rparr>"

lemma demo_later_run: "auth_step\<^sup>*\<^sup>* demo_done demo_later" and demo_over_run: "auth_step\<^sup>*\<^sup>* demo_done demo_over"
proof -
  have "auth_step demo_done demo_later"
    unfolding demo_later_def demo_online_def [of _ demo_done] by (rule auth_step.image) simp
  then show 1: "auth_step\<^sup>*\<^sup>* demo_done demo_later" by blast
  have "auth_step demo_later demo_over" unfolding demo_over_def by (rule auth_step.close)
  with 1 show "auth_step\<^sup>*\<^sup>* demo_done demo_over" by (rule rtranclp.rtrancl_into_rtrancl)
qed

theorem login_completion_final_witness:
  "(\<exists>challenge. fst (status_entry (700 * second) (wd_entry demo_later)) = Inr challenge \<and> ch_State challenge = StateOnline \<and>
      ch_CompletedAt challenge = Some (17 * second)) \<and>
   fst (status_entry (700 * second) (wd_entry demo_over)) = Inl (ErrSentinel OsErrNotExist) \<and>
   performAuthAction (\<lambda>_. 700 * second) True (Inr login_screen) None (\<lambda>_ e. e) ''accept#1'' True (wd_entry demo_over) =
     (Some (ErrSentinel OsErrNotExist), wd_entry demo_over)"
proof -
  have c: "ch_CompletedAt (ey_public (wd_entry demo_done)) = Some (17 * second)" "\<not> ey_closed (wd_entry demo_later)"
    "ey_closed (wd_entry demo_over)"
    by (simp_all add: demo_done_simps demo_later_def demo_over_def entry_close_def)
  then have gone: "gone (600 * second) (wd_entry demo_done)" by (simp add: gone_def completedLocked_def)
  have le: "600 * second \<le> 700 * second" by simp
  note final = login_completion_final [OF demo_world_start demo_done_run]
  have l: "ch_CompletedAt (ey_public (wd_entry demo_later)) = Some (17 * second)"
    "if ey_closed (wd_entry demo_later) \<or> \<not> completedLocked (wd_entry demo_later)
     then fst (status_entry (700 * second) (wd_entry demo_later)) = Inl (ErrSentinel OsErrNotExist)
     else \<exists>challenge. fst (status_entry (700 * second) (wd_entry demo_later)) = Inr challenge \<and> ch_State challenge = StateOnline \<and>
       ch_CompletedAt challenge = ch_CompletedAt (ey_public (wd_entry demo_later))"
    using final [OF demo_later_run gone le] c(1) by blast+
  have o: "if ey_closed (wd_entry demo_over) \<or> \<not> completedLocked (wd_entry demo_over)
     then fst (status_entry (700 * second) (wd_entry demo_over)) = Inl (ErrSentinel OsErrNotExist)
     else \<exists>challenge. fst (status_entry (700 * second) (wd_entry demo_over)) = Inr challenge \<and> ch_State challenge = StateOnline \<and>
       ch_CompletedAt challenge = ch_CompletedAt (ey_public (wd_entry demo_over))"
    "700 * second \<le> 700 * second \<longrightarrow> performAuthAction (\<lambda>_. 700 * second) True (Inr login_screen) None (\<lambda>_ e. e) ''accept#1'' True (wd_entry demo_over) =
     (Some (ErrSentinel OsErrNotExist), wd_entry demo_over)"
    using final [OF demo_over_run gone le, where clock = "\<lambda>_. 700 * second"] by blast+
  show ?thesis using l o c(2,3) by (simp add: completedLocked_def)
qed


text \<open>C7. The monitor of a challenge ends: once its ticker fires after the challenge expired it has
  returned, whatever the client answered and the other handlers did meanwhile (none of them moves
  the expiry); it then removes the challenge from the registry and closes it.\<close>

theorem monitor_terminates:
  assumes "\<And>w. w \<in> set rounds \<Longrightarrow> undisturbed w"
    and "\<exists>w \<in> set rounds. ch_ExpiresAt (ey_public e) < mo_tick w"
  shows "(\<exists>verdict f. monitor_loop rounds e = Inl (verdict, f) \<and> verdict \<noteq> MonitorContinue) \<and>
    map_of (am_entries (monitor_end cid m)) cid = None \<and>
    (\<forall>(k, f) \<in> set (am_detached (monitor_end cid m)). k = cid \<longrightarrow> ey_closed f)"
proof -
  have "map_of (am_entries (monitor_end cid m)) cid = None"
    by (auto simp: monitor_end_def map_of_eq_None_iff)
  then show ?thesis using monitor_loop_ends [OF assms]
    by (auto simp: monitor_end_def entry_close_def split: if_splits)
qed

definition late_round :: monitor_round where
  "late_round = \<lparr>mo_done = False, mo_before = (\<lambda>e. e), mo_tick = 602 * second, mo_snapshot = Inr main_screen,
     mo_between = entry_close, mo_now = 603 * second\<rparr>"

theorem monitor_terminates_witness:
  "\<exists>verdict f. monitor_loop [late_round\<lparr>mo_tick := 2 * second, mo_snapshot := Inl (ErrNew []), mo_between := (\<lambda>e. e)\<rparr>,
     late_round] demo_entry = Inl (verdict, f) \<and> verdict \<noteq> MonitorContinue"
  by (rule monitor_terminates [THEN conjunct1])
     (auto simp: late_round_def undisturbed_def entry_close_def demo_simps)

text \<open>C9. In every reachable state the registry of challenges names each challenge by its own
  identifier and holds at most one challenge per account: a new login replaces the earlier one, and
  the end of the replaced challenge's monitor does not touch the new one.\<close>

theorem one_challenge_per_account:
  assumes "login_step\<^sup>*\<^sup>* (auth_NewManager paths) m" and "(cid, e) \<in> set (am_entries m)" and "(cid', e') \<in> set (am_entries m)"
  shows "ch_ID (ey_public e) = cid \<and>
    (ch_AccountID (ey_public e) = ch_AccountID (ey_public e') \<or> cid = cid' \<longrightarrow> cid = cid' \<and> e = e') \<and>
    (cid \<noteq> cid' \<longrightarrow> (cid', e') \<in> set (am_entries (monitor_end cid m)))"
proof -
  have inv: "registry_inv m" using registry.reachable_inv [OF _ assms(1)] by blast
  have "(cid, e) = (cid', e')" if "owner (cid, e) = owner (cid', e')"
    using inv assms(2,3) that unfolding registry_inv_def by (metis distinct_map_inj)
  moreover have "(cid, e) = (cid', e')" if "fst (cid, e) = fst (cid', e')"
    using inv assms(2,3) that unfolding registry_inv_def by (metis distinct_map_inj)
  ultimately show ?thesis using inv assms(2,3) by (auto simp: registry_inv_def monitor_end_def)
qed

definition demo_paths :: Paths where
  "demo_paths = \<lparr>p_Home = ''/h'', p_Accounts = ''/h/accounts'', p_Downloads = ''/h/downloads'', p_Runtime = ''/r'',
     p_Socket = ''/r/s'', p_Registry = ''/h/registry''\<rparr>"

definition demo_auth_env :: auth_env where
  "demo_auth_env = \<lparr>ax_id = [1, 2, 3], ax_token = [4, 5, 6],
     ax_host = \<lparr>hx_Interfaces = Inr [], hx_bridge = (\<lambda>_. False), hx_routes = None, hx_LANAddress = [], hx_mapped = (\<lambda>_. None)\<rparr>,
     ax_Listen = (\<lambda>_. Inr 4711), ax_MkdirAll = (\<lambda>_. None), ax_WriteQR = (\<lambda>_ _. None),
     ax_Snapshot = login_screen, ax_now = second\<rparr>"

abbreviation demo_manager_begun :: auth_manager where
  "demo_manager_begun \<equiv> snd (auth_Begin demo_auth_env ''acc'' True False [] (auth_NewManager demo_paths))"

lemma demo_Begin:
  "auth_Begin demo_auth_env ''acc'' True False [] (auth_NewManager demo_paths) =
     (Inr (ey_public (begin_item demo_auth_env ''acc'' False [] 4711 (auth_NewManager demo_paths))),
      register_entry (randomToken [1, 2, 3]) (begin_item demo_auth_env ''acc'' False [] 4711 (auth_NewManager demo_paths))
        (auth_NewManager demo_paths))"
  by (simp add: auth_Begin_def demo_auth_env_def ResolveLANAddress_def Let_def)

theorem one_challenge_per_account_witness:
  "\<exists>e. (randomToken [1, 2, 3], e) \<in> set (am_entries demo_manager_begun) \<and> ch_ID (ey_public e) = randomToken [1, 2, 3]"
proof -
  have "(randomToken [1, 2, 3], begin_item demo_auth_env ''acc'' False [] 4711 (auth_NewManager demo_paths))
      \<in> set (am_entries demo_manager_begun)"
    by (simp add: demo_Begin register_entry_def Let_def)
  moreover have "login_step\<^sup>*\<^sup>* (auth_NewManager demo_paths) demo_manager_begun"
    by (rule r_into_rtranclp [of login_step, OF login_step.begun])
  ultimately show ?thesis using one_challenge_per_account by blast
qed

text \<open>Opening a login: on an error nothing changes. Otherwise the challenge is reachable under its
  identifier for ten minutes and reports the state it was opened with, not yet online; no other
  registered challenge belongs to the account; and its page is served on the loopback address, or
  with LAN login on an RFC 1918 address of an eligible interface.\<close>

theorem auth_Begin_opens:
  "case auth_Begin env account hasDriver lan requested m of
     (Inl err, m') \<Rightarrow> m' = m
   | (Inr challenge, m') \<Rightarrow>
       ch_AccountID challenge = account \<and> ch_CompletedAt challenge = None \<and>
       (\<forall>now \<le> ax_now env + 10 * minute. fst (auth_Status now (ch_ID challenge) m') = Inr challenge) \<and>
       (\<forall>(cid, e) \<in> set (am_entries m'). ch_AccountID (ey_public e) = account \<longrightarrow> cid = ch_ID challenge) \<and>
       (\<exists>host port. ch_LocalURL challenge = ''http://'' @ host @ '':'' @ Itoa port @ ''/a/'' @ randomToken (ax_token env) \<and>
          (\<not> lan \<longrightarrow> host = ''127.0.0.1'') \<and>
          (lan \<longrightarrow> (\<exists>ip. isRFC1918 ip \<and> host = IPString ip \<and> ch_LANURL challenge = ch_LocalURL challenge)))"
proof (cases rule: auth_Begin_cases [of env account hasDriver lan requested m])
  case (failed err)
  then show ?thesis by simp
next
  case (opened address port)
  let ?item = "begin_item env account lan address port m"
  let ?m = "register_entry (randomToken (ax_id env)) ?item m"
  have found: "map_of (am_entries ?m) (randomToken (ax_id env)) = Some ?item" by (simp add: register_entry_def Let_def)
  have status: "fst (auth_Status now (randomToken (ax_id env)) ?m) = Inr (ey_public ?item)"
    if "now \<le> ax_now env + 10 * minute" for now
    using that begin_item_fields [of env account lan address port m]
    by (simp add: auth_Status_def found status_entry_def challengeTTL_def Let_def)
  have only: "\<forall>(cid, e) \<in> set (am_entries ?m). ch_AccountID (ey_public e) = account \<longrightarrow> cid = randomToken (ax_id env)"
    by (auto simp: register_entry_def Let_def begin_item_fields)
  let ?host = "if address \<noteq> [] then address else ''127.0.0.1''"
  have loopback: "?host = ''127.0.0.1''" if "\<not> lan"
    using opened(1) that by (auto simp: ResolveLANAddress_def split: if_splits)
  have lan_host: "\<exists>ip. isRFC1918 ip \<and> ?host = IPString ip" if "lan"
    using ResolveLANAddress_sound [of "ax_host env" requested address] opened(1) that by (auto simp: parseIPv4_Nil)
  have page: "\<exists>host p. ch_LocalURL (ey_public ?item) = ''http://'' @ host @ '':'' @ Itoa p @ ''/a/'' @ randomToken (ax_token env) \<and>
      (\<not> lan \<longrightarrow> host = ''127.0.0.1'') \<and>
      (lan \<longrightarrow> (\<exists>ip. isRFC1918 ip \<and> host = IPString ip \<and> ch_LANURL (ey_public ?item) = ch_LocalURL (ey_public ?item)))"
    unfolding begin_item_fields begin_url_def
    by (rule exI [of _ ?host], rule exI [of _ port]) (use loopback lan_host in auto)
  have fresh: "ch_CompletedAt (ey_public ?item) = None"
    using begin_item_fields(7) [of env account lan address port m] by (simp add: completedLocked_def)
  show ?thesis unfolding opened(2) prod.case sum.case
    using status only page fresh begin_item_fields(1,2) [of env account lan address port m] by simp
qed

theorem auth_Begin_opens_witness:
  "\<exists>challenge. fst (auth_Begin demo_auth_env ''acc'' True False [] (auth_NewManager demo_paths)) = Inr challenge \<and>
     fst (auth_Status (601 * second) (ch_ID challenge) demo_manager_begun) = Inr challenge"
  using auth_Begin_opens [where env = demo_auth_env and account = "''acc''" and hasDriver = True and lan = False
    and requested = "[]" and m = "auth_NewManager demo_paths"]
  unfolding demo_Begin by (simp add: demo_auth_env_def)

text \<open>C10. The login page never shows the signed-in client: an image is served only while the challenge
  is open, from a fresh snapshot that is not online. An image that is bound to an action is the
  screenshot of a snapshot that offers exactly this action once, for an operation which has not
  been used up.\<close>

theorem handleImage_guarded:
  assumes "handleImage now snapshot between r e = (HttpImage png, e')"
  shows "rq_Method r = ''GET'' \<and> \<not> gone (now 0) e \<and>
    (\<exists>snap. snapshot = Inr snap \<and> as_State snap \<noteq> StateOnline \<and> png \<noteq> [] \<and> png \<in> {as_QRCodePNG snap, as_ScreenshotPNG snap} \<and>
       \<not> gone (now 1) (snd (observeAuthSnapshotLocked snap (now 1) (between 0 e))) \<and>
       (rq_action_id r \<noteq> None \<longrightarrow>
          (\<exists>i a key. rq_action_id r = Some [i] \<and> png = as_ScreenshotPNG snap \<and> as_State snap = StateAuthRequired \<and>
             filter (\<lambda>b. aa_ID b = i) (as_Actions snap) = [a] \<and> aa_ImageBound a \<and> authActionReplayKey a = Some key \<and>
             replay_matches key (as_Actions snap) = 1 \<and>
             \<not> ey_actionInFlight e' \<and> \<not> ey_performedActions e' i \<and> \<not> ey_performedReplayKeys e' key)))"
proof -
  obtain i snap where get: "rq_Method r = ''GET''" and bind: "image_binding (rq_action_id r) = Some i"
    and open0: "\<not> gone (now 0) e" and snap: "snapshot = Inr snap"
    and obs: "\<not> fst (image_observe (now 1) snap (between 0 e))"
    and e': "e' = between 1 (snd (image_observe (now 1) snap (between 0 e)))"
    and reply: "image_reply snap i e' = HttpImage png"
    using assms
    by (auto simp: handleImage_def method_error_def image_gone_def Let_def case_prod_beta
        split: if_splits option.splits sum.splits bool.splits)
  have shown: "png \<noteq> [] \<and> png \<in> {as_QRCodePNG snap, as_ScreenshotPNG snap}"
    using reply by (auto simp: image_reply_def Let_def case_prod_beta split: if_splits)
  have bound: "\<exists>a key. png = as_ScreenshotPNG snap \<and> as_State snap = StateAuthRequired \<and>
             filter (\<lambda>b. aa_ID b = i) (as_Actions snap) = [a] \<and> aa_ImageBound a \<and> authActionReplayKey a = Some key \<and>
             replay_matches key (as_Actions snap) = 1 \<and>
             \<not> ey_actionInFlight e' \<and> \<not> ey_performedActions e' i \<and> \<not> ey_performedReplayKeys e' key" if named: "i \<noteq> []"
  proof -
    obtain key where key: "uniqueImageBoundAction snap i = (key, True)" and rest: "png = as_ScreenshotPNG snap"
      "\<not> ey_actionInFlight e'" "\<not> ey_performedActions e' i" "\<not> ey_performedReplayKeys e' key"
      using reply named by (cases "uniqueImageBoundAction snap i") (auto simp: image_reply_def Let_def split: if_splits)
    then show ?thesis using uniqueImageBoundAction_sound [OF key] by blast
  qed
  have "\<exists>i'. rq_action_id r = Some [i'] \<and> i' = i \<and> i \<noteq> []" if "rq_action_id r \<noteq> None"
    using bind that by (auto simp: image_binding_def split: option.splits list.splits if_splits)
  then show ?thesis using get open0 snap obs shown bound unfolding image_observe_def Let_def by auto
qed


definition image_request :: http_request where
  "image_request = \<lparr>rq_Method = ''GET'', rq_Path = ''/a/t/image'', rq_Host = ''127.0.0.1'', rq_ContentType = [],
     rq_Marker = (\<lambda>_. []), rq_Origin = None, rq_action_id = Some [''accept#1'']\<rparr>"

theorem handleImage_guarded_witness:
  "fst (handleImage (\<lambda>_. 2 * second) (Inr login_screen) (\<lambda>_ e. e) image_request demo_entry) = HttpImage ''png'' \<and>
     as_State login_screen \<noteq> StateOnline"
proof -
  have "fst (handleImage (\<lambda>_. 2 * second) (Inr login_screen) (\<lambda>_ e. e) image_request demo_entry) = HttpImage ''png''"
    by (simp add: handleImage_def image_request_def image_binding_def demo_trim demo_simps image_observe_def image_reply_def
        uniqueImageBoundAction_def authActionReplayKey_def replay_matches_def Let_def less_eq_char_def)
  moreover from this have "handleImage (\<lambda>_. 2 * second) (Inr login_screen) (\<lambda>_ e. e) image_request demo_entry =
      (HttpImage ''png'', snd (handleImage (\<lambda>_. 2 * second) (Inr login_screen) (\<lambda>_ e. e) image_request demo_entry))"
    by (simp add: prod_eq_iff)
  from handleImage_guarded [OF this] have "as_State login_screen \<noteq> StateOnline" by auto
  ultimately show ?thesis by simp
qed

text \<open>When a handler answers a consumed stale failure with PAGE_CHANGED, which invites the user to
  confirm again, the challenge it leaves offers the action in no snapshot.\<close>

theorem consumed_action_reported_retryable:
  assumes "handleAction now actor (Inr snap) (Some (ErrConsumed (ErrFailure FailureStale text))) (\<lambda>_ e. e) r
      (JsonValue (actionID, True)) TrailingEOF e = (HttpActionFailure StatusConflict ''PAGE_CHANGED'' True, e')"
  shows "\<forall>snap'. \<forall>a \<in> set (availableAuthActionsLocked snap' e'). aa_ID a \<noteq> TrimSpace actionID"
proof -
  have "ey_performedActions e' (TrimSpace actionID)"
    using assms
    by (auto simp: handleAction_def performAuthAction_def action_failure_def errors_Is_def action_select_def action_begin_def
        action_reserve_def action_settle_def authActionDefinitivelyRejected_def AuthActionWasConsumed_def errors_As_def
        action_end_def writeClassifiedAuthActionFailure_def ClassifyFailure_def Let_def
        split: if_splits option.splits list.splits)
  then show ?thesis
    by (auto simp: availableAuthActionsLocked_def split: if_splits)
qed


definition action_http_request :: http_request where
  "action_http_request = \<lparr>rq_Method = ''POST'', rq_Path = ''/a/t/action'', rq_Host = ''127.0.0.1:80'',
     rq_ContentType = ''application/json'', rq_Marker = (\<lambda>h. if h = ''X-WeChatCopilot-Action'' then ''user-confirmed'' else []),
     rq_Origin = Some \<lparr>or_Scheme = ''http'', or_Host = ''127.0.0.1:80'', or_Path = [], or_RawQuery = [], or_Fragment = []\<rparr>,
     rq_action_id = None\<rparr>"

lemma action_request_same_origin: "sameOriginJSONRequest action_http_request ''X-WeChatCopilot-Action'' ''user-confirmed''"
proof -
  have "fold_case (TrimSpace (takeWhile (\<lambda>c. c \<noteq> CHR '';'') ''application/json'')) = ''application/json''" by code_simp
  then show ?thesis by (simp add: sameOriginJSONRequest_def action_http_request_def del: takeWhile.simps)
qed

abbreviation demo_consumed :: "http_reply \<times> entry" where
  "demo_consumed \<equiv> handleAction (\<lambda>_. 2 * second) True (Inr login_screen) (Some (ErrConsumed (ErrFailure FailureStale ''late'')))
     (\<lambda>_ e. e) action_http_request (JsonValue (''accept#1'', True)) TrailingEOF demo_entry"

theorem consumed_action_reported_retryable_witness:
  "fst demo_consumed = HttpActionFailure StatusConflict ''PAGE_CHANGED'' True \<and>
     demo_action \<notin> set (availableAuthActionsLocked login_screen (snd demo_consumed))"
proof -
  have post: "rq_Method action_http_request = ''POST''" by (simp add: action_http_request_def)
  have reply: "fst demo_consumed = HttpActionFailure StatusConflict ''PAGE_CHANGED'' True"
    by (simp add: handleAction_def post action_request_same_origin demo_trim performAuthAction_def action_failure_def errors_Is_def
        action_select_def action_begin_def action_reserve_def writeClassifiedAuthActionFailure_def ClassifyFailure_def
        errors_As_def authActionReplayKey_def replay_matches_def maxAuthActionAttemptsPerAction_def
        maxAuthActionAttemptsPerChallenge_def less_eq_char_def demo_simps Let_def)
  then have "demo_consumed = (HttpActionFailure StatusConflict ''PAGE_CHANGED'' True, snd demo_consumed)"
    by (simp add: prod_eq_iff)
  from consumed_action_reported_retryable [OF this]
  have "\<forall>a \<in> set (availableAuthActionsLocked login_screen (snd demo_consumed)). aa_ID a \<noteq> TrimSpace ''accept#1''" by blast
  moreover have "aa_ID demo_action = TrimSpace ''accept#1''" by (simp add: demo_trim demo_action_def)
  ultimately show ?thesis using reply by metis
qed


text \<open>The handlers are made of the sections of the transition system: a request to perform an
  action that is not interrupted takes the entry along a run of it and ends with no pending phase.
  It calls the driver at most once, reports the driver's answer if it did, and reports success only
  if the driver did.\<close>

theorem performAuthAction_runs:
  "\<exists>events. auth_step\<^sup>*\<^sup>* (world_of e es)
       (world_of (snd (performAuthAction now actor snapshot answer (\<lambda>_ x. x) requested confirmed e)) (es @ events)) \<and>
     action_events (fst (performAuthAction now actor snapshot answer (\<lambda>_ x. x) requested confirmed e)) (TrimSpace requested) events"
    (is "\<exists>events. ?P events")
proof -
  let ?i = "TrimSpace requested"
  have runs: "auth_step\<^sup>*\<^sup>* w1 w3" if "auth_step w1 w2" "auth_step\<^sup>*\<^sup>* w2 w3" for w1 w2 w3
    using that by (rule converse_rtranclp_into_rtranclp)
  obtain b e1 where opened: "action_begin (now 0) ?i confirmed e = (b, e1)" by fastforce
  show ?thesis
  proof (cases b)
    case (Some err)
    then have "?P []" using opened
      by (auto simp: performAuthAction_def action_begin_def action_events_def Let_def split: if_splits)
    then show ?thesis by blast
  next
    case None
    note first = action_sections(1) [OF opened [unfolded None]]
    show ?thesis
    proof (cases "action_select actor snapshot ?i")
      case (Inl err)
      have "auth_step\<^sup>*\<^sup>* (action_world e [] es) (action_world (action_end e1) [] es)"
        by (rule runs [OF first runs [OF action_sections(2) [OF Inl] runs [OF action_sections(6)]]]) simp
      then have "?P []" using opened None Inl
        by (simp add: performAuthAction_def action_events_def world_of_action Let_def)
      then show ?thesis by blast
    next
      case (Inr key)
      obtain r e2 where res: "action_reserve (now 1) ?i key e1 = (r, e2)" by fastforce
      show ?thesis
      proof (cases r)
        case (Some err)
        have "auth_step\<^sup>*\<^sup>* (action_world e [] es) (action_world (action_end e2) [] es)"
          by (rule runs [OF first runs [OF action_sections(3) [OF Inr res [unfolded Some]] runs [OF action_sections(6)]]]) simp
        then have "?P []" using opened None Inr res Some
          by (simp add: performAuthAction_def action_events_def world_of_action Let_def)
        then show ?thesis by blast
      next
        case r: None
        have "auth_step\<^sup>*\<^sup>* (action_world e [] es) (action_world (action_end (action_settle answer ?i key e2)) []
            ((es @ [Performed ?i key]) @ [Answered ?i key answer]))"
          by (rule runs [OF first runs [OF action_sections(4) [OF Inr res [unfolded r]]
                runs [OF action_sections(5) [where answer = answer] runs [OF action_sections(6)]]]]) simp
        then have "?P [Performed ?i key, Answered ?i key answer]" using opened None Inr res r
          by (simp add: performAuthAction_def action_events_def world_of_action Let_def)
        then show ?thesis by blast
      qed
    qed
  qed
qed

end
