(* ===== verification/Service_Auth.thy ===== *)
theory Service_Auth
  imports Send_Service Auth_Server
begin

text \<open>
  The authentication operations of \<^verbatim>\<open>internal/service/service.go\<close>, which connect the runtime manager
  with the login server: the account is activated if it does not run, then a challenge is opened
  for its driver.
\<close>

record auth_service =
  au_service :: Service
  au_auth :: auth_manager

definition lan_failure :: "string \<Rightarrow> go_error \<Rightarrow> go_error" where
  "lan_failure message err =
     (if errors_Is err (ErrSentinel AuthErrInvalidLANAddress)
      then WrapError StatusBadRequest CodeInvalidArgument ''invalid LAN login address'' err
      else WrapError StatusInternalServerError CodeInternal message err)"

text \<open>Opening the challenge, once the driver is known.\<close>

definition open_challenge ::
  "auth_env \<Rightarrow> string \<Rightarrow> bool \<Rightarrow> string \<Rightarrow> auth_service \<Rightarrow> Challenge result \<times> auth_service"
where
  "open_challenge aenv accountID lan lanAddress a =
     (case auth_Begin aenv accountID True lan lanAddress (au_auth a) of
        (r, am) \<Rightarrow>
          (case r of Inl err \<Rightarrow> Inl (lan_failure ''cannot start authentication challenge'' err) | Inr c \<Rightarrow> Inr c,
           a\<lparr>au_auth := am\<rparr>))"

text \<open>
  The address is resolved twice, before the account is touched and again when the challenge is
  opened; \<open>host\<close> answers the first time and the environment of the login server the second time.
\<close>

definition BeginAuth ::
  "service_env \<Rightarrow> host_env \<Rightarrow> auth_env \<Rightarrow> string \<Rightarrow> bool \<Rightarrow> string \<Rightarrow> auth_service \<Rightarrow> Challenge result \<times> auth_service"
where
  "BeginAuth env host aenv v lan lanAddress a =
     (case ResolveLANAddress host lan lanAddress of
        Inl err \<Rightarrow> (Inl (lan_failure ''cannot inspect LAN interfaces'' err), a)
      | Inr resolvedLANAddress \<Rightarrow>
          (case Driver v (sv_runtimes (au_service a)) of
             Inr (item, rid) \<Rightarrow> open_challenge aenv (acc_ID item) lan resolvedLANAddress a
           | Inl _ \<Rightarrow>
               (case service_Activate env v (au_service a) of
                  (Inl err, s) \<Rightarrow> (Inl err, a\<lparr>au_service := s\<rparr>)
                | (Inr _, s) \<Rightarrow>
                    let a1 = a\<lparr>au_service := s\<rparr>
                    in case Driver v (sv_runtimes s) of
                        Inr (item, rid) \<Rightarrow> open_challenge aenv (acc_ID item) lan resolvedLANAddress a1
                      | Inl (err, _) \<Rightarrow>
                          (Inl (WrapError StatusServiceUnavailable CodeDriverUnavailable ''account driver is unavailable'' err), a1))))"

definition challenge_missing :: go_error where
  "challenge_missing = NewError StatusNotFound CodeAuthExpired ''authentication challenge not found or expired''"

definition AuthStatus :: "time \<Rightarrow> string \<Rightarrow> auth_service \<Rightarrow> Challenge result \<times> auth_service" where
  "AuthStatus now cid a =
     (case auth_Status now cid (au_auth a) of
        (r, am) \<Rightarrow>
          (case r of
             Inl err \<Rightarrow> Inl (if errors_Is err (ErrSentinel OsErrNotExist) then challenge_missing else err)
           | Inr c \<Rightarrow> Inr c, a\<lparr>au_auth := am\<rparr>))"

definition SubmitAuthCode ::
  "time \<Rightarrow> AuthSnapshot result \<Rightarrow> (string \<Rightarrow> go_error option) \<Rightarrow> (entry \<Rightarrow> entry) \<Rightarrow> string \<Rightarrow> string \<Rightarrow>
     auth_service \<Rightarrow> go_error option \<times> auth_service"
where
  "SubmitAuthCode now snapshot submit between cid code a =
     (case auth_SubmitCode now snapshot submit between cid code (au_auth a) of
        (r, am) \<Rightarrow>
          (case r of
             None \<Rightarrow> None
           | Some err \<Rightarrow>
               if errors_Is err (ErrSentinel OsErrNotExist) then Some challenge_missing
               else case classifiedDriverError (Some err) of
                   Some classified \<Rightarrow> Some classified
                 | None \<Rightarrow> Some (WrapError StatusBadRequest CodeInvalidArgument ''verification code was rejected'' err),
           a\<lparr>au_auth := am\<rparr>))"

text \<open>
  A login is opened only for the account that the value names, with its driver running, and only
  after its LAN address was accepted.
\<close>

lemma BeginAuth_opens_running_account:
  assumes "BeginAuth env host aenv v lan lanAddress a = (Inr challenge, a')"
  shows "(\<exists>item rid. Driver v (sv_runtimes (au_service a')) = Inr (item, rid) \<and> ch_AccountID challenge = acc_ID item) \<and>
    (\<exists>address. ResolveLANAddress host lan lanAddress = Inr address)"
proof -
  have account: "ch_AccountID challenge = acc \<and> au_service a' = au_service x"
    if "open_challenge aenv acc lan r x = (Inr challenge, a')" for acc r x
    using that by (auto simp: open_challenge_def auth_Begin_def begin_item_def new_entry_def observeAuthSnapshotLocked_def
        markCompletedLocked_def Let_def split: prod.splits sum.splits option.splits if_splits)
  obtain address where address: "ResolveLANAddress host lan lanAddress = Inr address"
    using assms by (cases "ResolveLANAddress host lan lanAddress") (auto simp: BeginAuth_def)
  show ?thesis
  proof (cases "Driver v (sv_runtimes (au_service a))")
    case (Inr x)
    then show ?thesis using assms address account by (cases x) (auto simp: BeginAuth_def)
  next
    case (Inl x)
    then obtain acc s item rid where "service_Activate env v (au_service a) = (Inr acc, s)"
      "Driver v (sv_runtimes s) = Inr (item, rid)"
      "open_challenge aenv (acc_ID item) lan address (a\<lparr>au_service := s\<rparr>) = (Inr challenge, a')"
      using assms address by (auto simp: BeginAuth_def Let_def split: prod.splits sum.splits)
    then show ?thesis using address account by fastforce
  qed
qed

end
