(* ===== verification/WeChat_Profile.thy ===== *)
theory WeChat_Profile
  imports Account_Store Go_Text
begin

text \<open>
  The isolated client profiles of \<^verbatim>\<open>internal/driver/wechat/profile.go\<close>: resolution of a path through
  symbolic links, refusal of the operator's own client directory, and the persistent identity of a
  profile. The file system answers through the environment; the metadata and the machine
  identifier of a profile are its state.
\<close>

section \<open>Paths\<close>

text \<open>
  The nearest existing parent is resolved and the missing components are appended. \<open>up\<close> holds the
  components of the candidate, the last one first, and \<open>missing\<close> those below it, the first one first.
\<close>

fun resolve_nearest :: "(string \<Rightarrow> string result) \<Rightarrow> string \<Rightarrow> string list \<Rightarrow> string list \<Rightarrow> string result" where
  "resolve_nearest eval whole [] missing =
     (case eval ''/'' of
        Inr found \<Rightarrow> Inr (Clean (fold (\<lambda>w path. Join [path, w]) missing found))
      | Inl err \<Rightarrow> if errors_Is err (ErrSentinel OsErrNotExist) then Inr whole else Inl err)"
| "resolve_nearest eval whole (w # ws) missing =
     (case eval (slash # join_slash (rev (w # ws))) of
        Inr found \<Rightarrow> Inr (Clean (fold (\<lambda>w path. Join [path, w]) missing found))
      | Inl err \<Rightarrow>
          if errors_Is err (ErrSentinel OsErrNotExist) then resolve_nearest eval whole ws (w # missing) else Inl err)"

text \<open>\<open>cwd\<close> is the working directory, or the error that \<^verbatim>\<open>filepath.Abs\<close> reports for it.\<close>

definition Abs :: "string result \<Rightarrow> string \<Rightarrow> string result" where
  "Abs cwd path = (if IsAbs path then Inr (Clean path) else map_sum (\<lambda>e. e) (\<lambda>dir. Join [dir, path]) cwd)"

definition cleanAbsolute :: "string result \<Rightarrow> (string \<Rightarrow> string result) \<Rightarrow> string \<Rightarrow> string result" where
  "cleanAbsolute cwd eval path =
     (if path = [] then Inl (ErrNew ''empty path'')
      else case Abs cwd (Clean path) of
          Inl err \<Rightarrow> Inl err
        | Inr whole \<Rightarrow> resolve_nearest eval whole (rev (clean_parts whole)) [])"

definition pathWithin :: "string \<Rightarrow> string \<Rightarrow> bool" where
  "pathWithin candidate parent =
     (case Rel parent candidate of
        None \<Rightarrow> False
      | Some rel \<Rightarrow> rel \<noteq> ''..'' \<and> \<not> HasPrefix rel ''../'')"

section \<open>Profiles\<close>

record Profile =
  pf_AccountID :: string
  pf_Alias :: string
  pf_Root :: string
  pf_ClientHome :: string
  pf_Files :: string
  pf_Runtime :: string
  pf_MachineID :: string
  pf_Hostname :: string

record profileMetadata =
  pm_SchemaVersion :: int
  pm_AccountID :: string
  pm_Alias :: string
  pm_MachineID :: string
  pm_Hostname :: string
  pm_CreatedAt :: time

definition profileSchemaVersion :: int where "profileSchemaVersion = 1"

text \<open>
  The files of a profile directory. \<open>Some (Inl err)\<close> is metadata that is there but cannot be read or
  decoded; a machine identifier that cannot be read privately likewise.
\<close>

record profile_disk =
  pd_metadata :: "profileMetadata result option"
  pd_machine :: "string result option"

record profile_env =
  px_protected :: "string list"
  px_home :: "string option"
  px_cwd :: "string result"
  px_EvalSymlinks :: "string \<Rightarrow> string result"
  px_ensureDir :: "string \<Rightarrow> go_error option"
  px_random :: "8 word list result"
  px_now :: time
  px_writeMetadata :: "go_error option"
  px_createMachine :: "go_error option"
  px_writeMachine :: "(go_error \<times> string) option"
  px_sha256 :: "string \<Rightarrow> 8 word list"

definition wx_accountIDPattern :: "string \<Rightarrow> bool" where
  "wx_accountIDPattern s =
     (case s of
        [] \<Rightarrow> False
      | c # cs \<Rightarrow> (is_upper c \<or> is_lower c \<or> is_digit c) \<and>
          match_bounded (\<lambda>x. is_upper x \<or> is_lower x \<or> is_digit x \<or> x \<in> {CHR ''.'', CHR ''_'', CHR ''-''}) 0 127 cs)"

definition hostnameFor :: "(string \<Rightarrow> 8 word list) \<Rightarrow> string \<Rightarrow> string" where
  "hostnameFor sha256 accountID = ''wx-'' @ EncodeToString (take 6 (sha256 accountID))"

definition randomMachineID :: "8 word list result \<Rightarrow> string result" where
  "randomMachineID random = map_sum (\<lambda>e. ErrWrapf ''generate stable machine id: '' e []) EncodeToString random"

definition protected_paths :: "profile_env \<Rightarrow> string list" where
  "protected_paths env =
     px_protected env @ (case px_home env of Some home \<Rightarrow> if home \<noteq> [] then [Join [home, ''.xwechat'']] else [] | None \<Rightarrow> [])"

fun reject_each :: "profile_env \<Rightarrow> string \<Rightarrow> string list \<Rightarrow> go_error option" where
  "reject_each env targ [] = None"
| "reject_each env targ (raw # rest) =
     (case cleanAbsolute (px_cwd env) (px_EvalSymlinks env) raw of
        Inl err \<Rightarrow> reject_each env targ rest
      | Inr path \<Rightarrow>
          if pathWithin targ path \<or> pathWithin path targ
          then Some (ErrNew (''refusing to use protected client path '' @ quoted path))
          else reject_each env targ rest)"

definition rejectProtected :: "profile_env \<Rightarrow> string \<Rightarrow> go_error option" where
  "rejectProtected env targ = reject_each env targ (protected_paths env)"

fun ensure_dirs :: "profile_env \<Rightarrow> string list \<Rightarrow> go_error option" where
  "ensure_dirs env [] = None"
| "ensure_dirs env (path # paths) =
     (case px_ensureDir env path of Some err \<Rightarrow> Some err | None \<Rightarrow> ensure_dirs env paths)"

text \<open>What \<^verbatim>\<open>ensurePrivateDirectory\<close> does, given the answers of \<^verbatim>\<open>Lstat\<close>, \<^verbatim>\<open>MkdirAll\<close> and \<^verbatim>\<open>Chmod\<close>: a node is
  a pair of whether it is a real directory and whether others can access it.\<close>

definition ensurePrivateDirectory ::
  "(bool \<times> bool) result \<Rightarrow> go_error option \<Rightarrow> (bool \<times> bool) result \<Rightarrow> go_error option \<Rightarrow> string \<Rightarrow> go_error option"
where
  "ensurePrivateDirectory lstat mkdir lstat2 chmod path =
     (let check = (\<lambda>info. case info of
            Inl err \<Rightarrow> Some err
          | Inr (directory, exposed) \<Rightarrow>
              if \<not> directory then Some (ErrNew (''profile path '' @ quoted path @ '' must be a real directory''))
              else if exposed then map_option (\<lambda>e. ErrWrapf (''secure directory '' @ quoted path @ '': '') e []) chmod
              else None)
      in case lstat of
          Inl err \<Rightarrow>
            if errors_Is err (ErrSentinel OsErrNotExist)
            then (case mkdir of
                    Some e \<Rightarrow> Some (ErrWrapf (''create private directory '' @ quoted path @ '': '') e [])
                  | None \<Rightarrow> check lstat2)
            else Some err
        | Inr info \<Rightarrow> check (Inr info))"

definition profile_of :: "profile_env \<Rightarrow> AccountRuntime \<Rightarrow> string \<Rightarrow> string \<Rightarrow> Profile" where
  "profile_of env account stateRoot runtimeRoot =
     \<lparr>pf_AccountID = ar_AccountID account, pf_Alias = ar_Alias account, pf_Root = stateRoot,
      pf_ClientHome = Join [stateRoot, ''client-home''], pf_Files = Join [stateRoot, ''client-files''],
      pf_Runtime = runtimeRoot, pf_MachineID = [], pf_Hostname = hostnameFor (px_sha256 env) (ar_AccountID account)\<rparr>"

text \<open>The metadata that is there, or freshly written.\<close>

definition load_metadata ::
  "profile_env \<Rightarrow> AccountRuntime \<Rightarrow> Profile \<Rightarrow> profile_disk \<Rightarrow> profileMetadata result \<times> profile_disk"
where
  "load_metadata env account profile disk =
     (case pd_metadata disk of
        Some r \<Rightarrow> (r, disk)
      | None \<Rightarrow>
          (case randomMachineID (px_random env) of
             Inl err \<Rightarrow> (Inl err, disk)
           | Inr machineID \<Rightarrow>
               let metadata = \<lparr>pm_SchemaVersion = profileSchemaVersion, pm_AccountID = ar_AccountID account,
                     pm_Alias = ar_Alias account, pm_MachineID = machineID, pm_Hostname = pf_Hostname profile,
                     pm_CreatedAt = px_now env\<rparr>
               in case px_writeMetadata env of
                   Some err \<Rightarrow> (Inl err, disk)
                 | None \<Rightarrow> (Inr metadata, disk\<lparr>pd_metadata := Some (Inr metadata)\<rparr>)))"

text \<open>
  \<^verbatim>\<open>writeIfMissing\<close>: an existing file is kept. A write, sync or close that fails leaves the file that was
  created, with what had been written of it, the second component of \<open>px_writeMachine\<close>.
\<close>

definition write_machine :: "profile_env \<Rightarrow> string \<Rightarrow> profile_disk \<Rightarrow> go_error option \<times> profile_disk" where
  "write_machine env data disk =
     (case pd_machine disk of
        Some x \<Rightarrow> (None, disk)
      | None \<Rightarrow>
          (case px_createMachine env of
             Some err \<Rightarrow> (Some err, disk)
           | None \<Rightarrow>
               (case px_writeMachine env of
                  Some (err, written) \<Rightarrow> (Some err, disk\<lparr>pd_machine := Some (Inr written)\<rparr>)
                | None \<Rightarrow> (None, disk\<lparr>pd_machine := Some (Inr data)\<rparr>))))"

definition bind_machine :: "profile_env \<Rightarrow> profileMetadata \<Rightarrow> Profile \<Rightarrow> profile_disk \<Rightarrow> Profile result \<times> profile_disk" where
  "bind_machine env metadata profile disk =
     (let expected = pm_MachineID metadata @ [CHR 0x0A]
      in case write_machine env expected disk of
          (Some err, disk1) \<Rightarrow> (Inl err, disk1)
        | (None, disk1) \<Rightarrow>
            (case pd_machine disk1 of
               None \<Rightarrow> (Inl (ErrSentinel OsErrNotExist), disk1)
             | Some (Inl err) \<Rightarrow> (Inl err, disk1)
             | Some (Inr stored) \<Rightarrow>
                 if stored \<noteq> expected
                 then (Inl (ErrNew ''profile machine-id does not match profile metadata''), disk1)
                 else (Inr (profile\<lparr>pf_MachineID := pm_MachineID metadata, pf_Hostname := pm_Hostname metadata\<rparr>), disk1)))"

definition profile_roots :: "profile_env \<Rightarrow> AccountRuntime \<Rightarrow> (string \<times> string) result" where
  "profile_roots env account =
     (let resolve = cleanAbsolute (px_cwd env) (px_EvalSymlinks env)
      in if \<not> wx_accountIDPattern (ar_AccountID account)
         then Inl (ErrNew (''invalid account id '' @ quoted (ar_AccountID account)))
         else if TrimSpace (ar_Alias account) = [] then Inl (ErrNew ''account alias is required'')
         else if \<not> IsAbs (ar_StateDir account) \<or> \<not> IsAbs (ar_RuntimeDir account)
         then Inl (ErrNew ''account state_dir and runtime_dir must be absolute'')
         else case resolve (ar_StateDir account) of
             Inl err \<Rightarrow> Inl (ErrWrapf ''resolve state directory: '' err [])
           | Inr stateRoot \<Rightarrow>
               (case resolve (ar_RuntimeDir account) of
                  Inl err \<Rightarrow> Inl (ErrWrapf ''resolve runtime directory: '' err [])
                | Inr runtimeRoot \<Rightarrow>
                    (case rejectProtected env stateRoot of
                       Some err \<Rightarrow> Inl err
                     | None \<Rightarrow>
                         (case rejectProtected env runtimeRoot of
                            Some err \<Rightarrow> Inl err
                          | None \<Rightarrow> Inr (stateRoot, runtimeRoot)))))"

definition Ensure :: "profile_env \<Rightarrow> AccountRuntime \<Rightarrow> profile_disk \<Rightarrow> Profile result \<times> profile_disk" where
  "Ensure env account disk =
     (case profile_roots env account of
        Inl err \<Rightarrow> (Inl err, disk)
      | Inr (stateRoot, runtimeRoot) \<Rightarrow>
          let profile = profile_of env account stateRoot runtimeRoot
          in case ensure_dirs env [pf_Root profile, pf_ClientHome profile, pf_Files profile, pf_Runtime profile] of
              Some err \<Rightarrow> (Inl err, disk)
            | None \<Rightarrow>
                (case load_metadata env account profile disk of
                   (Inl err, disk1) \<Rightarrow> (Inl err, disk1)
                 | (Inr metadata, disk1) \<Rightarrow>
                     if pm_SchemaVersion metadata \<noteq> profileSchemaVersion \<or> pm_AccountID metadata \<noteq> ar_AccountID account
                     then (Inl (ErrNew (''profile metadata does not belong to account '' @ quoted (ar_AccountID account))), disk1)
                     else bind_machine env metadata profile disk1))"

section \<open>Nested paths\<close>

lemma drop_common_split:
  "drop_common bs ts = (bs', ts') \<Longrightarrow> \<exists>ws. bs = ws @ bs' \<and> ts = ws @ ts'"
proof (induction bs ts rule: drop_common.induct)
  case (1 b bs t ts)
  show ?case
  proof (cases "b = t")
    case True
    then obtain ws where "bs = ws @ bs'" "ts = ws @ ts'" using 1 by auto
    then show ?thesis using True by (intro exI [of _ "t # ws"]) simp
  qed (use 1 in simp)
qed auto

lemma absolute_no_dots: "IsAbs s \<Longrightarrow> ''..'' \<notin> set (clean_parts s)"
  using clean_parts_resolved [of s] by (auto simp: resolved_def)

lemma join_slash_dots:
  "ws \<noteq> [] \<Longrightarrow> hd ws = ''..'' \<Longrightarrow> join_slash ws = ''..'' \<or> HasPrefix (join_slash ws) ''../''"
  by (cases ws rule: join_slash.cases) (auto simp: HasPrefix_def)

lemma join_slash_no_dots:
  assumes "ws \<noteq> []" and "hd ws \<noteq> ''..''" and "list_all (\<lambda>w. slash \<notin> set w) ws"
  shows "join_slash ws \<noteq> ''..'' \<and> \<not> HasPrefix (join_slash ws) ''../''"
proof -
  have split: "split_slash (join_slash ws) = ws" using assms by (simp add: split_join_slash)
  have "join_slash ws \<noteq> ''..''"
  proof
    assume "join_slash ws = ''..''"
    then have "ws = [''..'']" using split by simp
    then show False using assms(2) by simp
  qed
  moreover have "\<not> HasPrefix (join_slash ws) ''../''"
  proof
    assume "HasPrefix (join_slash ws) ''../''"
    then obtain s where "join_slash ws = ''..'' @ slash # s"
      unfolding HasPrefix_def by (metis append_Cons append_Nil append_assoc append_take_drop_id)
    then have "ws = ''..'' # split_slash s" using split split_slash_append [of "''..''" s] by simp
    then show False using assms(2) by simp
  qed
  ultimately show ?thesis by blast
qed

lemma pathWithin_iff:
  assumes "IsAbs candidate" and "IsAbs parent"
  shows "pathWithin candidate parent \<longleftrightarrow> (\<exists>ws. clean_parts candidate = clean_parts parent @ ws)"
proof (cases "Clean parent = Clean candidate")
  case True
  then have "clean_parts parent = clean_parts candidate" by (metis clean_parts_Clean)
  then show ?thesis using True by (simp add: pathWithin_def Rel_def HasPrefix_def)
next
  case False
  obtain bs ts where dc: "drop_common (clean_parts parent) (clean_parts candidate) = (bs, ts)" by fastforce
  obtain ws where ws: "clean_parts parent = ws @ bs" "clean_parts candidate = ws @ ts" using drop_common_split [OF dc] by blast
  have nodots: "''..'' \<notin> set bs" "''..'' \<notin> set ts"
    using absolute_no_dots [OF assms(1)] absolute_no_dots [OF assms(2)] ws by auto
  have "bs = [] \<or> hd bs \<noteq> ''..''" using nodots by (cases bs) auto
  then have rel: "Rel parent candidate = Some (join_slash (map (\<lambda>_. ''..'') bs @ ts))"
    using False assms dc by (auto simp: Rel_def)
  show ?thesis
  proof (cases "bs = []")
    case True
    have "clean_parts parent \<noteq> clean_parts candidate" using False assms by (auto simp: Clean_def)
    then have ts: "ts \<noteq> []" using ws True by simp
    moreover have "list_all (\<lambda>w. slash \<notin> set w) ts"
      using clean_parts_ok [of candidate] ws by (auto simp: list_all_iff)
    ultimately have "join_slash ts \<noteq> ''..'' \<and> \<not> HasPrefix (join_slash ts) ''../''"
      using nodots by (intro join_slash_no_dots) (auto dest: hd_in_set simp del: hd_in_set)
    then show ?thesis using rel True ws by (auto simp: pathWithin_def)
  next
    case bs: False
    have "\<not> pathWithin candidate parent"
      using rel bs join_slash_dots [of "map (\<lambda>_. ''..'') bs @ ts"] by (cases bs) (auto simp: pathWithin_def)
    moreover have "clean_parts candidate \<noteq> clean_parts parent @ us" for us
    proof
      assume "clean_parts candidate = clean_parts parent @ us"
      then have "drop_common (clean_parts parent) (clean_parts candidate) = ([], us)" by (simp add: drop_common_prefix)
      then show False using dc bs by simp
    qed
    ultimately show ?thesis by blast
  qed
qed


section \<open>Properties\<close>

lemma IsAbs_slash: "IsAbs (slash # s)"
  by (simp add: IsAbs_def)

lemma IsAbs_Join: "IsAbs p \<Longrightarrow> IsAbs (Join [p, q])"
  by (cases p) (auto simp: Join_def IsAbs_def Clean_def)

lemma Abs_absolute: "Abs cwd path = Inr p \<Longrightarrow> (\<And>dir. cwd = Inr dir \<Longrightarrow> IsAbs dir) \<Longrightarrow> IsAbs p"
proof (cases "IsAbs path")
  case False
  assume "Abs cwd path = Inr p" and cwd: "\<And>dir. cwd = Inr dir \<Longrightarrow> IsAbs dir"
  then obtain dir where "cwd = Inr dir" "p = Join [dir, path]" using False by (cases cwd) (auto simp: Abs_def)
  then show ?thesis using cwd IsAbs_Join by simp
qed (auto simp: Abs_def)

lemma fold_Join_absolute: "IsAbs p \<Longrightarrow> IsAbs (fold (\<lambda>w path. Join [path, w]) ws p)"
  by (induction ws arbitrary: p) (simp_all add: IsAbs_Join)

lemma resolve_nearest_absolute:
  assumes "\<And>q r. IsAbs q \<Longrightarrow> eval q = Inr r \<Longrightarrow> IsAbs r"
  shows "resolve_nearest eval whole up missing = Inr p \<Longrightarrow> IsAbs whole \<Longrightarrow> IsAbs p"
proof (induction up arbitrary: missing)
  case Nil
  then show ?case using assms [of "''/''"] by (auto split: sum.splits if_splits simp: IsAbs_slash fold_Join_absolute)
next
  case (Cons w ws)
  then show ?case using assms [of "slash # join_slash (rev (w # ws))"]
    by (auto split: sum.splits if_splits simp: IsAbs_slash fold_Join_absolute)
qed

lemma cleanAbsolute_absolute:
  assumes "\<And>q r. IsAbs q \<Longrightarrow> eval q = Inr r \<Longrightarrow> IsAbs r" and "\<And>dir. cwd = Inr dir \<Longrightarrow> IsAbs dir"
    and "cleanAbsolute cwd eval path = Inr p"
  shows "IsAbs p"
  using assms(3) resolve_nearest_absolute [of eval, OF assms(1)] Abs_absolute [of cwd, OF _ assms(2)]
  by (auto simp: cleanAbsolute_def split: if_splits sum.splits)

lemma profile_roots_sound:
  assumes "profile_roots env account = Inr (stateRoot, runtimeRoot)"
  shows "cleanAbsolute (px_cwd env) (px_EvalSymlinks env) (ar_StateDir account) = Inr stateRoot"
    and "cleanAbsolute (px_cwd env) (px_EvalSymlinks env) (ar_RuntimeDir account) = Inr runtimeRoot"
    and "rejectProtected env stateRoot = None" and "rejectProtected env runtimeRoot = None"
  using assms by (auto simp: profile_roots_def Let_def split: if_splits sum.splits option.splits)

lemma reject_each_sound:
  "reject_each env targ raws = None \<Longrightarrow> raw \<in> set raws \<Longrightarrow>
     cleanAbsolute (px_cwd env) (px_EvalSymlinks env) raw = Inr path \<Longrightarrow> \<not> pathWithin targ path \<and> \<not> pathWithin path targ"
  by (induction raws) (auto split: sum.splits if_splits)

lemma Ensure_cases:
  assumes "Ensure env account disk = (Inr profile, disk')"
  obtains stateRoot runtimeRoot metadata disk1 where
    "profile_roots env account = Inr (stateRoot, runtimeRoot)"
    "load_metadata env account (profile_of env account stateRoot runtimeRoot) disk = (Inr metadata, disk1)"
    "pm_SchemaVersion metadata = profileSchemaVersion" "pm_AccountID metadata = ar_AccountID account"
    "bind_machine env metadata (profile_of env account stateRoot runtimeRoot) disk1 = (Inr profile, disk')"
  using assms by (auto simp: Ensure_def Let_def split: sum.splits prod.splits option.splits if_splits)

lemma bind_machine_fields:
  assumes "bind_machine env metadata profile disk = (Inr profile', disk')"
  shows "profile' = profile\<lparr>pf_MachineID := pm_MachineID metadata, pf_Hostname := pm_Hostname metadata\<rparr>"
    and "pd_metadata disk' = pd_metadata disk" and "pd_machine disk' = Some (Inr (pm_MachineID metadata @ [CHR 0x0A]))"
  using assms by (auto simp: bind_machine_def write_machine_def Let_def split: option.splits sum.splits if_splits prod.splits)

lemma load_metadata_kept:
  "load_metadata env account profile disk = (Inr metadata, disk') \<Longrightarrow> pd_metadata disk' = Some (Inr metadata)"
  by (auto simp: load_metadata_def Let_def split: option.splits sum.splits)


text \<open>C18. A client profile never touches the operator's own client: when the profile of an account is
  accepted, neither its state directory nor its runtime directory is, lies below or lies above a
  protected path, after symbolic links are resolved on both sides (the working directory and the
  resolved paths being absolute, as the system reports them).\<close>

theorem profile_avoids_protected:
  assumes "Ensure env account disk = (Inr profile, disk')"
    and "\<And>q r. IsAbs q \<Longrightarrow> px_EvalSymlinks env q = Inr r \<Longrightarrow> IsAbs r" and "\<And>dir. px_cwd env = Inr dir \<Longrightarrow> IsAbs dir"
    and "raw \<in> set (protected_paths env)" and "cleanAbsolute (px_cwd env) (px_EvalSymlinks env) raw = Inr path"
    and "dir \<in> {pf_Root profile, pf_Runtime profile}"
  shows "\<not> (\<exists>ws. clean_parts dir = clean_parts path @ ws) \<and> \<not> (\<exists>ws. clean_parts path = clean_parts dir @ ws)"
proof -
  from assms(1) obtain stateRoot runtimeRoot metadata disk1
    where roots: "profile_roots env account = Inr (stateRoot, runtimeRoot)"
      and bound: "bind_machine env metadata (profile_of env account stateRoot runtimeRoot) disk1 = (Inr profile, disk')"
    by (rule Ensure_cases)
  have "pf_Root profile = stateRoot" "pf_Runtime profile = runtimeRoot"
    using bind_machine_fields(1) [OF bound] by (simp_all add: profile_of_def)
  then have "dir = stateRoot \<or> dir = runtimeRoot" using assms(6) by simp
  then have free: "rejectProtected env dir = None" and abs: "IsAbs dir"
    using profile_roots_sound [OF roots] cleanAbsolute_absolute [OF assms(2,3)] by auto
  have "IsAbs path" using cleanAbsolute_absolute [OF assms(2,3) assms(5)] .
  then show ?thesis
    using reject_each_sound [OF free [unfolded rejectProtected_def] assms(4,5)] pathWithin_iff abs by simp
qed

text \<open>C19. The identity that an account's client presents is stable: once a profile was accepted, every
  later acceptance of the same directory is for the same account and gives the same machine
  identifier and host name, and changes nothing on disk.\<close>

theorem profile_identity_stable:
  assumes "Ensure env account disk = (Inr profile, disk')" and "Ensure env' account' disk' = (Inr profile', disk'')"
  shows "pf_MachineID profile' = pf_MachineID profile \<and> pf_Hostname profile' = pf_Hostname profile \<and>
    ar_AccountID account' = ar_AccountID account \<and> disk'' = disk'"
proof -
  from assms(1) obtain s1 r1 metadata disk1
    where m1: "load_metadata env account (profile_of env account s1 r1) disk = (Inr metadata, disk1)"
      and a1: "pm_AccountID metadata = ar_AccountID account"
      and b1: "bind_machine env metadata (profile_of env account s1 r1) disk1 = (Inr profile, disk')"
    by (rule Ensure_cases)
  have meta: "pd_metadata disk' = Some (Inr metadata)" and machine: "pd_machine disk' = Some (Inr (pm_MachineID metadata @ [CHR 0x0A]))"
    using load_metadata_kept [OF m1] bind_machine_fields [OF b1] by simp_all
  from assms(2) obtain s2 r2 metadata2 disk2
    where m2: "load_metadata env' account' (profile_of env' account' s2 r2) disk' = (Inr metadata2, disk2)"
      and a2: "pm_AccountID metadata2 = ar_AccountID account'"
      and b2: "bind_machine env' metadata2 (profile_of env' account' s2 r2) disk2 = (Inr profile', disk'')"
    by (rule Ensure_cases)
  have same: "metadata2 = metadata" "disk2 = disk'" using m2 meta by (auto simp: load_metadata_def)
  then have "disk'' = disk'" using b2 machine by (auto simp: bind_machine_def write_machine_def Let_def split: if_splits)
  then show ?thesis using bind_machine_fields(1) [OF b1] bind_machine_fields(1) [OF b2] a1 a2 same by simp
qed


definition demo_profile_env :: profile_env where
  "demo_profile_env = \<lparr>px_protected = [], px_home = Some ''/home/u'', px_cwd = Inr ''/'', px_EvalSymlinks = Inr,
     px_ensureDir = (\<lambda>_. None), px_random = Inr [1, 2], px_now = 1, px_writeMetadata = None,
     px_createMachine = None, px_writeMachine = None,
     px_sha256 = (\<lambda>_. [7])\<rparr>"

definition demo_runtime_account :: AccountRuntime where
  "demo_runtime_account = \<lparr>ar_AccountID = ''a1'', ar_Alias = ''me'', ar_StateDir = ''/s/a1'', ar_RuntimeDir = ''/r/a1''\<rparr>"

definition empty_disk :: profile_disk where
  "empty_disk = \<lparr>pd_metadata = None, pd_machine = None\<rparr>"

abbreviation demo_ensure :: "profile_disk \<Rightarrow> Profile result \<times> profile_disk" where
  "demo_ensure \<equiv> Ensure demo_profile_env demo_runtime_account"

lemma demo_ensure_ok:
  "map_sum (\<lambda>_. ()) pf_Root (fst (demo_ensure empty_disk)) = Inr ''/s/a1''"
  "map_sum (\<lambda>_. ()) pf_MachineID (fst (demo_ensure (snd (demo_ensure empty_disk)))) = Inr ''0102''"
  by code_simp+

lemma demo_ensure_profile:
  obtains profile where "demo_ensure empty_disk = (Inr profile, snd (demo_ensure empty_disk))" "pf_Root profile = ''/s/a1''"
  using demo_ensure_ok(1) by (cases "demo_ensure empty_disk"; cases "fst (demo_ensure empty_disk)") auto

theorem profile_avoids_protected_witness:
  "\<not> (\<exists>ws. clean_parts ''/s/a1'' = clean_parts ''/home/u/.xwechat'' @ ws)"
proof -
  obtain profile where p: "demo_ensure empty_disk = (Inr profile, snd (demo_ensure empty_disk))" "pf_Root profile = ''/s/a1''"
    by (rule demo_ensure_profile)
  have raw: "protected_paths demo_profile_env = [''/home/u/.xwechat'']" by code_simp
  have clean: "cleanAbsolute (px_cwd demo_profile_env) (px_EvalSymlinks demo_profile_env) ''/home/u/.xwechat'' = Inr ''/home/u/.xwechat''"
    by code_simp
  have "IsAbs r" if "IsAbs q" "px_EvalSymlinks demo_profile_env q = Inr r" for q r
    using that by (simp add: demo_profile_env_def)
  moreover have "IsAbs dir" if "px_cwd demo_profile_env = Inr dir" for dir
    using that by (auto simp: demo_profile_env_def IsAbs_def)
  ultimately show ?thesis
    using profile_avoids_protected [OF p(1) _ _ _ clean, of "''/s/a1''"] raw p(2) by simp
qed

theorem profile_identity_stable_witness:
  "\<exists>profile profile'. fst (demo_ensure empty_disk) = Inr profile \<and> fst (demo_ensure (snd (demo_ensure empty_disk))) = Inr profile' \<and>
     pf_MachineID profile = ''0102''"
proof -
  obtain profile where p: "demo_ensure empty_disk = (Inr profile, snd (demo_ensure empty_disk))"
    by (rule demo_ensure_profile)
  obtain profile' where q: "demo_ensure (snd (demo_ensure empty_disk)) = (Inr profile', snd (demo_ensure (snd (demo_ensure empty_disk))))"
    and m: "pf_MachineID profile' = ''0102''"
    using demo_ensure_ok(2) by (cases "demo_ensure (snd (demo_ensure empty_disk))"; cases "fst (demo_ensure (snd (demo_ensure empty_disk)))") auto
  show ?thesis using profile_identity_stable [OF p q] p q m by (metis fst_conv)
qed

lemma torn_profile_refused:
  assumes "pd_metadata disk = Some (Inr metadata)" and "pd_machine disk = Some (Inr stored)" and "stored \<noteq> pm_MachineID metadata @ [CHR 0x0A]"
  shows "\<exists>err. Ensure env account disk = (Inl err, disk)"
  using assms
  by (auto simp: Ensure_def load_metadata_def bind_machine_def write_machine_def Let_def split: sum.splits prod.splits option.splits)

lemma Ensure_machine:
  assumes "pd_machine disk = None" and "px_writeMachine env = Some (err, written)"
  shows "pd_machine (snd (Ensure env account disk)) \<in> {None, Some (Inr written)}"
proof -
  have kept: "pd_machine disk1 = None" if "load_metadata env account profile disk = (r, disk1)" for profile r disk1
    using that assms(1) by (auto simp: load_metadata_def Let_def split: option.splits sum.splits)
  have "pd_machine (snd (bind_machine env metadata profile disk1)) \<in> {None, Some (Inr written)}" if "pd_machine disk1 = None" for metadata profile disk1
    using that assms(2) by (auto simp: bind_machine_def write_machine_def Let_def split: option.splits)
  then show ?thesis using kept assms(1)
    by (auto simp: Ensure_def Let_def split: sum.splits prod.splits option.splits)
qed

text \<open>C20. The machine identifier is not written atomically: when the write of a new profile's identifier
  fails and leaves a truncated file, that start and every later one is refused, whatever the
  environment, and nothing repairs the file.\<close>

theorem torn_machine_id_permanent:
  assumes "pd_machine disk = None" and "px_writeMachine env = Some (err, written)" and "Ensure env account disk = (r, disk')"
    and "pd_machine disk' \<noteq> None" and "pd_metadata disk' = Some (Inr metadata)" and "written \<noteq> pm_MachineID metadata @ [CHR 0x0A]"
  shows "\<exists>err'. Ensure env' account' disk' = (Inl err', disk')"
proof -
  have "pd_machine disk' = Some (Inr written)" using Ensure_machine [OF assms(1,2), of account] assms(3,4) by simp
  then show ?thesis using torn_profile_refused [OF assms(5) _ assms(6)] by blast
qed

definition demo_torn_env :: profile_env where
  "demo_torn_env = demo_profile_env\<lparr>px_writeMachine := Some (ErrNew ''no space left on device'', [])\<rparr>"

lemma demo_torn:
  "pd_machine (snd (Ensure demo_torn_env demo_runtime_account empty_disk)) = Some (Inr [])"
  "map_option (map_sum (\<lambda>_. ()) pm_MachineID) (pd_metadata (snd (Ensure demo_torn_env demo_runtime_account empty_disk))) = Some (Inr ''0102'')"
  by code_simp+

theorem torn_machine_id_permanent_witness:
  "\<exists>err. demo_ensure (snd (Ensure demo_torn_env demo_runtime_account empty_disk)) =
     (Inl err, snd (Ensure demo_torn_env demo_runtime_account empty_disk))"
proof -
  let ?d = "snd (Ensure demo_torn_env demo_runtime_account empty_disk)"
  obtain metadata where m: "pd_metadata ?d = Some (Inr metadata)" "pm_MachineID metadata = ''0102''"
    using demo_torn(2) by (cases "pd_metadata ?d"; cases "the (pd_metadata ?d)") auto
  show ?thesis
    using torn_machine_id_permanent [of empty_disk demo_torn_env "ErrNew ''no space left on device''" "[]" demo_runtime_account
        "fst (Ensure demo_torn_env demo_runtime_account empty_disk)" ?d metadata demo_profile_env demo_runtime_account] demo_torn(1) m
    by (simp add: empty_disk_def demo_torn_env_def)
qed

end
