(* ===== verification/WeChat_Driver.thy ===== *)
theory WeChat_Driver
  imports WeChat_Profile Account_JSON
begin

text \<open>
  The driver of the personal client, \<^verbatim>\<open>internal/driver/wechat/driver.go\<close>, above its privileged backend
  and its message index, which are parameters. Every operation that changes the driver holds
  \<^verbatim>\<open>operationMu\<close> throughout, so operations are atomic here; the check that the driver is started, which
  some of them make just before they take the lock, is part of the operation. \<open>wx_log\<close> is not a field of the Go struct: it
  is the history of what was dispatched to the official client and of the snapshots taken from it.
\<close>

section \<open>Errors\<close>

definition wxErrInvalidArgument :: go_error where "wxErrInvalidArgument = ErrFailure FailureInvalidArgument ''wechat operation arguments are invalid''"
definition wxErrAuthRequired :: go_error where "wxErrAuthRequired = ErrFailure FailureAuthRequired ''wechat authentication is required''"
definition wxErrClientIncompatible :: go_error where "wxErrClientIncompatible = ErrFailure FailureClientIncompatible ''wechat client is incompatible''"
definition wxErrConversationMissing :: go_error where "wxErrConversationMissing = ErrFailure FailureNotFound ''wechat conversation was not found''"
definition wxErrTargetAmbiguous :: go_error where "wxErrTargetAmbiguous = ErrFailure FailureTargetAmbiguous ''wechat target is ambiguous''"
definition wxErrSendUncertain :: go_error where "wxErrSendUncertain = ErrFailure FailureSendUncertain ''wechat send result could not be verified''"
definition wxErrSurfaceMissing :: go_error where "wxErrSurfaceMissing = ErrFailure FailureNotFound ''wechat surface was not found''"
definition wxErrActionStale :: go_error where "wxErrActionStale = ErrFailure FailureStale ''wechat surface action is stale or unknown''"
definition wxErrAssetStale :: go_error where "wxErrAssetStale = ErrFailure FailureStale ''wechat surface asset token is stale or unknown''"
definition wxErrUnsupported :: go_error where "wxErrUnsupported = ErrFailure FailureUnsupported ''wechat capability is unsupported''"
definition wxErrConfirmationRequired :: go_error where "wxErrConfirmationRequired = ErrFailure FailureConfirmationRequired ''wechat surface action requires explicit confirmation''"
definition wxErrUserActionRequired :: go_error where "wxErrUserActionRequired = ErrFailure FailureUserActionRequired ''wechat surface action requires direct user interaction''"

abbreviation wxErrNotStarted :: go_error where "wxErrNotStarted \<equiv> ErrSentinel WeChatErrNotStarted"

definition because :: "go_error \<Rightarrow> string \<Rightarrow> go_error" where
  "because err text = ErrWrapf [] err ('': '' @ text)"

section \<open>Data\<close>

record ProbeResult =
  pb_State :: runtime_state
  pb_Identity :: "Identity option"
  pb_Reason :: string
  pb_ClientVersion :: string
  pb_AuthKind :: auth_kind
  pb_Prompt :: string
  pb_CanSubmitCode :: bool
  pb_Actions :: "AuthAction list"
  pb_ScreenshotPNG :: string
  pb_ObservedAt :: time

record UISendRequest =
  us_ConversationID :: string
  us_Title :: string
  us_Locator :: string
  us_Text :: string
  us_Attachments :: "string list"
  us_ShareLocator :: string

record SurfaceTarget =
  tg_Reference :: string
  tg_ConversationID :: string
  tg_ConversationTitle :: string
  tg_ConversationLocator :: string
  tg_AccessibleLabel :: string
  tg_Kind :: string
  tg_SurfaceLocator :: string

record BackendAction =
  ba_Action :: Action
  ba_ReplayID :: string
  ba_Locator :: string

record BackendSurface =
  bs_Kind :: string
  bs_Title :: string
  bs_URL :: string
  bs_AppID :: string
  bs_Generation :: string
  bs_ScreenshotSHA256 :: string
  bs_WindowIdentity :: string
  bs_SemanticText :: string
  bs_Screenshot :: string
  bs_Elements :: "SurfaceElement list"
  bs_Assets :: "SurfaceAsset list"
  bs_Viewport :: "Bounds option"
  bs_Actions :: "BackendAction list"

record surfaceSession =
  ss_accountID :: string
  ss_generation :: string
  ss_screenshotSHA256 :: string
  ss_windowIdentity :: string
  ss_actions :: "(string \<times> BackendAction) list"
  ss_consumedActions :: "string set"
  ss_replayTombstones :: "string set"
  ss_assets :: "(string \<times> SurfaceAsset) list"
  ss_surface :: Surface

record sendMemo =
  mm_digest :: string
  mm_result :: SendResult
  mm_err :: "go_error option"

datatype wx_event =
    ActDispatched string BackendAction SurfaceAction
  | SendDispatched string SendRequest UISendRequest
  | CloseDispatched string
  | SurfaceOpened string
  | SurfaceStored string
  | SessionReset

record WeChatDriver =
  wx_account :: "AccountRuntime option"
  wx_profile :: "Profile option"
  wx_surfaces :: "(string \<times> surfaceSession) list"
  wx_sendMemos :: "(string \<times> sendMemo) list"
  wx_log :: "wx_event list"

text \<open>
  What the system answers for one source file of a send: \<open>fx_Lstat\<close> whether it is a regular file and
  its size, \<open>fx_Stat\<close> whether the opened file is that same regular file, \<open>fx_bytes\<close> what its reader
  delivers.
\<close>

record wx_file =
  fx_Lstat :: "(bool \<times> int) result"
  fx_Open :: "go_error option"
  fx_Stat :: "bool result"
  fx_Create :: "go_error option"
  fx_bytes :: string
  fx_Copy :: "go_error option"
  fx_Sync :: "go_error option"
  fx_Close :: "go_error option"

text \<open>
  What the backend, the index and the system answer during one operation. \<open>bx_png\<close> is
  \<^verbatim>\<open>png.DecodeConfig\<close>; \<open>bx_decode\<close> gives the bounds of a decoded image and \<open>bx_render\<close> the encoded crop.
\<close>

record wx_env =
  bx_now :: time
  bx_ctx :: "go_error option"
  bx_Start :: "go_error option"
  bx_Stop :: "go_error option"
  bx_Probe :: "ProbeResult result"
  bx_Screenshot :: "string result"
  bx_SubmitAuthCode :: "string \<Rightarrow> go_error option"
  bx_SavedAccount :: "string \<Rightarrow> string \<Rightarrow> go_error option"
  bx_Send :: "UISendRequest \<Rightarrow> go_error option"
  bx_Surface :: "BackendSurface result"
  bx_CloseSurface :: "go_error option"
  bx_Conversation :: "string \<Rightarrow> Conversation result"
  bx_ResolveSurface :: "string \<Rightarrow> SurfaceTarget result"
  bx_PrepareOutgoing :: "go_error option"
  bx_WaitOutgoing :: "Message result"
  bx_cwd :: "string result"
  bx_EvalSymlinks :: "string \<Rightarrow> string result"
  bx_outbox :: "go_error option"
  bx_file :: "nat \<Rightarrow> wx_file"
  bx_random :: "nat \<Rightarrow> 8 word list result"
  bx_sha256 :: "string \<Rightarrow> 8 word list"
  bx_png :: "string \<Rightarrow> (int \<times> int) result"
  bx_decode :: "string \<Rightarrow> Bounds result"
  bx_render :: "string \<Rightarrow> Bounds \<Rightarrow> string result"

definition wx_New :: WeChatDriver where
  "wx_New = \<lparr>wx_account = None, wx_profile = None, wx_surfaces = [], wx_sendMemos = [], wx_log = []\<rparr>"

definition started :: "WeChatDriver \<Rightarrow> bool" where
  "started d \<longleftrightarrow> wx_account d \<noteq> None"

section \<open>Lifecycle and authentication\<close>

text \<open>\<open>profile\<close> is what the profile manager answers, \<open>index\<close> what the index factory answers.\<close>

definition wx_Start ::
  "wx_env \<Rightarrow> Profile result \<Rightarrow> go_error option \<Rightarrow> AccountRuntime \<Rightarrow> WeChatDriver \<Rightarrow> go_error option \<times> WeChatDriver"
where
  "wx_Start env profile index account d =
     (if started d then (Some (ErrSentinel WeChatErrAlreadyStarted), d)
      else case profile of
          Inl err \<Rightarrow> (Some err, d)
        | Inr prof \<Rightarrow>
            (case index of
               Some err \<Rightarrow> (Some (ErrWrapf ''initialize WeChat message index: '' err []), d)
             | None \<Rightarrow>
                 (case bx_Start env of
                    Some err \<Rightarrow> (Some err, d)
                  | None \<Rightarrow>
                      (None, d\<lparr>wx_account := Some account, wx_profile := Some prof, wx_surfaces := [], wx_sendMemos := [],
                              wx_log := wx_log d @ [SessionReset]\<rparr>))))"

definition wx_Stop :: "wx_env \<Rightarrow> WeChatDriver \<Rightarrow> go_error option \<times> WeChatDriver" where
  "wx_Stop env d =
     (case bx_Stop env of
        Some err \<Rightarrow> (Some err, d)
      | None \<Rightarrow>
          (None, d\<lparr>wx_account := None, wx_profile := None, wx_surfaces := [], wx_sendMemos := [],
                  wx_log := wx_log d @ [SessionReset]\<rparr>))"

text \<open>\<open>purge\<close> is the backend's answer, if it can purge at all.\<close>

definition wx_Purge :: "go_error option option \<Rightarrow> WeChatDriver \<Rightarrow> go_error option" where
  "wx_Purge purge d =
     (if started d then Some (ErrNew ''cannot purge an active WeChat account'')
      else case purge of
          None \<Rightarrow> Some (ErrNew ''WeChat backend does not support account purge'')
        | Some answer \<Rightarrow> answer)"

definition wx_capabilities :: "bool \<Rightarrow> bool \<Rightarrow> (string \<times> support) list option" where
  "wx_capabilities available uiFallback =
     map_option (\<lambda>result.
       if \<not> available then result
       else
         let result = fold (\<lambda>(name, v). AList.update name v)
               [(''messages.history'', SupportBeta), (''messages.watch'', SupportBeta), (''official_accounts.read'', SupportBeta),
                (''messages.send'', SupportBeta), (''attachments.send'', SupportExperimental), (''web.open'', SupportExperimental),
                (''miniprogram.open'', SupportExperimental)] result
         in if \<not> uiFallback then result
            else fold (\<lambda>(name, v). AList.update name v)
               [(''messages.visible'', SupportBeta), (''messages.history'', SupportUnsupported),
                (''messages.watch'', SupportExperimental), (''official_accounts.read'', SupportUnsupported)] result)
       (CapabilityMap [(''auth.qr'', SupportBeta), (''auth.sms'', SupportBeta), (''miniprogram.open_by_name'', SupportExperimental),
          (''surface.act'', SupportExperimental), (''surface.assets.export'', SupportExperimental)])"

definition wx_Status :: "wx_env \<Rightarrow> bool \<Rightarrow> bool \<Rightarrow> WeChatDriver \<Rightarrow> Status result" where
  "wx_Status env available uiFallback d =
     (if \<not> started d
      then Inr \<lparr>st_State = StateStopped, st_Identity = None, st_Reason = [], st_ClientVersion = [],
              st_Capabilities = wx_capabilities available uiFallback, st_ObservedAt = bx_now env\<rparr>
      else case bx_Probe env of
          Inl err \<Rightarrow> Inl err
        | Inr probe \<Rightarrow>
            Inr \<lparr>st_State = pb_State probe, st_Identity = pb_Identity probe, st_Reason = pb_Reason probe,
               st_ClientVersion = pb_ClientVersion probe, st_Capabilities = wx_capabilities available uiFallback,
               st_ObservedAt = pb_ObservedAt probe\<rparr>)"

definition hasImageBoundAuthAction :: "AuthAction list \<Rightarrow> bool" where
  "hasImageBoundAuthAction actions \<longleftrightarrow> list_ex aa_ImageBound actions"

definition auth_snapshot_of :: "ProbeResult \<Rightarrow> string \<Rightarrow> AuthSnapshot" where
  "auth_snapshot_of probe screenshot =
     (let kind = (if pb_AuthKind probe = AuthOther [] then AuthQR else pb_AuthKind probe)
      in \<lparr>as_Kind = kind, as_State = pb_State probe, as_Prompt = pb_Prompt probe,
          as_QRCodePNG = (if pb_State probe = StateAuthRequired \<and> kind = AuthQR then screenshot else []),
          as_ScreenshotPNG = screenshot, as_CanSubmitCode = pb_CanSubmitCode probe,
          as_Actions = pb_Actions probe, as_ObservedAt = pb_ObservedAt probe\<rparr>)"

definition wx_AuthSnapshot :: "wx_env \<Rightarrow> WeChatDriver \<Rightarrow> AuthSnapshot result" where
  "wx_AuthSnapshot env d =
     (if \<not> started d then Inl wxErrNotStarted
      else case bx_Probe env of
          Inl err \<Rightarrow> Inl err
        | Inr probe \<Rightarrow>
            if pb_ScreenshotPNG probe \<noteq> [] then Inr (auth_snapshot_of probe (pb_ScreenshotPNG probe))
            else if hasImageBoundAuthAction (pb_Actions probe)
            then Inl (because wxErrClientIncompatible ''image-bound authentication action has no matching screenshot'')
            else case bx_Screenshot env of
                Inl err \<Rightarrow> Inl err
              | Inr screenshot \<Rightarrow> Inr (auth_snapshot_of probe screenshot))"

definition authCodePattern :: "string \<Rightarrow> bool" where
  "authCodePattern = match_bounded is_digit 4 10"

definition wx_SubmitAuthCode :: "wx_env \<Rightarrow> string \<Rightarrow> WeChatDriver \<Rightarrow> go_error option" where
  "wx_SubmitAuthCode env code d =
     (if \<not> started d then Some wxErrNotStarted
      else
        let code = TrimSpace code
        in if \<not> authCodePattern code then Some (ErrNew ''authentication code must contain 4 to 10 digits'')
           else bx_SubmitAuthCode env code)"

definition continueSavedAccountLoginOperation :: string where
  "continueSavedAccountLoginOperation = ''continue_saved_account_login''"
definition switchSavedAccountLoginOperation :: string where
  "switchSavedAccountLoginOperation = ''switch_saved_account_login''"

definition authGenerationPattern :: "string \<Rightarrow> bool" where
  "authGenerationPattern = match_bounded is_hex 64 64"

definition savedAccountAuthOperation :: "string \<Rightarrow> (string \<times> string) option" where
  "savedAccountAuthOperation actionID =
     (let attempt = (\<lambda>operation.
            let generation = drop (length operation + 1) actionID
            in if authGenerationPattern generation then Some (operation, generation) else None)
      in if HasPrefix actionID (continueSavedAccountLoginOperation @ ''.'') then attempt continueSavedAccountLoginOperation
         else if HasPrefix actionID (switchSavedAccountLoginOperation @ ''.'') then attempt switchSavedAccountLoginOperation
         else None)"

definition definitiveAuthActionRejection :: "go_error \<Rightarrow> bool" where
  "definitiveAuthActionRejection err \<longleftrightarrow>
     list_ex (errors_Is err) [wxErrNotStarted, wxErrActionStale, wxErrTargetAmbiguous, wxErrUserActionRequired,
       wxErrClientIncompatible, wxErrAuthRequired, wxErrInvalidArgument]"

definition wx_PerformAuthAction :: "wx_env \<Rightarrow> string \<Rightarrow> bool \<Rightarrow> WeChatDriver \<Rightarrow> go_error option" where
  "wx_PerformAuthAction env actionID confirmed d =
     (case savedAccountAuthOperation actionID of
        None \<Rightarrow> Some (because wxErrActionStale ''authentication action is not advertised'')
      | Some (operation, expectedGeneration) \<Rightarrow>
          if \<not> confirmed
          then Some (because wxErrUserActionRequired ''authentication action requires explicit user confirmation'')
          else if \<not> started d then Some wxErrNotStarted
          else case bx_SavedAccount env operation expectedGeneration of
              None \<Rightarrow> None
            | Some err \<Rightarrow>
                if definitiveAuthActionRejection err \<or> AuthActionWasConsumed (Some err) then Some err
                else MarkAuthActionConsumed (Some err))"

section \<open>Surfaces\<close>

definition authenticationSurfaceKind :: "string \<Rightarrow> bool" where
  "authenticationSurfaceKind kind \<longleftrightarrow>
     ToLower (TrimSpace kind) \<in> {''auth'', ''auth_required'', ''authentication'', ''login'', ''qr'', ''sms''}"

definition surfaceAssetTokenTTL :: duration where "surfaceAssetTokenTTL = 2 * minute"
definition maxSurfaceScreenshotBytes :: int where "maxSurfaceScreenshotBytes = 33554432"
definition maxSurfaceImageDimension :: int where "maxSurfaceImageDimension = 16384"
definition maxSurfaceImagePixels :: int where "maxSurfaceImagePixels = 64000000"

definition bounded_image :: "int \<times> int \<Rightarrow> bool" where
  "bounded_image dims = (case dims of (w, h) \<Rightarrow>
     0 < w \<and> 0 < h \<and> w \<le> maxSurfaceImageDimension \<and> h \<le> maxSurfaceImageDimension \<and> w * h \<le> maxSurfaceImagePixels)"

definition incompatible :: "string \<Rightarrow> go_error" where
  "incompatible text = because wxErrClientIncompatible text"

definition surface_digest :: "wx_env \<Rightarrow> string \<Rightarrow> string" where
  "surface_digest env screenshot = EncodeToString (bx_sha256 env screenshot)"

definition surface_check :: "wx_env \<Rightarrow> BackendSurface \<Rightarrow> go_error option" where
  "surface_check env b =
     (if authenticationSurfaceKind (bs_Kind b) then Some wxErrAuthRequired
      else if bs_WindowIdentity b = [] then Some (incompatible ''surface response has no bound window identity'')
      else if bs_Screenshot b = [] \<or> int (length (bs_Screenshot b)) > maxSurfaceScreenshotBytes
      then Some (incompatible ''surface screenshot size is outside the safe limit'')
      else if (case bx_png env (bs_Screenshot b) of Inl err \<Rightarrow> True | Inr dims \<Rightarrow> \<not> bounded_image dims)
      then Some (incompatible ''surface screenshot is not a bounded PNG'')
      else if bs_ScreenshotSHA256 b \<noteq> [] \<and> fold_case (bs_ScreenshotSHA256 b) \<noteq> surface_digest env (bs_Screenshot b)
      then Some (incompatible ''surface screenshot digest changed across the driver boundary'')
      else if (bs_Elements b \<noteq> [] \<or> bs_Assets b \<noteq> [] \<or> bs_Viewport b \<noteq> None) \<and> bs_Generation b = []
      then Some (incompatible ''semantic surface metadata has no generation'')
      else None)"

text \<open>The actions that are neither malformed nor used up, in the order of the backend.\<close>

definition live_actions :: "string set \<Rightarrow> string set \<Rightarrow> BackendAction list \<Rightarrow> BackendAction list" where
  "live_actions consumed tombstones = filter (\<lambda>a.
     ac_ID (ba_Action a) \<noteq> [] \<and> ba_ReplayID a \<noteq> [] \<and> ba_Locator a \<noteq> [] \<and>
     ac_ID (ba_Action a) \<notin> consumed \<and> ba_ReplayID a \<notin> tombstones)"

definition index_actions :: "BackendAction list \<Rightarrow> (string \<times> BackendAction) list" where
  "index_actions as = fold (\<lambda>a. AList.update (ac_ID (ba_Action a)) a) as []"

definition bind_element :: "(string \<times> BackendAction) list \<Rightarrow> SurfaceElement \<Rightarrow> SurfaceElement" where
  "bind_element actions el =
     (let candidates = (if el_ActionIDs el = [] \<and> el_ActionID el \<noteq> [] then [el_ActionID el] else el_ActionIDs el);
          active = filter (\<lambda>i. map_of actions i \<noteq> None) (rev (remdups (rev candidates)))
      in el\<lparr>el_ActionIDs := active, el_ActionID := (case active of [i] \<Rightarrow> i | _ \<Rightarrow> [])\<rparr>)"

definition randomOpaqueID :: "wx_env \<Rightarrow> nat \<Rightarrow> string \<Rightarrow> string result" where
  "randomOpaqueID env n pre = map_sum (\<lambda>e. e) (\<lambda>bytes. pre @ EncodeToString bytes) (bx_random env n)"

text \<open>\<open>n\<close> counts the random tokens, and \<open>seen\<close> the identifiers of the assets so far.\<close>

fun store_assets ::
  "wx_env \<Rightarrow> nat \<Rightarrow> string list \<Rightarrow> SurfaceAsset list \<Rightarrow> SurfaceAsset list result"
where
  "store_assets env n seen [] = Inr []"
| "store_assets env n seen (a # as) =
     (if sa_ID a = [] \<or> sa_Token a = [] \<or> sa_Kind a = [] \<or> bd_Width (sa_Bounds a) \<le> 0 \<or> bd_Height (sa_Bounds a) \<le> 0 \<or>
         sa_ID a \<in> set seen
      then store_assets env n seen as
      else case randomOpaqueID env n ''wxasset_'' of
          Inl err \<Rightarrow> Inl err
        | Inr token \<Rightarrow>
            map_sum (\<lambda>e. e) (\<lambda>rest. a\<lparr>sa_Token := token, sa_ExpiresAt := bx_now env + surfaceAssetTokenTTL\<rparr> # rest)
              (store_assets env (n + 1) (sa_ID a # seen) as))"

definition surface_of ::
  "wx_env \<Rightarrow> string \<Rightarrow> BackendSurface \<Rightarrow> BackendAction list \<Rightarrow> SurfaceAsset list \<Rightarrow> Surface"
where
  "surface_of env sid b actions assets =
     \<lparr>sf_ID = sid, sf_Kind = bs_Kind b, sf_Title = bs_Title b, sf_URL = bs_URL b, sf_AppID = bs_AppID b,
      sf_Generation = bs_Generation b, sf_Screenshot = bs_Screenshot b,
      sf_ScreenshotSHA256 = surface_digest env (bs_Screenshot b), sf_OCRText = bs_SemanticText b,
      sf_Elements = map (bind_element (index_actions actions)) (bs_Elements b), sf_Assets = assets,
      sf_Viewport = bs_Viewport b, sf_Actions = map ba_Action actions, sf_ObservedAt = bx_now env\<rparr>"

definition storeSurface :: "wx_env \<Rightarrow> string \<Rightarrow> BackendSurface \<Rightarrow> WeChatDriver \<Rightarrow> Surface result \<times> WeChatDriver" where
  "storeSurface env sid b d =
     (case surface_check env b of
        Some err \<Rightarrow> (Inl err, d)
      | None \<Rightarrow>
          let previous = map_of (wx_surfaces d) sid;
              consumed = (case previous of Some s \<Rightarrow> ss_consumedActions s | None \<Rightarrow> {});
              tombstones = (case previous of Some s \<Rightarrow> ss_replayTombstones s | None \<Rightarrow> {});
              live = live_actions consumed tombstones (bs_Actions b)
          in case store_assets env 1 [] (bs_Assets b) of
              Inl err \<Rightarrow> (Inl err, d)
            | Inr assets \<Rightarrow>
                let surface = surface_of env sid b live assets;
                    session = \<lparr>ss_accountID = (case wx_account d of Some a \<Rightarrow> ar_AccountID a | None \<Rightarrow> []),
                      ss_generation = bs_Generation b, ss_screenshotSHA256 = surface_digest env (bs_Screenshot b),
                      ss_windowIdentity = bs_WindowIdentity b, ss_actions = index_actions live,
                      ss_consumedActions = consumed, ss_replayTombstones = tombstones,
                      ss_assets = fold (\<lambda>a. AList.update (sa_Token a) a) assets [], ss_surface = surface\<rparr>
                in (Inr surface, d\<lparr>wx_surfaces := AList.update sid session (wx_surfaces d),
                      wx_log := wx_log d @ [SurfaceStored sid]\<rparr>))"

text \<open>A new surface replaces every other one.\<close>

definition open_surface :: "wx_env \<Rightarrow> BackendSurface \<Rightarrow> WeChatDriver \<Rightarrow> Surface result \<times> WeChatDriver" where
  "open_surface env b d =
     (case randomOpaqueID env 0 ''wxsurf_'' of
        Inl err \<Rightarrow> (Inl err, d)
      | Inr sid \<Rightarrow> storeSurface env sid b (d\<lparr>wx_surfaces := [], wx_log := wx_log d @ [SurfaceOpened sid]\<rparr>))"

definition wx_OpenSurface :: "wx_env \<Rightarrow> string \<Rightarrow> WeChatDriver \<Rightarrow> Surface result \<times> WeChatDriver" where
  "wx_OpenSurface env reference d =
     (if \<not> started d then (Inl wxErrNotStarted, d)
      else case bx_ResolveSurface env reference of
          Inl err \<Rightarrow> (Inl err, d)
        | Inr target \<Rightarrow>
            (case bx_Surface env of
               Inl err \<Rightarrow> (Inl err, d)
             | Inr b \<Rightarrow> open_surface env b d))"

definition wx_OpenNamedSurface :: "wx_env \<Rightarrow> NamedSurface \<Rightarrow> WeChatDriver \<Rightarrow> Surface result \<times> WeChatDriver" where
  "wx_OpenNamedSurface env target d =
     (let name = TrimSpace (ns_Name target)
      in if \<not> started d then (Inl wxErrNotStarted, d)
         else if ns_Kind target \<noteq> ''miniprogram''
         then (Inl (because wxErrUnsupported ''only named mini programs are supported''), d)
         else if name = [] \<or> RuneCount name > 128 \<or> ContainsNUL name
         then (Inl (ErrNew ''mini-program name must contain between 1 and 128 characters''), d)
         else case bx_Surface env of
             Inl err \<Rightarrow> (Inl err, d)
           | Inr b \<Rightarrow>
               if bs_Generation b = [] \<or> bs_ScreenshotSHA256 b = [] \<or> bs_WindowIdentity b = []
               then (Inl (incompatible ''named mini-program open did not return a frame-bound snapshot''), d)
               else open_surface env b d)"

definition wx_SnapshotSurface :: "wx_env \<Rightarrow> string \<Rightarrow> WeChatDriver \<Rightarrow> Surface result \<times> WeChatDriver" where
  "wx_SnapshotSurface env sid d =
     (case map_of (wx_surfaces d) sid of
        None \<Rightarrow> (Inl wxErrSurfaceMissing, d)
      | Some session \<Rightarrow>
          (case bx_Surface env of
             Inl err \<Rightarrow> (Inl err, d)
           | Inr b \<Rightarrow>
               if bs_WindowIdentity b \<noteq> ss_windowIdentity session then (Inl wxErrActionStale, d)
               else storeSurface env sid b d))"

section \<open>Acting on a surface\<close>

definition action_risk :: "Action \<Rightarrow> string" where "action_risk a = ToLower (TrimSpace (ac_Risk a))"
definition action_effect :: "Action \<Rightarrow> string" where "action_effect a = ToLower (TrimSpace (ac_Effect a))"

definition act_guard :: "Action \<Rightarrow> SurfaceAction \<Rightarrow> go_error option" where
  "act_guard a r =
     (if ac_Disabled a \<or> action_risk a \<in> {''high'', ''sensitive'', ''destructive''} \<or>
         action_effect a \<in> {''high_risk'', ''sensitive'', ''destructive''}
      then Some wxErrUserActionRequired
      else if \<not> sact_TextProvided r \<and> sact_Text r \<noteq> []
      then Some (because wxErrInvalidArgument ''surface action text presence is inconsistent'')
      else if ac_Kind a = ''input'' \<and> \<not> sact_TextProvided r
      then Some (because wxErrInvalidArgument
        ''text is required by a surface input action; pass an explicit empty string to clear it'')
      else if ac_Kind a \<noteq> ''input'' \<and> sact_TextProvided r
      then Some (because wxErrInvalidArgument ''text is only accepted by a surface input action'')
      else if sact_TextProvided r \<and> (RuneCount (sact_Text r) > 4096 \<or> ContainsNUL (sact_Text r))
      then Some (because wxErrInvalidArgument ''surface input text must not exceed 4096 characters or contain NUL'')
      else if (action_risk a \<noteq> ''low'' \<or> action_effect a = ''external_write'') \<and> \<not> sact_Confirmed r
      then Some wxErrConfirmationRequired
      else None)"

definition shouldTombstoneReplay :: "string \<Rightarrow> bool \<Rightarrow> bool" where
  "shouldTombstoneReplay effect succeeded =
     (if effect = ''observe'' \<or> effect = ''search_input'' then False
      else if effect = ''navigate'' then \<not> succeeded
      else True)"

definition consume_action :: "string \<Rightarrow> surfaceSession \<Rightarrow> surfaceSession" where
  "consume_action i s =
     s\<lparr>ss_actions := AList.delete i (ss_actions s), ss_consumedActions := insert i (ss_consumedActions s)\<rparr>"

definition tombstone_replay :: "BackendAction \<Rightarrow> bool \<Rightarrow> surfaceSession \<Rightarrow> surfaceSession" where
  "tombstone_replay action succeeded s =
     (if shouldTombstoneReplay (action_effect (ba_Action action)) succeeded
      then s\<lparr>ss_replayTombstones := insert (ba_ReplayID action) (ss_replayTombstones s)\<rparr> else s)"

text \<open>
  The session is the same object before and after the call of the backend, since nothing else runs
  in between.
\<close>

definition wx_ActSurface :: "wx_env \<Rightarrow> string \<Rightarrow> SurfaceAction \<Rightarrow> WeChatDriver \<Rightarrow> Surface result \<times> WeChatDriver" where
  "wx_ActSurface env sid r d =
     (case map_of (wx_surfaces d) sid of
        None \<Rightarrow> (Inl wxErrActionStale, d)
      | Some session \<Rightarrow>
          (case map_of (ss_actions session) (sact_ActionID r) of
             None \<Rightarrow> (Inl wxErrActionStale, d)
           | Some action \<Rightarrow>
               (case act_guard (ba_Action action) r of
                  Some err \<Rightarrow> (Inl err, d)
                | None \<Rightarrow>
                    let succeeded = (case bx_Surface env of Inr b \<Rightarrow> True | Inl e \<Rightarrow> False);
                        session' = tombstone_replay action succeeded (consume_action (sact_ActionID r) session);
                        d1 = d\<lparr>wx_surfaces := AList.update sid session' (wx_surfaces d),
                               wx_log := wx_log d @ [ActDispatched sid action r]\<rparr>
                    in case bx_Surface env of
                        Inl err \<Rightarrow> (Inl err, d1)
                      | Inr b \<Rightarrow> storeSurface env sid b d1)))"

definition wx_CloseSurface :: "wx_env \<Rightarrow> string \<Rightarrow> WeChatDriver \<Rightarrow> go_error option \<times> WeChatDriver" where
  "wx_CloseSurface env sid d =
     (case map_of (wx_surfaces d) sid of
        None \<Rightarrow> (Some wxErrSurfaceMissing, d)
      | Some session \<Rightarrow>
          (bx_CloseSurface env,
           d\<lparr>wx_surfaces := AList.delete sid (wx_surfaces d), wx_log := wx_log d @ [CloseDispatched sid]\<rparr>))"

section \<open>Exporting a rendered asset\<close>

definition inside_image :: "Bounds \<Rightarrow> Bounds \<Rightarrow> bool" where
  "inside_image b im \<longleftrightarrow>
     \<not> (bd_X b < bd_X im \<or> bd_Y b < bd_Y im \<or> bd_Width b \<le> 0 \<or> bd_Height b \<le> 0 \<or>
        bd_Width b > bd_X im + bd_Width im - bd_X b \<or> bd_Height b > bd_Y im + bd_Height im - bd_Y b)"

definition render_asset :: "wx_env \<Rightarrow> string \<Rightarrow> SurfaceAsset \<Rightarrow> surfaceSession \<Rightarrow> SurfaceAssetExport result" where
  "render_asset env sid asset session =
     (let screenshot = sf_Screenshot (ss_surface session)
      in if surface_digest env screenshot \<noteq> ss_screenshotSHA256 session
         then Inl (incompatible ''cached surface screenshot no longer matches its generation'')
         else if int (length screenshot) > maxSurfaceScreenshotBytes
         then Inl (incompatible ''cached surface screenshot is too large'')
         else case bx_png env screenshot of
             Inl err \<Rightarrow> Inl (incompatible (''inspect surface screenshot: '' @ Error err))
           | Inr dims \<Rightarrow>
               if \<not> bounded_image dims
               then Inl (incompatible ''surface screenshot dimensions are outside the safe export limit'')
               else case bx_decode env screenshot of
                   Inl err \<Rightarrow> Inl (incompatible (''decode surface screenshot: '' @ Error err))
                 | Inr im \<Rightarrow>
                     if \<not> inside_image (sa_Bounds asset) im
                     then Inl (incompatible ''asset bounds are outside the matching screenshot'')
                     else case bx_render env screenshot (sa_Bounds asset) of
                         Inl err \<Rightarrow> Inl (ErrWrapf ''encode rendered asset: '' err [])
                       | Inr data \<Rightarrow>
                           if int (length data) > maxSurfaceScreenshotBytes
                           then Inl (incompatible ''rendered asset exceeds the safe export limit'')
                           else Inr \<lparr>se_SurfaceID = sid, se_AssetID = sa_ID asset, se_Fidelity = ''rendered'', se_MediaType = ''image/png'',
                             se_SHA256 = surface_digest env data, se_Bytes = int (length data), se_Data = data\<rparr>)"

definition wx_ExportSurfaceAsset ::
  "wx_env \<Rightarrow> string \<Rightarrow> string \<Rightarrow> WeChatDriver \<Rightarrow> SurfaceAssetExport result \<times> WeChatDriver"
where
  "wx_ExportSurfaceAsset env sid token d =
     (case bx_ctx env of
        Some err \<Rightarrow> (Inl err, d)
      | None \<Rightarrow>
          (case map_of (wx_surfaces d) sid of
             None \<Rightarrow> (Inl wxErrSurfaceMissing, d)
           | Some session \<Rightarrow>
               (case (if ss_accountID session = (case wx_account d of Some a \<Rightarrow> ar_AccountID a | None \<Rightarrow> [])
                      then map_of (ss_assets session) token else None) of
                  None \<Rightarrow> (Inl wxErrAssetStale, d)
                | Some asset \<Rightarrow>
                    if bx_now env \<ge> sa_ExpiresAt asset
                    then (Inl wxErrAssetStale, d\<lparr>wx_surfaces := AList.update sid
                            (session\<lparr>ss_assets := AList.delete token (ss_assets session)\<rparr>) (wx_surfaces d)\<rparr>)
                    else if token = [] \<or> ss_generation session = [] \<or> ss_screenshotSHA256 session = []
                    then (Inl wxErrAssetStale, d)
                    else (render_asset env sid asset session, d))))"


section \<open>Staging attachments\<close>

fun valid_prefix :: "nat \<Rightarrow> string \<Rightarrow> string" where
  "valid_prefix 0 s = []"
| "valid_prefix (Suc n) s = (if ValidString (take (Suc n) s) then take (Suc n) s else valid_prefix n s)"

text \<open>
  The runes that a file system or a shell could misread become underscores; a byte that is not valid
  UTF-8 becomes the replacement character.
\<close>

definition safe_rune :: "string \<Rightarrow> string" where
  "safe_rune r =
     (if length r = 1 \<and> (hd r < CHR 0x20 \<or> hd r = slash \<or> hd r = CHR 0x5C \<or> hd r = CHR '':'') then ''_''
      else if \<not> ValidString r then [CHR 0xEF, CHR 0xBF, CHR 0xBD] else r)"

definition sanitizeFilename :: "string \<Rightarrow> string" where
  "sanitizeFilename s =
     (let name = Trim (concat (map safe_rune (runes (Base (TrimSpace s))))) ''. '';
          name = (if length name > 180 then valid_prefix 180 name else name)
      in if name = [] then ''attachment'' else name)"

text \<open>The bytes that are copied, or the error after which the destination is removed again.\<close>

definition copyRegularFile :: "wx_file \<Rightarrow> int \<Rightarrow> string result" where
  "copyRegularFile f bytes =
     (case fx_Open f of
        Some err \<Rightarrow> Inl err
      | None \<Rightarrow>
          (case fx_Stat f of
             Inl err \<Rightarrow> Inl err
           | Inr same \<Rightarrow>
               if \<not> same then Inl (ErrNew ''attachment changed before it could be staged'')
               else case fx_Create f of
                   Some err \<Rightarrow> Inl err
                 | None \<Rightarrow>
                     let data = take (nat (bytes + 1)) (fx_bytes f)
                     in case fx_Copy f of
                         Some err \<Rightarrow> Inl err
                       | None \<Rightarrow>
                           if int (length data) \<noteq> bytes then Inl (ErrNew ''attachment changed while it was being staged'')
                           else case fx_Sync f of
                               Some err \<Rightarrow> Inl err
                             | None \<Rightarrow> (case fx_Close f of Some err \<Rightarrow> Inl err | None \<Rightarrow> Inr data)))"

definition defaultMaxAttachmentBytes :: int where "defaultMaxAttachmentBytes = 536870912"
definition defaultMaxMessageRunes :: nat where "defaultMaxMessageRunes = 100000"

definition wx_outbox :: "Profile \<Rightarrow> string" where
  "wx_outbox profile = Join [pf_Runtime profile, ''outbox'']"

definition wx_stage_one :: "wx_env \<Rightarrow> int \<Rightarrow> string \<Rightarrow> nat \<Rightarrow> int \<Rightarrow> Attachment \<Rightarrow> (string \<times> string) result" where
  "wx_stage_one env limit outbox n used attachment =
     (case cleanAbsolute (bx_cwd env) (bx_EvalSymlinks env) (at_LocalPath attachment) of
        Inl err \<Rightarrow> Inl err
      | Inr path \<Rightarrow>
          (case fx_Lstat (bx_file env n) of
             Inl err \<Rightarrow> Inl err
           | Inr (regular, bytes) \<Rightarrow>
               if \<not> regular then Inl (ErrNew (''attachment '' @ quoted path @ '' must be a regular, non-symlink file''))
               else if used + bytes > limit then Inl (ErrNew (''attachments exceed '' @ Itoa limit @ '' bytes''))
               else case randomOpaqueID env n [] of
                   Inl err \<Rightarrow> Inl err
                 | Inr opaque \<Rightarrow>
                     let name = sanitizeFilename (at_Name attachment);
                         name = (if name = [] then sanitizeFilename (Base path) else name)
                     in map_sum (\<lambda>e. e) (\<lambda>data. (Join [outbox, opaque @ ''-'' @ name], data))
                          (copyRegularFile (bx_file env n) bytes)))"

text \<open>\<open>used\<close> adds the sizes that \<^verbatim>\<open>Lstat\<close> reported, which are the sizes of the copies.\<close>

fun wx_stage_each :: "wx_env \<Rightarrow> int \<Rightarrow> string \<Rightarrow> nat \<Rightarrow> int \<Rightarrow> Attachment list \<Rightarrow> (string \<times> string) list result" where
  "wx_stage_each env limit outbox n used [] = Inr []"
| "wx_stage_each env limit outbox n used (a # as) =
     (case wx_stage_one env limit outbox n used a of
        Inl err \<Rightarrow> Inl err
      | Inr blob \<Rightarrow>
          map_sum (\<lambda>e. e) (\<lambda>blobs. blob # blobs)
            (wx_stage_each env limit outbox (n + 1) (used + int (length (snd blob))) as))"

definition wx_stageAttachments :: "wx_env \<Rightarrow> int \<Rightarrow> Attachment list \<Rightarrow> WeChatDriver \<Rightarrow> (string \<times> string) list result" where
  "wx_stageAttachments env limit attachments d =
     (if attachments = [] then Inr []
      else case wx_profile d of
          None \<Rightarrow> Inl wxErrNotStarted
        | Some profile \<Rightarrow>
            (case bx_outbox env of
               Some err \<Rightarrow> Inl err
             | None \<Rightarrow> wx_stage_each env limit (wx_outbox profile) 0 0 attachments))"

definition container_path :: "string \<Rightarrow> string" where
  "container_path path = ''/wechatcopilot/runtime/outbox/'' @ Base path"

section \<open>Sending\<close>

definition digest_attachment :: "Attachment \<Rightarrow> string" where
  "digest_attachment a = CHR 0x00 # at_Kind a @ CHR 0x00 # at_Name a @ CHR 0x00 # at_LocalPath a"

definition digest_text :: "SendRequest \<Rightarrow> string" where
  "digest_text r = rq_ConversationID r @ CHR 0x00 # rq_Text r @ CHR 0x00 # rq_ShareSurfaceID r @
     concat (map digest_attachment (rq_Attachments r))"

definition sendDigest :: "wx_env \<Rightarrow> SendRequest \<Rightarrow> string" where
  "sendDigest env r = EncodeToString (bx_sha256 env (digest_text r))"

definition wx_send_guard :: "SendRequest \<Rightarrow> WeChatDriver \<Rightarrow> go_error option" where
  "wx_send_guard r d =
     (if \<not> started d then Some wxErrNotStarted
      else if TrimSpace (rq_ConversationID r) = [] then Some (ErrNew ''conversation id is required'')
      else if TrimSpace (rq_IdempotencyKey r) = [] then Some (ErrNew ''idempotency key is required'')
      else if RuneCount (rq_Text r) > defaultMaxMessageRunes then Some (ErrNew ''message text is too large'')
      else if rq_Text r = [] \<and> rq_Attachments r = [] \<and> rq_ShareSurfaceID r = [] then Some (ErrNew ''send request is empty'')
      else if length (rq_Attachments r) > 20 then Some (ErrNew ''a send request can contain at most 20 attachments'')
      else None)"

text \<open>The locator of the one share action of the surface that is shared, if any.\<close>

definition share_locator :: "string \<Rightarrow> WeChatDriver \<Rightarrow> string result" where
  "share_locator sid d =
     (if sid = [] then Inr []
      else
        let shares = (case map_of (wx_surfaces d) sid of
              None \<Rightarrow> []
            | Some session \<Rightarrow> filter (\<lambda>a. ac_Kind (ba_Action a) = ''share'') (map snd (ss_actions session)));
            blocked = (\<lambda>a. ac_Disabled (ba_Action a) \<or> ac_Risk (ba_Action a) = ''high'')
        in case filter (\<lambda>a. \<not> blocked a) shares of
            [a] \<Rightarrow> Inr (ba_Locator a)
          | [] \<Rightarrow> Inl (if list_ex blocked shares then wxErrUserActionRequired else wxErrActionStale)
          | _ \<Rightarrow> Inl wxErrTargetAmbiguous)"

text \<open>Everything before the first dispatch: the request to the user interface.\<close>

definition prepare_send :: "wx_env \<Rightarrow> int \<Rightarrow> SendRequest \<Rightarrow> WeChatDriver \<Rightarrow> UISendRequest result" where
  "prepare_send env limit r d =
     (case bx_Probe env of
        Inl err \<Rightarrow> Inl err
      | Inr probe \<Rightarrow>
          if pb_State probe = StateAuthRequired then Inl wxErrAuthRequired
          else if pb_State probe \<noteq> StateOnline
          then Inl (ErrNew (''wechat client is not online: '' @ state_string (pb_State probe)))
          else case bx_Conversation env (rq_ConversationID r) of
              Inl err \<Rightarrow> Inl err
            | Inr conversation \<Rightarrow>
                if cv_ID conversation \<noteq> rq_ConversationID r \<or> TrimSpace (cv_Title conversation) = []
                then Inl wxErrConversationMissing
                else case wx_stageAttachments env limit (rq_Attachments r) d of
                    Inl err \<Rightarrow> Inl err
                  | Inr staged \<Rightarrow>
                      (case share_locator (rq_ShareSurfaceID r) d of
                         Inl err \<Rightarrow> Inl err
                       | Inr locator \<Rightarrow>
                           (case bx_PrepareOutgoing env of
                              Some err \<Rightarrow> Inl (ErrWrapf ''prepare outgoing UI verification: '' err [])
                            | None \<Rightarrow>
                                Inr \<lparr>us_ConversationID = cv_ID conversation, us_Title = cv_Title conversation,
                                   us_Locator = cv_ExternalID conversation, us_Text = rq_Text r,
                                   us_Attachments = map (container_path \<circ> fst) staged, us_ShareLocator = locator\<rparr>)))"

definition send_outcome :: "wx_env \<Rightarrow> UISendRequest \<Rightarrow> SendResult \<times> go_error option" where
  "send_outcome env u =
     (case bx_Send env u of
        Some err \<Rightarrow>
          (zero_SendResult\<lparr>sr_Uncertain := True,
             sr_Detail := ''the UI operation started but its completion could not be determined''\<rparr>,
           Some (ErrWrapf [] wxErrSendUncertain ('': '' @ Error err)))
      | None \<Rightarrow>
          (case bx_WaitOutgoing env of
             Inl err \<Rightarrow>
               (zero_SendResult\<lparr>sr_Uncertain := True,
                  sr_Detail := ''official client accepted the UI action, but the read-only index did not confirm it''\<rparr>,
                Some wxErrSendUncertain)
           | Inr message \<Rightarrow> (zero_SendResult\<lparr>sr_MessageID := ms_ID message, sr_Verified := True\<rparr>, None)))"

definition wx_Send :: "wx_env \<Rightarrow> int \<Rightarrow> SendRequest \<Rightarrow> WeChatDriver \<Rightarrow> (SendResult \<times> go_error option) \<times> WeChatDriver" where
  "wx_Send env limit r d =
     (case wx_send_guard r d of
        Some err \<Rightarrow> ((zero_SendResult, Some err), d)
      | None \<Rightarrow>
          (case map_of (wx_sendMemos d) (rq_IdempotencyKey r) of
             Some memo \<Rightarrow>
               (if mm_digest memo \<noteq> sendDigest env r
                then (zero_SendResult, Some (ErrNew ''idempotency key was already used for different content''))
                else (mm_result memo, mm_err memo), d)
           | None \<Rightarrow>
               (case prepare_send env limit r d of
                  Inl err \<Rightarrow> ((zero_SendResult, Some err), d)
                | Inr u \<Rightarrow>
                    let answer = send_outcome env u;
                        memo = \<lparr>mm_digest = sendDigest env r, mm_result = fst answer, mm_err = snd answer\<rparr>
                    in (answer, d\<lparr>wx_sendMemos := AList.update (rq_IdempotencyKey r) memo (wx_sendMemos d),
                          wx_log := wx_log d @ [SendDispatched (rq_IdempotencyKey r) r u]\<rparr>))))"

section \<open>Reading\<close>

text \<open>\<open>answer\<close> is what the message index returns for the query.\<close>

definition wx_ListConversations :: "Conversation list result \<Rightarrow> ConversationQuery \<Rightarrow> Conversation list result" where
  "wx_ListConversations answer q =
     (if cq_Limit q < 0 \<or> cq_Limit q > 1000 then Inl (ErrNew ''conversation limit must be between 0 and 1000'') else answer)"

definition wx_ReadMessages :: "Message list result \<Rightarrow> MessageQuery \<Rightarrow> Message list result" where
  "wx_ReadMessages answer q =
     (if mq_Limit q < 0 \<or> mq_Limit q > 5000 then Inl (ErrNew ''message limit must be between 0 and 5000'') else answer)"

end
