(* ===== verification/WeChat_Props.thy ===== *)
theory WeChat_Props
  imports WeChat_Driver
begin

text \<open>
  What the driver of the personal client guarantees: a semantic action of a surface is dispatched at
  most once and never without the confirmation its risk asks for, a message is dispatched at most
  once per idempotency key, exported assets and staged files are bounded and confined.
\<close>

section \<open>Runs of the driver\<close>

text \<open>
  Surface identifiers are random; a run assumes that a new one was not used before. Nothing is
  assumed of the answers of the backend.
\<close>

definition fresh_surface :: "wx_env \<Rightarrow> WeChatDriver \<Rightarrow> bool" where
  "fresh_surface env d \<longleftrightarrow> (\<forall>sid. randomOpaqueID env 0 ''wxsurf_'' = Inr sid \<longrightarrow> SurfaceOpened sid \<notin> set (wx_log d))"

inductive wx_step :: "WeChatDriver \<Rightarrow> WeChatDriver \<Rightarrow> bool" where
  start: "wx_step d (snd (wx_Start env profile index account d))"
| stop: "wx_step d (snd (wx_Stop env d))"
| send: "wx_step d (snd (wx_Send env limit r d))"
| open_ref: "fresh_surface env d \<Longrightarrow> wx_step d (snd (wx_OpenSurface env reference d))"
| open_name: "fresh_surface env d \<Longrightarrow> wx_step d (snd (wx_OpenNamedSurface env targ d))"
| snapshot: "wx_step d (snd (wx_SnapshotSurface env sid d))"
| act: "wx_step d (snd (wx_ActSurface env sid r d))"
| close: "wx_step d (snd (wx_CloseSurface env sid d))"
| export: "wx_step d (snd (wx_ExportSurfaceAsset env sid token d))"

section \<open>Sessions\<close>

definition lasting :: "BackendAction \<Rightarrow> bool" where
  "lasting a \<longleftrightarrow> action_effect (ba_Action a) \<notin> {''observe'', ''search_input'', ''navigate''}"

text \<open>
  What a session knows of the actions of its surface that were dispatched: they are consumed, and
  what was stored after a lasting one does not offer its operation again.
\<close>

definition retired :: "string \<Rightarrow> wx_event list \<Rightarrow> surfaceSession \<Rightarrow> bool" where
  "retired sid es s \<longleftrightarrow> (\<forall>u a r v. es = u @ ActDispatched sid a r # v \<longrightarrow> lasting a \<longrightarrow> SurfaceStored sid \<in> set v \<longrightarrow>
     ba_ReplayID a \<notin> ba_ReplayID ` snd ` set (ss_actions s))"

definition session_inv :: "string \<Rightarrow> wx_event list \<Rightarrow> surfaceSession \<Rightarrow> bool" where
  "session_inv sid es s \<longleftrightarrow>
     (\<forall>a r. ActDispatched sid a r \<in> set es \<longrightarrow>
        sact_ActionID r \<in> ss_consumedActions s \<and> (lasting a \<longrightarrow> ba_ReplayID a \<in> ss_replayTombstones s)) \<and>
     fst ` set (ss_actions s) \<inter> ss_consumedActions s = {} \<and>
     retired sid es s"

definition surfaces_inv :: "WeChatDriver \<Rightarrow> bool" where
  "surfaces_inv d \<longleftrightarrow> (\<forall>sid s. map_of (wx_surfaces d) sid = Some s \<longrightarrow>
     SurfaceOpened sid \<in> set (wx_log d) \<and> session_inv sid (wx_log d) s)"

definition opened_before :: "wx_event list \<Rightarrow> bool" where
  "opened_before es \<longleftrightarrow> (\<forall>sid a r. ActDispatched sid a r \<in> set es \<longrightarrow> SurfaceOpened sid \<in> set es)"

text \<open>
  Within one surface no action is dispatched twice, and no logical operation with a lasting effect is
  dispatched again under an action of a later snapshot.
\<close>

definition one_shot :: "wx_event list \<Rightarrow> bool" where
  "one_shot es \<longleftrightarrow> (\<forall>u sid a r v b q w. es = u @ ActDispatched sid a r # v @ ActDispatched sid b q # w \<longrightarrow>
     sact_ActionID r \<noteq> sact_ActionID q \<and> (lasting a \<longrightarrow> SurfaceStored sid \<in> set v \<longrightarrow> ba_ReplayID a \<noteq> ba_ReplayID b))"

definition guarded :: "wx_event list \<Rightarrow> bool" where
  "guarded es \<longleftrightarrow> (\<forall>sid a r. ActDispatched sid a r \<in> set es \<longrightarrow> act_guard (ba_Action a) r = None)"

text \<open>One dispatch per idempotency key between two resets of the session.\<close>

definition once_per_key :: "wx_event list \<Rightarrow> bool" where
  "once_per_key es \<longleftrightarrow> (\<forall>u k r x v q y w. es = u @ SendDispatched k r x # v @ SendDispatched k q y # w \<longrightarrow> SessionReset \<in> set v)"

definition memo_inv :: "WeChatDriver \<Rightarrow> bool" where
  "memo_inv d \<longleftrightarrow> (\<forall>u k r x v. wx_log d = u @ SendDispatched k r x # v \<longrightarrow> SessionReset \<notin> set v \<longrightarrow>
     map_of (wx_sendMemos d) k \<noteq> None)"

definition wx_inv :: "WeChatDriver \<Rightarrow> bool" where
  "wx_inv d \<longleftrightarrow> surfaces_inv d \<and> opened_before (wx_log d) \<and> one_shot (wx_log d) \<and> guarded (wx_log d) \<and>
     once_per_key (wx_log d) \<and> memo_inv d"

text \<open>Events other than dispatches.\<close>

fun is_act :: "wx_event \<Rightarrow> bool" where
  "is_act (ActDispatched sid a r) = True"
| "is_act _ = False"

fun is_send :: "wx_event \<Rightarrow> bool" where
  "is_send (SendDispatched k r u) = True"
| "is_send _ = False"

lemma retired_snoc:
  assumes "retired sid es s" and "x \<noteq> SurfaceStored sid" and "set (ss_actions s') \<subseteq> set (ss_actions s)"
  shows "retired sid (es @ [x]) s'"
  unfolding retired_def
proof (intro allI impI)
  fix u a r v assume dec: "es @ [x] = u @ ActDispatched sid a r # v" and a: "lasting a" "SurfaceStored sid \<in> set v"
  then obtain v' where "es = u @ ActDispatched sid a r # v'" "SurfaceStored sid \<in> set v'"
    using assms(2) unfolding snoc_split by auto
  then have "ba_ReplayID a \<notin> ba_ReplayID ` snd ` set (ss_actions s)" using assms(1) a(1) unfolding retired_def by blast
  then show "ba_ReplayID a \<notin> ba_ReplayID ` snd ` set (ss_actions s')" using assms(3) by blast
qed

lemma other_act_event:
  assumes "\<not> is_act x"
  shows "session_inv sid es s \<Longrightarrow> x \<noteq> SurfaceStored sid \<Longrightarrow> session_inv sid (es @ [x]) s" "opened_before es \<Longrightarrow> opened_before (es @ [x])"
    "one_shot es \<Longrightarrow> one_shot (es @ [x])" "guarded es \<Longrightarrow> guarded (es @ [x])"
proof -
  show "session_inv sid (es @ [x]) s" if "session_inv sid es s" "x \<noteq> SurfaceStored sid"
    using that assms retired_snoc [of sid es s x s] by (auto simp: session_inv_def)
  show "opened_before (es @ [x])" if "opened_before es" using that assms by (auto simp: opened_before_def)
  show "guarded (es @ [x])" if "guarded es" using that assms by (auto simp: guarded_def)
  show "one_shot (es @ [x])" if old: "one_shot es"
    unfolding one_shot_def
  proof (intro allI impI)
    fix u sid a r v b q w
    assume "es @ [x] = u @ ActDispatched sid a r # v @ ActDispatched sid b q # w"
    then have "\<exists>w'. es = u @ ActDispatched sid a r # v @ ActDispatched sid b q # w'"
      using two_snoc_split assms by fastforce
    then show "sact_ActionID r \<noteq> sact_ActionID q \<and> (lasting a \<longrightarrow> SurfaceStored sid \<in> set v \<longrightarrow> ba_ReplayID a \<noteq> ba_ReplayID b)"
      using old unfolding one_shot_def by blast
  qed
qed

lemma other_send_event:
  assumes "\<not> is_send x"
  shows "once_per_key es \<Longrightarrow> once_per_key (es @ [x])"
    "memo_inv d \<Longrightarrow> wx_log d' = wx_log d @ [x] \<Longrightarrow> wx_sendMemos d' = wx_sendMemos d \<Longrightarrow> memo_inv d'"
proof -
  show "once_per_key (es @ [x])" if old: "once_per_key es"
    unfolding once_per_key_def
  proof (intro allI impI)
    fix u k r y v q z w
    assume "es @ [x] = u @ SendDispatched k r y # v @ SendDispatched k q z # w"
    then have "\<exists>w'. es = u @ SendDispatched k r y # v @ SendDispatched k q z # w'"
      using two_snoc_split assms by fastforce
    then show "SessionReset \<in> set v" using old unfolding once_per_key_def by blast
  qed
  show "memo_inv d'" if old: "memo_inv d" and es: "wx_log d' = wx_log d @ [x]" and memos: "wx_sendMemos d' = wx_sendMemos d"
    unfolding memo_inv_def
  proof (intro allI impI)
    fix u k r y v assume "wx_log d' = u @ SendDispatched k r y # v" "SessionReset \<notin> set v"
    then obtain v' where "wx_log d = u @ SendDispatched k r y # v'" "SessionReset \<notin> set v'"
      using es assms by (auto simp: snoc_split)
    then show "map_of (wx_sendMemos d') k \<noteq> None" using old memos unfolding memo_inv_def by simp
  qed
qed


section \<open>Storing a surface\<close>

lemma set_AList_update: "set (AList.update k v al) \<subseteq> insert (k, v) (set al)"
  by (induction al) auto

lemma index_actions_set: "(i, a) \<in> set (index_actions as) \<Longrightarrow> i = ac_ID (ba_Action a) \<and> a \<in> set as"
proof -
  have "set (fold (\<lambda>a. AList.update (ac_ID (ba_Action a)) a) as al) \<subseteq> set al \<union> (\<lambda>a. (ac_ID (ba_Action a), a)) ` set as" for al
  proof (induction as arbitrary: al)
    case (Cons a as)
    show ?case using Cons.IH [of "AList.update (ac_ID (ba_Action a)) a al"] set_AList_update [of "ac_ID (ba_Action a)" a al] by auto
  qed simp
  then show "(i, a) \<in> set (index_actions as) \<Longrightarrow> i = ac_ID (ba_Action a) \<and> a \<in> set as"
    unfolding index_actions_def by fastforce
qed

lemma index_live_actions:
  "fst ` set (index_actions (live_actions consumed tombs as)) \<inter> consumed = {}"
  "ba_ReplayID ` snd ` set (index_actions (live_actions consumed tombs as)) \<inter> tombs = {}"
proof -
  have mem: "i = ac_ID (ba_Action a) \<and> i \<notin> consumed \<and> ba_ReplayID a \<notin> tombs"
    if "(i, a) \<in> set (index_actions (live_actions consumed tombs as))" for i a
    using index_actions_set [OF that] by (auto simp: live_actions_def)
  then show "fst ` set (index_actions (live_actions consumed tombs as)) \<inter> consumed = {}"
    "ba_ReplayID ` snd ` set (index_actions (live_actions consumed tombs as)) \<inter> tombs = {}" by fastforce+
qed

definition session_of :: "string \<Rightarrow> WeChatDriver \<Rightarrow> string set \<times> string set" where
  "session_of sid d = (case map_of (wx_surfaces d) sid of
     Some s \<Rightarrow> (ss_consumedActions s, ss_replayTombstones s) | None \<Rightarrow> ({}, {}))"

lemma storeSurface_cases:
  obtains "snd (storeSurface env sid b d) = d"
  | s where "snd (storeSurface env sid b d) = d\<lparr>wx_surfaces := AList.update sid s (wx_surfaces d),
        wx_log := wx_log d @ [SurfaceStored sid]\<rparr>"
      "(ss_consumedActions s, ss_replayTombstones s) = session_of sid d"
      "ss_actions s = index_actions (live_actions (fst (session_of sid d)) (snd (session_of sid d)) (bs_Actions b))"
proof (cases "surface_check env b")
  case (Some err)
  then show ?thesis using that(1) by (simp add: storeSurface_def)
next
  case None
  show ?thesis
  proof (cases "store_assets env 1 [] (bs_Assets b)")
    case (Inl err)
    then show ?thesis using None that(1) by (simp add: storeSurface_def Let_def)
  next
    case (Inr assets)
    then show ?thesis using None that(2) by (auto simp: storeSurface_def Let_def session_of_def split: option.splits)
  qed
qed

section \<open>Every operation keeps the invariant\<close>

text \<open>Forgetting surfaces keeps what is known of the others.\<close>

lemma surfaces_inv_subset:
  assumes "surfaces_inv d" and "\<And>sid s. map_of (wx_surfaces d') sid = Some s \<Longrightarrow> map_of (wx_surfaces d) sid = Some s"
    and "wx_log d' = wx_log d @ [x]" and "\<not> is_act x" and "\<And>sid. x \<noteq> SurfaceStored sid"
  shows "surfaces_inv d'"
  unfolding surfaces_inv_def
proof (intro allI impI)
  fix sid s assume "map_of (wx_surfaces d') sid = Some s"
  then have "SurfaceOpened sid \<in> set (wx_log d)" "session_inv sid (wx_log d) s"
    using assms(1,2) by (auto simp: surfaces_inv_def)
  then show "SurfaceOpened sid \<in> set (wx_log d') \<and> session_inv sid (wx_log d') s"
    using assms(3-5) other_act_event(1) [of x] by simp
qed

lemma wx_inv_quiet:
  assumes "wx_inv d" and "\<not> is_act x" and "\<not> is_send x" and "wx_log d' = wx_log d @ [x]"
    and "wx_sendMemos d' = wx_sendMemos d" and "surfaces_inv d'"
  shows "wx_inv d'"
  using assms other_act_event [OF assms(2)] other_send_event(1) [OF assms(3)] other_send_event(2) [OF assms(3), of d d']
  by (simp add: wx_inv_def)

lemma stored_session_inv:
  assumes "\<And>a r. ActDispatched sid a r \<in> set es \<Longrightarrow>
      sact_ActionID r \<in> ss_consumedActions s \<and> (lasting a \<longrightarrow> ba_ReplayID a \<in> ss_replayTombstones s)"
    and "ss_actions s = index_actions (live_actions (ss_consumedActions s) (ss_replayTombstones s) as)"
  shows "session_inv sid (es @ [SurfaceStored sid]) s"
  unfolding session_inv_def
proof (intro conjI allI impI)
  fix a r assume "ActDispatched sid a r \<in> set (es @ [SurfaceStored sid])"
  then show "sact_ActionID r \<in> ss_consumedActions s" "lasting a \<Longrightarrow> ba_ReplayID a \<in> ss_replayTombstones s" using assms(1) by auto
next
  show "fst ` set (ss_actions s) \<inter> ss_consumedActions s = {}" using index_live_actions(1) by (simp add: assms(2))
next
  have "ba_ReplayID a \<in> ss_replayTombstones s" if "es @ [SurfaceStored sid] = u @ ActDispatched sid a r # v" "lasting a" for u a r v
    using assms(1) [of a r] arg_cong [OF that(1), of set] that(2) by auto
  then show "retired sid (es @ [SurfaceStored sid]) s"
    using index_live_actions(2) [of "ss_consumedActions s" "ss_replayTombstones s" as]
    unfolding retired_def assms(2) by blast
qed

lemma storeSurface_inv:
  assumes inv: "wx_inv d" and opened: "SurfaceOpened sid \<in> set (wx_log d)"
    and known: "map_of (wx_surfaces d) sid = None \<Longrightarrow> \<forall>a r. ActDispatched sid a r \<notin> set (wx_log d)"
  shows "wx_inv (snd (storeSurface env sid b d))"
proof (cases rule: storeSurface_cases [of env sid b d])
  case 1
  then show ?thesis using inv by simp
next
  case (2 s)
  let ?d = "snd (storeSurface env sid b d)"
  have sets: "fst (session_of sid d) = ss_consumedActions s" "snd (session_of sid d) = ss_replayTombstones s"
    using 2(2) by (auto simp: prod_eq_iff)
  have "sact_ActionID r \<in> ss_consumedActions s \<and> (lasting a \<longrightarrow> ba_ReplayID a \<in> ss_replayTombstones s)"
    if disp: "ActDispatched sid a r \<in> set (wx_log d)" for a r
  proof (cases "map_of (wx_surfaces d) sid")
    case None
    then show ?thesis using known disp by blast
  next
    case (Some s0)
    then have "session_inv sid (wx_log d) s0" using inv by (auto simp: wx_inv_def surfaces_inv_def)
    then show ?thesis using Some disp by (simp add: session_inv_def sets [symmetric] session_of_def)
  qed
  then have new: "session_inv sid (wx_log d @ [SurfaceStored sid]) s"
    using 2(3) by (intro stored_session_inv) (simp_all add: sets)
  have "surfaces_inv ?d"
    unfolding surfaces_inv_def
  proof (intro allI impI)
    fix i t assume i: "map_of (wx_surfaces ?d) i = Some t"
    show "SurfaceOpened i \<in> set (wx_log ?d) \<and> session_inv i (wx_log ?d) t"
    proof (cases "i = sid")
      case True
      then show ?thesis using i new opened by (simp add: 2(1) update_conv')
    next
      case False
      then have "SurfaceOpened i \<in> set (wx_log d)" "session_inv i (wx_log d) t"
        using i inv by (auto simp: 2(1) update_conv' wx_inv_def surfaces_inv_def)
      then show ?thesis using False other_act_event(1) [of "SurfaceStored sid"] by (simp add: 2(1))
    qed
  qed
  then show ?thesis by (intro wx_inv_quiet [OF inv, of "SurfaceStored sid"]) (simp_all add: 2(1))
qed

lemma wx_inv_reset:
  assumes inv: "wx_inv d" and "wx_surfaces d' = []" and "wx_log d' = wx_log d @ [SessionReset]"
  shows "wx_inv d'"
proof -
  have "memo_inv d'"
    using assms(3) by (auto simp: memo_inv_def snoc_split)
  moreover have "surfaces_inv d'" using assms(2) by (simp add: surfaces_inv_def)
  ultimately show ?thesis
    using inv assms(3) other_act_event [of SessionReset] other_send_event(1) [of SessionReset] by (simp add: wx_inv_def)
qed

lemma memoD:
  "wx_inv d \<Longrightarrow> wx_log d = u @ SendDispatched k r x # v \<Longrightarrow> SessionReset \<notin> set v \<Longrightarrow> map_of (wx_sendMemos d) k \<noteq> None"
  unfolding wx_inv_def memo_inv_def by blast

lemma wx_Send_inv: "wx_inv d \<Longrightarrow> wx_inv (snd (wx_Send env limit r d))"
proof -
  assume inv: "wx_inv d"
  show ?thesis
  proof (cases "snd (wx_Send env limit r d) = d")
    case True
    then show ?thesis using inv by simp
  next
    case False
    then obtain u memo where none: "map_of (wx_sendMemos d) (rq_IdempotencyKey r) = None"
      and d': "snd (wx_Send env limit r d) = d\<lparr>wx_sendMemos := AList.update (rq_IdempotencyKey r) memo (wx_sendMemos d),
         wx_log := wx_log d @ [SendDispatched (rq_IdempotencyKey r) r u]\<rparr>"
      by (auto simp: wx_Send_def Let_def split: option.splits sum.splits)
    let ?d' = "snd (wx_Send env limit r d)"
    let ?x = "SendDispatched (rq_IdempotencyKey r) r u"
    have "surfaces_inv ?d'" using inv d' surfaces_inv_subset [of d ?d' ?x] by (simp add: wx_inv_def)
    moreover have "once_per_key (wx_log d @ [?x])"
      unfolding once_per_key_def
    proof (intro allI impI)
      fix a k q x v p y w
      assume dec: "wx_log d @ [?x] = a @ SendDispatched k q x # v @ SendDispatched k p y # w"
      from two_snoc_split [OF dec] consider "SendDispatched k p y = ?x" "wx_log d = a @ SendDispatched k q x # v"
        | w' where "wx_log d = a @ SendDispatched k q x # v @ SendDispatched k p y # w'" by blast
      then show "SessionReset \<in> set v"
      proof cases
        case 1
        have "k = rq_IdempotencyKey r" using 1(1) by simp
        then show ?thesis using memoD [OF inv 1(2)] none by blast
      next
        case 2
        have "once_per_key (wx_log d)" using inv by (simp add: wx_inv_def)
        then show ?thesis using 2 unfolding once_per_key_def by blast
      qed
    qed
    moreover have "memo_inv ?d'"
      unfolding memo_inv_def d'
    proof (intro allI impI)
      fix a k q x v assume dec: "wx_log (d\<lparr>wx_sendMemos := AList.update (rq_IdempotencyKey r) memo (wx_sendMemos d),
         wx_log := wx_log d @ [?x]\<rparr>) = a @ SendDispatched k q x # v" and reset: "SessionReset \<notin> set v"
      then consider "k = rq_IdempotencyKey r" | v' where "v = v' @ [?x]" "wx_log d = a @ SendDispatched k q x # v'"
        by (auto simp: snoc_split)
      then show "map_of (wx_sendMemos (d\<lparr>wx_sendMemos := AList.update (rq_IdempotencyKey r) memo (wx_sendMemos d),
         wx_log := wx_log d @ [?x]\<rparr>)) k \<noteq> None"
      proof cases
        case 2
        then show ?thesis using memoD [OF inv 2(2)] reset by (simp add: update_conv')
      qed (simp add: update_conv')
    qed
    ultimately show ?thesis using inv d' other_act_event [of ?x] by (simp add: wx_inv_def)
  qed
qed


lemma open_surface_inv:
  assumes inv: "wx_inv d" and fresh: "fresh_surface env d"
  shows "wx_inv (snd (open_surface env b d))"
proof (cases "randomOpaqueID env 0 ''wxsurf_''")
  case (Inl err)
  then show ?thesis using inv by (simp add: open_surface_def)
next
  case (Inr sid)
  let ?d = "d\<lparr>wx_surfaces := [], wx_log := wx_log d @ [SurfaceOpened sid]\<rparr>"
  have "SurfaceOpened sid \<notin> set (wx_log d)" using fresh Inr by (simp add: fresh_surface_def)
  then have new: "\<forall>a r. ActDispatched sid a r \<notin> set (wx_log ?d)"
    using inv by (auto simp: wx_inv_def opened_before_def)
  have "wx_inv ?d" by (rule wx_inv_quiet [OF inv, of "SurfaceOpened sid"]) (simp_all add: surfaces_inv_def)
  then have "wx_inv (snd (storeSurface env sid b ?d))" by (rule storeSurface_inv) (use new in auto)
  then show ?thesis using Inr by (simp add: open_surface_def)
qed

lemma snapshot_inv:
  assumes inv: "wx_inv d" and session: "map_of (wx_surfaces d) sid = Some s"
  shows "wx_inv (snd (storeSurface env sid b d))"
  using inv session by (intro storeSurface_inv) (auto simp: wx_inv_def surfaces_inv_def)

text \<open>The state after an action was consumed and before the new snapshot is stored.\<close>

lemma dispatched_inv:
  assumes inv: "wx_inv d" and session: "map_of (wx_surfaces d) sid = Some s"
    and action: "map_of (ss_actions s) (sact_ActionID r) = Some a" and guard: "act_guard (ba_Action a) r = None"
  shows "wx_inv (d\<lparr>wx_surfaces := AList.update sid (tombstone_replay a ok (consume_action (sact_ActionID r) s)) (wx_surfaces d),
     wx_log := wx_log d @ [ActDispatched sid a r]\<rparr>)"
proof -
  let ?s = "tombstone_replay a ok (consume_action (sact_ActionID r) s)"
  let ?x = "ActDispatched sid a r"
  let ?d = "d\<lparr>wx_surfaces := AList.update sid ?s (wx_surfaces d), wx_log := wx_log d @ [?x]\<rparr>"
  have sinv: "session_inv sid (wx_log d) s" and opened: "SurfaceOpened sid \<in> set (wx_log d)"
    using inv session by (auto simp: wx_inv_def surfaces_inv_def)
  have live: "sact_ActionID r \<notin> ss_consumedActions s" and mem: "(sact_ActionID r, a) \<in> set (ss_actions s)"
    using sinv map_of_SomeD [OF action] by (force simp: session_inv_def)+
  have sets: "ss_consumedActions ?s = insert (sact_ActionID r) (ss_consumedActions s)"
    "ss_actions ?s = AList.delete (sact_ActionID r) (ss_actions s)"
    "ss_replayTombstones s \<subseteq> ss_replayTombstones ?s"
    "lasting a \<Longrightarrow> ba_ReplayID a \<in> ss_replayTombstones ?s"
    by (auto simp: tombstone_replay_def consume_action_def shouldTombstoneReplay_def lasting_def)
  have rest: "set (AList.delete (sact_ActionID r) (ss_actions s)) = {p \<in> set (ss_actions s). fst p \<noteq> sact_ActionID r}"
    by (auto simp: AList.delete_eq)
  have session': "session_inv sid (wx_log d @ [?x]) ?s"
    unfolding session_inv_def sets(1,2) rest
  proof (intro conjI allI impI)
    fix b q assume "ActDispatched sid b q \<in> set (wx_log d @ [?x])"
    then have old: "ActDispatched sid b q \<in> set (wx_log d) \<or> (b = a \<and> q = r)" by auto
    then show "sact_ActionID q \<in> insert (sact_ActionID r) (ss_consumedActions s)" using sinv by (auto simp: session_inv_def)
    show "ba_ReplayID b \<in> ss_replayTombstones ?s" if "lasting b" using old that sets(3,4) sinv by (auto simp: session_inv_def)
  next
    show "fst ` {p \<in> set (ss_actions s). fst p \<noteq> sact_ActionID r} \<inter> insert (sact_ActionID r) (ss_consumedActions s) = {}"
      using sinv by (force simp: session_inv_def)
    show "retired sid (wx_log d @ [?x]) ?s"
      by (rule retired_snoc [of _ _ s]) (use sinv sets(2) rest in \<open>auto simp: session_inv_def\<close>)
  qed
  have "surfaces_inv ?d"
    unfolding surfaces_inv_def
  proof (intro allI impI)
    fix i t assume i: "map_of (wx_surfaces ?d) i = Some t"
    show "SurfaceOpened i \<in> set (wx_log ?d) \<and> session_inv i (wx_log ?d) t"
    proof (cases "i = sid")
      case True
      then show ?thesis using i session' opened by (simp add: update_conv')
    next
      case False
      then have "SurfaceOpened i \<in> set (wx_log d)" "session_inv i (wx_log d) t"
        using i inv by (auto simp: update_conv' wx_inv_def surfaces_inv_def)
      then show ?thesis using False retired_snoc [of i "wx_log d" t ?x t] by (auto simp: session_inv_def)
    qed
  qed
  moreover have "one_shot (wx_log d @ [?x])"
    unfolding one_shot_def
  proof (intro allI impI)
    fix u i b q v c p w
    assume dec: "wx_log d @ [?x] = u @ ActDispatched i b q # v @ ActDispatched i c p # w"
    from two_snoc_split [OF dec] consider "ActDispatched i c p = ?x" "wx_log d = u @ ActDispatched i b q # v"
      | w' where "wx_log d = u @ ActDispatched i b q # v @ ActDispatched i c p # w'" by blast
    then show "sact_ActionID q \<noteq> sact_ActionID p \<and> (lasting b \<longrightarrow> SurfaceStored i \<in> set v \<longrightarrow> ba_ReplayID b \<noteq> ba_ReplayID c)"
    proof cases
      case 1
      then have i: "i = sid" "c = a" "p = r" by simp_all
      then have "sact_ActionID q \<in> ss_consumedActions s" using sinv 1(2) by (simp add: session_inv_def)
      moreover have "ba_ReplayID b \<noteq> ba_ReplayID a" if "lasting b" "SurfaceStored sid \<in> set v"
      proof -
        have "ba_ReplayID b \<notin> ba_ReplayID ` snd ` set (ss_actions s)"
          using sinv that 1(2) i unfolding session_inv_def retired_def by blast
        then show ?thesis using mem by force
      qed
      ultimately show ?thesis using i live by auto
    next
      case 2
      have "one_shot (wx_log d)" using inv by (simp add: wx_inv_def)
      then show ?thesis using 2 unfolding one_shot_def by blast
    qed
  qed
  moreover have "opened_before (wx_log d @ [?x])" "guarded (wx_log d @ [?x])"
    using inv opened guard by (auto simp: wx_inv_def opened_before_def guarded_def)
  moreover have "once_per_key (wx_log d @ [?x])" "memo_inv ?d"
    using inv other_send_event(1) [of ?x "wx_log d"] other_send_event(2) [of ?x d ?d] by (simp_all add: wx_inv_def)
  ultimately show ?thesis by (simp add: wx_inv_def)
qed

lemma wx_ActSurface_inv: "wx_inv d \<Longrightarrow> wx_inv (snd (wx_ActSurface env sid r d))"
proof -
  assume inv: "wx_inv d"
  show ?thesis
  proof (cases "snd (wx_ActSurface env sid r d) = d")
    case True
    then show ?thesis using inv by simp
  next
    case False
    then obtain s a where s: "map_of (wx_surfaces d) sid = Some s" and a: "map_of (ss_actions s) (sact_ActionID r) = Some a"
      and guard: "act_guard (ba_Action a) r = None"
      by (auto simp: wx_ActSurface_def split: option.splits)
    let ?ok = "case bx_Surface env of Inr b \<Rightarrow> True | Inl e \<Rightarrow> False"
    let ?s = "tombstone_replay a ?ok (consume_action (sact_ActionID r) s)"
    let ?d = "d\<lparr>wx_surfaces := AList.update sid ?s (wx_surfaces d), wx_log := wx_log d @ [ActDispatched sid a r]\<rparr>"
    have inv': "wx_inv ?d" by (rule dispatched_inv [OF inv s a guard])
    show ?thesis
    proof (cases "bx_Surface env")
      case (Inl err)
      then show ?thesis using inv' s a guard by (simp add: wx_ActSurface_def Let_def)
    next
      case (Inr b)
      have "wx_inv (snd (storeSurface env sid b ?d))"
        by (intro snapshot_inv [OF inv', where s = ?s]) (simp_all add: update_conv')
      then show ?thesis using Inr s a guard by (simp add: wx_ActSurface_def Let_def)
    qed
  qed
qed

lemma wx_inv_step: "wx_inv d \<Longrightarrow> wx_step d d' \<Longrightarrow> wx_inv d'"
proof -
  assume inv: "wx_inv d" and "wx_step d d'"
  from \<open>wx_step d d'\<close> show ?thesis
  proof cases
    case (start env profile index account)
    then show ?thesis using inv
      by (auto simp: wx_Start_def split: sum.splits option.splits if_splits intro!: wx_inv_reset [OF inv])
  next
    case (stop env)
    then show ?thesis using inv by (auto simp: wx_Stop_def split: option.splits intro!: wx_inv_reset [OF inv])
  next
    case (send env limit r)
    then show ?thesis using wx_Send_inv [OF inv] by simp
  next
    case (open_ref env reference)
    then show ?thesis using inv open_surface_inv [OF inv open_ref(2)]
      by (auto simp: wx_OpenSurface_def split: sum.splits)
  next
    case (open_name env targ)
    then show ?thesis using inv open_surface_inv [OF inv open_name(2)]
      by (auto simp: wx_OpenNamedSurface_def Let_def split: sum.splits)
  next
    case (snapshot env sid)
    then show ?thesis using inv snapshot_inv [OF inv]
      by (auto simp: wx_SnapshotSurface_def split: sum.splits option.splits)
  next
    case (act env sid r)
    then show ?thesis using wx_ActSurface_inv [OF inv] by simp
  next
    case (close env sid)
    have "surfaces_inv (d\<lparr>wx_surfaces := AList.delete sid (wx_surfaces d), wx_log := wx_log d @ [CloseDispatched sid]\<rparr>)"
    proof (rule surfaces_inv_subset [where x = "CloseDispatched sid"])
      show "surfaces_inv d" using inv by (simp add: wx_inv_def)
    qed (simp_all add: AList.delete_conv' split: if_splits)
    then show ?thesis using close inv
      by (auto simp: wx_CloseSurface_def split: option.splits intro!: wx_inv_quiet [OF inv])
  next
    case (export env sid token)
    have "wx_inv (d\<lparr>wx_surfaces := AList.update sid (s\<lparr>ss_assets := as\<rparr>) (wx_surfaces d)\<rparr>)"
      if "map_of (wx_surfaces d) sid = Some s" for s as
      using inv that by (auto simp: wx_inv_def surfaces_inv_def session_inv_def retired_def memo_inv_def update_conv')
    then show ?thesis using export inv
      by (auto simp: wx_ExportSurfaceAsset_def split: option.splits if_splits)
  qed
qed

interpretation wechat: invariant_system "\<lambda>d. d = wx_New" wx_step wx_inv
proof unfold_locales
  show "wx_inv s" if "s = wx_New" for s
    using that by (auto simp: wx_New_def wx_inv_def surfaces_inv_def opened_before_def one_shot_def guarded_def once_per_key_def memo_inv_def)
qed (rule wx_inv_step)


section \<open>A surface in the small\<close>

definition demo_bounds :: Bounds where
  "demo_bounds = \<lparr>bd_X = 0, bd_Y = 0, bd_Width = 10, bd_Height = 10\<rparr>"

definition demo_semantic :: "string \<Rightarrow> string \<Rightarrow> string \<Rightarrow> BackendAction" where
  "demo_semantic i replay risk =
     \<lparr>ba_Action = \<lparr>ac_ID = i, ac_TargetID = [], ac_Label = [], ac_Kind = ''share'', ac_Risk = risk, ac_Effect = ''external_write'', ac_Disabled = False\<rparr>,
      ba_ReplayID = replay, ba_Locator = ''loc''\<rparr>"

definition demo_backend :: "BackendAction list \<Rightarrow> BackendSurface" where
  "demo_backend as = \<lparr>bs_Kind = ''web'', bs_Title = [], bs_URL = [], bs_AppID = [], bs_Generation = ''g'', bs_ScreenshotSHA256 = [],
     bs_WindowIdentity = ''w'', bs_SemanticText = [], bs_Screenshot = ''png'', bs_Elements = [],
     bs_Assets = [\<lparr>sa_ID = ''img'', sa_Token = ''t'', sa_Kind = ''image'', sa_Label = [], sa_Bounds = demo_bounds, sa_Source = [], sa_Confidence = 1, sa_ExpiresAt = 0\<rparr>],
     bs_Viewport = None, bs_Actions = as\<rparr>"

definition demo_file :: wx_file where
  "demo_file = \<lparr>fx_Lstat = Inr (True, 3), fx_Open = None, fx_Stat = Inr True, fx_Create = None, fx_bytes = ''abc'',
     fx_Copy = None, fx_Sync = None, fx_Close = None\<rparr>"

definition demo_probe :: ProbeResult where
  "demo_probe = \<lparr>pb_State = StateOnline, pb_Identity = None, pb_Reason = [], pb_ClientVersion = [], pb_AuthKind = AuthQR,
     pb_Prompt = [], pb_CanSubmitCode = False, pb_Actions = [], pb_ScreenshotPNG = [], pb_ObservedAt = 1\<rparr>"

definition demo_wx :: "BackendSurface result \<Rightarrow> wx_env" where
  "demo_wx answer = \<lparr>bx_now = 1, bx_ctx = None, bx_Start = None, bx_Stop = None, bx_Probe = Inr demo_probe, bx_Screenshot = Inr [],
     bx_SubmitAuthCode = (\<lambda>_. None), bx_SavedAccount = (\<lambda>_ _. None), bx_Send = (\<lambda>_. None), bx_Surface = answer,
     bx_CloseSurface = None,
     bx_Conversation = (\<lambda>i. Inr \<lparr>cv_ID = i, cv_ExternalID = ''l'', cv_Title = ''File'', cv_Kind = [], cv_UnreadCount = 0,
        cv_LastMessageAt = 0, cv_Complete = False, cv_Source = []\<rparr>),
     bx_ResolveSurface = (\<lambda>r. Inr \<lparr>tg_Reference = r, tg_ConversationID = [], tg_ConversationTitle = [], tg_ConversationLocator = [],
        tg_AccessibleLabel = [], tg_Kind = [], tg_SurfaceLocator = []\<rparr>),
     bx_PrepareOutgoing = None, bx_WaitOutgoing = Inl (ErrNew ''not seen''), bx_cwd = Inr ''/'', bx_EvalSymlinks = Inr,
     bx_outbox = None, bx_file = (\<lambda>_. demo_file), bx_random = (\<lambda>n. Inr [of_nat n]), bx_sha256 = (\<lambda>_. [7]), bx_png = (\<lambda>_. Inr (10, 10)),
     bx_decode = (\<lambda>_. Inr demo_bounds), bx_render = (\<lambda>_ _. Inr ''crop'')\<rparr>"

definition demo_wx_profile :: Profile where
  "demo_wx_profile = \<lparr>pf_AccountID = ''a1'', pf_Alias = ''me'', pf_Root = ''/s/a1'', pf_ClientHome = ''/s/a1/client-home'',
     pf_Files = ''/s/a1/client-files'', pf_Runtime = ''/r/a1'', pf_MachineID = ''m'', pf_Hostname = ''h''\<rparr>"

definition demo_started :: WeChatDriver where
  "demo_started = snd (wx_Start (demo_wx (Inl (ErrNew []))) (Inr demo_wx_profile) None demo_runtime_account wx_New)"

definition demo_opened :: "BackendAction list \<Rightarrow> WeChatDriver" where
  "demo_opened as = snd (wx_OpenSurface (demo_wx (Inr (demo_backend as))) ''ref'' demo_started)"

definition demo_request :: "string \<Rightarrow> SurfaceAction" where
  "demo_request i = \<lparr>sact_ActionID = i, sact_Text = [], sact_TextProvided = False, sact_Confirmed = True\<rparr>"

definition demo_acted :: WeChatDriver where
  "demo_acted = snd (wx_ActSurface (demo_wx (Inr (demo_backend [demo_semantic ''a'' ''r'' ''low'']))) ''wxsurf_00'' (demo_request ''a'')
     (demo_opened [demo_semantic ''a'' ''r'' ''low'']))"

lemma demo_wx_log:
  "wx_log demo_acted = [SessionReset, SurfaceOpened ''wxsurf_00'', SurfaceStored ''wxsurf_00'',
     ActDispatched ''wxsurf_00'' (demo_semantic ''a'' ''r'' ''low'') (demo_request ''a''), SurfaceStored ''wxsurf_00'']"
  by code_simp

lemma demo_started_log: "wx_log demo_started = [SessionReset]"
  by code_simp

lemma demo_started_run: "wx_step\<^sup>*\<^sup>* wx_New demo_started"
  unfolding demo_started_def by (rule r_into_rtranclp [of wx_step, OF wx_step.start])

lemma demo_wx_run: "wx_step\<^sup>*\<^sup>* wx_New demo_acted"
proof -
  have "fresh_surface env demo_started" for env by (simp add: fresh_surface_def demo_started_log)
  then have "wx_step demo_started (demo_opened [demo_semantic ''a'' ''r'' ''low''])"
    unfolding demo_opened_def by (intro wx_step.open_ref)
  moreover have "wx_step (demo_opened [demo_semantic ''a'' ''r'' ''low'']) demo_acted"
    unfolding demo_acted_def by (rule wx_step.act)
  ultimately show ?thesis using demo_started_run by (meson rtranclp.rtrancl_into_rtrancl)
qed

lemma act_guard_allows:
  assumes "act_guard a r = None"
  shows "\<not> ac_Disabled a \<and> action_risk a \<notin> {''high'', ''sensitive'', ''destructive''} \<and>
    action_effect a \<notin> {''high_risk'', ''sensitive'', ''destructive''} \<and>
    (sact_Confirmed r \<or> action_risk a = ''low'' \<and> action_effect a \<noteq> ''external_write'')"
proof -
  have "\<not> (ac_Disabled a \<or> action_risk a \<in> {''high'', ''sensitive'', ''destructive''} \<or>
      action_effect a \<in> {''high_risk'', ''sensitive'', ''destructive''})"
    using assms unfolding act_guard_def by (metis option.distinct(1))
  moreover have "\<not> ((action_risk a \<noteq> ''low'' \<or> action_effect a = ''external_write'') \<and> \<not> sact_Confirmed r)"
    using assms unfolding act_guard_def by (metis option.distinct(1))
  ultimately show ?thesis by blast
qed

section \<open>Properties\<close>

lemma share_locator_unique:
  assumes "share_locator sid d = Inr locator" and "locator \<noteq> []"
  shows "\<exists>session a. map_of (wx_surfaces d) sid = Some session \<and> locator = ba_Locator a \<and>
    filter (\<lambda>b. ac_Kind (ba_Action b) = ''share'' \<and> \<not> ac_Disabled (ba_Action b) \<and> ac_Risk (ba_Action b) \<noteq> ''high'')
      (map snd (ss_actions session)) = [a]"
  using assms by (auto simp: share_locator_def Let_def split: if_splits option.splits list.splits)

lemma prepare_send_share:
  "prepare_send env limit r d = Inr u \<Longrightarrow> share_locator (rq_ShareSurfaceID r) d = Inr (us_ShareLocator u)"
  by (auto simp: prepare_send_def split: sum.splits if_splits option.splits)

lemma wx_Send_share:
  assumes "wx_log (snd (wx_Send env limit r d)) = wx_log d @ [SendDispatched k r u]"
  shows "prepare_send env limit r d = Inr u \<and> wx_surfaces (snd (wx_Send env limit r d)) = wx_surfaces d"
  using assms by (auto simp: wx_Send_def Let_def split: option.splits sum.splits if_splits)

text \<open>C12. An action dispatched through \<^verbatim>\<open>ActSurface\<close> is a one-shot capability: while a surface is open,
  however often it is observed again, \<^verbatim>\<open>ActSurface\<close> dispatches no action twice, nor a logical operation
  with a lasting effect under a new action identifier. It never dispatches disabled actions and those of
  high, sensitive or destructive risk; an action that is not of low risk, or that writes externally, only
  with the user's confirmation. The other route, the share action of a surface that \<^verbatim>\<open>Send\<close> dispatches,
  takes the only share action of the named surface that is neither disabled nor of high risk; it asks for no
  confirmation of the action and leaves the surface as it is, so the action is not used up by it.\<close>

theorem surface_actions_one_shot:
  assumes "wx_step\<^sup>*\<^sup>* wx_New d"
  shows "one_shot (wx_log d) \<and>
    (\<forall>sid a r. ActDispatched sid a r \<in> set (wx_log d) \<longrightarrow>
       \<not> ac_Disabled (ba_Action a) \<and> action_risk (ba_Action a) \<notin> {''high'', ''sensitive'', ''destructive''} \<and>
       action_effect (ba_Action a) \<notin> {''high_risk'', ''sensitive'', ''destructive''} \<and>
       (sact_Confirmed r \<or> action_risk (ba_Action a) = ''low'' \<and> action_effect (ba_Action a) \<noteq> ''external_write'')) \<and>
    (\<forall>env limit r answer d' k u. wx_Send env limit r d = (answer, d') \<and>
       wx_log d' = wx_log d @ [SendDispatched k r u] \<and> us_ShareLocator u \<noteq> [] \<longrightarrow>
       (\<exists>session a. map_of (wx_surfaces d) (rq_ShareSurfaceID r) = Some session \<and> us_ShareLocator u = ba_Locator a \<and>
          filter (\<lambda>b. ac_Kind (ba_Action b) = ''share'' \<and> \<not> ac_Disabled (ba_Action b) \<and> ac_Risk (ba_Action b) \<noteq> ''high'')
            (map snd (ss_actions session)) = [a] \<and> wx_surfaces d' = wx_surfaces d))"
proof (intro conjI allI impI)
  have inv: "wx_inv d" using wechat.reachable_inv [OF refl assms] .
  show "one_shot (wx_log d)" using inv unfolding wx_inv_def by blast
  fix sid a r assume "ActDispatched sid a r \<in> set (wx_log d)"
  then have "act_guard (ba_Action a) r = None" using inv unfolding wx_inv_def guarded_def by blast
  note allowed = act_guard_allows [OF this]
  show "\<not> ac_Disabled (ba_Action a)" "action_risk (ba_Action a) \<notin> {''high'', ''sensitive'', ''destructive''}"
    "action_effect (ba_Action a) \<notin> {''high_risk'', ''sensitive'', ''destructive''}"
    "sact_Confirmed r \<or> action_risk (ba_Action a) = ''low'' \<and> action_effect (ba_Action a) \<noteq> ''external_write''"
    using allowed by blast+
next
  fix env limit r answer d' k u
  assume sent: "wx_Send env limit r d = (answer, d') \<and> wx_log d' = wx_log d @ [SendDispatched k r u] \<and> us_ShareLocator u \<noteq> []"
  then have "prepare_send env limit r d = Inr u" "wx_surfaces d' = wx_surfaces d"
    using wx_Send_share [of env limit r d k u] by simp_all
  then show "\<exists>session a. map_of (wx_surfaces d) (rq_ShareSurfaceID r) = Some session \<and> us_ShareLocator u = ba_Locator a \<and>
      filter (\<lambda>b. ac_Kind (ba_Action b) = ''share'' \<and> \<not> ac_Disabled (ba_Action b) \<and> ac_Risk (ba_Action b) \<noteq> ''high'')
        (map snd (ss_actions session)) = [a] \<and> wx_surfaces d' = wx_surfaces d"
    using share_locator_unique [OF prepare_send_share] sent by blast
qed

theorem surface_actions_one_shot_witness:
  "ActDispatched ''wxsurf_00'' (demo_semantic ''a'' ''r'' ''low'') (demo_request ''a'') \<in> set (wx_log demo_acted) \<and> one_shot (wx_log demo_acted)"
  using surface_actions_one_shot [OF demo_wx_run] by (simp add: demo_wx_log)

text \<open>What a step keeps: the log grows, and without a reset the account and the memos stay.\<close>

definition session_kept :: "WeChatDriver \<Rightarrow> WeChatDriver \<Rightarrow> bool" where
  "session_kept d d' \<longleftrightarrow> (\<exists>es. wx_log d' = wx_log d @ es \<and> (SessionReset \<notin> set es \<longrightarrow>
     wx_account d' = wx_account d \<and> (\<forall>k m. map_of (wx_sendMemos d) k = Some m \<longrightarrow> map_of (wx_sendMemos d') k = Some m)))"

lemma session_kept_refl: "session_kept d d"
  by (simp add: session_kept_def)

lemma session_kept_trans:
  assumes "session_kept d d'" and "session_kept d' d''"
  shows "session_kept d d''"
proof -
  obtain es fs where "wx_log d' = wx_log d @ es" "wx_log d'' = wx_log d' @ fs"
    "SessionReset \<notin> set es \<longrightarrow> wx_account d' = wx_account d \<and> (\<forall>k m. map_of (wx_sendMemos d) k = Some m \<longrightarrow> map_of (wx_sendMemos d') k = Some m)"
    "SessionReset \<notin> set fs \<longrightarrow> wx_account d'' = wx_account d' \<and> (\<forall>k m. map_of (wx_sendMemos d') k = Some m \<longrightarrow> map_of (wx_sendMemos d'') k = Some m)"
    using assms unfolding session_kept_def by blast
  then show ?thesis unfolding session_kept_def by (intro exI [of _ "es @ fs"]) simp
qed

lemma storeSurface_kept: "session_kept d (snd (storeSurface env sid b d))"
  by (cases rule: storeSurface_cases [of env sid b d]) (auto simp: session_kept_def)

lemma quiet_kept:
  "wx_log d' = wx_log d @ es \<Longrightarrow> wx_account d' = wx_account d \<Longrightarrow> wx_sendMemos d' = wx_sendMemos d \<Longrightarrow> session_kept d d'"
  by (auto simp: session_kept_def)

lemma open_surface_kept: "session_kept d (snd (open_surface env b d))"
proof (cases "randomOpaqueID env 0 ''wxsurf_''")
  case (Inr sid)
  have "session_kept d (d\<lparr>wx_surfaces := [], wx_log := wx_log d @ [SurfaceOpened sid]\<rparr>)" by (rule quiet_kept) simp_all
  then show ?thesis using storeSurface_kept session_kept_trans unfolding open_surface_def Inr by fastforce
qed (simp add: open_surface_def session_kept_refl)

lemma wx_Send_kept: "session_kept d (snd (wx_Send env limit r d))"
  by (auto simp: wx_Send_def Let_def session_kept_def update_conv' split: option.splits sum.splits)

lemma wx_ActSurface_kept: "session_kept d (snd (wx_ActSurface env sid r d))"
proof -
  have sent: "session_kept d (d\<lparr>wx_surfaces := ss, wx_log := wx_log d @ [x]\<rparr>)" for ss x by (rule quiet_kept) simp_all
  then show ?thesis
    using session_kept_trans [OF sent storeSurface_kept]
    by (auto simp: wx_ActSurface_def Let_def session_kept_refl split: option.splits sum.splits)
qed

lemma wx_step_kept: "wx_step d d' \<Longrightarrow> session_kept d d'"
proof -
  assume "wx_step d d'"
  then show ?thesis
  proof cases
    case (start env profile index account)
    then show ?thesis by (auto simp: wx_Start_def session_kept_def split: sum.splits option.splits)
  next
    case (stop env)
    then show ?thesis by (auto simp: wx_Stop_def session_kept_def split: option.splits)
  next
    case (send env limit r)
    then show ?thesis using wx_Send_kept by simp
  next
    case (open_ref env reference)
    then show ?thesis using open_surface_kept by (auto simp: wx_OpenSurface_def session_kept_refl split: sum.splits)
  next
    case (open_name env targ)
    then show ?thesis using open_surface_kept by (auto simp: wx_OpenNamedSurface_def Let_def session_kept_refl split: sum.splits)
  next
    case (snapshot env sid)
    then show ?thesis using storeSurface_kept by (auto simp: wx_SnapshotSurface_def session_kept_refl split: sum.splits option.splits)
  next
    case (act env sid r)
    then show ?thesis using wx_ActSurface_kept by simp
  next
    case (close env sid)
    then show ?thesis by (auto simp: wx_CloseSurface_def session_kept_def split: option.splits)
  next
    case (export env sid token)
    then show ?thesis by (auto simp: wx_ExportSurfaceAsset_def session_kept_def split: option.splits if_splits)
  qed
qed

lemma wx_run_kept: "wx_step\<^sup>*\<^sup>* d d' \<Longrightarrow> session_kept d d'"
  by (induction rule: rtranclp_induct) (auto intro: session_kept_refl session_kept_trans wx_step_kept)

text \<open>A call that changed the driver dispatched the message and left a memo of its answer.\<close>

lemma wx_Send_memo:
  assumes "snd (wx_Send env limit r d) \<noteq> d"
  shows "wx_send_guard r d = None \<and> wx_account (snd (wx_Send env limit r d)) = wx_account d \<and>
    map_of (wx_sendMemos (snd (wx_Send env limit r d))) (rq_IdempotencyKey r) =
      Some \<lparr>mm_digest = sendDigest env r, mm_result = fst (fst (wx_Send env limit r d)), mm_err = snd (fst (wx_Send env limit r d))\<rparr>"
  using assms by (auto simp: wx_Send_def Let_def update_conv' split: option.splits sum.splits)

text \<open>C13. A message is dispatched at most once per idempotency key of a driver session, however the
  dispatch and its verification end: after any further operations that do not restart the driver,
  the same request is answered with the recorded outcome, uncertain ones included, and dispatches
  nothing.\<close>

theorem wechat_send_once:
  assumes "wx_step\<^sup>*\<^sup>* wx_New d" and "wx_Send env limit r d = (answer, d1)" and "d1 \<noteq> d"
    and "wx_step\<^sup>*\<^sup>* d1 d2" and "wx_log d2 = wx_log d1 @ es" and "SessionReset \<notin> set es" and "bx_sha256 env' = bx_sha256 env"
  shows "once_per_key (wx_log d2) \<and> wx_Send env' limit' r d2 = (answer, d2)"
proof -
  have "wx_step d d1" using wx_step.send [of d env limit r] assms(2) by simp
  then have "wx_step\<^sup>*\<^sup>* wx_New d2" using assms(1,4) by (meson rtranclp.rtrancl_into_rtrancl rtranclp_trans)
  then have "wx_inv d2" using wechat.reachable_inv [OF refl] by blast
  then have once: "once_per_key (wx_log d2)" by (simp add: wx_inv_def)
  have changed: "snd (wx_Send env limit r d) \<noteq> d" using assms(2,3) by simp
  have memo: "wx_send_guard r d = None" "wx_account d1 = wx_account d"
    "map_of (wx_sendMemos d1) (rq_IdempotencyKey r) = Some \<lparr>mm_digest = sendDigest env r, mm_result = fst answer, mm_err = snd answer\<rparr>"
    using wx_Send_memo [OF changed] assms(2) by simp_all
  obtain fs where "wx_log d2 = wx_log d1 @ fs" and
    fs: "SessionReset \<notin> set fs \<longrightarrow> wx_account d2 = wx_account d1 \<and> (\<forall>k m. map_of (wx_sendMemos d1) k = Some m \<longrightarrow> map_of (wx_sendMemos d2) k = Some m)"
    using wx_run_kept [OF assms(4)] unfolding session_kept_def by blast
  then have keep: "wx_account d2 = wx_account d"
    "map_of (wx_sendMemos d2) (rq_IdempotencyKey r) = Some \<lparr>mm_digest = sendDigest env r, mm_result = fst answer, mm_err = snd answer\<rparr>"
    using memo assms(5,6) by simp_all
  then have "wx_send_guard r d2 = None" using memo(1) by (simp add: wx_send_guard_def started_def)
  then show ?thesis using once keep assms(7) by (simp add: wx_Send_def sendDigest_def)
qed

definition demo_wx_request :: SendRequest where
  "demo_wx_request = \<lparr>rq_ConversationID = ''c'', rq_Text = ''hi'', rq_Attachments = [], rq_ShareSurfaceID = [], rq_IdempotencyKey = ''k''\<rparr>"

lemma demo_wx_sent:
  defines "env \<equiv> demo_wx (Inl (ErrNew []))"
  shows "fst (fst (wx_Send env 10 demo_wx_request demo_started)) = zero_SendResult\<lparr>sr_Uncertain := True,
      sr_Detail := ''official client accepted the UI action, but the read-only index did not confirm it''\<rparr>"
    and "length (wx_log (snd (wx_Send env 10 demo_wx_request demo_started))) = 2"
proof -
  have "started demo_started" "TrimSpace ''c'' \<noteq> []" "TrimSpace ''k'' \<noteq> []" "RuneCount ''hi'' = 2" by code_simp+
  then have guard: "wx_send_guard demo_wx_request demo_started = None"
    by (simp add: wx_send_guard_def demo_wx_request_def defaultMaxMessageRunes_def)
  have fresh: "map_of (wx_sendMemos demo_started) ''k'' = None" by code_simp
  have "wx_stageAttachments env 10 [] demo_started = Inr []" by (simp add: wx_stageAttachments_def)
  moreover have "TrimSpace ''File'' \<noteq> []" by code_simp
  ultimately obtain u where u: "prepare_send env 10 demo_wx_request demo_started = Inr u"
    by (auto simp: prepare_send_def env_def demo_wx_def demo_probe_def demo_wx_request_def share_locator_def)
  have outcome: "send_outcome env u = (zero_SendResult\<lparr>sr_Uncertain := True,
      sr_Detail := ''official client accepted the UI action, but the read-only index did not confirm it''\<rparr>, Some wxErrSendUncertain)"
    by (simp add: send_outcome_def env_def demo_wx_def)
  show "fst (fst (wx_Send env 10 demo_wx_request demo_started)) = zero_SendResult\<lparr>sr_Uncertain := True,
      sr_Detail := ''official client accepted the UI action, but the read-only index did not confirm it''\<rparr>"
    "length (wx_log (snd (wx_Send env 10 demo_wx_request demo_started))) = 2"
    using guard fresh u outcome by (simp_all add: wx_Send_def demo_wx_request_def Let_def demo_started_log)
qed

theorem wechat_send_once_witness:
  "sr_Uncertain (fst (fst (wx_Send (demo_wx (Inl (ErrNew []))) 10 demo_wx_request demo_started))) \<and>
   wx_Send (demo_wx (Inl (ErrNew []))) 5 demo_wx_request (snd (wx_Send (demo_wx (Inl (ErrNew []))) 10 demo_wx_request demo_started)) =
     wx_Send (demo_wx (Inl (ErrNew []))) 10 demo_wx_request demo_started"
proof -
  let ?env = "demo_wx (Inl (ErrNew []))"
  let ?out = "wx_Send ?env 10 demo_wx_request demo_started"
  have "snd ?out \<noteq> demo_started" using demo_wx_sent(2) demo_started_log by auto
  then have "wx_Send ?env 5 demo_wx_request (snd ?out) = (fst ?out, snd ?out)"
    using wechat_send_once [OF demo_started_run, of ?env 10 demo_wx_request "fst ?out" "snd ?out" "snd ?out" "[]" ?env 5] by simp
  then show ?thesis using demo_wx_sent(1) by simp
qed

text \<open>C35. Indistinguishable controls are not retired together: when an action with a lasting effect was
  dispatched and its outcome is unknown, another action of the same snapshot with the same replay
  identity is still dispatched, although that identity is tombstoned.\<close>

theorem replay_twin_dispatched:
  assumes "map_of (wx_surfaces d) sid = Some s"
    and "map_of (ss_actions s) (sact_ActionID r) = Some a" and "map_of (ss_actions s) (sact_ActionID q) = Some b"
    and "sact_ActionID r \<noteq> sact_ActionID q" and "ba_ReplayID a = ba_ReplayID b" and "lasting a"
    and "act_guard (ba_Action a) r = None" and "act_guard (ba_Action b) q = None" and "bx_Surface env = Inl err"
  shows "\<exists>s1 es. map_of (wx_surfaces (snd (wx_ActSurface env sid r d))) sid = Some s1 \<and> ba_ReplayID b \<in> ss_replayTombstones s1 \<and>
    wx_log (snd (wx_ActSurface env' sid q (snd (wx_ActSurface env sid r d)))) =
      wx_log d @ ActDispatched sid a r # ActDispatched sid b q # es"
proof -
  let ?s = "tombstone_replay a False (consume_action (sact_ActionID r) s)"
  let ?d = "d\<lparr>wx_surfaces := AList.update sid ?s (wx_surfaces d), wx_log := wx_log d @ [ActDispatched sid a r]\<rparr>"
  have first: "snd (wx_ActSurface env sid r d) = ?d"
    using assms by (simp add: wx_ActSurface_def Let_def)
  have s: "ba_ReplayID b \<in> ss_replayTombstones ?s" "map_of (ss_actions ?s) (sact_ActionID q) = Some b"
    using assms by (auto simp: tombstone_replay_def consume_action_def shouldTombstoneReplay_def lasting_def AList.delete_conv')
  have "\<exists>es. wx_log (snd (wx_ActSurface env' sid q ?d)) = wx_log ?d @ ActDispatched sid b q # es"
  proof (cases "bx_Surface env'")
    case (Inl e)
    then show ?thesis using s assms(8) by (simp add: wx_ActSurface_def Let_def update_conv')
  next
    case (Inr bs)
    let ?t = "tombstone_replay b True (consume_action (sact_ActionID q) ?s)"
    let ?e = "?d\<lparr>wx_surfaces := AList.update sid ?t (wx_surfaces ?d), wx_log := wx_log ?d @ [ActDispatched sid b q]\<rparr>"
    have "snd (wx_ActSurface env' sid q ?d) = snd (storeSurface env' sid bs ?e)"
      using Inr s assms(8) by (simp add: wx_ActSurface_def Let_def update_conv')
    then show ?thesis using storeSurface_kept [of ?e env' sid bs] by (auto simp: session_kept_def)
  qed
  then show ?thesis using first s by (auto simp: update_conv')
qed

definition demo_twins :: WeChatDriver where
  "demo_twins = demo_opened [demo_semantic ''a'' ''r'' ''low'', demo_semantic ''b'' ''r'' ''low'']"

lemma demo_twins_session:
  "\<exists>s. map_of (wx_surfaces demo_twins) ''wxsurf_00'' = Some s \<and>
     map_of (ss_actions s) ''a'' = Some (demo_semantic ''a'' ''r'' ''low'') \<and> map_of (ss_actions s) ''b'' = Some (demo_semantic ''b'' ''r'' ''low'')"
proof -
  have "map_option ss_actions (map_of (wx_surfaces demo_twins) ''wxsurf_00'') =
      Some [(''a'', demo_semantic ''a'' ''r'' ''low''), (''b'', demo_semantic ''b'' ''r'' ''low'')]" by code_simp
  then show ?thesis by auto
qed

lemma demo_twins_guard: "act_guard (ba_Action (demo_semantic i ''r'' ''low'')) (demo_request j) = None" "lasting (demo_semantic i ''r'' ''low'')"
proof -
  have "TrimSpace ''low'' = ''low''" "TrimSpace ''external_write'' = ''external_write''" by code_simp+
  moreover have "ToLower ''low'' = ''low''" "ToLower ''external_write'' = ''external_write''" by code_simp+
  ultimately show "act_guard (ba_Action (demo_semantic i ''r'' ''low'')) (demo_request j) = None" "lasting (demo_semantic i ''r'' ''low'')"
    by (simp_all add: demo_semantic_def demo_request_def act_guard_def action_risk_def action_effect_def lasting_def)
qed

theorem replay_twin_dispatched_witness:
  "\<exists>s1 es. map_of (wx_surfaces (snd (wx_ActSurface (demo_wx (Inl (ErrNew []))) ''wxsurf_00'' (demo_request ''a'') demo_twins))) ''wxsurf_00'' = Some s1 \<and>
    ''r'' \<in> ss_replayTombstones s1 \<and>
    wx_log (snd (wx_ActSurface (demo_wx (Inl (ErrNew []))) ''wxsurf_00'' (demo_request ''b'')
      (snd (wx_ActSurface (demo_wx (Inl (ErrNew []))) ''wxsurf_00'' (demo_request ''a'') demo_twins)))) =
    wx_log demo_twins @ ActDispatched ''wxsurf_00'' (demo_semantic ''a'' ''r'' ''low'') (demo_request ''a'') #
      ActDispatched ''wxsurf_00'' (demo_semantic ''b'' ''r'' ''low'') (demo_request ''b'') # es"
proof -
  obtain s where s: "map_of (wx_surfaces demo_twins) ''wxsurf_00'' = Some s"
     "map_of (ss_actions s) ''a'' = Some (demo_semantic ''a'' ''r'' ''low'')" "map_of (ss_actions s) ''b'' = Some (demo_semantic ''b'' ''r'' ''low'')"
    using demo_twins_session by blast
  have ids: "sact_ActionID (demo_request i) = i" "ba_ReplayID (demo_semantic i r k) = r" "bx_Surface (demo_wx x) = x" for i r k x
    by (simp_all add: demo_request_def demo_semantic_def demo_wx_def)
  show ?thesis
    using replay_twin_dispatched [OF s(1), of "demo_request ''a''" "demo_semantic ''a'' ''r'' ''low''" "demo_request ''b''" "demo_semantic ''b'' ''r'' ''low''"
       "demo_wx (Inl (ErrNew []))" "ErrNew []" "demo_wx (Inl (ErrNew []))"] s(2,3) demo_twins_guard
    by (simp add: ids)
qed

end
