(* ===== verification/WeChat_Staging.thy ===== *)
theory WeChat_Staging
  imports WeChat_Props Account_Props
begin

text \<open>
  What the driver of the personal client does to the files of a send: the names it gives them cannot
  leave the outbox, the copies are exact and their total size is bounded.
\<close>

lemma map_sum_Inr: "map_sum f g x = Inr y \<longleftrightarrow> (\<exists>z. x = Inr z \<and> y = g z)"
  by (cases x) auto

section \<open>File names\<close>

definition safe_char :: "char \<Rightarrow> bool" where
  "safe_char c \<longleftrightarrow> \<not> c < CHR 0x20 \<and> c \<noteq> slash \<and> c \<noteq> CHR 0x5C \<and> c \<noteq> CHR '':''"

lemma high_byte_safe: "128 \<le> (of_char c :: nat) \<Longrightarrow> safe_char c"
  by (auto simp: safe_char_def less_char_def)

lemma utf8_tail_high:
  assumes "utf8_tail c = Some ps" and "ps \<noteq> []"
  shows "128 \<le> (of_char c :: nat)" and "p \<in> set ps \<Longrightarrow> p d \<Longrightarrow> 128 \<le> (of_char d :: nat)"
  using assms by (auto simp: utf8_tail_def in_range_def Let_def split: if_splits)

lemma rune_shape:
  assumes "s \<noteq> []"
  shows "length (take (rune_width s) s) = 1 \<or> list_all (\<lambda>c. 128 \<le> (of_char c :: nat)) (take (rune_width s) s)"
proof -
  obtain c cs where s: "s = c # cs" using assms by (cases s) auto
  show ?thesis
  proof (cases "rune_width s = 1")
    case True
    then show ?thesis by (simp add: s)
  next
    case False
    then obtain ps where ps: "utf8_tail c = Some ps" "list_all2 (\<lambda>p d. p d) ps (take (length ps) cs)"
      "rune_width s = 1 + length ps" "ps \<noteq> []"
      by (auto simp: s rune_width_def split: option.splits if_splits)
    have "128 \<le> (of_char d :: nat)" if d: "d \<in> set (take (length ps) cs)" for d
    proof -
      obtain i where i: "i < length (take (length ps) cs)" "d = take (length ps) cs ! i"
        using d by (metis in_set_conv_nth)
      then have "ps ! i \<in> set ps" "(ps ! i) d"
        using ps(2) by (auto simp: list_all2_conv_all_nth)
      then show ?thesis using utf8_tail_high(2) [OF ps(1,4)] by blast
    qed
    then show ?thesis using ps(3) utf8_tail_high(1) [OF ps(1,4)] by (simp add: s list_all_iff)
  qed
qed

lemma runes_shape: "r \<in> set (runes s) \<Longrightarrow> length r = 1 \<or> list_all (\<lambda>c. 128 \<le> (of_char c :: nat)) r"
proof (induction s rule: runes.induct)
  case (1 s)
  then show ?case using rune_shape [of s] by (subst (asm) runes.simps) (auto split: if_splits)
qed

lemma safe_rune_safe:
  assumes "length r = 1 \<or> list_all (\<lambda>c. 128 \<le> (of_char c :: nat)) r"
  shows "list_all safe_char (safe_rune r)"
proof -
  have marks: "list_all safe_char ''_''" "list_all safe_char [CHR 0xEF, CHR 0xBF, CHR 0xBD]"
    by (simp_all add: safe_char_def less_char_def)
  show ?thesis
  proof (cases "length r = 1")
    case True
    then obtain c where "r = [c]" by (auto simp: length_Suc_conv)
    then show ?thesis using marks by (auto simp: safe_rune_def safe_char_def)
  next
    case False
    then have "list_all safe_char r" using assms high_byte_safe by (simp add: list_all_iff)
    then show ?thesis using marks False by (simp add: safe_rune_def)
  qed
qed

lemma valid_prefix_take: "valid_prefix n s = take (length (valid_prefix n s)) s \<and> length (valid_prefix n s) \<le> n"
  by (induction n) (auto simp: le_SucI min_def)

lemma set_Trim: "set (Trim s cutset) \<subseteq> set s"
  unfolding Trim_def by (metis set_dropWhileD set_rev subsetI)

lemma hd_Trim: "Trim s cutset \<noteq> [] \<Longrightarrow> hd (Trim s cutset) \<notin> set cutset"
proof -
  assume ne: "Trim s cutset \<noteq> []"
  let ?t = "dropWhile (\<lambda>c. c \<in> set cutset) s"
  have "suffix (dropWhile (\<lambda>c. c \<in> set cutset) (rev ?t)) (rev ?t)" by (rule suffix_dropWhile)
  then obtain u where u: "?t = Trim s cutset @ u" unfolding Trim_def suffix_def by (metis rev_append rev_rev_ident)
  then have "?t \<noteq> []" "hd ?t = hd (Trim s cutset)" using ne by simp_all
  then show ?thesis using hd_dropWhile [of "\<lambda>c. c \<in> set cutset" s] by simp
qed

lemma sanitizeFilename_safe:
  "sanitizeFilename s \<noteq> [] \<and> length (sanitizeFilename s) \<le> 180 \<and> hd (sanitizeFilename s) \<notin> set ''. '' \<and>
     list_all safe_char (sanitizeFilename s)"
proof -
  define t where "t = Trim (concat (map safe_rune (runes (Base (TrimSpace s))))) ''. ''"
  define n where "n = (if length t > 180 then valid_prefix 180 t else t)"
  have "list_all safe_char (concat (map safe_rune (runes (Base (TrimSpace s)))))"
    using safe_rune_safe [OF runes_shape] by (auto simp: list_all_iff)
  then have t: "list_all safe_char t" unfolding t_def using set_Trim by (fastforce simp: list_all_iff)
  have pre: "n = take (length n) t" "length n \<le> 180"
    using valid_prefix_take [of 180 t] by (auto simp: n_def)
  have safe: "list_all safe_char n" using t pre(1) by (metis in_set_takeD list_all_iff)
  have "hd n \<notin> set ''. ''" if "n \<noteq> []"
  proof -
    have "t \<noteq> []" "hd n = hd t" using pre(1) that by (metis take_Nil, metis hd_take length_greater_0_conv)
    then show ?thesis using hd_Trim unfolding t_def by metis
  qed
  moreover have "sanitizeFilename s = (if n = [] then ''attachment'' else n)"
    by (simp add: sanitizeFilename_def n_def t_def Let_def)
  moreover have "list_all safe_char ''attachment''" by (simp add: safe_char_def less_char_def)
  ultimately show ?thesis using safe pre(2) by simp
qed

section \<open>Staged files\<close>

lemma Base_child: "plain w \<Longrightarrow> s \<noteq> [] \<Longrightarrow> Base (Join [s, w]) = w"
proof -
  assume w: "plain w" and s: "s \<noteq> []"
  let ?p = "Join [s, w]"
  let ?ws = "clean_parts s @ [w]"
  have parts: "clean_parts ?p = ?ws" by (rule Join_child(2) [OF w s])
  have ok: "list_all (\<lambda>v. slash \<notin> set v \<and> v \<noteq> [] \<and> v \<noteq> ''.'') ?ws" using clean_parts_ok [of ?p] by (simp add: parts)
  then have split: "split_slash (join_slash ?ws) = ?ws" and full: "filter (\<lambda>v. v \<noteq> []) ?ws = ?ws"
    by (auto intro!: split_join_slash simp: list_all_iff filter_id_conv)
  have "?p = Clean ?p" using Join_child(1) [OF w s] by simp
  moreover have "Clean ?p = (if IsAbs ?p then slash # join_slash ?ws else join_slash ?ws)"
    by (simp add: Clean_def parts)
  ultimately have "?p = (if IsAbs ?p then slash # join_slash ?ws else join_slash ?ws)" by simp
  then consider "?p = slash # join_slash ?ws" | "?p = join_slash ?ws" by (meson if_split)
  then have "filter (\<lambda>v. v \<noteq> []) (split_slash ?p) = ?ws"
  proof cases
    case 1
    then show ?thesis using split full by simp
  next
    case 2
    then show ?thesis using split full by simp
  qed
  moreover have "?p \<noteq> []" using \<open>?p = Clean ?p\<close> by (metis Clean_nonempty)
  ultimately show ?thesis by (cases "clean_parts s") (simp_all add: Base_def)
qed

lemma staged_name_plain:
  assumes "list_all is_hex opaque"
  shows "plain (opaque @ ''-'' @ sanitizeFilename s)"
proof -
  have "slash \<notin> set opaque" using assms by (auto simp: list_all_iff is_hex_def is_digit_def)
  moreover have "slash \<notin> set (sanitizeFilename s)" using sanitizeFilename_safe [of s] by (auto simp: list_all_iff safe_char_def)
  moreover have "CHR ''-'' \<in> set (opaque @ ''-'' @ sanitizeFilename s)" by simp
  then have "opaque @ ''-'' @ sanitizeFilename s \<notin> {[], ''.'', ''..''}" by (auto simp: append_eq_Cons_conv)
  ultimately show ?thesis by (simp add: plain_def)
qed

lemma copyRegularFile_exact:
  "copyRegularFile f bytes = Inr data \<Longrightarrow> data = fx_bytes f \<and> int (length data) = bytes"
  by (auto simp: copyRegularFile_def Let_def split: option.splits sum.splits if_splits)

definition staged_as :: "wx_env \<Rightarrow> string \<Rightarrow> nat \<Rightarrow> string \<times> string \<Rightarrow> bool" where
  "staged_as env outbox n blob \<longleftrightarrow>
     plain (Base (fst blob)) \<and> fst blob = Join [outbox, Base (fst blob)] \<and> snd blob = fx_bytes (bx_file env n) \<and>
     fx_Lstat (bx_file env n) = Inr (True, int (length (snd blob)))"

lemma wx_stage_one_exact:
  assumes one: "wx_stage_one env limit outbox n used a = Inr blob" and outbox: "outbox \<noteq> []"
  shows "staged_as env outbox n blob" and "used + int (length (snd blob)) \<le> limit"
proof -
  obtain bytes opaque data where lstat: "fx_Lstat (bx_file env n) = Inr (True, bytes)" and lim: "used + bytes \<le> limit"
    and opaque: "randomOpaqueID env n [] = Inr opaque" and copy: "copyRegularFile (bx_file env n) bytes = Inr data"
    and blob: "blob = (Join [outbox, opaque @ ''-'' @ sanitizeFilename (at_Name a)], data)"
    using one sanitizeFilename_safe [of "at_Name a"]
    by (auto simp: wx_stage_one_def Let_def map_sum_Inr split: sum.splits prod.splits if_splits)
  have "list_all is_hex opaque" using opaque EncodeToString_hex by (cases "bx_random env n") (auto simp: randomOpaqueID_def)
  then have "plain (opaque @ ''-'' @ sanitizeFilename (at_Name a))" by (rule staged_name_plain)
  then show "staged_as env outbox n blob" using lstat copyRegularFile_exact [OF copy] outbox
    by (auto simp: staged_as_def blob Base_child)
  show "used + int (length (snd blob)) \<le> limit" using lim copyRegularFile_exact [OF copy] by (auto simp: blob)
qed

lemma wx_stage_each_exact:
  assumes "wx_stage_each env limit outbox n used as = Inr staged" and "outbox \<noteq> []"
  shows "length staged = length as \<and> (\<forall>i < length staged. staged_as env outbox (n + i) (staged ! i)) \<and>
    (as \<noteq> [] \<longrightarrow> used + int (\<Sum>blob\<leftarrow>staged. length (snd blob)) \<le> limit)"
  using assms(1)
proof (induction as arbitrary: n used staged)
  case (Cons a as)
  obtain blob rest where one: "wx_stage_one env limit outbox n used a = Inr blob"
    and rest: "wx_stage_each env limit outbox (n + 1) (used + int (length (snd blob))) as = Inr rest" and staged: "staged = blob # rest"
    using Cons.prems by (auto simp: map_sum_Inr split: sum.splits)
  note head = wx_stage_one_exact [OF one assms(2)]
  have "staged_as env outbox (n + i) (staged ! i)" if "i < length staged" for i
    using that Cons.IH [OF rest] head(1) by (cases i) (auto simp: staged)
  moreover have "used + int (\<Sum>blob\<leftarrow>staged. length (snd blob)) \<le> limit"
    using Cons.IH [OF rest] head(2) rest by (cases "as = []") (auto simp: staged)
  ultimately show ?case using Cons.IH [OF rest] by (simp add: staged)
qed simp

definition demo_attachment :: Attachment where
  "demo_attachment = \<lparr>at_ID = [], at_Kind = ''file'', at_Name = ''../x:y'', at_MediaType = [], at_Size = 3, at_LocalPath = ''/f''\<rparr>"

lemma demo_staged:
  "wx_stageAttachments (demo_wx (Inl (ErrNew []))) 10 [demo_attachment] demo_started = Inr [(''/r/a1/outbox/00-x_y'', ''abc'')]"
  by code_simp

lemma demo_started_profile: "wx_profile demo_started = Some demo_wx_profile"
  by code_simp

section \<open>Properties\<close>

text \<open>C21. Whatever names the caller gives, the files of a send are copied one for one to direct children
  of the runtime's outbox, under plain names; each copy has exactly the bytes of the regular file
  that was inspected, and together they do not exceed the configured limit.\<close>

theorem wechat_staging_confined:
  assumes "wx_stageAttachments env limit attachments d = Inr staged" and "attachments \<noteq> []" and "wx_profile d = Some profile"
  shows "length staged = length attachments \<and> int (\<Sum>blob\<leftarrow>staged. length (snd blob)) \<le> limit \<and>
    (\<forall>i < length staged. plain (Base (fst (staged ! i))) \<and> Rel (wx_outbox profile) (fst (staged ! i)) = Some (Base (fst (staged ! i))) \<and>
       snd (staged ! i) = fx_bytes (bx_file env i) \<and> fx_Lstat (bx_file env i) = Inr (True, int (length (snd (staged ! i)))))"
proof -
  have outbox: "wx_outbox profile \<noteq> []" by (simp add: wx_outbox_def Join_def)
  have "wx_stage_each env limit (wx_outbox profile) 0 0 attachments = Inr staged"
    using assms by (auto simp: wx_stageAttachments_def split: option.splits)
  note exact = wx_stage_each_exact [OF this outbox]
  have "Rel (wx_outbox profile) (fst blob) = Some (Base (fst blob))" if "staged_as env (wx_outbox profile) i blob" for i blob
    using that Rel_child [OF _ outbox] by (metis staged_as_def)
  then have "Rel (wx_outbox profile) (fst (staged ! i)) = Some (Base (fst (staged ! i)))" if "i < length staged" for i
    using exact that by (metis add_0)
  then show ?thesis using exact assms(2) by (simp add: staged_as_def)
qed

theorem wechat_staging_confined_witness:
  "wx_stageAttachments (demo_wx (Inl (ErrNew []))) 10 [demo_attachment] demo_started = Inr [(''/r/a1/outbox/00-x_y'', ''abc'')] \<and>
   Rel (wx_outbox demo_wx_profile) ''/r/a1/outbox/00-x_y'' = Some (Base ''/r/a1/outbox/00-x_y'')"
  using wechat_staging_confined [OF demo_staged _ demo_started_profile] demo_staged by simp

end
