(* ===== verification/WeChat_UIIndex.thy ===== *)
theory WeChat_UIIndex
  imports WeChat_Driver Index_Schema
begin

text \<open>
  The fallback message index over what the user interface shows,
  \<^verbatim>\<open>internal/driver/wechat/ui_index.go\<close>. An operation is one step here: the mutex of the index is held
  only around its maps, and the backend is read without it. \<open>ui_log\<close> is not a field of the Go
  struct: it is the history of the surface references that were issued and resolved.
\<close>

section \<open>Data\<close>

record VisibleConversation =
  vc_Title :: string
  vc_Kind :: string
  vc_Unread :: int
  vc_Locator :: string
  vc_Ambiguous :: bool

record VisibleMessage =
  vm_Text :: string
  vm_Kind :: string
  vm_SenderName :: string
  vm_Outgoing :: bool
  vm_AccessibleLabel :: string
  vm_SurfaceKind :: string
  vm_SurfaceLocator :: string
  vm_Confidence :: rat

record VisibleMessages =
  vs_ConversationTitle :: string
  vs_ConversationLocator :: string
  vs_Messages :: "VisibleMessage list"

record OutgoingMatch =
  om_ConversationID :: string
  om_Text :: string
  om_AttachmentCount :: int

record uiConversationEntry =
  ue_conversation :: Conversation
  ue_locator :: string
  ue_ambiguous :: bool

record outgoingBaseline =
  ob_count :: nat
  ob_title :: string

record uiSurfaceLease =
  ul_target :: SurfaceTarget
  ul_expiresAt :: time

datatype ui_event = LeaseIssued string time | LeaseResolved string time

text \<open>The sequence is an \<^verbatim>\<open>int64\<close> that counts messages; it is an integer here. The batch keeps its width.\<close>

record UIIndex =
  ui_accountID :: string
  ui_conversations :: "(string \<times> uiConversationEntry) list"
  ui_surfaces :: "(string \<times> uiSurfaceLease) list"
  ui_surfaceBatch :: "64 word"
  ui_sequences :: "(string \<times> int) list"
  ui_nextSequence :: int
  ui_baselines :: "(string \<times> outgoingBaseline) list"
  ui_log :: "ui_event list"

text \<open>What the backend and the clock answer during one operation.\<close>

record ui_env =
  ux_now :: time
  ux_visible :: "VisibleConversation list result"
  ux_messages :: "string \<Rightarrow> string \<Rightarrow> VisibleMessages result"
  ux_sha256 :: "string \<Rightarrow> 8 word list"

definition NewUIIndex :: "string \<Rightarrow> UIIndex" where
  "NewUIIndex accountID = \<lparr>ui_accountID = accountID, ui_conversations = [], ui_surfaces = [], ui_surfaceBatch = 0,
     ui_sequences = [], ui_nextSequence = 0, ui_baselines = [], ui_log = []\<rparr>"

definition uiConfidence :: rat where "uiConfidence = 55 / 100"
definition uiSurfaceRefTTL :: duration where "uiSurfaceRefTTL = 2 * minute"

section \<open>Identifiers\<close>

definition ui_field :: "string \<Rightarrow> string" where
  "ui_field s = Itoa (int (length s)) @ CHR '':'' # s"

definition ui_encoding :: "string list \<Rightarrow> string" where
  "ui_encoding vals = concat (map ui_field vals)"

definition stableUIID :: "(string \<Rightarrow> 8 word list) \<Rightarrow> string \<Rightarrow> string list \<Rightarrow> string" where
  "stableUIID sha256 pre vals = pre @ EncodeToString (take 16 (sha256 (ui_encoding vals)))"

definition outgoingKey :: "(string \<Rightarrow> 8 word list) \<Rightarrow> OutgoingMatch \<Rightarrow> string" where
  "outgoingKey sha256 m = stableUIID sha256 ''out:'' [om_ConversationID m, om_Text m, Itoa (om_AttachmentCount m)]"

definition visibleSignature :: "(string \<Rightarrow> 8 word list) \<Rightarrow> VisibleMessage \<Rightarrow> string" where
  "visibleSignature sha256 m = stableUIID sha256 ''sig:''
     [if vm_Outgoing m then ''out'' else ''in'', vm_Kind m, vm_SenderName m, vm_Text m, vm_AccessibleLabel m]"

definition validVisibleTitle :: "string \<Rightarrow> bool" where
  "validVisibleTitle s \<longleftrightarrow> s = TrimSpace s \<and> s \<noteq> [] \<and> ValidString s \<and> RuneCount s \<le> 256"

definition countExactOutgoing :: "VisibleMessage list \<Rightarrow> string \<Rightarrow> nat" where
  "countExactOutgoing messages txt = length (filter (\<lambda>m. vm_Outgoing m \<and> vm_Text m = txt) messages)"

definition ui_Available :: "ProbeResult result \<Rightarrow> bool" where
  "ui_Available probe = (case probe of Inl err \<Rightarrow> False | Inr p \<Rightarrow> pb_State p = StateOnline)"

section \<open>Conversations\<close>

definition conversationID :: "ui_env \<Rightarrow> UIIndex \<Rightarrow> string \<Rightarrow> string" where
  "conversationID env ui title = stableUIID (ux_sha256 env) ''wxui_c_'' [ui_accountID ui, title]"

definition visible_entry :: "ui_env \<Rightarrow> UIIndex \<Rightarrow> VisibleConversation list \<Rightarrow> VisibleConversation \<Rightarrow> uiConversationEntry" where
  "visible_entry env ui visible item =
     (let kind = TrimSpace (vc_Kind item)
      in \<lparr>ue_conversation = \<lparr>cv_ID = conversationID env ui (vc_Title item),
             cv_ExternalID = stableUIID (ux_sha256 env) ''ui:'' [ui_accountID ui, vc_Title item],
             cv_Title = vc_Title item, cv_Kind = (if kind = [] then ''visible'' else kind),
             cv_UnreadCount = max (vc_Unread item) 0, cv_LastMessageAt = 0, cv_Complete = False, cv_Source = ''ui''\<rparr>,
          ue_locator = vc_Locator item,
          ue_ambiguous = (vc_Ambiguous item \<or>
            length (filter (\<lambda>v. validVisibleTitle (vc_Title v) \<and> vc_Title v = vc_Title item) visible) > 1)\<rparr>)"

text \<open>The entries by identifier, in the order in which they are first seen; \<open>rest\<close> is what is left to see.\<close>

fun collect_entries ::
  "ui_env \<Rightarrow> UIIndex \<Rightarrow> VisibleConversation list \<Rightarrow> (string \<times> uiConversationEntry) list \<Rightarrow> VisibleConversation list \<Rightarrow>
    (string \<times> uiConversationEntry) list"
where
  "collect_entries env ui visible entries [] = entries"
| "collect_entries env ui visible entries (item # rest) =
     (let cid = conversationID env ui (vc_Title item)
      in if \<not> validVisibleTitle (vc_Title item) \<or> vc_Locator item = [] \<or> map_of entries cid \<noteq> None
         then collect_entries env ui visible entries rest
         else collect_entries env ui visible (entries @ [(cid, visible_entry env ui visible item)]) rest)"

definition ui_ListConversations ::
  "ui_env \<Rightarrow> ConversationQuery \<Rightarrow> UIIndex \<Rightarrow> Conversation list result \<times> UIIndex"
where
  "ui_ListConversations env q ui =
     (if cq_Unread q then (Inl (ErrNew ''UI fallback cannot determine unread state without guessing''), ui)
      else case ux_visible env of
          Inl err \<Rightarrow> (Inl err, ui)
        | Inr visible \<Rightarrow>
            let entries = collect_entries env ui visible [] visible;
                search = ToLower (TrimSpace (cq_Search q));
                limit = (if cq_Limit q \<le> 0 \<or> cq_Limit q > 500 then 100 else cq_Limit q);
                found = filter (\<lambda>c. search = [] \<or> Contains (ToLower (cv_Title c)) search) (map (ue_conversation \<circ> snd) entries)
            in (Inr (take (nat limit) found), ui\<lparr>ui_conversations := entries\<rparr>))"

definition refreshConversation :: "ui_env \<Rightarrow> string \<Rightarrow> UIIndex \<Rightarrow> uiConversationEntry result \<times> UIIndex" where
  "refreshConversation env cid ui =
     (case ui_ListConversations env \<lparr>cq_Search = [], cq_Unread = False, cq_Limit = 500\<rparr> ui of
        (Inl err, ui1) \<Rightarrow> (Inl err, ui1)
      | (Inr listed, ui1) \<Rightarrow>
          ((case map_of (ui_conversations ui1) cid of None \<Rightarrow> Inl wxErrConversationMissing | Some e \<Rightarrow> Inr e), ui1))"

definition ui_Conversation :: "ui_env \<Rightarrow> string \<Rightarrow> UIIndex \<Rightarrow> Conversation result \<times> UIIndex" where
  "ui_Conversation env cid ui =
     (case refreshConversation env cid ui of
        (Inl err, ui1) \<Rightarrow> (Inl err, ui1)
      | (Inr e, ui1) \<Rightarrow>
          (if ue_ambiguous e then Inl wxErrTargetAmbiguous
           else Inr ((ue_conversation e)\<lparr>cv_ExternalID := ue_locator e\<rparr>), ui1))"

definition rememberVisibleConversation ::
  "ui_env \<Rightarrow> string \<Rightarrow> string \<Rightarrow> UIIndex \<Rightarrow> uiConversationEntry result \<times> UIIndex"
where
  "rememberVisibleConversation env title locator ui =
     (if \<not> validVisibleTitle title \<or> locator = [] then (Inl wxErrConversationMissing, ui)
      else
        let cid = conversationID env ui title;
            entry = (case map_of (ui_conversations ui) cid of
                Some e \<Rightarrow> e
              | None \<Rightarrow> \<lparr>ue_conversation = \<lparr>cv_ID = cid, cv_ExternalID = stableUIID (ux_sha256 env) ''ui:'' [ui_accountID ui, title],
                    cv_Title = title, cv_Kind = ''visible'', cv_UnreadCount = 0, cv_LastMessageAt = 0, cv_Complete = False,
                    cv_Source = ''ui''\<rparr>, ue_locator = [], ue_ambiguous = False\<rparr>)
        in if cv_Title (ue_conversation entry) \<noteq> title then (Inl wxErrTargetAmbiguous, ui)
           else
             let entry = entry\<lparr>ue_locator := locator\<rparr>
             in (Inr entry, ui\<lparr>ui_conversations := AList.update cid entry (ui_conversations ui)\<rparr>))"

section \<open>Messages\<close>

definition trimmed_visible :: "VisibleMessage \<Rightarrow> VisibleMessage" where
  "trimmed_visible item =
     (let kind = TrimSpace (vm_Kind item)
      in item\<lparr>vm_Kind := (if kind = [] then ''text'' else kind), vm_AccessibleLabel := TrimSpace (vm_AccessibleLabel item),
              vm_SurfaceLocator := TrimSpace (vm_SurfaceLocator item)\<rparr>)"

text \<open>\<open>n\<close> is the occurrence of the item's signature in the batch; the sequence is given afterwards.\<close>

definition message_of :: "ui_env \<Rightarrow> UIIndex \<Rightarrow> uiConversationEntry \<Rightarrow> nat \<Rightarrow> VisibleMessage \<Rightarrow> Message" where
  "message_of env ui entry n item =
     (let cid = cv_ID (ue_conversation entry);
          externalID = stableUIID (ux_sha256 env) ''ui:'' [ui_accountID ui, cid, visibleSignature (ux_sha256 env) item, Itoa (int n)];
          messageID = stableUIID (ux_sha256 env) ''wxui_m_'' [externalID]
      in \<lparr>ms_ID = messageID, ms_ExternalID = externalID, ms_ConversationID = cid, ms_GapBefore = False, ms_SenderID = [],
          ms_SenderName = vm_SenderName item, ms_SentAt = ux_now env, ms_Kind = vm_Kind item, ms_Text = vm_Text item,
          ms_Attachments = [], ms_ReplyTo = [],
          ms_SurfaceRef =
            (if vm_SurfaceKind item \<noteq> [] \<and> vm_AccessibleLabel item \<noteq> [] \<and> vm_SurfaceLocator item \<noteq> []
             then stableUIID (ux_sha256 env) ''wxui_s_'' [messageID, vm_SurfaceKind item, vm_AccessibleLabel item,
                    vm_SurfaceLocator item, Itoa (uint (ui_surfaceBatch ui))]
             else []),
          ms_Source = ''ui'', ms_Complete = False,
          ms_Confidence = (if vm_Confidence item \<le> 0 \<or> vm_Confidence item \<ge> 1 then uiConfidence else vm_Confidence item),
          ms_Raw = [], ms_Sequence = 0\<rparr>)"

definition lease_of :: "ui_env \<Rightarrow> uiConversationEntry \<Rightarrow> string \<Rightarrow> VisibleMessage \<Rightarrow> uiSurfaceLease" where
  "lease_of env entry reference item =
     \<lparr>ul_target = \<lparr>tg_Reference = reference, tg_ConversationID = cv_ID (ue_conversation entry),
        tg_ConversationTitle = cv_Title (ue_conversation entry), tg_ConversationLocator = ue_locator entry,
        tg_AccessibleLabel = vm_AccessibleLabel item, tg_Kind = vm_SurfaceKind item, tg_SurfaceLocator = vm_SurfaceLocator item\<rparr>,
      ul_expiresAt = ux_now env + uiSurfaceRefTTL\<rparr>"

definition issue_lease :: "ui_env \<Rightarrow> uiConversationEntry \<Rightarrow> string \<Rightarrow> VisibleMessage \<Rightarrow> UIIndex \<Rightarrow> UIIndex" where
  "issue_lease env entry reference item ui =
     (if reference = [] then ui
      else ui\<lparr>ui_surfaces := AList.update reference (lease_of env entry reference item) (ui_surfaces ui),
              ui_log := ui_log ui @ [LeaseIssued reference (ux_now env)]\<rparr>)"

definition give_sequence :: "string \<Rightarrow> UIIndex \<Rightarrow> int \<times> UIIndex" where
  "give_sequence messageID ui =
     (case map_of (ui_sequences ui) messageID of
        Some n \<Rightarrow> (n, ui)
      | None \<Rightarrow>
          let n = ui_nextSequence ui + 1
          in (n, ui\<lparr>ui_sequences := AList.update messageID n (ui_sequences ui), ui_nextSequence := n\<rparr>))"

text \<open>\<open>seen\<close> are the signatures of the items so far.\<close>

fun normalize_each ::
  "ui_env \<Rightarrow> uiConversationEntry \<Rightarrow> string list \<Rightarrow> VisibleMessage list \<Rightarrow> UIIndex \<Rightarrow> (Message \<times> VisibleMessage) list \<times> UIIndex"
where
  "normalize_each env entry seen [] ui = ([], ui)"
| "normalize_each env entry seen (item # rest) ui =
     (let item = trimmed_visible item
      in if TrimSpace (vm_Text item) = [] \<and> vm_AccessibleLabel item = [] then normalize_each env entry seen rest ui
         else
           let signature = visibleSignature (ux_sha256 env) item;
               message = message_of env ui entry (count_list seen signature + 1) item;
               ui1 = issue_lease env entry (ms_SurfaceRef message) item ui;
               given = give_sequence (ms_ID message) ui1;
               others = normalize_each env entry (signature # seen) rest (snd given)
           in ((message\<lparr>ms_Sequence := fst given\<rparr>, item) # fst others, snd others))"

definition live_leases :: "time \<Rightarrow> string \<Rightarrow> (string \<times> uiSurfaceLease) list \<Rightarrow> (string \<times> uiSurfaceLease) list" where
  "live_leases now cid = filter (\<lambda>(r, l). \<not> (tg_ConversationID (ul_target l) = cid \<or> now \<ge> ul_expiresAt l))"

definition normalizeVisible ::
  "ui_env \<Rightarrow> uiConversationEntry \<Rightarrow> VisibleMessage list \<Rightarrow> UIIndex \<Rightarrow> (Message \<times> VisibleMessage) list \<times> UIIndex"
where
  "normalizeVisible env entry visible ui =
     (let ui1 = ui\<lparr>ui_surfaces := live_leases (ux_now env) (cv_ID (ue_conversation entry)) (ui_surfaces ui),
            ui_surfaceBatch := ui_surfaceBatch ui + 1\<rparr>;
          out = normalize_each env entry [] visible ui1
      in (sort_key (ms_Sequence \<circ> fst) (fst out), snd out))"

text \<open>\<open>named\<close> is the conversation that the query asks for, or the one in the foreground.\<close>

definition read_visible :: "ui_env \<Rightarrow> MessageQuery \<Rightarrow> string \<Rightarrow> string \<Rightarrow> UIIndex \<Rightarrow> Message list result \<times> UIIndex" where
  "read_visible env q title locator ui =
     (case ux_messages env title locator of
        Inl err \<Rightarrow> (Inl err, ui)
      | Inr visible \<Rightarrow>
          if title \<noteq> [] \<and> vs_ConversationTitle visible \<noteq> title then (Inl wxErrTargetAmbiguous, ui)
          else case rememberVisibleConversation env (vs_ConversationTitle visible) (vs_ConversationLocator visible) ui of
              (Inl err, ui1) \<Rightarrow> (Inl err, ui1)
            | (Inr entry, ui1) \<Rightarrow>
                let normalized = normalizeVisible env entry (vs_Messages visible) ui1;
                    limit = (if mq_Limit q \<le> 0 \<or> mq_Limit q > 1000 then 100 else mq_Limit q)
                in (Inr (take (nat limit) (filter (\<lambda>m. ms_Sequence m > mq_AfterSequence q) (map fst (fst normalized)))), snd normalized))"

definition ui_ReadMessages :: "ui_env \<Rightarrow> MessageQuery \<Rightarrow> UIIndex \<Rightarrow> Message list result \<times> UIIndex" where
  "ui_ReadMessages env q ui =
     (if mq_Before q \<noteq> 0 then (Inl (ErrNew ''UI fallback has observation times, not reliable message timestamps''), ui)
      else if mq_ConversationID q = [] then read_visible env q [] [] ui
      else case refreshConversation env (mq_ConversationID q) ui of
          (Inl err, ui1) \<Rightarrow> (Inl err, ui1)
        | (Inr e, ui1) \<Rightarrow> read_visible env q (cv_Title (ue_conversation e)) (ue_locator e) ui1)"

section \<open>Surface references\<close>

definition ui_ResolveSurface :: "ui_env \<Rightarrow> string \<Rightarrow> UIIndex \<Rightarrow> SurfaceTarget result \<times> UIIndex" where
  "ui_ResolveSurface env reference ui =
     (case map_of (ui_surfaces ui) reference of
        None \<Rightarrow> (Inl wxErrSurfaceMissing, ui)
      | Some lease \<Rightarrow>
          let ui1 = ui\<lparr>ui_surfaces := AList.delete reference (ui_surfaces ui)\<rparr>
          in if ux_now env \<ge> ul_expiresAt lease then (Inl wxErrSurfaceMissing, ui1)
             else case map_of (ui_conversations ui) (tg_ConversationID (ul_target lease)) of
                 None \<Rightarrow> (Inl wxErrTargetAmbiguous, ui1)
               | Some entry \<Rightarrow>
                   if ue_ambiguous entry then (Inl wxErrTargetAmbiguous, ui1)
                   else (Inr ((ul_target lease)\<lparr>tg_ConversationTitle := cv_Title (ue_conversation entry),
                                tg_ConversationLocator := ue_locator entry\<rparr>),
                         ui1\<lparr>ui_log := ui_log ui1 @ [LeaseResolved reference (ux_now env)]\<rparr>))"

section \<open>Verification of outgoing messages\<close>

definition verifiable :: "OutgoingMatch \<Rightarrow> bool" where
  "verifiable m \<longleftrightarrow> \<not> (om_Text m = [] \<or> om_Text m \<noteq> TrimSpace (om_Text m) \<or> om_AttachmentCount m \<noteq> 0)"

definition ui_PrepareOutgoing :: "ui_env \<Rightarrow> OutgoingMatch \<Rightarrow> UIIndex \<Rightarrow> go_error option \<times> UIIndex" where
  "ui_PrepareOutgoing env m ui =
     (if \<not> verifiable m then (None, ui)
      else case map_of (ui_conversations ui) (om_ConversationID m) of
          None \<Rightarrow> (Some wxErrConversationMissing, ui)
        | Some entry \<Rightarrow>
            if ue_ambiguous entry then (Some wxErrTargetAmbiguous, ui)
            else case ux_messages env (cv_Title (ue_conversation entry)) (ue_locator entry) of
                Inl err \<Rightarrow> (Some err, ui)
              | Inr visible \<Rightarrow>
                  if vs_ConversationTitle visible \<noteq> cv_Title (ue_conversation entry) then (Some wxErrTargetAmbiguous, ui)
                  else (None, ui\<lparr>ui_baselines := AList.update (outgoingKey (ux_sha256 env) m)
                         \<lparr>ob_count = countExactOutgoing (vs_Messages visible) (om_Text m), ob_title = cv_Title (ue_conversation entry)\<rparr>
                         (ui_baselines ui)\<rparr>))"

text \<open>The message that exceeds the baseline, counting in the order of the sequences.\<close>

fun beyond_baseline :: "nat \<Rightarrow> string \<Rightarrow> (Message \<times> VisibleMessage) list \<Rightarrow> Message option" where
  "beyond_baseline n txt [] = None"
| "beyond_baseline n txt ((m, v) # rest) =
     (if vm_Outgoing v \<and> vm_Text v = txt
      then (if n = 0 then Some m else beyond_baseline (n - 1) txt rest)
      else beyond_baseline n txt rest)"

text \<open>How a round ends when nothing was found: the ticker, the deadline or the context.\<close>

datatype wait_end = WaitTick | WaitDeadline | WaitCancelled go_error

definition observe_outgoing :: "ui_env \<Rightarrow> OutgoingMatch \<Rightarrow> outgoingBaseline \<Rightarrow> uiConversationEntry \<Rightarrow> UIIndex \<Rightarrow> Message option \<times> UIIndex" where
  "observe_outgoing env m baseline entry ui =
     (case ux_messages env (cv_Title (ue_conversation entry)) (ue_locator entry) of
        Inl err \<Rightarrow> (None, ui)
      | Inr visible \<Rightarrow>
          if vs_ConversationTitle visible \<noteq> ob_title baseline then (None, ui)
          else case rememberVisibleConversation env (vs_ConversationTitle visible) (vs_ConversationLocator visible) ui of
              (Inl err, ui1) \<Rightarrow> (None, ui1)
            | (Inr entry', ui1) \<Rightarrow>
                let normalized = normalizeVisible env entry' (vs_Messages visible) ui1
                in (beyond_baseline (ob_count baseline) (om_Text m) (fst normalized), snd normalized))"

text \<open>\<open>None\<close> is a wait that has not returned after the given rounds.\<close>

fun wait_rounds ::
  "OutgoingMatch \<Rightarrow> outgoingBaseline \<Rightarrow> (ui_env \<times> wait_end) list \<Rightarrow> UIIndex \<Rightarrow> Message result option \<times> UIIndex"
where
  "wait_rounds m baseline [] ui = (None, ui)"
| "wait_rounds m baseline ((env, stop) # rounds) ui =
     (let ends = (\<lambda>text ui1. case stop of
            WaitTick \<Rightarrow> wait_rounds m baseline rounds ui1
          | WaitDeadline \<Rightarrow> (Some (Inl (ErrNew text)), ui1)
          | WaitCancelled err \<Rightarrow> (Some (Inl err), ui1))
      in case refreshConversation env (om_ConversationID m) ui of
          (Inl err, ui1) \<Rightarrow> ends ''exact outgoing conversation was no longer visible'' ui1
        | (Inr entry, ui1) \<Rightarrow>
            if ue_ambiguous entry \<or> cv_Title (ue_conversation entry) \<noteq> ob_title baseline
            then ends ''exact outgoing conversation was no longer visible'' ui1
            else (case observe_outgoing env m baseline entry ui1 of
                (Some message, ui2) \<Rightarrow> (Some (Inr message), ui2)
              | (None, ui2) \<Rightarrow> ends ''new outgoing UI message was not observed'' ui2))"

definition ui_WaitOutgoing ::
  "(string \<Rightarrow> 8 word list) \<Rightarrow> OutgoingMatch \<Rightarrow> (ui_env \<times> wait_end) list \<Rightarrow> UIIndex \<Rightarrow> Message result option \<times> UIIndex"
where
  "ui_WaitOutgoing sha256 m rounds ui =
     (if \<not> verifiable m then (Some (Inl (ErrNew ''UI fallback cannot verify attachment-only or shared-surface sends'')), ui)
      else case map_of (ui_baselines ui) (outgoingKey sha256 m) of
          None \<Rightarrow> (Some (Inl (ErrNew ''UI outgoing baseline was not captured'')), ui)
        | Some baseline \<Rightarrow>
            (case wait_rounds m baseline rounds ui of
               (None, ui1) \<Rightarrow> (None, ui1)
             | (Some answer, ui1) \<Rightarrow>
                 (Some answer, ui1\<lparr>ui_baselines := AList.delete (outgoingKey sha256 m) (ui_baselines ui1)\<rparr>)))"

end
