(* ===== verification/UIIndex_Props.thy ===== *)
theory UIIndex_Props
  imports WeChat_UIIndex WeChat_Props
begin

text \<open>
  What the fallback index guarantees: a surface reference is a click lease that is resolved at most
  once, sequence numbers are stable cursors, a conversation is only resolved when it is visible
  exactly once, and a send is only verified by one more visible copy of its text.
\<close>

section \<open>Conversations\<close>

lemma collect_entries_sound:
  assumes "(cid, e) \<in> set (collect_entries env ui visible entries items)"
  shows "(cid, e) \<in> set entries \<or> (\<exists>item \<in> set items. e = visible_entry env ui visible item \<and>
    cid = conversationID env ui (vc_Title item) \<and> validVisibleTitle (vc_Title item) \<and> vc_Locator item \<noteq> [])"
  using assms
  by (induction env ui visible entries items rule: collect_entries.induct) (auto simp: Let_def split: if_splits)

lemma refreshConversation_sound:
  assumes "refreshConversation env cid ui = (Inr e, ui')"
  obtains visible item where "ux_visible env = Inr visible" "item \<in> set visible" "e = visible_entry env ui visible item"
    "cid = conversationID env ui (vc_Title item)" "validVisibleTitle (vc_Title item)" "vc_Locator item \<noteq> []"
    "ui' = ui\<lparr>ui_conversations := collect_entries env ui visible [] visible\<rparr>"
proof -
  obtain visible where v: "ux_visible env = Inr visible"
    and ui': "ui' = ui\<lparr>ui_conversations := collect_entries env ui visible [] visible\<rparr>"
    and "map_of (collect_entries env ui visible [] visible) cid = Some e"
    using assms by (auto simp: refreshConversation_def ui_ListConversations_def Let_def split: sum.splits option.splits)
  then have "(cid, e) \<in> set (collect_entries env ui visible [] visible)" by (simp add: map_of_SomeD)
  then show thesis using collect_entries_sound that v ui' by fastforce
qed

lemma unambiguous_entry:
  assumes "item \<in> set visible" and "validVisibleTitle (vc_Title item)" and "\<not> ue_ambiguous (visible_entry env ui visible item)"
  shows "filter (\<lambda>v. validVisibleTitle (vc_Title v) \<and> vc_Title v = vc_Title item) visible = [item] \<and> \<not> vc_Ambiguous item"
proof -
  let ?same = "filter (\<lambda>v. validVisibleTitle (vc_Title v) \<and> vc_Title v = vc_Title item) visible"
  have "item \<in> set ?same" using assms(1,2) by simp
  moreover have "length ?same \<le> 1" "\<not> vc_Ambiguous item" using assms(3) by (auto simp: visible_entry_def Let_def)
  ultimately show ?thesis by (cases ?same) auto
qed

section \<open>Leases\<close>

text \<open>The last event of a reference is an issue at the given time.\<close>

definition issued_last :: "string \<Rightarrow> time \<Rightarrow> ui_event list \<Rightarrow> bool" where
  "issued_last ref t es \<longleftrightarrow> (\<exists>u v. es = u @ LeaseIssued ref t # v \<and> (\<forall>s. LeaseResolved ref s \<notin> set v))"

definition leases_inv :: "UIIndex \<Rightarrow> bool" where
  "leases_inv ui \<longleftrightarrow> (\<forall>ref lease. map_of (ui_surfaces ui) ref = Some lease \<longrightarrow>
     (\<exists>t. issued_last ref t (ui_log ui) \<and> ul_expiresAt lease = t + uiSurfaceRefTTL))"

text \<open>Every resolution uses up an issue that is less than two minutes old.\<close>

definition one_click :: "ui_event list \<Rightarrow> bool" where
  "one_click es \<longleftrightarrow> (\<forall>u ref t v. es = u @ LeaseResolved ref t # v \<longrightarrow>
     (\<exists>s. issued_last ref s u \<and> t < s + uiSurfaceRefTTL))"

definition ui_inv :: "UIIndex \<Rightarrow> bool" where
  "ui_inv ui \<longleftrightarrow> distinct (map fst (ui_surfaces ui)) \<and> leases_inv ui \<and> one_click (ui_log ui) \<and>
     inj_on (map_of (ui_sequences ui)) (dom (map_of (ui_sequences ui))) \<and>
     (\<forall>i n. map_of (ui_sequences ui) i = Some n \<longrightarrow> 0 < n \<and> n \<le> ui_nextSequence ui) \<and> 0 \<le> ui_nextSequence ui"

lemma issued_last_new: "issued_last ref t (es @ [LeaseIssued ref t])"
  unfolding issued_last_def by (intro exI [of _ es] exI [of _ "[]"]) simp

lemma issued_last_other:
  assumes "issued_last ref t es" and "\<And>s. x \<noteq> LeaseResolved ref s"
  shows "issued_last ref t (es @ [x])"
proof -
  obtain u v where "es = u @ LeaseIssued ref t # v" "\<forall>s. LeaseResolved ref s \<notin> set v"
    using assms(1) unfolding issued_last_def by blast
  then show ?thesis unfolding issued_last_def using assms(2) by (intro exI [of _ u] exI [of _ "v @ [x]"]) auto
qed

lemma one_click_snoc:
  assumes "one_click es" and "\<And>ref t. x = LeaseResolved ref t \<Longrightarrow> \<exists>s. issued_last ref s es \<and> t < s + uiSurfaceRefTTL"
  shows "one_click (es @ [x])"
  unfolding one_click_def
proof (intro allI impI)
  fix u ref t v assume "es @ [x] = u @ LeaseResolved ref t # v"
  then consider "u = es" "x = LeaseResolved ref t" | v' where "es = u @ LeaseResolved ref t # v'"
    unfolding snoc_split by metis
  then show "\<exists>s. issued_last ref s u \<and> t < s + uiSurfaceRefTTL"
  proof cases
    case 1
    then show ?thesis using assms(2) by simp
  next
    case 2
    then show ?thesis using assms(1) unfolding one_click_def by blast
  qed
qed

text \<open>What one operation may do to an index: forget leases and extend the sequences.\<close>

definition ui_grows :: "UIIndex \<Rightarrow> UIIndex \<Rightarrow> bool" where
  "ui_grows ui ui' \<longleftrightarrow> (ui_inv ui \<longrightarrow> ui_inv ui') \<and> ui_accountID ui' = ui_accountID ui \<and>
     ui_nextSequence ui \<le> ui_nextSequence ui' \<and>
     (\<forall>i n. map_of (ui_sequences ui) i = Some n \<longrightarrow> map_of (ui_sequences ui') i = Some n) \<and>
     (\<forall>i n. map_of (ui_sequences ui) i = None \<longrightarrow> map_of (ui_sequences ui') i = Some n \<longrightarrow> ui_nextSequence ui < n)"

lemma ui_grows_refl: "ui_grows ui ui"
  by (simp add: ui_grows_def)

lemma ui_grows_trans:
  assumes "ui_grows a b" and "ui_grows b c"
  shows "ui_grows a c"
proof -
  have "ui_nextSequence a < n" if i: "map_of (ui_sequences a) i = None" "map_of (ui_sequences c) i = Some n" for i n
  proof (cases "map_of (ui_sequences b) i")
    case None
    then have "ui_nextSequence a \<le> ui_nextSequence b" "ui_nextSequence b < n" using assms i(2) unfolding ui_grows_def by blast+
    then show ?thesis by simp
  next
    case (Some k)
    then have "ui_nextSequence a < k" "k = n" using assms i unfolding ui_grows_def by fastforce+
    then show ?thesis by simp
  qed
  moreover have "ui_inv a \<longrightarrow> ui_inv c" "ui_accountID c = ui_accountID a" "ui_nextSequence a \<le> ui_nextSequence c"
    "\<forall>i n. map_of (ui_sequences a) i = Some n \<longrightarrow> map_of (ui_sequences c) i = Some n"
    using assms unfolding ui_grows_def by simp_all
  ultimately show ?thesis unfolding ui_grows_def by blast
qed

lemma ui_inv_fewer:
  assumes "ui_inv ui" and "distinct (map fst (ui_surfaces ui')) \<and> set (ui_surfaces ui') \<subseteq> set (ui_surfaces ui)"
    and "ui_log ui' = ui_log ui" and "ui_sequences ui' = ui_sequences ui" and "ui_nextSequence ui' = ui_nextSequence ui"
  shows "ui_inv ui'"
proof -
  have "map_of (ui_surfaces ui) r = Some l" if "map_of (ui_surfaces ui') r = Some l" for r l
    using that assms(1,2) unfolding ui_inv_def by (meson map_of_SomeD map_of_is_SomeI subsetD)
  then have "leases_inv ui'" using assms(1,3) unfolding ui_inv_def leases_inv_def by simp
  then show ?thesis using assms by (simp add: ui_inv_def)
qed

lemma ui_grows_fewer:
  "(distinct (map fst (ui_surfaces ui)) \<Longrightarrow> distinct (map fst (ui_surfaces ui')) \<and> set (ui_surfaces ui') \<subseteq> set (ui_surfaces ui)) \<Longrightarrow>
   ui_log ui' = ui_log ui \<Longrightarrow> ui_sequences ui' = ui_sequences ui \<Longrightarrow> ui_nextSequence ui' = ui_nextSequence ui \<Longrightarrow>
   ui_accountID ui' = ui_accountID ui \<Longrightarrow> ui_grows ui ui'"
  using ui_inv_fewer [of ui ui'] by (simp add: ui_grows_def ui_inv_def)

lemma issue_lease_grows: "ui_grows ui (issue_lease env entry ref item ui)"
proof (cases "ref = []")
  case False
  let ?ui = "issue_lease env entry ref item ui"
  have log: "ui_log ?ui = ui_log ui @ [LeaseIssued ref (ux_now env)]" using False by (simp add: issue_lease_def)
  have "ui_inv ?ui" if inv: "ui_inv ui"
  proof -
    have "leases_inv ?ui"
      unfolding leases_inv_def
    proof (intro allI impI)
      fix r l assume r: "map_of (ui_surfaces ?ui) r = Some l"
      show "\<exists>t. issued_last r t (ui_log ?ui) \<and> ul_expiresAt l = t + uiSurfaceRefTTL"
      proof (cases "r = ref")
        case True
        then show ?thesis using r False issued_last_new [of ref "ux_now env"] log
          by (auto simp: issue_lease_def update_conv' lease_of_def)
      next
        case other: False
        then have "map_of (ui_surfaces ui) r = Some l" using r False by (simp add: issue_lease_def update_conv')
        then obtain t where "issued_last r t (ui_log ui)" "ul_expiresAt l = t + uiSurfaceRefTTL"
          using inv unfolding ui_inv_def leases_inv_def by blast
        then show ?thesis using issued_last_other [of r t "ui_log ui"] log by auto
      qed
    qed
    moreover have "one_click (ui_log ?ui)"
      unfolding log by (rule one_click_snoc) (use inv in \<open>simp_all add: ui_inv_def\<close>)
    moreover have "distinct (map fst (ui_surfaces ?ui))" using inv False by (simp add: ui_inv_def issue_lease_def distinct_update)
    ultimately show ?thesis using inv False by (simp add: ui_inv_def issue_lease_def)
  qed
  then show ?thesis using False by (simp add: ui_grows_def issue_lease_def)
qed (simp add: issue_lease_def ui_grows_refl)

lemma give_sequence_grows:
  "ui_grows ui (snd (give_sequence i ui))" "map_of (ui_sequences (snd (give_sequence i ui))) i = Some (fst (give_sequence i ui))"
proof -
  show "map_of (ui_sequences (snd (give_sequence i ui))) i = Some (fst (give_sequence i ui))"
    by (simp add: give_sequence_def Let_def update_conv' split: option.splits)
  show "ui_grows ui (snd (give_sequence i ui))"
  proof (cases "map_of (ui_sequences ui) i")
    case None
    let ?ui = "snd (give_sequence i ui)"
    have seqs: "map_of (ui_sequences ?ui) = (map_of (ui_sequences ui))(i \<mapsto> ui_nextSequence ui + 1)"
      "ui_nextSequence ?ui = ui_nextSequence ui + 1"
      using None by (simp_all add: give_sequence_def Let_def update_conv')
    have "ui_inv ?ui" if inv: "ui_inv ui"
    proof -
      have bound: "n \<le> ui_nextSequence ui" if "map_of (ui_sequences ui) j = Some n" for j n
        using inv that unfolding ui_inv_def by blast
      have "inj_on (map_of (ui_sequences ?ui)) (dom (map_of (ui_sequences ?ui)))"
      proof (rule inj_onI)
        fix j k assume jk: "j \<in> dom (map_of (ui_sequences ?ui))" "k \<in> dom (map_of (ui_sequences ?ui))"
          "map_of (ui_sequences ?ui) j = map_of (ui_sequences ?ui) k"
        have inj: "inj_on (map_of (ui_sequences ui)) (dom (map_of (ui_sequences ui)))" using inv by (simp add: ui_inv_def)
        show "j = k"
        proof (cases "j = i \<or> k = i")
          case True
          show ?thesis
          proof (rule ccontr)
            assume "j \<noteq> k"
            then have "map_of (ui_sequences ui) (if j = i then k else j) = Some (ui_nextSequence ui + 1)"
              using True jk(3) by (auto simp: seqs split: if_splits)
            then show False using bound by fastforce
          qed
        next
          case False
          then show ?thesis using jk inj_onD [OF inj, of j k] by (auto simp: seqs)
        qed
      qed
      moreover have "distinct (map fst (ui_surfaces ?ui))" "leases_inv ?ui" "one_click (ui_log ?ui)" "0 \<le> ui_nextSequence ?ui"
        using inv None by (auto simp: ui_inv_def leases_inv_def give_sequence_def Let_def)
      moreover have "0 < n \<and> n \<le> ui_nextSequence ?ui" if "map_of (ui_sequences ?ui) j = Some n" for j n
        using that inv bound [of j n] unfolding seqs ui_inv_def by (cases "j = i") force+
      ultimately show ?thesis unfolding ui_inv_def by blast
    qed
    moreover have "ui_accountID ?ui = ui_accountID ui" using None by (simp add: give_sequence_def Let_def)
    ultimately show ?thesis using None by (auto simp: ui_grows_def seqs)
  qed (simp add: give_sequence_def ui_grows_refl)
qed

lemma normalize_each_grows:
  "ui_grows ui (snd (normalize_each env entry seen items ui)) \<and>
   (\<forall>(m, v) \<in> set (fst (normalize_each env entry seen items ui)).
      map_of (ui_sequences (snd (normalize_each env entry seen items ui))) (ms_ID m) = Some (ms_Sequence m))"
proof (induction env entry seen items ui rule: normalize_each.induct)
  case (2 env entry seen item rest ui)
  let ?item = "trimmed_visible item"
  show ?case
  proof (cases "TrimSpace (vm_Text ?item) = [] \<and> vm_AccessibleLabel ?item = []")
    case True
    then show ?thesis using 2(1) by (simp add: Let_def)
  next
    case False
    define signature where "signature = visibleSignature (ux_sha256 env) ?item"
    define message where "message = message_of env ui entry (count_list seen signature + 1) ?item"
    define ui1 where "ui1 = issue_lease env entry (ms_SurfaceRef message) ?item ui"
    define given where "given = give_sequence (ms_ID message) ui1"
    define others where "others = normalize_each env entry (signature # seen) rest (snd given)"
    have out: "normalize_each env entry seen (item # rest) ui = ((message\<lparr>ms_Sequence := fst given\<rparr>, ?item) # fst others, snd others)"
      unfolding normalize_each.simps Let_def if_not_P [OF False] others_def given_def ui1_def message_def signature_def by (rule refl)
    note step = 2(2) [OF refl False signature_def message_def ui1_def given_def]
    have ih: "ui_grows (snd given) (snd others)"
      "\<forall>(m, v) \<in> set (fst others). map_of (ui_sequences (snd others)) (ms_ID m) = Some (ms_Sequence m)"
      using step unfolding others_def by blast+
    have "ui_grows ui (snd given)"
      using ui_grows_trans [OF issue_lease_grows give_sequence_grows(1)] by (simp add: given_def ui1_def)
    moreover have "map_of (ui_sequences (snd others)) (ms_ID message) = Some (fst given)"
      using ih(1) give_sequence_grows(2) unfolding ui_grows_def given_def by blast
    ultimately show ?thesis using ih ui_grows_trans unfolding out by auto
  qed
qed (simp add: ui_grows_refl)


lemma normalizeVisible_grows:
  "ui_grows ui (snd (normalizeVisible env entry visible ui))"
  "(m, v) \<in> set (fst (normalizeVisible env entry visible ui)) \<Longrightarrow>
     map_of (ui_sequences (snd (normalizeVisible env entry visible ui))) (ms_ID m) = Some (ms_Sequence m)"
  "sorted (map (ms_Sequence \<circ> fst) (fst (normalizeVisible env entry visible ui)))"
proof -
  let ?ui = "ui\<lparr>ui_surfaces := live_leases (ux_now env) (cv_ID (ue_conversation entry)) (ui_surfaces ui), ui_surfaceBatch := ui_surfaceBatch ui + 1\<rparr>"
  have "ui_grows ui ?ui"
    by (rule ui_grows_fewer) (auto simp: live_leases_def distinct_map_filter)
  then show "ui_grows ui (snd (normalizeVisible env entry visible ui))"
    using ui_grows_trans normalize_each_grows [of ?ui] by (auto simp: normalizeVisible_def Let_def)
  show "map_of (ui_sequences (snd (normalizeVisible env entry visible ui))) (ms_ID m) = Some (ms_Sequence m)"
    if "(m, v) \<in> set (fst (normalizeVisible env entry visible ui))"
    using that normalize_each_grows [of ?ui env entry "[]" visible] by (auto simp: normalizeVisible_def Let_def)
  show "sorted (map (ms_Sequence \<circ> fst) (fst (normalizeVisible env entry visible ui)))"
    by (simp add: normalizeVisible_def Let_def)
qed

lemma conversations_grow: "ui_grows ui (ui\<lparr>ui_conversations := cs\<rparr>)"
  by (rule ui_grows_fewer) simp_all

lemma ui_ListConversations_grows: "ui_grows ui (snd (ui_ListConversations env q ui))"
  using conversations_grow by (auto simp: ui_ListConversations_def Let_def ui_grows_refl split: sum.splits)

lemma refreshConversation_grows: "ui_grows ui (snd (refreshConversation env cid ui))"
  using ui_ListConversations_grows [of ui env "\<lparr>cq_Search = [], cq_Unread = False, cq_Limit = 500\<rparr>"]
  by (auto simp: refreshConversation_def split: sum.splits prod.splits)

lemma rememberVisibleConversation_grows: "ui_grows ui (snd (rememberVisibleConversation env title locator ui))"
  using conversations_grow by (auto simp: rememberVisibleConversation_def Let_def ui_grows_refl)

lemma ui_Conversation_grows: "ui_grows ui (snd (ui_Conversation env cid ui))"
  using refreshConversation_grows [of ui env cid] by (auto simp: ui_Conversation_def split: sum.splits prod.splits)

lemma read_visible_grows: "ui_grows ui (snd (read_visible env q title locator ui))"
proof (cases "ux_messages env title locator")
  case (Inr visible)
  obtain r ui1 where r: "rememberVisibleConversation env (vs_ConversationTitle visible) (vs_ConversationLocator visible) ui = (r, ui1)"
    by fastforce
  then have "ui_grows ui ui1" using rememberVisibleConversation_grows [of ui env] by (metis snd_conv)
  then show ?thesis using Inr r ui_grows_trans normalizeVisible_grows(1)
    by (auto simp: read_visible_def Let_def ui_grows_refl split: sum.splits)
qed (simp add: read_visible_def ui_grows_refl)

lemma ui_ReadMessages_grows: "ui_grows ui (snd (ui_ReadMessages env q ui))"
proof -
  obtain r ui1 where r: "refreshConversation env (mq_ConversationID q) ui = (r, ui1)" by fastforce
  then have "ui_grows ui ui1" using refreshConversation_grows [of ui env] by (metis snd_conv)
  then show ?thesis using r ui_grows_trans read_visible_grows
    by (auto simp: ui_ReadMessages_def ui_grows_refl split: sum.splits)
qed

lemma ui_ResolveSurface_grows: "ui_grows ui (snd (ui_ResolveSurface env ref ui))"
proof (cases "map_of (ui_surfaces ui) ref")
  case (Some lease)
  let ?ui1 = "ui\<lparr>ui_surfaces := AList.delete ref (ui_surfaces ui)\<rparr>"
  let ?x = "LeaseResolved ref (ux_now env)"
  have deleted: "ui_grows ui ?ui1"
    by (rule ui_grows_fewer) (auto simp: AList.delete_eq distinct_map_filter)
  have "ui_inv (?ui1\<lparr>ui_log := ui_log ui @ [?x]\<rparr>)" if inv: "ui_inv ui" and live: "ux_now env < ul_expiresAt lease"
  proof -
    have inv1: "ui_inv ?ui1" using deleted inv by (simp add: ui_grows_def)
    obtain t where t: "issued_last ref t (ui_log ui)" "ul_expiresAt lease = t + uiSurfaceRefTTL"
      using inv Some unfolding ui_inv_def leases_inv_def by blast
    have click: "one_click (ui_log ui @ [?x])"
      by (rule one_click_snoc) (use inv t live in \<open>auto simp: ui_inv_def\<close>)
    have "leases_inv (?ui1\<lparr>ui_log := ui_log ui @ [?x]\<rparr>)"
      unfolding leases_inv_def
    proof (intro allI impI)
      fix r l assume "map_of (ui_surfaces (?ui1\<lparr>ui_log := ui_log ui @ [?x]\<rparr>)) r = Some l"
      then have "r \<noteq> ref" "map_of (ui_surfaces ui) r = Some l" by (auto simp: AList.delete_conv' split: if_splits)
      then obtain s where "issued_last r s (ui_log ui)" "ul_expiresAt l = s + uiSurfaceRefTTL"
        using inv unfolding ui_inv_def leases_inv_def by blast
      then show "\<exists>t. issued_last r t (ui_log (?ui1\<lparr>ui_log := ui_log ui @ [?x]\<rparr>)) \<and> ul_expiresAt l = t + uiSurfaceRefTTL"
        using issued_last_other [of r s "ui_log ui" ?x] \<open>r \<noteq> ref\<close> by auto
    qed
    then show ?thesis using inv1 click by (simp add: ui_inv_def)
  qed
  then have "ui_grows ui (?ui1\<lparr>ui_log := ui_log ui @ [?x]\<rparr>)" if "ux_now env < ul_expiresAt lease"
    using that by (simp add: ui_grows_def)
  then show ?thesis using Some deleted by (auto simp: ui_ResolveSurface_def Let_def split: option.splits)
qed (simp add: ui_ResolveSurface_def ui_grows_refl)

lemma baselines_grow: "ui_grows ui (ui\<lparr>ui_baselines := bs\<rparr>)"
  by (rule ui_grows_fewer) simp_all

lemma ui_PrepareOutgoing_grows: "ui_grows ui (snd (ui_PrepareOutgoing env m ui))"
  using baselines_grow by (auto simp: ui_PrepareOutgoing_def ui_grows_refl split: option.splits sum.splits)

lemma observe_outgoing_grows: "ui_grows ui (snd (observe_outgoing env m baseline entry ui))"
proof (cases "ux_messages env (cv_Title (ue_conversation entry)) (ue_locator entry)")
  case (Inr visible)
  obtain r ui1 where r: "rememberVisibleConversation env (vs_ConversationTitle visible) (vs_ConversationLocator visible) ui = (r, ui1)"
    by fastforce
  then have "ui_grows ui ui1" using rememberVisibleConversation_grows [of ui env] by (metis snd_conv)
  then show ?thesis using Inr r ui_grows_trans normalizeVisible_grows(1)
    by (auto simp: observe_outgoing_def Let_def ui_grows_refl split: sum.splits)
qed (simp add: observe_outgoing_def ui_grows_refl)

lemma wait_rounds_grows: "ui_grows ui (snd (wait_rounds m baseline rounds ui))"
proof (induction rounds arbitrary: ui)
  case (Cons round rounds)
  obtain env stop where round: "round = (env, stop)" by fastforce
  obtain r ui1 where r: "refreshConversation env (om_ConversationID m) ui = (r, ui1)" by fastforce
  then have g1: "ui_grows ui ui1" using refreshConversation_grows [of ui env] by (metis snd_conv)
  have ends: "ui_grows ui (snd (case stop of WaitTick \<Rightarrow> wait_rounds m baseline rounds ui'
      | WaitDeadline \<Rightarrow> (Some (Inl err), ui') | WaitCancelled e \<Rightarrow> (Some (Inl e), ui')))" if "ui_grows ui ui'" for ui' err
    using that Cons.IH [of ui'] ui_grows_trans by (cases stop) auto
  show ?case
  proof (cases r)
    case (Inl err)
    then show ?thesis using ends [OF g1] by (simp add: round r Let_def)
  next
    case (Inr entry)
    obtain o2 ui2 where o2: "observe_outgoing env m baseline entry ui1 = (o2, ui2)" by fastforce
    then have g2: "ui_grows ui ui2" using observe_outgoing_grows [of ui1 env m baseline entry] g1 ui_grows_trans by fastforce
    show ?thesis using Inr o2 g2 ends [OF g1] ends [OF g2] by (cases o2) (simp_all add: round r Let_def)
  qed
qed (simp add: ui_grows_refl)

lemma ui_WaitOutgoing_grows: "ui_grows ui (snd (ui_WaitOutgoing sha m rounds ui))"
proof (cases "map_of (ui_baselines ui) (outgoingKey sha m)")
  case (Some baseline)
  obtain r ui1 where r: "wait_rounds m baseline rounds ui = (r, ui1)" by fastforce
  then have "ui_grows ui ui1" using wait_rounds_grows by (metis snd_conv)
  then show ?thesis using Some r ui_grows_trans baselines_grow
    by (auto simp: ui_WaitOutgoing_def ui_grows_refl split: option.splits)
qed (simp add: ui_WaitOutgoing_def ui_grows_refl)

section \<open>Runs\<close>

inductive ui_step :: "UIIndex \<Rightarrow> UIIndex \<Rightarrow> bool" where
  list: "ui_step ui (snd (ui_ListConversations env q ui))"
| conversation: "ui_step ui (snd (ui_Conversation env cid ui))"
| read_messages: "ui_step ui (snd (ui_ReadMessages env mq ui))"
| resolve: "ui_step ui (snd (ui_ResolveSurface env reference ui))"
| prepare: "ui_step ui (snd (ui_PrepareOutgoing env m ui))"
| wait: "ui_step ui (snd (ui_WaitOutgoing sha m rounds ui))"

lemma ui_step_grows: "ui_step ui ui' \<Longrightarrow> ui_grows ui ui'"
  by (induction rule: ui_step.induct)
    (simp_all add: ui_ListConversations_grows ui_Conversation_grows ui_ReadMessages_grows ui_ResolveSurface_grows
       ui_PrepareOutgoing_grows ui_WaitOutgoing_grows)

lemma ui_run_grows: "ui_step\<^sup>*\<^sup>* ui ui' \<Longrightarrow> ui_grows ui ui'"
  by (induction rule: rtranclp_induct) (auto intro: ui_grows_refl ui_grows_trans ui_step_grows)

interpretation ui: invariant_system "\<lambda>ui. \<exists>account. ui = NewUIIndex account" ui_step ui_inv
proof unfold_locales
  show "ui_inv ui" if "\<exists>account. ui = NewUIIndex account" for ui
    using that by (auto simp: NewUIIndex_def ui_inv_def leases_inv_def one_click_def)
  show "ui_inv ui'" if "ui_inv ui" "ui_step ui ui'" for ui ui'
    using that ui_step_grows by (simp add: ui_grows_def)
qed


section \<open>Verified sends\<close>

lemma normalize_each_Cons:
  obtains "normalize_each env entry seen (item # rest) ui = normalize_each env entry seen rest ui"
  | message seen' ui' where "fst (normalize_each env entry seen (item # rest) ui) =
      (message, trimmed_visible item) # fst (normalize_each env entry seen' rest ui')" "ms_Text message = vm_Text item"
proof (cases "TrimSpace (vm_Text (trimmed_visible item)) = [] \<and> vm_AccessibleLabel (trimmed_visible item) = []")
  case True
  then show ?thesis using that(1) by (simp add: Let_def)
next
  case False
  define signature where "signature = visibleSignature (ux_sha256 env) (trimmed_visible item)"
  define message where "message = message_of env ui entry (count_list seen signature + 1) (trimmed_visible item)"
  define given where "given = give_sequence (ms_ID message) (issue_lease env entry (ms_SurfaceRef message) (trimmed_visible item) ui)"
  have "fst (normalize_each env entry seen (item # rest) ui) =
      (message\<lparr>ms_Sequence := fst given\<rparr>, trimmed_visible item) # fst (normalize_each env entry (signature # seen) rest (snd given))"
    unfolding normalize_each.simps Let_def if_not_P [OF False] fst_conv given_def message_def signature_def by (rule refl)
  moreover have "ms_Text (message\<lparr>ms_Sequence := fst given\<rparr>) = vm_Text item"
    by (simp add: message_def message_of_def trimmed_visible_def Let_def)
  ultimately show ?thesis by (rule that(2))
qed

declare normalize_each.simps(2) [simp del]

lemma normalize_each_counts:
  "length (filter (\<lambda>(m, v). vm_Outgoing v \<and> vm_Text v = wanted) (fst (normalize_each env entry seen items ui)))
     \<le> countExactOutgoing items wanted"
proof (induction items arbitrary: seen ui)
  case (Cons item rest)
  have keep: "vm_Outgoing (trimmed_visible item) = vm_Outgoing item" "vm_Text (trimmed_visible item) = vm_Text item"
    by (simp_all add: trimmed_visible_def Let_def)
  have count: "countExactOutgoing (item # rest) wanted =
      countExactOutgoing rest wanted + (if vm_Outgoing item \<and> vm_Text item = wanted then 1 else 0)"
    by (simp add: countExactOutgoing_def)
  show ?case
  proof (cases rule: normalize_each_Cons [of env entry seen item rest ui])
    case 1
    show ?thesis using Cons.IH [of seen ui] count by (simp add: 1)
  next
    case (2 message seen' ui')
    show ?thesis using Cons.IH [of seen' ui'] count by (simp add: 2 keep)
  qed
qed (simp add: countExactOutgoing_def)

lemma normalize_each_text:
  "(m, v) \<in> set (fst (normalize_each env entry seen items ui)) \<Longrightarrow> ms_Text m = vm_Text v"
proof (induction items arbitrary: seen ui)
  case (Cons item rest)
  have keep: "vm_Text (trimmed_visible item) = vm_Text item" by (simp add: trimmed_visible_def Let_def)
  show ?case
  proof (cases rule: normalize_each_Cons [of env entry seen item rest ui])
    case 1
    then show ?thesis using Cons.IH [of seen ui] Cons.prems by (metis (no_types))
  next
    case (2 message seen' ui')
    then show ?thesis using Cons.IH [of seen' ui'] Cons.prems unfolding 2(1) by (auto simp: keep)
  qed
qed simp

lemma beyond_baseline_counts:
  "beyond_baseline n wanted ms = Some m \<Longrightarrow>
     n < length (filter (\<lambda>(m, v). vm_Outgoing v \<and> vm_Text v = wanted) ms) \<and> (\<exists>v. (m, v) \<in> set ms \<and> vm_Text v = wanted)"
  by (induction n wanted ms rule: beyond_baseline.induct) (auto split: if_splits)

lemma observe_outgoing_sound:
  assumes "observe_outgoing env m baseline entry ui = (Some message, ui')"
  obtains visible where "ux_messages env (cv_Title (ue_conversation entry)) (ue_locator entry) = Inr visible"
    "vs_ConversationTitle visible = ob_title baseline" "ob_count baseline < countExactOutgoing (vs_Messages visible) (om_Text m)"
    "ms_Text message = om_Text m"
proof -
  obtain visible entry' ui1 where v: "ux_messages env (cv_Title (ue_conversation entry)) (ue_locator entry) = Inr visible"
      "vs_ConversationTitle visible = ob_title baseline"
    and b: "beyond_baseline (ob_count baseline) (om_Text m) (fst (normalizeVisible env entry' (vs_Messages visible) ui1)) = Some message"
    using assms by (auto simp: observe_outgoing_def Let_def split: sum.splits if_splits prod.splits)
  obtain ui2 where n: "fst (normalizeVisible env entry' (vs_Messages visible) ui1) =
      sort_key (ms_Sequence \<circ> fst) (fst (normalize_each env entry' [] (vs_Messages visible) ui2))"
    by (simp add: normalizeVisible_def Let_def)
  let ?P = "\<lambda>(m, v). vm_Outgoing v \<and> vm_Text v = om_Text m"
  have "length (filter P (sort_key f xs)) = length (filter P xs)" for P :: "Message \<times> VisibleMessage \<Rightarrow> bool" and f :: "Message \<times> VisibleMessage \<Rightarrow> int" and xs
    by (metis filter_sort length_sort)
  then have "ob_count baseline < countExactOutgoing (vs_Messages visible) (om_Text m)"
    using beyond_baseline_counts [OF b] normalize_each_counts [of "om_Text m" env entry' "[]" "vs_Messages visible" ui2]
    unfolding n by simp
  moreover have "ms_Text message = om_Text m"
    using beyond_baseline_counts [OF b] normalize_each_text unfolding n by fastforce
  ultimately show thesis using that v by blast
qed

text \<open>An observation after the dispatch shows the text more often than the baseline.\<close>

definition seen_more :: "OutgoingMatch \<Rightarrow> outgoingBaseline \<Rightarrow> (ui_env \<times> wait_end) list \<Rightarrow> bool" where
  "seen_more m baseline rounds \<longleftrightarrow> (\<exists>env stop locator visible. (env, stop) \<in> set rounds \<and>
     ux_messages env (ob_title baseline) locator = Inr visible \<and> vs_ConversationTitle visible = ob_title baseline \<and>
     ob_count baseline < countExactOutgoing (vs_Messages visible) (om_Text m))"

lemma wait_rounds_sound:
  "wait_rounds m baseline rounds ui = (Some (Inr message), ui') \<Longrightarrow> seen_more m baseline rounds \<and> ms_Text message = om_Text m"
proof (induction rounds arbitrary: ui)
  case (Cons round rounds)
  obtain env stop where round: "round = (env, stop)" by fastforce
  have later: "seen_more m baseline rounds \<Longrightarrow> seen_more m baseline (round # rounds)"
    unfolding seen_more_def by (meson list.set_intros(2))
  obtain r ui1 where r: "refreshConversation env (om_ConversationID m) ui = (r, ui1)" by fastforce
  have ends: "seen_more m baseline (round # rounds) \<and> ms_Text message = om_Text m"
    if "(case stop of WaitTick \<Rightarrow> wait_rounds m baseline rounds ui2 | WaitDeadline \<Rightarrow> (Some (Inl err), ui2)
      | WaitCancelled e \<Rightarrow> (Some (Inl e), ui2)) = (Some (Inr message), ui')" for ui2 err
    using that Cons.IH later by (cases stop) auto
  show ?case
  proof (cases r)
    case (Inl err)
    then show ?thesis using Cons.prems ends by (simp add: round r Let_def)
  next
    case (Inr entry)
    show ?thesis
    proof (cases "ue_ambiguous entry \<or> cv_Title (ue_conversation entry) \<noteq> ob_title baseline")
      case True
      then show ?thesis using Inr Cons.prems ends by (simp add: round r Let_def)
    next
      case False
      obtain o2 ui2 where o2: "observe_outgoing env m baseline entry ui1 = (o2, ui2)" by fastforce
      show ?thesis
      proof (cases o2)
        case None
        then show ?thesis using Inr False o2 Cons.prems ends by (simp add: round r Let_def)
      next
        case (Some found)
        then have "found = message" using Inr False o2 Cons.prems by (simp add: round r Let_def)
        then obtain visible where "ux_messages env (cv_Title (ue_conversation entry)) (ue_locator entry) = Inr visible"
          "vs_ConversationTitle visible = ob_title baseline" "ob_count baseline < countExactOutgoing (vs_Messages visible) (om_Text m)"
          "ms_Text message = om_Text m" using o2 Some observe_outgoing_sound by metis
        moreover have "(env, stop) \<in> set (round # rounds)" "cv_Title (ue_conversation entry) = ob_title baseline"
          using round False by auto
        ultimately show ?thesis unfolding seen_more_def by metis
      qed
    qed
  qed
qed simp

lemma ui_WaitOutgoing_sound:
  assumes "ui_WaitOutgoing sha m rounds ui = (Some (Inr message), ui')"
  obtains baseline where "verifiable m" "map_of (ui_baselines ui) (outgoingKey sha m) = Some baseline"
    "seen_more m baseline rounds" "ms_Text message = om_Text m"
proof -
  obtain baseline ui1 where "verifiable m" "map_of (ui_baselines ui) (outgoingKey sha m) = Some baseline"
    "wait_rounds m baseline rounds ui = (Some (Inr message), ui1)"
    using assms by (auto simp: ui_WaitOutgoing_def split: option.splits prod.splits if_splits)
  then show thesis using that wait_rounds_sound by metis
qed

lemma ui_PrepareOutgoing_sound:
  assumes "ui_PrepareOutgoing env m ui = (None, ui')" and "verifiable m"
  obtains locator visible title where "ux_messages env title locator = Inr visible" "vs_ConversationTitle visible = title"
    "map_of (ui_baselines ui') (outgoingKey (ux_sha256 env) m) = Some \<lparr>ob_count = countExactOutgoing (vs_Messages visible) (om_Text m), ob_title = title\<rparr>"
  using assms by (auto simp: ui_PrepareOutgoing_def update_conv' split: option.splits sum.splits if_splits)

lemma wx_Send_dispatch:
  assumes "wx_Send env limit r d = ((result, err), d')" and "d' \<noteq> d" and "sr_Verified result"
  obtains message where "bx_PrepareOutgoing env = None" "bx_WaitOutgoing env = Inr message" "sr_MessageID result = ms_ID message"
proof -
  obtain u where u: "prepare_send env limit r d = Inr u" and out: "send_outcome env u = (result, err)"
    using assms(1,2) by (auto simp: wx_Send_def Let_def split: option.splits sum.splits)
  have "bx_PrepareOutgoing env = None" using u by (auto simp: prepare_send_def split: sum.splits option.splits if_splits)
  moreover obtain message where "bx_WaitOutgoing env = Inr message" "sr_MessageID result = ms_ID message"
    using out assms(3) by (auto simp: send_outcome_def zero_SendResult_def split: option.splits sum.splits)
  ultimately show thesis using that by blast
qed


lemma ui_ReadMessages_sound:
  assumes "ui_ReadMessages env q ui = (Inr ms, ui')"
  shows "sorted (map ms_Sequence ms)" and "length ms \<le> 1000" and "m \<in> set ms \<Longrightarrow> mq_AfterSequence q < ms_Sequence m"
    and "m \<in> set ms \<Longrightarrow> map_of (ui_sequences ui') (ms_ID m) = Some (ms_Sequence m)"
proof -
  obtain title locator ui0 where "read_visible env q title locator ui0 = (Inr ms, ui')"
    using assms by (auto simp: ui_ReadMessages_def split: if_splits sum.splits prod.splits)
  then obtain entry visible ui1 where
    ms: "ms = take (nat (if mq_Limit q \<le> 0 \<or> mq_Limit q > 1000 then 100 else mq_Limit q))
      (filter (\<lambda>m. ms_Sequence m > mq_AfterSequence q) (map fst (fst (normalizeVisible env entry visible ui1))))"
    and ui': "ui' = snd (normalizeVisible env entry visible ui1)"
    by (auto simp: read_visible_def Let_def split: sum.splits prod.splits if_splits)
  let ?all = "map fst (fst (normalizeVisible env entry visible ui1))"
  have "sorted (map ms_Sequence ?all)" using normalizeVisible_grows(3) by (simp add: map_map [symmetric] del: map_map)
  then show "sorted (map ms_Sequence ms)" unfolding ms by (simp add: sorted_filter sorted_wrt_take flip: take_map)
  show "length ms \<le> 1000" unfolding ms by (simp add: min_def) linarith
  show "mq_AfterSequence q < ms_Sequence m" if "m \<in> set ms" using that unfolding ms by (auto dest: in_set_takeD)
  show "map_of (ui_sequences ui') (ms_ID m) = Some (ms_Sequence m)" if "m \<in> set ms"
    using that normalizeVisible_grows(2) unfolding ms ui' by (fastforce dest: in_set_takeD)
qed

section \<open>An index in the small\<close>

definition demo_visible :: "nat \<Rightarrow> VisibleMessages" where
  "demo_visible n = \<lparr>vs_ConversationTitle = ''File'', vs_ConversationLocator = ''l'',
     vs_Messages = replicate n \<lparr>vm_Text = ''hi'', vm_Kind = [], vm_SenderName = [], vm_Outgoing = True, vm_AccessibleLabel = ''card'',
        vm_SurfaceKind = ''web'', vm_SurfaceLocator = ''s'', vm_Confidence = 0\<rparr>\<rparr>"

definition demo_ui :: "nat \<Rightarrow> ui_env" where
  "demo_ui n = \<lparr>ux_now = 1, ux_visible = Inr [\<lparr>vc_Title = ''File'', vc_Kind = [], vc_Unread = 0, vc_Locator = ''l'', vc_Ambiguous = False\<rparr>],
     ux_messages = (\<lambda>title locator. Inr (demo_visible n)), ux_sha256 = (\<lambda>s. [of_nat (length s)])\<rparr>"

definition demo_cid :: string where
  "demo_cid = conversationID (demo_ui 0) (NewUIIndex ''a1'') ''File''"

definition demo_listed :: UIIndex where
  "demo_listed = snd (ui_Conversation (demo_ui 0) demo_cid (NewUIIndex ''a1''))"

definition demo_query :: "string \<Rightarrow> MessageQuery" where
  "demo_query cid = \<lparr>mq_ConversationID = cid, mq_AfterSequence = 0, mq_Before = 0, mq_Limit = 10, mq_Latest = False\<rparr>"

definition demo_match :: OutgoingMatch where
  "demo_match = \<lparr>om_ConversationID = demo_cid, om_Text = ''hi'', om_AttachmentCount = 0\<rparr>"

definition demo_prepared :: UIIndex where
  "demo_prepared = snd (ui_PrepareOutgoing (demo_ui 0) demo_match demo_listed)"

definition demo_wait :: "Message result option \<times> UIIndex" where
  "demo_wait = ui_WaitOutgoing (ux_sha256 (demo_ui 0)) demo_match [(demo_ui 1, WaitTick)] demo_prepared"

definition demo_entry :: uiConversationEntry where
  "demo_entry = visible_entry (demo_ui 1) (NewUIIndex ''a1'') []
     \<lparr>vc_Title = ''File'', vc_Kind = [], vc_Unread = 0, vc_Locator = ''l'', vc_Ambiguous = False\<rparr>"

definition demo_refreshed :: UIIndex where
  "demo_refreshed = snd (refreshConversation (demo_ui 1) demo_cid demo_prepared)"

definition demo_remembered :: UIIndex where
  "demo_remembered = snd (rememberVisibleConversation (demo_ui 1) ''File'' ''l'' demo_refreshed)"

lemma demo_conversation:
  "map_sum (\<lambda>_. ()) cv_Title (fst (ui_Conversation (demo_ui 0) demo_cid (NewUIIndex ''a1''))) = Inr ''File''"
  by code_simp

lemma demo_prepare: "fst (ui_PrepareOutgoing (demo_ui 0) demo_match demo_listed) = None"
  by code_simp

lemma demo_baseline:
  "map_of (ui_baselines demo_prepared) (outgoingKey (ux_sha256 (demo_ui 0)) demo_match) = Some \<lparr>ob_count = 0, ob_title = ''File''\<rparr>"
  by code_simp

lemma demo_refresh: "refreshConversation (demo_ui 1) demo_cid demo_prepared = (Inr demo_entry, demo_refreshed)"
proof -
  have "fst (refreshConversation (demo_ui 1) demo_cid demo_prepared) = Inr demo_entry" by code_simp
  then show ?thesis by (simp add: demo_refreshed_def prod_eq_iff)
qed

lemma demo_remember: "rememberVisibleConversation (demo_ui 1) ''File'' ''l'' demo_refreshed = (Inr demo_entry, demo_remembered)"
proof -
  have "fst (rememberVisibleConversation (demo_ui 1) ''File'' ''l'' demo_refreshed) = Inr demo_entry" by code_simp
  then show ?thesis by (simp add: demo_remembered_def prod_eq_iff)
qed

lemma demo_entry_fields: "ue_ambiguous demo_entry = False" "cv_Title (ue_conversation demo_entry) = ''File''"
  by code_simp+

lemma demo_observed:
  "map_option ms_Text (beyond_baseline 0 ''hi'' (fst (normalizeVisible (demo_ui 1) demo_entry (vs_Messages (demo_visible 1)) demo_remembered))) = Some ''hi''"
  by code_simp

lemma demo_verifiable: "verifiable demo_match"
  by code_simp

lemma demo_waited: "\<exists>message. fst demo_wait = Some (Inr message)"
proof -
  obtain message where found:
    "beyond_baseline 0 ''hi'' (fst (normalizeVisible (demo_ui 1) demo_entry (vs_Messages (demo_visible 1)) demo_remembered)) = Some message"
    using demo_observed by (cases "beyond_baseline 0 ''hi'' (fst (normalizeVisible (demo_ui 1) demo_entry (vs_Messages (demo_visible 1)) demo_remembered))") auto
  have "ux_messages (demo_ui 1) = (\<lambda>title locator. Inr (demo_visible 1))" "vs_ConversationTitle (demo_visible 1) = ''File''"
    "vs_ConversationLocator (demo_visible 1) = ''l''" by (simp_all add: demo_ui_def demo_visible_def)
  then have "fst (observe_outgoing (demo_ui 1) demo_match \<lparr>ob_count = 0, ob_title = ''File''\<rparr> demo_entry demo_refreshed) = Some message"
    using demo_remember found by (simp add: observe_outgoing_def Let_def demo_match_def)
  then obtain ui2 where "observe_outgoing (demo_ui 1) demo_match \<lparr>ob_count = 0, ob_title = ''File''\<rparr> demo_entry demo_refreshed = (Some message, ui2)"
    by (metis prod.collapse)
  then have "wait_rounds demo_match \<lparr>ob_count = 0, ob_title = ''File''\<rparr> [(demo_ui 1, WaitTick)] demo_prepared = (Some (Inr message), ui2)"
    using demo_refresh demo_entry_fields by (simp add: demo_match_def Let_def)
  then show ?thesis using demo_verifiable demo_baseline by (simp add: demo_wait_def ui_WaitOutgoing_def)
qed

definition demo_read :: UIIndex where
  "demo_read = snd (normalizeVisible (demo_ui 1) demo_entry (vs_Messages (demo_visible 1)) demo_remembered)"

lemma demo_messages:
  "ux_messages (demo_ui n) title locator = Inr (demo_visible n)" "vs_ConversationTitle (demo_visible n) = ''File''"
  "vs_ConversationLocator (demo_visible n) = ''l''" "ux_now (demo_ui n) = 1"
  by (simp_all add: demo_ui_def demo_visible_def)

lemma demo_first_page: "\<exists>ms. ui_ReadMessages (demo_ui 1) (demo_query demo_cid) demo_prepared = (Inr ms, demo_read)"
proof -
  have "demo_cid \<noteq> []" by code_simp
  then show ?thesis using demo_refresh demo_remember demo_entry_fields
    by (simp add: ui_ReadMessages_def read_visible_def demo_query_def demo_messages demo_read_def Let_def)
qed

lemma demo_second_page: "\<exists>ms ui. ui_ReadMessages (demo_ui 1) (demo_query []) demo_read = (Inr ms, ui)"
proof -
  have "fst (rememberVisibleConversation (demo_ui 1) ''File'' ''l'' demo_read) = Inr demo_entry" by code_simp
  then obtain ui1 where "rememberVisibleConversation (demo_ui 1) ''File'' ''l'' demo_read = (Inr demo_entry, ui1)"
    by (metis prod.collapse)
  then show ?thesis by (simp add: ui_ReadMessages_def read_visible_def demo_query_def demo_messages Let_def)
qed

lemma demo_prepared_run: "ui_step\<^sup>*\<^sup>* (NewUIIndex ''a1'') demo_prepared"
proof -
  have "ui_step (NewUIIndex ''a1'') demo_listed" unfolding demo_listed_def by (rule ui_step.conversation)
  moreover have "ui_step demo_listed demo_prepared" unfolding demo_prepared_def by (rule ui_step.prepare)
  ultimately show ?thesis by (meson converse_rtranclp_into_rtranclp r_into_rtranclp)
qed

lemma demo_read_run: "ui_step\<^sup>*\<^sup>* (NewUIIndex ''a1'') demo_read"
proof -
  have "ui_step demo_prepared demo_read"
    using demo_first_page ui_step.read_messages [of demo_prepared "demo_ui 1" "demo_query demo_cid"] by auto
  then show ?thesis using demo_prepared_run by (rule rtranclp.rtrancl_into_rtrancl [rotated])
qed

definition demo_clicked :: UIIndex where
  "demo_clicked = snd (ui_ResolveSurface (demo_ui 1) ''wxui_s_1c'' demo_read)"

lemma demo_clicked_log: "ui_log demo_clicked = [LeaseIssued ''wxui_s_1c'' 1, LeaseResolved ''wxui_s_1c'' 1]"
proof -
  have log: "ui_log demo_read = [LeaseIssued ''wxui_s_1c'' 1]" by code_simp
  have "map_option (\<lambda>l. (tg_ConversationID (ul_target l), ul_expiresAt l)) (map_of (ui_surfaces demo_read) ''wxui_s_1c'') =
      Some (''wxui_c_0a'', 120000000001)" by code_simp
  then obtain lease where lease: "map_of (ui_surfaces demo_read) ''wxui_s_1c'' = Some lease"
    "tg_ConversationID (ul_target lease) = ''wxui_c_0a''" "ul_expiresAt lease = 120000000001" by auto
  have "map_option ue_ambiguous (map_of (ui_conversations demo_read) ''wxui_c_0a'') = Some False" by code_simp
  then obtain entry where "map_of (ui_conversations demo_read) ''wxui_c_0a'' = Some entry" "\<not> ue_ambiguous entry" by auto
  then show ?thesis using log lease by (simp add: demo_clicked_def ui_ResolveSurface_def Let_def demo_messages)
qed

definition demo_ui_request :: SendRequest where
  "demo_ui_request = demo_wx_request\<lparr>rq_ConversationID := demo_cid\<rparr>"

lemma demo_ui_sent:
  fixes message :: Message
  defines "env \<equiv> (demo_wx (Inl (ErrNew [])))\<lparr>bx_WaitOutgoing := Inr message\<rparr>"
  shows "sr_Verified (fst (fst (wx_Send env 10 demo_ui_request demo_started)))"
    and "snd (wx_Send env 10 demo_ui_request demo_started) \<noteq> demo_started"
proof -
  have "started demo_started" "TrimSpace demo_cid \<noteq> []" "TrimSpace ''k'' \<noteq> []" "RuneCount ''hi'' = 2" by code_simp+
  then have guard: "wx_send_guard demo_ui_request demo_started = None"
    by (simp add: wx_send_guard_def demo_ui_request_def demo_wx_request_def defaultMaxMessageRunes_def)
  have fresh: "map_of (wx_sendMemos demo_started) ''k'' = None" by code_simp
  have "wx_stageAttachments env 10 [] demo_started = Inr []" by (simp add: wx_stageAttachments_def)
  moreover have "TrimSpace ''File'' \<noteq> []" by code_simp
  ultimately obtain u where u: "prepare_send env 10 demo_ui_request demo_started = Inr u"
    by (auto simp: prepare_send_def env_def demo_wx_def demo_probe_def demo_ui_request_def demo_wx_request_def share_locator_def)
  have outcome: "send_outcome env u = (zero_SendResult\<lparr>sr_MessageID := ms_ID message, sr_Verified := True\<rparr>, None)"
    by (simp add: send_outcome_def env_def demo_wx_def)
  have "length (wx_log (snd (wx_Send env 10 demo_ui_request demo_started))) = 2"
    using guard fresh u outcome by (simp add: wx_Send_def demo_ui_request_def demo_wx_request_def Let_def demo_started_log)
  then show "snd (wx_Send env 10 demo_ui_request demo_started) \<noteq> demo_started" using demo_started_log by auto
  show "sr_Verified (fst (fst (wx_Send env 10 demo_ui_request demo_started)))"
    using guard fresh u outcome by (simp add: wx_Send_def demo_ui_request_def demo_wx_request_def Let_def)
qed

section \<open>Properties\<close>

text \<open>C17. A conversation is resolved for an operation only when the client shows its exact title once,
  without marking it ambiguous: the answer has the requested identifier and the locator of that one
  row.\<close>

theorem ui_conversation_unique:
  assumes "ui_Conversation env cid ui = (Inr c, ui')"
  shows "\<exists>visible item. ux_visible env = Inr visible \<and>
    filter (\<lambda>v. validVisibleTitle (vc_Title v) \<and> vc_Title v = cv_Title c) visible = [item] \<and> \<not> vc_Ambiguous item \<and>
    cv_ID c = cid \<and> cv_ExternalID c = vc_Locator item \<and> cv_ExternalID c \<noteq> [] \<and> cid = conversationID env ui (cv_Title c)"
proof -
  obtain e where refresh: "refreshConversation env cid ui = (Inr e, ui')" and e: "\<not> ue_ambiguous e"
    and c: "c = (ue_conversation e)\<lparr>cv_ExternalID := ue_locator e\<rparr>"
    using assms by (auto simp: ui_Conversation_def split: sum.splits prod.splits if_splits)
  from refresh obtain visible item where v: "ux_visible env = Inr visible" "item \<in> set visible" "e = visible_entry env ui visible item"
    "cid = conversationID env ui (vc_Title item)" "validVisibleTitle (vc_Title item)" "vc_Locator item \<noteq> []"
    by (rule refreshConversation_sound)
  have "cv_Title c = vc_Title item" "cv_ID c = cid" "cv_ExternalID c = vc_Locator item"
    using v by (simp_all add: c visible_entry_def Let_def)
  then show ?thesis using v unambiguous_entry [OF v(2,5)] e by auto
qed

theorem ui_conversation_unique_witness:
  "\<exists>c ui'. ui_Conversation (demo_ui 0) demo_cid (NewUIIndex ''a1'') = (Inr c, ui') \<and> cv_ID c = demo_cid"
proof -
  obtain c where c: "fst (ui_Conversation (demo_ui 0) demo_cid (NewUIIndex ''a1'')) = Inr c"
    using demo_conversation by (cases "fst (ui_Conversation (demo_ui 0) demo_cid (NewUIIndex ''a1''))") auto
  then have run: "ui_Conversation (demo_ui 0) demo_cid (NewUIIndex ''a1'') = (Inr c, demo_listed)"
    by (simp add: demo_listed_def prod_eq_iff)
  show ?thesis using run ui_conversation_unique [OF run] by auto
qed

text \<open>C15. A surface reference is a click lease: along every sequence of operations of the index, each
  resolution of a reference uses up an earlier issue of that reference that is less than two minutes
  old, with no other resolution in between.\<close>

theorem surface_lease_one_click:
  assumes "ui_step\<^sup>*\<^sup>* (NewUIIndex account) ui" and "ui_log ui = u @ LeaseResolved reference t # v"
  shows "\<exists>a s b. u = a @ LeaseIssued reference s # b \<and> (\<forall>r. LeaseResolved reference r \<notin> set b) \<and> t < s + uiSurfaceRefTTL"
proof -
  have "ui_inv ui" using ui.reachable_inv assms(1) by blast
  then show ?thesis using assms(2) unfolding ui_inv_def one_click_def issued_last_def by blast
qed

theorem surface_lease_one_click_witness:
  "ui_log demo_clicked = [LeaseIssued ''wxui_s_1c'' 1] @ LeaseResolved ''wxui_s_1c'' 1 # [] \<and>
   (\<exists>s. [LeaseIssued ''wxui_s_1c'' 1] = [] @ LeaseIssued ''wxui_s_1c'' s # [] \<and> 1 < s + uiSurfaceRefTTL)"
proof -
  have "ui_step demo_read demo_clicked" unfolding demo_clicked_def by (rule ui_step.resolve)
  then have run: "ui_step\<^sup>*\<^sup>* (NewUIIndex ''a1'') demo_clicked" by (rule rtranclp.rtrancl_into_rtrancl [OF demo_read_run])
  have log: "ui_log demo_clicked = [LeaseIssued ''wxui_s_1c'' 1] @ LeaseResolved ''wxui_s_1c'' 1 # []"
    by (simp add: demo_clicked_log)
  obtain a s b where "[LeaseIssued ''wxui_s_1c'' 1] = a @ LeaseIssued ''wxui_s_1c'' s # b" "1 < s + uiSurfaceRefTTL"
    using surface_lease_one_click [OF run log] by blast
  then show ?thesis using log by (cases a) auto
qed

text \<open>C16. Sequence numbers are cursors: every page is sorted, bounded and beyond its cursor; two messages
  of any two pages have the same number exactly when they have the same identifier, and a message
  that was first seen after the first page was read has a larger number than everything on it.\<close>

theorem ui_cursor_safe:
  assumes "ui_step\<^sup>*\<^sup>* (NewUIIndex account) ui1" and "ui_ReadMessages env q ui1 = (Inr ms, ui2)"
    and "ui_step\<^sup>*\<^sup>* ui2 ui3" and "ui_ReadMessages env' q' ui3 = (Inr ms', ui4)"
  shows "sorted (map ms_Sequence ms) \<and> length ms \<le> 1000 \<and>
    (\<forall>m \<in> set ms. mq_AfterSequence q < ms_Sequence m \<and>
      (\<forall>m' \<in> set ms'. (ms_ID m = ms_ID m' \<longleftrightarrow> ms_Sequence m = ms_Sequence m') \<and>
        (map_of (ui_sequences ui2) (ms_ID m') = None \<longrightarrow> ms_Sequence m < ms_Sequence m')))"
proof -
  have step1: "ui_step ui1 ui2" using ui_step.read_messages [of ui1 env q] assms(2) by simp
  have step2: "ui_step ui3 ui4" using ui_step.read_messages [of ui3 env' q'] assms(4) by simp
  have "ui_step\<^sup>*\<^sup>* (NewUIIndex account) ui2" using assms(1) step1 by simp
  then have inv2: "ui_inv ui2" using ui.reachable_inv by blast
  have run: "ui_step\<^sup>*\<^sup>* ui2 ui4" using assms(3) step2 by simp
  note grows = ui_run_grows [OF run]
  have inv4: "ui_inv ui4" using inv2 grows by (simp add: ui_grows_def)
  have "(ms_ID m = ms_ID m' \<longleftrightarrow> ms_Sequence m = ms_Sequence m') \<and>
      (map_of (ui_sequences ui2) (ms_ID m') = None \<longrightarrow> ms_Sequence m < ms_Sequence m')" if "m \<in> set ms" "m' \<in> set ms'" for m m'
  proof -
    have m2: "map_of (ui_sequences ui2) (ms_ID m) = Some (ms_Sequence m)" by (rule ui_ReadMessages_sound(4) [OF assms(2) that(1)])
    then have m4: "map_of (ui_sequences ui4) (ms_ID m) = Some (ms_Sequence m)" using grows unfolding ui_grows_def by blast
    have m': "map_of (ui_sequences ui4) (ms_ID m') = Some (ms_Sequence m')" by (rule ui_ReadMessages_sound(4) [OF assms(4) that(2)])
    have "inj_on (map_of (ui_sequences ui4)) (dom (map_of (ui_sequences ui4)))" using inv4 by (simp add: ui_inv_def)
    then have "ms_Sequence m = ms_Sequence m' \<Longrightarrow> ms_ID m = ms_ID m'" using m4 m' by (metis domI inj_onD)
    moreover have "ms_Sequence m \<le> ui_nextSequence ui2" using m2 inv2 unfolding ui_inv_def by blast
    moreover have "map_of (ui_sequences ui2) (ms_ID m') = None \<Longrightarrow> ui_nextSequence ui2 < ms_Sequence m'"
      using m' grows unfolding ui_grows_def by blast
    ultimately show ?thesis using m4 m' by fastforce
  qed
  then show ?thesis using ui_ReadMessages_sound(1-3) [OF assms(2)] by blast
qed

theorem ui_cursor_safe_witness:
  "\<exists>ms. fst (ui_ReadMessages (demo_ui 1) (demo_query demo_cid) demo_prepared) = Inr ms \<and> sorted (map ms_Sequence ms)"
proof -
  obtain ms where ms: "ui_ReadMessages (demo_ui 1) (demo_query demo_cid) demo_prepared = (Inr ms, demo_read)"
    using demo_first_page by blast
  obtain ms' ui where ms': "ui_ReadMessages (demo_ui 1) (demo_query []) demo_read = (Inr ms', ui)"
    using demo_second_page by blast
  show ?thesis using ui_cursor_safe [OF demo_prepared_run ms rtranclp.rtrancl_refl ms'] ms by simp
qed

text \<open>C14. With the fallback index, a send is reported as verified only after the client showed, in the
  conversation of the send, the exact outgoing text more often than it did before the dispatch; the
  reported identifier is that of such a message.\<close>

theorem verified_send_observed:
  assumes "wx_Send env limit r d = ((result, err), d')" and "d' \<noteq> d" and "sr_Verified result"
    and "m = \<lparr>om_ConversationID = rq_ConversationID r, om_Text = rq_Text r, om_AttachmentCount = int (length (rq_Attachments r))\<rparr>"
    and "bx_PrepareOutgoing env = fst (ui_PrepareOutgoing uenv m ui)"
    and "fst (ui_WaitOutgoing (ux_sha256 uenv) m rounds ui') = Some (bx_WaitOutgoing env)"
    and "map_of (ui_baselines ui') (outgoingKey (ux_sha256 uenv) m) =
      map_of (ui_baselines (snd (ui_PrepareOutgoing uenv m ui))) (outgoingKey (ux_sha256 uenv) m)"
  shows "\<exists>title before after env' stop locator locator' message.
    ux_messages uenv title locator = Inr before \<and> vs_ConversationTitle before = title \<and>
    (env', stop) \<in> set rounds \<and> ux_messages env' title locator' = Inr after \<and> vs_ConversationTitle after = title \<and>
    countExactOutgoing (vs_Messages before) (rq_Text r) < countExactOutgoing (vs_Messages after) (rq_Text r) \<and>
    bx_WaitOutgoing env = Inr message \<and> ms_Text message = rq_Text r \<and> sr_MessageID result = ms_ID message"
proof -
  obtain message where prep: "bx_PrepareOutgoing env = None" and wait: "bx_WaitOutgoing env = Inr message" "sr_MessageID result = ms_ID message"
    by (rule wx_Send_dispatch [OF assms(1-3)])
  have "ui_WaitOutgoing (ux_sha256 uenv) m rounds ui' = (Some (Inr message), snd (ui_WaitOutgoing (ux_sha256 uenv) m rounds ui'))"
    using assms(6) wait by (simp add: prod_eq_iff)
  then obtain baseline where b: "verifiable m" "map_of (ui_baselines ui') (outgoingKey (ux_sha256 uenv) m) = Some baseline"
    "seen_more m baseline rounds" "ms_Text message = om_Text m"
    by (rule ui_WaitOutgoing_sound)
  have "ui_PrepareOutgoing uenv m ui = (None, snd (ui_PrepareOutgoing uenv m ui))"
    using assms(5) prep by (simp add: prod_eq_iff)
  then obtain locator before title where before: "ux_messages uenv title locator = Inr before" "vs_ConversationTitle before = title"
    "map_of (ui_baselines (snd (ui_PrepareOutgoing uenv m ui))) (outgoingKey (ux_sha256 uenv) m) =
       Some \<lparr>ob_count = countExactOutgoing (vs_Messages before) (om_Text m), ob_title = title\<rparr>"
    using b(1) by (rule ui_PrepareOutgoing_sound)
  have base: "baseline = \<lparr>ob_count = countExactOutgoing (vs_Messages before) (om_Text m), ob_title = title\<rparr>"
    using before(3) b(2) assms(7) by simp
  have "om_Text m = rq_Text r" by (simp add: assms(4))
  then show ?thesis using before(1,2) b(3,4) wait unfolding seen_more_def base by (metis outgoingBaseline.select_convs)
qed

theorem verified_send_observed_witness:
  "\<exists>message. fst demo_wait = Some (Inr message) \<and> ms_Text message = ''hi'' \<and>
     sr_MessageID (fst (fst (wx_Send ((demo_wx (Inl (ErrNew [])))\<lparr>bx_WaitOutgoing := Inr message\<rparr>) 10 demo_ui_request demo_started))) = ms_ID message"
proof -
  obtain message where message: "fst demo_wait = Some (Inr message)" using demo_waited by blast
  let ?env = "(demo_wx (Inl (ErrNew [])))\<lparr>bx_WaitOutgoing := Inr message\<rparr>"
  let ?out = "wx_Send ?env 10 demo_ui_request demo_started"
  have out: "?out = ((fst (fst ?out), snd (fst ?out)), snd ?out)" by simp
  have match: "demo_match = \<lparr>om_ConversationID = rq_ConversationID demo_ui_request, om_Text = rq_Text demo_ui_request,
      om_AttachmentCount = int (length (rq_Attachments demo_ui_request))\<rparr>"
    by (simp add: demo_match_def demo_ui_request_def demo_wx_request_def)
  have prep: "bx_PrepareOutgoing ?env = fst (ui_PrepareOutgoing (demo_ui 0) demo_match demo_listed)"
    using demo_prepare by (simp add: demo_wx_def)
  have wait: "fst (ui_WaitOutgoing (ux_sha256 (demo_ui 0)) demo_match [(demo_ui 1, WaitTick)] demo_prepared) = Some (bx_WaitOutgoing ?env)"
    using message by (simp add: demo_wait_def)
  have base: "map_of (ui_baselines demo_prepared) (outgoingKey (ux_sha256 (demo_ui 0)) demo_match) =
      map_of (ui_baselines (snd (ui_PrepareOutgoing (demo_ui 0) demo_match demo_listed))) (outgoingKey (ux_sha256 (demo_ui 0)) demo_match)"
    by (simp add: demo_prepared_def)
  have "rq_Text demo_ui_request = ''hi''" by (simp add: demo_ui_request_def demo_wx_request_def)
  then show ?thesis
    using verified_send_observed [OF out demo_ui_sent(2) demo_ui_sent(1) match prep wait base] message by auto
qed

end
