(* ===== verification/WeCom_Text.thy ===== *)
theory WeCom_Text
  imports Go_Text
begin

text \<open>
  How \<^verbatim>\<open>internal/driver/wecom/driver.go\<close> compares what the official client shows: runes and their
  UTF-8 encoding, the folding of labels (\<open>semanticFold\<close>) and the matching of markers.

  The tables of the \<^verbatim>\<open>unicode\<close> package that fit in a few lines are written out (categories \<^verbatim>\<open>Cc\<close>,
  \<^verbatim>\<open>Cf\<close>, \<^verbatim>\<open>Cs\<close>, the script \<^verbatim>\<open>Han\<close>, white space). The mapping to lower case and the categories of
  letters and of digits have thousands of entries; they are the fields of the record \<open>unicode\<close>,
  an argument of every function that uses them. A Chinese literal of the source is written by its
  code points, \<open>utf8 [0x53D1, 0x9001]\<close>.
\<close>

section \<open>Runes\<close>

type_synonym rune = int

definition EncodeRune :: "rune \<Rightarrow> string" where
  "EncodeRune r =
     (let r = (if r < 0 \<or> r > 0x10FFFF \<or> (0xD800 \<le> r \<and> r \<le> 0xDFFF) then 0xFFFD else r)
      in if r < 0x80 then [char_of r]
         else if r < 0x800 then [char_of (0xC0 + r div 64), char_of (0x80 + r mod 64)]
         else if r < 0x10000 then [char_of (0xE0 + r div 4096), char_of (0x80 + r div 64 mod 64), char_of (0x80 + r mod 64)]
         else [char_of (0xF0 + r div 262144), char_of (0x80 + r div 4096 mod 64), char_of (0x80 + r div 64 mod 64),
               char_of (0x80 + r mod 64)])"

definition utf8 :: "rune list \<Rightarrow> string" where
  "utf8 rs = concat (map EncodeRune rs)"

text \<open>The value of one of the pieces into which \<^const>\<open>runes\<close> cuts a byte string.\<close>

definition rune_value :: "string \<Rightarrow> rune" where
  "rune_value piece =
     (case map of_char piece of
        [a] \<Rightarrow> if a < 0x80 then a else 0xFFFD
      | [a, b] \<Rightarrow> (a - 0xC0) * 64 + (b - 0x80)
      | [a, b, c] \<Rightarrow> (a - 0xE0) * 4096 + (b - 0x80) * 64 + (c - 0x80)
      | [a, b, c, d] \<Rightarrow> (a - 0xF0) * 262144 + (b - 0x80) * 4096 + (c - 0x80) * 64 + (d - 0x80)
      | _ \<Rightarrow> 0xFFFD)"

definition rune_values :: "string \<Rightarrow> rune list" where
  "rune_values s = map rune_value (runes s)"

section \<open>Tables\<close>

record unicode =
  un_ToLower :: "rune \<Rightarrow> rune"
  un_IsLetter :: "rune \<Rightarrow> bool"
  un_IsDigit :: "rune \<Rightarrow> bool"

definition in_ranges :: "(rune \<times> rune) list \<Rightarrow> rune \<Rightarrow> bool" where
  "in_ranges table r \<longleftrightarrow> list_ex (\<lambda>(lo, hi). lo \<le> r \<and> r \<le> hi) table"

definition is_Cc :: "rune \<Rightarrow> bool" where
  "is_Cc = in_ranges [(0x00, 0x1F), (0x7F, 0x9F)]"

definition is_Cf :: "rune \<Rightarrow> bool" where
  "is_Cf = in_ranges [(0xAD, 0xAD), (0x600, 0x605), (0x61C, 0x61C), (0x6DD, 0x6DD), (0x70F, 0x70F), (0x890, 0x891),
     (0x8E2, 0x8E2), (0x180E, 0x180E), (0x200B, 0x200F), (0x202A, 0x202E), (0x2060, 0x2064), (0x2066, 0x206F),
     (0xFEFF, 0xFEFF), (0xFFF9, 0xFFFB), (0x110BD, 0x110BD), (0x110CD, 0x110CD), (0x13430, 0x1343F),
     (0x1BCA0, 0x1BCA3), (0x1D173, 0x1D17A), (0xE0001, 0xE0001), (0xE0020, 0xE007F)]"

definition is_Cs :: "rune \<Rightarrow> bool" where
  "is_Cs = in_ranges [(0xD800, 0xDFFF)]"

definition is_Han :: "rune \<Rightarrow> bool" where
  "is_Han = in_ranges [(0x2E80, 0x2E99), (0x2E9B, 0x2EF3), (0x2F00, 0x2FD5), (0x3005, 0x3005), (0x3007, 0x3007),
     (0x3021, 0x3029), (0x3038, 0x303B), (0x3400, 0x4DBF), (0x4E00, 0x9FFF), (0xF900, 0xFA6D), (0xFA70, 0xFAD9),
     (0x16FE2, 0x16FE3), (0x16FF0, 0x16FF1), (0x20000, 0x2A6DF), (0x2A700, 0x2B739), (0x2B740, 0x2B81D),
     (0x2B820, 0x2CEA1), (0x2CEB0, 0x2EBE0), (0x2F800, 0x2FA1D), (0x30000, 0x3134A), (0x31350, 0x323AF)]"

definition is_White_Space :: "rune \<Rightarrow> bool" where
  "is_White_Space = in_ranges [(0x09, 0x0D), (0x20, 0x20), (0x85, 0x85), (0xA0, 0xA0), (0x1680, 0x1680),
     (0x2000, 0x200A), (0x2028, 0x2029), (0x202F, 0x202F), (0x205F, 0x205F), (0x3000, 0x3000)]"

definition strings_ToLower :: "unicode \<Rightarrow> string \<Rightarrow> string" where
  "strings_ToLower u s = utf8 (map (un_ToLower u) (rune_values s))"

section \<open>Folding\<close>

definition defaultIgnorableRune :: "rune \<Rightarrow> bool" where
  "defaultIgnorableRune c \<longleftrightarrow>
     (is_Cc c \<or> is_Cf c \<or> is_Cs c) \<or>
     c = 0x034F \<or>
     0x115F \<le> c \<and> c \<le> 0x1160 \<or>
     0x17B4 \<le> c \<and> c \<le> 0x17B5 \<or>
     0x180B \<le> c \<and> c \<le> 0x180F \<or>
     c = 0x3164 \<or>
     0xFE00 \<le> c \<and> c \<le> 0xFE0F \<or>
     c = 0xFFA0 \<or>
     0xFFF0 \<le> c \<and> c \<le> 0xFFF8 \<or>
     0xE0100 \<le> c \<and> c \<le> 0xE01EF"

definition fold_rune :: "unicode \<Rightarrow> rune \<Rightarrow> rune option" where
  "fold_rune u c =
     (if defaultIgnorableRune c then None
      else
        let c = (if 0xFF01 \<le> c \<and> c \<le> 0xFF5E then c - 0xFEE0 else c)
        in if c = 0x3000 then Some 0x20 else Some (un_ToLower u c))"

text \<open>\<^verbatim>\<open>strings.Join(strings.Fields(folded), " ")\<close> on runes.\<close>

fun rune_fields :: "rune list \<Rightarrow> rune list \<Rightarrow> rune list list" where
  "rune_fields word [] = (if word = [] then [] else [rev word])"
| "rune_fields word (c # cs) =
     (if is_White_Space c then (if word = [] then [] else [rev word]) @ rune_fields [] cs
      else rune_fields (c # word) cs)"

fun join_words :: "rune list list \<Rightarrow> rune list" where
  "join_words [] = []"
| "join_words [w] = w"
| "join_words (w # v # ws) = w @ 0x20 # join_words (v # ws)"

text \<open>A space between two Han characters is dropped; \<open>before\<close> is the rune at \<^verbatim>\<open>index-1\<close>.\<close>

fun drop_han_spaces :: "rune option \<Rightarrow> rune list \<Rightarrow> rune list" where
  "drop_han_spaces before [] = []"
| "drop_han_spaces before (c # cs) =
     (if c = 0x20 \<and> (case before of Some b \<Rightarrow> is_Han b | None \<Rightarrow> False) \<and> (case cs of d # _ \<Rightarrow> is_Han d | [] \<Rightarrow> False)
      then drop_han_spaces (Some c) cs
      else c # drop_han_spaces (Some c) cs)"

definition semantic_runes :: "unicode \<Rightarrow> string \<Rightarrow> rune list" where
  "semantic_runes u value =
     drop_han_spaces None (join_words (rune_fields [] (List.map_filter (fold_rune u) (rune_values value))))"

definition semanticFold :: "unicode \<Rightarrow> string \<Rightarrow> string" where
  "semanticFold u value = utf8 (semantic_runes u value)"

definition normalizedVisibleLabel :: "unicode \<Rightarrow> string \<Rightarrow> string" where
  "normalizedVisibleLabel u value = semanticFold u value"

section \<open>Markers\<close>

definition containsAny :: "unicode \<Rightarrow> string \<Rightarrow> string list \<Rightarrow> bool" where
  "containsAny u value candidates =
     (let value = semanticFold u value
      in list_ex (\<lambda>candidate. Contains value (semanticFold u candidate)) candidates)"

definition matchesAny :: "unicode \<Rightarrow> string \<Rightarrow> string list \<Rightarrow> bool" where
  "matchesAny u value candidates =
     (let value = semanticFold u value
      in list_ex (\<lambda>candidate. value = semanticFold u candidate) candidates)"

definition word_rune :: "unicode \<Rightarrow> rune \<Rightarrow> bool" where
  "word_rune u c \<longleftrightarrow> un_IsLetter u c \<or> un_IsDigit u c"

text \<open>One occurrence of a marker at \<open>start\<close>: an ASCII marker must stand between word boundaries.\<close>

definition marker_at :: "unicode \<Rightarrow> rune list \<Rightarrow> rune list \<Rightarrow> nat \<Rightarrow> bool" where
  "marker_at u valueRunes markerRunes start \<longleftrightarrow>
     (let asciiMarker = list_all (\<lambda>c. c \<le> 0x7F) markerRunes;
          finish = start + length markerRunes
      in utf8 (take (length markerRunes) (drop start valueRunes)) = utf8 markerRunes \<and>
         (\<not> asciiMarker \<or>
          (start = 0 \<or> \<not> word_rune u (valueRunes ! (start - 1))) \<and>
          (finish = length valueRunes \<or> \<not> word_rune u (valueRunes ! finish))))"

definition hasSemanticMarker :: "unicode \<Rightarrow> string \<Rightarrow> string list \<Rightarrow> bool" where
  "hasSemanticMarker u value candidates =
     (let valueRunes = rune_values (semanticFold u value)
      in list_ex (\<lambda>candidate.
           let markerRunes = rune_values (semanticFold u candidate)
           in markerRunes \<noteq> [] \<and> length markerRunes \<le> length valueRunes \<and>
              list_ex (marker_at u valueRunes markerRunes) [0..<length valueRunes + 1 - length markerRunes]) candidates)"

end
