(* ===== verification/WeCom_Nodes.thy ===== *)
theory WeCom_Nodes
  imports WeCom_Text Errors
begin

text \<open>
  What the accessibility companion reports and the reading of it that every guard of the WeCom driver
  shares (\<^verbatim>\<open>internal/driver/wecom\<close>: the data of \<^verbatim>\<open>companion.go\<close>, the geometry of
  \<^verbatim>\<open>send_guard.go\<close>, the label and node functions of \<^verbatim>\<open>driver.go\<close>).

  Coordinates are integers. \<^verbatim>\<open>Node.Selected\<close> is a pointer that the JSON decoder allocates, and Go
  compares nodes with \<^verbatim>\<open>!=\<close>, so the address is part of the value: \<open>Some (a, b)\<close> is a pointer \<open>a\<close> to
  the Boolean \<open>b\<close>.
\<close>

section \<open>Errors\<close>

definition wcErrInvalidArgument :: go_error where "wcErrInvalidArgument = ErrFailure FailureInvalidArgument ''WeCom operation arguments are invalid''"
definition wcErrAuthRequired :: go_error where "wcErrAuthRequired = ErrFailure FailureAuthRequired ''WeCom authentication is required''"
definition wcErrTargetAmbiguous :: go_error where "wcErrTargetAmbiguous = ErrFailure FailureTargetAmbiguous ''WeCom conversation target is ambiguous''"
definition wcErrUnsupportedCapability :: go_error where "wcErrUnsupportedCapability = ErrFailure FailureUnsupported ''WeCom driver capability is unsupported''"
definition wcErrSendUncertain :: go_error where "wcErrSendUncertain = ErrFailure FailureSendUncertain ''WeCom send result is uncertain''"
definition wcErrConfirmationRequired :: go_error where "wcErrConfirmationRequired = ErrFailure FailureConfirmationRequired ''WeCom surface action requires explicit confirmation''"
definition wcErrUserActionRequired :: go_error where "wcErrUserActionRequired = ErrFailure FailureUserActionRequired ''direct user interaction is required''"
definition wcErrNotFound :: go_error where "wcErrNotFound = ErrFailure FailureNotFound ''requested WeCom object was not found''"
definition wcErrStale :: go_error where "wcErrStale = ErrFailure FailureStale ''WeCom UI state is stale''"
definition wcErrClientIncompatible :: go_error where "wcErrClientIncompatible = ErrFailure FailureClientIncompatible ''the configured WeCom client runtime is incompatible''"
abbreviation ErrActionOutcomeUncertain :: go_error where "ErrActionOutcomeUncertain \<equiv> ErrSentinel WeComErrActionOutcomeUncertain"

text \<open>\<^verbatim>\<open>fmt.Errorf("%w: text", err)\<close>\<close>

definition wc_error :: "go_error \<Rightarrow> string \<Rightarrow> go_error" where
  "wc_error err txt = ErrWrapf [] err ('': '' @ txt)"

section \<open>Data\<close>

record NodeBounds =
  wb_Left :: int
  wb_Top :: int
  wb_Right :: int
  wb_Bottom :: int

type_synonym address = "nat \<times> nat"

record Node =
  wn_ID :: string
  wn_ParentID :: string
  wn_ClassName :: string
  wn_ViewID :: string
  wn_Text :: string
  wn_ContentDescription :: string
  wn_Bounds :: NodeBounds
  wn_Clickable :: bool
  wn_Checkable :: bool
  wn_Checked :: bool
  wn_Selected :: "(address \<times> bool) option"
  wn_Editable :: bool
  wn_Scrollable :: bool
  wn_Enabled :: bool
  wn_Focused :: bool
  wn_VisibleToUser :: bool

record UISnapshot =
  ws_Sequence :: int
  ws_PackageName :: string
  ws_WindowID :: int
  ws_WindowTitle :: string
  ws_WindowClass :: string
  ws_CapturedAt :: time
  ws_Nodes :: "Node list"

definition zero_Node :: Node where
  "zero_Node = \<lparr>wn_ID = [], wn_ParentID = [], wn_ClassName = [], wn_ViewID = [], wn_Text = [], wn_ContentDescription = [],
     wn_Bounds = \<lparr>wb_Left = 0, wb_Top = 0, wb_Right = 0, wb_Bottom = 0\<rparr>, wn_Clickable = False, wn_Checkable = False,
     wn_Checked = False, wn_Selected = None, wn_Editable = False, wn_Scrollable = False, wn_Enabled = False,
     wn_Focused = False, wn_VisibleToUser = False\<rparr>"

definition DefaultWeComPackage :: string where "DefaultWeComPackage = ''com.tencent.wework''"
definition weComConversationActivity :: string where
  "weComConversationActivity = ''com.tencent.wework.msg.controller.ConversationActivity''"
definition weComLoginWxAuthActivity :: string where
  "weComLoginWxAuthActivity = ''com.tencent.wework.login.controller.LoginWxAuthActivity''"
definition weComSMSVerifyActivity :: string where
  "weComSMSVerifyActivity = ''com.tencent.wework.login.controller.LoginVeryfyStep2Activity''"
definition weComLaunchActivity :: string where
  "weComLaunchActivity = ''com.tencent.wework.launch.LaunchSplashActivity''"
definition weComLoginAgreementViewID :: string where
  "weComLoginAgreementViewID = DefaultWeComPackage @ '':id/ow''"
definition androidImageViewClass :: string where "androidImageViewClass = ''android.widget.ImageView''"

section \<open>Geometry\<close>

text \<open>Go's integer division truncates toward zero.\<close>

definition quot :: "int \<Rightarrow> int \<Rightarrow> int" where
  "quot a b = (if (a < 0) = (b < 0) then \<bar>a\<bar> div \<bar>b\<bar> else - (\<bar>a\<bar> div \<bar>b\<bar>))"

definition boundsWidth :: "NodeBounds \<Rightarrow> int" where "boundsWidth b = wb_Right b - wb_Left b"
definition boundsHeight :: "NodeBounds \<Rightarrow> int" where "boundsHeight b = wb_Bottom b - wb_Top b"
definition boundsCenterX :: "NodeBounds \<Rightarrow> int" where "boundsCenterX b = wb_Left b + quot (boundsWidth b) 2"
definition boundsCenterY :: "NodeBounds \<Rightarrow> int" where "boundsCenterY b = wb_Top b + quot (boundsHeight b) 2"

definition boundsInside :: "NodeBounds \<Rightarrow> NodeBounds \<Rightarrow> bool" where
  "boundsInside outer inner \<longleftrightarrow>
     wb_Left inner \<ge> wb_Left outer \<and> wb_Top inner \<ge> wb_Top outer \<and>
     wb_Right inner \<le> wb_Right outer \<and> wb_Bottom inner \<le> wb_Bottom outer"

definition boundsContains :: "NodeBounds \<Rightarrow> NodeBounds \<Rightarrow> bool" where
  "boundsContains outer inner = boundsInside outer inner"

definition usableBounds :: "NodeBounds \<Rightarrow> bool" where
  "usableBounds b \<longleftrightarrow> wb_Right b > wb_Left b \<and> wb_Bottom b > wb_Top b \<and> wb_Right b > 0 \<and> wb_Bottom b > 0"

definition validNodeBounds :: "NodeBounds \<Rightarrow> bool" where
  "validNodeBounds b \<longleftrightarrow> wb_Right b > wb_Left b \<and> wb_Bottom b > wb_Top b"

definition isDescendant :: "string \<Rightarrow> string \<Rightarrow> bool" where
  "isDescendant nid ancestor \<longleftrightarrow> ancestor \<noteq> [] \<and> nid \<noteq> ancestor \<and> HasPrefix nid (ancestor @ ''/'')"

definition isDescendantOrSelf :: "string \<Rightarrow> string \<Rightarrow> bool" where
  "isDescendantOrSelf nid ancestor \<longleftrightarrow> nid = ancestor \<or> isDescendant nid ancestor"

section \<open>Nodes by identifier\<close>

text \<open>A map from identifiers in which a later node replaces an earlier one.\<close>

type_synonym node_index = "(string \<times> Node) list"

definition index_nodes :: "Node list \<Rightarrow> node_index" where
  "index_nodes nodes = map (\<lambda>n. (wn_ID n, n)) (rev nodes)"

definition index_len :: "node_index \<Rightarrow> nat" where
  "index_len byID = length (remdups (map fst byID))"

definition uniqueNodeIndex :: "Node list \<Rightarrow> node_index result" where
  "uniqueNodeIndex nodes =
     (let named = filter (\<lambda>n. wn_ID n \<noteq> []) nodes
      in if distinct (map wn_ID named) then Inr (index_nodes named)
         else Inl (wc_error wcErrTargetAmbiguous ''semantic tree contains duplicate node identities''))"

fun nodeDescendsFrom_loop :: "nat \<Rightarrow> Node \<Rightarrow> string \<Rightarrow> node_index \<Rightarrow> bool" where
  "nodeDescendsFrom_loop 0 current ancestorID byID = False"
| "nodeDescendsFrom_loop (Suc turns) current ancestorID byID =
     (if wn_ParentID current = [] then False
      else if wn_ParentID current = ancestorID then True
      else case map_of byID (wn_ParentID current) of
          None \<Rightarrow> False
        | Some parent \<Rightarrow>
            if wn_ID parent = wn_ID current then False else nodeDescendsFrom_loop turns parent ancestorID byID)"

definition nodeDescendsFrom :: "Node \<Rightarrow> string \<Rightarrow> node_index \<Rightarrow> bool" where
  "nodeDescendsFrom node ancestorID byID = nodeDescendsFrom_loop (index_len byID + 1) node ancestorID byID"

definition matchingNodes :: "UISnapshot \<Rightarrow> (Node \<Rightarrow> bool) \<Rightarrow> Node list" where
  "matchingNodes snapshot match = filter match (ws_Nodes snapshot)"

definition uniqueNode :: "UISnapshot \<Rightarrow> (Node \<Rightarrow> bool) \<Rightarrow> Node result" where
  "uniqueNode snapshot match =
     (case matchingNodes snapshot match of
        [] \<Rightarrow> Inl wcErrNotFound
      | [n] \<Rightarrow> Inr n
      | n # m # rest \<Rightarrow> Inl wcErrTargetAmbiguous)"

definition editableNodes :: "UISnapshot \<Rightarrow> Node list" where
  "editableNodes snapshot = matchingNodes snapshot (\<lambda>n. wn_Editable n \<and> wn_Enabled n)"

definition isWeComActivity :: "UISnapshot \<Rightarrow> string \<Rightarrow> bool" where
  "isWeComActivity snapshot activity \<longleftrightarrow>
     ws_PackageName snapshot = DefaultWeComPackage \<and> TrimSpace (ws_WindowClass snapshot) = activity"

section \<open>Labels\<close>

definition nodeLabel :: "Node \<Rightarrow> string" where
  "nodeLabel n = (if wn_Text n \<noteq> [] then TrimSpace (wn_Text n) else TrimSpace (wn_ContentDescription n))"

fun appendDistinctSemanticValues :: "unicode \<Rightarrow> string list \<Rightarrow> string list \<Rightarrow> string list" where
  "appendDistinctSemanticValues u vals [] = vals"
| "appendDistinctSemanticValues u vals (candidate # candidates) =
     (let candidate = TrimSpace candidate; key = semanticFold u candidate
      in appendDistinctSemanticValues u
           (if candidate = [] \<or> key = [] \<or> key \<in> set (map (semanticFold u) vals) then vals else vals @ [candidate]) candidates)"

definition nodeUserFacingValues :: "unicode \<Rightarrow> Node \<Rightarrow> string list" where
  "nodeUserFacingValues u n = appendDistinctSemanticValues u [] [wn_Text n, wn_ContentDescription n]"

definition nodeSemanticValues :: "unicode \<Rightarrow> Node \<Rightarrow> string list" where
  "nodeSemanticValues u n = appendDistinctSemanticValues u (nodeUserFacingValues u n) [wn_ViewID n, wn_ClassName n]"

definition nodeSemanticEvidence :: "unicode \<Rightarrow> Node \<Rightarrow> string" where
  "nodeSemanticEvidence u n = intercalate '' '' (nodeSemanticValues u n)"

text \<open>The text of a window: its title and a line for each node.\<close>

definition node_line :: "Node \<Rightarrow> string" where
  "node_line n = CHR 0x0A # wn_Text n @ '' '' @ wn_ContentDescription n"

definition visibleSnapshotText :: "unicode \<Rightarrow> UISnapshot \<Rightarrow> string" where
  "visibleSnapshotText u snapshot =
     strings_ToLower u (ws_WindowTitle snapshot @ concat (map node_line (filter wn_VisibleToUser (ws_Nodes snapshot))))"

definition snapshotText :: "unicode \<Rightarrow> UISnapshot \<Rightarrow> string" where
  "snapshotText u snapshot = strings_ToLower u (ws_WindowTitle snapshot @ concat (map node_line (ws_Nodes snapshot)))"

section \<open>The nodes that speak for an action\<close>

definition bound_candidate :: "node_index \<Rightarrow> Node \<Rightarrow> Node \<Rightarrow> bool" where
  "bound_candidate byID target candidate \<longleftrightarrow>
     wn_ID candidate \<noteq> [] \<and> wn_ID candidate \<noteq> wn_ID target \<and> wn_VisibleToUser candidate \<and>
     usableBounds (wn_Bounds candidate) \<and> boundsContains (wn_Bounds target) (wn_Bounds candidate) \<and>
     nodeDescendsFrom candidate (wn_ID target) byID"

fun add_nodes :: "Node list \<Rightarrow> Node list \<Rightarrow> Node list" where
  "add_nodes added [] = added"
| "add_nodes added (n # ns) = add_nodes (if wn_ID n \<in> set (map wn_ID added) then added else added @ [n]) ns"

text \<open>At most two ancestors with exactly the bounds of the target.\<close>

fun wrapper_chain :: "nat \<Rightarrow> node_index \<Rightarrow> Node \<Rightarrow> Node \<Rightarrow> Node list" where
  "wrapper_chain 0 byID target current = []"
| "wrapper_chain (Suc turns) byID target current =
     (if wn_ParentID current = [] then []
      else case map_of byID (wn_ParentID current) of
          None \<Rightarrow> []
        | Some parent \<Rightarrow>
            if wn_ID parent = wn_ID current \<or> \<not> wn_VisibleToUser parent \<or> wn_Bounds parent \<noteq> wn_Bounds target then []
            else parent # wrapper_chain turns byID target parent)"

definition actionSemanticNodes :: "UISnapshot \<Rightarrow> Node \<Rightarrow> Node list" where
  "actionSemanticNodes snapshot target =
     (let byID = index_nodes (filter (\<lambda>n. wn_ID n \<noteq> []) (ws_Nodes snapshot))
      in add_nodes [target]
           (filter (bound_candidate byID target) (ws_Nodes snapshot) @ wrapper_chain 2 byID target target))"

definition actionSemanticEvidence :: "unicode \<Rightarrow> UISnapshot \<Rightarrow> Node \<Rightarrow> string" where
  "actionSemanticEvidence u snapshot target =
     intercalate '' '' (fold (\<lambda>n vals. appendDistinctSemanticValues u vals (nodeSemanticValues u n)) (actionSemanticNodes snapshot target) [])"

definition actionMatchesAny :: "unicode \<Rightarrow> UISnapshot \<Rightarrow> Node \<Rightarrow> string list \<Rightarrow> bool" where
  "actionMatchesAny u snapshot target candidates \<longleftrightarrow>
     list_ex (\<lambda>n. list_ex (\<lambda>v. matchesAny u v candidates) (nodeSemanticValues u n)) (actionSemanticNodes snapshot target)"

section \<open>Unique clickable targets\<close>

definition clickable_target :: "Node \<Rightarrow> bool" where
  "clickable_target n \<longleftrightarrow> wn_Enabled n \<and> wn_Clickable n \<and> wn_VisibleToUser n \<and> usableBounds (wn_Bounds n)"

fun climb_to_clickable :: "nat \<Rightarrow> node_index \<Rightarrow> Node \<Rightarrow> Node option" where
  "climb_to_clickable 0 byID current = None"
| "climb_to_clickable (Suc turns) byID current =
     (if clickable_target current then Some current
      else if wn_ParentID current = [] then None
      else case map_of byID (wn_ParentID current) of
          None \<Rightarrow> None
        | Some parent \<Rightarrow> if wn_ID parent = wn_ID current then None else climb_to_clickable turns byID parent)"

definition label_candidates :: "UISnapshot \<Rightarrow> (Node \<Rightarrow> bool) \<Rightarrow> node_index" where
  "label_candidates snapshot labelled =
     (let byID = index_nodes (ws_Nodes snapshot);
          found = List.map_filter (\<lambda>n. if wn_ID n \<noteq> [] \<and> wn_VisibleToUser n \<and> labelled n
                                       then climb_to_clickable (length (ws_Nodes snapshot) + 1) byID n else None) (ws_Nodes snapshot)
      in fold (\<lambda>n. AList.update (wn_ID n) n) found [])"

definition unique_candidate :: "node_index \<Rightarrow> Node result" where
  "unique_candidate candidates =
     (case candidates of
        [] \<Rightarrow> Inl (wc_error wcErrStale ''matching visible clickable target is unavailable'')
      | [(nid, n)] \<Rightarrow> Inr n
      | _ \<Rightarrow> Inl (wc_error wcErrTargetAmbiguous ''multiple matching visible clickable targets''))"

definition uniqueVisibleLabelTarget :: "unicode \<Rightarrow> UISnapshot \<Rightarrow> string list \<Rightarrow> Node result" where
  "uniqueVisibleLabelTarget u snapshot labels =
     unique_candidate (label_candidates snapshot (\<lambda>n. matchesAny u (nodeLabel n) labels))"

definition uniqueVisibleNormalizedLabelTarget :: "unicode \<Rightarrow> UISnapshot \<Rightarrow> string \<Rightarrow> Node result" where
  "uniqueVisibleNormalizedLabelTarget u snapshot label =
     (let want = normalizedVisibleLabel u label
      in unique_candidate (label_candidates snapshot (\<lambda>n. normalizedVisibleLabel u (nodeLabel n) = want)))"

end
