(* ===== verification/WeCom_Guards.thy ===== *)
theory WeCom_Guards
  imports WeCom_Nodes
begin

text \<open>
  What the WeCom driver makes of a window: security challenges, high-risk and authentication surfaces
  (\<^verbatim>\<open>semantic_guards.go\<close> and their counterparts in \<^verbatim>\<open>driver.go\<close>), the login and privacy screens, the
  classification of the login state, and the risk and effect of an action on a node.
\<close>

section \<open>Marker lists\<close>

definition securityChallengeMarkers :: "string list" where
  "securityChallengeMarkers =
     [utf8 [0x8D26, 0x53F7, 0x5B58, 0x5728, 0x98CE, 0x9669], utf8 [0x8D26, 0x6237, 0x5B58, 0x5728, 0x98CE, 0x9669],
      utf8 [0x8BBE, 0x5907, 0x9A8C, 0x8BC1], utf8 [0x5B89, 0x5168, 0x9A8C, 0x8BC1],
      utf8 [0x5F02, 0x5E38, 0x767B, 0x5F55], utf8 [0x786E, 0x8BA4, 0x672C, 0x4EBA, 0x64CD, 0x4F5C],
      ''account risk'', ''device verification'', ''security verification'', ''unusual login'',
      ''confirm on your phone'', utf8 [0x4EBA, 0x8138, 0x9A8C, 0x8BC1], utf8 [0x4EBA, 0x8138, 0x8BC6, 0x522B],
      utf8 [0x6ED1, 0x5757, 0x9A8C, 0x8BC1], utf8 [0x5B8C, 0x6210, 0x9A8C, 0x8BC1], ''face verification'',
      ''captcha'']"

definition securityChallengeActionLabels :: "string list" where
  "securityChallengeActionLabels =
     [utf8 [0x786E, 0x8BA4, 0x672C, 0x4EBA, 0x64CD, 0x4F5C], utf8 [0x5F00, 0x59CB, 0x9A8C, 0x8BC1],
      utf8 [0x53BB, 0x9A8C, 0x8BC1], utf8 [0x7EE7, 0x7EED, 0x9A8C, 0x8BC1],
      utf8 [0x5B8C, 0x6210, 0x9A8C, 0x8BC1], utf8 [0x91CD, 0x65B0, 0x9A8C, 0x8BC1], ''verify'',
      ''start verification'', ''continue'', ''confirm'', ''retry'']"

definition securityMetadataMarkers :: "string list" where
  "securityMetadataMarkers =
     [''verify'', ''verification'', ''captcha'', ''slider'', ''security'', ''risk'', ''face_auth'', ''faceauth'']"

definition highRiskActivityMarkers :: "string list" where
  "highRiskActivityMarkers =
     [''pay'', ''payment'', ''wallet'', ''transfer'', ''cash'', ''bankcard'', ''bank_card'', ''checkout'',
      ''purchase'', ''orderpay'', ''authorize'', ''authorization'', ''permission'']"

definition sensitiveSurfaceLabel :: "unicode \<Rightarrow> string \<Rightarrow> bool" where
  "sensitiveSurfaceLabel u label = containsAny u label
     [utf8 [0x652F, 0x4ED8], utf8 [0x4ED8, 0x6B3E], utf8 [0x6536, 0x6B3E], utf8 [0x8F6C, 0x8D26],
      utf8 [0x7EA2, 0x5305], utf8 [0x6388, 0x6743], utf8 [0x5141, 0x8BB8],
      utf8 [0x8EAB, 0x4EFD, 0x9A8C, 0x8BC1], utf8 [0x5B9E, 0x540D, 0x8BA4, 0x8BC1],
      utf8 [0x8D26, 0x53F7, 0x5B89, 0x5168], utf8 [0x8D26, 0x6237, 0x5B89, 0x5168], utf8 [0x8D2D, 0x4E70],
      utf8 [0x4E0B, 0x5355], utf8 [0x5145, 0x503C], utf8 [0x63D0, 0x73B0], utf8 [0x7B7E, 0x7F72],
      utf8 [0x767B, 0x5F55], utf8 [0x5BC6, 0x7801], utf8 [0x94F6, 0x884C, 0x5361], ''pay'', ''payment'',
      ''transfer'', ''red packet'', ''authorize'', ''permission'', ''identity verification'',
      ''account security'', ''purchase'', ''checkout'', ''place order'', ''top up'', ''recharge'',
      ''withdraw'', ''sign agreement'', ''sign in'', ''log in'', ''login'', ''password'', ''bank card'']"

definition externalWriteSurfaceLabel :: "unicode \<Rightarrow> string \<Rightarrow> string \<Rightarrow> bool" where
  "externalWriteSurfaceLabel u label viewID = containsAny u (label @ '' '' @ viewID)
     [utf8 [0x53D1, 0x9001], utf8 [0x53D1, 0x5E03], utf8 [0x63D0, 0x4EA4], utf8 [0x4FDD, 0x5B58],
      utf8 [0x786E, 0x8BA4], utf8 [0x70B9, 0x8D5E], utf8 [0x8BC4, 0x8BBA], utf8 [0x6536, 0x85CF],
      utf8 [0x5173, 0x6CE8], utf8 [0x5206, 0x4EAB], utf8 [0x8F6C, 0x53D1], utf8 [0x62A5, 0x540D],
      utf8 [0x52A0, 0x5165], utf8 [0x7533, 0x8BF7], ''send'', ''publish'', ''submit'', ''save'', ''confirm'',
      ''like'', ''comment'', ''favorite'', ''follow'', ''share'', ''forward'', ''join'', ''apply'']"

definition destructiveSurfaceLabel :: "unicode \<Rightarrow> string \<Rightarrow> string \<Rightarrow> bool" where
  "destructiveSurfaceLabel u label viewID = hasSemanticMarker u (label @ '' '' @ viewID)
     [utf8 [0x5220, 0x9664], utf8 [0x79FB, 0x9664], utf8 [0x6E05, 0x7A7A, 0x6570, 0x636E],
      utf8 [0x6E05, 0x7A7A, 0x8BB0, 0x5F55], utf8 [0x6E05, 0x7A7A, 0x5386, 0x53F2],
      utf8 [0x6E05, 0x9664, 0x6570, 0x636E], utf8 [0x64E6, 0x9664], utf8 [0x62B9, 0x6389, 0x6570, 0x636E],
      utf8 [0x9500, 0x6BC1], utf8 [0x6CE8, 0x9500], utf8 [0x6C38, 0x4E45, 0x6CE8, 0x9500],
      utf8 [0x683C, 0x5F0F, 0x5316], utf8 [0x91CD, 0x7F6E, 0x8D26, 0x53F7],
      utf8 [0x91CD, 0x7F6E, 0x8D26, 0x6237], utf8 [0x64A4, 0x9500, 0x6388, 0x6743],
      utf8 [0x53D6, 0x6D88, 0x6388, 0x6743], ''delete'', ''remove'', ''erase'', ''clear all'',
      ''clear history'', ''clear data'', ''wipe'', ''destroy'', ''reset account'', ''revoke access'',
      ''revoke authorization'', ''format'']"

definition destructiveConversationControlLabel :: "unicode \<Rightarrow> string \<Rightarrow> bool" where
  "destructiveConversationControlLabel u value \<longleftrightarrow>
     matchesAny u value
       [utf8 [0x5220, 0x9664], utf8 [0x79FB, 0x9664], utf8 [0x6E05, 0x7A7A, 0x6570, 0x636E],
      utf8 [0x6E05, 0x7A7A, 0x8BB0, 0x5F55], utf8 [0x6E05, 0x7A7A, 0x5386, 0x53F2],
      utf8 [0x6E05, 0x9664, 0x6570, 0x636E], utf8 [0x64E6, 0x9664], utf8 [0x9500, 0x6BC1],
      utf8 [0x6CE8, 0x9500], utf8 [0x6C38, 0x4E45, 0x6CE8, 0x9500], utf8 [0x683C, 0x5F0F, 0x5316],
      utf8 [0x91CD, 0x7F6E, 0x8D26, 0x53F7], utf8 [0x91CD, 0x7F6E, 0x8D26, 0x6237],
      utf8 [0x64A4, 0x9500, 0x6388, 0x6743], utf8 [0x53D6, 0x6D88, 0x6388, 0x6743], ''delete'', ''remove'',
      ''erase'', ''clear all'', ''clear history'', ''clear data'', ''wipe'', ''destroy'', ''reset account'',
      ''revoke access'', ''revoke authorization'', ''format'', ''delete account'', ''delete message'',
      ''delete contact'', ''remove member''] \<or>
     (let folded = semanticFold u value
      in list_ex (\<lambda>p. HasPrefix folded (semanticFold u p) \<and> RuneCount folded \<le> 80)
           [utf8 [0x5220, 0x9664], utf8 [0x79FB, 0x9664], utf8 [0x6E05, 0x7A7A], utf8 [0x6E05, 0x9664],
      utf8 [0x64E6, 0x9664], utf8 [0x9500, 0x6BC1], utf8 [0x6CE8, 0x9500], utf8 [0x683C, 0x5F0F, 0x5316],
      utf8 [0x91CD, 0x7F6E], utf8 [0x64A4, 0x9500, 0x6388, 0x6743], utf8 [0x53D6, 0x6D88, 0x6388, 0x6743],
      ''delete '', ''remove '', ''erase '', ''clear '', ''wipe '', ''destroy '', ''reset '', ''revoke '',
      ''format ''])"

definition navigationLabels :: "string list" where
  "navigationLabels =
     [utf8 [0x8FD4, 0x56DE], utf8 [0x5173, 0x95ED], utf8 [0x53D6, 0x6D88], utf8 [0x67E5, 0x770B],
      utf8 [0x8BE6, 0x60C5], utf8 [0x6253, 0x5F00], utf8 [0x4E0A, 0x4E00, 0x9875],
      utf8 [0x4E0B, 0x4E00, 0x9875], utf8 [0x9996, 0x9875], ''back'', ''close'', ''cancel'', ''view'',
      ''details'', ''open'', ''previous'', ''next'', ''home'']"

definition sendLabels :: "string list" where "sendLabels = [utf8 [0x53D1, 0x9001], ''send'']"

section \<open>Login and privacy screens\<close>

definition isWeComLoginAgreementImage :: "Node \<Rightarrow> bool" where
  "isWeComLoginAgreementImage n \<longleftrightarrow> wn_ClassName n = androidImageViewClass \<and> wn_ViewID n = weComLoginAgreementViewID"

definition isWeComLoginTermsControl :: "Node \<Rightarrow> bool" where
  "isWeComLoginTermsControl n \<longleftrightarrow>
     isWeComLoginAgreementImage n \<and> \<not> wn_Checkable n \<and> \<not> wn_Checked n \<and> wn_Selected n \<noteq> None"

definition weComLoginTermsAccepted :: "Node \<Rightarrow> bool" where
  "weComLoginTermsAccepted n \<longleftrightarrow>
     isWeComLoginAgreementImage n \<and> (case wn_Selected n of None \<Rightarrow> False | Some (address, selected) \<Rightarrow> selected)"

definition hasWeComLoginAgreementControl :: "UISnapshot \<Rightarrow> bool" where
  "hasWeComLoginAgreementControl snapshot = list_ex isWeComLoginAgreementImage (ws_Nodes snapshot)"

definition agreement_text :: "unicode \<Rightarrow> string \<Rightarrow> bool" where
  "agreement_text u visible \<longleftrightarrow>
     containsAny u visible [''read and agree''] \<and>
     containsAny u visible [''software licensing and service agreements''] \<and>
     containsAny u visible [''privacy policy'']"

definition hasWeComLoginMethodMarker :: "unicode \<Rightarrow> UISnapshot \<Rightarrow> bool" where
  "hasWeComLoginMethodMarker u snapshot \<longleftrightarrow>
     ws_PackageName snapshot = DefaultWeComPackage \<and> \<not> isWeComActivity snapshot weComConversationActivity \<and>
     agreement_text u (visibleSnapshotText u snapshot) \<and>
     (let labels = map (\<lambda>n. normalizedVisibleLabel u (nodeLabel n)) (filter wn_VisibleToUser (ws_Nodes snapshot))
      in list_all (\<lambda>l. l \<in> set labels) [''continue with wechat'', ''continue with email'', ''continue with phone'']) \<and>
     hasWeComLoginAgreementControl snapshot"

definition privacyConsentMarkers :: "unicode \<Rightarrow> UISnapshot \<Rightarrow> bool" where
  "privacyConsentMarkers u snapshot \<longleftrightarrow>
     (let visible = visibleSnapshotText u snapshot
      in containsAny u visible [''privacy policy''] \<and> containsAny u visible [''welcome to wecom''] \<or>
         containsAny u visible [utf8 [0x9690, 0x79C1, 0x653F, 0x7B56]] \<and> containsAny u visible [utf8 [0x6B22, 0x8FCE, 0x4F7F, 0x7528, 0x4F01, 0x4E1A, 0x5FAE, 0x4FE1]])"

definition privacyConsentPage :: "unicode \<Rightarrow> UISnapshot \<Rightarrow> bool" where
  "privacyConsentPage u snapshot \<longleftrightarrow>
     ws_PackageName snapshot = DefaultWeComPackage \<and>
     (isWeComActivity snapshot weComLoginWxAuthActivity \<or> isWeComActivity snapshot weComLaunchActivity) \<and>
     privacyConsentMarkers u snapshot"

definition agreeLabels :: "string list" where "agreeLabels = [''Agree'', utf8 [0x540C, 0x610F]]"
definition disagreeLabels :: "string list" where "disagreeLabels = [''Disagree'', utf8 [0x4E0D, 0x540C, 0x610F]]"

definition hasPrivacyConsentModalMarker :: "unicode \<Rightarrow> UISnapshot \<Rightarrow> bool" where
  "hasPrivacyConsentModalMarker u snapshot \<longleftrightarrow>
     ws_PackageName snapshot = DefaultWeComPackage \<and> \<not> isWeComActivity snapshot weComConversationActivity \<and>
     (let visible = visibleSnapshotText u snapshot
      in containsAny u visible [''privacy policy'', utf8 [0x9690, 0x79C1, 0x653F, 0x7B56],
      utf8 [0x9690, 0x79C1, 0x4FDD, 0x62A4, 0x6307, 0x5F15]] \<and>
         containsAny u visible [''welcome to wecom'', utf8 [0x6B22, 0x8FCE, 0x4F7F, 0x7528, 0x4F01, 0x4E1A, 0x5FAE, 0x4FE1]]) \<and>
     (\<not> isl (uniqueVisibleLabelTarget u snapshot agreeLabels) \<and> \<not> isl (uniqueVisibleLabelTarget u snapshot disagreeLabels) \<or>
      isWeComActivity snapshot weComLoginWxAuthActivity \<or> isWeComActivity snapshot weComLaunchActivity)"

definition uniquePrivacyConsentTarget :: "unicode \<Rightarrow> UISnapshot \<Rightarrow> Node result" where
  "uniquePrivacyConsentTarget u snapshot =
     (if \<not> privacyConsentPage u snapshot \<or> ws_Sequence snapshot \<le> 0
      then Inl (wc_error wcErrStale ''official privacy consent screen is not active'')
      else case uniqueVisibleLabelTarget u snapshot agreeLabels of
          Inl err \<Rightarrow> Inl (ErrWrapf ''privacy consent agree target: '' err [])
        | Inr agree \<Rightarrow>
            (case uniqueVisibleLabelTarget u snapshot disagreeLabels of
               Inl err \<Rightarrow> Inl (ErrWrapf ''privacy consent disagree target: '' err [])
             | Inr disagree \<Rightarrow>
                 if wn_ID agree = wn_ID disagree
                 then Inl (wc_error wcErrTargetAmbiguous ''privacy consent choices share one clickable target'')
                 else Inr agree))"

section \<open>Security challenges and high-risk surfaces\<close>

text \<open>\<^verbatim>\<open>strings.Split(s, "/")\<close>\<close>

fun split_on_slash :: "string \<Rightarrow> string \<Rightarrow> string list" where
  "split_on_slash word [] = [rev word]"
| "split_on_slash word (c # cs) =
     (if c = CHR ''/'' then rev word # split_on_slash [] cs else split_on_slash (c # word) cs)"

definition commonAncestorID :: "string \<Rightarrow> string \<Rightarrow> string" where
  "commonAncestorID left right =
     intercalate ''/'' (map fst (takeWhile (\<lambda>(l, r). l = r) (zip (split_on_slash [] left) (split_on_slash [] right))))"

definition nodesShareBoundedRegion :: "Node \<Rightarrow> Node \<Rightarrow> node_index \<Rightarrow> bool" where
  "nodesShareBoundedRegion left right byID \<longleftrightarrow>
     (let ancestorID = commonAncestorID (wn_ID left) (wn_ID right)
      in ancestorID \<noteq> [] \<and> ancestorID \<noteq> ''0'' \<and>
         (case map_of byID ancestorID of
            None \<Rightarrow> False
          | Some ancestor \<Rightarrow>
              wn_VisibleToUser ancestor \<and> usableBounds (wn_Bounds ancestor) \<and>
              boundsContains (wn_Bounds ancestor) (wn_Bounds left) \<and> boundsContains (wn_Bounds ancestor) (wn_Bounds right)))"

definition challenge_control :: "unicode \<Rightarrow> UISnapshot \<Rightarrow> Node \<Rightarrow> bool" where
  "challenge_control u snapshot n \<longleftrightarrow>
     wn_VisibleToUser n \<and> wn_Enabled n \<and> usableBounds (wn_Bounds n) \<and>
     (wn_Clickable n \<and> actionMatchesAny u snapshot n securityChallengeActionLabels \<or> wn_Editable n \<or> wn_Checkable n)"

definition structuredSecurityChallenge :: "unicode \<Rightarrow> UISnapshot \<Rightarrow> bool" where
  "structuredSecurityChallenge u snapshot \<longleftrightarrow>
     ws_PackageName snapshot = DefaultWeComPackage \<and>
     (let activity = strings_ToLower u (TrimSpace (ws_WindowClass snapshot));
          markers = matchingNodes snapshot (\<lambda>n. wn_VisibleToUser n \<and> containsAny u (nodeSemanticEvidence u n) securityChallengeMarkers)
      in if activity \<noteq> [] \<and> activity \<noteq> strings_ToLower u weComConversationActivity \<and> containsAny u activity securityMetadataMarkers
         then True
         else if markers = [] then False
         else if list_ex (\<lambda>n. wn_VisibleToUser n \<and> usableBounds (wn_Bounds n) \<and>
                   containsAny u (wn_ClassName n @ '' '' @ wn_ViewID n) securityMetadataMarkers) (ws_Nodes snapshot)
         then True
         else if isWeComActivity snapshot weComLoginWxAuthActivity \<or> isWeComActivity snapshot weComSMSVerifyActivity then True
         else case uniqueNodeIndex (ws_Nodes snapshot) of
             Inl err \<Rightarrow> True
           | Inr byID \<Rightarrow>
               list_ex (\<lambda>marker. list_ex (\<lambda>n. challenge_control u snapshot n \<and> nodesShareBoundedRegion marker n byID)
                 (ws_Nodes snapshot)) markers)"

definition snapshotRequiresUserAction :: "unicode \<Rightarrow> UISnapshot \<Rightarrow> bool" where
  "snapshotRequiresUserAction u snapshot = structuredSecurityChallenge u snapshot"

definition snapshotHasHardAuthRisk :: "unicode \<Rightarrow> UISnapshot \<Rightarrow> bool" where
  "snapshotHasHardAuthRisk u snapshot = structuredSecurityChallenge u snapshot"

definition sensitiveConversationControl :: "unicode \<Rightarrow> UISnapshot \<Rightarrow> Node \<Rightarrow> bool" where
  "sensitiveConversationControl u snapshot target \<longleftrightarrow>
     list_ex (\<lambda>n.
       list_ex (\<lambda>v. matchesAny u v
         [utf8 [0x652F, 0x4ED8], utf8 [0x7ACB, 0x5373, 0x652F, 0x4ED8], utf8 [0x786E, 0x8BA4, 0x652F, 0x4ED8],
      utf8 [0x4ED8, 0x6B3E], utf8 [0x786E, 0x8BA4, 0x4ED8, 0x6B3E], utf8 [0x8F6C, 0x8D26],
      utf8 [0x786E, 0x8BA4, 0x8F6C, 0x8D26], utf8 [0x53D1, 0x7EA2, 0x5305], utf8 [0x6388, 0x6743],
      utf8 [0x5141, 0x8BB8, 0x6388, 0x6743], utf8 [0x8D2D, 0x4E70], utf8 [0x7ACB, 0x5373, 0x8D2D, 0x4E70],
      utf8 [0x4E0B, 0x5355], utf8 [0x63D0, 0x4EA4, 0x8BA2, 0x5355], utf8 [0x5145, 0x503C],
      utf8 [0x63D0, 0x73B0], ''pay'', ''pay now'', ''confirm payment'', ''transfer'', ''send red packet'',
      ''authorize'', ''allow'', ''purchase'', ''buy now'', ''place order'', ''top up'', ''withdraw'']) (nodeUserFacingValues u n) \<or>
       containsAny u (wn_ViewID n)
         [''pay'', ''payment'', ''wallet'', ''transfer'', ''redpacket'', ''red_packet'', ''authorize'', ''purchase'',
      ''checkout'', ''recharge'', ''withdraw''])
       (actionSemanticNodes snapshot target)"

definition structuredHighRiskSurface :: "unicode \<Rightarrow> UISnapshot \<Rightarrow> bool" where
  "structuredHighRiskSurface u snapshot \<longleftrightarrow>
     ws_PackageName snapshot = DefaultWeComPackage \<and>
     (let activity = strings_ToLower u (TrimSpace (ws_WindowClass snapshot));
          conversation = isWeComActivity snapshot weComConversationActivity
      in if activity \<noteq> [] \<and> containsAny u activity highRiskActivityMarkers then True
         else if \<not> conversation \<and> sensitiveSurfaceLabel u (ws_WindowTitle snapshot) then True
         else list_ex (\<lambda>n.
           wn_VisibleToUser n \<and> wn_Enabled n \<and> usableBounds (wn_Bounds n) \<and>
           (wn_Clickable n \<or> wn_Checkable n \<or> (\<not> conversation \<and> wn_Editable n)) \<and>
           (if conversation then sensitiveConversationControl u snapshot n
            else sensitiveSurfaceLabel u (actionSemanticEvidence u snapshot n))) (ws_Nodes snapshot))"

definition surfaceHighRisk :: "unicode \<Rightarrow> UISnapshot \<Rightarrow> bool" where
  "surfaceHighRisk u snapshot = structuredHighRiskSurface u snapshot"

definition structuredSMSFallback :: "unicode \<Rightarrow> UISnapshot \<Rightarrow> bool" where
  "structuredSMSFallback u snapshot \<longleftrightarrow>
     ws_PackageName snapshot = DefaultWeComPackage \<and> \<not> isWeComActivity snapshot weComConversationActivity \<and>
     length (matchingNodes snapshot (\<lambda>n. wn_VisibleToUser n \<and> wn_Enabled n \<and> wn_Editable n \<and> usableBounds (wn_Bounds n))) = 1 \<and>
     (let visible = filter wn_VisibleToUser (ws_Nodes snapshot)
      in list_ex (\<lambda>n. containsAny u (nodeSemanticEvidence u n)
           [''verification code'', ''enter code'', ''sms code'', utf8 [0x9A8C, 0x8BC1, 0x7801],
      utf8 [0x77ED, 0x4FE1, 0x9A8C, 0x8BC1, 0x7801]]) visible \<and>
         list_ex (\<lambda>n. wn_Enabled n \<and> wn_Clickable n \<and> usableBounds (wn_Bounds n) \<and>
           actionMatchesAny u snapshot n [utf8 [0x786E, 0x5B9A], utf8 [0x767B, 0x5F55], utf8 [0x4E0B, 0x4E00, 0x6B65], utf8 [0x9A8C, 0x8BC1], ''submit'',
      ''continue'', ''verify'']) visible)"

definition structuredQRFallback :: "unicode \<Rightarrow> UISnapshot \<Rightarrow> bool" where
  "structuredQRFallback u snapshot \<longleftrightarrow>
     ws_PackageName snapshot = DefaultWeComPackage \<and> \<not> isWeComActivity snapshot weComConversationActivity \<and>
     (let visible = filter (\<lambda>n. wn_VisibleToUser n \<and> usableBounds (wn_Bounds n)) (ws_Nodes snapshot)
      in list_ex (\<lambda>n. containsAny u (nodeSemanticEvidence u n)
           [''scan with wechat'', ''scan to log in'', utf8 [0x767B, 0x5F55, 0x4E8C, 0x7EF4, 0x7801],
      utf8 [0x626B, 0x7801, 0x767B, 0x5F55]]) visible \<and>
         list_ex (\<lambda>n. containsAny u (wn_ClassName n) [''imageview'', ''image''] \<and>
           boundsWidth (wn_Bounds n) \<ge> 80 \<and> boundsHeight (wn_Bounds n) \<ge> 80) visible)"

definition authenticationSurface :: "unicode \<Rightarrow> UISnapshot \<Rightarrow> bool" where
  "authenticationSurface u snapshot \<longleftrightarrow>
     ws_PackageName snapshot = DefaultWeComPackage \<and>
     (isWeComActivity snapshot weComLoginWxAuthActivity \<or> isWeComActivity snapshot weComSMSVerifyActivity \<or>
      hasWeComLoginAgreementControl snapshot \<or> hasWeComLoginMethodMarker u snapshot \<or>
      hasPrivacyConsentModalMarker u snapshot \<or> structuredSMSFallback u snapshot \<or> structuredQRFallback u snapshot)"

section \<open>The login state\<close>

definition bottomNavigation :: "unicode \<Rightarrow> UISnapshot \<Rightarrow> nat" where
  "bottomNavigation u snapshot =
     length (filter (\<lambda>label. list_ex (\<lambda>n. wn_VisibleToUser n \<and> matchesAny u (nodeLabel n) [label]) (ws_Nodes snapshot))
       [utf8 [0x6D88, 0x606F], utf8 [0x90AE, 0x4EF6], utf8 [0x6587, 0x6863], utf8 [0x5DE5, 0x4F5C, 0x53F0],
      utf8 [0x901A, 0x8BAF, 0x5F55]])"

definition classifyLogin :: "unicode \<Rightarrow> UISnapshot \<Rightarrow> runtime_state \<times> string" where
  "classifyLogin u snapshot =
     (if snapshotRequiresUserAction u snapshot \<or> structuredSecurityChallenge u snapshot
      then (StateAuthRequired, ''direct user action is required for the official WeCom security challenge'')
      else if ws_PackageName snapshot = DefaultWeComPackage \<and>
        (isWeComActivity snapshot weComLoginWxAuthActivity \<or> isWeComActivity snapshot weComSMSVerifyActivity \<or>
         hasWeComLoginAgreementControl snapshot \<or> hasWeComLoginMethodMarker u snapshot \<or>
         hasPrivacyConsentModalMarker u snapshot)
      then (StateAuthRequired, ''complete login in the official WeCom client'')
      else if ws_PackageName snapshot = DefaultWeComPackage \<and> isWeComActivity snapshot weComLaunchActivity
      then (StateStarting, ''waiting for the official WeCom login window'')
      else if ws_PackageName snapshot = DefaultWeComPackage \<and> bottomNavigation u snapshot \<ge> 2 then (StateOnline, [])
      else if ws_PackageName snapshot = [] then (StateStarting, ''waiting for an accessibility window'')
      else if ws_PackageName snapshot = DefaultWeComPackage \<and> TrimSpace (ws_WindowClass snapshot) = []
      then (StateDegraded, ''official foreground activity is unavailable for safe classification'')
      else (StateDegraded, ''official client state is not recognized by this compatibility profile''))"

definition validSMSAuthSnapshot :: "unicode \<Rightarrow> UISnapshot \<Rightarrow> bool" where
  "validSMSAuthSnapshot u snapshot \<longleftrightarrow>
     ws_PackageName snapshot = DefaultWeComPackage \<and> isWeComActivity snapshot weComSMSVerifyActivity \<and>
     ws_Sequence snapshot > 0 \<and> \<not> snapshotRequiresUserAction u snapshot \<and>
     fst (classifyLogin u snapshot) = StateAuthRequired \<and>
     containsAny u (visibleSnapshotText u snapshot) [utf8 [0x9A8C, 0x8BC1, 0x7801], ''verification code'', utf8 [0x77ED, 0x4FE1]] \<and>
     (case editableNodes snapshot of [n] \<Rightarrow> wn_VisibleToUser n \<and> usableBounds (wn_Bounds n) | _ \<Rightarrow> False)"

record weComLoginTargets =
  lt_terms :: Node
  lt_wechat :: Node
  lt_email :: Node
  lt_phone :: Node

definition login_method :: "unicode \<Rightarrow> UISnapshot \<Rightarrow> string \<Rightarrow> string \<Rightarrow> Node result" where
  "login_method u snapshot label what =
     map_sum (\<lambda>err. ErrWrapf (what @ '' login method target: '') err []) id (uniqueVisibleNormalizedLabelTarget u snapshot label)"

definition agreement_terms :: "UISnapshot \<Rightarrow> Node \<Rightarrow> Node \<Rightarrow> Node \<Rightarrow> weComLoginTargets result" where
  "agreement_terms snapshot wechat email phone =
     (case matchingNodes snapshot isWeComLoginAgreementImage of
        [] \<Rightarrow> Inl (wc_error wcErrStale ''WeCom login agreement control is unavailable'')
      | [terms] \<Rightarrow>
          if \<not> isWeComLoginTermsControl terms
          then Inl (wc_error wcErrStale ''WeCom login agreement state is unavailable or incompatible'')
          else if wn_ID terms = [] \<or> \<not> wn_VisibleToUser terms \<or> \<not> wn_Enabled terms \<or> \<not> wn_Clickable terms \<or>
                  \<not> usableBounds (wn_Bounds terms)
          then Inl (wc_error wcErrStale ''WeCom login agreement control is not safely actionable'')
          else if wn_ID terms \<in> {wn_ID wechat, wn_ID email, wn_ID phone}
          then Inl (wc_error wcErrTargetAmbiguous ''WeCom agreement and login method share one target'')
          else Inr \<lparr>lt_terms = terms, lt_wechat = wechat, lt_email = email, lt_phone = phone\<rparr>
      | _ \<Rightarrow> Inl (wc_error wcErrTargetAmbiguous ''multiple WeCom login agreement controls''))"

definition weComLoginMethodTargets :: "unicode \<Rightarrow> UISnapshot \<Rightarrow> weComLoginTargets result" where
  "weComLoginMethodTargets u snapshot =
     (if ws_Sequence snapshot \<le> 0 \<or> \<not> isWeComActivity snapshot weComLoginWxAuthActivity \<or>
         snapshotRequiresUserAction u snapshot \<or> hasPrivacyConsentModalMarker u snapshot
      then Inl (wc_error wcErrStale ''official WeCom login method screen is not active'')
      else if \<not> agreement_text u (visibleSnapshotText u snapshot)
      then Inl (wc_error wcErrStale ''official WeCom login agreement markers are incomplete'')
      else case login_method u snapshot ''Continue with WeChat'' ''WeChat'' of
          Inl err \<Rightarrow> Inl err
        | Inr wechat \<Rightarrow>
            (case login_method u snapshot ''Continue with Email'' ''email'' of
               Inl err \<Rightarrow> Inl err
             | Inr email \<Rightarrow>
                 (case login_method u snapshot ''Continue with Phone'' ''phone'' of
                    Inl err \<Rightarrow> Inl err
                  | Inr phone \<Rightarrow>
                      if wn_ID wechat = wn_ID email \<or> wn_ID wechat = wn_ID phone \<or> wn_ID email = wn_ID phone
                      then Inl (wc_error wcErrTargetAmbiguous ''WeCom login methods share one clickable target'')
                      else agreement_terms snapshot wechat email phone)))"

section \<open>Risk and effect of an action\<close>

datatype action_kind =
    ActionClick | ActionCheck | ActionSetText | ActionScrollForward | ActionScrollBackward
  | ActionGlobalBack | ActionOpenNotification

fun kind_string :: "action_kind \<Rightarrow> string" where
  "kind_string ActionClick = ''click''"
| "kind_string ActionCheck = ''check''"
| "kind_string ActionSetText = ''set_text''"
| "kind_string ActionScrollForward = ''scroll_forward''"
| "kind_string ActionScrollBackward = ''scroll_backward''"
| "kind_string ActionGlobalBack = ''global_back''"
| "kind_string ActionOpenNotification = ''open_notification''"

definition searchLabels :: "string list" where "searchLabels = [utf8 [0x641C, 0x7D22], utf8 [0x67E5, 0x627E], ''search'', ''find'']"

definition uniqueSearchInput :: "unicode \<Rightarrow> UISnapshot \<Rightarrow> Node \<Rightarrow> bool" where
  "uniqueSearchInput u snapshot target \<longleftrightarrow>
     (let search_input = (\<lambda>n. wn_Editable n \<and> wn_Enabled n \<and> wn_VisibleToUser n \<and>
            containsAny u (nodeLabel n @ '' '' @ wn_ViewID n) searchLabels)
      in search_input target \<and> length (filter search_input (ws_Nodes snapshot)) = 1)"

definition destructiveSurfaceAction :: "unicode \<Rightarrow> UISnapshot \<Rightarrow> Node \<Rightarrow> bool" where
  "destructiveSurfaceAction u snapshot target \<longleftrightarrow>
     (let conversation = isWeComActivity snapshot weComConversationActivity
      in list_ex (\<lambda>n.
           list_ex (\<lambda>v. if conversation then destructiveConversationControlLabel u v else destructiveSurfaceLabel u v [])
             (nodeUserFacingValues u n) \<or>
           destructiveSurfaceLabel u [] (wn_ViewID n @ '' '' @ wn_ClassName n)) (actionSemanticNodes snapshot target))"

definition externalWriteSurfaceAction :: "unicode \<Rightarrow> UISnapshot \<Rightarrow> Node \<Rightarrow> bool" where
  "externalWriteSurfaceAction u snapshot target \<longleftrightarrow>
     list_ex (\<lambda>n.
       list_ex (\<lambda>v. externalWriteSurfaceLabel u v []) (nodeUserFacingValues u n) \<or>
       externalWriteSurfaceLabel u [] (wn_ViewID n @ '' '' @ wn_ClassName n)) (actionSemanticNodes snapshot target)"

definition classifySurfaceAction :: "unicode \<Rightarrow> UISnapshot \<Rightarrow> Node \<Rightarrow> action_kind \<Rightarrow> string \<times> string" where
  "classifySurfaceAction u snapshot n kind =
     (case kind of
        ActionScrollForward \<Rightarrow> (''low'', ''observe'')
      | ActionScrollBackward \<Rightarrow> (''low'', ''observe'')
      | ActionSetText \<Rightarrow> if uniqueSearchInput u snapshot n then (''low'', ''search_input'') else (''medium'', ''unknown'')
      | ActionClick \<Rightarrow>
          (let conversation = isWeComActivity snapshot weComConversationActivity
           in if destructiveSurfaceAction u snapshot n \<or>
                 (conversation \<and> sensitiveConversationControl u snapshot n) \<or>
                 (\<not> conversation \<and> sensitiveSurfaceLabel u (actionSemanticEvidence u snapshot n))
              then (''high'', ''high_risk'')
              else if externalWriteSurfaceAction u snapshot n then (''medium'', ''external_write'')
              else if actionMatchesAny u snapshot n navigationLabels then (''low'', ''navigate'')
              else (''medium'', ''unknown''))
      | _ \<Rightarrow> (''medium'', ''unknown''))"

definition nodeSupportsSurfaceAction :: "Node \<Rightarrow> action_kind \<Rightarrow> bool" where
  "nodeSupportsSurfaceAction n kind \<longleftrightarrow>
     wn_ID n \<noteq> [] \<and> wn_VisibleToUser n \<and> wn_Enabled n \<and> validNodeBounds (wn_Bounds n) \<and>
     (case kind of
        ActionSetText \<Rightarrow> wn_Editable n
      | ActionClick \<Rightarrow> wn_Clickable n
      | ActionScrollForward \<Rightarrow> wn_Scrollable n
      | ActionScrollBackward \<Rightarrow> wn_Scrollable n
      | _ \<Rightarrow> False)"

definition surfaceActionLabel :: "unicode \<Rightarrow> UISnapshot \<Rightarrow> Node \<Rightarrow> action_kind \<Rightarrow> string" where
  "surfaceActionLabel u snapshot n kind =
     (let own = nodeUserFacingValues u n;
          labels =
            (if kind = ActionClick
             then fold (\<lambda>c vals. appendDistinctSemanticValues u vals (nodeUserFacingValues u c))
                    (filter (\<lambda>c. wn_ParentID c = wn_ID n \<and> wn_VisibleToUser c \<and> usableBounds (wn_Bounds c) \<and>
                               boundsContains (wn_Bounds n) (wn_Bounds c)) (ws_Nodes snapshot)) own
             else own);
          label = intercalate (utf8 [0x20, 0x2014, 0x20]) labels;
          label = (if label = [] then wn_ClassName n else label)
      in case kind of
          ActionScrollForward \<Rightarrow> ''Scroll forward: '' @ label
        | ActionScrollBackward \<Rightarrow> ''Scroll backward: '' @ label
        | _ \<Rightarrow> label)"

definition classifySurfaceKind :: "unicode \<Rightarrow> UISnapshot \<Rightarrow> string" where
  "classifySurfaceKind u snapshot =
     (let classText = strings_ToLower u (ws_WindowTitle snapshot @ '' '' @ ws_WindowClass snapshot @ '' '' @
            ws_PackageName snapshot @ '' '' @ snapshotText u snapshot)
      in if Contains classText (utf8 [0x5C0F, 0x7A0B, 0x5E8F]) \<or> Contains classText ''miniprogram'' then ''miniprogram''
         else if Contains classText ''http://'' \<or> Contains classText ''https://'' \<or> Contains classText ''webview'' then ''web''
         else ''android_surface'')"

section \<open>Identity of a window\<close>

record surfaceIdentity =
  id_packageName :: string
  id_windowID :: int
  id_windowClass :: string

definition zero_identity :: surfaceIdentity where
  "zero_identity = \<lparr>id_packageName = [], id_windowID = 0, id_windowClass = []\<rparr>"

definition identityForSurface :: "UISnapshot \<Rightarrow> surfaceIdentity" where
  "identityForSurface snapshot =
     \<lparr>id_packageName = ws_PackageName snapshot, id_windowID = ws_WindowID snapshot,
      id_windowClass = TrimSpace (ws_WindowClass snapshot)\<rparr>"

definition identity_valid :: "surfaceIdentity \<Rightarrow> bool" where
  "identity_valid i \<longleftrightarrow> id_packageName i \<noteq> [] \<and> id_windowID i \<ge> 0 \<and> id_windowClass i \<noteq> []"

definition identity_matches :: "surfaceIdentity \<Rightarrow> UISnapshot \<Rightarrow> bool" where
  "identity_matches i snapshot \<longleftrightarrow>
     identity_valid i \<and> id_packageName i = ws_PackageName snapshot \<and> id_windowID i = ws_WindowID snapshot \<and>
     id_windowClass i = TrimSpace (ws_WindowClass snapshot)"

definition sameSurfaceObservation :: "UISnapshot \<Rightarrow> UISnapshot \<Rightarrow> bool" where
  "sameSurfaceObservation before after \<longleftrightarrow>
     ws_Sequence before > 0 \<and> ws_Sequence before = ws_Sequence after \<and>
     identity_valid (identityForSurface before) \<and> identity_matches (identityForSurface before) after"

definition validateSurfaceSnapshot :: "unicode \<Rightarrow> UISnapshot \<Rightarrow> go_error option" where
  "validateSurfaceSnapshot u snapshot =
     (if ws_PackageName snapshot \<noteq> DefaultWeComPackage
      then Some (wc_error wcErrTargetAmbiguous ''surface is outside the official WeCom package'')
      else if snapshotRequiresUserAction u snapshot \<or> hasPrivacyConsentModalMarker u snapshot
      then Some (wc_error wcErrUserActionRequired ''sensitive verification or privacy screen is active'')
      else if authenticationSurface u snapshot then Some wcErrAuthRequired
      else if surfaceHighRisk u snapshot
      then Some (wc_error wcErrUserActionRequired ''high-risk surface requires direct user interaction'')
      else if ws_Sequence snapshot \<le> 0 \<or> ws_WindowID snapshot < 0 \<or> TrimSpace (ws_WindowClass snapshot) = []
      then Some (wc_error wcErrStale ''surface window identity is incomplete'')
      else None)"

end
