(* ===== verification/WeCom_Frame.thy ===== *)
theory WeCom_Frame
  imports WeCom_Guards
begin

text \<open>
  The guards of a send, \<^verbatim>\<open>internal/driver/wecom/send_guard.go\<close>: the frame of a conversation and its
  binding, the send control next to the composer, and the evidence of an outgoing bubble.
\<close>

section \<open>Data\<close>

record chatBinding =
  cb_identity :: surfaceIdentity
  cb_title :: string
  cb_viewport :: NodeBounds
  cb_headerID :: string
  cb_headerClass :: string
  cb_headerViewID :: string
  cb_headerBounds :: NodeBounds
  cb_headerScopeID :: string
  cb_headerScopeClass :: string
  cb_headerScopeViewID :: string
  cb_headerScopeBounds :: NodeBounds
  cb_composerID :: string
  cb_composerClass :: string
  cb_composerViewID :: string
  cb_composerBounds :: NodeBounds
  cb_footerID :: string
  cb_footerClass :: string
  cb_footerViewID :: string
  cb_footerBounds :: NodeBounds

record chatFrame =
  cf_snapshot :: UISnapshot
  cf_binding :: chatBinding
  cf_composer :: Node
  cf_send :: Node

section \<open>Ancestors\<close>

text \<open>
  The walk from a node to its ancestors: \<open>keep\<close> selects the candidates, and the last one found, the
  highest, is the answer. \<open>stop\<close> ends the walk before a parent is looked at.
\<close>

fun walk_up :: "nat \<Rightarrow> node_index \<Rightarrow> (Node \<Rightarrow> bool) \<Rightarrow> (Node \<Rightarrow> bool) \<Rightarrow> string \<Rightarrow> Node list" where
  "walk_up 0 byID stop keep parentID = []"
| "walk_up (Suc turns) byID stop keep parentID =
     (if parentID = [] then []
      else case map_of byID parentID of
          None \<Rightarrow> []
        | Some parent \<Rightarrow>
            if stop parent then []
            else (if keep parent then [parent] else []) @ walk_up turns byID stop keep (wn_ParentID parent))"

definition ancestors_where :: "node_index \<Rightarrow> (Node \<Rightarrow> bool) \<Rightarrow> (Node \<Rightarrow> bool) \<Rightarrow> Node \<Rightarrow> Node list" where
  "ancestors_where byID stop keep n = walk_up (index_len byID + 1) byID stop keep (wn_ParentID n)"

definition header_scope :: "NodeBounds \<Rightarrow> Node \<Rightarrow> Node \<Rightarrow> bool" where
  "header_scope viewport header parent \<longleftrightarrow>
     wn_ID parent \<noteq> ''0'' \<and> wn_VisibleToUser parent \<and> usableBounds (wn_Bounds parent) \<and>
     boundsInside viewport (wn_Bounds parent) \<and> boundsContains (wn_Bounds parent) (wn_Bounds header) \<and>
     wb_Top (wn_Bounds parent) \<le> wb_Top viewport + quot (boundsHeight viewport) 10 \<and>
     wb_Bottom (wn_Bounds parent) \<le> wb_Top viewport + quot (boundsHeight viewport * 2) 5 \<and>
     boundsHeight (wn_Bounds parent) \<le> quot (boundsHeight viewport * 2) 5"

definition boundedHeaderAncestor :: "Node \<Rightarrow> node_index \<Rightarrow> NodeBounds \<Rightarrow> Node result" where
  "boundedHeaderAncestor header byID viewport =
     (let candidates = ancestors_where byID (\<lambda>parent. wn_ID parent = wn_ID header) (header_scope viewport header) header
      in if candidates = [] then Inl (wc_error wcErrTargetAmbiguous ''title is not contained by a bounded top header'')
         else Inr (last candidates))"

definition footer_scope :: "NodeBounds \<Rightarrow> Node \<Rightarrow> Node \<Rightarrow> bool" where
  "footer_scope viewport composer parent \<longleftrightarrow>
     wn_ID parent \<noteq> ''0'' \<and> wn_VisibleToUser parent \<and> usableBounds (wn_Bounds parent) \<and>
     boundsInside viewport (wn_Bounds parent) \<and> boundsContains (wn_Bounds parent) (wn_Bounds composer) \<and>
     wb_Top (wn_Bounds parent) \<ge> wb_Top viewport + quot (boundsHeight viewport) 2 \<and>
     boundsHeight (wn_Bounds parent) \<le> quot (boundsHeight viewport) 2"

definition boundedFooterAncestor :: "Node \<Rightarrow> node_index \<Rightarrow> NodeBounds \<Rightarrow> Node result" where
  "boundedFooterAncestor composer byID viewport =
     (let candidates = ancestors_where byID (\<lambda>parent. wn_ID parent = wn_ID composer) (footer_scope viewport composer) composer
      in if candidates = [] then Inl (wc_error wcErrStale ''composer is not contained by a bounded bottom footer'')
         else Inr (last candidates))"

section \<open>The send control\<close>

definition nearby_send :: "unicode \<Rightarrow> chatBinding \<Rightarrow> Node \<Rightarrow> bool" where
  "nearby_send u binding n \<longleftrightarrow>
     wn_ID n \<noteq> [] \<and> wn_VisibleToUser n \<and> wn_Enabled n \<and> wn_Clickable n \<and> usableBounds (wn_Bounds n) \<and>
     matchesAny u (nodeLabel n) sendLabels \<and> isDescendant (wn_ID n) (cb_footerID binding) \<and>
     boundsInside (cb_footerBounds binding) (wn_Bounds n) \<and>
     (let verticalOverlap = min (wb_Bottom (wn_Bounds n)) (wb_Bottom (cb_composerBounds binding)) -
                            max (wb_Top (wn_Bounds n)) (wb_Top (cb_composerBounds binding));
          minHeight = min (boundsHeight (wn_Bounds n)) (boundsHeight (cb_composerBounds binding));
          horizontalGap = wb_Left (wn_Bounds n) - wb_Right (cb_composerBounds binding)
      in \<not> (verticalOverlap * 2 < minHeight \<or> horizontalGap < quot (- boundsWidth (cb_composerBounds binding)) 5 \<or>
            horizontalGap > quot (boundsWidth (cb_viewport binding)) 4 \<or>
            boundsCenterX (wn_Bounds n) \<le> boundsCenterX (cb_composerBounds binding)))"

definition uniqueNearbySend :: "unicode \<Rightarrow> UISnapshot \<Rightarrow> chatBinding \<Rightarrow> Node result" where
  "uniqueNearbySend u snapshot binding =
     (case filter (nearby_send u binding) (ws_Nodes snapshot) of
        [] \<Rightarrow> Inl (wc_error wcErrNotFound ''enabled send control is not adjacent to the bound composer'')
      | [n] \<Rightarrow> Inr n
      | _ \<Rightarrow> Inl (wc_error wcErrTargetAmbiguous ''adjacent send control is ambiguous''))"

section \<open>The frame\<close>

definition frame_context :: "unicode \<Rightarrow> UISnapshot \<Rightarrow> go_error option" where
  "frame_context u snapshot =
     (if ws_PackageName snapshot \<noteq> DefaultWeComPackage
      then Some (wc_error wcErrTargetAmbiguous ''exact official WeCom package is not foreground'')
      else if authenticationSurface u snapshot then Some wcErrAuthRequired
      else if snapshotRequiresUserAction u snapshot \<or> surfaceHighRisk u snapshot then Some wcErrUserActionRequired
      else if \<not> isWeComActivity snapshot weComConversationActivity
      then Some (wc_error wcErrTargetAmbiguous ''exact official conversation Activity is not foreground'')
      else if ws_Sequence snapshot \<le> 0 \<or> ws_WindowID snapshot < 0
      then Some (wc_error wcErrStale ''conversation window identity is incomplete'')
      else None)"

definition frame_viewport :: "node_index \<Rightarrow> NodeBounds result" where
  "frame_viewport byID =
     (case map_of byID ''0'' of
        None \<Rightarrow> Inl (wc_error wcErrStale ''conversation viewport root is unavailable'')
      | Some top_node \<Rightarrow>
          if \<not> wn_VisibleToUser top_node \<or> \<not> usableBounds (wn_Bounds top_node)
          then Inl (wc_error wcErrStale ''conversation viewport root is unavailable'')
          else if boundsWidth (wn_Bounds top_node) < 100 \<or> boundsHeight (wn_Bounds top_node) < 100
          then Inl (wc_error wcErrStale ''conversation viewport is too small'')
          else Inr (wn_Bounds top_node))"

definition header_node :: "unicode \<Rightarrow> string \<Rightarrow> node_index \<Rightarrow> NodeBounds \<Rightarrow> Node \<Rightarrow> bool" where
  "header_node u title byID viewport n \<longleftrightarrow>
     wn_ID n \<noteq> [] \<and> wn_VisibleToUser n \<and> \<not> wn_Editable n \<and> usableBounds (wn_Bounds n) \<and>
     normalizedVisibleLabel u (nodeLabel n) = normalizedVisibleLabel u title \<and>
     boundsInside viewport (wn_Bounds n) \<and> \<not> isl (boundedHeaderAncestor n byID viewport)"

definition frame_header :: "unicode \<Rightarrow> UISnapshot \<Rightarrow> string \<Rightarrow> node_index \<Rightarrow> NodeBounds \<Rightarrow> (Node \<times> Node) result" where
  "frame_header u snapshot title byID viewport =
     (case matchingNodes snapshot (header_node u title byID viewport) of
        [] \<Rightarrow> Inl (wc_error wcErrTargetAmbiguous ''exact conversation title is absent from the header'')
      | [header] \<Rightarrow> map_sum id (Pair header) (boundedHeaderAncestor header byID viewport)
      | _ \<Rightarrow> Inl (wc_error wcErrTargetAmbiguous ''conversation header title is ambiguous''))"

definition composer_node :: "NodeBounds \<Rightarrow> Node \<Rightarrow> bool" where
  "composer_node viewport n \<longleftrightarrow>
     wn_ID n \<noteq> [] \<and> wn_VisibleToUser n \<and> wn_Enabled n \<and> wn_Editable n \<and> usableBounds (wn_Bounds n) \<and>
     boundsInside viewport (wn_Bounds n) \<and>
     boundsCenterY (wn_Bounds n) \<ge> wb_Top viewport + quot (boundsHeight viewport * 3) 5"

definition frame_composer :: "UISnapshot \<Rightarrow> node_index \<Rightarrow> NodeBounds \<Rightarrow> (Node \<times> Node) result" where
  "frame_composer snapshot byID viewport =
     (case matchingNodes snapshot (composer_node viewport) of
        [] \<Rightarrow> Inl (wc_error wcErrNotFound ''bottom message composer is unavailable'')
      | [composer] \<Rightarrow> map_sum id (Pair composer) (boundedFooterAncestor composer byID viewport)
      | _ \<Rightarrow> Inl (wc_error wcErrTargetAmbiguous ''bottom message composer is ambiguous''))"

definition frame_binding ::
  "unicode \<Rightarrow> UISnapshot \<Rightarrow> string \<Rightarrow> NodeBounds \<Rightarrow> Node \<Rightarrow> Node \<Rightarrow> Node \<Rightarrow> Node \<Rightarrow> chatBinding"
where
  "frame_binding u snapshot title viewport header headerScope composer footer =
     \<lparr>cb_identity = identityForSurface snapshot, cb_title = normalizedVisibleLabel u title, cb_viewport = viewport,
      cb_headerID = wn_ID header, cb_headerClass = wn_ClassName header, cb_headerViewID = wn_ViewID header,
      cb_headerBounds = wn_Bounds header, cb_headerScopeID = wn_ID headerScope,
      cb_headerScopeClass = wn_ClassName headerScope, cb_headerScopeViewID = wn_ViewID headerScope,
      cb_headerScopeBounds = wn_Bounds headerScope, cb_composerID = wn_ID composer,
      cb_composerClass = wn_ClassName composer, cb_composerViewID = wn_ViewID composer,
      cb_composerBounds = wn_Bounds composer, cb_footerID = wn_ID footer, cb_footerClass = wn_ClassName footer,
      cb_footerViewID = wn_ViewID footer, cb_footerBounds = wn_Bounds footer\<rparr>"

definition bind_frame ::
  "unicode \<Rightarrow> UISnapshot \<Rightarrow> chatBinding option \<Rightarrow> bool \<Rightarrow> chatBinding \<Rightarrow> Node \<Rightarrow> chatFrame result"
where
  "bind_frame u snapshot expected requireSend binding composer =
     (if expected \<noteq> None \<and> expected \<noteq> Some binding
      then Inl (wc_error wcErrStale ''verified conversation frame changed'')
      else case uniqueNearbySend u snapshot binding of
          Inr send \<Rightarrow> Inr \<lparr>cf_snapshot = snapshot, cf_binding = binding, cf_composer = composer, cf_send = send\<rparr>
        | Inl err \<Rightarrow>
            if requireSend \<or> \<not> errors_Is err wcErrNotFound then Inl err
            else Inr \<lparr>cf_snapshot = snapshot, cf_binding = binding, cf_composer = composer, cf_send = zero_Node\<rparr>)"

definition validateChatFrame ::
  "unicode \<Rightarrow> UISnapshot \<Rightarrow> string \<Rightarrow> chatBinding option \<Rightarrow> bool \<Rightarrow> chatFrame result"
where
  "validateChatFrame u snapshot title expected requireSend =
     (let title = TrimSpace title
      in if title = [] then Inl (wc_error wcErrTargetAmbiguous ''conversation title is empty'')
         else case frame_context u snapshot of
           Some err \<Rightarrow> Inl err
         | None \<Rightarrow>
           (case uniqueNodeIndex (ws_Nodes snapshot) of
              Inl err \<Rightarrow> Inl err
            | Inr byID \<Rightarrow>
           (case frame_viewport byID of
              Inl err \<Rightarrow> Inl err
            | Inr viewport \<Rightarrow>
           (case frame_header u snapshot title byID viewport of
              Inl err \<Rightarrow> Inl err
            | Inr (header, headerScope) \<Rightarrow>
           (case frame_composer snapshot byID viewport of
              Inl err \<Rightarrow> Inl err
            | Inr (composer, footer) \<Rightarrow>
                if isDescendantOrSelf (wn_ID header) (wn_ID footer) \<or>
                   wb_Bottom (wn_Bounds header) \<ge> wb_Top (wn_Bounds footer)
                then Inl (wc_error wcErrTargetAmbiguous ''conversation header and footer overlap'')
                else bind_frame u snapshot expected requireSend
                       (frame_binding u snapshot title viewport header headerScope composer footer) composer)))))"

section \<open>Evidence of an outgoing bubble\<close>

definition bubble_text :: "string \<Rightarrow> chatBinding \<Rightarrow> Node \<Rightarrow> bool" where
  "bubble_text txt binding n \<longleftrightarrow>
     \<not> (wn_ID n = [] \<or> wn_Editable n \<or> \<not> wn_VisibleToUser n \<or> \<not> usableBounds (wn_Bounds n) \<or>
        wn_Text n \<noteq> txt \<or> wb_Bottom (wn_Bounds n) > wb_Top (cb_footerBounds binding) \<or>
        isDescendantOrSelf (wn_ID n) (cb_footerID binding) \<or> isDescendantOrSelf (wn_ID n) (cb_headerID binding))"

text \<open>
  The loop over the Go map \<^verbatim>\<open>matching\<close>, which deletes from it: \<open>order\<close> is the order in which the map
  yields its keys, chosen by the runtime, and a key deleted earlier is not yielded.
\<close>

fun drop_enclosing :: "string list \<Rightarrow> node_index \<Rightarrow> node_index" where
  "drop_enclosing [] matching = matching"
| "drop_enclosing (nid # order) matching =
     drop_enclosing order
       (if nid \<in> fst ` set matching \<and> list_ex (\<lambda>other. nid \<noteq> other \<and> isDescendant other nid) (map fst matching)
        then filter (\<lambda>(k, n). k \<noteq> nid) matching else matching)"

definition bubble_scope :: "chatBinding \<Rightarrow> Node \<Rightarrow> Node \<Rightarrow> bool" where
  "bubble_scope binding n parent \<longleftrightarrow>
     wn_VisibleToUser parent \<and> usableBounds (wn_Bounds parent) \<and> boundsContains (wn_Bounds parent) (wn_Bounds n) \<and>
     wb_Bottom (wn_Bounds parent) \<le> wb_Top (cb_footerBounds binding) \<and>
     boundsWidth (wn_Bounds parent) * 10 \<le> boundsWidth (cb_viewport binding) * 9"

definition directionalBubbleContainer :: "Node \<Rightarrow> node_index \<Rightarrow> chatBinding \<Rightarrow> NodeBounds \<times> bool" where
  "directionalBubbleContainer n byID binding =
     (let found = ancestors_where byID
            (\<lambda>parent. wn_ID parent = wn_ID n \<or> wn_ID parent = cb_footerID binding \<or> wn_ID parent = ''0'')
            (bubble_scope binding n) n
      in if found = [] then (wn_Bounds n, False) else (wn_Bounds (last found), True))"

definition rightAlignedWithin :: "NodeBounds \<Rightarrow> NodeBounds \<Rightarrow> bool" where
  "rightAlignedWithin candidate viewport \<longleftrightarrow>
     boundsInside viewport candidate \<and>
     (let leftGap = wb_Left candidate - wb_Left viewport; rightGap = wb_Right viewport - wb_Right candidate
      in boundsCenterX candidate > boundsCenterX viewport \<and> leftGap > rightGap + quot (boundsWidth viewport) 10)"

definition bounds_text :: "NodeBounds \<Rightarrow> string" where
  "bounds_text b = intercalate '','' (map Itoa [wb_Left b, wb_Top b, wb_Right b, wb_Bottom b])"

definition outgoing_evidence :: "node_index \<Rightarrow> chatBinding \<Rightarrow> Node \<Rightarrow> string option" where
  "outgoing_evidence byID binding n =
     (case directionalBubbleContainer n byID binding of
        (visual, structurallyBounded) \<Rightarrow>
          if \<not> structurallyBounded \<or> \<not> usableBounds visual \<or> \<not> rightAlignedWithin visual (cb_viewport binding) then None
          else Some (intercalate [CHR 0x00] [wn_ID n, bounds_text (wn_Bounds n), bounds_text visual]))"

text \<open>\<open>order1\<close> and \<open>order2\<close> are the orders of the two loops over the map.\<close>

definition bubble_evidence ::
  "(string list \<Rightarrow> string list) \<Rightarrow> (node_index \<Rightarrow> node_index) \<Rightarrow> UISnapshot \<Rightarrow> string \<Rightarrow> chatBinding \<Rightarrow> string list"
where
  "bubble_evidence order1 order2 snapshot txt binding =
     (case uniqueNodeIndex (ws_Nodes snapshot) of
        Inl err \<Rightarrow> []
      | Inr byID \<Rightarrow>
          (let matching = map (\<lambda>n. (wn_ID n, n)) (filter (bubble_text txt binding) (ws_Nodes snapshot));
               deepest = drop_enclosing (order1 (map fst matching)) matching
           in sort (List.map_filter (\<lambda>(nid, n). outgoing_evidence byID binding n) (order2 deepest))))"

definition outgoingBubbleEvidence :: "UISnapshot \<Rightarrow> string \<Rightarrow> chatBinding \<Rightarrow> string list" where
  "outgoingBubbleEvidence snapshot txt binding = bubble_evidence id id snapshot txt binding"

end
