(* ===== verification/WeCom_Companion.thy ===== *)
theory WeCom_Companion
  imports WeCom_Frame Account_Store
begin

text \<open>
  The client of the accessibility companion (\<^verbatim>\<open>internal/driver/wecom/companion.go\<close>), the state of the
  WeCom driver, and the waits and the reading of the event journal of \<^verbatim>\<open>driver.go\<close>.

  The companion, the Android container, the clock and the cancellation of the context are an
  environment. \<open>wc_trace\<close> is not a field of the Go struct: it is the history of the calls that the driver
  made, and the answer to a call is a function of the number of calls before it. Time only moves
  forward: every call takes \<open>en_latency\<close>, and a timer fires after its duration and \<open>en_oversleep\<close>.
  The operations hold \<^verbatim>\<open>operationMu\<close>, so each of them is one function of the state; \<^verbatim>\<open>ListConversations\<close> and
  \<^verbatim>\<open>ReadMessages\<close> do not hold it, but only read the account and the event journal.
\<close>

section \<open>JSON\<close>

text \<open>The functions of Go's library that are arguments: the Unicode tables, SHA-256 and \<^verbatim>\<open>json.Marshal\<close>.\<close>

record golib =
  lb_unicode :: unicode
  lb_sha256 :: "string \<Rightarrow> 8 word list"
  lb_marshal :: "json \<Rightarrow> string"

definition omitempty :: "string \<Rightarrow> string \<Rightarrow> (string \<times> json) list" where
  "omitempty key s = (if s = [] then [] else [(key, JStr s)])"

definition json_bounds :: "NodeBounds \<Rightarrow> json" where
  "json_bounds b = JObj [(''left'', JInt (wb_Left b)), (''top'', JInt (wb_Top b)), (''right'', JInt (wb_Right b)),
     (''bottom'', JInt (wb_Bottom b))]"

definition json_node :: "Node \<Rightarrow> json" where
  "json_node n = JObj ((''id'', JStr (wn_ID n)) # omitempty ''parent_id'' (wn_ParentID n) @
     omitempty ''class_name'' (wn_ClassName n) @ omitempty ''view_id'' (wn_ViewID n) @ omitempty ''text'' (wn_Text n) @
     omitempty ''content_description'' (wn_ContentDescription n) @
     [(''bounds'', json_bounds (wn_Bounds n)), (''clickable'', JBool (wn_Clickable n)),
      (''checkable'', JBool (wn_Checkable n)), (''checked'', JBool (wn_Checked n)),
      (''selected'', case wn_Selected n of None \<Rightarrow> JNull | Some (address, b) \<Rightarrow> JBool b),
      (''editable'', JBool (wn_Editable n)), (''scrollable'', JBool (wn_Scrollable n)),
      (''enabled'', JBool (wn_Enabled n)), (''focused'', JBool (wn_Focused n)),
      (''visible_to_user'', JBool (wn_VisibleToUser n))])"

definition digestID :: "golib \<Rightarrow> string \<Rightarrow> string" where
  "digestID lib value = EncodeToString (take 12 (lb_sha256 lib value))"

definition surfaceContextDigest :: "golib \<Rightarrow> UISnapshot \<Rightarrow> string" where
  "surfaceContextDigest lib snapshot = digestID lib (lb_marshal lib (JObj
     [(''Domain'', JStr ''wecom-surface-context-v1''), (''PackageName'', JStr (ws_PackageName snapshot)),
      (''WindowID'', JInt (ws_WindowID snapshot)), (''WindowTitle'', JStr (ws_WindowTitle snapshot)),
      (''WindowClass'', JStr (TrimSpace (ws_WindowClass snapshot))),
      (''Nodes'', JList (map json_node (ws_Nodes snapshot)))]))"

definition surfaceNodeSignature :: "golib \<Rightarrow> Node \<Rightarrow> string" where
  "surfaceNodeSignature lib n = digestID lib (lb_marshal lib (JObj
     [(''Domain'', JStr ''wecom-surface-node-v1''), (''Node'', json_node n)]))"

section \<open>The companion's protocol\<close>

record CompanionEvent =
  ce_Sequence :: int
  ce_Kind :: string
  ce_PackageName :: string
  ce_ConversationKey :: string
  ce_Conversation :: string
  ce_Sender :: string
  ce_Title :: string
  ce_Text :: string
  ce_Openable :: bool
  ce_PostedAt :: time
  ce_GapBefore :: bool

record EventPage =
  ep_Events :: "CompanionEvent list"
  ep_NextCursor :: "64 word"
  ep_Complete :: bool

record CompanionAction =
  cact_Kind :: action_kind
  cact_NodeID :: string
  cact_Text :: string
  cact_ExpectedSequence :: int

record actionReply =
  rep_Accepted :: "bool option"
  rep_Sequence :: int
  rep_Detail :: string

text \<open>
  The outcome of a request: an error of \<^verbatim>\<open>client.Do\<close>, with what the trace hook says of the writing of
  the request, or a response with its status, the head of its text and what the decoder makes of it.
\<close>

datatype 'a http_outcome = HttpFailed bool go_error | HttpResponse int string "'a result"

fun companion_request :: "'a http_outcome \<Rightarrow> bool \<times> 'a result" where
  "companion_request (HttpFailed written err) = (written, Inl (ErrWrapf ''call companion: '' err []))"
| "companion_request (HttpResponse status message decoded) =
     (True,
      if status < 200 \<or> status \<ge> 300
      then Inl (ErrNew (''companion returned HTTP '' @ Itoa status @ '': '' @ TrimSpace message))
      else map_sum (\<lambda>err. ErrWrapf ''decode companion response: '' err []) id decoded)"

text \<open>A snapshot on the wire may lack the identifier of its window.\<close>

record wireSnapshot =
  wire_WindowID :: "int option"
  wire_fields :: UISnapshot

text \<open>Decoding allocates the Booleans that \<^verbatim>\<open>Selected\<close> points to: \<open>n\<close> is the number of the call.\<close>

definition allocate :: "nat \<Rightarrow> Node list \<Rightarrow> Node list" where
  "allocate n nodes =
     map (\<lambda>(i, v). v\<lparr>wn_Selected := map_option (\<lambda>(address, b). ((n, i), b)) (wn_Selected v)\<rparr>) (enumerate 0 nodes)"

definition UnmarshalSnapshot :: "nat \<Rightarrow> wireSnapshot \<Rightarrow> UISnapshot" where
  "UnmarshalSnapshot n w =
     (wire_fields w)\<lparr>ws_WindowID := (case wire_WindowID w of None \<Rightarrow> - 1 | Some i \<Rightarrow> i),
                    ws_Nodes := allocate n (ws_Nodes (wire_fields w))\<rparr>"

definition validateCompanionAction :: "CompanionAction \<Rightarrow> go_error option" where
  "validateCompanionAction a =
     (case cact_Kind a of
        ActionSetText \<Rightarrow>
          if cact_NodeID a = [] \<or> cact_ExpectedSequence a \<le> 0
          then Some (ErrNew ''set_text requires node_id and expected_sequence'')
          else if length (cact_Text a) > 32 * 1024 then Some (ErrNew ''set_text payload exceeds 32 KiB'')
          else None
      | ActionGlobalBack \<Rightarrow>
          if cact_NodeID a \<noteq> [] \<or> cact_Text a \<noteq> [] \<or> cact_ExpectedSequence a \<le> 0
          then Some (ErrNew ''global_back requires expected_sequence and no node or text'') else None
      | ActionOpenNotification \<Rightarrow>
          if cact_NodeID a = [] \<or> cact_Text a \<noteq> [] \<or> cact_ExpectedSequence a \<noteq> 0
          then Some (ErrNew ''open_notification requires the event sequence as node_id'') else None
      | _ \<Rightarrow>
          if cact_NodeID a = [] \<or> cact_Text a \<noteq> [] \<or> cact_ExpectedSequence a \<le> 0
          then Some (ErrNew ''node action requires node_id, expected_sequence, and no text'') else None)"

text \<open>What is known of an action after the call: it was not written, rejected, accepted, or nothing is known.\<close>

datatype act_outcome = NotWritten | Rejected | Accepted | Unknown

definition act_result :: "unicode \<Rightarrow> bool \<times> actionReply result \<Rightarrow> act_outcome \<times> go_error option" where
  "act_result u answer =
     (case answer of
        (written, Inl err) \<Rightarrow>
          if written then (Unknown, Some (ErrWrapf2 ErrActionOutcomeUncertain '': '' err)) else (NotWritten, Some err)
      | (written, Inr reply) \<Rightarrow>
          (case rep_Accepted reply of
             None \<Rightarrow> (Unknown, Some (wc_error ErrActionOutcomeUncertain ''companion response omitted accepted''))
           | Some True \<Rightarrow> (Accepted, None)
           | Some False \<Rightarrow>
               (Rejected, Some
                 (if containsAny u (rep_Detail reply) [''stale'', ''missing'', ''no longer'']
                  then wc_error wcErrStale (''companion rejected action: '' @ rep_Detail reply)
                  else ErrNew (''companion rejected action: '' @ rep_Detail reply)))))"

section \<open>The state of the driver\<close>

record surfaceActionState =
  sas_advertised :: Action
  sas_kind :: action_kind
  sas_nodeID :: string
  sas_replayID :: string
  sas_nodeSignature :: string
  sas_contextDigest :: string
  sas_label :: string
  sas_bounds :: NodeBounds
  sas_sequence :: int
  sas_identity :: surfaceIdentity

record surfaceState =
  srf_surface :: Surface
  srf_actions :: "string \<rightharpoonup> surfaceActionState"
  srf_consumedActions :: "string set"
  srf_replayTombstones :: "string set"
  srf_sequence :: int
  srf_identity :: surfaceIdentity

record wecomSendMemo =
  wm_digest :: string
  wm_result :: SendResult

datatype wc_call =
    Observed UISnapshot
  | Foreground "string option"
  | Captured
  | Asked
  | Acted CompanionAction act_outcome
  | SurfaceActed string string string string
  | SurfaceOpened string
  | SurfaceClosed string
  | DriverReset

record WeCom =
  wc_package :: string
  wc_running :: bool
  wc_clientVersion :: string
  wc_account :: AccountRuntime
  wc_surfaces :: "string \<rightharpoonup> surfaceState"
  wc_sendMemos :: "string \<rightharpoonup> wecomSendMemo"
  wc_now :: time
  wc_trace :: "wc_call list"

record wc_env =
  en_lib :: golib
  en_latency :: "nat \<Rightarrow> nat"
  en_oversleep :: "nat \<Rightarrow> nat"
  en_ctx :: "nat \<Rightarrow> go_error option"
  en_snapshot :: "nat \<Rightarrow> wireSnapshot http_outcome"
  en_events :: "nat \<Rightarrow> int \<Rightarrow> int \<Rightarrow> EventPage http_outcome"
  en_action :: "nat \<Rightarrow> CompanionAction \<Rightarrow> actionReply http_outcome"
  en_screenshot :: "nat \<Rightarrow> string result"
  en_activity :: "nat \<Rightarrow> string result"

abbreviation en_u :: "wc_env \<Rightarrow> unicode" where "en_u env \<equiv> lb_unicode (en_lib env)"

text \<open>One call: the clock moves and the history grows.\<close>

definition called :: "wc_env \<Rightarrow> wc_call \<Rightarrow> WeCom \<Rightarrow> WeCom" where
  "called env c d = d\<lparr>wc_now := wc_now d + int (en_latency env (length (wc_trace d))), wc_trace := wc_trace d @ [c]\<rparr>"

text \<open>A note of the driver's own doings in the history.\<close>

definition noted :: "wc_call \<Rightarrow> WeCom \<Rightarrow> WeCom" where
  "noted c d = d\<lparr>wc_trace := wc_trace d @ [c]\<rparr>"

section \<open>Calls\<close>

definition not_running :: go_error where "not_running = ErrNew ''WeCom runtime is not running''"

definition Companion :: "WeCom \<Rightarrow> go_error option" where
  "Companion d = (if wc_running d then None else Some not_running)"

definition Android :: "WeCom \<Rightarrow> go_error option" where
  "Android d = (if wc_running d then None else Some not_running)"

definition Snapshot :: "wc_env \<Rightarrow> WeCom \<Rightarrow> UISnapshot result \<times> WeCom" where
  "Snapshot env d =
     (let n = length (wc_trace d);
          answer = map_sum id (UnmarshalSnapshot n) (snd (companion_request (en_snapshot env n)))
      in case answer of
           Inl err \<Rightarrow> (Inl err, called env Asked d)
         | Inr s \<Rightarrow> (Inr s, called env (Observed s) d))"

definition Events :: "wc_env \<Rightarrow> int \<Rightarrow> int \<Rightarrow> WeCom \<Rightarrow> EventPage result \<times> WeCom" where
  "Events env after limit d =
     (let limit = (if limit \<le> 0 \<or> limit > 500 then 100 else limit)
      in (snd (companion_request (en_events env (length (wc_trace d)) after limit)), called env Asked d))"

definition Act :: "wc_env \<Rightarrow> CompanionAction \<Rightarrow> WeCom \<Rightarrow> go_error option \<times> WeCom" where
  "Act env a d =
     (case validateCompanionAction a of
        Some err \<Rightarrow> (Some err, d)
      | None \<Rightarrow>
          (case act_result (en_u env) (companion_request (en_action env (length (wc_trace d)) a)) of
             (outcome, err) \<Rightarrow> (err, called env (Acted a outcome) d)))"

definition Screenshot :: "wc_env \<Rightarrow> WeCom \<Rightarrow> string result \<times> WeCom" where
  "Screenshot env d = (en_screenshot env (length (wc_trace d)), called env Captured d)"

text \<open>The window class is cleared first, so that a failed probe leaves none.\<close>

definition withForegroundActivity :: "wc_env \<Rightarrow> UISnapshot \<Rightarrow> WeCom \<Rightarrow> UISnapshot \<times> WeCom" where
  "withForegroundActivity env snapshot d =
     (if ws_PackageName snapshot \<noteq> DefaultWeComPackage then (snapshot, d)
      else case en_activity env (length (wc_trace d)) of
          Inl err \<Rightarrow> (snapshot\<lparr>ws_WindowClass := []\<rparr>, called env (Foreground None) d)
        | Inr activity \<Rightarrow> (snapshot\<lparr>ws_WindowClass := activity\<rparr>, called env (Foreground (Some activity)) d))"

text \<open>\<^verbatim>\<open>client.Snapshot\<close> followed by \<^verbatim>\<open>withForegroundActivity\<close>.\<close>

definition observe :: "wc_env \<Rightarrow> WeCom \<Rightarrow> UISnapshot result \<times> WeCom" where
  "observe env d =
     (case Snapshot env d of
        (Inl err, d1) \<Rightarrow> (Inl err, d1)
      | (Inr s, d1) \<Rightarrow> (case withForegroundActivity env s d1 of (s', d2) \<Rightarrow> (Inr s', d2)))"

text \<open>The driver's \<^verbatim>\<open>select\<close> on the context and a timer: \<open>Inl\<close> if the context is done.\<close>

definition sleep :: "wc_env \<Rightarrow> duration \<Rightarrow> WeCom \<Rightarrow> go_error option \<times> WeCom" where
  "sleep env dur d =
     (case en_ctx env (length (wc_trace d)) of
        Some err \<Rightarrow> (Some err, d)
      | None \<Rightarrow> (None, d\<lparr>wc_now := wc_now d + dur + int (en_oversleep env (length (wc_trace d)))\<rparr>))"

lemma called_simps [simp]:
  "wc_now d \<le> wc_now (called env c d)" "wc_trace (called env c d) = wc_trace d @ [c]"
  "wc_package (called env c d) = wc_package d" "wc_running (called env c d) = wc_running d"
  "wc_account (called env c d) = wc_account d" "wc_surfaces (called env c d) = wc_surfaces d"
  "wc_sendMemos (called env c d) = wc_sendMemos d" "wc_clientVersion (called env c d) = wc_clientVersion d"
  by (simp_all add: called_def)

lemma Snapshot_now [simp]: "Snapshot env d = (r, d1) \<Longrightarrow> wc_now d \<le> wc_now d1"
  by (auto simp: Snapshot_def Let_def split: sum.splits)

lemma withForegroundActivity_now [simp]: "withForegroundActivity env s d = (r, d1) \<Longrightarrow> wc_now d \<le> wc_now d1"
  by (auto simp: withForegroundActivity_def split: sum.splits if_splits)

lemma observe_now [simp]: "observe env d = (r, d1) \<Longrightarrow> wc_now d \<le> wc_now d1"
  by (auto simp: observe_def split: sum.splits prod.splits dest!: Snapshot_now withForegroundActivity_now)

lemma sleep_now: "sleep env dur d = (None, d1) \<Longrightarrow> wc_now d + dur \<le> wc_now d1"
  by (auto simp: sleep_def split: option.splits)

section \<open>Waits\<close>

function snapshot_change :: "wc_env \<Rightarrow> int \<Rightarrow> time \<Rightarrow> WeCom \<Rightarrow> UISnapshot result \<times> WeCom" where
  "snapshot_change env previous deadline d =
     (case Snapshot env d of
        (r, d1) \<Rightarrow>
          if (case r of Inl err \<Rightarrow> False | Inr s \<Rightarrow> ws_Sequence s > previous) then (r, d1)
          else if wc_now d1 > deadline
          then (Inl (wc_error wcErrStale ''timed out waiting for official client UI change''), d1)
          else case sleep env (200 * millisecond) d1 of
              (Some err, d2) \<Rightarrow> (Inl err, d2)
            | (None, d2) \<Rightarrow> snapshot_change env previous deadline d2)"
  by pat_completeness auto
termination
proof (relation "measure (\<lambda>(env, previous, deadline, d). nat (deadline + 1 - wc_now d))", simp, clarify)
  fix env previous deadline d r d1 e d2
  assume a: "(r, d1) = Snapshot env d" "\<not> deadline < wc_now d1" "(None, d2) = sleep env (200 * millisecond) d1"
  have "wc_now d \<le> wc_now d1" using a(1) [symmetric] by simp
  moreover have "wc_now d1 + 200 * millisecond \<le> wc_now d2" using a(3) [symmetric] by (rule sleep_now)
  ultimately show "((env, previous, deadline, d2), (env, previous, deadline, d)) \<in>
      measure (\<lambda>(env, previous, deadline, d). nat (deadline + 1 - wc_now d))"
    using a(2) by simp
qed

declare snapshot_change.simps [simp del]

definition waitForSnapshotChange :: "wc_env \<Rightarrow> int \<Rightarrow> WeCom \<Rightarrow> UISnapshot result \<times> WeCom" where
  "waitForSnapshotChange env previous d = snapshot_change env previous (wc_now d + 10 * second) d"

section \<open>The event journal\<close>

record eventHistory =
  eh_Events :: "CompanionEvent list"
  eh_Complete :: bool

text \<open>The loop of \<^verbatim>\<open>allEvents\<close>: what was read so far, whether it is complete, and the cursor.\<close>

function all_events ::
  "wc_env \<Rightarrow> CompanionEvent list \<Rightarrow> bool \<Rightarrow> 64 word \<Rightarrow> WeCom \<Rightarrow> eventHistory result \<times> WeCom"
where
  "all_events env seen whole cursor d =
     (let limit = min 500 (2000 - int (length seen))
      in if limit = 0
         then (case Events env (sint cursor) 1 d of
                 (Inl err, d1) \<Rightarrow> (Inl err, d1)
               | (Inr page, d1) \<Rightarrow>
                   (Inr \<lparr>eh_Events = seen, eh_Complete = (whole \<and> ep_Complete page \<and> ep_Events page = [])\<rparr>, d1))
         else case Events env (sint cursor) limit d of
             (Inl err, d1) \<Rightarrow> (Inl err, d1)
           | (Inr page, d1) \<Rightarrow>
               if ep_Events page = [] then (Inr \<lparr>eh_Events = seen, eh_Complete = (whole \<and> ep_Complete page)\<rparr>, d1)
               else if sint (ep_NextCursor page) \<le> sint cursor
               then (Inr \<lparr>eh_Events = seen @ ep_Events page, eh_Complete = False\<rparr>, d1)
               else all_events env (seen @ ep_Events page) (whole \<and> ep_Complete page) (ep_NextCursor page) d1)"
  by pat_completeness auto
termination
proof (relation "measure (\<lambda>(env, seen, whole, cursor, d). nat (2 ^ 63 - sint cursor))", simp, clarify)
  fix env seen whole d page d1 limit and cursor :: "64 word"
  assume "\<not> sint (ep_NextCursor page) \<le> sint cursor"
  moreover have "sint (ep_NextCursor page) < 2 ^ 63"
    using sint_lt [of "ep_NextCursor page"] by simp
  ultimately show "((env, seen @ ep_Events page, whole \<and> ep_Complete page, ep_NextCursor page, d1),
      (env, seen, whole, cursor, d)) \<in> measure (\<lambda>(env, seen, whole, cursor, d). nat (2 ^ 63 - sint cursor))"
    by simp
qed

declare all_events.simps [simp del]

definition allEvents :: "wc_env \<Rightarrow> WeCom \<Rightarrow> eventHistory result \<times> WeCom" where
  "allEvents env d = all_events env [] True 0 d"

end
