(* ===== verification/WeCom_Surface.thy ===== *)
theory WeCom_Surface
  imports WeCom_Companion
begin

text \<open>
  The surfaces of the WeCom driver (\<^verbatim>\<open>internal/driver/wecom/driver.go\<close>): starting and stopping, the
  notification references, the recording of a surface with the actions it offers, and the operations on
  it. \<open>SurfaceActed\<close>, \<open>SurfaceOpened\<close> and \<open>SurfaceClosed\<close> are notes in the history.
\<close>

section \<open>Sequencing\<close>

text \<open>A call that may fail, and what follows when it does not; an early return of an error.\<close>

definition andThen :: "'a result \<times> WeCom \<Rightarrow> ('a \<Rightarrow> WeCom \<Rightarrow> 'b result \<times> WeCom) \<Rightarrow> 'b result \<times> WeCom" where
  "andThen m f = (case m of (Inl err, d) \<Rightarrow> (Inl err, d) | (Inr x, d) \<Rightarrow> f x d)"

definition check :: "go_error option \<Rightarrow> WeCom \<Rightarrow> unit result \<times> WeCom" where
  "check err d = (case err of None \<Rightarrow> (Inr (), d) | Some e \<Rightarrow> (Inl e, d))"

definition call :: "go_error option \<times> WeCom \<Rightarrow> unit result \<times> WeCom" where
  "call m = check (fst m) (snd m)"

definition refuse_if :: "bool \<Rightarrow> go_error \<Rightarrow> WeCom \<Rightarrow> unit result \<times> WeCom" where
  "refuse_if b err d = check (if b then Some err else None) d"

lemma andThen_Inr: "andThen m f = (Inr r, d') \<longleftrightarrow> (\<exists>x d1. m = (Inr x, d1) \<and> f x d1 = (Inr r, d'))"
  by (auto simp: andThen_def split: prod.splits sum.splits)

lemma andThen_simps [simp]: "andThen (Inl err, d) f = (Inl err, d)" "andThen (Inr x, d) f = f x d"
  by (simp_all add: andThen_def)

lemma check_simps [simp]:
  "check None d = (Inr (), d)" "check (Some e) d = (Inl e, d)"
  "check err d = (Inr x, d') \<longleftrightarrow> err = None \<and> d' = d"
  by (auto simp: check_def split: option.splits)

lemma refuse_if_simps [simp]:
  "refuse_if False err d = (Inr (), d)" "refuse_if True err d = (Inl err, d)"
  "refuse_if b err d = (Inr x, d') \<longleftrightarrow> \<not> b \<and> d' = d"
  by (auto simp: refuse_if_def)

lemma call_simps [simp]:
  "call (None, d) = (Inr (), d)" "call (Some e, d) = (Inl e, d)"
  "call m = (Inr x, d') \<longleftrightarrow> m = (None, d')"
  by (cases m; auto simp: call_def)+

section \<open>Life cycle\<close>

definition wc_New :: "string \<Rightarrow> WeCom" where
  "wc_New package =
     \<lparr>wc_package = package, wc_running = False, wc_clientVersion = [],
      wc_account = \<lparr>ar_AccountID = [], ar_Alias = [], ar_StateDir = [], ar_RuntimeDir = []\<rparr>,
      wc_surfaces = Map.empty, wc_sendMemos = Map.empty, wc_now = 0, wc_trace = []\<rparr>"

text \<open>\<open>started\<close> is what the runtime answers: an error or the version of the client.\<close>

definition wc_Start :: "string result \<Rightarrow> AccountRuntime \<Rightarrow> WeCom \<Rightarrow> go_error option \<times> WeCom" where
  "wc_Start started account d =
     (if wc_running d then (Some (ErrNew ''WeCom runtime is already running''), d)
      else case started of
          Inl err \<Rightarrow> (Some err, d)
        | Inr version \<Rightarrow>
            (None, noted DriverReset (d\<lparr>wc_running := True, wc_clientVersion := version, wc_account := account,
                                        wc_surfaces := Map.empty, wc_sendMemos := Map.empty\<rparr>)))"

definition wc_Stop :: "go_error option \<Rightarrow> WeCom \<Rightarrow> go_error option \<times> WeCom" where
  "wc_Stop stopped d =
     (case stopped of
        Some err \<Rightarrow> (Some err, d)
      | None \<Rightarrow>
          (None, noted DriverReset
             (d\<lparr>wc_running := False, wc_clientVersion := [], wc_account := wc_account (wc_New []),
                wc_surfaces := Map.empty, wc_sendMemos := Map.empty\<rparr>)))"

definition wc_capabilities :: "(string \<times> support) list option" where
  "wc_capabilities = CapabilityMap
     [(''auth.qr'', SupportExperimental), (''auth.sms'', SupportExperimental), (''messages.watch'', SupportExperimental),
      (''messages.send'', SupportExperimental), (''web.open'', SupportExperimental),
      (''miniprogram.open'', SupportExperimental), (''surface.act'', SupportExperimental)]"

definition wc_Status :: "wc_env \<Rightarrow> WeCom \<Rightarrow> Status \<times> WeCom" where
  "wc_Status env d =
     (let observed = wc_now d;
          status = (\<lambda>state reason version. \<lparr>st_State = state, st_Identity = None, st_Reason = reason,
            st_ClientVersion = version, st_Capabilities = wc_capabilities, st_ObservedAt = observed\<rparr>)
      in case Companion d of
          Some err \<Rightarrow> (status StateStopped [] [], d)
        | None \<Rightarrow>
            (case observe env d of
               (Inl err, d1) \<Rightarrow> (status StateOffline ''accessibility companion is unavailable'' [], d1)
             | (Inr snapshot, d1) \<Rightarrow>
                 (case classifyLogin (en_u env) snapshot of
                    (state, reason) \<Rightarrow> (status state reason (wc_clientVersion d1), d1))))"

section \<open>Notification references\<close>

definition notificationSurfaceScope :: "golib \<Rightarrow> string \<Rightarrow> int \<Rightarrow> string" where
  "notificationSurfaceScope lib accountID sequence =
     digestID lib (''wecom-notification'' @ CHR 0x00 # accountID @ CHR 0x00 # Itoa sequence)"

definition notificationSurfaceReference :: "golib \<Rightarrow> string \<Rightarrow> int \<Rightarrow> string" where
  "notificationSurfaceReference lib accountID sequence =
     ''wecom-notification:'' @ Itoa sequence @ '':'' @ notificationSurfaceScope lib accountID sequence"

text \<open>\<^verbatim>\<open>strconv.ParseInt(s, 10, 64)\<close>\<close>

fun decimal_value :: "int \<Rightarrow> string \<Rightarrow> int option" where
  "decimal_value acc [] = Some acc"
| "decimal_value acc (c # cs) = (if is_digit c then decimal_value (acc * 10 + (of_char c - 48)) cs else None)"

definition ParseInt :: "string \<Rightarrow> int option" where
  "ParseInt s =
     (let magnitude = (\<lambda>t. if t = [] then None else decimal_value 0 t);
          v = (case s of
                 CHR ''-'' # t \<Rightarrow> map_option uminus (magnitude t)
               | CHR ''+'' # t \<Rightarrow> magnitude t
               | t \<Rightarrow> magnitude t)
      in case v of None \<Rightarrow> None | Some i \<Rightarrow> if - (2 ^ 63) \<le> i \<and> i < 2 ^ 63 then Some i else None)"

definition parse_reference :: "golib \<Rightarrow> string \<Rightarrow> string \<Rightarrow> (int \<times> string) result" where
  "parse_reference lib accountID reference =
     (let pre = ''wecom-notification:''
      in if reference = [] then Inl (ErrNew ''surface reference is required'')
         else if \<not> HasPrefix reference pre
         then Inl (wc_error wcErrUnsupportedCapability ''v0 opens only message-backed WeCom notification references'')
         else
           let payload = drop (length pre) reference;
               sequenceText = takeWhile (\<lambda>c. c \<noteq> CHR '':'') payload;
               scope = drop (length sequenceText + 1) payload;
               invalid = wc_error wcErrNotFound ''notification surface reference is invalid for the active account''
           in case ParseInt sequenceText of
               None \<Rightarrow> Inl invalid
             | Some sequence \<Rightarrow>
                 if CHR '':'' \<notin> set payload \<or> CHR '':'' \<in> set scope \<or> sequence \<le> 0 \<or> Itoa sequence \<noteq> sequenceText \<or>
                    accountID = [] \<or> scope \<noteq> notificationSurfaceScope lib accountID sequence
                 then Inl invalid else Inr (sequence, sequenceText))"

definition notificationEvent :: "wc_env \<Rightarrow> int \<Rightarrow> WeCom \<Rightarrow> CompanionEvent result \<times> WeCom" where
  "notificationEvent env sequence d =
     andThen (allEvents env d) (\<lambda>history d.
       (case filter (\<lambda>e. ce_Sequence e = sequence \<and> ce_PackageName e = wc_package d) (eh_Events history) of
          [] \<Rightarrow>
            if \<not> eh_Complete history
            then Inl (wc_error wcErrStale ''notification sequence may precede a gap in the bounded journal'')
            else Inl (wc_error wcErrNotFound ''notification sequence is absent from the bounded journal'')
        | [e] \<Rightarrow> Inr e
        | _ \<Rightarrow> Inl wcErrTargetAmbiguous, d))"

section \<open>Actions offered by a surface\<close>

definition high_risk_action :: "string \<Rightarrow> string \<Rightarrow> bool" where
  "high_risk_action risk effect \<longleftrightarrow>
     risk = ''high'' \<or> risk = ''sensitive'' \<or> risk = ''destructive'' \<or>
     effect = ''high_risk'' \<or> effect = ''sensitive'' \<or> effect = ''destructive''"

definition replay_id :: "golib \<Rightarrow> surfaceIdentity \<Rightarrow> string \<Rightarrow> action_kind \<Rightarrow> string" where
  "replay_id lib identity nodeID kind =
     ''replay-'' @ digestID lib (intercalate [CHR 0x00] [''wecom-surface-replay-v1'', id_packageName identity,
       Itoa (id_windowID identity), id_windowClass identity, nodeID, kind_string kind])"

definition bindSurfaceAction ::
  "golib \<Rightarrow> string \<Rightarrow> UISnapshot \<Rightarrow> Node \<Rightarrow> action_kind \<Rightarrow> string \<Rightarrow> string \<Rightarrow> string \<Rightarrow> string \<Rightarrow> surfaceActionState"
where
  "bindSurfaceAction lib surfaceID snapshot n kind label risk effect contextDigest =
     (let identity = identityForSurface snapshot;
          nodeSignature = surfaceNodeSignature lib n;
          replayID = replay_id lib identity (wn_ID n) kind;
          actionID = ''act-'' @ digestID lib (lb_marshal lib (JObj
            [(''Domain'', JStr ''wecom-surface-action-v1''), (''SurfaceID'', JStr surfaceID),
             (''Sequence'', JInt (ws_Sequence snapshot)), (''PackageName'', JStr (id_packageName identity)),
             (''WindowID'', JInt (id_windowID identity)), (''WindowClass'', JStr (id_windowClass identity)),
             (''ContextDigest'', JStr contextDigest), (''NodeID'', JStr (wn_ID n)),
             (''NodeSignature'', JStr nodeSignature), (''Label'', JStr label), (''Bounds'', json_bounds (wn_Bounds n)),
             (''Kind'', JStr (kind_string kind)), (''Risk'', JStr risk), (''Effect'', JStr effect)]))
      in \<lparr>sas_advertised = \<lparr>ac_ID = actionID, ac_TargetID = ''target-'' @ digestID lib (replayID @ CHR 0x00 # nodeSignature),
             ac_Label = label, ac_Kind = kind_string kind, ac_Risk = risk, ac_Effect = effect,
             ac_Disabled = high_risk_action risk effect\<rparr>,
          sas_kind = kind, sas_nodeID = wn_ID n, sas_replayID = replayID, sas_nodeSignature = nodeSignature,
          sas_contextDigest = contextDigest, sas_label = label, sas_bounds = wn_Bounds n,
          sas_sequence = ws_Sequence snapshot, sas_identity = identity\<rparr>)"

definition node_kinds :: "Node \<Rightarrow> action_kind list" where
  "node_kinds n =
     (if wn_Editable n \<and> wn_Enabled n then [ActionSetText] else []) @
     (if wn_Clickable n \<and> wn_Enabled n then [ActionClick] else []) @
     (if wn_Scrollable n \<and> wn_Enabled n then [ActionScrollForward, ActionScrollBackward] else [])"

definition offered_action :: "golib \<Rightarrow> string \<Rightarrow> UISnapshot \<Rightarrow> Node \<Rightarrow> action_kind \<Rightarrow> surfaceActionState" where
  "offered_action lib surfaceID snapshot n kind =
     (let u = lb_unicode lib;
          highRisk = surfaceHighRisk u snapshot \<or> authenticationSurface u snapshot;
          agreementClick = (kind = ActionClick \<and> isWeComLoginAgreementImage n);
          classified = classifySurfaceAction u snapshot n kind;
          (risk, effect) = (if highRisk \<or> agreementClick then (''high'', ''high_risk'') else classified)
      in bindSurfaceAction lib surfaceID snapshot n kind (surfaceActionLabel u snapshot n kind) risk effect
           (surfaceContextDigest lib snapshot))"

definition offered_actions :: "golib \<Rightarrow> string \<Rightarrow> UISnapshot \<Rightarrow> surfaceActionState list" where
  "offered_actions lib surfaceID snapshot =
     concat (map (\<lambda>n. map (offered_action lib surfaceID snapshot n) (node_kinds n))
       (filter (\<lambda>n. wn_ID n \<noteq> [] \<and> wn_VisibleToUser n \<and> validNodeBounds (wn_Bounds n)) (ws_Nodes snapshot)))"

abbreviation action_id :: "surfaceActionState \<Rightarrow> string" where "action_id b \<equiv> ac_ID (sas_advertised b)"

definition still_offered :: "string set \<Rightarrow> string set \<Rightarrow> surfaceActionState list \<Rightarrow> surfaceActionState list" where
  "still_offered consumed tombstones = filter (\<lambda>b. action_id b \<notin> consumed \<and> sas_replayID b \<notin> tombstones)"

text \<open>The map of the allowed actions: of two with the same identifier the later one stays.\<close>

definition allowed_map :: "surfaceActionState list \<Rightarrow> string \<rightharpoonup> surfaceActionState" where
  "allowed_map bs = map_of (rev (map (\<lambda>b. (action_id b, b)) bs))"

section \<open>Recording a surface\<close>

definition prepareSurfaceSnapshot :: "wc_env \<Rightarrow> UISnapshot \<Rightarrow> WeCom \<Rightarrow> UISnapshot result \<times> WeCom" where
  "prepareSurfaceSnapshot env snapshot d =
     (if ws_PackageName snapshot \<noteq> wc_package d \<or> ws_PackageName snapshot \<noteq> DefaultWeComPackage
      then (Inl (wc_error wcErrTargetAmbiguous ''surface left the verified WeCom package''), d)
      else andThen (check (Android d) d) (\<lambda>_ d.
        case withForegroundActivity env snapshot d of
          (snapshot, d) \<Rightarrow> andThen (check (validateSurfaceSnapshot (en_u env) snapshot) d) (\<lambda>_ d. (Inr snapshot, d))))"

definition kept_identifiers :: "surfaceState option \<Rightarrow> surfaceIdentity \<Rightarrow> string set \<times> string set" where
  "kept_identifiers previous identity =
     (case previous of
        Some p \<Rightarrow> if srf_identity p = identity then (srf_consumedActions p, srf_replayTombstones p) else ({}, {})
      | None \<Rightarrow> ({}, {}))"

definition record_state :: "wc_env \<Rightarrow> string \<Rightarrow> UISnapshot \<Rightarrow> string \<Rightarrow> WeCom \<Rightarrow> surfaceState" where
  "record_state env sid snapshot png d =
     (let identity = identityForSurface snapshot;
          (consumed, tombstones) = kept_identifiers (wc_surfaces d sid) identity;
          offers = still_offered consumed tombstones (offered_actions (en_lib env) sid snapshot);
          surface = \<lparr>sf_ID = sid, sf_Kind = classifySurfaceKind (en_u env) snapshot, sf_Title = ws_WindowTitle snapshot,
            sf_URL = [], sf_AppID = [], sf_Generation = surfaceContextDigest (en_lib env) snapshot, sf_Screenshot = png,
            sf_ScreenshotSHA256 = EncodeToString (lb_sha256 (en_lib env) png), sf_OCRText = [], sf_Elements = [],
            sf_Assets = [], sf_Viewport = None, sf_Actions = map sas_advertised offers, sf_ObservedAt = wc_now d\<rparr>
      in \<lparr>srf_surface = surface, srf_actions = allowed_map offers, srf_consumedActions = consumed,
          srf_replayTombstones = tombstones, srf_sequence = ws_Sequence snapshot, srf_identity = identity\<rparr>)"

definition updateSurface :: "wc_env \<Rightarrow> string \<Rightarrow> UISnapshot \<Rightarrow> surfaceIdentity \<Rightarrow> WeCom \<Rightarrow> Surface result \<times> WeCom" where
  "updateSurface env sid snapshot bound d =
     andThen (prepareSurfaceSnapshot env snapshot d) (\<lambda>snapshot d.
     andThen (refuse_if (identity_valid bound \<and> \<not> identity_matches bound snapshot)
       (wc_error wcErrStale ''surface window identity changed'') d) (\<lambda>_ d.
     andThen (check (Companion d) d) (\<lambda>_ d.
     andThen (Screenshot env d) (\<lambda>png d.
     andThen (Snapshot env d) (\<lambda>verified d.
     andThen (prepareSurfaceSnapshot env verified d) (\<lambda>verified d.
     andThen (refuse_if (\<not> sameSurfaceObservation snapshot verified)
       (wc_error wcErrStale ''surface changed during screenshot capture'') d) (\<lambda>_ d.
       let state = record_state env sid verified png d
       in (Inr (srf_surface state), d\<lparr>wc_surfaces := (wc_surfaces d)(sid \<mapsto> state)\<rparr>))))))))"

text \<open>\<^verbatim>\<open>time.Now().UnixNano()\<close> counts from 1 January 1970.\<close>

definition UnixNano :: "time \<Rightarrow> int" where
  "UnixNano t = t - 62135596800 * second"

definition surface_id :: "wc_env \<Rightarrow> WeCom \<Rightarrow> string" where
  "surface_id env d = ''surface-'' @ digestID (en_lib env) (ar_AccountID (wc_account d) @ '':'' @ Itoa (UnixNano (wc_now d)))"

definition recordSurface :: "wc_env \<Rightarrow> UISnapshot \<Rightarrow> WeCom \<Rightarrow> Surface result \<times> WeCom" where
  "recordSurface env snapshot d =
     andThen (updateSurface env (surface_id env d) snapshot zero_identity d) (\<lambda>surface d1.
       (Inr surface, noted (SurfaceOpened (surface_id env d)) d1))"

definition open_action :: "string \<Rightarrow> CompanionAction" where
  "open_action sequenceText =
     \<lparr>cact_Kind = ActionOpenNotification, cact_NodeID = sequenceText, cact_Text = [], cact_ExpectedSequence = 0\<rparr>"

text \<open>Errors of a call wrapped together with the sentinel \<^verbatim>\<open>ErrStale\<close>.\<close>

definition stale_because :: "string \<Rightarrow> go_error option \<times> WeCom \<Rightarrow> go_error option \<times> WeCom" where
  "stale_because txt m = map_prod (map_option (\<lambda>err. ErrWrapf2 wcErrStale ('': '' @ txt @ '': '') err)) id m"

definition OpenSurface :: "wc_env \<Rightarrow> string \<Rightarrow> WeCom \<Rightarrow> Surface result \<times> WeCom" where
  "OpenSurface env reference d =
     (case parse_reference (en_lib env) (ar_AccountID (wc_account d)) (TrimSpace reference) of
        Inl err \<Rightarrow> (Inl err, d)
      | Inr (sequence, sequenceText) \<Rightarrow>
          andThen (check (Companion d) d) (\<lambda>_ d.
          andThen (notificationEvent env sequence d) (\<lambda>event d.
          andThen (refuse_if (\<not> ce_Openable event)
            (wc_error wcErrStale ''notification no longer has an openable PendingIntent'') d) (\<lambda>_ d.
          andThen (Snapshot env d) (\<lambda>snapshot d.
          andThen (call (stale_because ''open notification surface'' (Act env (open_action sequenceText) d))) (\<lambda>_ d.
          andThen (waitForSnapshotChange env (ws_Sequence snapshot) d) (\<lambda>opened d.
            recordSurface env opened d)))))))"

definition unknown_surface :: go_error where
  "unknown_surface = wc_error wcErrNotFound ''unknown or closed surface''"

definition SnapshotSurface :: "wc_env \<Rightarrow> string \<Rightarrow> WeCom \<Rightarrow> Surface result \<times> WeCom" where
  "SnapshotSurface env sid d =
     (case wc_surfaces d sid of
        None \<Rightarrow> (Inl unknown_surface, d)
      | Some state \<Rightarrow>
          andThen (check (Companion d) d) (\<lambda>_ d.
          andThen (Snapshot env d) (\<lambda>snapshot d. updateSurface env sid snapshot (srf_identity state) d)))"

section \<open>Acting on a surface\<close>

definition validateSurfaceActionState :: "golib \<Rightarrow> string \<Rightarrow> UISnapshot \<Rightarrow> surfaceActionState \<Rightarrow> go_error option" where
  "validateSurfaceActionState lib surfaceID snapshot expected =
     (if sas_sequence expected \<noteq> ws_Sequence snapshot \<or> \<not> identity_matches (sas_identity expected) snapshot \<or>
         sas_contextDigest expected \<noteq> surfaceContextDigest lib snapshot
      then Some (wc_error wcErrStale ''surface action context changed'')
      else case filter (\<lambda>n. wn_ID n = sas_nodeID expected) (ws_Nodes snapshot) of
          [] \<Rightarrow> Some (wc_error wcErrStale ''surface action node disappeared'')
        | [n] \<Rightarrow>
            if \<not> nodeSupportsSurfaceAction n (sas_kind expected) \<or>
               surfaceNodeSignature lib n \<noteq> sas_nodeSignature expected \<or> wn_Bounds n \<noteq> sas_bounds expected
            then Some (wc_error wcErrStale ''surface action node semantics changed'')
            else
              let u = lb_unicode lib;
                  label = surfaceActionLabel u snapshot n (sas_kind expected);
                  (risk, effect) = classifySurfaceAction u snapshot n (sas_kind expected);
                  current = bindSurfaceAction lib surfaceID snapshot n (sas_kind expected) label risk effect
                              (sas_contextDigest expected)
              in if label \<noteq> sas_label expected \<or> sas_advertised current \<noteq> sas_advertised expected \<or>
                    sas_replayID current \<noteq> sas_replayID expected \<or> sas_nodeSignature current \<noteq> sas_nodeSignature expected
                 then Some (wc_error wcErrStale ''surface action identity changed'')
                 else None
        | _ \<Rightarrow> Some (wc_error wcErrTargetAmbiguous ''surface action node identity is ambiguous''))"

definition withoutSurfaceActions :: "(string \<Rightarrow> bool) \<Rightarrow> Action list \<Rightarrow> Action list" where
  "withoutSurfaceActions removed actions = filter (\<lambda>a. \<not> removed (ac_ID a)) actions"

definition same_binding :: "surfaceActionState \<Rightarrow> surfaceActionState \<Rightarrow> bool" where
  "same_binding current expected \<longleftrightarrow>
     sas_replayID current = sas_replayID expected \<and> sas_nodeSignature current = sas_nodeSignature expected \<and>
     sas_contextDigest current = sas_contextDigest expected \<and> sas_sequence current = sas_sequence expected \<and>
     sas_identity current = sas_identity expected"

definition consume_state :: "string \<Rightarrow> surfaceState \<Rightarrow> surfaceState" where
  "consume_state actionID state =
     state\<lparr>srf_actions := (srf_actions state)(actionID := None),
           srf_consumedActions := insert actionID (srf_consumedActions state),
           srf_surface := (srf_surface state)\<lparr>sf_Actions :=
             withoutSurfaceActions (\<lambda>k. k = actionID) (sf_Actions (srf_surface state))\<rparr>\<rparr>"

definition consumeSurfaceAction :: "string \<Rightarrow> string \<Rightarrow> surfaceActionState \<Rightarrow> WeCom \<Rightarrow> bool \<times> WeCom" where
  "consumeSurfaceAction surfaceID actionID expected d =
     (case wc_surfaces d surfaceID of
        None \<Rightarrow> (False, d)
      | Some state \<Rightarrow>
          (case srf_actions state actionID of
             None \<Rightarrow> (False, d)
           | Some current \<Rightarrow>
               if \<not> same_binding current expected then (False, d)
               else (True, d\<lparr>wc_surfaces := (wc_surfaces d)(surfaceID \<mapsto> consume_state actionID state)\<rparr>)))"

definition tombstone_state :: "string \<Rightarrow> surfaceState \<Rightarrow> surfaceState" where
  "tombstone_state replayID state =
     (let removed = (\<lambda>k. case srf_actions state k of None \<Rightarrow> False | Some b \<Rightarrow> sas_replayID b = replayID)
      in state\<lparr>srf_replayTombstones := insert replayID (srf_replayTombstones state),
               srf_actions := (\<lambda>k. if removed k then None else srf_actions state k),
               srf_surface := (srf_surface state)\<lparr>sf_Actions := withoutSurfaceActions removed (sf_Actions (srf_surface state))\<rparr>\<rparr>)"

definition tombstoneSurfaceReplay :: "string \<Rightarrow> string \<Rightarrow> WeCom \<Rightarrow> WeCom" where
  "tombstoneSurfaceReplay surfaceID replayID d =
     (if replayID = [] then d
      else case wc_surfaces d surfaceID of
          None \<Rightarrow> d
        | Some state \<Rightarrow> d\<lparr>wc_surfaces := (wc_surfaces d)(surfaceID \<mapsto> tombstone_state replayID state)\<rparr>)"

definition shouldTombstoneSurfaceReplay :: "string \<Rightarrow> bool \<Rightarrow> bool" where
  "shouldTombstoneSurfaceReplay effect succeeded =
     (let effect = ToLower (TrimSpace effect)
      in if effect = ''observe'' \<or> effect = ''search_input'' then False
         else if effect = ''navigate'' then \<not> succeeded
         else True)"

definition tombstone_if :: "bool \<Rightarrow> string \<Rightarrow> string \<Rightarrow> WeCom \<Rightarrow> WeCom" where
  "tombstone_if b surfaceID replayID d = (if b then tombstoneSurfaceReplay surfaceID replayID d else d)"

definition lowered :: "string \<Rightarrow> string" where "lowered s = ToLower (TrimSpace s)"

text \<open>The checks on the request before the screen is looked at.\<close>

definition act_request_error :: "surfaceActionState \<Rightarrow> SurfaceAction \<Rightarrow> go_error option" where
  "act_request_error b action =
     (let risk = lowered (ac_Risk (sas_advertised b)); effect = lowered (ac_Effect (sas_advertised b))
      in if ac_Disabled (sas_advertised b) \<or> high_risk_action risk effect then Some wcErrUserActionRequired
         else if \<not> sact_TextProvided action \<and> sact_Text action \<noteq> []
         then Some (wc_error wcErrInvalidArgument ''surface action text presence is inconsistent'')
         else if sas_kind b = ActionSetText \<and> \<not> sact_TextProvided action
         then Some (wc_error wcErrInvalidArgument ''set-text requires an explicitly provided text value'')
         else if sas_kind b \<noteq> ActionSetText \<and> (sact_TextProvided action \<or> sact_Text action \<noteq> [])
         then Some (wc_error wcErrInvalidArgument ''this surface action does not accept text'')
         else if sact_TextProvided action \<and> (RuneCount (sact_Text action) > 4096 \<or> ContainsNUL (sact_Text action))
         then Some (wc_error wcErrInvalidArgument ''surface input text must not exceed 4096 characters or contain NUL'')
         else if (risk \<noteq> ''low'' \<or> effect = ''external_write'') \<and> \<not> sact_Confirmed action
         then Some wcErrConfirmationRequired
         else None)"

definition companion_action :: "surfaceActionState \<Rightarrow> SurfaceAction \<Rightarrow> int \<Rightarrow> CompanionAction" where
  "companion_action b action sequence =
     \<lparr>cact_Kind = sas_kind b, cact_NodeID = sas_nodeID b,
      cact_Text = (if sas_kind b = ActionSetText then sact_Text action else []), cact_ExpectedSequence = sequence\<rparr>"

text \<open>From the dispatch on, an error leaves a tombstone unless the effect is harmless.\<close>

definition dispatch_action ::
  "wc_env \<Rightarrow> string \<Rightarrow> surfaceState \<Rightarrow> surfaceActionState \<Rightarrow> CompanionAction \<Rightarrow> int \<Rightarrow> WeCom \<Rightarrow> Surface result \<times> WeCom"
where
  "dispatch_action env sid state b act sequence d =
     (let effect = lowered (ac_Effect (sas_advertised b));
          failed = (\<lambda>err d. (Inl err, tombstone_if (shouldTombstoneSurfaceReplay effect False) sid (sas_replayID b) d));
          d = tombstone_if (shouldTombstoneSurfaceReplay effect True \<and> effect \<noteq> ''navigate'') sid (sas_replayID b) d;
          d = noted (SurfaceActed sid (action_id b) (sas_replayID b) effect) d
      in case Act env act d of
           (Some err, d) \<Rightarrow> failed err d
         | (None, d) \<Rightarrow>
             (case waitForSnapshotChange env sequence d of
                (Inl err, d) \<Rightarrow> failed err d
              | (Inr after, d) \<Rightarrow>
                  (case updateSurface env sid after (srf_identity state) d of
                     (Inl err, d) \<Rightarrow> failed err d
                   | (Inr surface, d) \<Rightarrow> (Inr surface, d))))"

definition ActSurface :: "wc_env \<Rightarrow> string \<Rightarrow> SurfaceAction \<Rightarrow> WeCom \<Rightarrow> Surface result \<times> WeCom" where
  "ActSurface env sid action d =
     (case wc_surfaces d sid of
        None \<Rightarrow> (Inl unknown_surface, d)
      | Some state \<Rightarrow>
          (case srf_actions state (sact_ActionID action) of
             None \<Rightarrow> (Inl (wc_error wcErrStale ''surface action was not advertised''), d)
           | Some b \<Rightarrow>
               andThen (check (act_request_error b action) d) (\<lambda>_ d.
               andThen (check (Companion d) d) (\<lambda>_ d.
               andThen (Snapshot env d) (\<lambda>before d.
               andThen (prepareSurfaceSnapshot env before d) (\<lambda>before d.
               andThen (refuse_if (\<not> identity_matches (srf_identity state) before)
                 (wc_error wcErrStale ''surface window identity changed before action'') d) (\<lambda>_ d.
               andThen (refuse_if (ws_Sequence before \<noteq> srf_sequence state)
                 (wc_error wcErrStale ''surface changed since the action was advertised'') d) (\<lambda>_ d.
               andThen (check (validateSurfaceActionState (en_lib env) sid before b) d) (\<lambda>_ d.
                 case consumeSurfaceAction sid (sact_ActionID action) b d of
                   (False, d) \<Rightarrow> (Inl (wc_error wcErrStale ''surface action was already consumed''), d)
                 | (True, d) \<Rightarrow>
                     dispatch_action env sid state b (companion_action b action (ws_Sequence before)) (ws_Sequence before) d)))))))))"

definition back_action :: "int \<Rightarrow> CompanionAction" where
  "back_action sequence =
     \<lparr>cact_Kind = ActionGlobalBack, cact_NodeID = [], cact_Text = [], cact_ExpectedSequence = sequence\<rparr>"

definition CloseSurface :: "wc_env \<Rightarrow> string \<Rightarrow> WeCom \<Rightarrow> unit result \<times> WeCom" where
  "CloseSurface env sid d =
     (case wc_surfaces d sid of
        None \<Rightarrow> (Inl unknown_surface, d)
      | Some state \<Rightarrow>
          andThen (check (Companion d) d) (\<lambda>_ d.
          andThen (Snapshot env d) (\<lambda>snapshot d.
          andThen (prepareSurfaceSnapshot env snapshot d) (\<lambda>snapshot d.
          andThen (refuse_if (\<not> identity_matches (srf_identity state) snapshot)
            (wc_error wcErrStale ''surface window identity changed before close'') d) (\<lambda>_ d.
          andThen (refuse_if (ws_Sequence snapshot \<noteq> srf_sequence state)
            (wc_error wcErrStale ''surface changed since close was requested'') d) (\<lambda>_ d.
          andThen (call (Act env (back_action (ws_Sequence snapshot)) d)) (\<lambda>_ d.
            (Inr (), noted (SurfaceClosed sid) (d\<lparr>wc_surfaces := (wc_surfaces d)(sid := None)\<rparr>)))))))))"

end
