(* ===== verification/WeCom_Send.thy ===== *)
theory WeCom_Send
  imports WeCom_Surface
begin

text \<open>
  Conversations, messages and sends of the WeCom driver (\<^verbatim>\<open>internal/driver/wecom/driver.go\<close>): the reading
  of the notification journal, the opening of a conversation, and the guarded send with its memo.
\<close>

section \<open>Identifiers\<close>

definition sha256Pattern :: "string \<Rightarrow> bool" where
  "sha256Pattern s = match_bounded (\<lambda>c. is_hex c \<or> CHR ''A'' \<le> c \<and> c \<le> CHR ''F'') 64 64 s"

definition wc_conversationID :: "golib \<Rightarrow> string \<Rightarrow> string \<Rightarrow> string" where
  "wc_conversationID lib accountID conversationKey =
     ''wecom-conv-'' @ digestID lib (accountID @ CHR 0x00 # ToLower conversationKey)"

definition wc_messageID :: "golib \<Rightarrow> string \<Rightarrow> int \<Rightarrow> string" where
  "wc_messageID lib accountID sequence = ''wecom-msg-'' @ digestID lib (accountID @ '':'' @ Itoa sequence)"

definition event_title :: "CompanionEvent \<Rightarrow> string" where
  "event_title e = (if ce_Conversation e = [] then ce_Title e else ce_Conversation e)"

definition eventConversationTitle :: "CompanionEvent \<Rightarrow> string" where
  "eventConversationTitle e =
     (if TrimSpace (ce_Conversation e) \<noteq> [] then TrimSpace (ce_Conversation e) else TrimSpace (ce_Title e))"

section \<open>Conversations\<close>

definition no_identity :: go_error where
  "no_identity = wc_error wcErrClientIncompatible ''companion event lacks a stable conversation identity''"

definition event_conversation :: "string \<Rightarrow> CompanionEvent \<Rightarrow> Conversation option \<Rightarrow> Conversation" where
  "event_conversation cid e previous =
     (let last_at = (case previous of None \<Rightarrow> 0 | Some c \<Rightarrow> cv_LastMessageAt c)
      in \<lparr>cv_ID = cid, cv_ExternalID = cid, cv_Title = event_title e, cv_Kind = ''unknown'', cv_UnreadCount = 1,
          cv_LastMessageAt = (if ce_PostedAt e > last_at then ce_PostedAt e else last_at),
          cv_Complete = False, cv_Source = ''android_notification''\<rparr>)"

fun conversations_of ::
  "golib \<Rightarrow> string \<Rightarrow> string \<Rightarrow> string \<Rightarrow> (string \<times> Conversation) list \<Rightarrow> CompanionEvent list \<Rightarrow> (string \<times> Conversation) list result"
where
  "conversations_of lib package accountID search byID [] = Inr byID"
| "conversations_of lib package accountID search byID (e # es) =
     (if ce_PackageName e \<noteq> package then conversations_of lib package accountID search byID es
      else if \<not> sha256Pattern (ce_ConversationKey e) then Inl no_identity
      else if event_title e = [] \<or>
        (search \<noteq> [] \<and> \<not> Contains (strings_ToLower (lb_unicode lib) (event_title e)) (strings_ToLower (lb_unicode lib) search))
      then conversations_of lib package accountID search byID es
      else
        let cid = wc_conversationID lib accountID (ce_ConversationKey e)
        in conversations_of lib package accountID search
             (AList.update cid (event_conversation cid e (map_of byID cid)) byID) es)"

text \<open>Conversations of equal time come in an unspecified order; the model keeps the order of first sight.\<close>

definition wc_ListConversations :: "wc_env \<Rightarrow> ConversationQuery \<Rightarrow> WeCom \<Rightarrow> Conversation list result \<times> WeCom" where
  "wc_ListConversations env q d =
     andThen (check (Companion d) d) (\<lambda>_ d.
     andThen (allEvents env d) (\<lambda>history d.
       case conversations_of (en_lib env) (wc_package d) (ar_AccountID (wc_account d)) (cq_Search q) [] (eh_Events history) of
         Inl err \<Rightarrow> (Inl err, d)
       | Inr byID \<Rightarrow>
           let found = filter (\<lambda>c. \<not> (cq_Unread q \<and> cv_UnreadCount c = 0)) (map snd byID);
               sorted_found = sort_by (\<lambda>a b. cv_LastMessageAt a \<ge> cv_LastMessageAt b) found;
               limit = (if cq_Limit q \<le> 0 \<or> cq_Limit q > 500 then 100 else cq_Limit q)
           in (Inr (take (nat limit) sorted_found), d)))"

section \<open>Messages\<close>

definition event_message :: "golib \<Rightarrow> string \<Rightarrow> string \<Rightarrow> bool \<Rightarrow> CompanionEvent \<Rightarrow> Message" where
  "event_message lib accountID cid gapBefore e =
     (let mid = wc_messageID lib accountID (ce_Sequence e)
      in \<lparr>ms_ID = mid, ms_ExternalID = mid, ms_ConversationID = cid, ms_GapBefore = gapBefore, ms_SenderID = [],
          ms_SenderName = ce_Sender e, ms_SentAt = ce_PostedAt e, ms_Kind = ''text'', ms_Text = ce_Text e,
          ms_Attachments = [], ms_ReplyTo = [],
          ms_SurfaceRef = (if ce_Openable e then notificationSurfaceReference lib accountID (ce_Sequence e) else []),
          ms_Source = ''android_notification'', ms_Complete = False, ms_Confidence = 7 / 10, ms_Raw = [],
          ms_Sequence = ce_Sequence e\<rparr>)"

definition wanted_event :: "MessageQuery \<Rightarrow> string \<Rightarrow> CompanionEvent \<Rightarrow> bool" where
  "wanted_event q cid e \<longleftrightarrow>
     \<not> (mq_ConversationID q \<noteq> [] \<and> mq_ConversationID q \<noteq> cid) \<and> \<not> (mq_Before q \<noteq> 0 \<and> \<not> ce_PostedAt e < mq_Before q)"

text \<open>
  \<open>applied\<close> are the conversations whose first message on this page got the page's boundary, \<open>pending\<close>
  those with a gap that no message carries yet.
\<close>

fun page_messages ::
  "golib \<Rightarrow> string \<Rightarrow> string \<Rightarrow> MessageQuery \<Rightarrow> bool \<Rightarrow> string set \<Rightarrow> string set \<Rightarrow> CompanionEvent list \<Rightarrow> Message list result"
where
  "page_messages lib package accountID q whole applied pending [] = Inr []"
| "page_messages lib package accountID q whole applied pending (e # es) =
     (if ce_PackageName e \<noteq> package then page_messages lib package accountID q whole applied pending es
      else if \<not> sha256Pattern (ce_ConversationKey e) then Inl no_identity
      else
        let cid = wc_conversationID lib accountID (ce_ConversationKey e);
            pending = (if ce_GapBefore e then insert cid pending else pending)
        in if \<not> wanted_event q cid e then page_messages lib package accountID q whole applied pending es
           else
             let boundary = (\<not> whole \<and> cid \<notin> applied);
                 gapBefore = (cid \<in> pending \<or> boundary)
             in map_sum id (Cons (event_message lib accountID cid gapBefore e))
                  (page_messages lib package accountID q whole (if boundary then insert cid applied else applied)
                    (if gapBefore then pending - {cid} else pending) es))"

definition wc_ReadMessages :: "wc_env \<Rightarrow> MessageQuery \<Rightarrow> WeCom \<Rightarrow> Message list result \<times> WeCom" where
  "wc_ReadMessages env q d =
     andThen (check (Companion d) d) (\<lambda>_ d.
       let limit = (if mq_Limit q \<le> 0 \<or> mq_Limit q > 500 then 100 else mq_Limit q)
       in andThen (Events env (mq_AfterSequence q) limit d) (\<lambda>page d.
            (page_messages (en_lib env) (wc_package d) (ar_AccountID (wc_account d)) q (ep_Complete page) {} {} (ep_Events page), d)))"

section \<open>Opening a conversation\<close>

definition conversation_events :: "golib \<Rightarrow> string \<Rightarrow> string \<Rightarrow> string \<Rightarrow> CompanionEvent list \<Rightarrow> CompanionEvent list" where
  "conversation_events lib package accountID cid =
     filter (\<lambda>e. ce_PackageName e = package \<and> sha256Pattern (ce_ConversationKey e) \<and>
                wc_conversationID lib accountID (ce_ConversationKey e) = cid)"

definition latest_openable :: "CompanionEvent list \<Rightarrow> CompanionEvent option" where
  "latest_openable es = fold (\<lambda>e latest.
     if ce_Openable e \<and> ce_Sequence e > (case latest of None \<Rightarrow> 0 | Some l \<Rightarrow> ce_Sequence l) then Some e else latest) es None"

definition choose_event :: "bool \<Rightarrow> CompanionEvent list \<Rightarrow> CompanionEvent result" where
  "choose_event whole matches =
     (case matches of
        [] \<Rightarrow>
          if \<not> whole
          then Inl (wc_error wcErrStale ''conversation may precede a gap in the bounded notification journal'')
          else Inl (wc_error wcErrNotFound ''conversation ID is not present in the bounded notification journal'')
      | first # rest \<Rightarrow>
          if list_ex (\<lambda>e. event_title e = [] \<or> event_title e \<noteq> event_title first) matches
          then Inl (wc_error wcErrTargetAmbiguous ''one notification identity maps to multiple conversation titles'')
          else case latest_openable matches of
              None \<Rightarrow> Inl (wc_error wcErrTargetAmbiguous ''conversation has no verified notification PendingIntent'')
            | Some latest \<Rightarrow> Inr latest)"

definition resolveConversationEvent :: "wc_env \<Rightarrow> string \<Rightarrow> WeCom \<Rightarrow> CompanionEvent result \<times> WeCom" where
  "resolveConversationEvent env cid d =
     andThen (check (Companion d) d) (\<lambda>_ d.
     andThen (allEvents env d) (\<lambda>history d.
       (choose_event (eh_Complete history)
          (conversation_events (en_lib env) (wc_package d) (ar_AccountID (wc_account d)) cid (eh_Events history)), d)))"

text \<open>A guard of the frame as a step.\<close>

definition frame_step ::
  "wc_env \<Rightarrow> UISnapshot \<Rightarrow> CompanionEvent \<Rightarrow> chatBinding option \<Rightarrow> bool \<Rightarrow> string \<Rightarrow> WeCom \<Rightarrow> chatFrame result \<times> WeCom"
where
  "frame_step env snapshot event expected requireSend what d =
     (map_sum (\<lambda>err. if what = [] then err else ErrWrapf (what @ '': '') err []) id
        (validateChatFrame (en_u env) snapshot (eventConversationTitle event) expected requireSend), d)"

definition same_frame :: "golib \<Rightarrow> chatFrame \<Rightarrow> chatFrame \<Rightarrow> bool" where
  "same_frame lib a b \<longleftrightarrow>
     ws_Sequence (cf_snapshot a) = ws_Sequence (cf_snapshot b) \<and>
     surfaceContextDigest lib (cf_snapshot a) = surfaceContextDigest lib (cf_snapshot b)"

definition openNotificationConversation :: "wc_env \<Rightarrow> CompanionEvent \<Rightarrow> WeCom \<Rightarrow> chatFrame result \<times> WeCom" where
  "openNotificationConversation env event d =
     andThen (Snapshot env d) (\<lambda>snapshot d.
     andThen (call (stale_because ''open verified conversation notification'' (Act env (open_action (Itoa (ce_Sequence event))) d))) (\<lambda>_ d.
     andThen (waitForSnapshotChange env (ws_Sequence snapshot) d) (\<lambda>opened d.
     andThen (check (Android d) d) (\<lambda>_ d.
     case withForegroundActivity env opened d of (opened, d) \<Rightarrow>
     andThen (frame_step env opened event None False [] d) (\<lambda>frame d.
     andThen (observe env d) (\<lambda>stable d.
     andThen (frame_step env stable event (Some (cf_binding frame)) False [] d) (\<lambda>stableFrame d.
     andThen (refuse_if (\<not> same_frame (en_lib env) stableFrame frame)
       (wc_error wcErrStale ''opened conversation changed before send preparation'') d) (\<lambda>_ d.
       (Inr stableFrame, d)))))))))"

section \<open>The evidence of a send\<close>

text \<open>One look at the conversation: the evidence that counts, if any.\<close>

definition bubble_key ::
  "wc_env \<Rightarrow> chatBinding \<Rightarrow> string \<Rightarrow> nat \<Rightarrow> int \<Rightarrow> UISnapshot \<Rightarrow> chatFrame \<Rightarrow> string option"
where
  "bubble_key env binding txt baseline previous snapshot frame =
     (let evidence = outgoingBubbleEvidence snapshot txt binding
      in if ws_Sequence snapshot > previous \<and> wn_Text (cf_composer frame) \<noteq> txt \<and> length evidence = baseline + 1
         then Some (intercalate [CHR 0x0A] evidence) else None)"

text \<open>\<^verbatim>\<open>stableEvidence\<close> and \<^verbatim>\<open>stableObservations\<close> are \<open>None\<close> or \<open>Some (key, n)\<close>.\<close>

definition stable_after :: "(string \<times> nat) option \<Rightarrow> string option \<Rightarrow> (string \<times> nat) option" where
  "stable_after held key =
     (case key of
        None \<Rightarrow> None
      | Some k \<Rightarrow>
          (case held of
             Some (k', n) \<Rightarrow> if k = k' then Some (k, n + 1) else Some (k, 1)
           | None \<Rightarrow> Some (k, 1)))"

function outgoing_bubble ::
  "wc_env \<Rightarrow> CompanionEvent \<Rightarrow> chatBinding \<Rightarrow> string \<Rightarrow> nat \<Rightarrow> int \<Rightarrow> time \<Rightarrow> (string \<times> nat) option \<Rightarrow> WeCom \<Rightarrow>
    bool result \<times> WeCom"
where
  "outgoing_bubble env event binding txt baseline previous deadline held d =
     (case observe env d of
        (Inl err, d1) \<Rightarrow> (Inl err, d1)
      | (Inr snapshot, d1) \<Rightarrow>
          (case validateChatFrame (en_u env) snapshot (eventConversationTitle event) (Some binding) False of
             Inl err \<Rightarrow> (Inl err, d1)
           | Inr frame \<Rightarrow>
               let held' = stable_after held (bubble_key env binding txt baseline previous snapshot frame)
               in if (case held' of None \<Rightarrow> False | Some (k, n) \<Rightarrow> n \<ge> 2) then (Inr True, d1)
                  else if wc_now d1 > deadline then (Inr False, d1)
                  else case sleep env (250 * millisecond) d1 of
                      (Some err, d2) \<Rightarrow> (Inl err, d2)
                    | (None, d2) \<Rightarrow> outgoing_bubble env event binding txt baseline previous deadline held' d2))"
  by pat_completeness auto
termination
proof (relation "measure (\<lambda>(env, event, binding, txt, baseline, previous, deadline, held, d). nat (deadline + 1 - wc_now d))",
    simp, clarify)
  fix env event binding t baseline previous deadline held d snapshot d1 frame held' e d2
  assume a: "(Inr snapshot, d1) = observe env d" "\<not> deadline < wc_now d1" "(None, d2) = sleep env (250 * millisecond) d1"
  have "wc_now d \<le> wc_now d1" using a(1) [symmetric] by simp
  moreover have "wc_now d1 + 250 * millisecond \<le> wc_now d2" using a(3) [symmetric] by (rule sleep_now)
  ultimately show "((env, event, binding, t, baseline, previous, deadline, held', d2),
      (env, event, binding, t, baseline, previous, deadline, held, d)) \<in>
      measure (\<lambda>(env, event, binding, txt, baseline, previous, deadline, held, d). nat (deadline + 1 - wc_now d))"
    using a(2) by simp
qed

declare outgoing_bubble.simps [simp del]

definition waitForDirectionalOutgoingBubble ::
  "wc_env \<Rightarrow> CompanionEvent \<Rightarrow> chatBinding \<Rightarrow> string \<Rightarrow> nat \<Rightarrow> int \<Rightarrow> duration \<Rightarrow> WeCom \<Rightarrow> bool result \<times> WeCom"
where
  "waitForDirectionalOutgoingBubble env event binding txt baseline previous timeout d =
     outgoing_bubble env event binding txt baseline previous (wc_now d + timeout) None d"

section \<open>Send\<close>

definition wecomSendDigest :: "golib \<Rightarrow> SendRequest \<Rightarrow> string" where
  "wecomSendDigest lib r = EncodeToString (lb_sha256 lib (lb_marshal lib (JObj
     ((''conversation_id'', JStr (rq_ConversationID r)) # omitempty ''text'' (rq_Text r) @
      [(''idempotency_key'', JStr [])]))))"

definition rememberSend :: "string \<Rightarrow> string \<Rightarrow> SendResult \<Rightarrow> WeCom \<Rightarrow> WeCom" where
  "rememberSend key digest result d =
     d\<lparr>wc_sendMemos := (wc_sendMemos d)(key \<mapsto> \<lparr>wm_digest = digest, wm_result = result\<rparr>)\<rparr>"

definition set_text_action :: "chatFrame \<Rightarrow> string \<Rightarrow> CompanionAction" where
  "set_text_action frame txt =
     \<lparr>cact_Kind = ActionSetText, cact_NodeID = wn_ID (cf_composer frame), cact_Text = txt,
      cact_ExpectedSequence = ws_Sequence (cf_snapshot frame)\<rparr>"

definition send_click_action :: "chatFrame \<Rightarrow> CompanionAction" where
  "send_click_action frame =
     \<lparr>cact_Kind = ActionClick, cact_NodeID = wn_ID (cf_send frame), cact_Text = [],
      cact_ExpectedSequence = ws_Sequence (cf_snapshot frame)\<rparr>"

definition uncertain_result :: "string \<Rightarrow> SendResult" where
  "uncertain_result detail = \<lparr>sr_MessageID = [], sr_Verified = False, sr_Uncertain = True, sr_Detail = detail\<rparr>"

definition verified_result :: "golib \<Rightarrow> string \<Rightarrow> SendResult" where
  "verified_result lib key =
     \<lparr>sr_MessageID = ''wecom-ui-'' @ digestID lib key, sr_Verified = True, sr_Uncertain = False,
      sr_Detail = ''a stable new right-aligned outbound bubble was observed in the bound official conversation''\<rparr>"

definition click_detail :: string where
  "click_detail = ''send action may have reached the official client, but its result was not observed''"

text \<open>The click and what follows it: every outcome but a certain failure of the click is remembered.\<close>

definition click_and_verify ::
  "wc_env \<Rightarrow> SendRequest \<Rightarrow> CompanionEvent \<Rightarrow> chatFrame \<Rightarrow> nat \<Rightarrow> chatFrame \<Rightarrow> WeCom \<Rightarrow> SendResult result \<times> WeCom"
where
  "click_and_verify env req event frame baseline again d =
     (let remember = (\<lambda>result d. (Inr result, rememberSend (rq_IdempotencyKey req) (wecomSendDigest (en_lib env) req) result d))
      in case Act env (send_click_action again) d of
          (Some err, d) \<Rightarrow>
            if \<not> errors_Is err ErrActionOutcomeUncertain then (Inl err, d) else remember (uncertain_result click_detail) d
        | (None, d) \<Rightarrow>
            (case waitForDirectionalOutgoingBubble env event (cf_binding frame) (rq_Text req) baseline
                    (ws_Sequence (cf_snapshot again)) (8 * second) d of
               (Inr True, d) \<Rightarrow> remember (verified_result (en_lib env) (rq_IdempotencyKey req)) d
             | (_, d) \<Rightarrow> remember (uncertain_result (Error wcErrSendUncertain)) d))"

text \<open>
  The comparison of the two prepared frames. The last conjunct is Go's \<^verbatim>\<open>==\<close> on the structs of the send
  controls, which compares their pointers.
\<close>

definition prepared_unchanged :: "wc_env \<Rightarrow> string \<Rightarrow> chatFrame \<Rightarrow> chatFrame \<Rightarrow> bool" where
  "prepared_unchanged env txt prepared again \<longleftrightarrow>
     same_frame (en_lib env) again prepared \<and> wn_Text (cf_composer again) = txt \<and> cf_send again = cf_send prepared"

definition prepare_and_send ::
  "wc_env \<Rightarrow> SendRequest \<Rightarrow> CompanionEvent \<Rightarrow> chatFrame \<Rightarrow> WeCom \<Rightarrow> SendResult result \<times> WeCom"
where
  "prepare_and_send env req event frame d =
     (let baseline = length (outgoingBubbleEvidence (cf_snapshot frame) (rq_Text req) (cf_binding frame))
      in andThen (call (Act env (set_text_action frame (rq_Text req)) d)) (\<lambda>_ d.
         andThen (waitForSnapshotChange env (ws_Sequence (cf_snapshot frame)) d) (\<lambda>updated d.
         andThen (check (Android d) d) (\<lambda>_ d.
         case withForegroundActivity env updated d of (updated, d) \<Rightarrow>
         andThen (frame_step env updated event (Some (cf_binding frame)) True ''revalidate message composer after setting text'' d) (\<lambda>prepared d.
         andThen (refuse_if (wn_Text (cf_composer prepared) \<noteq> rq_Text req)
           (wc_error wcErrStale ''message composer did not contain the exact requested text'') d) (\<lambda>_ d.
         andThen (observe env d) (\<lambda>verified d.
         andThen (frame_step env verified event (Some (cf_binding frame)) True ''revalidate message composer before send'' d) (\<lambda>again d.
         andThen (refuse_if (\<not> prepared_unchanged env (rq_Text req) prepared again)
           (wc_error wcErrStale ''prepared message frame changed before send'') d) (\<lambda>_ d.
           click_and_verify env req event frame baseline again d)))))))))"

definition send_request_error :: "SendRequest \<Rightarrow> go_error option" where
  "send_request_error req =
     (if rq_ConversationID req = [] \<or> rq_IdempotencyKey req = []
      then Some (ErrNew ''conversation ID and idempotency key are required'')
      else if rq_Text req = [] \<or> rq_Attachments req \<noteq> [] \<or> rq_ShareSurfaceID req \<noteq> []
      then Some (wc_error wcErrUnsupportedCapability ''v0 WeCom driver sends text only'')
      else None)"

definition wc_Send :: "wc_env \<Rightarrow> SendRequest \<Rightarrow> WeCom \<Rightarrow> SendResult result \<times> WeCom" where
  "wc_Send env req d =
     andThen (check (send_request_error req) d) (\<lambda>_ d.
       case wc_sendMemos d (rq_IdempotencyKey req) of
         Some memo \<Rightarrow>
           if wm_digest memo \<noteq> wecomSendDigest (en_lib env) req
           then (Inl (ErrNew ''idempotency key was already used for different content''), d)
           else (Inr (wm_result memo), d)
       | None \<Rightarrow>
           andThen (check (Companion d) d) (\<lambda>_ d.
           andThen (resolveConversationEvent env (rq_ConversationID req) d) (\<lambda>event d.
           andThen (openNotificationConversation env event d) (\<lambda>frame d.
             prepare_and_send env req event frame d))))"

end
