(* ===== verification/WeCom_Auth.thy ===== *)
theory WeCom_Auth
  imports WeCom_Surface
begin

text \<open>
  Authentication in the WeCom driver (\<^verbatim>\<open>internal/driver/wecom/driver.go\<close>): the capture of a login
  screen between two observations, the actions bound to its image, their execution, and the submission
  of a verification code.
\<close>

section \<open>Actions bound to a screen\<close>

definition acceptPrivacyPolicyAction :: string where "acceptPrivacyPolicyAction = ''accept_privacy_policy''"
definition acceptWeComLoginTermsAction :: string where "acceptWeComLoginTermsAction = ''accept_wecom_login_terms''"
definition continueWeComWithWechatAction :: string where "continueWeComWithWechatAction = ''continue_wecom_with_wechat''"

definition encodeAuthGenerationFrame :: "golib \<Rightarrow> UISnapshot \<Rightarrow> string \<Rightarrow> string" where
  "encodeAuthGenerationFrame lib snapshot accountID = lb_marshal lib (JObj
     [(''account_id'', JStr accountID), (''sequence'', JInt (ws_Sequence snapshot)),
      (''package_name'', JStr (ws_PackageName snapshot)), (''window_id'', JInt (ws_WindowID snapshot)),
      (''window_title'', JStr (ws_WindowTitle snapshot)), (''window_class'', JStr (TrimSpace (ws_WindowClass snapshot))),
      (''nodes'', JList (map json_node (ws_Nodes snapshot)))])"

definition bindAuthActionID :: "golib \<Rightarrow> string \<Rightarrow> UISnapshot \<Rightarrow> string \<Rightarrow> string \<Rightarrow> string" where
  "bindAuthActionID lib operation snapshot png accountID =
     (let encoded = encodeAuthGenerationFrame lib snapshot accountID
      in if encoded = [] \<or> png = [] then []
         else operation @ ''.'' @ EncodeToString (lb_sha256 lib
                (''wechatcopilot/wecom/auth-action/v1'' @ CHR 0x00 # encoded @ CHR 0x00 # png)))"

definition sameAuthenticationObservation :: "golib \<Rightarrow> UISnapshot \<Rightarrow> UISnapshot \<Rightarrow> bool" where
  "sameAuthenticationObservation lib before after \<longleftrightarrow>
     sameSurfaceObservation before after \<and>
     encodeAuthGenerationFrame lib before [] \<noteq> [] \<and> encodeAuthGenerationFrame lib after [] \<noteq> [] \<and>
     lb_sha256 lib (encodeAuthGenerationFrame lib before []) = lb_sha256 lib (encodeAuthGenerationFrame lib after [])"

definition auth_action :: "string \<Rightarrow> string \<Rightarrow> string \<Rightarrow> string \<Rightarrow> AuthAction" where
  "auth_action aid operation label confirmation =
     \<lparr>aa_ID = aid, aa_Label = label, aa_Risk = ''high'', aa_Confirmation = confirmation, aa_RequiresConfirmation = True,
      aa_ImageBound = True, aa_ReplayKey = operation\<rparr>"

definition privacyConsentActions :: "golib \<Rightarrow> UISnapshot \<Rightarrow> string \<Rightarrow> string \<Rightarrow> AuthAction list" where
  "privacyConsentActions lib snapshot png accountID =
     (if snapshotRequiresUserAction (lb_unicode lib) snapshot then []
      else if isl (uniquePrivacyConsentTarget (lb_unicode lib) snapshot) then []
      else if png = [] then []
      else [auth_action (bindAuthActionID lib acceptPrivacyPolicyAction snapshot png accountID) acceptPrivacyPolicyAction
              (utf8 [0x540C, 0x610F, 0x4F01, 0x4E1A, 0x5FAE, 0x4FE1, 0x9690, 0x79C1, 0x653F, 0x7B56, 0x5E76, 0x7EE7, 0x7EED])
              (utf8 [0x8BF7, 0x786E, 0x8BA4, 0x4F60, 0x5DF2, 0x9605, 0x8BFB, 0x5B98, 0x65B9, 0x4F01, 0x4E1A, 0x5FAE, 0x4FE1, 0x5BA2, 0x6237, 0x7AEF, 0x4E2D, 0x663E, 0x793A, 0x7684, 0x9690, 0x79C1, 0x653F, 0x7B56, 0xFF0C, 0x5E76, 0x540C, 0x610F, 0x540E, 0x7EE7, 0x7EED, 0x3002])])"

definition authenticationActions :: "golib \<Rightarrow> UISnapshot \<Rightarrow> string \<Rightarrow> string \<Rightarrow> AuthAction list \<times> string" where
  "authenticationActions lib snapshot png accountID =
     (let u = lb_unicode lib; privacy = privacyConsentActions lib snapshot png accountID
      in if snapshotRequiresUserAction u snapshot then ([], [])
         else if privacy \<noteq> [] then (privacy, ''Review and accept the official WeCom privacy policy to continue'')
         else if hasPrivacyConsentModalMarker u snapshot then ([], [])
         else case weComLoginMethodTargets u snapshot of
             Inl err \<Rightarrow> ([], [])
           | Inr targets \<Rightarrow>
               if png = [] then ([], [])
               else if \<not> weComLoginTermsAccepted (lt_terms targets)
               then ([auth_action (bindAuthActionID lib acceptWeComLoginTermsAction snapshot png accountID) acceptWeComLoginTermsAction
                        (utf8 [0x9605, 0x8BFB, 0x5E76, 0x540C, 0x610F, 0x4F01, 0x4E1A, 0x5FAE, 0x4FE1, 0x767B, 0x5F55, 0x534F, 0x8BAE])
                        (utf8 [0x8BF7, 0x786E, 0x8BA4, 0x4F60, 0x5DF2, 0x9605, 0x8BFB, 0x5B98, 0x65B9, 0x4F01, 0x4E1A, 0x5FAE, 0x4FE1, 0x5BA2, 0x6237, 0x7AEF, 0x4E2D, 0x663E, 0x793A, 0x7684, 0x8F6F, 0x4EF6, 0x8BB8, 0x53EF, 0x53CA, 0x670D, 0x52A1, 0x534F, 0x8BAE, 0x4E0E, 0x9690, 0x79C1, 0x653F, 0x7B56, 0xFF0C, 0x5E76, 0x540C, 0x610F, 0x540E, 0x7EE7, 0x7EED, 0x3002])],
                     ''Review and accept the official WeCom login agreements to continue'')
               else ([auth_action (bindAuthActionID lib continueWeComWithWechatAction snapshot png accountID) continueWeComWithWechatAction
                        (utf8 [0x4F7F, 0x7528, 0x5FAE, 0x4FE1, 0x7EE7, 0x7EED, 0x767B, 0x5F55, 0x4F01, 0x4E1A, 0x5FAE, 0x4FE1])
                        (utf8 [0x8BF7, 0x786E, 0x8BA4, 0x4F7F, 0x7528, 0x5F53, 0x524D, 0x5FAE, 0x4FE1, 0x8EAB, 0x4EFD, 0x7EE7, 0x7EED, 0x767B, 0x5F55, 0x4F01, 0x4E1A, 0x5FAE, 0x4FE1, 0xFF1B, 0x540E, 0x7EED, 0x626B, 0x7801, 0x3001, 0x624B, 0x673A, 0x786E, 0x8BA4, 0x6216, 0x9A8C, 0x8BC1, 0x7801, 0x4ECD, 0x7531, 0x4F60, 0x672C, 0x4EBA, 0x5B8C, 0x6210, 0x3002])],
                     ''Confirm that you want to continue with the current WeChat identity''))"

definition any_hex :: "char \<Rightarrow> bool" where
  "any_hex c \<longleftrightarrow> is_hex c \<or> (CHR ''A'' \<le> c \<and> c \<le> CHR ''F'')"

definition authActionGenerationHexLength :: nat where "authActionGenerationHexLength = 64"

fun parse_operation :: "string list \<Rightarrow> string \<Rightarrow> string option" where
  "parse_operation [] actionID = None"
| "parse_operation (operation # operations) actionID =
     (if \<not> HasPrefix actionID (operation @ ''.'') then parse_operation operations actionID
      else
        let generation = drop (length operation + 1) actionID
        in if length generation \<noteq> authActionGenerationHexLength \<or> ToLower generation \<noteq> generation then None
           else if list_all any_hex generation then Some operation else None)"

definition parseAuthActionID :: "string \<Rightarrow> string option" where
  "parseAuthActionID actionID =
     parse_operation [acceptPrivacyPolicyAction, acceptWeComLoginTermsAction, continueWeComWithWechatAction] actionID"

section \<open>Capture\<close>

definition authScreenshotWindow :: "unicode \<Rightarrow> UISnapshot \<Rightarrow> bool" where
  "authScreenshotWindow u snapshot \<longleftrightarrow>
     \<not> (ws_PackageName snapshot \<noteq> DefaultWeComPackage \<or> ws_Sequence snapshot \<le> 0 \<or> ws_WindowID snapshot < 0 \<or>
        TrimSpace (ws_WindowClass snapshot) = [] \<or> \<not> authenticationSurface u snapshot) \<and>
     (isWeComActivity snapshot weComLoginWxAuthActivity \<or> isWeComActivity snapshot weComSMSVerifyActivity \<or>
      isWeComActivity snapshot weComLaunchActivity)"

definition describeAuthSnapshot :: "golib \<Rightarrow> UISnapshot \<Rightarrow> string \<Rightarrow> string \<Rightarrow> time \<Rightarrow> AuthSnapshot" where
  "describeAuthSnapshot lib snapshot png accountID observed =
     (let u = lb_unicode lib;
          (actions, actionPrompt) = (if authScreenshotWindow u snapshot then authenticationActions lib snapshot png accountID else ([], []));
          (state, prompt) = (if actions \<noteq> [] then (StateAuthRequired, actionPrompt) else classifyLogin u snapshot);
          sms = (authScreenshotWindow u snapshot \<and> validSMSAuthSnapshot u snapshot);
          kind = (if sms then AuthSMS
                  else if state = StateAuthRequired \<and> containsAny u (snapshotText u snapshot) [utf8 [0x4E8C, 0x7EF4, 0x7801], utf8 [0x626B, 0x7801], ''scan''] then AuthQR
                  else AuthPhoneConfirm)
      in \<lparr>as_Kind = kind, as_State = state, as_Prompt = prompt, as_QRCodePNG = [], as_ScreenshotPNG = [],
          as_CanSubmitCode = sms, as_Actions = actions, as_ObservedAt = observed\<rparr>)"

definition captured_result :: "AuthSnapshot \<Rightarrow> string \<Rightarrow> AuthSnapshot" where
  "captured_result r png = r\<lparr>as_ScreenshotPNG := png, as_QRCodePNG := (if as_Kind r = AuthQR then png else as_QRCodePNG r)\<rparr>"

definition captureAuthSnapshot :: "wc_env \<Rightarrow> WeCom \<Rightarrow> (UISnapshot \<times> AuthSnapshot) result \<times> WeCom" where
  "captureAuthSnapshot env d =
     (let u = en_u env; describe = (\<lambda>s png d. describeAuthSnapshot (en_lib env) s png (ar_AccountID (wc_account d)) (wc_now d))
      in andThen (observe env d) (\<lambda>snapshot d.
         if \<not> authScreenshotWindow u snapshot then (Inr (snapshot, describe snapshot [] d), d)
         else
           andThen (Screenshot env d) (\<lambda>png d.
           andThen (observe env d) (\<lambda>verified d.
             if \<not> authScreenshotWindow u verified
             then
               (if as_State (describe verified [] d) = StateOnline then (Inr (verified, describe verified [] d), d)
                else if ws_PackageName verified \<noteq> DefaultWeComPackage
                then (Inl (wc_error wcErrTargetAmbiguous ''authentication image left the official WeCom package''), d)
                else (Inl (wc_error wcErrStale ''authentication image window changed before verification''), d))
             else if \<not> sameAuthenticationObservation (en_lib env) snapshot verified
             then (Inl (wc_error wcErrStale ''authentication image changed during capture''), d)
             else (Inr (verified, captured_result (describe verified png d) png), d)))))"

definition wc_AuthSnapshot :: "wc_env \<Rightarrow> WeCom \<Rightarrow> AuthSnapshot result \<times> WeCom" where
  "wc_AuthSnapshot env d =
     andThen (check (Companion d) d) (\<lambda>_ d.
     andThen (check (Android d) d) (\<lambda>_ d.
     andThen (captureAuthSnapshot env d) (\<lambda>captured d. (Inr (snd captured), d))))"

definition exactImageBoundAuthAction :: "AuthSnapshot \<Rightarrow> string \<Rightarrow> bool" where
  "exactImageBoundAuthAction snapshot actionID \<longleftrightarrow>
     as_State snapshot = StateAuthRequired \<and>
     (case as_Actions snapshot of [a] \<Rightarrow> aa_ID a = actionID \<and> aa_ImageBound a | _ \<Rightarrow> False)"

section \<open>Waiting for the effect of an action\<close>

text \<open>What one observation after the change of the window says: give up, start over, or count it.\<close>

datatype judgement = GiveUp go_error | StartOver | Count

definition official_activity :: "UISnapshot \<Rightarrow> bool" where
  "official_activity snapshot \<longleftrightarrow>
     ws_PackageName snapshot = DefaultWeComPackage \<and>
     HasPrefix (TrimSpace (ws_WindowClass snapshot)) (DefaultWeComPackage @ ''.'')"

definition judge_privacy :: "unicode \<Rightarrow> UISnapshot \<Rightarrow> judgement" where
  "judge_privacy u snapshot =
     (if official_activity snapshot
      then (if snapshotRequiresUserAction u snapshot then GiveUp wcErrUserActionRequired
            else if privacyConsentMarkers u snapshot then StartOver else Count)
      else StartOver)"

definition judge_terms :: "unicode \<Rightarrow> UISnapshot \<Rightarrow> judgement" where
  "judge_terms u snapshot =
     (if snapshotHasHardAuthRisk u snapshot then GiveUp wcErrUserActionRequired
      else case weComLoginMethodTargets u snapshot of
          Inl err \<Rightarrow> StartOver
        | Inr targets \<Rightarrow> if weComLoginTermsAccepted (lt_terms targets) then Count else StartOver)"

definition judge_method :: "unicode \<Rightarrow> UISnapshot \<Rightarrow> judgement" where
  "judge_method u snapshot =
     (if snapshotHasHardAuthRisk u snapshot then GiveUp wcErrUserActionRequired
      else if official_activity snapshot \<and> \<not> hasWeComLoginMethodMarker u snapshot then Count
      else StartOver)"

text \<open>One turn: the snapshot, whether the window has changed by now, and the count of good observations.\<close>

definition judged_turn ::
  "wc_env \<Rightarrow> (UISnapshot \<Rightarrow> judgement) \<Rightarrow> int \<Rightarrow> bool \<Rightarrow> nat \<Rightarrow> WeCom \<Rightarrow> (go_error + bool \<times> nat) \<times> WeCom"
where
  "judged_turn env judge previous changed count d =
     (case Snapshot env d of
        (Inl err, d1) \<Rightarrow> (Inr (changed, 0), d1)
      | (Inr s, d1) \<Rightarrow>
          if \<not> (changed \<or> ws_Sequence s > previous) then (Inr (False, count), d1)
          else case withForegroundActivity env s d1 of
              (s', d2) \<Rightarrow>
                (case judge s' of
                   GiveUp err \<Rightarrow> (Inl err, d2)
                 | StartOver \<Rightarrow> (Inr (True, 0), d2)
                 | Count \<Rightarrow> (Inr (True, count + 1), d2)))"

lemma judged_turn_now: "judged_turn env judge previous changed count d = (r, d1) \<Longrightarrow> wc_now d \<le> wc_now d1"
  by (force simp: judged_turn_def split: sum.splits prod.splits if_splits judgement.splits
      dest!: Snapshot_now withForegroundActivity_now)

function auth_wait ::
  "wc_env \<Rightarrow> (UISnapshot \<Rightarrow> judgement) \<Rightarrow> string \<Rightarrow> int \<Rightarrow> time \<Rightarrow> bool \<Rightarrow> nat \<Rightarrow> WeCom \<Rightarrow> go_error option \<times> WeCom"
where
  "auth_wait env judge late previous deadline changed count d =
     (case judged_turn env judge previous changed count d of
        (Inl err, d1) \<Rightarrow> (Some err, d1)
      | (Inr (changed', count'), d1) \<Rightarrow>
          if count' \<ge> 2 then (None, d1)
          else if wc_now d1 > deadline then (Some (wc_error wcErrStale late), d1)
          else case sleep env (200 * millisecond) d1 of
              (Some err, d2) \<Rightarrow> (Some err, d2)
            | (None, d2) \<Rightarrow> auth_wait env judge late previous deadline changed' count' d2)"
  by pat_completeness auto
termination
proof (relation "measure (\<lambda>(env, judge, late, previous, deadline, changed, count, d). nat (deadline + 1 - wc_now d))",
    simp, clarify)
  fix env judge late previous deadline changed count d changed' count' d1 e d2
  assume a: "(Inr (changed', count'), d1) = judged_turn env judge previous changed count d" "\<not> deadline < wc_now d1"
    "(None, d2) = sleep env (200 * millisecond) d1"
  have "wc_now d \<le> wc_now d1" using a(1) [symmetric] by (rule judged_turn_now)
  moreover have "wc_now d1 + 200 * millisecond \<le> wc_now d2" using a(3) [symmetric] by (rule sleep_now)
  ultimately show "((env, judge, late, previous, deadline, changed', count', d2),
      (env, judge, late, previous, deadline, changed, count, d)) \<in>
      measure (\<lambda>(env, judge, late, previous, deadline, changed, count, d). nat (deadline + 1 - wc_now d))"
    using a(2) by simp
qed

declare auth_wait.simps [simp del]

definition waitForPrivacyConsentDismissal :: "wc_env \<Rightarrow> int \<Rightarrow> WeCom \<Rightarrow> go_error option \<times> WeCom" where
  "waitForPrivacyConsentDismissal env previous d =
     auth_wait env (judge_privacy (en_u env)) ''privacy consent screen did not close'' previous (wc_now d + 10 * second) False 0 d"

definition waitForWeComLoginTermsAccepted :: "wc_env \<Rightarrow> int \<Rightarrow> WeCom \<Rightarrow> go_error option \<times> WeCom" where
  "waitForWeComLoginTermsAccepted env previous d =
     auth_wait env (judge_terms (en_u env)) ''WeCom login agreement control did not become stably selected'' previous
       (wc_now d + 10 * second) False 0 d"

definition waitForWeComLoginMethodDismissal :: "wc_env \<Rightarrow> int \<Rightarrow> WeCom \<Rightarrow> go_error option \<times> WeCom" where
  "waitForWeComLoginMethodDismissal env previous d =
     auth_wait env (judge_method (en_u env)) ''WeCom login method screen did not close safely'' previous
       (wc_now d + 10 * second) False 0 d"

section \<open>Operations\<close>

definition markUncertainAuthActionConsumed :: "go_error \<Rightarrow> go_error option" where
  "markUncertainAuthActionConsumed err =
     (if errors_Is err ErrActionOutcomeUncertain then MarkAuthActionConsumed (Some err) else Some err)"

definition node_action :: "action_kind \<Rightarrow> Node \<Rightarrow> int \<Rightarrow> CompanionAction" where
  "node_action kind n sequence =
     \<lparr>cact_Kind = kind, cact_NodeID = wn_ID n, cact_Text = [], cact_ExpectedSequence = sequence\<rparr>"

text \<open>The action on the screen and the wait for its effect; an error of the wait consumes the action.\<close>

definition act_and_wait ::
  "wc_env \<Rightarrow> CompanionAction \<Rightarrow> (WeCom \<Rightarrow> go_error option \<times> WeCom) \<Rightarrow> WeCom \<Rightarrow> go_error option \<times> WeCom"
where
  "act_and_wait env act wait d =
     (case Act env act d of
        (Some err, d1) \<Rightarrow> (markUncertainAuthActionConsumed err, d1)
      | (None, d1) \<Rightarrow> (case wait d1 of (err, d2) \<Rightarrow> (MarkAuthActionConsumed err, d2)))"

definition perform_operation :: "wc_env \<Rightarrow> string \<Rightarrow> UISnapshot \<Rightarrow> WeCom \<Rightarrow> go_error option \<times> WeCom" where
  "perform_operation env operation snapshot d =
     (let u = en_u env; sequence = ws_Sequence snapshot
      in if operation = acceptPrivacyPolicyAction
         then (case uniquePrivacyConsentTarget u snapshot of
                 Inl err \<Rightarrow> (Some err, d)
               | Inr target \<Rightarrow>
                   act_and_wait env (node_action ActionClick target sequence) (waitForPrivacyConsentDismissal env sequence) d)
         else if operation = acceptWeComLoginTermsAction
         then (case weComLoginMethodTargets u snapshot of
                 Inl err \<Rightarrow> (Some err, d)
               | Inr targets \<Rightarrow>
                   if weComLoginTermsAccepted (lt_terms targets)
                   then (Some (wc_error wcErrStale ''official WeCom login terms are already accepted''), d)
                   else act_and_wait env (node_action ActionCheck (lt_terms targets) sequence)
                          (waitForWeComLoginTermsAccepted env sequence) d)
         else if operation = continueWeComWithWechatAction
         then (case weComLoginMethodTargets u snapshot of
                 Inl err \<Rightarrow> (Some err, d)
               | Inr targets \<Rightarrow>
                   if \<not> weComLoginTermsAccepted (lt_terms targets)
                   then (Some (wc_error wcErrStale ''official WeCom login terms are not accepted''), d)
                   else act_and_wait env (node_action ActionClick (lt_wechat targets) sequence)
                          (waitForWeComLoginMethodDismissal env sequence) d)
         else (Some (wc_error wcErrStale ''authentication action is not advertised''), d))"

text \<open>An \<^verbatim>\<open>error\<close> as the only result of an operation.\<close>

definition error_of :: "go_error option result \<times> WeCom \<Rightarrow> go_error option \<times> WeCom" where
  "error_of m = (case m of (Inl err, d) \<Rightarrow> (Some err, d) | (Inr err, d) \<Rightarrow> (err, d))"

definition wc_PerformAuthAction :: "wc_env \<Rightarrow> string \<Rightarrow> bool \<Rightarrow> WeCom \<Rightarrow> go_error option \<times> WeCom" where
  "wc_PerformAuthAction env actionID confirmed d =
     (case parseAuthActionID actionID of
        None \<Rightarrow> (Some (wc_error wcErrStale ''authentication action is not advertised''), d)
      | Some operation \<Rightarrow>
          if \<not> confirmed
          then (Some (wc_error wcErrUserActionRequired ''authentication action requires explicit user confirmation''), d)
          else error_of
            (andThen (check (Companion d) d) (\<lambda>_ d.
             andThen (check (Android d) d) (\<lambda>_ d.
             andThen (captureAuthSnapshot env d) (\<lambda>captured d.
             andThen (refuse_if (\<not> exactImageBoundAuthAction (snd captured) actionID)
               (wc_error wcErrStale ''authentication action generation is stale'') d) (\<lambda>_ d.
             andThen (refuse_if (snapshotRequiresUserAction (en_u env) (fst captured)) wcErrUserActionRequired d) (\<lambda>_ d.
               map_prod Inr id (perform_operation env operation (fst captured) d))))))))"

definition code_error :: "string \<Rightarrow> go_error option" where
  "code_error code =
     (if length code < 4 \<or> length code > 8 then Some (ErrNew ''verification code must contain 4 to 8 digits'')
      else if \<not> list_all is_digit code then Some (ErrNew ''verification code must contain digits only'')
      else None)"

definition submit_button :: "unicode \<Rightarrow> Node \<Rightarrow> bool" where
  "submit_button u n \<longleftrightarrow>
     wn_Clickable n \<and> wn_Enabled n \<and> wn_VisibleToUser n \<and> usableBounds (wn_Bounds n) \<and>
     matchesAny u (nodeLabel n) [utf8 [0x786E, 0x5B9A], utf8 [0x767B, 0x5F55], utf8 [0x4E0B, 0x4E00, 0x6B65], utf8 [0x9A8C, 0x8BC1], ''submit'',
      ''continue'']"

definition code_action :: "UISnapshot \<Rightarrow> string \<Rightarrow> CompanionAction" where
  "code_action snapshot code =
     \<lparr>cact_Kind = ActionSetText, cact_NodeID = wn_ID (hd (editableNodes snapshot)), cact_Text = code,
      cact_ExpectedSequence = ws_Sequence snapshot\<rparr>"

definition wc_SubmitAuthCode :: "wc_env \<Rightarrow> string \<Rightarrow> WeCom \<Rightarrow> go_error option \<times> WeCom" where
  "wc_SubmitAuthCode env code d =
     (let code = TrimSpace code
      in error_of
        (andThen (check (code_error code) d) (\<lambda>_ d.
         andThen (check (Companion d) d) (\<lambda>_ d.
         andThen (Snapshot env d) (\<lambda>snapshot d.
         andThen (check (Android d) d) (\<lambda>_ d.
         case withForegroundActivity env snapshot d of (snapshot, d) \<Rightarrow>
         andThen (refuse_if (\<not> validSMSAuthSnapshot (en_u env) snapshot)
           (wc_error wcErrStale ''current official screen does not expose a unique SMS verification input'') d) (\<lambda>_ d.
         andThen (call (Act env (code_action snapshot code) d)) (\<lambda>_ d.
         andThen (waitForSnapshotChange env (ws_Sequence snapshot) d) (\<lambda>updated d.
         case withForegroundActivity env updated d of (updated, d) \<Rightarrow>
         andThen (refuse_if (\<not> validSMSAuthSnapshot (en_u env) updated)
           (wc_error wcErrStale ''official SMS verification screen changed before submission'') d) (\<lambda>_ d.
         (case uniqueNode updated (submit_button (en_u env)) of
            Inl err \<Rightarrow> (Inl (ErrWrapf ''submit verification code: '' err []), d)
          | Inr button \<Rightarrow> map_prod Inr id (Act env (node_action ActionClick button (ws_Sequence updated)) d))))))))))))"

end
