(* ===== verification/WeCom_Looks.thy ===== *)
theory WeCom_Looks
  imports WeCom_Send WeCom_Auth
begin

text \<open>
  What the observing functions of the WeCom driver leave alone. \<open>looks\<close> relates the state before such a
  function to the state after it: the driver's fields are the same, the clock has not gone back, and the
  history has grown by observations only.
\<close>

section \<open>Observing\<close>

fun quiet :: "wc_call \<Rightarrow> bool" where
  "quiet (Observed s) \<longleftrightarrow> True"
| "quiet (Foreground a) \<longleftrightarrow> True"
| "quiet Captured \<longleftrightarrow> True"
| "quiet Asked \<longleftrightarrow> True"
| "quiet _ \<longleftrightarrow> False"

definition same_fields :: "WeCom \<Rightarrow> WeCom \<Rightarrow> bool" where
  "same_fields d d' \<longleftrightarrow>
     wc_package d' = wc_package d \<and> wc_running d' = wc_running d \<and> wc_clientVersion d' = wc_clientVersion d \<and>
     wc_account d' = wc_account d \<and> wc_surfaces d' = wc_surfaces d \<and> wc_sendMemos d' = wc_sendMemos d"

definition looks :: "WeCom \<Rightarrow> WeCom \<Rightarrow> bool" where
  "looks d d' \<longleftrightarrow> same_fields d d' \<and> (\<exists>es. wc_trace d' = wc_trace d @ es \<and> list_all quiet es)"

text \<open>The interface of the observing functions: what is composed of them is one of them.\<close>

locale observing =
  fixes rel :: "WeCom \<Rightarrow> WeCom \<Rightarrow> bool"
  assumes refl [intro, simp]: "rel d d"
    and trans [trans]: "rel d d1 \<Longrightarrow> rel d1 d2 \<Longrightarrow> rel d d2"
    and by_call: "quiet c \<Longrightarrow> rel d (called env c d)"
    and by_time: "rel d (d\<lparr>wc_now := t\<rparr>)"
begin

lemma by_Snapshot: "Snapshot env d = (r, d') \<Longrightarrow> rel d d'"
  by (auto simp: Snapshot_def Let_def intro: by_call split: sum.splits)

lemma by_Events: "Events env after limit d = (r, d') \<Longrightarrow> rel d d'"
  by (auto simp: Events_def intro: by_call)

lemma by_Screenshot: "Screenshot env d = (r, d') \<Longrightarrow> rel d d'"
  by (auto simp: Screenshot_def intro: by_call)

lemma by_withForegroundActivity: "withForegroundActivity env s d = (r, d') \<Longrightarrow> rel d d'"
  by (auto simp: withForegroundActivity_def intro: by_call split: sum.splits if_splits)

lemma by_observe: "observe env d = (r, d') \<Longrightarrow> rel d d'"
  by (auto simp: observe_def split: sum.splits prod.splits dest!: by_Snapshot by_withForegroundActivity intro: trans)

lemma by_sleep: "sleep env dur d = (r, d') \<Longrightarrow> rel d d'"
  by (auto simp: sleep_def intro: by_time split: option.splits)

lemma by_snapshot_change: "snapshot_change env previous deadline d = (r, d') \<Longrightarrow> rel d d'"
proof (induction env previous deadline d arbitrary: r d' rule: snapshot_change.induct)
  case (1 env previous deadline d)
  obtain r1 d1 where s: "Snapshot env d = (r1, d1)" by fastforce
  obtain e d2 where z: "sleep env (200 * millisecond) d1 = (e, d2)" by fastforce
  from 1 s z have "d' = d1 \<or> d' = d2 \<or> rel d2 d'"
    by (auto simp: snapshot_change.simps [of env previous deadline d] split: if_splits option.splits sum.splits)
  with s z show ?case by (metis by_Snapshot by_sleep trans refl)
qed

lemma by_waitForSnapshotChange: "waitForSnapshotChange env previous d = (r, d') \<Longrightarrow> rel d d'"
  unfolding waitForSnapshotChange_def by (rule by_snapshot_change)

lemma by_all_events: "all_events env seen whole cursor d = (r, d') \<Longrightarrow> rel d d'"
proof (induction env seen whole cursor d arbitrary: r d' rule: all_events.induct)
  case (1 env seen whole cursor d)
  define limit where "limit = min 500 (2000 - int (length seen))"
  obtain r0 d0 where e0: "Events env (sint cursor) 1 d = (r0, d0)" by fastforce
  obtain r1 d1 where e1: "Events env (sint cursor) limit d = (r1, d1)" by fastforce
  have "d' = d0 \<or> d' = d1 \<or> rel d1 d'"
    using 1 e0 e1 unfolding limit_def
    by (auto simp: all_events.simps [of env seen whole cursor d] Let_def split: if_splits sum.splits)
  with e0 e1 show ?case by (metis by_Events trans)
qed

lemma by_allEvents: "allEvents env d = (r, d') \<Longrightarrow> rel d d'"
  unfolding allEvents_def by (rule by_all_events)

lemma by_outgoing_bubble:
  "outgoing_bubble env event binding txt baseline previous deadline held d = (r, d') \<Longrightarrow> rel d d'"
proof (induction env event binding "txt" baseline previous deadline held d arbitrary: r d' rule: outgoing_bubble.induct)
  case (1 env event binding t baseline previous deadline held d)
  obtain r1 d1 where s: "observe env d = (r1, d1)" by fastforce
  obtain e d2 where z: "sleep env (250 * millisecond) d1 = (e, d2)" by fastforce
  from 1 s z have "d' = d1 \<or> d' = d2 \<or> rel d2 d'"
    by (auto simp: outgoing_bubble.simps [of env event binding t baseline previous deadline held d] Let_def
        split: if_splits option.splits sum.splits prod.splits)
  with s z show ?case by (metis by_observe by_sleep trans refl)
qed

lemma by_judged_turn: "judged_turn env judge previous changed count d = (r, d') \<Longrightarrow> rel d d'"
  by (force simp: judged_turn_def split: sum.splits prod.splits if_splits judgement.splits
      dest!: by_Snapshot by_withForegroundActivity intro: trans)

lemma by_auth_wait: "auth_wait env judge late previous deadline changed count d = (r, d') \<Longrightarrow> rel d d'"
proof (induction env judge late previous deadline changed count d arbitrary: r d' rule: auth_wait.induct)
  case (1 env judge late previous deadline changed count d)
  obtain r1 d1 where s: "judged_turn env judge previous changed count d = (r1, d1)" by fastforce
  obtain e d2 where z: "sleep env (200 * millisecond) d1 = (e, d2)" by fastforce
  from 1 s z have "d' = d1 \<or> d' = d2 \<or> rel d2 d'"
    by (auto simp: auth_wait.simps [of env judge late previous deadline changed count d]
        split: if_splits option.splits sum.splits prod.splits)
  with s z show ?case by (metis by_judged_turn by_sleep trans refl)
qed

lemma by_prepareSurfaceSnapshot: "prepareSurfaceSnapshot env s d = (r, d') \<Longrightarrow> rel d d'"
  by (auto simp: prepareSurfaceSnapshot_def andThen_def check_def split: if_splits sum.splits prod.splits option.splits
      dest: by_withForegroundActivity)

text \<open>The same facts as rules for the state after a composed function, seen from where it began.\<close>

lemma after: "rel d d1 \<Longrightarrow> (\<And>r d'. m = (r, d') \<Longrightarrow> rel d1 d') \<Longrightarrow> rel d (snd m)"
  by (cases m) (auto intro: trans)

lemma after_andThen:
  assumes "rel d (snd m)" and "\<And>x d1. m = (Inr x, d1) \<Longrightarrow> rel d d1 \<Longrightarrow> rel d (snd (f x d1))"
  shows "rel d (snd (andThen m f))"
  using assms by (auto simp: andThen_def split: prod.splits sum.splits)

lemma after_pair:
  assumes "rel d (snd m)" and "\<And>x d1. m = (x, d1) \<Longrightarrow> rel d d1 \<Longrightarrow> rel d (snd (f x d1))"
  shows "rel d (snd (case m of (x, d1) \<Rightarrow> f x d1))"
  using assms by (cases m) auto

lemma andThen_error:
  assumes "andThen m f = (Inl err, d')" and "rel d (snd m)"
    and "\<And>x d1. m = (Inr x, d1) \<Longrightarrow> rel d d1 \<Longrightarrow> f x d1 = (Inl err, d') \<Longrightarrow> rel d d'"
  shows "rel d d'"
  using assms by (auto simp: andThen_def split: prod.splits sum.splits)

lemma after_check: "rel d d1 \<Longrightarrow> rel d (snd (check err d1))"
  by (auto simp: check_def split: option.splits)

lemma after_refuse_if: "rel d d1 \<Longrightarrow> rel d (snd (refuse_if b err d1))"
  unfolding refuse_if_def by (rule after_check)

lemma after_call: "rel d (snd m) \<Longrightarrow> rel d (snd (call m))"
  unfolding call_def by (rule after_check)

lemma after_Snapshot: "rel d d1 \<Longrightarrow> rel d (snd (Snapshot env d1))"
  by (rule after) (auto dest: by_Snapshot)

lemma after_observe: "rel d d1 \<Longrightarrow> rel d (snd (observe env d1))"
  by (rule after) (auto dest: by_observe)

lemma after_withForegroundActivity: "rel d d1 \<Longrightarrow> rel d (snd (withForegroundActivity env s d1))"
  by (rule after) (auto dest: by_withForegroundActivity)

lemma after_Screenshot: "rel d d1 \<Longrightarrow> rel d (snd (Screenshot env d1))"
  by (rule after) (auto dest: by_Screenshot)

lemma after_allEvents: "rel d d1 \<Longrightarrow> rel d (snd (allEvents env d1))"
  by (rule after) (auto dest: by_allEvents)

lemma after_Events: "rel d d1 \<Longrightarrow> rel d (snd (Events env cursor limit d1))"
  by (rule after) (auto dest: by_Events)

lemma after_waitForSnapshotChange: "rel d d1 \<Longrightarrow> rel d (snd (waitForSnapshotChange env previous d1))"
  by (rule after) (auto dest: by_waitForSnapshotChange)

lemma after_prepareSurfaceSnapshot: "rel d d1 \<Longrightarrow> rel d (snd (prepareSurfaceSnapshot env s d1))"
  by (rule after) (auto dest: by_prepareSurfaceSnapshot)

lemma after_frame_step: "rel d d1 \<Longrightarrow> rel d (snd (frame_step env s event expected req what d1))"
  by (simp add: frame_step_def)

lemma after_done: "rel d d1 \<Longrightarrow> rel d (snd (r, d1))"
  by simp

lemmas after_calls = after_Snapshot after_observe after_withForegroundActivity after_Screenshot after_Events after_allEvents
  after_waitForSnapshotChange after_prepareSurfaceSnapshot after_frame_step after_check after_refuse_if after_done

lemmas after_steps = after_andThen after_pair after_call after_calls

end

lemma snd_stale_because [simp]: "snd (stale_because t m) = snd m"
  by (simp add: stale_because_def)

lemma stale_because_simps [simp]:
  "stale_because t (None, d) = (None, d)"
  "stale_because t m = (None, d') \<longleftrightarrow> m = (None, d')"
  by (cases m; auto simp: stale_because_def)+

interpretation look: observing looks
proof (unfold_locales, goal_cases)
  case (2 d d1 d2)
  then show ?case unfolding looks_def same_fields_def by fastforce
qed (auto simp: looks_def same_fields_def)

lemma looks_same_fields: "looks d d' \<Longrightarrow> same_fields d d'"
  by (simp add: looks_def)

lemma looks_fields:
  assumes "looks d d'"
  shows "wc_package d' = wc_package d" "wc_running d' = wc_running d" "wc_account d' = wc_account d"
    "wc_surfaces d' = wc_surfaces d" "wc_sendMemos d' = wc_sendMemos d"
  using assms by (simp_all add: looks_def same_fields_def)

lemma looks_length: "looks d d' \<Longrightarrow> length (wc_trace d) \<le> length (wc_trace d')"
  by (auto simp: looks_def)

section \<open>Where a snapshot comes from\<close>

lemma map_sum_is_Inr [simp]: "map_sum f g x = Inr y \<longleftrightarrow> (\<exists>z. x = Inr z \<and> y = g z)"
  by (cases x) auto

lemma Snapshot_InrD:
  assumes "Snapshot env d = (Inr s, d')"
  shows "\<exists>st m w. en_snapshot env (length (wc_trace d)) = HttpResponse st m (Inr w) \<and>
      s = UnmarshalSnapshot (length (wc_trace d)) w" and "wc_trace d' = wc_trace d @ [Observed s]"
proof -
  show "wc_trace d' = wc_trace d @ [Observed s]"
    using assms by (auto simp: Snapshot_def Let_def split: sum.splits)
  show "\<exists>st m w. en_snapshot env (length (wc_trace d)) = HttpResponse st m (Inr w) \<and>
      s = UnmarshalSnapshot (length (wc_trace d)) w"
    using assms
    by (cases "en_snapshot env (length (wc_trace d))")
      (auto simp: Snapshot_def Let_def split: sum.splits if_splits)
qed

text \<open>The snapshot is what the companion answered at call \<open>n\<close>.\<close>

definition decoded :: "wc_env \<Rightarrow> nat \<Rightarrow> UISnapshot \<Rightarrow> bool" where
  "decoded env n s \<longleftrightarrow> (\<exists>st m w. en_snapshot env n = HttpResponse st m (Inr w) \<and> s = UnmarshalSnapshot n w)"

lemma Snapshot_decoded: "Snapshot env d = (Inr s, d') \<Longrightarrow> decoded env (length (wc_trace d)) s"
  unfolding decoded_def by (rule Snapshot_InrD)

text \<open>A decoded pointer has the number of its call in its address.\<close>

lemma decoded_selected:
  assumes "decoded env n s" and "v \<in> set (ws_Nodes s)" and "wn_Selected v = Some ((k, i), b)"
  shows "k = n"
  using assms by (auto simp: decoded_def UnmarshalSnapshot_def allocate_def enumerate_eq_zip)

lemma decoded_present:
  assumes "decoded env n s"
    and "\<forall>st m w. en_snapshot env n = HttpResponse st m (Inr w) \<longrightarrow> (\<forall>v \<in> set (ws_Nodes (wire_fields w)). wn_Selected v \<noteq> None)"
    and "v \<in> set (ws_Nodes s)"
  shows "\<exists>i b. wn_Selected v = Some ((n, i), b)"
proof -
  from assms(1) obtain st m w where w: "en_snapshot env n = HttpResponse st m (Inr w)" "s = UnmarshalSnapshot n w"
    unfolding decoded_def by blast
  with assms(3) obtain i v0 where "v0 \<in> set (ws_Nodes (wire_fields w))"
      "v = v0\<lparr>wn_Selected := map_option (\<lambda>(address, b). ((n, i), b)) (wn_Selected v0)\<rparr>"
    by (auto simp: UnmarshalSnapshot_def allocate_def enumerate_eq_zip dest: set_zip_rightD)
  with assms(2) w(1) show ?thesis by fastforce
qed

lemma waitForSnapshotChange_last:
  assumes "waitForSnapshotChange env previous d = (Inr s, d')"
  shows "\<exists>d0. looks d d0 \<and> Snapshot env d0 = (Inr s, d') \<and> previous < ws_Sequence s"
proof -
  have "snapshot_change env previous deadline d = (Inr s, d') \<Longrightarrow>
      \<exists>d0. looks d d0 \<and> Snapshot env d0 = (Inr s, d') \<and> previous < ws_Sequence s" for deadline
  proof (induction env previous deadline d rule: snapshot_change.induct)
    case (1 env previous deadline d)
    obtain r1 d1 where s: "Snapshot env d = (r1, d1)" by fastforce
    show ?case
    proof (cases "case r1 of Inl err \<Rightarrow> False | Inr s \<Rightarrow> ws_Sequence s > previous")
      case True
      then show ?thesis
        using "1.prems" s by (auto simp: snapshot_change.simps [of env previous deadline d] split: sum.splits)
    next
      case False
      obtain e d2 where z: "sleep env (200 * millisecond) d1 = (e, d2)" by fastforce
      have more: "\<not> deadline < wc_now d1" "e = None" "snapshot_change env previous deadline d2 = (Inr s, d')"
        using "1.prems" s z False
        by (auto simp: snapshot_change.simps [of env previous deadline d] split: if_splits option.splits)
      have "looks d d2" using s z by (metis look.by_Snapshot look.by_sleep look.trans)
      moreover have "\<exists>d0. looks d2 d0 \<and> Snapshot env d0 = (Inr s, d') \<and> previous < ws_Sequence s"
        using "1.IH" [OF s [symmetric] False more(1), of e d2] more z by simp
      ultimately show ?thesis by (meson look.trans)
    qed
  qed
  then show ?thesis using assms unfolding waitForSnapshotChange_def .
qed

end
