(* ===== verification/WeCom_Fold.thy ===== *)
theory WeCom_Fold
  imports WeCom_Text
begin

text \<open>
  Facts about \<open>semanticFold\<close>: decoding undoes the encoding of runes, so a text given by its code points
  is folded rune by rune, and what a reader does not see does not change what a marker matches.
\<close>

section \<open>Encoding and decoding\<close>

definition valid_rune :: "rune \<Rightarrow> bool" where
  "valid_rune r \<longleftrightarrow> 0 \<le> r \<and> r \<le> 0x10FFFF \<and> \<not> (0xD800 \<le> r \<and> r \<le> 0xDFFF)"

lemma in_range_char_of: "in_range lo hi (char_of (i :: int)) \<longleftrightarrow> int lo \<le> i mod 256 \<and> i mod 256 \<le> int hi"
proof -
  have "(of_char (char_of i) :: nat) = nat (i mod 256)" by (subst nat_of_char [symmetric]) simp
  then show ?thesis by (simp add: in_range_def le_nat_iff nat_le_iff)
qed

lemma digits64:
  fixes r :: int
  shows "r div 4096 * 4096 + r div 64 mod 64 * 64 + r mod 64 = r"
    and "r div 262144 * 262144 + r div 4096 mod 64 * 4096 + r div 64 mod 64 * 64 + r mod 64 = r"
proof -
  have "r div 4096 = r div 64 div 64" "r div 262144 = r div 4096 div 64"
    by (simp_all add: div_mult2_eq [symmetric] flip: zdiv_zmult2_eq)
  then show "r div 4096 * 4096 + r div 64 mod 64 * 64 + r mod 64 = r"
      "r div 262144 * 262144 + r div 4096 mod 64 * 4096 + r div 64 mod 64 * 64 + r mod 64 = r"
    using div_mult_mod_eq [of r 64] div_mult_mod_eq [of "r div 64" 64] div_mult_mod_eq [of "r div 4096" 64] by linarith+
qed

lemma digit64_range: "0 \<le> (r :: int) mod 64" "r mod 64 < 64" by simp_all

lemma in_range_byte: "0 \<le> i \<Longrightarrow> i < 256 \<Longrightarrow> in_range lo hi (char_of (i :: int)) \<longleftrightarrow> int lo \<le> i \<and> i \<le> int hi"
  by (simp add: in_range_char_of)

lemma width_1: "0 \<le> a \<Longrightarrow> a < 0x80 \<Longrightarrow> rune_width (char_of (a :: int) # s) = 1"
  by (simp add: rune_width_def utf8_tail_def in_range_byte)

lemma width_2:
  fixes a b :: int
  assumes "0xC2 \<le> a" "a \<le> 0xDF" "0x80 \<le> b" "b \<le> 0xBF"
  shows "rune_width (char_of a # char_of b # s) = 2"
  using assms by (simp add: rune_width_def utf8_tail_def in_range_byte Let_def)

lemma width_3:
  fixes a b c :: int
  assumes "0xE0 \<le> a" "a \<le> 0xEF" "0x80 \<le> b" "b \<le> 0xBF" "0x80 \<le> c" "c \<le> 0xBF"
    and "a = 0xE0 \<Longrightarrow> 0xA0 \<le> b" and "a = 0xED \<Longrightarrow> b \<le> 0x9F"
  shows "rune_width (char_of a # char_of b # char_of c # s) = 3"
  using assms by (cases "a = 0xE0"; cases "a = 0xED") (simp_all add: rune_width_def utf8_tail_def in_range_byte Let_def)

lemma width_4:
  fixes a b c e :: int
  assumes "0xF0 \<le> a" "a \<le> 0xF4" "0x80 \<le> b" "b \<le> 0xBF" "0x80 \<le> c" "c \<le> 0xBF" "0x80 \<le> e" "e \<le> 0xBF"
    and "a = 0xF0 \<Longrightarrow> 0x90 \<le> b" and "a = 0xF4 \<Longrightarrow> b \<le> 0x8F"
  shows "rune_width (char_of a # char_of b # char_of c # char_of e # s) = 4"
  using assms by (cases "a = 0xF0"; cases "a = 0xF4") (simp_all add: rune_width_def utf8_tail_def in_range_byte Let_def)

text \<open>The four lengths of an encoding, with what their bytes satisfy.\<close>

lemma EncodeRune_cases:
  assumes "valid_rune r"
  obtains (one) "0 \<le> r" "r < 0x80" "EncodeRune r = [char_of r]"
  | (two) a b where "EncodeRune r = [char_of (0xC0 + a), char_of (0x80 + b)]" "2 \<le> a" "a < 32" "0 \<le> b" "b < 64" "r = a * 64 + b"
  | (three) a b c where "EncodeRune r = [char_of (0xE0 + a), char_of (0x80 + b), char_of (0x80 + c)]"
      "0 \<le> a" "a < 16" "0 \<le> b" "b < 64" "0 \<le> c" "c < 64" "r = a * 4096 + b * 64 + c"
      "a = 0 \<Longrightarrow> 32 \<le> b" "a = 13 \<Longrightarrow> b < 32"
  | (four) a b c e where
      "EncodeRune r = [char_of (0xF0 + a), char_of (0x80 + b), char_of (0x80 + c), char_of (0x80 + e)]"
      "0 \<le> a" "a \<le> 4" "0 \<le> b" "b < 64" "0 \<le> c" "c < 64" "0 \<le> e" "e < 64"
      "r = a * 262144 + b * 4096 + c * 64 + e" "a = 0 \<Longrightarrow> 16 \<le> b" "a = 4 \<Longrightarrow> b < 16"
proof -
  have r: "0 \<le> r" "r \<le> 0x10FFFF" "\<not> (0xD800 \<le> r \<and> r \<le> 0xDFFF)" using assms by (simp_all add: valid_rune_def)
  note digits = digit64_range [of r] digit64_range [of "r div 64"] digit64_range [of "r div 4096"]
  consider "r < 0x80" | "0x80 \<le> r" "r < 0x800" | "0x800 \<le> r" "r < 0x10000" | "0x10000 \<le> r" by linarith
  then show thesis
  proof cases
    case 1
    with r show ?thesis by (intro one) (simp_all add: EncodeRune_def)
  next
    case 2
    have d: "r div 64 * 64 + r mod 64 = r" by simp
    with 2 digits have "2 \<le> r div 64" "r div 64 < 32" by linarith+
    moreover have "EncodeRune r = [char_of (0xC0 + r div 64), char_of (0x80 + r mod 64)]" using 2 r by (auto simp: EncodeRune_def)
    ultimately show ?thesis using d digits two by metis
  next
    case 3
    note d = digits64(1) [of r]
    have "EncodeRune r = [char_of (0xE0 + r div 4096), char_of (0x80 + r div 64 mod 64), char_of (0x80 + r mod 64)]"
      using 3 r by (auto simp: EncodeRune_def)
    moreover have "0 \<le> r div 4096" "r div 4096 < 16" using 3 d digits by linarith+
    moreover have "r div 4096 = 0 \<Longrightarrow> 32 \<le> r div 64 mod 64" using 3 d digits by linarith
    moreover have "r div 4096 = 13 \<Longrightarrow> r div 64 mod 64 < 32" using 3 r d digits by linarith
    ultimately show ?thesis using d digits three by metis
  next
    case 4
    note d = digits64(2) [of r]
    have "EncodeRune r = [char_of (0xF0 + r div 262144), char_of (0x80 + r div 4096 mod 64), char_of (0x80 + r div 64 mod 64),
        char_of (0x80 + r mod 64)]"
      using 4 r by (simp add: EncodeRune_def)
    moreover have "0 \<le> r div 262144" "r div 262144 \<le> 4" using 4 r d digits by linarith+
    moreover have "r div 262144 = 0 \<Longrightarrow> 16 \<le> r div 4096 mod 64" using 4 d digits by linarith
    moreover have "r div 262144 = 4 \<Longrightarrow> r div 4096 mod 64 < 16" using 4 r d digits by linarith
    ultimately show ?thesis using d digits four by metis
  qed
qed

lemma EncodeRune_width:
  assumes "valid_rune r"
  shows "rune_width (EncodeRune r @ s) = length (EncodeRune r)"
  using assms
proof (cases rule: EncodeRune_cases)
  case (three a b c)
  moreover have "a = 13 \<Longrightarrow> b \<le> 31" using three(10) by linarith
  ultimately show ?thesis using width_3 [of "0xE0 + a" "0x80 + b" "0x80 + c" s] by simp
next
  case (four a b c e)
  moreover have "a = 4 \<Longrightarrow> b \<le> 15" using four(12) by linarith
  ultimately show ?thesis using width_4 [of "0xF0 + a" "0x80 + b" "0x80 + c" "0x80 + e" s] by simp
qed (simp_all add: width_1 width_2)

lemma EncodeRune_nonempty [simp]: "EncodeRune r \<noteq> []"
  by (simp add: EncodeRune_def Let_def)

lemma rune_value_EncodeRune:
  assumes "valid_rune r"
  shows "rune_value (EncodeRune r) = r"
  using assms by (cases rule: EncodeRune_cases) (simp_all add: rune_value_def)

lemma rune_values_Nil [simp]: "rune_values [] = []"
  by (simp add: rune_values_def runes.simps [of "[]"])

lemma utf8_simps [simp]: "utf8 [] = []" "utf8 (r # rs) = EncodeRune r @ utf8 rs"
  by (simp_all add: utf8_def)

lemma rune_values_utf8: "list_all valid_rune rs \<Longrightarrow> rune_values (utf8 rs) = rs"
proof (induction rs)
  case (Cons r rs)
  then have "valid_rune r" by simp
  then have "runes (utf8 (r # rs)) = EncodeRune r # runes (utf8 rs)"
    by (subst runes.simps) (simp add: EncodeRune_width)
  with Cons \<open>valid_rune r\<close> show ?case by (simp add: rune_values_def rune_value_EncodeRune)
qed simp

lemma utf8_inject: "list_all valid_rune rs \<Longrightarrow> list_all valid_rune ss \<Longrightarrow> utf8 rs = utf8 ss \<longleftrightarrow> rs = ss"
  by (metis rune_values_utf8)

section \<open>What a reader sees\<close>

text \<open>A full-width form is read as the ASCII character; ignorable runes are not seen.\<close>

definition narrow :: "rune \<Rightarrow> rune" where
  "narrow c = (if 0xFF01 \<le> c \<and> c \<le> 0xFF5E then c - 0xFEE0 else c)"

definition seen_runes :: "rune list \<Rightarrow> rune list" where
  "seen_runes rs = map narrow (filter (\<lambda>c. \<not> defaultIgnorableRune c) rs)"

lemma fold_rune_seen: "List.map_filter (fold_rune u) rs = map (\<lambda>c. if c = 0x3000 then 0x20 else un_ToLower u c) (seen_runes rs)"
  by (induction rs) (auto simp: List.map_filter_def seen_runes_def fold_rune_def narrow_def Let_def)

lemma semanticFold_seen:
  assumes "list_all valid_rune rs" and "list_all valid_rune ss" and "seen_runes rs = seen_runes ss"
  shows "semanticFold u (utf8 rs) = semanticFold u (utf8 ss)"
  using assms by (simp add: semanticFold_def semantic_runes_def rune_values_utf8 fold_rune_seen)

text \<open>A marker cannot be hidden by characters that are not seen. Two texts, given by their code points, that
  differ only in default-ignorable characters (zero-width spaces, joiners, direction marks, variation
  selectors, control characters, fillers) and in full-width forms of ASCII characters match the same
  markers: in whole, as a part, and as a part between word boundaries, whatever the Unicode tables are.\<close>

theorem disguised_text_matches:
  assumes "list_all valid_rune rs" and "list_all valid_rune ss" and "seen_runes rs = seen_runes ss"
  shows "containsAny u (utf8 rs) markers = containsAny u (utf8 ss) markers \<and>
    matchesAny u (utf8 rs) markers = matchesAny u (utf8 ss) markers \<and>
    hasSemanticMarker u (utf8 rs) markers = hasSemanticMarker u (utf8 ss) markers"
  using semanticFold_seen [OF assms] by (simp add: containsAny_def matchesAny_def hasSemanticMarker_def)

text \<open>The word \<open>pay\<close> with a zero-width space and a full-width letter.\<close>

theorem disguised_text_matches_witness:
  "containsAny u (utf8 [0x70, 0x200B, 0xFF41, 0x79]) markers = containsAny u (utf8 [0x70, 0x61, 0x79]) markers"
proof -
  have "list_all valid_rune [0x70, 0x200B, 0xFF41, 0x79]" "list_all valid_rune [0x70, 0x61, 0x79]"
    by (simp_all add: valid_rune_def)
  moreover have "seen_runes [0x70, 0x200B, 0xFF41, 0x79] = seen_runes [0x70, 0x61, 0x79]" by code_simp
  ultimately show ?thesis by (rule conjunct1 [OF disguised_text_matches])
qed

end
