(* ===== verification/WeCom_Sample.thy ===== *)
theory WeCom_Sample
  imports WeCom_Send WeCom_Fold
begin

text \<open>
  A sample run: small Unicode tables, a hash, one conversation with its screens, and a companion that
  answers from them. The theorems about the WeCom driver are applied to it.
\<close>

section \<open>Evaluation\<close>

text \<open>The bytes of an encoding are compared as integers.\<close>

definition byte_range :: "int \<Rightarrow> int \<Rightarrow> char \<Rightarrow> bool" where
  "byte_range lo hi c \<longleftrightarrow> lo \<le> of_char c \<and> of_char c \<le> hi"

lemma in_range_int: "in_range lo hi = byte_range (int lo) (int hi)"
proof
  fix c
  have "(of_char c :: int) = int (of_char c)" by (rule of_nat_of_char [symmetric])
  then show "in_range lo hi c = byte_range (int lo) (int hi) c" by (simp add: in_range_def byte_range_def)
qed

lemma utf8_tail_int [code]:
  "utf8_tail c =
     (let cont = byte_range 0x80 0xBF
      in if byte_range 0x00 0x7F c then Some []
         else if byte_range 0xC2 0xDF c then Some [cont]
         else if byte_range 0xE0 0xE0 c then Some [byte_range 0xA0 0xBF, cont]
         else if byte_range 0xED 0xED c then Some [byte_range 0x80 0x9F, cont]
         else if byte_range 0xE1 0xEF c then Some [cont, cont]
         else if byte_range 0xF0 0xF0 c then Some [byte_range 0x90 0xBF, cont, cont]
         else if byte_range 0xF1 0xF3 c then Some [cont, cont, cont]
         else if byte_range 0xF4 0xF4 c then Some [byte_range 0x80 0x8F, cont, cont]
         else None)"
  unfolding utf8_tail_def Let_def by (simp add: in_range_int)

section \<open>The library\<close>

definition s_unicode :: unicode where
  "s_unicode = \<lparr>un_ToLower = (\<lambda>c. if 65 \<le> c \<and> c \<le> 90 then c + 32 else c),
     un_IsLetter = (\<lambda>c. 97 \<le> c \<and> c \<le> 122), un_IsDigit = (\<lambda>c. 48 \<le> c \<and> c \<le> 57)\<rparr>"

fun s_marshal :: "json \<Rightarrow> string" where
  "s_marshal JNull = ''null''"
| "s_marshal (JBool b) = (if b then ''true'' else ''false'')"
| "s_marshal (JInt i) = Itoa i"
| "s_marshal (JStr s) = quoted s"
| "s_marshal (JTime t) = quoted (FormatRFC3339Nano t)"
| "s_marshal (JList vs) = ''['' @ concat (map s_marshal vs) @ '']''"
| "s_marshal (JObj fs) = ''{'' @ concat (map (\<lambda>(k, v). k @ '':'' @ s_marshal v) fs) @ ''}''"

definition s_sha256 :: "string \<Rightarrow> 8 word list" where
  "s_sha256 s = (let h = foldl (\<lambda>h c. (h * 31 + of_char c) mod 65521) 7 s in [word_of_int (h div 256), word_of_int (h mod 256)])"

definition s_lib :: golib where
  "s_lib = \<lparr>lb_unicode = s_unicode, lb_sha256 = s_sha256, lb_marshal = s_marshal\<rparr>"

section \<open>The screens\<close>

definition s_node :: "string \<Rightarrow> string \<Rightarrow> string \<Rightarrow> int \<times> int \<times> int \<times> int \<Rightarrow> Node" where
  "s_node nid parent t b = (case b of (l, tp, r, bt) \<Rightarrow>
     zero_Node\<lparr>wn_ID := nid, wn_ParentID := parent, wn_Text := t, wn_VisibleToUser := True, wn_Enabled := True,
       wn_Bounds := \<lparr>wb_Left = l, wb_Top = tp, wb_Right = r, wb_Bottom = bt\<rparr>\<rparr>)"

definition s_composer :: "string \<Rightarrow> Node" where
  "s_composer t = (s_node ''0/1/0'' ''0/1'' t (10, 730, 300, 790))\<lparr>wn_Editable := True\<rparr>"

definition s_send :: Node where
  "s_send = (s_node ''0/1/1'' ''0/1'' ''Send'' (310, 730, 390, 790))\<lparr>wn_Clickable := True\<rparr>"

definition s_nodes :: "string \<Rightarrow> bool \<Rightarrow> Node list" where
  "s_nodes typed bubble =
     [s_node ''0'' [] [] (0, 0, 400, 800), s_node ''0/0'' ''0'' [] (0, 0, 400, 80),
      s_node ''0/0/0'' ''0/0'' ''Ann'' (100, 20, 300, 60), s_node ''0/1'' ''0'' [] (0, 720, 400, 800),
      s_composer typed, s_send] @
     (if bubble then [s_node ''0/2'' ''0'' [] (300, 400, 390, 460), s_node ''0/2/0'' ''0/2'' ''hi'' (310, 410, 380, 450)] else [])"

definition s_snapshot :: "int \<Rightarrow> string \<Rightarrow> bool \<Rightarrow> UISnapshot" where
  "s_snapshot sequence typed bubble =
     \<lparr>ws_Sequence = sequence, ws_PackageName = DefaultWeComPackage, ws_WindowID = 1, ws_WindowTitle = ''Ann'',
      ws_WindowClass = weComConversationActivity, ws_CapturedAt = 0, ws_Nodes = s_nodes typed bubble\<rparr>"

section \<open>No label is a marker\<close>

lemma no_challenge:
  "containsAny s_unicode [] securityChallengeMarkers = False" 
  "containsAny s_unicode ''Ann'' securityChallengeMarkers = False" 
  "containsAny s_unicode ''hi'' securityChallengeMarkers = False" 
  "containsAny s_unicode ''Send'' securityChallengeMarkers = False" 
  by code_simp+

lemma s_activity:
  "strings_ToLower s_unicode (TrimSpace weComConversationActivity) = ''com.tencent.wework.msg.controller.conversationactivity''"
  "TrimSpace weComConversationActivity = weComConversationActivity"
  "strings_ToLower s_unicode weComConversationActivity = ''com.tencent.wework.msg.controller.conversationactivity''"
  by code_simp+

lemma no_risk:
  "containsAny s_unicode ''com.tencent.wework.msg.controller.conversationactivity'' highRiskActivityMarkers = False"
  by code_simp

lemma s_evidence:
  "nodeSemanticEvidence s_unicode (s_composer []) = []" "nodeSemanticEvidence s_unicode (s_composer ''hi'') = ''hi''"
  "nodeSemanticEvidence s_unicode s_send = ''Send''"
  "nodeSemanticEvidence s_unicode (s_node nid parent [] b) = []"
  "nodeSemanticEvidence s_unicode (s_node nid parent ''Ann'' b) = ''Ann''"
  "nodeSemanticEvidence s_unicode (s_node nid parent ''hi'' b) = ''hi''"
proof -
  have text_only: "nodeSemanticEvidence s_unicode n = nodeSemanticEvidence s_unicode (zero_Node\<lparr>wn_Text := wn_Text n\<rparr>)"
    if "wn_ContentDescription n = []" "wn_ViewID n = []" "wn_ClassName n = []" for n
    using that by (simp add: nodeSemanticEvidence_def nodeSemanticValues_def nodeUserFacingValues_def zero_Node_def)
  have plain: "nodeSemanticEvidence s_unicode (zero_Node\<lparr>wn_Text := []\<rparr>) = []"
    "nodeSemanticEvidence s_unicode (zero_Node\<lparr>wn_Text := ''hi''\<rparr>) = ''hi''"
    "nodeSemanticEvidence s_unicode (zero_Node\<lparr>wn_Text := ''Ann''\<rparr>) = ''Ann''"
    "nodeSemanticEvidence s_unicode (zero_Node\<lparr>wn_Text := ''Send''\<rparr>) = ''Send''"
    by code_simp+
  show "nodeSemanticEvidence s_unicode (s_composer []) = []" "nodeSemanticEvidence s_unicode (s_composer ''hi'') = ''hi''"
    "nodeSemanticEvidence s_unicode s_send = ''Send''"
    "nodeSemanticEvidence s_unicode (s_node nid parent [] b) = []"
    "nodeSemanticEvidence s_unicode (s_node nid parent ''Ann'' b) = ''Ann''"
    "nodeSemanticEvidence s_unicode (s_node nid parent ''hi'' b) = ''hi''"
    by (subst text_only; simp add: s_composer_def s_send_def s_node_def zero_Node_def prod.case_eq_if
        plain [unfolded zero_Node_def, simplified])+
qed

lemma s_snapshot_simps [simp]:
  "ws_Sequence (s_snapshot q typed bubble) = q" "ws_PackageName (s_snapshot q typed bubble) = DefaultWeComPackage"
  "ws_WindowID (s_snapshot q typed bubble) = 1" "ws_WindowClass (s_snapshot q typed bubble) = weComConversationActivity"
  "ws_WindowTitle (s_snapshot q typed bubble) = ''Ann''"
  "ws_Nodes (s_snapshot q typed bubble) = s_nodes typed bubble"
  "(s_snapshot q typed bubble)\<lparr>ws_WindowClass := weComConversationActivity\<rparr> = s_snapshot q typed bubble"
  by (simp_all add: s_snapshot_def)

lemma s_conversation [simp]:
  "isWeComActivity (s_snapshot q typed bubble) activity \<longleftrightarrow> activity = weComConversationActivity"
  by (auto simp: isWeComActivity_def s_activity)

text \<open>The texts that the composer takes.\<close>

abbreviation s_typed :: "string \<Rightarrow> bool" where "s_typed t \<equiv> t = [] \<or> t = ''hi''"

lemma s_no_challenge:
  assumes "s_typed t"
  shows "structuredSecurityChallenge s_unicode (s_snapshot q t bubble) = False"
proof -
  have "matchingNodes (s_snapshot q t bubble) (\<lambda>n. wn_VisibleToUser n \<and> containsAny s_unicode (nodeSemanticEvidence s_unicode n) securityChallengeMarkers) = []"
    using assms by (auto simp: matchingNodes_def s_nodes_def s_evidence no_challenge)
  then show ?thesis by (simp add: structuredSecurityChallenge_def Let_def s_activity)
qed

lemma s_chain:
  "wrapper_chain 2 (index_nodes (filter (\<lambda>n. wn_ID n \<noteq> []) (s_nodes [] False))) s_send s_send = []"
  "wrapper_chain 2 (index_nodes (filter (\<lambda>n. wn_ID n \<noteq> []) (s_nodes ''hi'' False))) s_send s_send = []"
  "wrapper_chain 2 (index_nodes (filter (\<lambda>n. wn_ID n \<noteq> []) (s_nodes [] True))) s_send s_send = []"
  "wrapper_chain 2 (index_nodes (filter (\<lambda>n. wn_ID n \<noteq> []) (s_nodes ''hi'' True))) s_send s_send = []"
  by code_simp+

lemma s_send_alone:
  assumes "s_typed t"
  shows "actionSemanticNodes (s_snapshot q t bubble) s_send = [s_send]"
proof -
  have "filter (bound_candidate (index_nodes (filter (\<lambda>n. wn_ID n \<noteq> []) (s_nodes t bubble))) s_send) (s_nodes t bubble) = []"
    by (auto simp: s_nodes_def bound_candidate_def s_composer_def s_send_def s_node_def zero_Node_def boundsContains_def boundsInside_def)
  moreover have "wrapper_chain 2 (index_nodes (filter (\<lambda>n. wn_ID n \<noteq> []) (s_nodes t bubble))) s_send s_send = []"
    using assms s_chain by (cases bubble) auto
  ultimately show ?thesis by (simp add: actionSemanticNodes_def)
qed

lemma s_no_sensitive: "sensitiveConversationControl s_unicode (s_snapshot 1 [] False) s_send = False"
  by code_simp

lemma s_send_not_sensitive:
  assumes "s_typed t"
  shows "sensitiveConversationControl s_unicode (s_snapshot q t bubble) s_send = False"
  using s_no_sensitive unfolding sensitiveConversationControl_def by (simp add: s_send_alone assms)

lemma s_no_high_risk:
  assumes "s_typed t"
  shows "surfaceHighRisk s_unicode (s_snapshot q t bubble) = False"
proof -
  have "\<not> (wn_Clickable n \<or> wn_Checkable n)" if "n \<in> set (s_nodes t bubble)" "n \<noteq> s_send" for n
    using that by (auto simp: s_nodes_def s_composer_def s_node_def zero_Node_def split: if_splits)
  then show ?thesis using s_send_not_sensitive [OF assms]
    by (auto simp: surfaceHighRisk_def structuredHighRiskSurface_def Let_def s_activity no_risk list_ex_iff)
qed

lemma s_no_agreement:
  assumes "s_typed t"
  shows "hasWeComLoginAgreementControl (s_snapshot q t bubble) = False"
  by (auto simp: hasWeComLoginAgreementControl_def s_nodes_def isWeComLoginAgreementImage_def androidImageViewClass_def
      s_composer_def s_send_def s_node_def zero_Node_def)

lemma s_frame_context:
  assumes "s_typed t" and "0 < q"
  shows "frame_context s_unicode (s_snapshot q t bubble) = None"
  using assms(2)
  by (simp add: frame_context_def snapshotRequiresUserAction_def s_no_challenge [OF assms(1)] s_no_high_risk [OF assms(1)]
      authenticationSurface_def hasWeComLoginMethodMarker_def hasPrivacyConsentModalMarker_def structuredSMSFallback_def
      structuredQRFallback_def s_no_agreement [OF assms(1)] weComConversationActivity_def weComLoginWxAuthActivity_def
      weComSMSVerifyActivity_def)

section \<open>The frames of the conversation\<close>

definition s_root :: Node where "s_root = s_node ''0'' [] [] (0, 0, 400, 800)"
definition s_top :: Node where "s_top = s_node ''0/0'' ''0'' [] (0, 0, 400, 80)"
definition s_header :: Node where "s_header = s_node ''0/0/0'' ''0/0'' ''Ann'' (100, 20, 300, 60)"
definition s_footer :: Node where "s_footer = s_node ''0/1'' ''0'' [] (0, 720, 400, 800)"

definition s_binding :: chatBinding where
  "s_binding = frame_binding s_unicode (s_snapshot 1 [] False) ''Ann'' (wn_Bounds s_root) s_header s_top (s_composer []) s_footer"

definition s_frame :: "int \<Rightarrow> string \<Rightarrow> bool \<Rightarrow> chatFrame" where
  "s_frame q t bubble = \<lparr>cf_snapshot = s_snapshot q t bubble, cf_binding = s_binding, cf_composer = s_composer t, cf_send = s_send\<rparr>"

abbreviation s_case :: "string \<Rightarrow> bool \<Rightarrow> bool" where
  "s_case t bubble \<equiv> t = [] \<and> \<not> bubble \<or> t = ''hi'' \<and> \<not> bubble \<or> t = [] \<and> bubble"

lemma s_index:
  assumes "s_case t bubble"
  shows "\<not> isl (uniqueNodeIndex (s_nodes t bubble))"
proof -
  have "\<not> isl (uniqueNodeIndex (s_nodes [] False))" "\<not> isl (uniqueNodeIndex (s_nodes ''hi'' False))"
    "\<not> isl (uniqueNodeIndex (s_nodes [] True))" by code_simp+
  then show ?thesis using assms by auto
qed

definition s_byID :: "string \<Rightarrow> bool \<Rightarrow> node_index" where
  "s_byID t bubble = projr (uniqueNodeIndex (s_nodes t bubble))"

lemma s_viewport:
  "frame_viewport (s_byID [] False) = Inr (wn_Bounds s_root)" "frame_viewport (s_byID ''hi'' False) = Inr (wn_Bounds s_root)"
  "frame_viewport (s_byID [] True) = Inr (wn_Bounds s_root)"
  by code_simp+

lemma s_headers:
  "frame_header s_unicode (s_snapshot 1 [] False) ''Ann'' (s_byID [] False) (wn_Bounds s_root) = Inr (s_header, s_top)"
  "frame_header s_unicode (s_snapshot 1 ''hi'' False) ''Ann'' (s_byID ''hi'' False) (wn_Bounds s_root) = Inr (s_header, s_top)"
  "frame_header s_unicode (s_snapshot 1 [] True) ''Ann'' (s_byID [] True) (wn_Bounds s_root) = Inr (s_header, s_top)"
  by code_simp+

lemma s_composers:
  "frame_composer (s_snapshot 1 [] False) (s_byID [] False) (wn_Bounds s_root) = Inr (s_composer [], s_footer)"
  "frame_composer (s_snapshot 1 ''hi'' False) (s_byID ''hi'' False) (wn_Bounds s_root) = Inr (s_composer ''hi'', s_footer)"
  "frame_composer (s_snapshot 1 [] True) (s_byID [] True) (wn_Bounds s_root) = Inr (s_composer [], s_footer)"
  by code_simp+

lemma s_sends:
  "uniqueNearbySend s_unicode (s_snapshot 1 [] False) s_binding = Inr s_send"
  "uniqueNearbySend s_unicode (s_snapshot 1 ''hi'' False) s_binding = Inr s_send"
  "uniqueNearbySend s_unicode (s_snapshot 1 [] True) s_binding = Inr s_send"
  by code_simp+

lemma s_apart: "isDescendantOrSelf (wn_ID s_header) (wn_ID s_footer) = False"
  "wb_Bottom (wn_Bounds s_header) \<ge> wb_Top (wn_Bounds s_footer) \<longleftrightarrow> False"
  by code_simp+

lemma s_title: "TrimSpace ''Ann'' = ''Ann''" by code_simp

lemma s_sequence_free:
  "frame_header u (s_snapshot q t bubble) title byID viewport = frame_header u (s_snapshot 1 t bubble) title byID viewport"
  "frame_composer (s_snapshot q t bubble) byID viewport = frame_composer (s_snapshot 1 t bubble) byID viewport"
  "uniqueNearbySend u (s_snapshot q t bubble) binding = uniqueNearbySend u (s_snapshot 1 t bubble) binding"
  by (simp_all add: frame_header_def frame_composer_def uniqueNearbySend_def matchingNodes_def)

lemma s_binding_of:
  "frame_binding s_unicode (s_snapshot q t bubble) ''Ann'' (wn_Bounds s_root) s_header s_top (s_composer t) s_footer = s_binding"
  by (simp add: frame_binding_def s_binding_def identityForSurface_def s_composer_def s_node_def)

lemma s_frames:
  assumes "s_case t bubble" and "0 < q" and "expected = None \<or> expected = Some s_binding"
  shows "validateChatFrame s_unicode (s_snapshot q t bubble) ''Ann'' expected requireSend = Inr (s_frame q t bubble)"
proof -
  have typed: "s_typed t" using assms(1) by auto
  have index: "uniqueNodeIndex (s_nodes t bubble) = Inr (s_byID t bubble)"
    using s_index [OF assms(1)] by (simp add: s_byID_def)
  have v: "frame_viewport (s_byID t bubble) = Inr (wn_Bounds s_root)"
    "frame_header s_unicode (s_snapshot q t bubble) ''Ann'' (s_byID t bubble) (wn_Bounds s_root) = Inr (s_header, s_top)"
    "frame_composer (s_snapshot q t bubble) (s_byID t bubble) (wn_Bounds s_root) = Inr (s_composer t, s_footer)"
    "uniqueNearbySend s_unicode (s_snapshot q t bubble) s_binding = Inr s_send"
    unfolding s_sequence_free [where q = q] using assms(1) by (auto simp: s_viewport s_headers s_composers s_sends)
  have "bind_frame s_unicode (s_snapshot q t bubble) expected requireSend s_binding (s_composer t) = Inr (s_frame q t bubble)"
    using assms(3) by (auto simp: bind_frame_def v(4) s_frame_def)
  then show ?thesis
    by (simp add: validateChatFrame_def Let_def s_title s_frame_context [OF typed assms(2)] index v(1-3) s_binding_of s_apart)
qed

section \<open>The companion and the request\<close>

definition s_key :: string where "s_key = replicate 64 (CHR ''a'')"

definition s_event :: CompanionEvent where
  "s_event = \<lparr>ce_Sequence = 1, ce_Kind = ''notification'', ce_PackageName = DefaultWeComPackage, ce_ConversationKey = s_key,
     ce_Conversation = ''Ann'', ce_Sender = ''Ann'', ce_Title = ''Ann'', ce_Text = ''hello'', ce_Openable = True, ce_PostedAt = 0,
     ce_GapBefore = False\<rparr>"

text \<open>What the window shows at a call: the event is opened after the third, the text appears after the
  ninth, and the bubble after the fourteenth.\<close>

definition s_screen :: "nat \<Rightarrow> UISnapshot" where
  "s_screen n = (if n \<le> 2 then s_snapshot 1 [] False else if n \<le> 8 then s_snapshot 2 [] False
     else if n \<le> 13 then s_snapshot 3 ''hi'' False else s_snapshot 4 [] True)"

definition s_env :: wc_env where
  "s_env = \<lparr>en_lib = s_lib, en_latency = (\<lambda>_. 0), en_oversleep = (\<lambda>_. 0), en_ctx = (\<lambda>_. None),
     en_snapshot = (\<lambda>n. HttpResponse 200 [] (Inr \<lparr>wire_WindowID = Some 1, wire_fields = s_screen n\<rparr>)),
     en_events = (\<lambda>n after limit. HttpResponse 200 [] (Inr
       (if after = 0 then \<lparr>ep_Events = [s_event], ep_NextCursor = 1, ep_Complete = True\<rparr>
        else \<lparr>ep_Events = [], ep_NextCursor = 1, ep_Complete = True\<rparr>))),
     en_action = (\<lambda>n a. HttpResponse 200 [] (Inr \<lparr>rep_Accepted = Some True, rep_Sequence = 0, rep_Detail = []\<rparr>)),
     en_screenshot = (\<lambda>n. Inr []), en_activity = (\<lambda>n. Inr weComConversationActivity)\<rparr>"

definition s_runtime :: AccountRuntime where
  "s_runtime = \<lparr>ar_AccountID = ''a'', ar_Alias = [], ar_StateDir = [], ar_RuntimeDir = []\<rparr>"

definition s_driver :: WeCom where
  "s_driver = \<lparr>wc_package = DefaultWeComPackage, wc_running = True, wc_clientVersion = [], wc_account = s_runtime,
     wc_surfaces = Map.empty, wc_sendMemos = Map.empty, wc_now = 0, wc_trace = []\<rparr>"

definition s_request :: SendRequest where
  "s_request = \<lparr>rq_ConversationID = wc_conversationID s_lib ''a'' s_key, rq_Text = ''hi'', rq_Attachments = [],
     rq_ShareSurfaceID = [], rq_IdempotencyKey = ''k''\<rparr>"

section \<open>The run\<close>

lemma s_wire: "UnmarshalSnapshot n \<lparr>wire_WindowID = Some 1, wire_fields = s_screen k\<rparr> = s_screen k"
proof -
  have "allocate n (s_nodes t bubble) = s_nodes t bubble" for t bubble
    by (simp add: allocate_def s_nodes_def s_composer_def s_send_def s_node_def zero_Node_def)
  then show ?thesis by (simp add: UnmarshalSnapshot_def s_screen_def s_snapshot_def)
qed

lemma s_look: "Snapshot s_env d = (Inr (s_screen (length (wc_trace d))), called s_env (Observed (s_screen (length (wc_trace d)))) d)"
  by (simp add: Snapshot_def s_env_def Let_def s_wire)

abbreviation s_foreground :: wc_call where "s_foreground \<equiv> Foreground (Some weComConversationActivity)"

lemma s_probe: "withForegroundActivity s_env (s_snapshot q t bubble) d = (s_snapshot q t bubble, called s_env s_foreground d)"
  by (simp add: withForegroundActivity_def s_env_def)

lemma s_now [simp]: "wc_now (called s_env c d) = wc_now d"
  by (simp add: called_def s_env_def)

lemma s_en [simp]: "en_lib s_env = s_lib" "en_ctx s_env n = None" "lb_unicode s_lib = s_unicode"
  by (simp_all add: s_env_def s_lib_def)

lemma s_act: "validateCompanionAction a = None \<Longrightarrow> Act s_env a d = (None, called s_env (Acted a Accepted) d)"
  by (simp add: Act_def act_result_def) (simp add: s_env_def act_result_def)

lemma s_journal:
  "Events s_env after limit d =
     (Inr (if after = 0 then \<lparr>ep_Events = [s_event], ep_NextCursor = 1, ep_Complete = True\<rparr>
       else \<lparr>ep_Events = [], ep_NextCursor = 1, ep_Complete = True\<rparr>), called s_env Asked d)"
  by (simp add: Events_def s_env_def Let_def)

lemma s_history: "allEvents s_env d = (Inr \<lparr>eh_Events = [s_event], eh_Complete = True\<rparr>, called s_env Asked (called s_env Asked d))"
  by (simp add: allEvents_def all_events.simps [of s_env] s_journal)

lemma s_choice:
  "choose_event True (conversation_events s_lib DefaultWeComPackage ''a'' (rq_ConversationID s_request) [s_event]) = Inr s_event"
  by code_simp

lemma s_driver_simps [simp]:
  "wc_running s_driver" "wc_package s_driver = DefaultWeComPackage" "ar_AccountID (wc_account s_driver) = ''a''"
  "wc_sendMemos s_driver = Map.empty" "wc_trace s_driver = []" "wc_now s_driver = 0"
  by (simp_all add: s_driver_def s_runtime_def)

lemma s_resolve:
  "resolveConversationEvent s_env (rq_ConversationID s_request) s_driver =
     (Inr s_event, called s_env Asked (called s_env Asked s_driver))"
  by (simp add: resolveConversationEvent_def andThen_def check_def Companion_def s_history s_choice)

lemma s_observe:
  "s_screen (length (wc_trace d)) = s_snapshot q t bubble \<Longrightarrow>
     observe s_env d = (Inr (s_snapshot q t bubble), called s_env s_foreground (called s_env (Observed (s_snapshot q t bubble)) d))"
  by (simp add: observe_def s_look s_probe)

lemma s_wait:
  "s_screen (length (wc_trace d)) = s_snapshot q t bubble \<Longrightarrow> previous < q \<Longrightarrow>
     waitForSnapshotChange s_env previous d = (Inr (s_snapshot q t bubble), called s_env (Observed (s_snapshot q t bubble)) d)"
  by (simp add: waitForSnapshotChange_def snapshot_change.simps [of s_env] s_look)

lemma s_event_title: "eventConversationTitle s_event = ''Ann''" by code_simp

lemma s_step:
  "s_case t bubble \<Longrightarrow> 0 < q \<Longrightarrow> expected = None \<or> expected = Some s_binding \<Longrightarrow>
     frame_step s_env (s_snapshot q t bubble) s_event expected requireSend what d = (Inr (s_frame q t bubble), d)"
  by (simp add: frame_step_def s_event_title s_frames)

lemma s_frame_simps [simp]:
  "cf_snapshot (s_frame q t bubble) = s_snapshot q t bubble" "cf_binding (s_frame q t bubble) = s_binding"
  "cf_composer (s_frame q t bubble) = s_composer t" "cf_send (s_frame q t bubble) = s_send" "wn_Text (s_composer t) = t"
  by (simp_all add: s_frame_def s_composer_def s_node_def)

lemma s_open_ok: "validateCompanionAction (open_action (Itoa (ce_Sequence s_event))) = None" by code_simp

definition s_first :: "wc_call list" where
  "s_first = [Asked, Asked, Observed (s_snapshot 1 [] False), Acted (open_action (Itoa (ce_Sequence s_event))) Accepted,
     Observed (s_snapshot 2 [] False), s_foreground, Observed (s_snapshot 2 [] False), s_foreground]"

definition s_after :: "wc_call list \<Rightarrow> WeCom" where
  "s_after cs = s_driver\<lparr>wc_trace := cs\<rparr>"

lemma s_after_simps [simp]:
  "called s_env c (s_after cs) = s_after (cs @ [c])" "wc_running (s_after cs)" "wc_trace (s_after cs) = cs" "wc_now (s_after cs) = 0"
  "wc_package (s_after cs) = DefaultWeComPackage" "wc_account (s_after cs) = wc_account s_driver" "wc_sendMemos (s_after cs) = Map.empty"
  by (simp_all add: s_after_def called_def s_env_def s_driver_def)

lemma s_driver_after: "s_driver = s_after []"
  by (simp add: s_after_def s_driver_def)

lemma s_opened:
  "openNotificationConversation s_env s_event (s_after [Asked, Asked]) = (Inr (s_frame 2 [] False), s_after s_first)"
  by (simp add: openNotificationConversation_def call_def stale_because_def check_def refuse_if_def Android_def
      s_look s_screen_def s_act s_open_ok s_wait s_probe s_observe s_step same_frame_def s_first_def)

lemma s_bubbles:
  "outgoingBubbleEvidence (s_snapshot 1 [] False) ''hi'' s_binding = []"
  "length (outgoingBubbleEvidence (s_snapshot 1 [] True) ''hi'' s_binding) = 1"
  by code_simp+

lemma s_evidence_free:
  "outgoingBubbleEvidence (s_snapshot q t bubble) txt binding = outgoingBubbleEvidence (s_snapshot 1 t bubble) txt binding"
  unfolding outgoingBubbleEvidence_def bubble_evidence_def s_snapshot_simps by (rule refl)

lemma s_actions_ok:
  "validateCompanionAction (set_text_action (s_frame 2 [] False) ''hi'') = None"
  "validateCompanionAction (send_click_action (s_frame 3 ''hi'' False)) = None"
  by (simp_all add: validateCompanionAction_def set_text_action_def send_click_action_def s_composer_def s_send_def s_node_def)

definition s_click :: CompanionAction where "s_click = send_click_action (s_frame 3 ''hi'' False)"

definition s_shown :: "wc_call list" where
  "s_shown = [Observed (s_snapshot 4 [] True), s_foreground, Observed (s_snapshot 4 [] True), s_foreground]"

definition s_before :: "wc_call list" where
  "s_before = s_first @ [Acted (set_text_action (s_frame 2 [] False) ''hi'') Accepted,
     Observed (s_snapshot 3 ''hi'' False), s_foreground, Observed (s_snapshot 3 ''hi'' False), s_foreground]"

definition s_done :: WeCom where
  "s_done = rememberSend ''k'' (wecomSendDigest s_lib s_request) (verified_result s_lib ''k'')
     ((s_after (s_before @ Acted s_click Accepted # s_shown))\<lparr>wc_now := 250 * millisecond\<rparr>)"

lemma s_request_simps [simp]: "rq_Text s_request = ''hi''" "rq_IdempotencyKey s_request = ''k''" "send_request_error s_request = None"
  by (simp_all add: s_request_def send_request_error_def wc_conversationID_def)

lemma s_later [simp]: "called s_env c ((s_after cs)\<lparr>wc_now := now\<rparr>) = (s_after (cs @ [c]))\<lparr>wc_now := now\<rparr>"
  by (simp add: s_after_def called_def s_env_def)

lemma s_oversleep: "en_oversleep s_env n = 0"
  by (simp add: s_env_def)

lemma s_before_length [simp]: "length s_before = 13"
  by (simp add: s_before_def s_first_def)

lemma s_stable: "bubble_key s_env s_binding ''hi'' 0 3 (s_snapshot 4 [] True) (s_frame 4 [] True) =
    Some (intercalate [CHR 0x0A] (outgoingBubbleEvidence (s_snapshot 1 [] True) ''hi'' s_binding))"
  using s_bubbles(2) by (simp add: bubble_key_def Let_def s_evidence_free [of 4])

lemma s_sent: "wc_Send s_env s_request s_driver = (Inr (verified_result s_lib ''k''), s_done)"
proof -
  let ?clicked = "s_after (s_before @ [Acted s_click Accepted])"
  let ?seen = "s_after (s_before @ Acted s_click Accepted # [Observed (s_snapshot 4 [] True), s_foreground])"
  let ?key = "intercalate [CHR 0x0A] (outgoingBubbleEvidence (s_snapshot 1 [] True) ''hi'' s_binding)"
  have two: "outgoing_bubble s_env s_event s_binding ''hi'' 0 3 (8 * second) (Some (?key, 1)) (?seen\<lparr>wc_now := 250 * millisecond\<rparr>) =
      (Inr True, (s_after (s_before @ Acted s_click Accepted # s_shown))\<lparr>wc_now := 250 * millisecond\<rparr>)"
    by (subst outgoing_bubble.simps)
      (simp add: s_observe s_screen_def s_event_title s_frames s_stable stable_after_def s_shown_def)
  have "outgoing_bubble s_env s_event s_binding ''hi'' 0 3 (8 * second) None ?clicked =
      outgoing_bubble s_env s_event s_binding ''hi'' 0 3 (8 * second) (Some (?key, 1)) (?seen\<lparr>wc_now := 250 * millisecond\<rparr>)"
    by (subst outgoing_bubble.simps)
      (simp add: s_observe s_screen_def s_event_title s_frames s_stable stable_after_def sleep_def s_oversleep)
  then have bubble: "waitForDirectionalOutgoingBubble s_env s_event s_binding ''hi'' 0 3 (8 * second) ?clicked =
      (Inr True, (s_after (s_before @ Acted s_click Accepted # s_shown))\<lparr>wc_now := 250 * millisecond\<rparr>)"
    using two by (simp add: waitForDirectionalOutgoingBubble_def)
  have "click_and_verify s_env s_request s_event (s_frame 2 [] False) 0 (s_frame 3 ''hi'' False) (s_after s_before) =
      (Inr (verified_result s_lib ''k''), s_done)"
    using bubble by (simp add: click_and_verify_def s_act s_actions_ok s_click_def s_done_def)
  then have "prepare_and_send s_env s_request s_event (s_frame 2 [] False) (s_after s_first) =
      (Inr (verified_result s_lib ''k''), s_done)"
    by (simp add: prepare_and_send_def Let_def call_def check_def refuse_if_def Android_def s_act s_actions_ok s_look s_wait s_first_def
       s_screen_def s_probe s_observe s_step prepared_unchanged_def same_frame_def s_evidence_free [of 2] s_bubbles s_before_def)
  then show ?thesis
    using s_resolve
    by (simp add: wc_Send_def check_def Companion_def s_opened s_driver_after)
qed

end
