(* ===== verification/WeCom_Send_Props.thy ===== *)
theory WeCom_Send_Props
  imports WeCom_Looks WeCom_Sample
begin

text \<open>
  What the send of the WeCom driver guarantees: the observations before a click, the evidence behind a
  verified result, and the memo.
\<close>

section \<open>Up to the click\<close>

fun unclicked :: "wc_call \<Rightarrow> bool" where
  "unclicked (Acted a outcome) \<longleftrightarrow> cact_Kind a \<noteq> ActionClick"
| "unclicked c \<longleftrightarrow> quiet c"

lemma quiet_unclicked: "quiet c \<Longrightarrow> unclicked c"
  by (cases c) auto

text \<open>The states between which nothing is clicked.\<close>

definition prepares :: "WeCom \<Rightarrow> WeCom \<Rightarrow> bool" where
  "prepares d d' \<longleftrightarrow> same_fields d d' \<and> (\<exists>es. wc_trace d' = wc_trace d @ es \<and> list_all unclicked es)"

interpretation prep: observing prepares
proof (unfold_locales, goal_cases)
  case (2 d d1 d2)
  then show ?case unfolding prepares_def same_fields_def by fastforce
qed (auto simp: prepares_def same_fields_def quiet_unclicked)

lemma prepares_fields:
  assumes "prepares d d'"
  shows "wc_package d' = wc_package d" "wc_running d' = wc_running d" "wc_account d' = wc_account d"
    "wc_surfaces d' = wc_surfaces d" "wc_sendMemos d' = wc_sendMemos d"
  using assms by (simp_all add: prepares_def same_fields_def)

lemma Act_prepares: "Act env a d = (e, d') \<Longrightarrow> cact_Kind a \<noteq> ActionClick \<Longrightarrow> prepares d d'"
  by (auto simp: Act_def prepares_def same_fields_def split: option.splits prod.splits)

lemma looks_prepares: "looks d d' \<Longrightarrow> prepares d d'"
  by (auto simp: looks_def prepares_def list_all_iff quiet_unclicked)

lemma prepares_Act: "prepares d d1 \<Longrightarrow> cact_Kind a \<noteq> ActionClick \<Longrightarrow> prepares d (snd (Act env a d1))"
  by (rule prep.after) (auto dest: Act_prepares)

lemma open_action_kind [simp]: "cact_Kind (open_action t) = ActionOpenNotification"
  by (simp add: open_action_def)

lemma set_text_kind [simp]: "cact_Kind (set_text_action frame t) = ActionSetText"
  by (simp add: set_text_action_def)

lemma resolve_prepares: "prepares d (snd (resolveConversationEvent env cid d))"
  unfolding resolveConversationEvent_def by (intro prep.after_steps prep.refl)

lemma open_prepares: "prepares d (snd (openNotificationConversation env event d))"
  unfolding openNotificationConversation_def
  by (intro prep.after_steps prep.refl) (simp_all add: prepares_Act)

text \<open>A step that is passed when the whole does more than prepare.\<close>

lemma andThen_reach:
  assumes "andThen m f = (r, d')" and "\<not> prepares d d'" and "prepares d (snd m)"
  obtains x d1 where "m = (Inr x, d1)" "prepares d d1" "f x d1 = (r, d')"
  using assms by (auto simp: andThen_def split: prod.splits sum.splits)

lemma pair_reach:
  assumes "(case m of (x, d1) \<Rightarrow> f x d1) = (r, d')" and "prepares d (snd m)"
  obtains x d1 where "m = (x, d1)" "prepares d d1" "f x d1 = (r, d')"
  using assms by (cases m) auto

lemma prepare_and_send_reach:
  assumes go: "prepare_and_send env req event frame d = (r, d')" and no: "\<not> prepares d d'"
  obtains d0 updated d1 s1 d2 prepared s2 d3 again where
    "prepares d d0" "waitForSnapshotChange env (ws_Sequence (cf_snapshot frame)) d0 = (Inr updated, d1)"
    "withForegroundActivity env updated d1 = (s1, d2)"
    "validateChatFrame (en_u env) s1 (eventConversationTitle event) (Some (cf_binding frame)) True = Inr prepared"
    "wn_Text (cf_composer prepared) = rq_Text req"
    "observe env d2 = (Inr s2, d3)"
    "validateChatFrame (en_u env) s2 (eventConversationTitle event) (Some (cf_binding frame)) True = Inr again"
    "prepared_unchanged env (rq_Text req) prepared again"
    "click_and_verify env req event frame
       (length (outgoingBubbleEvidence (cf_snapshot frame) (rq_Text req) (cf_binding frame))) again d3 = (r, d')"
    "prepares d d3"
proof -
  note reach = andThen_reach [OF _ no]
  note post = prep.after_call prep.after_calls prepares_Act
  show thesis
    using go unfolding prepare_and_send_def Let_def
    apply -
    apply (erule reach, (simp add: post; fail))
    apply (erule reach, (simp add: post; fail))
    apply (erule reach, (simp add: post; fail))
    apply (erule pair_reach)
    apply (rule prep.after_withForegroundActivity, assumption)
    apply (erule reach, (simp add: post; fail))
    apply (erule reach, (simp add: post; fail))
    apply (erule reach, (simp add: post; fail))
    apply (erule reach, (simp add: post; fail))
    apply (erule reach, (simp add: post; fail))
    apply (clarsimp simp: frame_step_def)
    apply (rule that; assumption)
    done
qed

section \<open>The click\<close>

text \<open>The screen that a snapshot and a probe of the activity make up.\<close>

definition screen :: "UISnapshot \<Rightarrow> string option \<Rightarrow> UISnapshot" where
  "screen s c = s\<lparr>ws_WindowClass := (case c of None \<Rightarrow> [] | Some activity \<Rightarrow> activity)\<rparr>"

lemma screen_Sequence: "ws_Sequence (screen s c) = ws_Sequence s"
  by (simp add: screen_def)

lemma withForegroundActivity_screen:
  assumes "withForegroundActivity env s d = (s', d')" and "ws_PackageName s' = DefaultWeComPackage"
  shows "\<exists>c. s' = screen s c \<and> wc_trace d' = wc_trace d @ [Foreground c]"
  using assms by (auto simp: withForegroundActivity_def screen_def split: if_splits sum.splits)

lemma observe_screen:
  assumes "observe env d = (Inr s', d')" and "ws_PackageName s' = DefaultWeComPackage"
  shows "\<exists>s c. s' = screen s c \<and> wc_trace d' = wc_trace d @ [Observed s, Foreground c]"
  using assms Snapshot_InrD(2) withForegroundActivity_screen
  by (fastforce simp: observe_def split: prod.splits sum.splits)

text \<open>What a validated frame is known to be.\<close>

lemma validateChatFrame_valid:
  assumes "validateChatFrame u s title expected requireSend = Inr f"
  shows "frame_context u s = None" "cf_snapshot f = s"
    "expected = Some b \<Longrightarrow> cf_binding f = b"
    "requireSend \<Longrightarrow> uniqueNearbySend u s (cf_binding f) = Inr (cf_send f)"
proof -
  from assms obtain bnd cmp where bind: "bind_frame u s expected requireSend bnd cmp = Inr f" and ctx: "frame_context u s = None"
    unfolding validateChatFrame_def by (auto simp: Let_def split: if_splits option.splits sum.splits prod.splits)
  show "frame_context u s = None" by (rule ctx)
  show "cf_snapshot f = s" "expected = Some b \<Longrightarrow> cf_binding f = b"
    "requireSend \<Longrightarrow> uniqueNearbySend u s (cf_binding f) = Inr (cf_send f)"
    using bind by (auto simp: bind_frame_def split: if_splits sum.splits)
qed

lemma frame_context_safe:
  assumes "frame_context u s = None"
  shows "ws_PackageName s = DefaultWeComPackage" "isWeComActivity s weComConversationActivity"
    "\<not> authenticationSurface u s" "\<not> snapshotRequiresUserAction u s" "\<not> surfaceHighRisk u s"
  using assms by (auto simp: frame_context_def split: if_splits)

lemma uniqueNearbySend_node:
  "uniqueNearbySend u s b = Inr n \<Longrightarrow> n \<in> set (ws_Nodes s) \<and> nearby_send u b n \<and>
    (\<forall>m \<in> set (ws_Nodes s). nearby_send u b m \<longrightarrow> m = n)"
  by (auto simp: uniqueNearbySend_def filter_eq_Cons_iff split: list.splits)
    (metis (mono_tags, lifting) filter_empty_conv)+

lemma click_and_verify_trace:
  assumes "click_and_verify env req event frame baseline again d = (r, d')"
  shows "\<exists>e d1 es. Act env (send_click_action again) d = (e, d1) \<and> wc_trace d' = wc_trace d1 @ es \<and> list_all quiet es"
proof -
  obtain e d1 where act: "Act env (send_click_action again) d = (e, d1)" by fastforce
  obtain b d2 where w: "waitForDirectionalOutgoingBubble env event (cf_binding frame) (rq_Text req) baseline
      (ws_Sequence (cf_snapshot again)) (8 * second) d1 = (b, d2)" by fastforce
  have "looks d1 d2" using w unfolding waitForDirectionalOutgoingBubble_def by (rule look.by_outgoing_bubble)
  then have "\<exists>es. wc_trace d2 = wc_trace d1 @ es \<and> list_all quiet es" by (simp add: looks_def)
  moreover have "wc_trace d' = wc_trace d1 \<or> wc_trace d' = wc_trace d2"
    using assms act w
    by (auto simp: click_and_verify_def Let_def rememberSend_def split: option.splits if_splits sum.splits bool.splits)
  ultimately show ?thesis using act by (metis append.right_neutral list.pred_inject(1))
qed

lemma wc_Send_reach:
  assumes send: "wc_Send env req d = (r, d')" and no: "\<not> prepares d d'"
  obtains d0 event d1 frame d2 where
    "send_request_error req = None" "wc_sendMemos d (rq_IdempotencyKey req) = None"
    "resolveConversationEvent env (rq_ConversationID req) d = (Inr event, d0)"
    "openNotificationConversation env event d0 = (Inr frame, d1)" "prepares d d1"
    "prepare_and_send env req event frame d1 = (r, d')" "\<not> prepares d1 d'"
proof -
  note reach = andThen_reach [OF _ no]
  have err: "send_request_error req = None"
    using send no by (cases "send_request_error req") (auto simp: wc_Send_def)
  have memo: "wc_sendMemos d (rq_IdempotencyKey req) = None"
    using send no err by (cases "wc_sendMemos d (rq_IdempotencyKey req)") (auto simp: wc_Send_def split: if_splits)
  have go: "andThen (check (Companion d) d) (\<lambda>_ d.
      andThen (resolveConversationEvent env (rq_ConversationID req) d) (\<lambda>event d.
      andThen (openNotificationConversation env event d) (\<lambda>frame d. prepare_and_send env req event frame d))) = (r, d')"
    using send err memo by (simp add: wc_Send_def)
  obtain x0 c0 where 1: "check (Companion d) d = (Inr x0, c0)"
      "andThen (resolveConversationEvent env (rq_ConversationID req) c0) (\<lambda>event d.
         andThen (openNotificationConversation env event d) (\<lambda>frame d. prepare_and_send env req event frame d)) = (r, d')"
    using go by (rule reach) (simp_all add: prep.after_check)
  have c0: "c0 = d" using 1(1) by simp
  obtain event d0 where 2: "resolveConversationEvent env (rq_ConversationID req) d = (Inr event, d0)" "prepares d d0"
      "andThen (openNotificationConversation env event d0) (\<lambda>frame d. prepare_and_send env req event frame d) = (r, d')"
    using 1(2) unfolding c0 by (rule reach) (simp_all add: resolve_prepares)
  have "prepares d (snd (openNotificationConversation env event d0))"
    using 2(2) open_prepares prep.trans by blast
  with 2(3) obtain frame d1 where 3: "openNotificationConversation env event d0 = (Inr frame, d1)" "prepares d d1"
      "prepare_and_send env req event frame d1 = (r, d')"
    by (rule reach)
  have "\<not> prepares d1 d'" using 3(2) no prep.trans by blast
  then show thesis using that err memo 2(1) 3 by blast
qed

lemma resolve_event:
  assumes "resolveConversationEvent env cid d = (Inr event, d')"
  shows "ce_PackageName event = wc_package d \<and> ce_Openable event \<and>
    wc_conversationID (en_lib env) (ar_AccountID (wc_account d)) (ce_ConversationKey event) = cid"
proof -
  from assms obtain history d1 where h: "allEvents env d = (Inr history, d1)"
    and c: "choose_event (eh_Complete history) (conversation_events (en_lib env) (wc_package d1) (ar_AccountID (wc_account d1)) cid
        (eh_Events history)) = Inr event"
    by (auto simp: resolveConversationEvent_def andThen_Inr)
  have fields: "wc_package d1 = wc_package d" "wc_account d1 = wc_account d"
    using h look.by_allEvents looks_fields by blast+
  have fold: "fold (\<lambda>e latest. if ce_Openable e \<and> ce_Sequence e > (case latest of None \<Rightarrow> 0 | Some l \<Rightarrow> ce_Sequence l)
        then Some e else latest) es acc = Some e \<Longrightarrow> acc = Some e \<or> e \<in> set es \<and> ce_Openable e" for es acc e
    by (induction es arbitrary: acc) (force split: if_splits)+
  from c have "latest_openable (conversation_events (en_lib env) (wc_package d1) (ar_AccountID (wc_account d1)) cid (eh_Events history))
      = Some event"
    by (auto simp: choose_event_def split: list.splits if_splits option.splits)
  then have "event \<in> set (conversation_events (en_lib env) (wc_package d1) (ar_AccountID (wc_account d1)) cid (eh_Events history)) \<and>
      ce_Openable event"
    unfolding latest_openable_def by (auto dest: fold)
  then show ?thesis by (simp add: conversation_events_def fields)
qed

text \<open>The two screens right before a click, and what was checked on them.\<close>

definition click_checked ::
  "wc_env \<Rightarrow> SendRequest \<Rightarrow> CompanionEvent \<Rightarrow> UISnapshot \<Rightarrow> UISnapshot \<Rightarrow> CompanionAction \<Rightarrow> bool"
where
  "click_checked env req event s1 s2 a \<longleftrightarrow>
     (\<exists>binding f1 f2.
        validateChatFrame (en_u env) s1 (eventConversationTitle event) (Some binding) True = Inr f1 \<and>
        validateChatFrame (en_u env) s2 (eventConversationTitle event) (Some binding) True = Inr f2 \<and>
        wn_Text (cf_composer f1) = rq_Text req \<and> prepared_unchanged env (rq_Text req) f1 f2 \<and>
        a = send_click_action f2)"

lemma click_checked_safe:
  assumes "click_checked env req event s1 s2 a"
  shows "ws_Sequence s1 = ws_Sequence s2" "cact_ExpectedSequence a = ws_Sequence s2"
    "surfaceContextDigest (en_lib env) s1 = surfaceContextDigest (en_lib env) s2"
    "isWeComActivity s2 weComConversationActivity" "\<not> authenticationSurface (en_u env) s2"
    "\<not> snapshotRequiresUserAction (en_u env) s2" "\<not> surfaceHighRisk (en_u env) s2"
    "\<exists>n \<in> set (ws_Nodes s2). wn_ID n = cact_NodeID a \<and> matchesAny (en_u env) (nodeLabel n) sendLabels"
proof -
  from assms obtain b f1 f2 where
    1: "validateChatFrame (en_u env) s1 (eventConversationTitle event) (Some b) True = Inr f1" and
    2: "validateChatFrame (en_u env) s2 (eventConversationTitle event) (Some b) True = Inr f2" and
    same: "prepared_unchanged env (rq_Text req) f1 f2" and a: "a = send_click_action f2"
    unfolding click_checked_def by blast
  note v1 = validateChatFrame_valid [OF 1] and v2 = validateChatFrame_valid [OF 2]
  show "ws_Sequence s1 = ws_Sequence s2" "cact_ExpectedSequence a = ws_Sequence s2"
    "surfaceContextDigest (en_lib env) s1 = surfaceContextDigest (en_lib env) s2"
    using same a v1(2) v2(2) by (simp_all add: prepared_unchanged_def same_frame_def send_click_action_def)
  show "isWeComActivity s2 weComConversationActivity" "\<not> authenticationSurface (en_u env) s2"
    "\<not> snapshotRequiresUserAction (en_u env) s2" "\<not> surfaceHighRisk (en_u env) s2"
    using frame_context_safe [OF v2(1)] by simp_all
  show "\<exists>n \<in> set (ws_Nodes s2). wn_ID n = cact_NodeID a \<and> matchesAny (en_u env) (nodeLabel n) sendLabels"
    using uniqueNearbySend_node [OF v2(4)] a by (auto simp: send_click_action_def nearby_send_def)
qed

text \<open>An action that may have been executed has no error, or one that says so.\<close>

lemma act_result_executed:
  assumes "act_result u answer = (outcome, e)" and "outcome \<in> {Accepted, Unknown}"
  shows "case e of None \<Rightarrow> True | Some err \<Rightarrow> errors_Is err ErrActionOutcomeUncertain"
  using assms
  by (auto simp: act_result_def wc_error_def errors_Is_def split: prod.splits sum.splits option.splits bool.splits if_splits)

lemma send_shape:
  assumes send: "wc_Send env req d = (r, d')" and no: "\<not> prepares d d'"
  obtains before s1 c1 s2 c2 a outcome rest event where
    "decoded env (length (wc_trace d @ before)) s1" "decoded env (length (wc_trace d @ before) + 2) s2"
    "wc_trace d' = wc_trace d @ before @ [Observed s1, Foreground c1, Observed s2, Foreground c2, Acted a outcome] @ rest"
    "list_all unclicked before" "list_all quiet rest"
    "click_checked env req event (screen s1 c1) (screen s2 c2) a"
    "ce_PackageName event = wc_package d"
    "wc_conversationID (en_lib env) (ar_AccountID (wc_account d)) (ce_ConversationKey event) = rq_ConversationID req"
    "outcome \<in> {Accepted, Unknown} \<longrightarrow> (\<exists>result. r = Inr result)"
proof -
  obtain d0 event d1 frame where
    res: "resolveConversationEvent env (rq_ConversationID req) d = (Inr event, d0)" and
    d1: "prepares d d1" and go: "prepare_and_send env req event frame d1 = (r, d')" and no1: "\<not> prepares d1 d'"
    using wc_Send_reach [OF send no] by metis
  obtain e0 updated e1 s1 e2 prepared s2 e3 again where
    e0: "prepares d1 e0" "waitForSnapshotChange env (ws_Sequence (cf_snapshot frame)) e0 = (Inr updated, e1)" and
    fg: "withForegroundActivity env updated e1 = (s1, e2)" and
    v1: "validateChatFrame (en_u env) s1 (eventConversationTitle event) (Some (cf_binding frame)) True = Inr prepared" and
    tx: "wn_Text (cf_composer prepared) = rq_Text req" and
    ob: "observe env e2 = (Inr s2, e3)" and
    v2: "validateChatFrame (en_u env) s2 (eventConversationTitle event) (Some (cf_binding frame)) True = Inr again" and
    same: "prepared_unchanged env (rq_Text req) prepared again" and
    click: "click_and_verify env req event frame
       (length (outgoingBubbleEvidence (cf_snapshot frame) (rq_Text req) (cf_binding frame))) again e3 = (r, d')" and
    e3: "prepares d1 e3"
    using prepare_and_send_reach [OF go no1] by metis
  obtain w0 where w0: "looks e0 w0" "Snapshot env w0 = (Inr updated, e1)"
    using waitForSnapshotChange_last [OF e0(2)] by blast
  obtain c1 where c1: "s1 = screen updated c1" "wc_trace e2 = wc_trace e1 @ [Foreground c1]"
    using withForegroundActivity_screen [OF fg] frame_context_safe(1) [OF validateChatFrame_valid(1) [OF v1]] by blast
  obtain s2' c2 where c2: "s2 = screen s2' c2" "wc_trace e3 = wc_trace e2 @ [Observed s2', Foreground c2]"
    using observe_screen [OF ob] frame_context_safe(1) [OF validateChatFrame_valid(1) [OF v2]] by blast
  obtain e f1 rest where act: "Act env (send_click_action again) e3 = (e, f1)"
    "wc_trace d' = wc_trace f1 @ rest" "list_all quiet rest"
    using click_and_verify_trace [OF click] by blast
  have "prepares d w0" using d1 e0(1) w0(1) looks_prepares prep.trans by blast
  then obtain before where before: "wc_trace w0 = wc_trace d @ before" "list_all unclicked before"
    by (auto simp: prepares_def)
  have valid: "validateCompanionAction (send_click_action again) = None"
  proof (rule ccontr)
    assume "validateCompanionAction (send_click_action again) \<noteq> None"
    then obtain err where err: "validateCompanionAction (send_click_action again) = Some err" by blast
    then have "f1 = e3" using act(1) by (simp add: Act_def)
    then have "prepares e3 d'"
      using click err by (auto simp: click_and_verify_def Act_def Let_def validateCompanionAction_def send_click_action_def errors_Is_def
          split: if_splits)
    then show False using no1 e3 prep.trans by blast
  qed
  obtain outcome where out: "wc_trace f1 = wc_trace e3 @ [Acted (send_click_action again) outcome]"
      "act_result (en_u env) (companion_request (en_action env (length (wc_trace e3)) (send_click_action again))) = (outcome, e)"
    using act(1) valid by (auto simp: Act_def split: prod.splits)
  have executed: "\<exists>result. r = Inr result" if "outcome \<in> {Accepted, Unknown}"
  proof -
    have "case e of None \<Rightarrow> True | Some err \<Rightarrow> errors_Is err ErrActionOutcomeUncertain"
      using act_result_executed [OF out(2) that] .
    then show ?thesis using click act(1)
      by (auto simp: click_and_verify_def Let_def split: option.splits if_splits prod.splits sum.splits bool.splits)
  qed
  have "wc_trace d' = wc_trace d @ before @
      [Observed updated, Foreground c1, Observed s2', Foreground c2, Acted (send_click_action again) outcome] @ rest"
    using act(2) out(1) c2(2) c1(2) before(1) Snapshot_InrD(2) [OF w0(2)] by simp
  moreover have "click_checked env req event (screen updated c1) (screen s2' c2) (send_click_action again)"
    unfolding click_checked_def using v1 v2 tx same c1(1) c2(1) by blast
  moreover note resolve_event [OF res]
  moreover have "decoded env (length (wc_trace d @ before)) updated"
    using Snapshot_decoded [OF w0(2)] before(1) by simp
  moreover have "decoded env (length (wc_trace d @ before) + 2) s2'"
  proof -
    obtain s3 g1 where g: "Snapshot env e2 = (Inr s3, g1)" "withForegroundActivity env s3 g1 = (s2, e3)"
      using ob by (auto simp: observe_def split: prod.splits sum.splits)
    have "s3 = s2'" using g c2(2) Snapshot_InrD(2) [OF g(1)] by (auto simp: withForegroundActivity_def split: if_splits sum.splits)
    then show ?thesis using Snapshot_decoded [OF g(1)] c1(2) Snapshot_InrD(2) [OF w0(2)] before(1) by simp
  qed
  ultimately show thesis using that before(2) act(3) executed by blast
qed

text \<open>A result that is not from the memo is in the memo afterwards.\<close>

lemma click_and_verify_memo:
  assumes "click_and_verify env req event frame baseline again d = (Inr result, d')"
  shows "wc_sendMemos d' (rq_IdempotencyKey req) =
    Some \<lparr>wm_digest = wecomSendDigest (en_lib env) req, wm_result = result\<rparr>"
  using assms
  by (auto simp: click_and_verify_def Let_def rememberSend_def split: prod.splits option.splits if_splits sum.splits bool.splits)

lemma case_pair_Inr: "(case m of (x, d) \<Rightarrow> f x d) = y \<longleftrightarrow> (\<exists>x d. m = (x, d) \<and> f x d = y)"
  by (cases m) auto

lemma prepare_and_send_memo:
  assumes "prepare_and_send env req event frame d = (Inr result, d')"
  shows "wc_sendMemos d' (rq_IdempotencyKey req) =
    Some \<lparr>wm_digest = wecomSendDigest (en_lib env) req, wm_result = result\<rparr>"
  using assms unfolding prepare_and_send_def Let_def andThen_Inr case_pair_Inr
  by (elim exE conjE) (rule click_and_verify_memo)

lemma send_remembered:
  assumes "wc_Send env req d = (Inr result, d')" and "wc_sendMemos d (rq_IdempotencyKey req) = None"
  shows "wc_sendMemos d' (rq_IdempotencyKey req) =
    Some \<lparr>wm_digest = wecomSendDigest (en_lib env) req, wm_result = result\<rparr>"
  using assms unfolding wc_Send_def
  by (auto simp: andThen_Inr dest: prepare_and_send_memo)

section \<open>Claims\<close>



definition clicks :: "WeCom \<Rightarrow> wc_call list" where
  "clicks d = filter (\<lambda>c. \<not> unclicked c) (wc_trace d)"

lemma prepares_clicks: "prepares d d' \<Longrightarrow> clicks d' = clicks d"
  by (auto simp: prepares_def clicks_def list_all_iff filter_empty_conv)

text \<open>C37. With the repository's own companion no send ever reaches the send button. The companion reports
  \<^verbatim>\<open>selected\<close> for every node, so every node that the driver decodes has a pointer of its own, and the
  final comparison of the two send controls, Go's \<^verbatim>\<open>!=\<close> on structs, compares these pointers. Under the
  hypothesis that every decoded node has the field, a send never clicks, whatever the screens are, and it
  returns a result only if an earlier send left one in the memo, which by this theorem none did.\<close>

theorem wecom_send_never_clicks:
  assumes "\<forall>n st m w. en_snapshot env n = HttpResponse st m (Inr w) \<longrightarrow>
      (\<forall>v \<in> set (ws_Nodes (wire_fields w)). wn_Selected v \<noteq> None)"
  shows "clicks (snd (wc_Send env req d)) = clicks d \<and> wc_sendMemos (snd (wc_Send env req d)) = wc_sendMemos d \<and>
    (wc_sendMemos d (rq_IdempotencyKey req) = None \<longrightarrow> isl (fst (wc_Send env req d)))"
proof -
  obtain r d' where send: "wc_Send env req d = (r, d')" by fastforce
  have same: "prepares d d'"
  proof (rule ccontr)
    assume no: "\<not> prepares d d'"
    obtain before s1 c1 s2 c2 a event where
      d1: "decoded env (length (wc_trace d @ before)) s1" and d2: "decoded env (length (wc_trace d @ before) + 2) s2" and
      c: "click_checked env req event (screen s1 c1) (screen s2 c2) a"
      using send_shape [OF send no] by metis
    obtain b f1 f2 where
      v1: "validateChatFrame (en_u env) (screen s1 c1) (eventConversationTitle event) (Some b) True = Inr f1" and
      v2: "validateChatFrame (en_u env) (screen s2 c2) (eventConversationTitle event) (Some b) True = Inr f2" and
      eq: "cf_send f2 = cf_send f1"
      using c unfolding click_checked_def prepared_unchanged_def by blast
    have "cf_send f1 \<in> set (ws_Nodes s1)" "cf_send f2 \<in> set (ws_Nodes s2)"
      using uniqueNearbySend_node [OF validateChatFrame_valid(4) [OF v1]]
        uniqueNearbySend_node [OF validateChatFrame_valid(4) [OF v2]] by (auto simp: screen_def)
    with decoded_present [OF d1] decoded_present [OF d2] assms eq show False by fastforce
  qed
  have "isl r" if none: "wc_sendMemos d (rq_IdempotencyKey req) = None"
  proof (rule ccontr)
    assume "\<not> isl r"
    then obtain result where r: "r = Inr result" by (cases r) auto
    have "wc_sendMemos d' (rq_IdempotencyKey req) \<noteq> None"
      using send_remembered [OF send [unfolded r] none] by simp
    then show False using same none by (simp add: prepares_fields)
  qed
  with same send show ?thesis by (simp add: prepares_clicks prepares_fields)
qed

text \<open>The companion of the sample run, which leaves the field out, and one that reports it.\<close>

definition s_reporting :: wc_env where
  "s_reporting = s_env\<lparr>en_snapshot := (\<lambda>n. HttpResponse 200 [] (Inr \<lparr>wire_WindowID = Some 1, wire_fields =
     (s_screen n)\<lparr>ws_Nodes := map (\<lambda>v. v\<lparr>wn_Selected := Some ((0, 0), False)\<rparr>) (ws_Nodes (s_screen n))\<rparr>\<rparr>))\<rparr>"

theorem wecom_send_never_clicks_witness:
  "clicks (snd (wc_Send s_reporting s_request s_driver)) = clicks s_driver \<and> isl (fst (wc_Send s_reporting s_request s_driver)) \<and>
     \<not> isl (fst (wc_Send s_env s_request s_driver))"
proof -
  have "\<forall>n st m w. en_snapshot s_reporting n = HttpResponse st m (Inr w) \<longrightarrow>
      (\<forall>v \<in> set (ws_Nodes (wire_fields w)). wn_Selected v \<noteq> None)"
    by (auto simp: s_reporting_def)
  note never = wecom_send_never_clicks [OF this, of s_request s_driver]
  show ?thesis using never s_sent by simp
qed

section \<open>The evidence\<close>

text \<open>One observation of the bound conversation whose evidence is \<open>k\<close>.\<close>

definition evidence_seen ::
  "wc_env \<Rightarrow> CompanionEvent \<Rightarrow> chatBinding \<Rightarrow> string \<Rightarrow> nat \<Rightarrow> int \<Rightarrow> UISnapshot \<Rightarrow> string \<Rightarrow> bool"
where
  "evidence_seen env event binding t baseline previous s k \<longleftrightarrow>
     (\<exists>f. validateChatFrame (en_u env) s (eventConversationTitle event) (Some binding) False = Inr f \<and>
          ws_Sequence s > previous \<and> wn_Text (cf_composer f) \<noteq> t \<and>
          length (outgoingBubbleEvidence s t binding) = baseline + 1 \<and>
          k = intercalate [CHR 0x0A] (outgoingBubbleEvidence s t binding))"

definition held_from ::
  "wc_env \<Rightarrow> CompanionEvent \<Rightarrow> chatBinding \<Rightarrow> string \<Rightarrow> nat \<Rightarrow> int \<Rightarrow> WeCom \<Rightarrow> (string \<times> nat) option \<Rightarrow> WeCom \<Rightarrow> bool"
where
  "held_from env event binding t baseline previous d0 held d \<longleftrightarrow>
     looks d0 d \<and>
     (case held of None \<Rightarrow> True
      | Some (k, n) \<Rightarrow> n = 1 \<and> (\<exists>middle s c. wc_trace d = wc_trace d0 @ middle @ [Observed s, Foreground c] \<and>
          evidence_seen env event binding t baseline previous (screen s c) k))"

lemma outgoing_bubble_seen:
  assumes "outgoing_bubble env event binding t baseline previous deadline held d = (Inr True, d')"
    and "held_from env event binding t baseline previous d0 held d"
  shows "\<exists>middle s1 c1 s2 c2 k. wc_trace d' = wc_trace d0 @ middle @ [Observed s1, Foreground c1, Observed s2, Foreground c2] \<and>
    evidence_seen env event binding t baseline previous (screen s1 c1) k \<and>
    evidence_seen env event binding t baseline previous (screen s2 c2) k"
  using assms
proof (induction env event binding t baseline previous deadline held d rule: outgoing_bubble.induct)
  case (1 env event binding t baseline previous deadline held d)
  note unfold = outgoing_bubble.simps [of env event binding t baseline previous deadline held d]
  obtain r1 d1 where ob: "observe env d = (r1, d1)" by fastforce
  obtain s where s: "r1 = Inr s"
    using "1.prems"(1) ob unfolding unfold by (cases r1) auto
  obtain f where f: "validateChatFrame (en_u env) s (eventConversationTitle event) (Some binding) False = Inr f"
    using "1.prems"(1) ob s unfolding unfold
    by (cases "validateChatFrame (en_u env) s (eventConversationTitle event) (Some binding) False") auto
  obtain s' c where sc: "s = screen s' c" "wc_trace d1 = wc_trace d @ [Observed s', Foreground c]"
    using observe_screen ob s frame_context_safe(1) [OF validateChatFrame_valid(1) [OF f]] by blast
  define held' where "held' = stable_after held (bubble_key env binding t baseline previous s f)"
  have key: "evidence_seen env event binding t baseline previous s k" if "bubble_key env binding t baseline previous s f = Some k" for k
    using that f by (auto simp: bubble_key_def evidence_seen_def Let_def split: if_splits)
  show ?case
  proof (cases "case held' of None \<Rightarrow> False | Some (k, n) \<Rightarrow> n \<ge> 2")
    case True
    then obtain k n where h: "bubble_key env binding t baseline previous s f = Some k" "held = Some (k, n)"
      unfolding held'_def stable_after_def by (auto split: option.splits if_splits)
    have d': "d' = d1" using "1.prems"(1) ob s f True unfolding unfold held'_def by simp
    from "1.prems"(2) h obtain middle s0 c0 where m: "wc_trace d = wc_trace d0 @ middle @ [Observed s0, Foreground c0]"
        "evidence_seen env event binding t baseline previous (screen s0 c0) k"
      unfolding held_from_def by auto
    have "wc_trace d' = wc_trace d0 @ middle @ [Observed s0, Foreground c0, Observed s', Foreground c]"
      using m(1) sc(2) d' by simp
    with m(2) key [OF h(1)] show ?thesis unfolding sc(1) by blast
  next
    case False
    obtain e d2 where z: "sleep env (250 * millisecond) d1 = (e, d2)" by fastforce
    have more: "\<not> deadline < wc_now d1" "e = None"
        "outgoing_bubble env event binding t baseline previous deadline held' d2 = (Inr True, d')"
      using "1.prems"(1) ob s f False z unfolding unfold held'_def
      by (auto simp: Let_def split: if_splits option.splits)
    have trace: "wc_trace d2 = wc_trace d1" using z more(2) by (auto simp: sleep_def split: option.splits)
    have looks0: "looks d0 d" using "1.prems"(2) unfolding held_from_def by blast
    have "looks d d1" "looks d1 d2" using ob z look.by_observe look.by_sleep by blast+
    with looks0 have looks: "looks d0 d2" "looks d0 d" by (blast intro: look.trans)+
    have "held_from env event binding t baseline previous d0 held' d2"
    proof (cases held')
      case None
      then show ?thesis using looks by (simp add: held_from_def)
    next
      case (Some kn)
      obtain k n where kn: "kn = (k, n)" by fastforce
      have "bubble_key env binding t baseline previous s f = Some k" "n = 1"
        using Some kn False "1.prems"(2) unfolding held'_def stable_after_def held_from_def
        by (auto split: option.splits if_splits)
      moreover obtain es where "wc_trace d = wc_trace d0 @ es" using looks(2) by (auto simp: looks_def)
      ultimately show ?thesis using looks(1) Some kn key trace sc unfolding held_from_def by auto
    qed
    then show ?thesis using False more unfolding held'_def
      by (intro "1.IH" [OF ob [symmetric] s f refl _ _ z [symmetric]]) simp_all
  qed
qed



end
