(* ===== verification/WeCom_Steps.thy ===== *)
theory WeCom_Steps
  imports WeCom_Send_Props
begin

text \<open>
  The WeCom driver as a transition system: a step is one operation with any request, in any environment,
  or the passing of time. The results are facts about every run: what a memo forbids.
\<close>

inductive wc_step :: "WeCom \<Rightarrow> WeCom \<Rightarrow> bool" where
  idle: "wc_now d \<le> t \<Longrightarrow> wc_step d (d\<lparr>wc_now := t\<rparr>)"
| start: "wc_Start started account d = (e, d') \<Longrightarrow> wc_step d d'"
| stop: "wc_Stop stopped d = (e, d') \<Longrightarrow> wc_step d d'"
| status: "wc_Status env d = (status, d') \<Longrightarrow> wc_step d d'"
| auth_snapshot: "wc_AuthSnapshot env d = (a, d') \<Longrightarrow> wc_step d d'"
| auth_action: "wc_PerformAuthAction env actionID confirmed d = (e, d') \<Longrightarrow> wc_step d d'"
| auth_code: "wc_SubmitAuthCode env code d = (e, d') \<Longrightarrow> wc_step d d'"
| conversations: "wc_ListConversations env q d = (cs, d') \<Longrightarrow> wc_step d d'"
| messages: "wc_ReadMessages env mq d = (ms, d') \<Longrightarrow> wc_step d d'"
| send: "wc_Send env req d = (r, d') \<Longrightarrow> wc_step d d'"
| open_surface: "OpenSurface env reference d = (s, d') \<Longrightarrow> wc_step d d'"
| snapshot_surface: "SnapshotSurface env sid d = (s, d') \<Longrightarrow> wc_step d d'"
| act_surface: "ActSurface env sid action d = (s, d') \<Longrightarrow> wc_step d d'"
| close_surface: "CloseSurface env sid d = (u, d') \<Longrightarrow> wc_step d d'"

section \<open>Operations that keep an observing relation\<close>

text \<open>
  Beyond observing, an operation acts on the client, notes what it does and changes its surfaces. A
  relation that survives these too survives every operation but a start, a stop and a click of a send.
\<close>

locale operating = observing +
  assumes by_act: "rel d (called env (Acted a outcome) d)"
begin

lemma after_Act: "rel d d1 \<Longrightarrow> rel d (snd (Act env a d1))"
  by (erule after) (auto simp: Act_def intro: by_act split: option.splits prod.splits)

lemma after_auth_wait: "rel d d1 \<Longrightarrow> rel d (snd (auth_wait env judge late previous deadline changed count d1))"
  by (erule after) (auto dest: by_auth_wait)

lemma after_resolve: "rel d d1 \<Longrightarrow> rel d (snd (resolveConversationEvent env cid d1))"
  unfolding resolveConversationEvent_def by (intro after_steps)

lemma after_notificationEvent: "rel d d1 \<Longrightarrow> rel d (snd (notificationEvent env sequence d1))"
  unfolding notificationEvent_def by (intro after_steps)

lemma after_open: "rel d d1 \<Longrightarrow> rel d (snd (openNotificationConversation env event d1))"
  unfolding openNotificationConversation_def by (intro after_steps; simp add: after_Act)

lemma after_capture: "rel d d1 \<Longrightarrow> rel d (snd (captureAuthSnapshot env d1))"
  unfolding captureAuthSnapshot_def Let_def by (auto intro!: after_andThen after_calls)

lemma after_act_and_wait:
  assumes "\<And>d2. rel d d2 \<Longrightarrow> rel d (snd (wait d2))" and "rel d d1"
  shows "rel d (snd (act_and_wait env a wait d1))"
  using after_Act [OF assms(2), of env a] assms(1)
  by (auto simp: act_and_wait_def split: prod.splits option.splits)
    (metis snd_conv)

lemma after_perform: "rel d d1 \<Longrightarrow> rel d (snd (perform_operation env operation s d1))"
  by (auto simp: perform_operation_def Let_def waitForPrivacyConsentDismissal_def waitForWeComLoginTermsAccepted_def
      waitForWeComLoginMethodDismissal_def intro!: after_act_and_wait after_auth_wait split: sum.splits)

lemma by_Status: "rel d (snd (wc_Status env d))"
  by (auto simp: wc_Status_def Let_def split: option.splits prod.splits sum.splits dest: by_observe)

lemma by_AuthSnapshot: "rel d (snd (wc_AuthSnapshot env d))"
  unfolding wc_AuthSnapshot_def by (auto intro!: after_andThen after_check after_capture)

lemma by_ListConversations: "rel d (snd (wc_ListConversations env q d))"
  unfolding wc_ListConversations_def by (auto simp: Let_def intro!: after_andThen after_calls split: sum.splits)

lemma by_ReadMessages: "rel d (snd (wc_ReadMessages env mq d))"
  unfolding wc_ReadMessages_def Let_def by (intro after_andThen after_calls refl)

lemma after_error_of: "rel d (snd m) \<Longrightarrow> rel d (snd (error_of m))"
  by (auto simp: error_of_def split: prod.splits sum.splits)

lemma by_PerformAuthAction: "rel d (snd (wc_PerformAuthAction env actionID confirmed d))"
  unfolding wc_PerformAuthAction_def
  by (auto intro!: after_error_of after_andThen after_check after_refuse_if after_capture after_perform
      simp: snd_map_prod split: option.splits)

lemma by_SubmitAuthCode: "rel d (snd (wc_SubmitAuthCode env code d))"
  unfolding wc_SubmitAuthCode_def Let_def
  by (auto intro!: after_error_of after_andThen after_pair after_call after_calls after_Act
      simp: snd_map_prod split: sum.splits)

end

locale sending = operating +
  assumes by_memos: "rel d (d\<lparr>wc_sendMemos := x\<rparr>)"
begin

lemma after_click_and_verify: "rel d d1 \<Longrightarrow> rel d (snd (click_and_verify env req event frame base again d1))"
proof -
  assume d1: "rel d d1"
  obtain e d2 where act: "Act env (send_click_action again) d1 = (e, d2)" by fastforce
  obtain b d3 where w: "waitForDirectionalOutgoingBubble env event (cf_binding frame) (rq_Text req) base
      (ws_Sequence (cf_snapshot again)) (8 * second) d2 = (b, d3)" by fastforce
  have d2: "rel d d2" using after_Act [OF d1, of env "send_click_action again"] act by simp
  have d3: "rel d2 d3" using w unfolding waitForDirectionalOutgoingBubble_def by (rule by_outgoing_bubble)
  have "rel d (rememberSend k g v x)" if "rel d x" for k g v x
    using that trans by_memos unfolding rememberSend_def by blast
  with d2 trans [OF d2 d3] act w show ?thesis
    by (auto simp: click_and_verify_def Let_def split: option.splits sum.splits bool.splits)
qed

lemma by_Send: "rel d (snd (wc_Send env req d))"
proof -
  have "rel d (snd (prepare_and_send env req event frame d1))" if "rel d d1" for event frame d1
    unfolding prepare_and_send_def Let_def
    using that by (auto intro!: after_andThen after_pair after_call after_calls after_Act after_click_and_verify)
  then show ?thesis unfolding wc_Send_def
    by (auto intro!: after_andThen after_check after_resolve after_open split: option.splits)
qed

end

text \<open>With the driver's own surfaces and notes the relation survives the operations on surfaces as well.\<close>

fun surface_note :: "wc_call \<Rightarrow> bool" where
  "surface_note (SurfaceActed sid aid rid effect) \<longleftrightarrow> True"
| "surface_note (SurfaceOpened sid) \<longleftrightarrow> True"
| "surface_note (SurfaceClosed sid) \<longleftrightarrow> True"
| "surface_note _ \<longleftrightarrow> False"

locale storing = operating +
  assumes by_surfaces: "rel d (d\<lparr>wc_surfaces := x\<rparr>)"
    and by_note: "surface_note c \<Longrightarrow> rel d (noted c d)"
begin

lemma after_surfaces: "rel d d1 \<Longrightarrow> rel d (d1\<lparr>wc_surfaces := x\<rparr>)"
  by (erule trans) (rule by_surfaces)

lemma after_note: "rel d d1 \<Longrightarrow> surface_note c \<Longrightarrow> rel d (noted c d1)"
  by (erule trans) (rule by_note)

lemma after_updateSurface: "rel d d1 \<Longrightarrow> rel d (snd (updateSurface env sid s bound d1))"
  unfolding updateSurface_def Let_def
  by (intro after_andThen after_calls; simp add: after_surfaces)

lemma after_tombstone: "rel d d1 \<Longrightarrow> rel d (tombstone_if b sid rid d1)"
  by (auto simp: tombstone_if_def tombstoneSurfaceReplay_def intro: after_surfaces split: option.splits)

lemma by_OpenSurface: "rel d (snd (OpenSurface env reference d))"
  unfolding OpenSurface_def recordSurface_def
  by (auto intro!: after_andThen after_call after_calls after_Act after_notificationEvent after_updateSurface after_note
      split: sum.splits)

lemma by_SnapshotSurface: "rel d (snd (SnapshotSurface env sid d))"
  unfolding SnapshotSurface_def by (auto intro!: after_andThen after_calls after_updateSurface split: option.splits)

lemma by_CloseSurface: "rel d (snd (CloseSurface env sid d))"
  unfolding CloseSurface_def
  by (auto intro!: after_andThen after_call after_calls after_Act after_note after_surfaces split: option.splits)

lemma after_dispatch: "rel d d1 \<Longrightarrow> rel d (snd (dispatch_action env sid state b act sequence d1))"
proof -
  assume d1: "rel d d1"
  define effect where "effect = lowered (ac_Effect (sas_advertised b))"
  define d2 where "d2 = noted (SurfaceActed sid (action_id b) (sas_replayID b) effect)
      (tombstone_if (shouldTombstoneSurfaceReplay effect True \<and> effect \<noteq> ''navigate'') sid (sas_replayID b) d1)"
  have d2: "rel d d2" unfolding d2_def by (intro after_note after_tombstone d1) simp
  obtain e d3 where act: "Act env act d2 = (e, d3)" by fastforce
  obtain w d4 where w: "waitForSnapshotChange env sequence d3 = (w, d4)" by fastforce
  have d3: "rel d d3" using after_Act [OF d2, of env act] act by simp
  have d4: "rel d d4" using after_waitForSnapshotChange [OF d3, of env sequence] w by simp
  have d5: "rel d (snd (updateSurface env sid s (srf_identity state) d4))" for s by (rule after_updateSurface [OF d4])
  have "dispatch_action env sid state b act sequence d1 =
     (let failed = (\<lambda>err d. (Inl err, tombstone_if (shouldTombstoneSurfaceReplay effect False) sid (sas_replayID b) d))
      in case e of Some err \<Rightarrow> failed err d3
         | None \<Rightarrow> (case w of Inl err \<Rightarrow> failed err d4
            | Inr after \<Rightarrow> (case updateSurface env sid after (srf_identity state) d4 of
                (Inl err, d) \<Rightarrow> failed err d | (Inr surface, d) \<Rightarrow> (Inr surface, d))))"
    using act w unfolding dispatch_action_def Let_def effect_def [symmetric] d2_def [symmetric]
    by (auto split: option.splits sum.splits)
  then show ?thesis using d3 d4 d5
    by (auto simp: Let_def split: option.splits sum.splits prod.splits intro!: after_tombstone) (metis snd_conv)+
qed

lemma by_ActSurface: "rel d (snd (ActSurface env sid action d))"
  unfolding ActSurface_def
  by (auto intro!: after_andThen after_calls after_dispatch after_surfaces
      simp: consumeSurfaceAction_def split: option.splits prod.splits if_splits)

end

section \<open>The memo\<close>

definition keeps :: "WeCom \<Rightarrow> WeCom \<Rightarrow> bool" where
  "keeps d d' \<longleftrightarrow> (\<exists>es. wc_trace d' = wc_trace d @ es \<and> (DriverReset \<notin> set es \<longrightarrow> wc_sendMemos d \<subseteq>\<^sub>m wc_sendMemos d'))"

interpretation keep: storing keeps
proof (unfold_locales, goal_cases)
  case (2 d d1 d2)
  then show ?case unfolding keeps_def by (fastforce intro: map_le_trans)
next
  case (6 d x)
  then show ?case by (simp add: keeps_def)
next
  case (7 c d)
  then show ?case by (cases c) (auto simp: keeps_def noted_def)
qed (auto simp: keeps_def)

lemma wc_Send_keeps: "keeps d (snd (wc_Send env req d))"
proof (cases "prepares d (snd (wc_Send env req d))")
  case True
  then show ?thesis by (auto simp: prepares_def same_fields_def keeps_def)
next
  case False
  obtain r d' where send: "wc_Send env req d = (r, d')" by fastforce
  with False have no: "\<not> prepares d d'" by simp
  obtain d1 event frame where none: "wc_sendMemos d (rq_IdempotencyKey req) = None" and d1: "prepares d d1"
      and go: "prepare_and_send env req event frame d1 = (r, d')" and no1: "\<not> prepares d1 d'"
    using wc_Send_reach [OF send no] by metis
  obtain d3 again base where c: "click_and_verify env req event frame base again d3 = (r, d')" and d3: "prepares d1 d3"
    using prepare_and_send_reach [OF go no1] by metis
  obtain e d4 where act: "Act env (send_click_action again) d3 = (e, d4)" by fastforce
  obtain b d5 where w: "waitForDirectionalOutgoingBubble env event (cf_binding frame) (rq_Text req) base
      (ws_Sequence (cf_snapshot again)) (8 * second) d4 = (b, d5)" by fastforce
  have d4: "keeps d3 d4" using keep.after_Act [where env = env and a = "send_click_action again", OF keep.refl [of d3]] act by simp
  have d5: "keeps d4 d5" using w unfolding waitForDirectionalOutgoingBubble_def by (rule keep.by_outgoing_bubble)
  have same: "keeps d d3" "wc_sendMemos d3 = wc_sendMemos d"
    using d1 d3 prep.trans [of d d1 d3] by (auto simp: prepares_def same_fields_def keeps_def)
  have remember: "keeps d (rememberSend (rq_IdempotencyKey req) g v x)" if "keeps d x" for g v x
    using that none by (auto simp: keeps_def rememberSend_def map_le_def dom_def)
  have "keeps d d4" "keeps d d5" using same(1) d4 d5 keep.trans by blast+
  then have "keeps d d'" using c act w remember
    by (auto simp: click_and_verify_def Let_def split: option.splits if_splits sum.splits bool.splits)
  with send show ?thesis by simp
qed

lemma wc_Start_keeps: "keeps d (snd (wc_Start started account d))"
  by (auto simp: wc_Start_def keeps_def noted_def split: sum.splits)

lemma wc_Stop_keeps: "keeps d (snd (wc_Stop stopped d))"
  by (auto simp: wc_Stop_def keeps_def noted_def split: option.splits)

lemma wc_step_keeps: "wc_step d d' \<Longrightarrow> keeps d d'"
proof (induction rule: wc_step.induct)
  case (idle d t)
  then show ?case by (simp add: keep.by_time)
next
  case (send env req d r d')
  then show ?case by (metis snd_conv wc_Send_keeps)
qed (metis snd_conv keep.by_Status keep.by_AuthSnapshot keep.by_PerformAuthAction keep.by_SubmitAuthCode
      keep.by_ListConversations keep.by_ReadMessages keep.by_OpenSurface keep.by_SnapshotSurface keep.by_ActSurface
      keep.by_CloseSurface wc_Start_keeps wc_Stop_keeps)+

interpretation wc: progress_system "\<lambda>d. True" wc_step "\<lambda>d. True" keeps
  by unfold_locales (auto intro: keep.trans wc_step_keeps)

text \<open>C38. One idempotency key sends at most once. After a send whose click may have been executed, accepted
  or of unknown outcome, every later send with the same key, whatever its content, environment and the
  operations in between, touches neither the client nor the driver's state until the driver is started or
  stopped: it answers with the first result, or with an error if its content differs.\<close>

theorem wecom_send_once:
  assumes "wc_Send env req d = (r, d1)" and "wc_trace d1 = wc_trace d @ es"
    and "Acted a outcome \<in> set es" and "cact_Kind a = ActionClick" and "outcome \<in> {Accepted, Unknown}"
    and "wc_step\<^sup>*\<^sup>* d1 d2" and "DriverReset \<notin> set (drop (length (wc_trace d1)) (wc_trace d2))"
    and "rq_IdempotencyKey req' = rq_IdempotencyKey req"
  shows "snd (wc_Send env' req' d2) = d2 \<and> (\<forall>result. fst (wc_Send env' req' d2) = Inr result \<longrightarrow> r = Inr result)"
proof -
  have no: "\<not> prepares d d1"
    using assms(2-4) by (auto simp: prepares_def list_all_iff intro!: bexI [of _ "Acted a outcome"])
  obtain before s1 c1 s2 c2 a' outcome' rest where
    shape: "wc_trace d1 = wc_trace d @ before @ [Observed s1, Foreground c1, Observed s2, Foreground c2, Acted a' outcome'] @ rest"
      "list_all unclicked before" "list_all quiet rest" "outcome' \<in> {Accepted, Unknown} \<longrightarrow> (\<exists>result. r = Inr result)"
    using send_shape [OF assms(1) no] by metis
  have "es = before @ [Observed s1, Foreground c1, Observed s2, Foreground c2, Acted a' outcome'] @ rest"
    using shape(1) assms(2) by simp
  moreover have "Acted a outcome \<notin> set before" "Acted a outcome \<notin> set rest"
    using shape(2,3) assms(4) quiet_unclicked [of "Acted a outcome"] unfolding list_all_iff by auto
  ultimately have "outcome' = outcome" using assms(3) by auto
  then obtain result where r: "r = Inr result" using shape(4) assms(5) by blast
  have none: "wc_sendMemos d (rq_IdempotencyKey req) = None"
    by (rule wc_Send_reach [OF assms(1) no])
  have memo1: "wc_sendMemos d1 (rq_IdempotencyKey req) = Some \<lparr>wm_digest = wecomSendDigest (en_lib env) req, wm_result = result\<rparr>"
    using assms(1) none unfolding r by (rule send_remembered)
  obtain es2 where "wc_trace d2 = wc_trace d1 @ es2" "DriverReset \<notin> set es2 \<longrightarrow> wc_sendMemos d1 \<subseteq>\<^sub>m wc_sendMemos d2"
    using wc.run_rel [OF assms(6)] unfolding keeps_def by blast
  then have "wc_sendMemos d1 \<subseteq>\<^sub>m wc_sendMemos d2" using assms(7) by simp
  with memo1 have memo2: "wc_sendMemos d2 (rq_IdempotencyKey req') =
      Some \<lparr>wm_digest = wecomSendDigest (en_lib env) req, wm_result = result\<rparr>"
    unfolding assms(8) by (metis domI map_le_def)
  then show ?thesis
    unfolding wc_Send_def r by (cases "send_request_error req'") auto
qed

text \<open>An hour after the sample run.\<close>

theorem wecom_send_once_witness:
  "snd (wc_Send s_env (s_request\<lparr>rq_Text := ''bye''\<rparr>) (s_done\<lparr>wc_now := 3600 * second\<rparr>)) = s_done\<lparr>wc_now := 3600 * second\<rparr>"
proof -
  have trace: "wc_trace s_done = wc_trace s_driver @ wc_trace s_done" by simp
  have click: "Acted s_click Accepted \<in> set (wc_trace s_done)" "cact_Kind s_click = ActionClick" "Accepted \<in> {Accepted, Unknown}"
    by (simp_all add: s_done_def rememberSend_def s_click_def send_click_action_def)
  have "wc_step s_done (s_done\<lparr>wc_now := 3600 * second\<rparr>)" by (rule wc_step.idle) (simp add: s_done_def rememberSend_def)
  then have later: "wc_step\<^sup>*\<^sup>* s_done (s_done\<lparr>wc_now := 3600 * second\<rparr>)" by blast
  have "DriverReset \<notin> set (drop (length (wc_trace s_done)) (wc_trace (s_done\<lparr>wc_now := 3600 * second\<rparr>)))" by simp
  moreover have "rq_IdempotencyKey (s_request\<lparr>rq_Text := ''bye''\<rparr>) = rq_IdempotencyKey s_request" by simp
  ultimately show ?thesis using wecom_send_once [OF s_sent trace click later] by blast
qed

end
