(* ===== verification/WeCom_Scroll.thy ===== *)
theory WeCom_Scroll
  imports WeCom_Sample
begin

text \<open>
  A second sample run: a surface with one scrollable control that is opened from the notification and
  scrolled forward twice, step by step. The theorem about surface actions is applied to it.
\<close>

section \<open>A surface that is scrolled twice\<close>

definition r_node :: Node where
  "r_node = (s_node ''0'' [] [] (0, 0, 400, 800))\<lparr>wn_Scrollable := True\<rparr>"

definition r_snap :: "int \<Rightarrow> UISnapshot" where
  "r_snap q = (s_snapshot q [] False)\<lparr>ws_Nodes := [r_node]\<rparr>"

text \<open>Short encodings and a checksum, which keep the identifiers of the actions apart.\<close>

definition size_of :: "string \<Rightarrow> int" where "size_of s = foldl (\<lambda>n c. n + 1) 0 s"

fun r_marshal :: "json \<Rightarrow> string" where
  "r_marshal (JInt i) = [char_of i]"
| "r_marshal (JStr s) = [char_of (size_of s)]"
| "r_marshal (JList vs) = concat (map r_marshal vs)"
| "r_marshal (JObj fs) = concat (map (\<lambda>(k, v). r_marshal v) fs)"
| "r_marshal v = []"

definition r_sum :: "string \<Rightarrow> 8 word list" where
  "r_sum s = [word_of_int (foldl (\<lambda>n c. n + of_char c) 0 s)]"

definition r_lib :: golib where "r_lib = s_lib\<lparr>lb_sha256 := r_sum, lb_marshal := r_marshal\<rparr>"

definition r_env :: wc_env where
  "r_env = s_env\<lparr>en_lib := r_lib, en_snapshot := (\<lambda>n. HttpResponse 200 [] (Inr \<lparr>wire_WindowID = Some 1,
     wire_fields = r_snap (if n \<le> 4 then 1 else if n \<le> 14 then 2 else if n \<le> 23 then 3 else 4)\<rparr>))\<rparr>"

definition r_window :: surfaceIdentity where
  "r_window = \<lparr>id_packageName = DefaultWeComPackage, id_windowID = 1, id_windowClass = weComConversationActivity\<rparr>"

lemma r_snap_simps [simp]:
  "ws_Sequence (r_snap q) = q" "ws_PackageName (r_snap q) = DefaultWeComPackage" "ws_Nodes (r_snap q) = [r_node]"
  "(r_snap q)\<lparr>ws_WindowClass := weComConversationActivity\<rparr> = r_snap q" "ws_WindowTitle (r_snap q) = ''Ann''"
  "identityForSurface (r_snap q) = r_window"
  by (simp_all add: r_snap_def s_snapshot_def identityForSurface_def r_window_def s_activity)

lemma r_safe [simp]:
  "authenticationSurface s_unicode (r_snap q) = False" "surfaceHighRisk s_unicode (r_snap q) = False"
  "snapshotRequiresUserAction s_unicode (r_snap q) = False" "hasPrivacyConsentModalMarker s_unicode (r_snap q) = False"
  by code_simp+

lemma r_identity [simp]: "identity_matches r_window (r_snap q)" "identity_valid r_window"
  by (simp_all add: identity_matches_def identity_valid_def r_window_def r_snap_def s_snapshot_def s_activity)
    (simp_all add: weComConversationActivity_def DefaultWeComPackage_def)

lemma r_valid [simp]: "0 < q \<Longrightarrow> validateSurfaceSnapshot s_unicode (r_snap q) = None"
proof -
  have "TrimSpace weComConversationActivity = weComConversationActivity" "weComConversationActivity \<noteq> []" by code_simp+
  then show "0 < q \<Longrightarrow> validateSurfaceSnapshot s_unicode (r_snap q) = None"
    by (simp add: validateSurfaceSnapshot_def) (simp add: r_snap_def s_snapshot_def)
qed

definition r_sid :: string where "r_sid = ''surface-'' @ digestID r_lib ''a:0''"

definition r_forward :: "int \<Rightarrow> surfaceActionState" where
  "r_forward q = offered_action r_lib r_sid (r_snap q) r_node ActionScrollForward"

definition r_backward :: "int \<Rightarrow> surfaceActionState" where
  "r_backward q = offered_action r_lib r_sid (r_snap q) r_node ActionScrollBackward"

lemma r_offers: "offered_actions r_lib r_sid (r_snap q) = [r_forward q, r_backward q]"
  by (simp add: offered_actions_def r_forward_def r_backward_def node_kinds_def)
    (simp add: r_node_def s_node_def zero_Node_def validNodeBounds_def)

lemma r_label:
  "surfaceActionLabel s_unicode (r_snap q) r_node ActionScrollForward = ''Scroll forward: ''"
  "surfaceActionLabel s_unicode (r_snap q) r_node ActionScrollBackward = ''Scroll backward: ''"
  by code_simp+

lemma r_lib_simps [simp]: "lb_unicode r_lib = s_unicode" "en_lib r_env = r_lib"
  by (simp_all add: r_lib_def r_env_def)

lemma r_bound:
  "r_forward q = bindSurfaceAction r_lib r_sid (r_snap q) r_node ActionScrollForward ''Scroll forward: '' ''low'' ''observe''
     (surfaceContextDigest r_lib (r_snap q))"
  "r_backward q = bindSurfaceAction r_lib r_sid (r_snap q) r_node ActionScrollBackward ''Scroll backward: '' ''low'' ''observe''
     (surfaceContextDigest r_lib (r_snap q))"
  by (simp_all add: r_forward_def r_backward_def offered_action_def r_label classifySurfaceAction_def)

lemma r_ids:
  "action_id (r_forward 2) = action_id (r_backward 2) \<longleftrightarrow> False" "action_id (r_forward 3) = action_id (r_backward 3) \<longleftrightarrow> False"
  "action_id (r_forward 3) = action_id (r_forward 2) \<longleftrightarrow> False" "action_id (r_backward 3) = action_id (r_forward 2) \<longleftrightarrow> False"
  unfolding r_bound by code_simp+

section \<open>The calls\<close>

definition r_driver :: "(string \<rightharpoonup> surfaceState) \<Rightarrow> wc_call list \<Rightarrow> WeCom" where
  "r_driver surfaces cs = \<lparr>wc_package = DefaultWeComPackage, wc_running = True, wc_clientVersion = [], wc_account = s_runtime,
     wc_surfaces = surfaces, wc_sendMemos = Map.empty, wc_now = 62135596800 * second, wc_trace = cs\<rparr>"

definition r_seq :: "nat \<Rightarrow> int" where "r_seq n = (if n \<le> 4 then 1 else if n \<le> 14 then 2 else if n \<le> 23 then 3 else 4)"

lemma r_env_simps [simp]:
  "en_latency r_env n = 0" "en_activity r_env n = Inr weComConversationActivity" "en_screenshot r_env n = Inr []"
  "en_action r_env n a = HttpResponse 200 [] (Inr \<lparr>rep_Accepted = Some True, rep_Sequence = 0, rep_Detail = []\<rparr>)"
  "en_events r_env n after limit = HttpResponse 200 [] (Inr
     (if after = 0 then \<lparr>ep_Events = [s_event], ep_NextCursor = 1, ep_Complete = True\<rparr>
      else \<lparr>ep_Events = [], ep_NextCursor = 1, ep_Complete = True\<rparr>))"
  "en_snapshot r_env n = HttpResponse 200 [] (Inr \<lparr>wire_WindowID = Some 1, wire_fields = r_snap (r_seq n)\<rparr>)"
  by (simp_all add: r_env_def s_env_def r_seq_def)

lemma r_driver_simps [simp]:
  "called r_env c (r_driver m cs) = r_driver m (cs @ [c])" "noted c (r_driver m cs) = r_driver m (cs @ [c])"
  "wc_running (r_driver m cs)" "wc_trace (r_driver m cs) = cs" "wc_package (r_driver m cs) = DefaultWeComPackage"
  "wc_account (r_driver m cs) = s_runtime" "wc_surfaces (r_driver m cs) = m" "(r_driver m cs)\<lparr>wc_surfaces := m'\<rparr> = r_driver m' cs"
  by (simp_all add: r_driver_def called_def noted_def)

lemma r_alloc: "UnmarshalSnapshot n \<lparr>wire_WindowID = Some 1, wire_fields = r_snap q\<rparr> = r_snap q"
  by (simp add: UnmarshalSnapshot_def allocate_def) (simp add: r_snap_def s_snapshot_def r_node_def s_node_def zero_Node_def)

lemma r_look: "Snapshot r_env (r_driver m cs) =
    (Inr (r_snap (r_seq (length cs))), r_driver m (cs @ [Observed (r_snap (r_seq (length cs)))]))"
  by (simp add: Snapshot_def Let_def r_alloc)

lemma r_probe: "withForegroundActivity r_env (r_snap q) (r_driver m cs) = (r_snap q, r_driver m (cs @ [s_foreground]))"
  by (simp add: withForegroundActivity_def)

lemma r_act: "validateCompanionAction a = None \<Longrightarrow> Act r_env a (r_driver m cs) = (None, r_driver m (cs @ [Acted a Accepted]))"
  by (simp add: Act_def act_result_def)

lemma r_shot: "Screenshot r_env (r_driver m cs) = (Inr [], r_driver m (cs @ [Captured]))"
  by (simp add: Screenshot_def)

lemma r_wait: "previous < r_seq (length cs) \<Longrightarrow>
    waitForSnapshotChange r_env previous (r_driver m cs) =
      (Inr (r_snap (r_seq (length cs))), r_driver m (cs @ [Observed (r_snap (r_seq (length cs)))]))"
  by (simp add: waitForSnapshotChange_def snapshot_change.simps [of r_env] r_look)

lemma r_history: "allEvents r_env (r_driver m cs) = (Inr \<lparr>eh_Events = [s_event], eh_Complete = True\<rparr>, r_driver m (cs @ [Asked, Asked]))"
proof -
  have "Events r_env after limit (r_driver m ds) =
     (Inr (if after = 0 then \<lparr>ep_Events = [s_event], ep_NextCursor = 1, ep_Complete = True\<rparr>
       else \<lparr>ep_Events = [], ep_NextCursor = 1, ep_Complete = True\<rparr>), r_driver m (ds @ [Asked]))" for after limit ds
    by (simp add: Events_def Let_def)
  then show ?thesis by (simp add: allEvents_def all_events.simps [of r_env])
qed

lemma r_prepare: "0 < q \<Longrightarrow> prepareSurfaceSnapshot r_env (r_snap q) (r_driver m cs) = (Inr (r_snap q), r_driver m (cs @ [s_foreground]))"
  by (simp add: prepareSurfaceSnapshot_def Android_def r_probe)

lemma r_same: "0 < q \<Longrightarrow> sameSurfaceObservation (r_snap q) (r_snap q)"
  by (simp add: sameSurfaceObservation_def)

definition r_state :: "(string \<rightharpoonup> surfaceState) \<Rightarrow> int \<Rightarrow> surfaceState" where
  "r_state m q = record_state r_env r_sid (r_snap q) [] (r_driver m [])"

lemma r_record: "record_state r_env sid (r_snap q) [] (r_driver m cs) = record_state r_env sid (r_snap q) [] (r_driver m [])"
  by (simp add: record_state_def Let_def r_driver_def split: prod.splits)

lemma r_update:
  assumes "0 < q" and "r_seq (Suc (Suc (length cs))) = q" and "bound = zero_identity \<or> bound = r_window"
  shows "updateSurface r_env r_sid (r_snap q) bound (r_driver m cs) =
    (Inr (srf_surface (r_state m q)),
     r_driver (m(r_sid \<mapsto> r_state m q)) (cs @ [s_foreground, Captured, Observed (r_snap q), s_foreground]))"
proof -
  have b: "refuse_if (identity_valid bound \<and> \<not> identity_matches bound (r_snap q)) err d = (Inr (), d)" for err d
    using assms(3) by (auto simp: identity_valid_def zero_identity_def)
  show ?thesis
    using assms(1)
    by (simp add: updateSurface_def r_prepare Companion_def r_shot r_look assms(2) r_same b r_record [of _ _ _ "cs @ _"] r_state_def Let_def)
qed

text \<open>Opening the surface.\<close>

lemma r_parsed: "parse_reference r_lib ''a'' (TrimSpace (notificationSurfaceReference r_lib ''a'' 1)) = Inr (1, ''1'')"
  by code_simp

lemma r_event: "notificationEvent r_env 1 (r_driver m cs) = (Inr s_event, r_driver m (cs @ [Asked, Asked]))"
  by (simp add: notificationEvent_def r_history) (simp add: s_event_def)

definition r_first :: "wc_call list" where
  "r_first = [DriverReset, Asked, Asked, Observed (r_snap 1), Acted (open_action ''1'') Accepted, Observed (r_snap 2),
     s_foreground, Captured, Observed (r_snap 2), s_foreground, SurfaceOpened r_sid]"

lemma r_surface_id: "surface_id r_env (r_driver m cs) = r_sid"
proof -
  have "Itoa 0 = ''0''" by code_simp
  then show ?thesis by (simp add: surface_id_def r_sid_def s_runtime_def) (simp add: r_driver_def UnixNano_def)
qed

lemma r_open_ok: "validateCompanionAction (open_action ''1'') = None" by code_simp

lemma r_opened:
  "OpenSurface r_env (notificationSurfaceReference r_lib ''a'' 1) (r_driver Map.empty [DriverReset]) =
     (Inr (srf_surface (r_state Map.empty 2)), r_driver [r_sid \<mapsto> r_state Map.empty 2] r_first)"
proof -
  have "ce_Openable s_event" "ar_AccountID s_runtime = ''a''" by (simp_all add: s_event_def s_runtime_def)
  then show ?thesis
    by (simp add: OpenSurface_def r_parsed Companion_def r_event r_look r_seq_def stale_because_def r_act r_open_ok r_wait
        recordSurface_def r_surface_id r_update r_first_def)
qed

section \<open>The turns\<close>

definition r_request :: "int \<Rightarrow> SurfaceAction" where
  "r_request q = \<lparr>sact_ActionID = action_id (r_forward q), sact_Text = [], sact_TextProvided = False, sact_Confirmed = False\<rparr>"

abbreviation r_replay :: "int \<Rightarrow> string" where "r_replay q \<equiv> sas_replayID (r_forward q)"

definition r_turn :: "int \<Rightarrow> int \<Rightarrow> wc_call list" where
  "r_turn q p = [Observed (r_snap q), s_foreground, SurfaceActed r_sid (action_id (r_forward q)) (r_replay q) ''observe'',
     Acted (companion_action (r_forward q) (r_request q) q) Accepted, Observed (r_snap p), s_foreground, Captured,
     Observed (r_snap p), s_foreground]"

definition r_used :: "int \<Rightarrow> (string \<rightharpoonup> surfaceState) \<Rightarrow> (string \<rightharpoonup> surfaceState)" where
  "r_used q m = m(r_sid \<mapsto> consume_state (action_id (r_forward q)) (the (m r_sid)))"

lemma r_forward_simps:
  "ac_Risk (sas_advertised (r_forward q)) = ''low''" "ac_Effect (sas_advertised (r_forward q)) = ''observe''"
  "ac_Disabled (sas_advertised (r_forward q)) = False" "sas_kind (r_forward q) = ActionScrollForward"
  "sas_nodeID (r_forward q) = ''0''" "sas_sequence (r_forward q) = q" "sas_identity (r_forward q) = r_window"
  "sas_contextDigest (r_forward q) = surfaceContextDigest r_lib (r_snap q)" "sas_label (r_forward q) = ''Scroll forward: ''"
  "sas_bounds (r_forward q) = wn_Bounds r_node" "sas_nodeSignature (r_forward q) = surfaceNodeSignature r_lib r_node"
  by (simp_all add: r_bound bindSurfaceAction_def Let_def high_risk_action_def r_node_def s_node_def)

lemma r_lowered: "lowered ''low'' = ''low''" "lowered ''observe'' = ''observe''" "ToLower (TrimSpace ''observe'') = ''observe''"
  by code_simp+

lemma r_node_id: "wn_ID r_node = ''0''"
  by (simp add: r_node_def s_node_def)

lemma r_current: "validateSurfaceActionState r_lib r_sid (r_snap q) (r_forward q) = None"
proof -
  have "nodeSupportsSurfaceAction r_node ActionScrollForward"
    by (simp add: nodeSupportsSurfaceAction_def validNodeBounds_def r_node_def s_node_def zero_Node_def)
  moreover have "classifySurfaceAction s_unicode (r_snap q) r_node ActionScrollForward = (''low'', ''observe'')"
    by (simp add: classifySurfaceAction_def)
  ultimately show ?thesis
    by (simp add: validateSurfaceActionState_def r_forward_simps r_node_id r_label Let_def r_bound(1) [symmetric])
qed

lemma r_asked: "act_request_error (r_forward q) (r_request q) = None"
  by (simp add: act_request_error_def r_forward_simps r_lowered Let_def high_risk_action_def) (simp add: r_request_def)

lemma r_round:
  assumes "m r_sid = Some st" and "srf_actions st (action_id (r_forward q)) = Some (r_forward q)" and "srf_identity st = r_window"
    and "srf_sequence st = q" and "0 < q" and "q < p" and "r_seq (length cs) = q" and "r_seq (length cs + 4) = p"
    and "r_seq (length cs + 7) = p"
  shows "ActSurface r_env r_sid (r_request q) (r_driver m cs) =
    (Inr (srf_surface (r_state (r_used q m) p)), r_driver ((r_used q m)(r_sid \<mapsto> r_state (r_used q m) p)) (cs @ r_turn q p))"
proof -
  have ok: "validateCompanionAction (companion_action (r_forward q) (r_request q) q) = None"
    using assms(5) by (simp add: validateCompanionAction_def companion_action_def r_forward_simps)
  have consumed: "consumeSurfaceAction r_sid (action_id (r_forward q)) (r_forward q) (r_driver m ds) = (True, r_driver (r_used q m) ds)" for ds
    by (simp add: consumeSurfaceAction_def assms(1,2) same_binding_def r_used_def)
  have harmless: "shouldTombstoneSurfaceReplay ''observe'' b = False" for b
    by (simp add: shouldTombstoneSurfaceReplay_def Let_def r_lowered)
  have seq: "r_seq (Suc (Suc (Suc (Suc (length cs))))) = p" "r_seq (Suc (Suc (Suc (Suc (Suc (Suc (Suc (length cs)))))))) = p"
    using assms(8,9) by (simp_all add: eval_nat_numeral)
  have id: "sact_ActionID (r_request q) = action_id (r_forward q)" by (simp add: r_request_def)
  show ?thesis
    using assms
    by (simp add: ActSurface_def id r_asked Companion_def r_look r_prepare r_current consumed dispatch_action_def Let_def
        r_forward_simps r_lowered harmless tombstone_if_def r_act ok r_wait seq r_update r_turn_def)
qed

lemma r_state_simps:
  "srf_identity (r_state m q) = r_window" "srf_sequence (r_state m q) = q"
  "srf_actions (r_state m q) = allowed_map (still_offered (fst (kept_identifiers (m r_sid) r_window))
     (snd (kept_identifiers (m r_sid) r_window)) [r_forward q, r_backward q])"
  "srf_consumedActions (r_state m q) = fst (kept_identifiers (m r_sid) r_window)"
  "srf_replayTombstones (r_state m q) = snd (kept_identifiers (m r_sid) r_window)"
  by (simp_all add: r_state_def record_state_def Let_def r_offers prod.case_eq_if)

definition r_opened_map :: "string \<rightharpoonup> surfaceState" where "r_opened_map = [r_sid \<mapsto> r_state Map.empty 2]"

definition r_map2 :: "string \<rightharpoonup> surfaceState" where
  "r_map2 = (r_used 2 r_opened_map)(r_sid \<mapsto> r_state (r_used 2 r_opened_map) 3)"

definition r_map3 :: "string \<rightharpoonup> surfaceState" where
  "r_map3 = (r_used 3 r_map2)(r_sid \<mapsto> r_state (r_used 3 r_map2) 4)"

lemma r_acted:
  "\<exists>s. ActSurface r_env r_sid (r_request 2) (r_driver r_opened_map r_first) = (Inr s, r_driver r_map2 (r_first @ r_turn 2 3))"
proof -
  have "srf_actions (r_state Map.empty 2) (action_id (r_forward 2)) = Some (r_forward 2)"
    using r_ids by (simp add: r_state_simps kept_identifiers_def still_offered_def allowed_map_def)
  then show ?thesis
    using r_round [of r_opened_map "r_state Map.empty 2" 2 3 r_first]
    by (simp add: r_opened_map_def r_state_simps r_seq_def r_first_def r_map2_def)
qed

lemma r_acted_again:
  "\<exists>s. ActSurface r_env r_sid (r_request 3) (r_driver r_map2 (r_first @ r_turn 2 3)) =
     (Inr s, r_driver r_map3 (r_first @ r_turn 2 3 @ r_turn 3 4))"
proof -
  have "srf_actions (r_state (r_used 2 r_opened_map) 3) (action_id (r_forward 3)) = Some (r_forward 3)"
    using r_ids by (simp add: r_state_simps kept_identifiers_def still_offered_def allowed_map_def r_used_def
        r_opened_map_def consume_state_def)
  then show ?thesis
    using r_round [of r_map2 "r_state (r_used 2 r_opened_map) 3" 3 4 "r_first @ r_turn 2 3"]
    by (simp add: r_map2_def r_state_simps r_seq_def r_first_def r_turn_def r_map3_def)
qed

end
