(* ===== verification/WeCom_Surface_Props.thy ===== *)
theory WeCom_Surface_Props
  imports WeCom_Steps WeCom_Scroll
begin

text \<open>
  What the surfaces of the WeCom driver guarantee over every run: an action is dispatched once, a control
  with a possible outside effect is used once while its surface is open, and what is checked before a
  dispatch.
\<close>

section \<open>The history of a surface\<close>

text \<open>The calls after which the dispatches of a surface count from zero.\<close>

definition ends :: "string \<Rightarrow> wc_call \<Rightarrow> bool" where
  "ends sid c \<longleftrightarrow> c = SurfaceOpened sid \<or> c = SurfaceClosed sid \<or> c = DriverReset"

definition harmless :: "string \<Rightarrow> bool" where
  "harmless effect \<longleftrightarrow> lowered effect \<in> {''observe'', ''search_input'', ''navigate''}"

definition live_after :: "string \<Rightarrow> wc_call \<Rightarrow> (string \<times> string \<times> string) list \<Rightarrow> (string \<times> string \<times> string) list" where
  "live_after sid c acts =
     (if ends sid c then []
      else case c of SurfaceActed s a r e \<Rightarrow> if s = sid then acts @ [(a, r, e)] else acts | _ \<Rightarrow> acts)"

definition live :: "string \<Rightarrow> wc_call list \<Rightarrow> (string \<times> string \<times> string) list" where
  "live sid trace = fold (live_after sid) trace []"

fun is_note :: "wc_call \<Rightarrow> bool" where
  "is_note DriverReset \<longleftrightarrow> True"
| "is_note c \<longleftrightarrow> surface_note c"

lemma live_simps [simp]: "live sid [] = []" "live sid (t @ [c]) = live_after sid c (live sid t)"
  by (simp_all add: live_def)

lemma live_notes:
  assumes "list_all (\<lambda>c. \<not> is_note c) es"
  shows "live sid (t @ es) = live sid t"
proof -
  have "live_after sid c acts = acts" if "\<not> is_note c" for c acts
    using that by (cases c) (auto simp: live_after_def ends_def)
  then have "fold (live_after sid) es acts = acts" for acts
    using assms by (induction es) auto
  then show ?thesis by (simp add: live_def)
qed

lemma live_member:
  "\<forall>c \<in> set ys. \<not> ends sid c \<Longrightarrow> (a, r, e) \<in> set (live sid (xs @ SurfaceActed sid a r e # ys))"
proof (induction ys rule: rev_induct)
  case Nil
  then show ?case by (simp add: live_def live_after_def ends_def)
next
  case (snoc c ys)
  then have "(a, r, e) \<in> set (live sid (xs @ SurfaceActed sid a r e # ys))" and "\<not> ends sid c" by auto
  moreover have "live sid (xs @ SurfaceActed sid a r e # ys @ [c]) = live_after sid c (live sid (xs @ SurfaceActed sid a r e # ys))"
    using live_simps(2) [of sid "xs @ SurfaceActed sid a r e # ys" c] by simp
  ultimately show ?case by (auto simp: live_after_def split: wc_call.splits)
qed

definition pair_ok :: "string \<times> string \<times> string \<Rightarrow> string \<times> string \<times> string \<Rightarrow> bool" where
  "pair_ok x y \<longleftrightarrow> (case (x, y) of ((a1, r1, e1), (a2, r2, e2)) \<Rightarrow> a1 \<noteq> a2 \<and> (r1 = r2 \<longrightarrow> harmless e1))"

text \<open>Of two dispatches in one life of a surface the second is fit to follow the first.\<close>

definition history_ok :: "wc_call list \<Rightarrow> bool" where
  "history_ok trace \<longleftrightarrow>
     (\<forall>xs sid a1 r1 e1 ys a2 r2 e2 zs.
        trace = xs @ SurfaceActed sid a1 r1 e1 # ys @ SurfaceActed sid a2 r2 e2 # zs \<longrightarrow>
        (\<forall>c \<in> set ys. \<not> ends sid c) \<longrightarrow> pair_ok (a1, r1, e1) (a2, r2, e2))"

lemma history_ok_Nil [simp]: "history_ok []"
  by (simp add: history_ok_def)

lemma history_ok_snoc:
  assumes "history_ok t" and "\<And>sid a r e x. c = SurfaceActed sid a r e \<Longrightarrow> x \<in> set (live sid t) \<Longrightarrow> pair_ok x (a, r, e)"
  shows "history_ok (t @ [c])"
  unfolding history_ok_def
proof (intro allI impI)
  fix xs sid a1 r1 e1 ys a2 r2 e2 zs
  assume t: "t @ [c] = xs @ SurfaceActed sid a1 r1 e1 # ys @ SurfaceActed sid a2 r2 e2 # zs"
    and ys: "\<forall>c \<in> set ys. \<not> ends sid c"
  from two_snoc_split [OF t] show "pair_ok (a1, r1, e1) (a2, r2, e2)"
  proof (elim disjE exE conjE)
    assume "SurfaceActed sid a2 r2 e2 = c" and "t = xs @ SurfaceActed sid a1 r1 e1 # ys"
    then show ?thesis using assms(2) live_member [OF ys] by metis
  next
    fix zs' assume "t = xs @ SurfaceActed sid a1 r1 e1 # ys @ SurfaceActed sid a2 r2 e2 # zs'"
    then show ?thesis using assms(1) ys unfolding history_ok_def by blast
  qed
qed

lemma history_ok_quiet:
  assumes "history_ok t" and "list_all (\<lambda>c. \<not> is_note c) es"
  shows "history_ok (t @ es)"
  using assms(2)
proof (induction es rule: rev_induct)
  case (snoc c es)
  then show ?case using history_ok_snoc [of "t @ es" c] by (cases c) auto
qed (simp add: assms(1))

section \<open>The invariant\<close>

definition actions_ok :: "surfaceState \<Rightarrow> bool" where
  "actions_ok st \<longleftrightarrow>
     (\<forall>k b. srf_actions st k = Some b \<longrightarrow>
        action_id b = k \<and> k \<notin> srf_consumedActions st \<and> sas_replayID b \<notin> srf_replayTombstones st \<and> sas_replayID b \<noteq> [])"

definition acts_kept :: "(string \<times> string \<times> string) list \<Rightarrow> surfaceState \<Rightarrow> bool" where
  "acts_kept acts st \<longleftrightarrow>
     (\<forall>(a, r, e) \<in> set acts. a \<in> srf_consumedActions st \<and> (\<not> harmless e \<longrightarrow> r \<in> srf_replayTombstones st))"

definition surface_ok :: "(string \<times> string \<times> string) list \<Rightarrow> surfaceState \<Rightarrow> bool" where
  "surface_ok acts st \<longleftrightarrow> identity_valid (srf_identity st) \<and> actions_ok st \<and> acts_kept acts st"

definition slot_ok :: "(string \<times> string \<times> string) list \<Rightarrow> surfaceState option \<Rightarrow> bool" where
  "slot_ok acts slot = (case slot of None \<Rightarrow> acts = [] | Some st \<Rightarrow> surface_ok acts st)"

definition surfaces_inv :: "WeCom \<Rightarrow> bool" where
  "surfaces_inv d \<longleftrightarrow>
     history_ok (wc_trace d) \<and>
     (\<forall>sid. slot_ok (live sid (wc_trace d)) (wc_surfaces d sid))"

lemma surfaces_inv_at: "surfaces_inv d \<Longrightarrow> wc_surfaces d sid = Some st \<Longrightarrow> surface_ok (live sid (wc_trace d)) st"
  by (auto simp: surfaces_inv_def slot_ok_def split: option.splits)

text \<open>What changes neither the surfaces nor the notes keeps the invariant.\<close>

definition same_surfaces :: "WeCom \<Rightarrow> WeCom \<Rightarrow> bool" where
  "same_surfaces d d' \<longleftrightarrow>
     wc_surfaces d' = wc_surfaces d \<and> (\<exists>es. wc_trace d' = wc_trace d @ es \<and> list_all (\<lambda>c. \<not> is_note c) es)"

interpretation surf: sending same_surfaces
proof (unfold_locales, goal_cases)
  case (2 d d1 d2)
  then show ?case unfolding same_surfaces_def by fastforce
next
  case (3 c env d)
  then show ?case by (cases c) (auto simp: same_surfaces_def)
qed (auto simp: same_surfaces_def)

lemma same_surfaces_inv: "same_surfaces d d' \<Longrightarrow> surfaces_inv d \<Longrightarrow> surfaces_inv d'"
  unfolding same_surfaces_def surfaces_inv_def by (elim exE conjE) (simp add: live_notes history_ok_quiet)

section \<open>Recording\<close>

lemma allowed_map_Some: "allowed_map bs k = Some b \<Longrightarrow> b \<in> set bs \<and> action_id b = k"
  by (auto simp: allowed_map_def dest: map_of_SomeD)

lemma offered_replayID: "b \<in> set (offered_actions lib sid s) \<Longrightarrow> sas_replayID b \<noteq> []"
  by (auto simp: offered_actions_def offered_action_def bindSurfaceAction_def replay_id_def Let_def split: prod.splits)

lemma record_actions_ok: "actions_ok (record_state env sid s png d)"
  by (auto simp: actions_ok_def record_state_def Let_def still_offered_def dest!: allowed_map_Some offered_replayID
      split: prod.splits)

lemma record_identity [simp]: "srf_identity (record_state env sid s png d) = identityForSurface s"
  by (auto simp: record_state_def Let_def split: prod.splits)

lemma record_kept:
  assumes "wc_surfaces d sid = Some st" and "srf_identity st = identityForSurface s" and "acts_kept acts st"
  shows "acts_kept acts (record_state env sid s png d)"
  using assms by (simp add: record_state_def kept_identifiers_def acts_kept_def Let_def)

lemma prepareSurfaceSnapshot_valid:
  assumes "prepareSurfaceSnapshot env s d = (Inr s', d')"
  shows "validateSurfaceSnapshot (en_u env) s' = None"
  using assms by (auto simp: prepareSurfaceSnapshot_def andThen_Inr split: if_splits prod.splits)

lemma validateSurfaceSnapshot_identity:
  "validateSurfaceSnapshot u s = None \<Longrightarrow> identity_valid (identityForSurface s)"
  by (auto simp: validateSurfaceSnapshot_def identity_valid_def identityForSurface_def DefaultWeComPackage_def split: if_splits)

lemma identity_matches_eq: "identity_matches i s \<longleftrightarrow> identity_valid i \<and> i = identityForSurface s"
  by (auto simp: identity_matches_def identityForSurface_def)

text \<open>An update fails without a trace, or stores the state of the window it was bound to.\<close>

lemma updateSurface_cases:
  assumes "updateSurface env sid s bound d = (r, d')"
  obtains (failed) err where "r = Inl err" "same_surfaces d d'"
    | (stored) d1 verified png surface where "same_surfaces d d1"
        "d' = d1\<lparr>wc_surfaces := (wc_surfaces d1)(sid \<mapsto> record_state env sid verified png d1)\<rparr>"
        "identity_valid (identityForSurface verified)" "identity_valid bound \<longrightarrow> identityForSurface verified = bound"
        "r = Inr surface"
proof (cases r)
  case (Inr surface)
  with assms obtain s1 d1 d2 png d3 v d4 verified d5 where
    1: "prepareSurfaceSnapshot env s d = (Inr s1, d1)" "\<not> (identity_valid bound \<and> \<not> identity_matches bound s1)"
    and 2: "Screenshot env d1 = (Inr png, d3)" "Snapshot env d3 = (Inr v, d4)"
      "prepareSurfaceSnapshot env v d4 = (Inr verified, d5)" "sameSurfaceObservation s1 verified"
    and d': "d' = d5\<lparr>wc_surfaces := (wc_surfaces d5)(sid \<mapsto> record_state env sid verified png d5)\<rparr>"
    by (auto simp: updateSurface_def andThen_Inr Let_def)
  have "same_surfaces d d1" "same_surfaces d1 d3" "same_surfaces d3 d4" "same_surfaces d4 d5"
    using 1(1) 2 surf.by_prepareSurfaceSnapshot surf.by_Screenshot surf.by_Snapshot by blast+
  then have "same_surfaces d d5" using surf.trans by blast
  moreover have "identity_valid (identityForSurface verified)"
    using prepareSurfaceSnapshot_valid [OF 2(3)] validateSurfaceSnapshot_identity by blast
  moreover have "identity_valid bound \<longrightarrow> identityForSurface verified = bound"
    using 1(2) 2(4) by (auto simp: identity_matches_eq sameSurfaceObservation_def)
  ultimately show thesis using stored d' Inr by blast
next
  case (Inl err)
  have "same_surfaces d d'"
    using assms unfolding Inl updateSurface_def
    apply -
    apply (erule surf.andThen_error, (simp add: surf.after_calls; fail))
    apply (erule surf.andThen_error, (simp add: surf.after_calls; fail))
    apply (erule surf.andThen_error, (simp add: surf.after_calls; fail))
    apply (erule surf.andThen_error, (simp add: surf.after_calls; fail))
    apply (erule surf.andThen_error, (simp add: surf.after_calls; fail))
    apply (erule surf.andThen_error, (simp add: surf.after_calls; fail))
    apply (erule surf.andThen_error, (simp add: surf.after_calls; fail))
    apply (simp add: Let_def)
    done
  then show thesis using failed Inl by blast
qed

section \<open>Every operation keeps the invariant\<close>

text \<open>A new state of one surface.\<close>

lemma surfaces_inv_put:
  assumes "surfaces_inv d" and "surface_ok (live sid (wc_trace d)) st"
  shows "surfaces_inv (d\<lparr>wc_surfaces := (wc_surfaces d)(sid \<mapsto> st)\<rparr>)"
  using assms by (simp add: surfaces_inv_def slot_ok_def)

lemma record_ok:
  assumes "surfaces_inv d" and "wc_surfaces d sid = Some st" and "srf_identity st = identityForSurface s"
  shows "surface_ok (live sid (wc_trace d)) (record_state env sid s png d)"
  using surfaces_inv_at [OF assms(1,2)] record_kept [OF assms(2,3)] assms(3) record_actions_ok
  by (auto simp: surface_ok_def)

lemma updateSurface_inv:
  assumes "updateSurface env sid s (srf_identity st) d = (r, d')" and "surfaces_inv d"
    and "wc_surfaces d sid = Some st0" and "srf_identity st0 = srf_identity st"
  shows "surfaces_inv d' \<and> (\<exists>st'. wc_surfaces d' sid = Some st')"
  using assms(1)
proof (cases rule: updateSurface_cases)
  case (failed err)
  then show ?thesis using same_surfaces_inv assms(2,3) by (auto simp: same_surfaces_def)
next
  case (stored d1 verified png surface)
  have inv: "surfaces_inv d1" and st0: "wc_surfaces d1 sid = Some st0"
    using stored(1) same_surfaces_inv assms(2,3) by (auto simp: same_surfaces_def)
  moreover have "srf_identity st0 = identityForSurface verified"
    using stored(4) surfaces_inv_at [OF inv st0] assms(4) by (auto simp: surface_ok_def)
  ultimately show ?thesis unfolding stored(2) using surfaces_inv_put record_ok by auto
qed

lemma inv_noted_end:
  assumes "history_ok (wc_trace d)" and "\<And>s. s \<noteq> sid \<Longrightarrow> slot_ok (live s (wc_trace d)) (wc_surfaces d s)"
    and "slot_ok [] (wc_surfaces d sid)" and "c = SurfaceOpened sid \<or> c = SurfaceClosed sid"
  shows "surfaces_inv (noted c d)"
proof -
  have "live_after s c acts = (if s = sid then [] else acts)" for s acts
    using assms(4) by (auto simp: live_after_def ends_def)
  moreover have "history_ok (wc_trace d @ [c])" using assms(1,4) by (auto intro: history_ok_snoc)
  ultimately show ?thesis using assms(2,3) by (simp add: surfaces_inv_def noted_def)
qed

lemma recordSurface_inv:
  assumes "recordSurface env s d = (r, d')" and "surfaces_inv d"
  shows "surfaces_inv d'"
proof -
  define sid where "sid = surface_id env d"
  obtain r0 d0 where u: "updateSurface env sid s zero_identity d = (r0, d0)" by fastforce
  from u show ?thesis
  proof (cases rule: updateSurface_cases)
    case (failed err)
    then have "d' = d0" using assms(1) u by (simp add: recordSurface_def sid_def)
    then show ?thesis using failed(2) same_surfaces_inv assms(2) by blast
  next
    case (stored d1 verified png surface)
    have d': "d' = noted (SurfaceOpened sid) d0" using assms(1) u stored(5) by (simp add: recordSurface_def sid_def)
    have inv: "surfaces_inv d1" using stored(1) same_surfaces_inv assms(2) by blast
    have "surfaces_inv (noted (SurfaceOpened sid) d0)"
    proof (rule inv_noted_end)
      show "history_ok (wc_trace d0)" using inv stored(2) by (simp add: surfaces_inv_def)
      show "slot_ok (live s' (wc_trace d0)) (wc_surfaces d0 s')" if "s' \<noteq> sid" for s'
        using inv stored(2) that by (simp add: surfaces_inv_def)
      show "slot_ok [] (wc_surfaces d0 sid)"
        using stored(2,3) record_actions_ok by (simp add: slot_ok_def surface_ok_def acts_kept_def)
    qed simp
    then show ?thesis unfolding d' .
  qed
qed

lemma tombstone_inv:
  assumes "surfaces_inv d"
  shows "surfaces_inv (tombstone_if b sid rid d)"
proof -
  have "surface_ok acts st \<Longrightarrow> surface_ok acts (tombstone_state rid st)" for acts st
    by (auto simp: surface_ok_def tombstone_state_def Let_def actions_ok_def acts_kept_def split: if_splits option.splits)
  then show ?thesis using assms surfaces_inv_put [OF assms] surfaces_inv_at [OF assms]
    by (auto simp: tombstone_if_def tombstoneSurfaceReplay_def split: option.splits)
qed

lemma tombstone_slot:
  "wc_surfaces d sid = Some st \<Longrightarrow> \<exists>st'. wc_surfaces (tombstone_if b s rid d) sid = Some st' \<and> srf_identity st' = srf_identity st \<and>
     srf_consumedActions st' = srf_consumedActions st \<and> srf_replayTombstones st \<subseteq> srf_replayTombstones st'"
  by (auto simp: tombstone_if_def tombstoneSurfaceReplay_def tombstone_state_def Let_def split: option.splits)

lemma tombstone_trace [simp]: "wc_trace (tombstone_if b sid rid d) = wc_trace d"
  by (auto simp: tombstone_if_def tombstoneSurfaceReplay_def split: option.splits)

text \<open>The dispatch of an action that has just been consumed.\<close>

lemma noted_act_inv:
  assumes inv: "surfaces_inv d" and st: "wc_surfaces d sid = Some st"
    and "a \<in> srf_consumedActions st" and "\<not> harmless e \<longrightarrow> r \<in> srf_replayTombstones st"
    and new: "\<And>x. x \<in> set (live sid (wc_trace d)) \<Longrightarrow> pair_ok x (a, r, e)"
  shows "surfaces_inv (noted (SurfaceActed sid a r e) d)"
proof -
  have h: "history_ok (wc_trace d @ [SurfaceActed sid a r e])"
    using inv new by (intro history_ok_snoc) (auto simp: surfaces_inv_def)
  have "surface_ok (live sid (wc_trace d) @ [(a, r, e)]) st"
    using surfaces_inv_at [OF inv st] assms(3,4) by (auto simp: surface_ok_def acts_kept_def)
  then have "slot_ok (live s (wc_trace d @ [SurfaceActed sid a r e])) (wc_surfaces d s)" for s
    using inv st by (cases "s = sid") (auto simp: surfaces_inv_def live_after_def ends_def slot_ok_def)
  with h show ?thesis by (simp add: surfaces_inv_def noted_def)
qed

lemma harmful_tombstoned:
  "\<not> harmless e \<Longrightarrow> shouldTombstoneSurfaceReplay e True \<and> e \<noteq> ''navigate''"
proof -
  have "harmless ''navigate''" by code_simp
  then show "\<not> harmless e \<Longrightarrow> shouldTombstoneSurfaceReplay e True \<and> e \<noteq> ''navigate''"
    by (auto simp: harmless_def lowered_def shouldTombstoneSurfaceReplay_def Let_def)
qed

lemma dispatch_action_inv:
  assumes go: "dispatch_action env sid st b act sequence d = (r, d')" and inv: "surfaces_inv d"
    and st1: "wc_surfaces d sid = Some st1" "srf_identity st1 = srf_identity st"
    and b: "action_id b \<in> srf_consumedActions st1" "sas_replayID b \<noteq> []"
    and new: "\<And>x. x \<in> set (live sid (wc_trace d)) \<Longrightarrow> pair_ok x (action_id b, sas_replayID b, e)"
    and e: "e = lowered (ac_Effect (sas_advertised b))"
  shows "surfaces_inv d'"
proof -
  define d1 where "d1 = tombstone_if (shouldTombstoneSurfaceReplay e True \<and> e \<noteq> ''navigate'') sid (sas_replayID b) d"
  define d2 where "d2 = noted (SurfaceActed sid (action_id b) (sas_replayID b) e) d1"
  have inv1: "surfaces_inv d1" unfolding d1_def by (rule tombstone_inv [OF inv])
  obtain st2 where st2: "wc_surfaces d1 sid = Some st2" "srf_identity st2 = srf_identity st1"
      "srf_consumedActions st2 = srf_consumedActions st1"
    using tombstone_slot [OF st1(1)] unfolding d1_def by blast
  have tomb: "sas_replayID b \<in> srf_replayTombstones st2" if "\<not> harmless e"
    using st2(1) st1(1) b(2) harmful_tombstoned [OF that]
    by (auto simp: d1_def tombstone_if_def tombstoneSurfaceReplay_def tombstone_state_def Let_def)
  have inv2: "surfaces_inv d2" unfolding d2_def
    by (rule noted_act_inv [OF inv1 st2(1)]) (use b(1) st2(3) tomb new in \<open>auto simp: d1_def\<close>)
  have slot2: "wc_surfaces d2 sid = Some st2" using st2(1) by (simp add: d2_def noted_def)
  obtain er d3 where act: "Act env act d2 = (er, d3)" by fastforce
  obtain w d4 where w: "waitForSnapshotChange env sequence d3 = (w, d4)" by fastforce
  have "same_surfaces d2 d3" using surf.after_Act [where env = env and a = act, OF surf.refl [of d2]] act by simp
  moreover have "same_surfaces d3 d4" using w by (rule surf.by_waitForSnapshotChange)
  ultimately have s3: "same_surfaces d2 d3" and s4: "same_surfaces d2 d4" using surf.trans by blast+
  have inv3: "surfaces_inv d3" and inv4: "surfaces_inv d4" using s3 s4 inv2 same_surfaces_inv by blast+
  have slot4: "wc_surfaces d4 sid = Some st2" using s4 slot2 by (simp add: same_surfaces_def)
  have inv5: "surfaces_inv (snd (updateSurface env sid after (srf_identity st) d4))" for after
  proof -
    obtain r5 d5 where u: "updateSurface env sid after (srf_identity st) d4 = (r5, d5)" by fastforce
    show ?thesis using updateSurface_inv [OF u inv4 slot4] st2(2) st1(2) u by simp
  qed
  have "dispatch_action env sid st b act sequence d =
     (let failed = (\<lambda>err d. (Inl err, tombstone_if (shouldTombstoneSurfaceReplay e False) sid (sas_replayID b) d))
      in case er of Some err \<Rightarrow> failed err d3
         | None \<Rightarrow> (case w of Inl err \<Rightarrow> failed err d4
            | Inr after \<Rightarrow> (case updateSurface env sid after (srf_identity st) d4 of
                (Inl err, d) \<Rightarrow> failed err d | (Inr surface, d) \<Rightarrow> (Inr surface, d))))"
    using act w unfolding dispatch_action_def Let_def e [symmetric] d1_def [symmetric] d2_def [symmetric]
    by (auto split: option.splits sum.splits)
  with go inv3 inv4 inv5 show ?thesis
    by (auto simp: Let_def split: option.splits sum.splits prod.splits intro!: tombstone_inv) (metis snd_conv)+
qed

lemma andThen_go:
  assumes "andThen m f = (r, d')" and "same_surfaces d (snd m)"
    and "\<And>err. r = Inl err \<Longrightarrow> same_surfaces d d' \<Longrightarrow> P"
    and "\<And>x d1. m = (Inr x, d1) \<Longrightarrow> same_surfaces d d1 \<Longrightarrow> f x d1 = (r, d') \<Longrightarrow> P"
  shows P
  using assms by (auto simp: andThen_def split: prod.splits sum.splits)

lemma ActSurface_cases:
  assumes "ActSurface env sid action d = (r, d')"
  obtains (refused) err where "r = Inl err" "same_surfaces d d'"
    | (dispatched) st b s0 d0 s1 d1 where
        "wc_surfaces d sid = Some st" "srf_actions st (sact_ActionID action) = Some b" "act_request_error b action = None"
        "Snapshot env d = (Inr s0, d0)" "prepareSurfaceSnapshot env s0 d0 = (Inr s1, d1)" "same_surfaces d d1"
        "identity_matches (srf_identity st) s1" "ws_Sequence s1 = srf_sequence st"
        "validateSurfaceActionState (en_lib env) sid s1 b = None"
        "dispatch_action env sid st b (companion_action b action (ws_Sequence s1)) (ws_Sequence s1)
          (d1\<lparr>wc_surfaces := (wc_surfaces d1)(sid \<mapsto> consume_state (sact_ActionID action) st)\<rparr>) = (r, d')"
proof (cases "wc_surfaces d sid")
  case None
  then show thesis using assms refused by (auto simp: ActSurface_def)
next
  case (Some st)
  show thesis
  proof (cases "srf_actions st (sact_ActionID action)")
    case None
    then show thesis using assms Some refused by (auto simp: ActSurface_def)
  next
    case b: (Some b)
    note go = surf.after_calls
    show thesis
      using assms unfolding ActSurface_def Some option.case b
      apply -
      apply (erule andThen_go [where d = d], (simp add: go; fail), (erule refused, assumption))
      apply (erule andThen_go [where d = d], (simp add: go; fail), (erule refused, assumption))
      apply (erule andThen_go [where d = d], (simp add: go; fail), (erule refused, assumption))
      apply (erule andThen_go [where d = d], (simp add: go; fail), (erule refused, assumption))
      apply (erule andThen_go [where d = d], (simp add: go; fail), (erule refused, assumption))
      apply (erule andThen_go [where d = d], (simp add: go; fail), (erule refused, assumption))
      apply (erule andThen_go [where d = d], (simp add: go; fail), (erule refused, assumption))
      apply (clarsimp simp: consumeSurfaceAction_def same_binding_def)
      subgoal for s0 d0 s1 d1
        using Some b by (cases "wc_surfaces d1 sid") (auto simp: same_surfaces_def same_binding_def intro!: dispatched)
      done
  qed
qed

lemma ActSurface_inv:
  assumes "ActSurface env sid action d = (r, d')" and inv: "surfaces_inv d"
  shows "surfaces_inv d'"
  using assms(1)
proof (cases rule: ActSurface_cases)
  case (refused err)
  then show ?thesis using inv same_surfaces_inv by blast
next
  case (dispatched st b s0 d0 s1 d1)
  let ?k = "sact_ActionID action"
  let ?e = "lowered (ac_Effect (sas_advertised b))"
  let ?d2 = "d1\<lparr>wc_surfaces := (wc_surfaces d1)(sid \<mapsto> consume_state ?k st)\<rparr>"
  have inv1: "surfaces_inv d1" and slot1: "wc_surfaces d1 sid = Some st"
    using dispatched(1,6) inv same_surfaces_inv by (auto simp: same_surfaces_def)
  have ok: "surface_ok (live sid (wc_trace d1)) st" using surfaces_inv_at [OF inv1 slot1] .
  have b: "action_id b = ?k" "?k \<notin> srf_consumedActions st" "sas_replayID b \<notin> srf_replayTombstones st" "sas_replayID b \<noteq> []"
    using ok dispatched(2) unfolding surface_ok_def actions_ok_def by blast+
  have "surface_ok (live sid (wc_trace d1)) (consume_state ?k st)"
    using ok by (auto simp: surface_ok_def consume_state_def actions_ok_def acts_kept_def)
  then have inv2: "surfaces_inv ?d2" by (rule surfaces_inv_put [OF inv1])
  have new: "pair_ok x (action_id b, sas_replayID b, ?e)" if "x \<in> set (live sid (wc_trace ?d2))" for x
    using that ok b by (cases x) (auto simp: surface_ok_def acts_kept_def pair_ok_def)
  show ?thesis
    by (rule dispatch_action_inv [where ?st1.0 = "consume_state ?k st", OF dispatched(10) inv2 _ _ _ b(4) new refl])
      (simp_all add: consume_state_def b(1))
qed

lemma CloseSurface_inv:
  assumes "CloseSurface env sid d = (r, d')" and inv: "surfaces_inv d"
  shows "surfaces_inv d'"
proof (cases "wc_surfaces d sid")
  case None
  then show ?thesis using assms by (simp add: CloseSurface_def)
next
  case (Some st)
  have closed: "surfaces_inv (noted (SurfaceClosed sid) (d1\<lparr>wc_surfaces := (wc_surfaces d1)(sid := None)\<rparr>))"
    if "same_surfaces d d1" for d1
  proof -
    have "surfaces_inv d1" using that inv same_surfaces_inv by blast
    then show ?thesis by (intro inv_noted_end) (auto simp: surfaces_inv_def slot_ok_def)
  qed
  note go = surf.after_calls surf.after_call surf.after_Act
  show ?thesis
    using assms(1) unfolding CloseSurface_def Some option.case
    apply -
    apply (erule andThen_go [where d = d], (simp add: go; fail), (use same_surfaces_inv inv in blast))
    apply (erule andThen_go [where d = d], (simp add: go; fail), (use same_surfaces_inv inv in blast))
    apply (erule andThen_go [where d = d], (simp add: go; fail), (use same_surfaces_inv inv in blast))
    apply (erule andThen_go [where d = d], (simp add: go; fail), (use same_surfaces_inv inv in blast))
    apply (erule andThen_go [where d = d], (simp add: go; fail), (use same_surfaces_inv inv in blast))
    apply (erule andThen_go [where d = d], (simp add: go; fail), (use same_surfaces_inv inv in blast))
    apply (use closed in auto)
    done
qed

lemma OpenSurface_inv:
  assumes "OpenSurface env reference d = (r, d')" and inv: "surfaces_inv d"
  shows "surfaces_inv d'"
proof (cases "parse_reference (en_lib env) (ar_AccountID (wc_account d)) (TrimSpace reference)")
  case (Inl err)
  then show ?thesis using assms by (simp add: OpenSurface_def)
next
  case (Inr p)
  note go = surf.after_calls surf.after_call surf.after_Act surf.after_notificationEvent
  show ?thesis
    using assms(1) unfolding OpenSurface_def Inr sum.case prod.case_eq_if
    apply -
    apply (erule andThen_go [where d = d], (simp add: go; fail), (use same_surfaces_inv inv in blast))
    apply (erule andThen_go [where d = d], (simp add: go; fail), (use same_surfaces_inv inv in blast))
    apply (erule andThen_go [where d = d], (simp add: go; fail), (use same_surfaces_inv inv in blast))
    apply (erule andThen_go [where d = d], (simp add: go; fail), (use same_surfaces_inv inv in blast))
    apply (erule andThen_go [where d = d], (simp add: go; fail), (use same_surfaces_inv inv in blast))
    apply (erule andThen_go [where d = d], (simp add: go; fail), (use same_surfaces_inv inv in blast))
    apply (use recordSurface_inv same_surfaces_inv inv in blast)
    done
qed

lemma SnapshotSurface_inv:
  assumes "SnapshotSurface env sid d = (r, d')" and inv: "surfaces_inv d"
  shows "surfaces_inv d'"
proof (cases "wc_surfaces d sid")
  case None
  then show ?thesis using assms by (simp add: SnapshotSurface_def)
next
  case (Some st)
  note go = surf.after_calls
  show ?thesis
    using assms(1) unfolding SnapshotSurface_def Some option.case
    apply -
    apply (erule andThen_go [where d = d], (simp add: go; fail), (use same_surfaces_inv inv in blast))
    apply (erule andThen_go [where d = d], (simp add: go; fail), (use same_surfaces_inv inv in blast))
    subgoal for u d1 s d2
      using updateSurface_inv [of env sid s st d2 r d' st] same_surfaces_inv [OF _ inv, of d2] Some by (auto simp: same_surfaces_def)
    done
qed

lemma reset_inv:
  assumes "surfaces_inv d" and "wc_trace d' = wc_trace d @ [DriverReset]" and "wc_surfaces d' = Map.empty"
  shows "surfaces_inv d'"
  using assms by (auto simp: surfaces_inv_def slot_ok_def live_after_def ends_def intro: history_ok_snoc)

lemma wc_step_inv: "wc_step d d' \<Longrightarrow> surfaces_inv d \<Longrightarrow> surfaces_inv d'"
proof (induction rule: wc_step.induct)
  case (idle d t)
  then show ?case using same_surfaces_inv surf.by_time by blast
next
  case (start started account d e d')
  then show ?case by (auto simp: wc_Start_def noted_def split: if_splits sum.splits intro: reset_inv)
next
  case (stop stopped d e d')
  then show ?case by (auto simp: wc_Stop_def noted_def split: option.splits intro: reset_inv)
qed (metis snd_conv same_surfaces_inv surf.by_Status surf.by_AuthSnapshot surf.by_PerformAuthAction surf.by_SubmitAuthCode
      surf.by_ListConversations surf.by_ReadMessages surf.by_Send OpenSurface_inv SnapshotSurface_inv ActSurface_inv CloseSurface_inv)+

lemma new_inv: "surfaces_inv (wc_New package)"
  by (simp add: wc_New_def surfaces_inv_def slot_ok_def)

interpretation surfaces: invariant_system "\<lambda>d. d = wc_New package" wc_step surfaces_inv
  by unfold_locales (auto simp: new_inv intro: wc_step_inv)

section \<open>Claims\<close>

lemma r_start: "wc_step\<^sup>*\<^sup>* (wc_New DefaultWeComPackage) (r_driver Map.empty [DriverReset])"
proof -
  let ?started = "snd (wc_Start (Inr []) s_runtime (wc_New DefaultWeComPackage))"
  have "wc_step (wc_New DefaultWeComPackage) ?started" by (rule wc_step.start) (rule prod.collapse [symmetric])
  moreover have "r_driver Map.empty [DriverReset] = ?started\<lparr>wc_now := 62135596800 * second\<rparr>"
    by (simp add: wc_Start_def wc_New_def noted_def r_driver_def)
  moreover have "wc_step ?started (?started\<lparr>wc_now := 62135596800 * second\<rparr>)"
    by (rule wc_step.idle) (simp add: wc_Start_def wc_New_def noted_def)
  ultimately show ?thesis by (simp add: converse_rtranclp_into_rtranclp)
qed

lemma r_run: "wc_step\<^sup>*\<^sup>* (wc_New DefaultWeComPackage) (r_driver r_map3 (r_first @ r_turn 2 3 @ r_turn 3 4))"
proof -
  obtain s s' where
    "ActSurface r_env r_sid (r_request 2) (r_driver r_opened_map r_first) = (Inr s, r_driver r_map2 (r_first @ r_turn 2 3))"
    "ActSurface r_env r_sid (r_request 3) (r_driver r_map2 (r_first @ r_turn 2 3)) =
       (Inr s', r_driver r_map3 (r_first @ r_turn 2 3 @ r_turn 3 4))"
    using r_acted r_acted_again by blast
  note acts = this [THEN wc_step.act_surface]
  note opened = r_opened [folded r_opened_map_def, THEN wc_step.open_surface]
  show ?thesis using r_start opened acts by (meson rtranclp.rtrancl_into_rtrancl)
qed

text \<open>C39. A surface action is dispatched at most once, and a control with a possible outside effect is
  operated at most once while its surface is open. Over every run of the driver, whatever the companion
  answers: between two dispatches on one surface, not separated by its closing, by its opening anew or by
  a start or stop of the driver, the action identifiers differ, and if the two are for the same control of
  the same window (the same replay identity), the first had one of the effects observe, search input and
  navigate. No re-rendering of the screen, failed dispatch or second identifier of the control gets around
  this.\<close>

theorem wecom_surface_actions_one_shot:
  assumes "wc_step\<^sup>*\<^sup>* (wc_New package) d"
    and "wc_trace d = xs @ SurfaceActed sid a1 r1 e1 # ys @ SurfaceActed sid a2 r2 e2 # zs"
    and "\<forall>c \<in> set ys. \<not> ends sid c"
  shows "a1 \<noteq> a2 \<and> (r1 = r2 \<longrightarrow> harmless e1)"
proof -
  have "surfaces_inv d" by (rule surfaces.reachable_inv [OF refl assms(1)])
  then have "pair_ok (a1, r1, e1) (a2, r2, e2)"
    using assms(2,3) unfolding surfaces_inv_def history_ok_def by blast
  then show ?thesis by (simp add: pair_ok_def)
qed

theorem wecom_surface_actions_one_shot_witness:
  "\<exists>d xs ys zs. wc_step\<^sup>*\<^sup>* (wc_New DefaultWeComPackage) d \<and>
     wc_trace d = xs @ SurfaceActed r_sid (action_id (r_forward 2)) (r_replay 2) ''observe'' # ys @
       SurfaceActed r_sid (action_id (r_forward 3)) (r_replay 3) ''observe'' # zs \<and>
     action_id (r_forward 2) \<noteq> action_id (r_forward 3) \<and> r_replay 2 = r_replay 3 \<and> harmless ''observe''"
proof -
  let ?d = "r_driver r_map3 (r_first @ r_turn 2 3 @ r_turn 3 4)"
  let ?xs = "r_first @ take 2 (r_turn 2 3)" and ?ys = "drop 3 (r_turn 2 3) @ take 2 (r_turn 3 4)" and ?zs = "drop 3 (r_turn 3 4)"
  have trace: "wc_trace ?d = ?xs @ SurfaceActed r_sid (action_id (r_forward 2)) (r_replay 2) ''observe'' # ?ys @
       SurfaceActed r_sid (action_id (r_forward 3)) (r_replay 3) ''observe'' # ?zs"
    by (simp add: r_turn_def)
  have "\<forall>c \<in> set ?ys. \<not> ends r_sid c" by (simp add: r_turn_def ends_def)
  note once = wecom_surface_actions_one_shot [OF r_run trace this]
  have same: "r_replay 2 = r_replay 3" by (simp add: r_bound bindSurfaceAction_def Let_def)
  with once show ?thesis using r_run trace by blast
qed

text \<open>What is called after the action: observations, and a screenshot.\<close>

definition quiet_since :: "WeCom \<Rightarrow> WeCom \<Rightarrow> bool" where
  "quiet_since d d' \<longleftrightarrow> (\<exists>es. wc_trace d' = wc_trace d @ es \<and> list_all quiet es)"

interpretation since: observing quiet_since
proof (unfold_locales, goal_cases)
  case (2 d d1 d2)
  then show ?case unfolding quiet_since_def by fastforce
qed (auto simp: quiet_since_def)

lemma updateSurface_since: "quiet_since d d1 \<Longrightarrow> quiet_since d (snd (updateSurface env sid s bound d1))"
  unfolding updateSurface_def Let_def
  by (intro since.after_andThen since.after_calls; simp add: quiet_since_def)

lemma since_tombstone: "quiet_since d d1 \<Longrightarrow> quiet_since d (tombstone_if b sid rid d1)"
  by (simp add: quiet_since_def)

definition the_acts :: "wc_call list \<Rightarrow> CompanionAction list" where
  "the_acts es = List.map_filter (\<lambda>c. case c of Acted a outcome \<Rightarrow> Some a | _ \<Rightarrow> None) es"

lemma the_acts_simps [simp]:
  "the_acts [] = []" "the_acts (Acted a outcome # es) = a # the_acts es" "the_acts (xs @ ys) = the_acts xs @ the_acts ys"
  by (simp_all add: the_acts_def map_filter_def)

lemma the_acts_quiet: "list_all quiet es \<Longrightarrow> the_acts es = []"
proof (induction es)
  case (Cons c es)
  then show ?case by (cases c) (simp_all add: the_acts_def map_filter_def)
qed simp

lemma dispatch_action_trace:
  assumes go: "dispatch_action env sid st b act sequence d = (r, d')"
  obtains rest where "wc_trace d' = wc_trace d @ SurfaceActed sid (action_id b) (sas_replayID b) (lowered (ac_Effect (sas_advertised b))) # rest"
    "the_acts rest = [] \<or> the_acts rest = [act]"
proof -
  define e where "e = lowered (ac_Effect (sas_advertised b))"
  define d2 where "d2 = noted (SurfaceActed sid (action_id b) (sas_replayID b) e)
    (tombstone_if (shouldTombstoneSurfaceReplay e True \<and> e \<noteq> ''navigate'') sid (sas_replayID b) d)"
  obtain er d3 where act: "Act env act d2 = (er, d3)" by fastforce
  obtain w d4 where w: "waitForSnapshotChange env sequence d3 = (w, d4)" by fastforce
  have d4: "quiet_since d3 d4" using w by (rule since.by_waitForSnapshotChange)
  have d5: "quiet_since d3 (snd (updateSurface env sid after (srf_identity st) d4))" for after
    by (rule updateSurface_since [OF d4])
  have "dispatch_action env sid st b act sequence d =
     (let failed = (\<lambda>err d. (Inl err, tombstone_if (shouldTombstoneSurfaceReplay e False) sid (sas_replayID b) d))
      in case er of Some err \<Rightarrow> failed err d3
         | None \<Rightarrow> (case w of Inl err \<Rightarrow> failed err d4
            | Inr after \<Rightarrow> (case updateSurface env sid after (srf_identity st) d4 of
                (Inl err, d) \<Rightarrow> failed err d | (Inr surface, d) \<Rightarrow> (Inr surface, d))))"
    using act w unfolding dispatch_action_def Let_def e_def [symmetric] d2_def [symmetric]
    by (auto split: option.splits sum.splits)
  with go d4 d5 have "quiet_since d3 d'"
    by (auto simp: Let_def split: option.splits sum.splits prod.splits intro!: since_tombstone) (metis snd_conv)+
  then obtain es where es: "wc_trace d' = wc_trace d3 @ es" "list_all quiet es" by (auto simp: quiet_since_def)
  have "wc_trace d2 = wc_trace d @ [SurfaceActed sid (action_id b) (sas_replayID b) e]"
    by (simp add: d2_def noted_def)
  moreover have "wc_trace d3 = wc_trace d2 \<or> (\<exists>outcome. wc_trace d3 = wc_trace d2 @ [Acted act outcome])"
    using act by (auto simp: Act_def split: option.splits prod.splits)
  ultimately show thesis using that es the_acts_quiet [OF es(2)] unfolding e_def by fastforce
qed

lemma validateSurfaceActionState_node:
  assumes "validateSurfaceActionState lib sid s b = None"
  shows "sas_sequence b = ws_Sequence s" "surfaceContextDigest lib s = sas_contextDigest b"
    "identity_matches (sas_identity b) s"
    "\<exists>n \<in> set (ws_Nodes s). wn_ID n = sas_nodeID b \<and> nodeSupportsSurfaceAction n (sas_kind b) \<and>
      surfaceNodeSignature lib n = sas_nodeSignature b \<and>
      classifySurfaceAction (lb_unicode lib) s n (sas_kind b) = (ac_Risk (sas_advertised b), ac_Effect (sas_advertised b))"
proof -
  from assms show "sas_sequence b = ws_Sequence s" "surfaceContextDigest lib s = sas_contextDigest b"
    "identity_matches (sas_identity b) s"
    by (auto simp: validateSurfaceActionState_def split: if_splits)
  from assms obtain n where n: "filter (\<lambda>n. wn_ID n = sas_nodeID b) (ws_Nodes s) = [n]"
      "nodeSupportsSurfaceAction n (sas_kind b)" "surfaceNodeSignature lib n = sas_nodeSignature b"
      "case classifySurfaceAction (lb_unicode lib) s n (sas_kind b) of (risk, effect) \<Rightarrow>
         sas_advertised (bindSurfaceAction lib sid s n (sas_kind b)
           (surfaceActionLabel (lb_unicode lib) s n (sas_kind b)) risk effect (sas_contextDigest b)) = sas_advertised b"
    by (auto simp: validateSurfaceActionState_def Let_def split: if_splits list.splits prod.splits)
  have "n \<in> set (ws_Nodes s) \<and> wn_ID n = sas_nodeID b"
    using n(1) by (auto simp: filter_eq_Cons_iff)
  moreover have "classifySurfaceAction (lb_unicode lib) s n (sas_kind b) = (ac_Risk (sas_advertised b), ac_Effect (sas_advertised b))"
    using n(4) by (cases "classifySurfaceAction (lb_unicode lib) s n (sas_kind b)")
      (auto simp: bindSurfaceAction_def Let_def dest: arg_cong [where f = ac_Risk] arg_cong [where f = ac_Effect])
  ultimately show "\<exists>n \<in> set (ws_Nodes s). wn_ID n = sas_nodeID b \<and> nodeSupportsSurfaceAction n (sas_kind b) \<and>
      surfaceNodeSignature lib n = sas_nodeSignature b \<and>
      classifySurfaceAction (lb_unicode lib) s n (sas_kind b) = (ac_Risk (sas_advertised b), ac_Effect (sas_advertised b))"
    using n(2,3) by blast
qed

lemma Snapshot_prepare_screen:
  assumes "Snapshot env d = (Inr s, d0)" and "prepareSurfaceSnapshot env s d0 = (Inr s1, d1)"
  shows "\<exists>c. s1 = screen s c \<and> wc_trace d1 = wc_trace d @ [Observed s, Foreground c]"
proof -
  obtain d2 where w: "withForegroundActivity env s d0 = (s1, d2)" "d1 = d2" "validateSurfaceSnapshot (en_u env) s1 = None"
    using assms(2) by (auto simp: prepareSurfaceSnapshot_def andThen_Inr split: if_splits prod.splits)
  have "ws_PackageName s1 = DefaultWeComPackage" using w(3) by (auto simp: validateSurfaceSnapshot_def split: if_splits)
  from withForegroundActivity_screen [OF w(1) this] Snapshot_InrD(2) [OF assms(1)] w(2) show ?thesis by auto
qed

text \<open>What a surface action must have passed when it is dispatched. The action was advertised by this
  surface; right before, the driver looked at the window, and that screen is in the same window and is no
  login, privacy, verification or high-risk screen, has the sequence and the semantic digest of the
  advertisement, and contains the advertised node unchanged, whose risk and effect, classified anew, are
  the advertised ones. They are not high-risk; anything but a low risk, and every external write, was
  confirmed by the caller. At most one action reaches the companion in the call, the bound one with that
  sequence.\<close>

theorem wecom_act_guarded:
  assumes "wc_step\<^sup>*\<^sup>* (wc_New package) d" and "ActSurface env sid action d = (r, d')"
    and "wc_trace d' = wc_trace d @ es" and "SurfaceActed sid' aid rid effect \<in> set es"
  shows "\<exists>st b s c n rest.
    wc_surfaces d sid = Some st \<and> srf_actions st (sact_ActionID action) = Some b \<and>
    es = [Observed s, Foreground c,
          SurfaceActed sid (sact_ActionID action) (sas_replayID b) (lowered (ac_Effect (sas_advertised b)))] @ rest \<and>
    validateSurfaceSnapshot (en_u env) (screen s c) = None \<and> identityForSurface (screen s c) = srf_identity st \<and>
    ws_Sequence s = sas_sequence b \<and> surfaceContextDigest (en_lib env) (screen s c) = sas_contextDigest b \<and>
    n \<in> set (ws_Nodes s) \<and> wn_ID n = sas_nodeID b \<and> surfaceNodeSignature (en_lib env) n = sas_nodeSignature b \<and>
    classifySurfaceAction (en_u env) (screen s c) n (sas_kind b) = (ac_Risk (sas_advertised b), ac_Effect (sas_advertised b)) \<and>
    \<not> high_risk_action (lowered (ac_Risk (sas_advertised b))) (lowered (ac_Effect (sas_advertised b))) \<and>
    (lowered (ac_Risk (sas_advertised b)) \<noteq> ''low'' \<or> lowered (ac_Effect (sas_advertised b)) = ''external_write'' \<longrightarrow>
      sact_Confirmed action) \<and>
    set (the_acts rest) \<subseteq> {companion_action b action (ws_Sequence s)} \<and> length (the_acts rest) \<le> 1"
  using assms(2)
proof (cases rule: ActSurface_cases)
  case (refused err)
  then obtain fs where "wc_trace d' = wc_trace d @ fs" "list_all (\<lambda>c. \<not> is_note c) fs" by (auto simp: same_surfaces_def)
  then show ?thesis using assms(3,4) by (auto simp: list_all_iff)
next
  case (dispatched st b s0 d0 s1 d1)
  have inv: "surfaces_inv d" by (rule surfaces.reachable_inv [OF refl assms(1)])
  have id: "action_id b = sact_ActionID action"
    using surfaces_inv_at [OF inv dispatched(1)] dispatched(2) unfolding surface_ok_def actions_ok_def by blast
  obtain c where c: "s1 = screen s0 c" "wc_trace d1 = wc_trace d @ [Observed s0, Foreground c]"
    using Snapshot_prepare_screen [OF dispatched(4,5)] by blast
  obtain rest where rest: "wc_trace d' = wc_trace d1 @
        SurfaceActed sid (action_id b) (sas_replayID b) (lowered (ac_Effect (sas_advertised b))) # rest"
      "the_acts rest = [] \<or> the_acts rest = [companion_action b action (ws_Sequence s1)]"
    using dispatch_action_trace [OF dispatched(10)] by auto
  note node = validateSurfaceActionState_node [OF dispatched(9)]
  obtain n where n: "n \<in> set (ws_Nodes s1)" "wn_ID n = sas_nodeID b" "surfaceNodeSignature (en_lib env) n = sas_nodeSignature b"
      "classifySurfaceAction (en_u env) s1 n (sas_kind b) = (ac_Risk (sas_advertised b), ac_Effect (sas_advertised b))"
    using node(4) by blast
  have es: "es = [Observed s0, Foreground c,
      SurfaceActed sid (sact_ActionID action) (sas_replayID b) (lowered (ac_Effect (sas_advertised b)))] @ rest"
    using assms(3) rest(1) c(2) id by simp
  have valid: "validateSurfaceSnapshot (en_u env) (screen s0 c) = None"
    using prepareSurfaceSnapshot_valid [OF dispatched(5)] c(1) by simp
  have identity: "identityForSurface (screen s0 c) = srf_identity st"
    using dispatched(7) c(1) by (simp add: identity_matches_eq)
  have asked: "\<not> high_risk_action (lowered (ac_Risk (sas_advertised b))) (lowered (ac_Effect (sas_advertised b)))"
    "(lowered (ac_Risk (sas_advertised b)) \<noteq> ''low'' \<or> lowered (ac_Effect (sas_advertised b)) = ''external_write'') \<longrightarrow>
      sact_Confirmed action"
    using dispatched(3) by (auto simp: act_request_error_def Let_def split: if_splits)
  have acts: "set (the_acts rest) \<subseteq> {companion_action b action (ws_Sequence s0)}" "length (the_acts rest) \<le> 1"
    using rest(2) c(1) by (auto simp: screen_Sequence)
  have n0: "n \<in> set (ws_Nodes s0)" using n(1) c(1) by (simp add: screen_def)
  have seq: "ws_Sequence s0 = sas_sequence b" using node(1) c(1) by (simp add: screen_Sequence)
  show ?thesis
    using dispatched(1,2) es valid identity asked acts n0 seq node(2) n(2-4) unfolding c(1) by blast
qed

end
