(* ===== verification/WeCom_Read_Props.thy ===== *)
theory WeCom_Read_Props
  imports WeCom_Send WeCom_Auth "HOL-Library.Multiset"
begin

text \<open>
  What the reading functions of the WeCom driver compute: the evidence of a bubble whatever the order of
  the map, the events of an honest journal, the gaps of a page of messages, and the references of
  notifications.
\<close>

section \<open>The order of the map\<close>

lemma HasPrefix_append: "HasPrefix s p \<longleftrightarrow> (\<exists>t. s = p @ t)"
  by (metis HasPrefix_def append_eq_conv_conj append_take_drop_id)

lemma isDescendant_longer: "isDescendant a b \<Longrightarrow> length b < length a"
  by (auto simp: isDescendant_def HasPrefix_append)

lemma isDescendant_trans: "isDescendant a b \<Longrightarrow> isDescendant b c \<Longrightarrow> isDescendant a c"
proof -
  assume a: "isDescendant a b" "isDescendant b c"
  have "length c < length a" using isDescendant_longer [OF a(1)] isDescendant_longer [OF a(2)] by linarith
  with a show ?thesis by (auto simp: isDescendant_def HasPrefix_append)
qed

definition encloses :: "string set \<Rightarrow> string \<Rightarrow> bool" where
  "encloses ids nid \<longleftrightarrow> (\<exists>other \<in> ids. nid \<noteq> other \<and> isDescendant other nid)"

text \<open>An identifier that encloses another encloses an innermost one.\<close>

lemma encloses_innermost:
  assumes "finite ids" and "encloses ids nid"
  shows "\<exists>leaf \<in> ids. isDescendant leaf nid \<and> \<not> encloses ids leaf"
proof -
  let ?D = "{x \<in> ids. isDescendant x nid}"
  have "finite ?D" "?D \<noteq> {}" using assms by (auto simp: encloses_def)
  then have "Max (length ` ?D) \<in> length ` ?D" by (intro Max_in) auto
  then obtain leaf where "leaf \<in> ?D" "length leaf = Max (length ` ?D)" by (metis (no_types, lifting) imageE)
  with \<open>finite ?D\<close> have leaf: "leaf \<in> ?D" "\<forall>x \<in> ?D. length x \<le> length leaf" by simp_all
  have "\<not> encloses ids leaf"
  proof
    assume "encloses ids leaf"
    then obtain x where x: "x \<in> ids" "isDescendant x leaf" by (auto simp: encloses_def)
    with leaf(1) have "x \<in> ?D" using isDescendant_trans by blast
    with leaf(2) isDescendant_longer [OF x(2)] show False by fastforce
  qed
  with leaf(1) show ?thesis by blast
qed

lemma drop_enclosing_step:
  assumes leaves: "\<forall>k \<in> ids. \<not> encloses ids k \<longrightarrow> k \<in> fst ` set m" and sub: "fst ` set m \<subseteq> ids" and fin: "finite ids"
    and k: "k \<in> fst ` set m"
  shows "list_ex (\<lambda>other. k \<noteq> other \<and> isDescendant other k) (map fst m) \<longleftrightarrow> encloses ids k"
proof
  assume "list_ex (\<lambda>other. k \<noteq> other \<and> isDescendant other k) (map fst m)"
  then show "encloses ids k" using sub by (auto simp: encloses_def list_ex_iff)
next
  assume "encloses ids k"
  then obtain leaf where "leaf \<in> ids" "isDescendant leaf k" "\<not> encloses ids leaf"
    using encloses_innermost [OF fin] by blast
  with leaves isDescendant_longer [of leaf k] show "list_ex (\<lambda>other. k \<noteq> other \<and> isDescendant other k) (map fst m)"
    by (fastforce simp: list_ex_iff)
qed

lemma drop_enclosing_filter:
  assumes "\<forall>k \<in> ids. \<not> encloses ids k \<longrightarrow> k \<in> fst ` set m" and "fst ` set m \<subseteq> ids" and "finite ids"
  shows "drop_enclosing order m = filter (\<lambda>(k, n). k \<notin> set order \<or> \<not> encloses ids k) m"
  using assms(1,2)
proof (induction order arbitrary: m)
  case Nil
  then show ?case by simp
next
  case (Cons k order)
  show ?case
  proof (cases "k \<in> fst ` set m \<and> encloses ids k")
    case True
    let ?m = "filter (\<lambda>(j, n). j \<noteq> k) m"
    have "drop_enclosing (k # order) m = drop_enclosing order ?m"
      using True drop_enclosing_step [OF Cons.prems assms(3), of k] by simp
    also have "\<dots> = filter (\<lambda>(j, n). j \<notin> set order \<or> \<not> encloses ids j) ?m"
      using Cons.prems True by (intro Cons.IH) force+
    also have "\<dots> = filter (\<lambda>(j, n). j \<notin> set (k # order) \<or> \<not> encloses ids j) m"
      unfolding filter_filter using True by (intro filter_cong) auto
    finally show ?thesis .
  next
    case False
    have "drop_enclosing (k # order) m = drop_enclosing order m"
      using False drop_enclosing_step [OF Cons.prems assms(3), of k] by auto
    also have "\<dots> = filter (\<lambda>(j, n). j \<notin> set order \<or> \<not> encloses ids j) m" by (rule Cons.IH [OF Cons.prems])
    also have "\<dots> = filter (\<lambda>(j, n). j \<notin> set (k # order) \<or> \<not> encloses ids j) m"
      using False by (intro filter_cong) (auto simp: rev_image_eqI)
    finally show ?thesis .
  qed
qed

text \<open>The texts that enclose no other text, and their evidence: no map, no deletion.\<close>

definition innermost_evidence :: "UISnapshot \<Rightarrow> string \<Rightarrow> chatBinding \<Rightarrow> string list" where
  "innermost_evidence snapshot t binding =
     (case uniqueNodeIndex (ws_Nodes snapshot) of
        Inl err \<Rightarrow> []
      | Inr byID \<Rightarrow>
          let texts = filter (bubble_text t binding) (ws_Nodes snapshot)
          in sort (List.map_filter (outgoing_evidence byID binding) (filter (\<lambda>n. \<not> encloses (wn_ID ` set texts) (wn_ID n)) texts)))"

lemma mset_map_filter: "mset (List.map_filter f xs) = image_mset (the \<circ> f) (filter_mset (\<lambda>x. f x \<noteq> None) (mset xs))"
  by (simp add: List.map_filter_def)

lemma map_filter_map: "List.map_filter f (map g xs) = List.map_filter (f \<circ> g) xs"
  by (induction xs) (auto simp: List.map_filter_def)

lemma sort_perm: "mset xs = mset ys \<Longrightarrow> sort xs = sort (ys :: 'a :: linorder list)"
  by (metis mset_sort properties_for_sort sorted_sort)

text \<open>The evidence of an outgoing bubble does not depend on the order in which Go walks its map. For all
  orders of the two loops over \<^verbatim>\<open>matching\<close>, of which the first deletes entries while it runs, the result
  is the same, and it is the evidence of exactly the matching texts that enclose no other matching text.\<close>

theorem bubble_evidence_order_free:
  assumes "\<And>ks. set (order1 ks) = set ks" and "\<And>m. mset (order2 m) = mset m"
  shows "bubble_evidence order1 order2 snapshot t binding = innermost_evidence snapshot t binding"
proof (cases "uniqueNodeIndex (ws_Nodes snapshot)")
  case (Inl err)
  then show ?thesis by (simp add: bubble_evidence_def innermost_evidence_def)
next
  case (Inr byID)
  let ?texts = "filter (bubble_text t binding) (ws_Nodes snapshot)"
  let ?m = "map (\<lambda>n. (wn_ID n, n)) ?texts"
  let ?ids = "wn_ID ` set ?texts"
  have keys: "fst ` set ?m = ?ids" by force
  have "drop_enclosing (order1 (map fst ?m)) ?m = filter (\<lambda>(k, n). k \<notin> set (order1 (map fst ?m)) \<or> \<not> encloses ?ids k) ?m"
    by (rule drop_enclosing_filter, unfold keys) simp_all
  also have "\<dots> = map (\<lambda>n. (wn_ID n, n)) (filter (\<lambda>n. \<not> encloses ?ids (wn_ID n)) ?texts)"
    unfolding assms(1) filter_map by (intro arg_cong [where f = "map _"] filter_cong) auto
  finally have deep: "drop_enclosing (order1 (map fst ?m)) ?m = map (\<lambda>n. (wn_ID n, n)) (filter (\<lambda>n. \<not> encloses ?ids (wn_ID n)) ?texts)" .
  let ?f = "\<lambda>(nid, n). outgoing_evidence byID binding n"
  have "mset (List.map_filter ?f (order2 (drop_enclosing (order1 (map fst ?m)) ?m))) =
      mset (List.map_filter ?f (drop_enclosing (order1 (map fst ?m)) ?m))"
    by (simp only: mset_map_filter assms(2))
  also have "\<dots> = mset (List.map_filter (outgoing_evidence byID binding) (filter (\<lambda>n. \<not> encloses ?ids (wn_ID n)) ?texts))"
    unfolding deep map_filter_map by (simp add: comp_def)
  finally have "mset (List.map_filter ?f (order2 (drop_enclosing (order1 (map fst ?m)) ?m))) =
      mset (List.map_filter (outgoing_evidence byID binding) (filter (\<lambda>n. \<not> encloses ?ids (wn_ID n)) ?texts))" .
  then show ?thesis
    unfolding bubble_evidence_def innermost_evidence_def Inr sum.case Let_def by (rule sort_perm)
qed

section \<open>An honest journal\<close>

text \<open>
  What a companion answers that keeps its events in a journal by sequence: the events after the cursor up
  to the limit, the sequence of the last of them as the next cursor, and whether nothing after the cursor
  was lost; \<open>lost\<close> is the sequence of the last event that fell out of the ring, or 0.
\<close>

definition journal_page :: "CompanionEvent list \<Rightarrow> int \<Rightarrow> int \<Rightarrow> int \<Rightarrow> EventPage" where
  "journal_page journal lost cursor limit =
     (let events = take (nat limit) (filter (\<lambda>e. ce_Sequence e > cursor) journal)
      in \<lparr>ep_Events = events,
          ep_NextCursor = word_of_int (if events = [] then cursor else ce_Sequence (last events)),
          ep_Complete = (lost \<le> cursor)\<rparr>)"

definition honest :: "wc_env \<Rightarrow> CompanionEvent list \<Rightarrow> int \<Rightarrow> bool" where
  "honest env journal lost \<longleftrightarrow>
     (\<forall>n cursor limit. en_events env n cursor limit = HttpResponse 200 [] (Inr (journal_page journal lost cursor limit))) \<and>
     sorted_wrt (\<lambda>a b. ce_Sequence a < ce_Sequence b) journal \<and> 0 \<le> lost \<and>
     (\<forall>e \<in> set journal. lost < ce_Sequence e \<and> ce_Sequence e < 2 ^ 63)"

definition cursor_at :: "CompanionEvent list \<Rightarrow> nat \<Rightarrow> int" where
  "cursor_at journal k = (if k = 0 then 0 else ce_Sequence (journal ! (k - 1)))"

lemma filter_after_cursor:
  assumes "honest env journal lost" and "k \<le> length journal"
  shows "filter (\<lambda>e. ce_Sequence e > cursor_at journal k) journal = drop k journal"
proof -
  have sorted: "sorted_wrt (\<lambda>a b. ce_Sequence a < ce_Sequence b) journal" using assms(1) by (simp add: honest_def)
  have pos: "0 < ce_Sequence e" if "e \<in> set journal" for e using assms(1) that by (fastforce simp: honest_def)
  have none: "\<not> ce_Sequence e > cursor_at journal k" if "e \<in> set (take k journal)" for e
  proof -
    from that obtain i where i: "i < k" "i < length journal" "e = journal ! i" by (auto simp: in_set_conv_nth)
    show ?thesis
    proof (cases "i = k - 1")
      case True
      with i show ?thesis by (simp add: cursor_at_def)
    next
      case False
      then have "i < k - 1" "k - 1 < length journal" using i assms(2) by linarith+
      from sorted_wrt_nth_less [OF sorted this] i show ?thesis by (simp add: cursor_at_def)
    qed
  qed
  have all: "ce_Sequence e > cursor_at journal k" if "e \<in> set (drop k journal)" for e
  proof -
    from that obtain i where i: "k \<le> i" "i < length journal" "e = journal ! i"
      by (auto simp: in_set_conv_nth) (metis add.commute le_add2 less_diff_conv)
    then show ?thesis
      using sorted_wrt_nth_less [OF sorted, of "k - 1" i] pos [of e] by (cases "k = 0") (auto simp: cursor_at_def)
  qed
  have "filter (\<lambda>e. ce_Sequence e > cursor_at journal k) (take k journal @ drop k journal) = drop k journal"
    unfolding filter_append using none all by (simp add: filter_empty_conv)
  then show ?thesis by simp
qed

lemma cursor_at_range:
  assumes "honest env journal lost" and "k \<le> length journal"
  shows "0 \<le> cursor_at journal k" "cursor_at journal k < 2 ^ 63" "0 < k \<Longrightarrow> lost < cursor_at journal k"
proof -
  have k: "lost < cursor_at journal k \<and> cursor_at journal k < 2 ^ 63" if "0 < k"
  proof -
    have "journal ! (k - 1) \<in> set journal" using that assms(2) by (intro nth_mem) linarith
    with assms(1) that show ?thesis by (simp add: honest_def cursor_at_def)
  qed
  have "0 \<le> lost" using assms(1) by (simp add: honest_def)
  with k show "0 \<le> cursor_at journal k" by (cases "k = 0") (auto simp: cursor_at_def)
  show "cursor_at journal k < 2 ^ 63" using k by (cases "k = 0") (auto simp: cursor_at_def)
  show "0 < k \<Longrightarrow> lost < cursor_at journal k" using k by blast
qed

lemma cursor_at_mono:
  assumes "honest env journal lost" and "k < k'" and "k' \<le> length journal"
  shows "cursor_at journal k < cursor_at journal k'"
proof (cases "k = 0")
  case True
  have "0 \<le> lost" using assms(1) by (simp add: honest_def)
  with True cursor_at_range(3) [OF assms(1,3)] assms(2) show ?thesis by (simp add: cursor_at_def)
next
  case False
  have "sorted_wrt (\<lambda>a b. ce_Sequence a < ce_Sequence b) journal" using assms(1) by (simp add: honest_def)
  moreover have "k - 1 < k' - 1" "k' - 1 < length journal" using False assms(2,3) by linarith+
  ultimately show ?thesis using sorted_wrt_nth_less [of _ journal "k - 1" "k' - 1"] False assms(2) by (simp add: cursor_at_def)
qed

lemma Events_honest:
  assumes "honest env journal lost" and "0 < limit" and "limit \<le> 500"
  shows "fst (Events env cursor limit d) = Inr (journal_page journal lost cursor limit)"
  using assms by (simp add: Events_def honest_def)

lemma sint_of_int64: "- (2 ^ 63) \<le> i \<Longrightarrow> i < 2 ^ 63 \<Longrightarrow> sint (word_of_int i :: 64 word) = i"
  using signed_take_bit_int_eq_self [of 63 i] by (simp add: sint_sbintrunc')

lemma all_events_honest:
  assumes honest: "honest env journal lost"
  shows "k \<le> length journal \<Longrightarrow> k \<le> 2000 \<Longrightarrow> whole = (k = 0 \<or> lost \<le> 0) \<Longrightarrow> sint cursor = cursor_at journal k \<Longrightarrow>
    fst (all_events env (take k journal) whole cursor d) =
      Inr \<lparr>eh_Events = take 2000 journal, eh_Complete = (lost \<le> 0 \<and> length journal \<le> 2000)\<rparr>"
proof (induction "2000 - k" arbitrary: k whole cursor d rule: less_induct)
  case less
  note unfold = all_events.simps [of env "take k journal" whole cursor d]
  have len: "length (take k journal) = k" using less.prems(1) by simp
  note range = cursor_at_range [OF honest less.prems(1)]
  have rest: "filter (\<lambda>e. ce_Sequence e > sint cursor) journal = drop k journal"
    unfolding less.prems(4) by (rule filter_after_cursor [OF honest less.prems(1)])
  have complete: "(whole \<and> lost \<le> sint cursor) \<longleftrightarrow> lost \<le> 0"
    using less.prems(3,4) range honest by (cases "k = 0") (auto simp: cursor_at_def)
  show ?case
  proof (cases "k = 2000")
    case True
    obtain r d1 where e: "Events env (sint cursor) 1 d = (r, d1)" by fastforce
    have r: "r = Inr (journal_page journal lost (sint cursor) 1)"
      using Events_honest [OF honest, of 1 "sint cursor" d] e by simp
    have "take 1 (drop k journal) = [] \<longleftrightarrow> length journal \<le> 2000" using True by auto
    then show ?thesis
      unfolding unfold len using True e r complete rest less.prems(1) by (auto simp: Let_def journal_page_def)
  next
    case False
    define limit where "limit = min 500 (2000 - int k)"
    have limit: "0 < limit" "limit \<le> 500" using False less.prems(2) by (auto simp: limit_def)
    obtain r d1 where e: "Events env (sint cursor) limit d = (r, d1)" by fastforce
    have r: "r = Inr (journal_page journal lost (sint cursor) limit)"
      using Events_honest [OF honest limit, of "sint cursor" d] e by simp
    define events where "events = take (nat limit) (drop k journal)"
    have page: "ep_Events (journal_page journal lost (sint cursor) limit) = events"
      by (simp add: journal_page_def rest events_def Let_def)
    have lim0: "min 500 (2000 - int (length (take k journal))) = limit" "limit \<noteq> 0" using len limit by (auto simp: limit_def)
    show ?thesis
    proof (cases "events = []")
      case True
      then have "length journal \<le> k" using limit by (auto simp: events_def)
      then have "k = length journal" using less.prems(1) by simp
      then show ?thesis
        unfolding unfold Let_def lim0(1) using lim0(2) e r page True complete less.prems(2)
        by (auto simp: journal_page_def Let_def rest events_def)
    next
      case nonempty: False
      define k' where "k' = k + length events"
      have k': "k' \<le> length journal" "k' \<le> 2000" "k < k'" "take k journal @ events = take k' journal"
        using nonempty limit less.prems(1) False less.prems(2)
        by (auto simp: k'_def events_def limit_def take_add min_def split: if_splits)
      have last: "ce_Sequence (last events) = cursor_at journal k'"
      proof -
        have "take k' journal \<noteq> []" using k'(1,3) by auto
        then have "last (take k' journal) = journal ! (k' - 1)" using k'(1) by (simp add: last_conv_nth)
        moreover have "last (take k' journal) = last events" unfolding k'(4) [symmetric] using nonempty by simp
        ultimately show ?thesis using k'(3) by (simp add: cursor_at_def)
      qed
      note range' = cursor_at_range [OF honest k'(1)]
      have next': "sint (ep_NextCursor (journal_page journal lost (sint cursor) limit)) = cursor_at journal k'"
        using nonempty last range' by (simp add: journal_page_def rest events_def [symmetric] Let_def sint_of_int64)
      have more: "\<not> cursor_at journal k' \<le> sint cursor"
        using cursor_at_mono [OF honest k'(3,1)] less.prems(4) by simp
      have whole': "(whole \<and> lost \<le> sint cursor) = (k' = 0 \<or> lost \<le> 0)" using complete k'(3) by simp
      have "fst (all_events env (take k' journal) (whole \<and> lost \<le> sint cursor)
          (ep_NextCursor (journal_page journal lost (sint cursor) limit)) d1) =
        Inr \<lparr>eh_Events = take 2000 journal, eh_Complete = (lost \<le> 0 \<and> length journal \<le> 2000)\<rparr>"
        by (rule less.hyps) (use k' whole' next' in auto)
      moreover have "ep_Complete (journal_page journal lost (sint cursor) limit) = (lost \<le> sint cursor)"
        by (simp add: journal_page_def Let_def)
      ultimately show ?thesis
        unfolding unfold Let_def lim0(1) using lim0(2) e r page nonempty next' more k'(4) by simp
    qed
  qed
qed

text \<open>The events of an honest journal are read whole, in order and once. If the companion answers from
  a journal sorted by sequence, pages of any size up to the limit included, reading all events terminates
  with the first 2,000 events of the journal, and the result is marked complete exactly when nothing had
  fallen out of the journal and it has at most 2,000 events.\<close>

theorem allEvents_reads_journal:
  assumes "honest env journal lost"
  shows "fst (allEvents env d) = Inr \<lparr>eh_Events = take 2000 journal, eh_Complete = (lost \<le> 0 \<and> length journal \<le> 2000)\<rparr>"
  unfolding allEvents_def using all_events_honest [OF assms, of 0 True 0 d] by (simp add: cursor_at_def)

end
