(* ===== verification/Spec2Isabelle.thy ===== *)
theory Spec2Isabelle
  imports Boundary_Props Outbox_Props Login_Props Service_Auth WeChat_Staging UIIndex_Props
    WeCom_Surface_Props WeCom_Read_Props
begin

text \<open>
  \<^bold>\<open>A verification development for wechatcopilot\<close>

  wechatcopilot is a local control plane for messaging accounts: a daemon on a Unix socket keeps a
  registry of accounts, runs the driver of at most one account per platform, ingests what the driver
  sees into a message index per account, and lets a confirmed transaction send a message. This
  development models the daemon's own logic and the drivers of the personal and of the enterprise
  client, from the Go sources under \<^verbatim>\<open>src/internal\<close>, and proves what makes them correct. To the daemon
  a driver is a parameter: what it answers is arbitrary; to the personal driver its backend and its
  index are, to the enterprise driver the accessibility companion and the Android container.

  \<^bold>\<open>Conventions.\<close> A Go struct is a record whose fields carry a short prefix and the Go name, a
  string-typed enumeration is a datatype, an error is a value of \<open>go_error\<close> and a fallible operation
  returns \<open>'a result = go_error + 'a\<close> (Inl is the error). Stateful operations take the state and
  return it updated, also on the error paths. Strings are byte strings (\<open>char list\<close>); times are
  nanoseconds, 0 is the zero time. What the operating system, the clock, the random source, SQLite
  and the drivers answer during one operation are the fields of an environment record
  (\<open>store_env\<close>, \<open>runtime_env\<close>, \<open>service_env\<close>, \<open>auth_env\<close>, ...): every failure they can report is a
  possible value, so a theorem about an operation holds for every failure of every call it makes.
  Where the program releases a lock in the middle of an operation, the section under each lock is a
  definition of its own, and interleavings are runs of a step relation over these sections.

  \<^bold>\<open>The parts and where they are.\<close>

  \<^item> \<^verbatim>\<open>Prelude\<close>, \<^verbatim>\<open>Go_Paths\<close>, \<^verbatim>\<open>Go_Time\<close>: the functions of Go's standard library that the code uses
    (TrimSpace, ToLower, filepath.Clean, Join and Rel, RFC 3339 formatting, bounded patterns), lists
    of records updated by key, and the locales \<open>invariant_system\<close> and \<open>progress_system\<close>, which every
    step relation of the development interprets.
  \<^item> \<^verbatim>\<open>Driver_Types\<close> (\<^verbatim>\<open>driver/driver.go\<close>, \<^verbatim>\<open>driver/capabilities.go\<close>): the data of the driver
    contract and the capability registry. \<^verbatim>\<open>Errors\<close> (\<^verbatim>\<open>api/api.go\<close>, \<^verbatim>\<open>service/driver_errors.go\<close>):
    error values with errors.Is, errors.As and errors.Join, classified driver failures, and the API
    envelope. \<^verbatim>\<open>Config\<close> (\<^verbatim>\<open>config/config.go\<close>): the layout of paths, the atomic replacement of a file
    and the swap policy. \<^verbatim>\<open>Boundary_Props\<close> has their properties.
  \<^item> \<^verbatim>\<open>Go_JSON\<close>: what \<^verbatim>\<open>encoding/json\<close> keeps of a text and how it fills the fields of a struct.
    \<^verbatim>\<open>Account_JSON\<close>: the JSON form of the registry file, with the tags of the structs.
    \<^verbatim>\<open>Account_Store\<close> (\<^verbatim>\<open>account/store.go\<close>): the registry of accounts, in memory and in its file, with
    the two-phase deletion. \<^verbatim>\<open>Account_Props\<close>: the registry's invariant along every sequence of
    operations and restarts, one active account per platform, irrevocable deletion confined to the
    account's directories, atomic failures and the round trip through the JSON of the file: free
    texts come back with their invalid bytes replaced, everything else as it was.
  \<^item> \<^verbatim>\<open>Index_Schema\<close>, \<^verbatim>\<open>Index_Store\<close> (\<^verbatim>\<open>index/store.go\<close>): the tables of a message index, its ownership
    checks and migrations, ingestion, listing, search, and the journal of sends. \<^verbatim>\<open>Index_Props\<close>:
    uniqueness and referential integrity, idempotent ingestion, paging, literal search patterns,
    binding to an owner, and the finality of terminal journal rows. An insert that SQLite ignores
    still advances the counter of row numbers (\<open>skip_rowid\<close>), and a pattern ends at its first NUL.
  \<^item> \<^verbatim>\<open>Runtime_Manager\<close> (\<^verbatim>\<open>runtime/manager.go\<close>): activation, deactivation, restore, shutdown, ingestion
    and the repair of a stopped ingestion loop, over a heap of runtimes. \<^verbatim>\<open>Runtime_Props\<close> has the
    invariant and \<^verbatim>\<open>Lifecycle_Props\<close> the properties: slots agree with the registry in every
    reachable state, a failed stop recovers, a failed restore keeps the request, a running account
    cannot be deleted.
  \<^item> \<^verbatim>\<open>Send_Transactions\<close> (\<^verbatim>\<open>service/transactions.go\<close>) and \<^verbatim>\<open>Send_Service\<close> (\<^verbatim>\<open>service/service.go\<close>): staging of
    attachments, the canonical hash, expiry, and the service that the daemon exposes.
    \<^verbatim>\<open>Send_Props\<close> follows every call of the driver through the journal; \<^verbatim>\<open>Outbox_Props\<close> states the
    contract as an abstract outbox that delivers a message together with taking its key, shows that
    the service refines it, and concludes that nothing is sent twice.
  \<^item> \<^verbatim>\<open>Auth_LAN\<close>, \<^verbatim>\<open>Auth_Challenge\<close>, \<^verbatim>\<open>Auth_Server\<close> (\<^verbatim>\<open>auth/manager.go\<close>): the address on which a login page
    is served (private, and on no interface that is down, a loopback, a bridge or excluded by its
    name), a login challenge section by section, its HTTP handlers, its monitor and the registry
    of challenges; \<^verbatim>\<open>Service_Auth\<close> has the service's operations on them. \<^verbatim>\<open>Auth_Steps\<close> is the transition
    system of a challenge with any number of handlers, \<^verbatim>\<open>Auth_Props\<close> its invariants and \<^verbatim>\<open>Login_Props\<close>
    the properties: confirmed actions are not replayed, codes are bounded, completion needs a stable
    run of observations and is final, the monitor ends, the page never shows a signed-in client.

  \<^item> \<^verbatim>\<open>Go_Text\<close>: UTF-8, runes and folding. \<^verbatim>\<open>WeChat_Profile\<close> (\<^verbatim>\<open>driver/wechat/profile.go\<close>): the private
    directories and the identity of an account's client, kept apart from the operator's own client.
    \<^verbatim>\<open>WeChat_Driver\<close> (\<^verbatim>\<open>driver/wechat/driver.go\<close>, \<^verbatim>\<open>backend.go\<close>, \<^verbatim>\<open>errors.go\<close>): the driver of the personal client,
    with a history of what it dispatched. \<^verbatim>\<open>WeChat_Props\<close>: the actions of ActSurface are one-shot and
    confirmed, a message is dispatched once per key; the share action that a send dispatches needs no
    confirmation and is not used up. \<^verbatim>\<open>WeChat_Staging\<close>: the files of a send stay in the outbox (the
    total of their sizes is an unbounded integer, where Go's would overflow near 2^63 bytes).
  \<^item> \<^verbatim>\<open>WeChat_UIIndex\<close> (\<^verbatim>\<open>driver/wechat/ui_index.go\<close>): the fallback index over what the client shows.
    \<^verbatim>\<open>UIIndex_Props\<close>: surface references are click leases, sequence numbers are cursors, and a send of the
    driver with this index is verified only by one more visible copy of its text.

  \<^item> \<^verbatim>\<open>WeCom_Text\<close>, \<^verbatim>\<open>WeCom_Nodes\<close>, \<^verbatim>\<open>WeCom_Guards\<close> (\<^verbatim>\<open>driver/wecom/driver.go\<close>, \<^verbatim>\<open>semantic_guards.go\<close>): how
    the driver of the enterprise client folds and matches the labels on the screen, the nodes of an
    accessibility tree, and its judgement of screens and actions. \<^verbatim>\<open>WeCom_Frame\<close> (\<^verbatim>\<open>send_guard.go\<close>):
    the frame of a conversation that a send is bound to. \<^verbatim>\<open>WeCom_Companion\<close> (\<^verbatim>\<open>companion.go\<close>): the
    requests to the companion, their outcomes and the waits, with a history of the calls and a clock.
    \<^verbatim>\<open>WeCom_Surface\<close>, \<^verbatim>\<open>WeCom_Send\<close>, \<^verbatim>\<open>WeCom_Auth\<close> (\<^verbatim>\<open>driver.go\<close>): surfaces, reading and sending, and
    authentication.
  \<^item> \<^verbatim>\<open>WeCom_Fold\<close>: invisible characters and full-width letters do not change what a marker matches.
    \<^verbatim>\<open>WeCom_Looks\<close>: what the observing functions leave alone. \<^verbatim>\<open>WeCom_Send_Props\<close>: a send clicks only
    what two observations in a row agree on, a verified result has its evidence on the screen, and
    with a companion that reports \<^verbatim>\<open>selected\<close> for every node no send ever clicks. \<^verbatim>\<open>WeCom_Steps\<close> is the
    transition system of the driver, and shows that a memo is kept. \<^verbatim>\<open>WeCom_Surface_Props\<close>: surface
    actions are one-shot over every run, and guarded. \<^verbatim>\<open>WeCom_Read_Props\<close>: journal, pages, bubbles and
    references. \<^verbatim>\<open>WeCom_Sample\<close> and \<^verbatim>\<open>WeCom_Scroll\<close> are sample runs for the witnesses.

  \<^bold>\<open>Termination and bounds.\<close> No definition uses fuel: loops are structural recursions, or recursions
  with a measure (\<open>trim_with\<close>, \<open>split_fields\<close>, \<open>dec_nat\<close>), among them the waits of the enterprise driver,
  whose clock reaches the deadline. Loops that wait - the ingestion ticker, the
  reaper of transactions, the monitor - are the repetition of their step; \<open>poll_rounds\<close> and
  \<open>monitor_loop\<close> recur on the list of rounds that the clock admits, and for the monitor it is proved
  that it returns once a tick is later than the expiry.

  \<^bold>\<open>Not modelled.\<close> The backend of the personal driver (\<^verbatim>\<open>docker.go\<close>, \<^verbatim>\<open>command.go\<close>, \<^verbatim>\<open>installer.go\<close>) and
  the runtime, profile and artifacts of the enterprise one (\<^verbatim>\<open>runtime.go\<close>, \<^verbatim>\<open>android.go\<close>, \<^verbatim>\<open>executor.go\<close>,
  \<^verbatim>\<open>config.go\<close>, \<^verbatim>\<open>profile.go\<close>, \<^verbatim>\<open>legacy_approval.go\<close>, \<^verbatim>\<open>artifact.go\<close>, and \<^verbatim>\<open>Purge\<close> in \<^verbatim>\<open>driver.go\<close>): they
  operate containers. The HTTP transport of the companion's client. The command line, the MCP server
  and the client of the daemon's socket: they translate arguments into requests. The doctor's
  inspection of the host and the pinning of index files by descriptor are system calls whose outcome
  is an argument.

  \<^bold>\<open>Parameters and abstractions.\<close> \<^verbatim>\<open>url.Parse\<close>, SQLite's full-text matching, SHA-256, the tables of letters,
  digits and lower case of the \<^verbatim>\<open>unicode\<close> package, and the digests over \<^verbatim>\<open>json.Marshal\<close> of a request or a
  screen are parameters. In the JSON of the registry file the digits of numbers and the layout are not
  represented, times are taken to be encodable, and a repeated \<^verbatim>\<open>accounts\<close> key is decoded afresh. Request
  bodies are fields that are already decoded. In the enterprise driver coordinates are unbounded
  integers, the histories of calls and the clock are ghost state, and conversations with the same time
  keep the order in which they were first seen.
\<close>

end
